(* ===== verification/Prelude.thy ===== *)
theory Prelude
  imports Main "HOL-Library.Word" "HOL-Library.List_Lexorder" "HOL-Library.Char_ord"
begin

text \<open>
  Shared vocabulary of the development: bytes and timestamps, results of
  operations that may throw, typed-array writes, and the insertion-ordered
  \<open>Map\<close> of the JavaScript standard library with the interface (a locale)
  that the in-memory stores of the program rest on.
\<close>

section \<open>Basic types\<close>

type_synonym byte = "8 word"
type_synonym bytes = "8 word list"

text \<open>
  A \<open>Date\<close> is its number of milliseconds since the epoch (\<open>Date.getTime()\<close>).
\<close>

type_synonym time = int

section \<open>Results of operations that may throw\<close>

text \<open>
  An operation that throws returns \<^term>\<open>Inl e\<close>; a normal return is \<^term>\<open>Inr v\<close>.
  \<open>bindR\<close> is sequencing: the first exception ends the computation.
\<close>

definition bindR :: "'e + 'a \<Rightarrow> ('a \<Rightarrow> 'e + 'b) \<Rightarrow> 'e + 'b" where
  "bindR r f = (case r of Inl e \<Rightarrow> Inl e | Inr x \<Rightarrow> f x)"

lemma bindR_simps [simp]:
  "bindR (Inl e) f = Inl e"
  "bindR (Inr x) f = f x"
  by (simp_all add: bindR_def)

lemma bindR_eq_Inr: "bindR r f = Inr y \<longleftrightarrow> (\<exists>x. r = Inr x \<and> f x = Inr y)"
  by (cases r) auto

lemma bindR_eq_Inl: "bindR r f = Inl e \<longleftrightarrow> r = Inl e \<or> (\<exists>x. r = Inr x \<and> f x = Inl e)"
  by (cases r) auto

text \<open>The guard of a \<open>throw\<close> statement.\<close>

definition guardR :: "bool \<Rightarrow> 'e \<Rightarrow> 'e + unit" where
  "guardR b e = (if b then Inr () else Inl e)"

lemma guardR_simps [simp]:
  "guardR True e = Inr ()"
  "guardR False e = Inl e"
  by (simp_all add: guardR_def)

lemma guardR_eq_Inr [simp]: "guardR b e = Inr u \<longleftrightarrow> b"
  by (simp add: guardR_def)

lemma guardR_eq_Inl [simp]: "guardR b e = Inl e' \<longleftrightarrow> \<not> b \<and> e' = e"
  by (auto simp add: guardR_def)

definition isInr :: "'e + 'a \<Rightarrow> bool" where
  "isInr r = (case r of Inl _ \<Rightarrow> False | Inr _ \<Rightarrow> True)"

lemma isInr_simps [simp]: "isInr (Inr x)" "\<not> isInr (Inl e)"
  by (simp_all add: isInr_def)

lemma isInr_iff: "isInr r \<longleftrightarrow> (\<exists>x. r = Inr x)"
  by (cases r) auto

text \<open>A loop over an array whose body may throw.\<close>

fun mapR :: "('a \<Rightarrow> 'e + 'b) \<Rightarrow> 'a list \<Rightarrow> 'e + 'b list" where
  "mapR f [] = Inr []"
| "mapR f (x # xs) = bindR (f x) (\<lambda>y. bindR (mapR f xs) (\<lambda>ys. Inr (y # ys)))"

lemma mapR_Inr: "(\<And>x. x \<in> set xs \<Longrightarrow> f x = Inr (g x)) \<Longrightarrow> mapR f xs = Inr (map g xs)"
  by (induction xs) auto

lemma mapR_length: "mapR f xs = Inr ys \<Longrightarrow> length ys = length xs"
  by (induction xs arbitrary: ys) (auto simp: bindR_eq_Inr)

lemma mapR_all: "mapR f xs = Inr ys \<Longrightarrow> y \<in> set ys \<Longrightarrow> \<exists>x \<in> set xs. f x = Inr y"
  by (induction xs arbitrary: ys) (auto simp: bindR_eq_Inr)

section \<open>Typed-array writes\<close>

text \<open>
  \<open>TypedArray.prototype.set(src, off)\<close>: overwrites in place and throws a
  \<open>RangeError\<close> when the source does not fit.
\<close>

definition buf_set :: "bytes \<Rightarrow> nat \<Rightarrow> bytes \<Rightarrow> bytes option" where
  "buf_set buf off src =
     (if off + length src \<le> length buf
      then Some (take off buf @ src @ drop (off + length src) buf) else None)"

section \<open>The insertion-ordered Map of the JavaScript library\<close>

text \<open>
  A \<open>Map\<close> iterates in insertion order; \<open>set\<close> on a present key keeps its
  position. It is modelled as the list of its entries in that order.
\<close>

type_synonym ('k, 'v) jsmap = "('k \<times> 'v) list"

abbreviation jsm_get :: "('k, 'v) jsmap \<Rightarrow> 'k \<Rightarrow> 'v option" where
  "jsm_get m k \<equiv> map_of m k"

fun jsm_set :: "'k \<Rightarrow> 'v \<Rightarrow> ('k, 'v) jsmap \<Rightarrow> ('k, 'v) jsmap" where
  "jsm_set k v [] = [(k, v)]"
| "jsm_set k v ((k', v') # m) = (if k' = k then (k, v) # m else (k', v') # jsm_set k v m)"

definition jsm_delete :: "'k \<Rightarrow> ('k, 'v) jsmap \<Rightarrow> ('k, 'v) jsmap" where
  "jsm_delete k m = filter (\<lambda>(k', v). k' \<noteq> k) m"

definition jsm_ok :: "('k, 'v) jsmap \<Rightarrow> bool" where
  "jsm_ok m = distinct (map fst m)"

lemma jsm_get_set [simp]: "jsm_get (jsm_set k v m) = (jsm_get m)(k \<mapsto> v)"
  by (induction m) (auto simp: fun_eq_iff)

lemma jsm_get_delete [simp]: "jsm_get (jsm_delete k m) = (jsm_get m)(k := None)"
  by (induction m) (auto simp: jsm_delete_def fun_eq_iff)

lemma jsm_keys_set [simp]: "fst ` set (jsm_set k v m) = insert k (fst ` set m)"
  by (induction k v m rule: jsm_set.induct) (simp_all add: insert_commute)

lemma jsm_ok_Nil [simp]: "jsm_ok []"
  by (simp add: jsm_ok_def)

lemma jsm_ok_Cons: "jsm_ok ((k, v) # m) \<longleftrightarrow> k \<notin> fst ` set m \<and> jsm_ok m"
  by (simp add: jsm_ok_def)

lemma jsm_ok_set [simp]: "jsm_ok m \<Longrightarrow> jsm_ok (jsm_set k v m)"
  by (induction k v m rule: jsm_set.induct) (auto simp: jsm_ok_Cons)

lemma jsm_ok_delete [simp]: "jsm_ok m \<Longrightarrow> jsm_ok (jsm_delete k m)"
  by (auto simp: jsm_ok_def jsm_delete_def distinct_map_filter)

lemma jsm_ok_filter: "jsm_ok m \<Longrightarrow> jsm_ok (filter P m)"
  by (auto simp: jsm_ok_def distinct_map_filter)

lemma jsm_entries: "jsm_ok m \<Longrightarrow> (k, v) \<in> set m \<longleftrightarrow> jsm_get m k = Some v"
  by (auto simp: jsm_ok_def)

lemma jsm_get_filter:
  "jsm_ok m \<Longrightarrow>
   jsm_get (filter P m) k = (case jsm_get m k of None \<Rightarrow> None
      | Some v \<Rightarrow> if P (k, v) then Some v else None)"
proof (induction m)
  case Nil
  then show ?case by simp
next
  case (Cons e m)
  obtain a b where e: "e = (a, b)" by force
  have "jsm_get (filter P m) a = None" if "a \<notin> fst ` set m"
    using that by (auto simp: map_of_eq_None_iff)
  with Cons e show ?case
    by (auto simp: jsm_ok_Cons split: option.splits)
qed

text \<open>
  The interface the stores rest on: a finite map with an enumeration of its
  values. Its lemmas are what a client needs about a sequence of writes.
\<close>

locale keyed_store =
  fixes get :: "'m \<Rightarrow> 'k \<Rightarrow> 'v option"
    and put :: "'k \<Rightarrow> 'v \<Rightarrow> 'm \<Rightarrow> 'm"
    and del :: "'k \<Rightarrow> 'm \<Rightarrow> 'm"
    and entries :: "'m \<Rightarrow> ('k \<times> 'v) list"
    and ok :: "'m \<Rightarrow> bool"
  assumes get_put: "get (put k v m) k' = (if k' = k then Some v else get m k')"
    and get_del: "get (del k m) k' = (if k' = k then None else get m k')"
    and ok_put: "ok m \<Longrightarrow> ok (put k v m)"
    and ok_del: "ok m \<Longrightarrow> ok (del k m)"
    and entries_get: "ok m \<Longrightarrow> (k, v) \<in> set (entries m) \<longleftrightarrow> get m k = Some v"
begin

lemma get_put_same: "get (put k v m) k = Some v"
  by (simp add: get_put)

lemma get_put_other: "k' \<noteq> k \<Longrightarrow> get (put k v m) k' = get m k'"
  by (simp add: get_put)

lemma put_twice: "get (put k v (put k w m)) = get (put k v m)"
  by (simp add: get_put fun_eq_iff)

lemma get_fold_del: "get (fold del ks m) k = (if k \<in> set ks then None else get m k)"
  by (induction ks arbitrary: m) (simp_all add: get_del)

lemma ok_fold_del: "ok m \<Longrightarrow> ok (fold del ks m)"
  by (induction ks arbitrary: m) (simp_all add: ok_del)

lemma all_put:
  assumes "ok m" and "\<forall>(k, v) \<in> set (entries m). P k v" and "P k v"
  shows "\<forall>(k', v') \<in> set (entries (put k v m)). P k' v'"
  using assms by (auto simp: entries_get ok_put get_put split: if_splits)

end

interpretation jsm: keyed_store map_of jsm_set jsm_delete "\<lambda>m. m" jsm_ok
  by unfold_locales (auto simp: jsm_entries)

end
