(* ===== verification/Merkle.thy ===== *)
theory Merkle
  imports Prelude
begin

text \<open>
  The Merkle tree of the transparency log: \<^verbatim>\<open>src/src/transparency/merkle.ts\<close>
  (hashing, proof construction, proof verification). The hash function
  (SHA-256 of the package noble-hashes) is the argument \<open>sha\<close>; what is used of
  it is \<open>hash32 sha\<close>, that its digests have 32 bytes. The base64 decoder of the
  platform is the argument \<open>dec\<close>.
\<close>

section \<open>Model\<close>

subsection \<open>Node hashes\<close>

datatype merkle_error = RangeErr | TooShort | UnusedSiblings nat | BadHashLength nat

text \<open>\<open>hashLeaf\<close>: the digest of the byte 0 followed by the entry.\<close>

definition hashLeaf :: "(bytes \<Rightarrow> bytes) \<Rightarrow> bytes \<Rightarrow> bytes" where
  "hashLeaf sha entry = sha (0 # entry)"

text \<open>
  \<open>hashInterior\<close> fills a 65-byte buffer with two \<open>set\<close> calls, each of which
  throws a \<open>RangeError\<close> when its source does not fit.
\<close>

definition hashInterior :: "(bytes \<Rightarrow> bytes) \<Rightarrow> bytes \<Rightarrow> bytes \<Rightarrow> merkle_error + bytes" where
  "hashInterior sha left right =
     (case buf_set (1 # replicate (32 + 32) 0) 1 left of
        None \<Rightarrow> Inl RangeErr
      | Some buf \<Rightarrow>
          (case buf_set buf 33 right of
             None \<Rightarrow> Inl RangeErr
           | Some buf' \<Rightarrow> Inr (sha buf')))"

subsection \<open>Tree construction and proofs\<close>

text \<open>The loop of \<open>largestPowerOfTwoLessThan\<close>; it is entered with \<open>k = 1\<close>.\<close>

function pow2_loop :: "nat \<Rightarrow> nat \<Rightarrow> nat" where
  "pow2_loop k n = (if 0 < k \<and> k * 2 < n then pow2_loop (k * 2) n else k)"
  by pat_completeness auto
termination by (relation "measure (\<lambda>(k, n). n - k)") auto

declare pow2_loop.simps [simp del]

definition largestPowerOfTwoLessThan :: "nat \<Rightarrow> nat" where
  "largestPowerOfTwoLessThan n = (if n \<le> 1 then 0 else pow2_loop 1 n)"

lemma pow2_loop_pow2: "\<exists>j. k = 2 ^ j \<Longrightarrow> \<exists>j. pow2_loop k n = 2 ^ j"
proof (induction k n rule: pow2_loop.induct)
  case (1 k n)
  then show ?case
    by (subst pow2_loop.simps) (metis mult.commute power_Suc)
qed

lemma pow2_loop_less: "k < n \<Longrightarrow> pow2_loop k n < n"
  by (induction k n rule: pow2_loop.induct) (subst pow2_loop.simps, auto)

lemma pow2_loop_pos: "0 < k \<Longrightarrow> 0 < pow2_loop k n"
  by (induction k n rule: pow2_loop.induct) (subst pow2_loop.simps, auto)

lemma pow2_loop_ge: "0 < k \<Longrightarrow> n \<le> 2 * pow2_loop k n"
  by (induction k n rule: pow2_loop.induct) (subst pow2_loop.simps, auto)

lemma lp2_less: "1 < n \<Longrightarrow> largestPowerOfTwoLessThan n < n"
  by (simp add: largestPowerOfTwoLessThan_def pow2_loop_less)

lemma lp2_pos: "1 < n \<Longrightarrow> 0 < largestPowerOfTwoLessThan n"
  by (simp add: largestPowerOfTwoLessThan_def pow2_loop_pos)

lemma lp2_ge: "1 < n \<Longrightarrow> n \<le> 2 * largestPowerOfTwoLessThan n"
  by (simp add: largestPowerOfTwoLessThan_def pow2_loop_ge)

lemma lp2_pow2: "1 < n \<Longrightarrow> \<exists>j. largestPowerOfTwoLessThan n = 2 ^ j"
  unfolding largestPowerOfTwoLessThan_def
  using pow2_loop_pow2 [of 1 n] by (metis not_le power_0)

lemma lp2_0 [simp]: "largestPowerOfTwoLessThan 0 = 0"
  by (simp add: largestPowerOfTwoLessThan_def)

lemma lp2_lt: "0 < n \<Longrightarrow> largestPowerOfTwoLessThan n < n"
  by (cases "n = 1") (simp add: largestPowerOfTwoLessThan_def, simp add: lp2_less)

lemma lp2_take: "xs \<noteq> [] \<Longrightarrow> length (take (largestPowerOfTwoLessThan (length xs)) xs) < length xs"
  using lp2_lt [of "length xs"] by simp

lemma lp2_drop: "1 < length xs \<Longrightarrow> length (drop (largestPowerOfTwoLessThan (length xs)) xs) < length xs"
  using lp2_pos [of "length xs"] by (simp add: diff_less)

text \<open>\<open>subtreeRoot\<close>: the tree hash; an empty list gives 32 zero bytes.\<close>

function subtreeRoot :: "(bytes \<Rightarrow> bytes) \<Rightarrow> bytes list \<Rightarrow> merkle_error + bytes" where
  "subtreeRoot sha leaves =
     (if length leaves = 0 then Inr (replicate 32 0)
      else if length leaves = 1 then Inr (leaves ! 0)
      else let k = largestPowerOfTwoLessThan (length leaves) in
        bindR (subtreeRoot sha (take k leaves)) (\<lambda>left.
        bindR (subtreeRoot sha (drop k leaves)) (\<lambda>right.
        hashInterior sha left right)))"
  by pat_completeness auto
termination
  by (relation "measure (\<lambda>(sha, leaves). length leaves)")
     (simp_all only: wf_measure in_measure prod.case, auto simp del: length_take length_drop
       intro!: lp2_take lp2_drop simp: Suc_lessI)

function auditPath :: "(bytes \<Rightarrow> bytes) \<Rightarrow> nat \<Rightarrow> bytes list \<Rightarrow> merkle_error + bytes list" where
  "auditPath sha m leaves =
     (if length leaves \<le> 1 then Inr []
      else let k = largestPowerOfTwoLessThan (length leaves) in
        if m < k then
          bindR (auditPath sha m (take k leaves)) (\<lambda>path.
          bindR (subtreeRoot sha (drop k leaves)) (\<lambda>h. Inr (path @ [h])))
        else
          bindR (auditPath sha (m - k) (drop k leaves)) (\<lambda>path.
          bindR (subtreeRoot sha (take k leaves)) (\<lambda>h. Inr (path @ [h]))))"
  by pat_completeness auto
termination
  by (relation "measure (\<lambda>(sha, m, leaves). length leaves)")
     (simp_all only: wf_measure in_measure prod.case, auto simp del: length_take length_drop
       intro!: lp2_take lp2_drop)

text \<open>
  \<open>subproof\<close>. With at most one leaf and \<open>m\<close> beyond it the source calls itself on
  the same leaves for ever, which the runtime ends with a \<open>RangeError\<close>.
\<close>

function subproof :: "(bytes \<Rightarrow> bytes) \<Rightarrow> nat \<Rightarrow> bytes list \<Rightarrow> bool \<Rightarrow> merkle_error + bytes list" where
  "subproof sha m leaves b =
     (let n = length leaves in
      if m = n then (if b then Inr [] else bindR (subtreeRoot sha leaves) (\<lambda>h. Inr [h]))
      else let k = largestPowerOfTwoLessThan n in
        if m \<le> k then
          bindR (subproof sha m (take k leaves) b) (\<lambda>path.
          bindR (subtreeRoot sha (drop k leaves)) (\<lambda>h. Inr (path @ [h])))
        else if n \<le> 1 then Inl RangeErr
        else
          bindR (subproof sha (m - k) (drop k leaves) False) (\<lambda>path.
          bindR (subtreeRoot sha (take k leaves)) (\<lambda>h. Inr (path @ [h]))))"
  by pat_completeness auto
termination
proof (relation "measure (\<lambda>(sha, m, leaves, b). length leaves)", goal_cases)
  case 1
  show ?case by simp
next
  case (2 sha m leaves b n k)
  then have "0 < length leaves" by (cases leaves) auto
  with 2 show ?case using lp2_lt [of "length leaves"] by simp
next
  case (3 sha m leaves b n k)
  then show ?case using lp2_drop [of leaves] by simp
qed

declare subtreeRoot.simps [simp del] auditPath.simps [simp del] subproof.simps [simp del]

subsection \<open>Proof verification\<close>

text \<open>
  The bit operations of the verifier act on the low 32 bits of a number:
  \<open>x >>> 1\<close> is \<open>shr1\<close>, and \<open>x & 1\<close> is the parity.
\<close>

definition shr1 :: "nat \<Rightarrow> nat" where
  "shr1 n = (n mod 2 ^ 32) div 2"

lemma shr1_le: "shr1 n \<le> n div 2"
  unfolding shr1_def by (intro div_le_mono mod_less_eq_dividend)

lemma shr1_less: "0 < n \<Longrightarrow> shr1 n < n"
  using shr1_le [of n] by simp

lemma shr1_eq: "n < 2 ^ 32 \<Longrightarrow> shr1 n = n div 2"
  by (simp add: shr1_def)

text \<open>The inner loops: shifting out trailing zeros, and trailing ones.\<close>

function strip_zeros :: "nat \<Rightarrow> nat \<Rightarrow> nat \<times> nat" where
  "strip_zeros fn sn =
     (if fn \<noteq> 0 \<and> fn mod 2 = 0 then strip_zeros (shr1 fn) (shr1 sn) else (fn, sn))"
  by pat_completeness auto
termination by (relation "measure fst") (auto simp: shr1_less)

function strip_ones :: "nat \<Rightarrow> nat \<Rightarrow> nat \<times> nat" where
  "strip_ones fn sn =
     (if fn mod 2 = 1 then strip_ones (shr1 fn) (shr1 sn) else (fn, sn))"
  by pat_completeness auto
termination by (relation "measure fst") (auto intro!: shr1_less elim: oddE)

declare strip_zeros.simps [simp del] strip_ones.simps [simp del]

text \<open>
  \<open>computeRootFromInclusion\<close>: the \<open>while\<close> loop. The unread part of
  \<open>siblings\<close> stands for \<open>pathIdx\<close>.
\<close>

fun inclusionLoop ::
  "(bytes \<Rightarrow> bytes) \<Rightarrow> nat \<Rightarrow> nat \<Rightarrow> bytes \<Rightarrow> bytes list \<Rightarrow> merkle_error + bytes"
where
  "inclusionLoop sha fn sn r [] = (if sn > 0 then Inl TooShort else Inr r)"
| "inclusionLoop sha fn sn r (s # siblings) =
     (if sn > 0 then
        (if fn mod 2 = 1 \<or> fn = sn then
           bindR (hashInterior sha s r) (\<lambda>r'.
           let (fn', sn') = strip_zeros fn sn in
           inclusionLoop sha (shr1 fn') (shr1 sn') r' siblings)
         else
           bindR (hashInterior sha r s) (\<lambda>r'.
           inclusionLoop sha (shr1 fn) (shr1 sn) r' siblings))
      else Inl (UnusedSiblings (length (s # siblings))))"

definition computeRootFromInclusion ::
  "(bytes \<Rightarrow> bytes) \<Rightarrow> nat \<Rightarrow> nat \<Rightarrow> bytes \<Rightarrow> bytes list \<Rightarrow> merkle_error + bytes"
where
  "computeRootFromInclusion sha leafIndex treeSize leaf siblings =
     inclusionLoop sha leafIndex (treeSize - 1) leaf siblings"

fun consistencyLoop ::
  "(bytes \<Rightarrow> bytes) \<Rightarrow> nat \<Rightarrow> nat \<Rightarrow> bytes \<Rightarrow> bytes \<Rightarrow> bytes list \<Rightarrow> merkle_error + bytes \<times> bytes"
where
  "consistencyLoop sha fn sn fr sr [] = (if sn > 0 then Inl TooShort else Inr (fr, sr))"
| "consistencyLoop sha fn sn fr sr (c # path) =
     (if sn > 0 then
        (if fn mod 2 = 1 \<or> fn = sn then
           bindR (hashInterior sha c fr) (\<lambda>fr'.
           bindR (hashInterior sha c sr) (\<lambda>sr'.
           let (fn', sn') = strip_zeros fn sn in
           consistencyLoop sha (shr1 fn') (shr1 sn') fr' sr' path))
         else
           bindR (hashInterior sha sr c) (\<lambda>sr'.
           consistencyLoop sha (shr1 fn) (shr1 sn) fr sr' path))
      else Inl (UnusedSiblings (length (c # path))))"

definition computeRootsFromConsistency ::
  "(bytes \<Rightarrow> bytes) \<Rightarrow> nat \<Rightarrow> nat \<Rightarrow> bytes \<Rightarrow> bytes list \<Rightarrow> merkle_error + bytes \<times> bytes"
where
  "computeRootsFromConsistency sha firstSize secondSize firstRoot path =
     (let (fn, sn) = strip_ones (firstSize - 1) (secondSize - 1) in
      if fn \<noteq> 0 then
        (case path of
           [] \<Rightarrow> Inl TooShort
         | s # path' \<Rightarrow> consistencyLoop sha fn sn s s path')
      else consistencyLoop sha fn sn firstRoot firstRoot path)"

definition decodeHash :: "('s \<Rightarrow> bytes) \<Rightarrow> 's \<Rightarrow> merkle_error + bytes" where
  "decodeHash dec s =
     (if length (dec s) \<noteq> 32 then Inl (BadHashLength (length (dec s))) else Inr (dec s))"

definition decodeHashes :: "('s \<Rightarrow> bytes) \<Rightarrow> 's list \<Rightarrow> merkle_error + bytes list" where
  "decodeHashes dec items = mapR (decodeHash dec) items"

definition encodeHash :: "(bytes \<Rightarrow> 's) \<Rightarrow> bytes \<Rightarrow> merkle_error + 's" where
  "encodeHash enc h = (if length h \<noteq> 32 then Inl (BadHashLength (length h)) else Inr (enc h))"

text \<open>The wire records; \<open>'s\<close> is the type of base64 strings.\<close>

record 's inclusion_proof =
  ip_log_size :: int
  ip_leaf_hash :: 's
  ip_leaf_index :: int
  ip_path :: "'s list"

record 's consistency_proof =
  cp_from_size :: int
  cp_to_size :: int
  cp_path :: "'s list"

definition verifyInclusionProof ::
  "(bytes \<Rightarrow> bytes) \<Rightarrow> ('s \<Rightarrow> bytes) \<Rightarrow> 's inclusion_proof \<Rightarrow> bytes \<Rightarrow> bool"
where
  "verifyInclusionProof sha dec proof rootHash =
     (if ip_log_size proof \<le> 0 then False
      else if ip_leaf_index proof < 0 \<or> ip_leaf_index proof \<ge> ip_log_size proof then False
      else case bindR (decodeHash dec (ip_leaf_hash proof)) (\<lambda>leaf.
                bindR (decodeHashes dec (ip_path proof)) (\<lambda>siblings.
                computeRootFromInclusion sha (nat (ip_leaf_index proof))
                  (nat (ip_log_size proof)) leaf siblings)) of
             Inl _ \<Rightarrow> False
           | Inr computed \<Rightarrow> computed = rootHash)"

definition verifyConsistencyProof ::
  "(bytes \<Rightarrow> bytes) \<Rightarrow> ('s \<Rightarrow> bytes) \<Rightarrow> 's consistency_proof \<Rightarrow> bytes \<Rightarrow> bytes \<Rightarrow> bool"
where
  "verifyConsistencyProof sha dec proof firstRoot secondRoot =
     (if cp_from_size proof < 0 \<or> cp_to_size proof < 0 then False
      else if cp_from_size proof > cp_to_size proof then False
      else if cp_from_size proof = cp_to_size proof then
        (if cp_path proof \<noteq> [] then False else firstRoot = secondRoot)
      else if cp_from_size proof = 0 then cp_path proof = []
      else case bindR (decodeHashes dec (cp_path proof)) (\<lambda>siblings.
                computeRootsFromConsistency sha (nat (cp_from_size proof))
                  (nat (cp_to_size proof)) firstRoot siblings) of
             Inl _ \<Rightarrow> False
           | Inr (first, second) \<Rightarrow> first = firstRoot \<and> second = secondRoot)"

end
