(* ===== verification/MerkleProofs.thy ===== *)
theory MerkleProofs
  imports Merkle
begin

text \<open>
  The Merkle proofs verify: for every tree the proof builders
  (\<open>auditPath\<close>, \<open>subproof\<close>) and the proof checkers (the bit-shifting loops of
  \<open>verifyInclusionProof\<close> and \<open>verifyConsistencyProof\<close>) agree, and an accepted
  inclusion proof binds the leaf unless two different inputs of the hash
  function with the same digest are at hand.
\<close>

section \<open>Trees of 32-byte leaves\<close>

definition hash32 :: "(bytes \<Rightarrow> bytes) \<Rightarrow> bool" where
  "hash32 sha \<longleftrightarrow> (\<forall>m. length (sha m) = 32)"

definition leaves32 :: "bytes list \<Rightarrow> bool" where
  "leaves32 ls \<longleftrightarrow> (\<forall>l \<in> set ls. length l = 32)"

lemma leaves32_simps [simp]:
  "leaves32 []" "leaves32 (l # ls) \<longleftrightarrow> length l = 32 \<and> leaves32 ls"
  "leaves32 (xs @ ys) \<longleftrightarrow> leaves32 xs \<and> leaves32 ys"
  by (auto simp: leaves32_def)

lemma leaves32_take [simp]: "leaves32 ls \<Longrightarrow> leaves32 (take k ls)"
  by (auto simp: leaves32_def dest: in_set_takeD)

lemma leaves32_drop [simp]: "leaves32 ls \<Longrightarrow> leaves32 (drop k ls)"
  by (auto simp: leaves32_def dest: in_set_dropD)

lemma leaves32_nth: "leaves32 ls \<Longrightarrow> i < length ls \<Longrightarrow> length (ls ! i) = 32"
  by (simp add: leaves32_def)

text \<open>On 32-byte inputs the buffer of \<open>hashInterior\<close> is filled exactly.\<close>

definition nodeInput :: "bytes \<Rightarrow> bytes \<Rightarrow> bytes" where
  "nodeInput l r = 1 # l @ r"

lemma hashInterior_32:
  "length l = 32 \<Longrightarrow> length r = 32 \<Longrightarrow> hashInterior sha l r = Inr (sha (nodeInput l r))"
  by (simp add: hashInterior_def buf_set_def nodeInput_def)

lemma nodeInput_inject:
  "length l = length l' \<Longrightarrow> nodeInput l r = nodeInput l' r' \<longleftrightarrow> l = l' \<and> r = r'"
  by (simp add: nodeInput_def)

definition root :: "(bytes \<Rightarrow> bytes) \<Rightarrow> bytes list \<Rightarrow> bytes" where
  "root sha ls = projr (subtreeRoot sha ls)"

abbreviation lp2 :: "nat \<Rightarrow> nat" where
  "lp2 \<equiv> largestPowerOfTwoLessThan"

lemma subtreeRoot_32:
  assumes "hash32 sha" and "leaves32 ls"
  shows "subtreeRoot sha ls = Inr (root sha ls) \<and> length (root sha ls) = 32"
  using assms
proof (induction sha ls rule: subtreeRoot.induct)
  case (1 sha ls)
  consider "ls = []" | "length ls = 1" | "1 < length ls"
    by (cases ls) auto
  then show ?case
  proof cases
    case 3
    then have "ls \<noteq> []" by auto
    with 3 1 have "subtreeRoot sha (take (lp2 (length ls)) ls)
          = Inr (root sha (take (lp2 (length ls)) ls)) \<and>
        length (root sha (take (lp2 (length ls)) ls)) = 32"
      "subtreeRoot sha (drop (lp2 (length ls)) ls) = Inr (root sha (drop (lp2 (length ls)) ls)) \<and>
        length (root sha (drop (lp2 (length ls)) ls)) = 32"
      by auto
    with 3 "1.prems" show ?thesis
      by (simp add: root_def [of sha ls] subtreeRoot.simps [of sha ls] hashInterior_32 hash32_def Let_def)
  qed (simp_all add: root_def subtreeRoot.simps [of sha "[]"] subtreeRoot.simps [of sha ls]
      leaves32_nth "1.prems")
qed

lemmas root_len = subtreeRoot_32 [THEN conjunct2]
lemmas subtreeRoot_root = subtreeRoot_32 [THEN conjunct1]

lemma root_single: "length ls = 1 \<Longrightarrow> root sha ls = ls ! 0"
  by (auto simp: root_def subtreeRoot.simps [of sha ls])

lemma root_split:
  assumes "hash32 sha" "leaves32 ls" "1 < length ls"
  shows "root sha ls = sha (nodeInput (root sha (take (lp2 (length ls)) ls))
                                      (root sha (drop (lp2 (length ls)) ls)))"
proof -
  from assms have "ls \<noteq> []" by auto
  with assms show ?thesis
  by (simp add: root_def [of sha ls] subtreeRoot.simps [of sha ls] subtreeRoot_root
      hashInterior_32 root_len Let_def)
qed

definition apath :: "(bytes \<Rightarrow> bytes) \<Rightarrow> nat \<Rightarrow> bytes list \<Rightarrow> bytes list" where
  "apath sha m ls = projr (auditPath sha m ls)"

lemma auditPath_32:
  assumes "hash32 sha" and "leaves32 ls"
  shows "auditPath sha m ls = Inr (apath sha m ls) \<and> leaves32 (apath sha m ls)"
  using assms
proof (induction sha m ls rule: auditPath.induct)
  case (1 sha m ls)
  show ?case
  proof (cases "length ls \<le> 1")
    case True
    then show ?thesis by (simp add: apath_def auditPath.simps [of sha m ls])
  next
    case False
    with 1 show ?thesis
      by (cases "m < lp2 (length ls)")
         (simp_all add: apath_def [of sha m ls] auditPath.simps [of sha m ls]
            subtreeRoot_root root_len Let_def)
  qed
qed

lemma apath_small: "length ls \<le> 1 \<Longrightarrow> apath sha m ls = []"
  by (simp add: apath_def auditPath.simps [of sha m ls])

lemma apath_split:
  assumes "hash32 sha" "leaves32 ls" "1 < length ls"
  shows "apath sha m ls =
    (let k = lp2 (length ls) in
     if m < k then apath sha m (take k ls) @ [root sha (drop k ls)]
     else apath sha (m - k) (drop k ls) @ [root sha (take k ls)])"
  using assms
  by (simp add: apath_def [of sha m ls] auditPath.simps [of sha m ls] auditPath_32 [THEN conjunct1]
      subtreeRoot_root Let_def)

definition sproof :: "(bytes \<Rightarrow> bytes) \<Rightarrow> nat \<Rightarrow> bytes list \<Rightarrow> bool \<Rightarrow> bytes list" where
  "sproof sha m ls b = projr (subproof sha m ls b)"

lemma subproof_32:
  assumes "hash32 sha" and "leaves32 ls" and "1 \<le> m" and "m \<le> length ls"
  shows "subproof sha m ls b = Inr (sproof sha m ls b) \<and> leaves32 (sproof sha m ls b)"
  using assms
proof (induction sha m ls b rule: subproof.induct)
  case (1 sha m ls b)
  show ?case
  proof (cases "m = length ls")
    case True
    with "1.prems" show ?thesis
      by (simp add: sproof_def subproof.simps [of sha "length ls" ls] subtreeRoot_root root_len)
  next
    case False
    with "1.prems" have n: "1 < length ls" by simp
    then have "lp2 (length ls) < length ls" by (rule lp2_less)
    with n False 1 show ?thesis
      by (cases "m \<le> lp2 (length ls)")
         (simp_all add: sproof_def [of sha m ls] subproof.simps [of sha m ls]
            subtreeRoot_root root_len Let_def)
  qed
qed

lemma sproof_full: "hash32 sha \<Longrightarrow> leaves32 ls \<Longrightarrow>
  sproof sha (length ls) ls b = (if b then [] else [root sha ls])"
  by (simp add: sproof_def subproof.simps [of sha "length ls" ls] subtreeRoot_root)

lemma sproof_split:
  assumes "hash32 sha" "leaves32 ls" "1 \<le> m" "m < length ls"
  shows "sproof sha m ls b =
    (let k = lp2 (length ls) in
     if m \<le> k then sproof sha m (take k ls) b @ [root sha (drop k ls)]
     else sproof sha (m - k) (drop k ls) False @ [root sha (take k ls)])"
proof -
  have "lp2 (length ls) < length ls" using assms by (intro lp2_less) simp
  with assms show ?thesis
    by (simp add: sproof_def [of sha m ls] subproof.simps [of sha m ls]
        subproof_32 [THEN conjunct1] subtreeRoot_root Let_def)
qed

text \<open>The split point is the power of two that bounds the size from below.\<close>

lemma lp2_unique:
  assumes "2 ^ j < n" and "n \<le> 2 * 2 ^ j"
  shows "lp2 n = 2 ^ j"
proof -
  from assms(1) have "1 < n" by (meson le_less_trans one_le_numeral one_le_power)
  then obtain i where i: "lp2 n = 2 ^ i" using lp2_pow2 by blast
  have "lp2 n < n" "n \<le> 2 * lp2 n" using \<open>1 < n\<close> by (simp_all add: lp2_less lp2_ge)
  with i assms have "(2::nat) ^ i < 2 ^ Suc j" "(2::nat) ^ j < 2 ^ Suc i" by auto
  then have "i < Suc j" "j < Suc i" by (metis one_less_numeral_iff power_strict_increasing_iff semiring_norm(76))+
  then show ?thesis using i by simp
qed

section \<open>Steps of the inclusion loop\<close>

lemma strip_zeros_odd: "odd fn \<Longrightarrow> strip_zeros fn sn = (fn, sn)"
  by (simp add: strip_zeros.simps [of fn sn] odd_iff_mod_2_eq_one)

lemma strip_zeros_edge:
  "(2 * a + 1) * 2 ^ e < 2 ^ 32 \<Longrightarrow>
   strip_zeros ((2 * a + 1) * 2 ^ e) ((2 * a + 1) * 2 ^ e) = (2 * a + 1, 2 * a + 1)"
proof (induction e)
  case 0
  then show ?case by (simp add: strip_zeros.simps)
next
  case (Suc e)
  have "shr1 ((2 * a + 1) * 2 ^ Suc e) = (2 * a + 1) * 2 ^ e"
    using Suc.prems by (subst shr1_eq) simp_all
  moreover have "(2 * a + 1) * 2 ^ e < 2 ^ 32" using Suc.prems by simp
  ultimately show ?case
    using Suc.IH by (subst strip_zeros.simps) simp
qed

lemma step_even:
  assumes "even fn" "fn < sn" "sn < 2 ^ 32" "length r = 32" "length s = 32"
  shows "inclusionLoop sha fn sn r (s # p) =
    inclusionLoop sha (fn div 2) (sn div 2) (sha (nodeInput r s)) p"
  using assms by (auto simp: hashInterior_32 shr1_eq odd_iff_mod_2_eq_one)

lemma step_odd:
  assumes "odd fn" "fn < sn" "sn < 2 ^ 32" "length r = 32" "length s = 32"
  shows "inclusionLoop sha fn sn r (s # p) =
    inclusionLoop sha (fn div 2) (sn div 2) (sha (nodeInput s r)) p"
  using assms
  by (auto simp: hashInterior_32 shr1_eq odd_iff_mod_2_eq_one strip_zeros_odd)

lemma step_edge:
  assumes "x = (2 * a + 1) * 2 ^ e" "x < 2 ^ 32" "length r = 32" "length s = 32"
  shows "inclusionLoop sha x x r (s # p) = inclusionLoop sha a a (sha (nodeInput s r)) p"
proof -
  have "(2 * a + 1) * 1 \<le> (2 * a + 1) * 2 ^ e" by (intro mult_le_mono) simp_all
  with assms(1,2) have "2 * a + 1 < 2 ^ 32" and x: "0 < x" by auto
  then have "shr1 (2 * a + 1) = a" by (simp add: shr1_eq)
  moreover have "strip_zeros x x = (2 * a + 1, 2 * a + 1)"
    using strip_zeros_edge [of a e] assms(1,2) by simp
  ultimately show ?thesis using x assms(3,4) by (simp add: hashInterior_32)
qed

section \<open>Inclusion proofs are accepted\<close>

text \<open>A complete subtree that lies strictly left of the last leaf.\<close>

lemma inclusion_complete_subtree:
  assumes "hash32 sha" "leaves32 ls" "length ls = 2 ^ j" "m < 2 ^ j"
    and "q < sn div 2 ^ j" "sn < 2 ^ 32"
  shows "inclusionLoop sha (q * 2 ^ j + m) sn (ls ! m) (apath sha m ls @ rest) =
    inclusionLoop sha q (sn div 2 ^ j) (root sha ls) rest"
  using assms
proof (induction j arbitrary: ls m q rest)
  case 0
  then show ?case by (simp add: apath_small root_single)
next
  case (Suc j)
  have n: "1 < length ls" using Suc.prems(3) one_less_power [of "2::nat" "Suc j"] by simp
  have k: "lp2 (length ls) = 2 ^ j" using Suc.prems(3) by (intro lp2_unique) simp_all
  let ?L = "take (2 ^ j) ls" and ?R = "drop (2 ^ j) ls" and ?t = "sn div 2 ^ j"
  have t: "?t div 2 = sn div 2 ^ Suc j" by (simp only: power_Suc2 div_mult2_eq)
  have len: "length ?L = 2 ^ j" "length ?R = 2 ^ j" using Suc.prems(3) by auto
  have q: "2 * q + 1 < ?t" using Suc.prems(5) t by linarith
  have tb: "?t < 2 ^ 32" using Suc.prems(6) by (meson div_le_dividend le_less_trans)
  have l32: "length (root sha ?L) = 32" "length (root sha ?R) = 32"
    using Suc.prems by (simp_all add: root_len)
  have rt: "root sha ls = sha (nodeInput (root sha ?L) (root sha ?R))"
    using root_split [OF Suc.prems(1,2) n] k by simp
  show ?case
  proof (cases "m < 2 ^ j")
    case True
    have "inclusionLoop sha ((2 * q) * 2 ^ j + m) sn (?L ! m) (apath sha m ?L @ root sha ?R # rest)
        = inclusionLoop sha (2 * q) ?t (root sha ?L) (root sha ?R # rest)"
      using Suc.prems q len True by (intro Suc.IH) simp_all
    also have "\<dots> = inclusionLoop sha q (?t div 2) (root sha ls) rest"
      using q tb l32 rt by (subst step_even) auto
    finally show ?thesis
      using True t k n Suc.prems by (simp add: apath_split Let_def mult.assoc mult.left_commute [of 2])
  next
    case False
    then have m: "m - 2 ^ j < 2 ^ j" "2 ^ j + (m - 2 ^ j) = m" using Suc.prems(4) by auto
    have "inclusionLoop sha ((2 * q + 1) * 2 ^ j + (m - 2 ^ j)) sn (?R ! (m - 2 ^ j))
          (apath sha (m - 2 ^ j) ?R @ root sha ?L # rest)
        = inclusionLoop sha (2 * q + 1) ?t (root sha ?R) (root sha ?L # rest)"
      using Suc.prems q len m by (intro Suc.IH) simp_all
    also have "\<dots> = inclusionLoop sha q (?t div 2) (root sha ls) rest"
      using q tb l32 rt by (subst step_odd) auto
    finally have "inclusionLoop sha ((2 * q + 1) * 2 ^ j + (m - 2 ^ j)) sn (ls ! m)
          (apath sha m ls @ rest) = inclusionLoop sha q (sn div 2 ^ Suc j) (root sha ls) rest"
      using False t k n m Suc.prems by (simp add: apath_split Let_def)
    moreover have "(2 * q + 1) * 2 ^ j + (m - 2 ^ j) = q * 2 ^ Suc j + m"
      using m(2) by (simp add: algebra_simps)
    ultimately show ?thesis by (simp only:)
  qed
qed

text \<open>The least exponent whose power of two covers a size.\<close>

definition tight :: "nat \<Rightarrow> nat \<Rightarrow> bool" where
  "tight c n \<longleftrightarrow> n \<le> 2 ^ c \<and> (c = 0 \<or> 2 ^ (c - 1) < n)"

lemma tight_exists: "1 \<le> n \<Longrightarrow> \<exists>c. tight c n"
proof -
  assume "1 \<le> n"
  let ?c = "LEAST c. n \<le> 2 ^ c"
  have "n \<le> 2 ^ n" by (simp add: less_imp_le)
  then have "n \<le> 2 ^ ?c" by (rule LeastI)
  moreover have "?c = 0 \<or> 2 ^ (?c - 1) < n"
    using not_less_Least [of "?c - 1" "\<lambda>c. n \<le> 2 ^ c"] by (cases ?c) auto
  ultimately show ?thesis by (auto simp: tight_def)
qed

lemma tight_Suc: "tight c n \<Longrightarrow> 1 < n \<Longrightarrow> \<exists>j. c = Suc j \<and> lp2 n = 2 ^ j"
  by (cases c) (auto simp: tight_def intro!: lp2_unique)

lemma tight_le: "tight c n \<Longrightarrow> n \<le> 2 ^ j \<Longrightarrow> c \<le> j"
proof (rule ccontr)
  assume "tight c n" "n \<le> 2 ^ j" "\<not> c \<le> j"
  then have "c \<noteq> 0" "j \<le> c - 1" by auto
  then have "(2::nat) ^ j \<le> 2 ^ (c - 1)" by simp
  with \<open>tight c n\<close> \<open>n \<le> 2 ^ j\<close> \<open>c \<noteq> 0\<close> show False
    unfolding tight_def by linarith
qed

lemma block_div: "r < p \<Longrightarrow> (x * p + r) div p = (x::nat)"
  by simp

text \<open>A subtree at the right edge: it ends with the last leaf.\<close>

lemma inclusion_edge_subtree:
  assumes "hash32 sha" "leaves32 ls" "tight c (length ls)" "m < length ls"
    and "a * 2 ^ c + length ls \<le> 2 ^ 32"
  shows "inclusionLoop sha (a * 2 ^ c + m) (a * 2 ^ c + length ls - 1) (ls ! m)
      (apath sha m ls @ rest) = inclusionLoop sha a a (root sha ls) rest"
  using assms
proof (induction "length ls" arbitrary: ls c m a rest rule: less_induct)
  case less
  show ?case
  proof (cases "length ls = 1")
    case True
    with less.prems show ?thesis by (auto simp: tight_def apath_small root_single)
  next
    case False
    with less.prems have n: "1 < length ls" by simp
    then obtain j where c: "c = Suc j" and k: "lp2 (length ls) = 2 ^ j"
      using tight_Suc [OF less.prems(3)] by blast
    have sz: "2 ^ j < length ls" "length ls \<le> 2 * 2 ^ j"
      using less.prems(3) c by (auto simp: tight_def)
    let ?L = "take (2 ^ j) ls" and ?R = "drop (2 ^ j) ls"
    let ?sn = "a * 2 ^ c + length ls - 1"
    have len: "length ?L = 2 ^ j" "length ?R = length ls - 2 ^ j" using sz by auto
    have l32: "length (root sha ?L) = 32" "length (root sha ?R) = 32"
      using less.prems by (simp_all add: root_len)
    have rt: "root sha ls = sha (nodeInput (root sha ?L) (root sha ?R))"
      using root_split [OF less.prems(1,2) n] k by simp
    have snq: "?sn div 2 ^ j = 2 * a + 1"
    proof -
      have "?sn = (2 * a + 1) * 2 ^ j + (length ls - 1 - 2 ^ j)"
        using sz c by (simp add: algebra_simps)
      moreover have "length ls - 1 - 2 ^ j < 2 ^ j" using sz by linarith
      ultimately show ?thesis by (metis block_div)
    qed
    have snb: "?sn < 2 ^ 32" using less.prems(5) n by linarith
    show ?thesis
    proof (cases "m < 2 ^ j")
      case True
      have "inclusionLoop sha ((2 * a) * 2 ^ j + m) ?sn (?L ! m) (apath sha m ?L @ root sha ?R # rest)
          = inclusionLoop sha (2 * a) (2 * a + 1) (root sha ?L) (root sha ?R # rest)"
        using inclusion_complete_subtree [of sha ?L j m "2 * a" ?sn] less.prems len snq snb True
        by simp
      also have "\<dots> = inclusionLoop sha a a (root sha ls) rest"
        using snq snb l32 rt div_le_dividend [of ?sn "2 ^ j"] by (subst step_even) auto
      finally show ?thesis
        using True k n less.prems c by (simp add: apath_split Let_def algebra_simps)
    next
      case False
      obtain c' where c': "tight c' (length ?R)" using tight_exists [of "length ?R"] sz(1) len(2) by force
      have "c' \<le> j" using tight_le [OF c'] len sz by simp
      define x where "x = (2 * a + 1) * 2 ^ (j - c')"
      have "(2::nat) ^ (j - c') * 2 ^ c' = 2 ^ j"
        using \<open>c' \<le> j\<close> by (simp flip: power_add)
      then have x: "x * 2 ^ c' = (2 * a + 1) * 2 ^ j"
        by (simp only: x_def mult.assoc)
      have x2: "x * 2 ^ c' = a * 2 ^ c + 2 ^ j" using x c by (simp add: algebra_simps)
      have "x \<le> x * 2 ^ c'" by simp
      then have xb: "x < 2 ^ 32" using x2 less.prems(5) sz by linarith
      have e1: "x * 2 ^ c' + (m - 2 ^ j) = a * 2 ^ c + m" using x2 False by simp
      have e2: "x * 2 ^ c' + length ?R - 1 = ?sn" using x2 len sz by simp
      have "inclusionLoop sha (x * 2 ^ c' + (m - 2 ^ j)) (x * 2 ^ c' + length ?R - 1) (?R ! (m - 2 ^ j))
          (apath sha (m - 2 ^ j) ?R @ root sha ?L # rest)
          = inclusionLoop sha x x (root sha ?R) (root sha ?L # rest)"
        using less.prems c' False len sz x2 by (intro less.hyps) auto
      also have "\<dots> = inclusionLoop sha a a (root sha ls) rest"
        using l32 rt xb by (subst step_edge [of x a "j - c'"]) (auto simp: x_def)
      finally have "inclusionLoop sha (a * 2 ^ c + m) ?sn (ls ! m)
          (apath sha (m - 2 ^ j) ?R @ root sha ?L # rest) = inclusionLoop sha a a (root sha ls) rest"
        using False less.prems(4) unfolding e1 e2 by simp
      then show ?thesis using False k n less.prems by (simp add: apath_split Let_def)
    qed
  qed
qed

lemma inclusion_root:
  assumes "hash32 sha" "leaves32 ls" "m < length ls" "length ls \<le> 2 ^ 32"
  shows "computeRootFromInclusion sha m (length ls) (ls ! m) (apath sha m ls) = Inr (root sha ls)"
proof -
  obtain c where "tight c (length ls)" using tight_exists [of "length ls"] assms(3) by auto
  with inclusion_edge_subtree [OF assms(1,2) _ assms(3), of c 0 "[]"] assms(4) show ?thesis
    by (simp add: computeRootFromInclusion_def)
qed

section \<open>Consistency proofs are accepted\<close>

lemma cstep_even:
  assumes "even fn" "fn < sn" "sn < 2 ^ 32" "length sr = 32" "length s = 32"
  shows "consistencyLoop sha fn sn fr sr (s # p) =
    consistencyLoop sha (fn div 2) (sn div 2) fr (sha (nodeInput sr s)) p"
  using assms by (auto simp: hashInterior_32 shr1_eq odd_iff_mod_2_eq_one)

lemma cstep_odd:
  assumes "odd fn" "fn < sn" "sn < 2 ^ 32" "length fr = 32" "length sr = 32" "length s = 32"
  shows "consistencyLoop sha fn sn fr sr (s # p) =
    consistencyLoop sha (fn div 2) (sn div 2) (sha (nodeInput s fr)) (sha (nodeInput s sr)) p"
  using assms
  by (auto simp: hashInterior_32 shr1_eq odd_iff_mod_2_eq_one strip_zeros_odd)

lemma cstep_edge:
  assumes "x = (2 * a + 1) * 2 ^ e" "x < 2 ^ 32" "length fr = 32" "length sr = 32" "length s = 32"
  shows "consistencyLoop sha x x fr sr (s # p) =
    consistencyLoop sha a a (sha (nodeInput s fr)) (sha (nodeInput s sr)) p"
proof -
  have "(2 * a + 1) * 1 \<le> (2 * a + 1) * 2 ^ e" by (intro mult_le_mono) simp_all
  with assms(1,2) have "2 * a + 1 < 2 ^ 32" and x: "0 < x" by auto
  then have "shr1 (2 * a + 1) = a" by (simp add: shr1_eq)
  moreover have "strip_zeros x x = (2 * a + 1, 2 * a + 1)"
    using strip_zeros_edge [of a e] assms(1,2) by simp
  ultimately show ?thesis using x assms(3-5) by (simp add: hashInterior_32)
qed

text \<open>
  What follows the initial shift: the seed is the head of the path, or the
  first root when the first tree is a complete left subtree.
\<close>

definition consistencySeed ::
  "(bytes \<Rightarrow> bytes) \<Rightarrow> bytes \<Rightarrow> nat \<times> nat \<Rightarrow> bytes list \<Rightarrow> merkle_error + bytes \<times> bytes"
where
  "consistencySeed sha firstRoot fs path =
     (case fs of (fn, sn) \<Rightarrow>
        if fn \<noteq> 0 then
          (case path of [] \<Rightarrow> Inl TooShort | s # path' \<Rightarrow> consistencyLoop sha fn sn s s path')
        else consistencyLoop sha fn sn firstRoot firstRoot path)"

lemma computeRootsFromConsistency_seed:
  "computeRootsFromConsistency sha firstSize secondSize firstRoot path =
   consistencySeed sha firstRoot (strip_ones (firstSize - 1) (secondSize - 1)) path"
  by (simp add: computeRootsFromConsistency_def consistencySeed_def Let_def)

lemma strip_ones_even: "even fn \<Longrightarrow> strip_ones fn sn = (fn, sn)"
  by (subst strip_ones.simps) presburger

lemma double_pred: "1 \<le> y \<Longrightarrow> x = 2 * y \<Longrightarrow> x - 1 = 2 * (y - 1) + (1::nat)"
  by arith

lemma strip_ones_block:
  assumes "q < sn div 2 ^ j" "sn < 2 ^ 32" "even q"
  shows "strip_ones (q * 2 ^ j + 2 ^ j - 1) sn = (q, sn div 2 ^ j)"
  using assms
proof (induction j arbitrary: sn)
  case 0
  then show ?case by (simp add: strip_ones_even)
next
  case (Suc j)
  let ?f = "q * 2 ^ Suc j + 2 ^ Suc j - 1"
  have "1 \<le> q * 2 ^ j + (2::nat) ^ j" by (simp add: add_increasing)
  moreover have "q * 2 ^ Suc j + 2 ^ Suc j = 2 * (q * 2 ^ j + (2::nat) ^ j)" by simp
  ultimately have f: "?f = 2 * (q * 2 ^ j + 2 ^ j - 1) + 1" by (rule double_pred)
  have d: "sn div 2 ^ Suc j = (sn div 2) div 2 ^ j" by (simp only: power_Suc div_mult2_eq)
  have "Suc q * 2 ^ Suc j \<le> (sn div 2 ^ Suc j) * 2 ^ Suc j"
    using Suc.prems(1) by (intro mult_le_mono1) simp
  also have "\<dots> \<le> sn" by simp
  finally have "?f < 2 ^ 32" using Suc.prems(2) by simp
  then have "shr1 ?f = q * 2 ^ j + 2 ^ j - 1" "shr1 sn = sn div 2"
    using f Suc.prems(2) by (simp_all add: shr1_eq)
  moreover have "?f mod 2 = 1" unfolding f by simp
  ultimately have "strip_ones ?f sn = strip_ones (q * 2 ^ j + 2 ^ j - 1) (sn div 2)"
    by (subst strip_ones.simps) simp
  also have "\<dots> = (q, sn div 2 ^ Suc j)"
    using Suc.prems d by (subst Suc.IH) auto
  finally show ?case .
qed

text \<open>
  The first tree ends inside a complete subtree left of the edge. The flag of
  \<open>subproof\<close> says whether the subtree starts at leaf 0, where the verifier
  holds the first root already.
\<close>

lemma consistency_complete_subtree:
  assumes "hash32 sha" "leaves32 ls" "length ls = 2 ^ j" "1 \<le> m" "m \<le> 2 ^ j"
    and "q < sn div 2 ^ j" "sn < 2 ^ 32" and "m = 2 ^ j \<Longrightarrow> even q"
    and "if b then q = 0 \<and> firstRoot = root sha (take m ls) else q \<noteq> 0"
  shows "consistencySeed sha firstRoot (strip_ones (q * 2 ^ j + m - 1) sn)
      (sproof sha m ls b @ rest) =
    consistencyLoop sha q (sn div 2 ^ j) (root sha (take m ls)) (root sha ls) rest"
  using assms
proof (induction j arbitrary: ls m q b rest)
  case 0
  then have "m = length ls" by simp
  then show ?case
    using "0.prems" strip_ones_block [of q sn 0] sproof_full [of sha ls b]
    by (simp add: consistencySeed_def)
next
  case (Suc j)
  show ?case
  proof (cases "m = 2 ^ Suc j")
    case True
    then have "m = length ls" using Suc.prems by simp
    then show ?thesis
      using Suc.prems True strip_ones_block [of q sn "Suc j"] sproof_full [of sha ls b]
      by (simp add: consistencySeed_def)
  next
    case False
    have n: "1 < length ls" using Suc.prems(3) one_less_power [of "2::nat" "Suc j"] by simp
    have k: "lp2 (length ls) = 2 ^ j" using Suc.prems(3) by (intro lp2_unique) simp_all
    let ?L = "take (2 ^ j) ls" and ?R = "drop (2 ^ j) ls" and ?t = "sn div 2 ^ j"
    have t: "?t div 2 = sn div 2 ^ Suc j" by (simp only: power_Suc2 div_mult2_eq)
    have len: "length ?L = 2 ^ j" "length ?R = 2 ^ j" using Suc.prems(3) by auto
    have q: "2 * q + 1 < ?t" using Suc.prems(6) t by linarith
    have tb: "?t < 2 ^ 32" using Suc.prems(7) by (meson div_le_dividend le_less_trans)
    have l32: "length (root sha ?L) = 32" "length (root sha ?R) = 32"
      using Suc.prems by (simp_all add: root_len)
    have rt: "root sha ls = sha (nodeInput (root sha ?L) (root sha ?R))"
      using root_split [OF Suc.prems(1,2) n] k by simp
    have m: "m < length ls" using False Suc.prems by simp
    show ?thesis
    proof (cases "m \<le> 2 ^ j")
      case True
      have tk: "take m ls = take m ?L" using True by simp
      have "consistencySeed sha firstRoot (strip_ones ((2 * q) * 2 ^ j + m - 1) sn)
            (sproof sha m ?L b @ root sha ?R # rest)
          = consistencyLoop sha (2 * q) ?t (root sha (take m ?L)) (root sha ?L) (root sha ?R # rest)"
        using Suc.prems q len True tk by (intro Suc.IH) (simp_all split: if_splits)
      also have "\<dots> = consistencyLoop sha q (?t div 2) (root sha (take m ls)) (root sha ls) rest"
        using q tb l32 rt tk by (subst cstep_even) auto
      finally show ?thesis
        using True t k n m Suc.prems
        by (simp add: sproof_split Let_def mult.assoc mult.left_commute [of 2])
    next
      case mk: False
      define m' where "m' = m - 2 ^ j"
      have m': "1 \<le> m'" "m' < 2 ^ j" "m = 2 ^ j + m'"
        using mk m Suc.prems(3) by (auto simp: m'_def)
      have e: "(2 * q + 1) * 2 ^ j + m' - 1 = q * 2 ^ Suc j + m - 1"
        using m' by (simp add: algebra_simps)
      have "lp2 (length (take m ls)) = 2 ^ j" "1 < length (take m ls)"
        using m' m n by (auto intro!: lp2_unique)
      then have rf: "root sha (take m ls) = sha (nodeInput (root sha ?L) (root sha (take m' ?R)))"
        using root_split [of sha "take m ls"] Suc.prems m' by (simp add: take_drop min_def add.commute)
      have lf: "length (root sha (take m' ?R)) = 32" using Suc.prems by (simp add: root_len)
      have "consistencySeed sha firstRoot (strip_ones ((2 * q + 1) * 2 ^ j + m' - 1) sn)
            (sproof sha m' ?R False @ root sha ?L # rest)
          = consistencyLoop sha (2 * q + 1) ?t (root sha (take m' ?R)) (root sha ?R) (root sha ?L # rest)"
        using Suc.prems q len m' by (intro Suc.IH) simp_all
      also have "\<dots> = consistencyLoop sha q (?t div 2) (root sha (take m ls)) (root sha ls) rest"
        using q tb l32 rt rf lf by (subst cstep_odd) auto
      finally show ?thesis
        using mk t k n m Suc.prems unfolding e
        by (simp add: sproof_split Let_def m'_def)
    qed
  qed
qed

lemma consistency_edge_subtree:
  assumes "hash32 sha" "leaves32 ls" "tight c (length ls)" "1 \<le> m" "m < length ls"
    and "a * 2 ^ c + length ls \<le> 2 ^ 32"
    and "if b then a = 0 \<and> firstRoot = root sha (take m ls) else a \<noteq> 0"
  shows "consistencySeed sha firstRoot (strip_ones (a * 2 ^ c + m - 1) (a * 2 ^ c + length ls - 1))
      (sproof sha m ls b @ rest) =
    consistencyLoop sha a a (root sha (take m ls)) (root sha ls) rest"
  using assms
proof (induction "length ls" arbitrary: ls c m a b rest rule: less_induct)
  case less
  have n: "1 < length ls" using less.prems by simp
  then obtain j where c: "c = Suc j" and k: "lp2 (length ls) = 2 ^ j"
    using tight_Suc [OF less.prems(3)] by blast
  have sz: "2 ^ j < length ls" "length ls \<le> 2 * 2 ^ j"
    using less.prems(3) c by (auto simp: tight_def)
  let ?L = "take (2 ^ j) ls" and ?R = "drop (2 ^ j) ls"
  let ?sn = "a * 2 ^ c + length ls - 1"
  have len: "length ?L = 2 ^ j" "length ?R = length ls - 2 ^ j" using sz by auto
  have l32: "length (root sha ?L) = 32" "length (root sha ?R) = 32"
    using less.prems by (simp_all add: root_len)
  have rt: "root sha ls = sha (nodeInput (root sha ?L) (root sha ?R))"
    using root_split [OF less.prems(1,2) n] k by simp
  have snq: "?sn div 2 ^ j = 2 * a + 1"
  proof -
    have "?sn = (2 * a + 1) * 2 ^ j + (length ls - 1 - 2 ^ j)"
      using sz c by (simp add: algebra_simps)
    moreover have "length ls - 1 - 2 ^ j < 2 ^ j" using sz by linarith
    ultimately show ?thesis by (metis block_div)
  qed
  have snb: "?sn < 2 ^ 32" using less.prems(6) n by linarith
  show ?case
  proof (cases "m \<le> 2 ^ j")
    case True
    have tk: "take m ls = take m ?L" using True by simp
    have "consistencySeed sha firstRoot (strip_ones ((2 * a) * 2 ^ j + m - 1) ?sn)
          (sproof sha m ?L b @ root sha ?R # rest)
        = consistencyLoop sha (2 * a) (?sn div 2 ^ j) (root sha (take m ?L)) (root sha ?L)
            (root sha ?R # rest)"
    proof (rule consistency_complete_subtree)
      show "2 * a < ?sn div 2 ^ j" using snq by simp
      show "if b then 2 * a = 0 \<and> firstRoot = root sha (take m ?L) else 2 * a \<noteq> 0"
        using less.prems(7) by (cases b) (simp_all add: tk)
    qed (use less.prems len True snb in simp_all)
    also have "\<dots> = consistencyLoop sha a a (root sha (take m ls)) (root sha ls) rest"
      using snq snb l32 rt div_le_dividend [of ?sn "2 ^ j"] tk
      by (simp only: snq, subst cstep_even) auto
    finally have "consistencySeed sha firstRoot (strip_ones ((2 * a) * 2 ^ j + m - 1) ?sn)
        (sproof sha m ls b @ rest) = consistencyLoop sha a a (root sha (take m ls)) (root sha ls) rest"
      using True k less.prems by (simp add: sproof_split Let_def)
    moreover have "(2 * a) * 2 ^ j = a * 2 ^ c" using c by simp
    ultimately show ?thesis by (simp only:)
  next
    case mk: False
    define m' where "m' = m - 2 ^ j"
    have m': "1 \<le> m'" "m' < length ?R" "m = 2 ^ j + m'"
      using mk less.prems(5) len by (auto simp: m'_def)
    obtain c' where c': "tight c' (length ?R)" using tight_exists [of "length ?R"] sz(1) len(2) by force
    have "c' \<le> j" using tight_le [OF c'] len sz by simp
    define x where "x = (2 * a + 1) * 2 ^ (j - c')"
    have "(2::nat) ^ (j - c') * 2 ^ c' = 2 ^ j"
      using \<open>c' \<le> j\<close> by (simp flip: power_add)
    then have x: "x * 2 ^ c' = (2 * a + 1) * 2 ^ j"
      by (simp only: x_def mult.assoc)
    have x2: "x * 2 ^ c' = a * 2 ^ c + 2 ^ j" using x c by (simp add: algebra_simps)
    have "x \<le> x * 2 ^ c'" by simp
    then have xb: "x < 2 ^ 32" using x2 less.prems(6) sz by linarith
    have e1: "x * 2 ^ c' + m' - 1 = a * 2 ^ c + m - 1" using x2 m' by simp
    have e2: "x * 2 ^ c' + length ?R - 1 = ?sn" using x2 len sz by simp
    have "lp2 (length (take m ls)) = 2 ^ j" "1 < length (take m ls)"
      using m' less.prems(4,5) sz len by (auto intro!: lp2_unique)
    then have rf: "root sha (take m ls) = sha (nodeInput (root sha ?L) (root sha (take m' ?R)))"
      using root_split [of sha "take m ls"] less.prems m'
      by (simp add: take_drop min_def add.commute)
    have lf: "length (root sha (take m' ?R)) = 32" using less.prems by (simp add: root_len)
    have "consistencySeed sha firstRoot (strip_ones (x * 2 ^ c' + m' - 1) (x * 2 ^ c' + length ?R - 1))
        (sproof sha m' ?R False @ root sha ?L # rest)
        = consistencyLoop sha x x (root sha (take m' ?R)) (root sha ?R) (root sha ?L # rest)"
      using less.prems c' len sz x2 m' by (intro less.hyps) (auto simp: x_def)
    also have "\<dots> = consistencyLoop sha a a (root sha (take m ls)) (root sha ls) rest"
      using l32 rt rf lf xb by (subst cstep_edge [of x a "j - c'"]) (auto simp: x_def)
    finally show ?thesis
      using mk k n less.prems unfolding e1 e2
      by (simp add: sproof_split Let_def m'_def)
  qed
qed

lemma consistency_roots:
  assumes "hash32 sha" "leaves32 ls" "1 \<le> m" "m < length ls" "length ls \<le> 2 ^ 32"
  shows "computeRootsFromConsistency sha m (length ls) (root sha (take m ls)) (sproof sha m ls True)
    = Inr (root sha (take m ls), root sha ls)"
proof -
  obtain c where "tight c (length ls)" using tight_exists [of "length ls"] assms(4) by auto
  with consistency_edge_subtree [OF assms(1,2) _ assms(3,4), of c 0 True "root sha (take m ls)" "[]"]
    assms(5)
  show ?thesis by (simp add: computeRootsFromConsistency_seed)
qed

section \<open>Accepted inclusion proofs bind the leaf\<close>

text \<open>
  The inputs on which the verifier calls the hash function, in order.
\<close>

fun inclusionInputs :: "(bytes \<Rightarrow> bytes) \<Rightarrow> nat \<Rightarrow> nat \<Rightarrow> bytes \<Rightarrow> bytes list \<Rightarrow> bytes list" where
  "inclusionInputs sha fn sn r [] = []"
| "inclusionInputs sha fn sn r (s # siblings) =
     (if sn > 0 then
        (if fn mod 2 = 1 \<or> fn = sn then
           (let (fn', sn') = strip_zeros fn sn in
            nodeInput s r # inclusionInputs sha (shr1 fn') (shr1 sn') (sha (nodeInput s r)) siblings)
         else nodeInput r s # inclusionInputs sha (shr1 fn) (shr1 sn) (sha (nodeInput r s)) siblings)
      else [])"

text \<open>
  Two different inputs with one digest, one in each list: the evidence of a
  hash collision.
\<close>

definition collision :: "(bytes \<Rightarrow> bytes) \<Rightarrow> bytes list \<Rightarrow> bytes list \<Rightarrow> bool" where
  "collision sha xs ys \<longleftrightarrow> (\<exists>x \<in> set xs. \<exists>y \<in> set ys. x \<noteq> y \<and> sha x = sha y)"

lemma collision_Cons:
  "collision sha xs ys \<Longrightarrow> collision sha (x # xs) (y # ys)"
  by (auto simp: collision_def)

lemma inclusion_bind_loop:
  assumes "inclusionLoop sha fn sn r1 p1 = Inr h" "inclusionLoop sha fn sn r2 p2 = Inr h"
    and "hash32 sha" "length r1 = 32" "length r2 = 32" "leaves32 p1" "leaves32 p2"
  shows "r1 = r2 \<and> p1 = p2 \<or>
    collision sha (inclusionInputs sha fn sn r1 p1) (inclusionInputs sha fn sn r2 p2)"
  using assms
proof (induction p1 arbitrary: fn sn r1 r2 p2)
  case Nil
  then show ?case by (cases p2) (auto split: if_splits)
next
  case (Cons s1 p1)
  then obtain s2 q2 where p2: "p2 = s2 # q2" and sn: "sn > 0"
    by (cases p2) (auto split: if_splits)
  define left where "left \<longleftrightarrow> fn mod 2 = 1 \<or> fn = sn"
  define fs where "fs = (if left then strip_zeros fn sn else (fn, sn))"
  define x1 where "x1 = (if left then nodeInput s1 r1 else nodeInput r1 s1)"
  define x2 where "x2 = (if left then nodeInput s2 r2 else nodeInput r2 s2)"
  let ?fn = "shr1 (fst fs)" and ?sn = "shr1 (snd fs)"
  have len: "length s1 = 32" "length s2 = 32" using Cons.prems p2 by simp_all
  have r: "inclusionLoop sha ?fn ?sn (sha x1) p1 = Inr h" "inclusionLoop sha ?fn ?sn (sha x2) q2 = Inr h"
    using Cons.prems sn len p2
    by (cases left; simp add: fs_def x1_def x2_def left_def hashInterior_32 split: prod.splits)+
  have i: "inclusionInputs sha fn sn r1 (s1 # p1) = x1 # inclusionInputs sha ?fn ?sn (sha x1) p1"
    "inclusionInputs sha fn sn r2 p2 = x2 # inclusionInputs sha ?fn ?sn (sha x2) q2"
    using sn p2 by (cases left; simp add: fs_def x1_def x2_def left_def split: prod.splits)+
  have "sha x1 = sha x2 \<and> p1 = q2 \<or>
      collision sha (inclusionInputs sha ?fn ?sn (sha x1) p1) (inclusionInputs sha ?fn ?sn (sha x2) q2)"
    using Cons.IH [OF r] Cons.prems p2 by (simp add: hash32_def)
  moreover have "x1 = x2 \<longleftrightarrow> r1 = r2 \<and> s1 = s2"
    using Cons.prems len by (auto simp: x1_def x2_def nodeInput_inject)
  moreover have "sha x1 = sha x2 \<Longrightarrow> x1 \<noteq> x2 \<Longrightarrow>
      collision sha (inclusionInputs sha fn sn r1 (s1 # p1)) (inclusionInputs sha fn sn r2 p2)"
    unfolding i collision_def by auto
  ultimately show ?case using i p2 by (metis collision_Cons)
qed

text \<open>The inputs hashed while a wire proof is checked.\<close>

definition proofInputs :: "(bytes \<Rightarrow> bytes) \<Rightarrow> ('s \<Rightarrow> bytes) \<Rightarrow> 's inclusion_proof \<Rightarrow> bytes list" where
  "proofInputs sha dec proof =
     inclusionInputs sha (nat (ip_leaf_index proof)) (nat (ip_log_size proof) - 1)
       (dec (ip_leaf_hash proof)) (map dec (ip_path proof))"

lemma decodeHashes_Inr:
  "decodeHashes dec xs = Inr ys \<longleftrightarrow> ys = map dec xs \<and> leaves32 (map dec xs)"
  unfolding decodeHashes_def
  by (induction xs arbitrary: ys) (auto simp: bindR_eq_Inr decodeHash_def)

lemma verifyInclusionProof_iff:
  "verifyInclusionProof sha dec proof rootHash \<longleftrightarrow>
     0 < ip_log_size proof \<and> 0 \<le> ip_leaf_index proof \<and> ip_leaf_index proof < ip_log_size proof \<and>
     length (dec (ip_leaf_hash proof)) = 32 \<and> leaves32 (map dec (ip_path proof)) \<and>
     computeRootFromInclusion sha (nat (ip_leaf_index proof)) (nat (ip_log_size proof))
       (dec (ip_leaf_hash proof)) (map dec (ip_path proof)) = Inr rootHash"
proof (cases "decodeHashes dec (ip_path proof)")
  case (Inl e)
  then have "\<not> leaves32 (map dec (ip_path proof))"
    by (metis Inl decodeHashes_Inr sum.distinct(1))
  with Inl show ?thesis
    by (auto simp: verifyInclusionProof_def decodeHash_def)
next
  case (Inr ys)
  then have "ys = map dec (ip_path proof)" "leaves32 (map dec (ip_path proof))"
    by (simp_all add: decodeHashes_Inr)
  with Inr show ?thesis
    by (auto simp: verifyInclusionProof_def decodeHash_def split: sum.splits)
qed

text \<open>Two inclusion proofs accepted against the same root hash for the same tree size
  and leaf index carry the same leaf hash and the same path, unless checking them exhibits a
  hash collision: two different inputs, one hashed by each check, with the same digest.\<close>

theorem inclusion_proof_binding:
  assumes "hash32 sha"
    and "verifyInclusionProof sha dec p1 rootHash" "verifyInclusionProof sha dec p2 rootHash"
    and "ip_log_size p1 = ip_log_size p2" "ip_leaf_index p1 = ip_leaf_index p2"
  shows "dec (ip_leaf_hash p1) = dec (ip_leaf_hash p2)
      \<and> map dec (ip_path p1) = map dec (ip_path p2)
    \<or> collision sha (proofInputs sha dec p1) (proofInputs sha dec p2)"
  using assms inclusion_bind_loop
  unfolding verifyInclusionProof_iff computeRootFromInclusion_def proofInputs_def by metis

end
