(* ===== verification/Canonical.thy ===== *)
theory Canonical
  imports Prelude "HOL-Library.Multiset"
begin

text \<open>
  Canonical JSON, \<^verbatim>\<open>src/src/canonical/marshal.ts\<close>: the byte strings that
  every signature and every leaf hash of the protocol is computed over. A string
  is its list of UTF-16 code units. The decimal form of a number and the UTF-8
  encoder belong to the platform (\<open>JSON.stringify\<close> on a number, \<open>TextEncoder\<close>)
  and are the arguments \<open>numstr\<close> and \<open>utf8\<close>; numbers have the type \<open>'n\<close>.
\<close>

section \<open>JSON values\<close>

type_synonym unit16 = "16 word"
type_synonym jstr = "16 word list"

text \<open>ASCII literals.\<close>

definition js :: "string \<Rightarrow> jstr" where
  "js s = map (\<lambda>c. of_nat (of_char c)) s"

text \<open>An object is its list of properties in the order \<open>Object.keys\<close> gives.\<close>

datatype 'n json =
    JNull
  | JBool bool
  | JNum 'n
  | JStr jstr
  | JArr "'n json list"
  | JObj "(jstr \<times> 'n json) list"

section \<open>The serializer\<close>

text \<open>
  \<open>JSON.stringify\<close> on a string: short escapes, \<open>\u\<close> escapes for the other
  control characters and for lone surrogates, every other code unit as it is.
\<close>

definition hexdigit :: "nat \<Rightarrow> unit16" where
  "hexdigit d = (if d < 10 then of_nat (48 + d) else of_nat (87 + d))"

definition hex4 :: "unit16 \<Rightarrow> jstr" where
  "hex4 c = (let n = unat c in
     [hexdigit (n div 4096 mod 16), hexdigit (n div 256 mod 16),
      hexdigit (n div 16 mod 16), hexdigit (n mod 16)])"

definition high_surrogate :: "unit16 \<Rightarrow> bool" where
  "high_surrogate c \<longleftrightarrow> 0xD800 \<le> c \<and> c \<le> 0xDBFF"

definition low_surrogate :: "unit16 \<Rightarrow> bool" where
  "low_surrogate c \<longleftrightarrow> 0xDC00 \<le> c \<and> c \<le> 0xDFFF"

definition escape_unit :: "unit16 \<Rightarrow> jstr" where
  "escape_unit c =
     (if c = 8 then [92, 98]
      else if c = 9 then [92, 116]
      else if c = 10 then [92, 110]
      else if c = 12 then [92, 102]
      else if c = 13 then [92, 114]
      else if c = 34 then [92, 34]
      else if c = 92 then [92, 92]
      else if c < 32 \<or> high_surrogate c \<or> low_surrogate c then [92, 117] @ hex4 c
      else [c])"

fun quote_units :: "jstr \<Rightarrow> jstr" where
  "quote_units [] = []"
| "quote_units [c] = escape_unit c"
| "quote_units (c # d # cs) =
     (if high_surrogate c \<and> low_surrogate d then c # d # quote_units cs
      else escape_unit c @ quote_units (d # cs))"

definition quote :: "jstr \<Rightarrow> jstr" where
  "quote s = 34 # quote_units s @ [34]"

text \<open>The separator loop over array elements and object members.\<close>

fun commas :: "jstr list \<Rightarrow> jstr" where
  "commas [] = []"
| "commas [x] = x"
| "commas (x # y # xs) = x @ 44 # commas (y # xs)"

definition member_text :: "jstr \<times> jstr \<Rightarrow> jstr" where
  "member_text = (\<lambda>(k, s). quote k @ 58 # s)"

text \<open>
  \<open>serialize\<close>. The keys are sorted by code units, as \<open>Array.prototype.sort\<close>
  does on strings; each member is printed as its quoted key, a colon and its value.
\<close>

fun serialize :: "('n \<Rightarrow> jstr) \<Rightarrow> 'n json \<Rightarrow> jstr" where
  "serialize numstr JNull = js ''null''"
| "serialize numstr (JBool b) = (if b then js ''true'' else js ''false'')"
| "serialize numstr (JNum n) = numstr n"
| "serialize numstr (JStr s) = quote s"
| "serialize numstr (JArr vs) = 91 # commas (map (serialize numstr) vs) @ [93]"
| "serialize numstr (JObj es) =
     123 # commas (map member_text
       (sort_key fst (map (\<lambda>(k, v). (k, serialize numstr v)) es))) @ [125]"

definition marshal :: "(jstr \<Rightarrow> bytes) \<Rightarrow> ('n \<Rightarrow> jstr) \<Rightarrow> 'n json \<Rightarrow> bytes" where
  "marshal utf8 numstr v = utf8 (serialize numstr v)"

definition marshalWithElision ::
  "(jstr \<Rightarrow> bytes) \<Rightarrow> ('n \<Rightarrow> jstr) \<Rightarrow> 'n json \<Rightarrow> ('n json \<Rightarrow> 'n json) \<Rightarrow> bytes" where
  "marshalWithElision utf8 numstr v elide = utf8 (serialize numstr (elide v))"

section \<open>Normal form: keys sorted at every level\<close>

fun sorted_form :: "'n json \<Rightarrow> 'n json" where
  "sorted_form (JArr vs) = JArr (map sorted_form vs)"
| "sorted_form (JObj es) = JObj (sort_key fst (map (\<lambda>(k, v). (k, sorted_form v)) es))"
| "sorted_form v = v"

text \<open>Printing without sorting.\<close>

fun print :: "('n \<Rightarrow> jstr) \<Rightarrow> 'n json \<Rightarrow> jstr" where
  "print numstr JNull = js ''null''"
| "print numstr (JBool b) = (if b then js ''true'' else js ''false'')"
| "print numstr (JNum n) = numstr n"
| "print numstr (JStr s) = quote s"
| "print numstr (JArr vs) = 91 # commas (map (print numstr) vs) @ [93]"
| "print numstr (JObj es) =
     123 # commas (map member_text (map (\<lambda>(k, v). (k, print numstr v)) es)) @ [125]"

lemma insort_key_map_snd:
  "insort_key fst (k, g v) (map (\<lambda>(k, v). (k, g v)) es) =
   map (\<lambda>(k, v). (k, g v)) (insort_key fst (k, v) es)"
  by (induction es) auto

lemma sort_key_map_snd:
  "sort_key fst (map (\<lambda>(k, v). (k, g v)) es) = map (\<lambda>(k, v). (k, g v)) (sort_key fst es)"
  by (induction es) (auto simp: insort_key_map_snd)

lemma serialize_print: "serialize numstr v = print numstr (sorted_form v)"
proof (induction v)
  case (JObj es)
  then have "map (\<lambda>(k, v). (k, serialize numstr v)) es =
      map (\<lambda>(k, v). (k, print numstr v)) (map (\<lambda>(k, v). (k, sorted_form v)) es)"
    by (auto simp: snds.simps)
  then show ?case by (simp add: sort_key_map_snd del: map_map)
qed (auto cong: map_cong)

text \<open>Documents that differ in the order of their keys only have one canonical form.\<close>

lemma sort_key_mset:
  "mset xs = mset ys \<Longrightarrow> distinct (map f xs) \<Longrightarrow> sort_key f xs = sort_key f ys"
proof (rule properties_for_sort_key)
  assume m: "mset xs = mset ys" and d: "distinct (map f xs)"
  show "mset (sort_key f ys) = mset xs" using m by simp
  show "sorted (map f (sort_key f ys))" by simp
  fix k
  have "inj_on f (set xs)" and dx: "distinct xs" using d by (simp_all add: distinct_map)
  moreover have "set ys = set xs" using m by (metis set_mset_mset)
  ultimately show "filter (\<lambda>x. f k = f x) (sort_key f ys) = filter (\<lambda>x. f k = f x) xs"
    if "k \<in> set (sort_key f ys)"
  proof -
    have ky: "k \<in> set xs" using that \<open>set ys = set xs\<close> by simp
    have *: "filter (\<lambda>x. f k = f x) zs = [k]"
      if "set zs = set xs" "distinct zs" for zs
    proof -
      have "set (filter (\<lambda>x. f k = f x) zs) = {k}"
        using that ky \<open>inj_on f (set xs)\<close> by (auto dest: inj_onD)
      moreover have "distinct (filter (\<lambda>x. f k = f x) zs)" using that by simp
      ultimately show ?thesis
        by (metis distinct_card length_0_conv length_Suc_conv card.empty card_insert_disjoint
            empty_iff finite.emptyI insertI1 list.set(1,2) One_nat_def set_empty singleton_insert_inj_eq)
    qed
    have "distinct (sort_key f ys)"
      using m dx by (metis distinct_sort mset_eq_imp_distinct_iff)
    with * \<open>set ys = set xs\<close> dx show ?thesis by simp
  qed
qed

section \<open>Reading a quoted string back\<close>

definition unhexdigit :: "unit16 \<Rightarrow> nat" where
  "unhexdigit c = (if unat c < 58 then unat c - 48 else unat c - 87)"

definition unescape_short :: "unit16 \<Rightarrow> unit16" where
  "unescape_short e =
     (if e = 98 then 8 else if e = 116 then 9 else if e = 110 then 10
      else if e = 102 then 12 else if e = 114 then 13 else e)"

text \<open>A reader for the body of a quoted string, up to the closing quote.\<close>

fun unquote :: "jstr \<Rightarrow> (jstr \<times> jstr) option" where
  "unquote [] = None"
| "unquote (c # r) =
     (if c = 34 then Some ([], r)
      else if c = 92 then
        (case r of
           [] \<Rightarrow> None
         | e # r' \<Rightarrow>
             (if e = 117 then
                (case r' of
                   a # b # g # d # r'' \<Rightarrow>
                     map_option (map_prod ((#) (of_nat (unhexdigit a * 4096 + unhexdigit b * 256 +
                         unhexdigit g * 16 + unhexdigit d))) id) (unquote r'')
                 | _ \<Rightarrow> None)
              else map_option (map_prod ((#) (unescape_short e)) id) (unquote r')))
      else map_option (map_prod ((#) c) id) (unquote r))"

lemma unhex_hex [simp]: "d < 16 \<Longrightarrow> unhexdigit (hexdigit d) = d"
proof -
  assume d: "d < 16"
  have "unat (of_nat (48 + d) :: unit16) = 48 + d" "unat (of_nat (87 + d) :: unit16) = 87 + d"
    using d by (simp_all add: unat_of_nat del: of_nat_add)
  then show ?thesis by (simp add: unhexdigit_def hexdigit_def del: of_nat_add)
qed

lemma hex4_value:
  fixes n :: nat
  assumes "n < 65536"
  shows "(n div 4096 mod 16) * 4096 + (n div 256 mod 16) * 256 + (n div 16 mod 16) * 16 + n mod 16 = n"
proof -
  define a b c where "a = n div 16" and "b = a div 16" and "c = b div 16"
  have "n = 16 * a + n mod 16" "a = 16 * b + a mod 16" "b = 16 * c + b mod 16"
    by (simp_all add: a_def b_def c_def)
  moreover have "n div 256 = b" "n div 4096 = c"
    by (simp_all add: a_def b_def c_def flip: div_mult2_eq)
  moreover have "c mod 16 = c" using assms by (simp add: a_def b_def c_def flip: div_mult2_eq)
  ultimately show ?thesis unfolding a_def [symmetric] by simp
qed

lemma unquote_escape:
  "unquote (escape_unit c @ r) = map_option (map_prod ((#) c) id) (unquote r)"
proof (cases "c \<in> {8, 9, 10, 12, 13, 34, 92}")
  case True
  then show ?thesis by (auto simp: escape_unit_def unescape_short_def)
next
  case False
  have n: "unat c < 65536" using unsigned_less [of c, where 'a = nat] by simp
  from False show ?thesis
    by (auto simp: escape_unit_def hex4_def Let_def hex4_value [OF n] simp del: of_nat_add of_nat_mult)
qed

lemma unquote_plain:
  "c \<noteq> 34 \<Longrightarrow> c \<noteq> 92 \<Longrightarrow> unquote (c # r) = map_option (map_prod ((#) c) id) (unquote r)"
  by simp

lemma surrogate_plain: "high_surrogate c \<or> low_surrogate c \<Longrightarrow> c \<noteq> 34 \<and> c \<noteq> 92"
  by (auto simp: high_surrogate_def low_surrogate_def)

lemma unquote_quote: "unquote (quote_units s @ 34 # x) = Some (s, x)"
proof (induction s rule: quote_units.induct)
  case 1
  show ?case by simp
next
  case (2 c)
  show ?case by (simp add: unquote_escape del: unquote.simps) simp
next
  case (3 c d cs)
  show ?case
  proof (cases "high_surrogate c \<and> low_surrogate d")
    case True
    then have "c \<noteq> 34" "c \<noteq> 92" "d \<noteq> 34" "d \<noteq> 92" by (simp_all add: surrogate_plain)
    with True 3 show ?thesis by (simp add: unquote_plain del: unquote.simps)
  next
    case False
    then have "quote_units (c # d # cs) = escape_unit c @ quote_units (d # cs)" by auto
    with 3 False show ?thesis by (simp add: unquote_escape del: unquote.simps quote_units.simps)
  qed
qed

lemma quote_inject: "quote s @ x = quote t @ y \<longleftrightarrow> s = t \<and> x = y"
proof
  assume "quote s @ x = quote t @ y"
  then have "quote_units s @ 34 # x = quote_units t @ 34 # y" by (simp add: quote_def)
  then have "unquote (quote_units s @ 34 # x) = unquote (quote_units t @ 34 # y)" by (simp only:)
  then show "s = t \<and> x = y" by (simp add: unquote_quote)
qed simp

section \<open>The canonical form determines the document\<close>

text \<open>
  What is used of the platform's number format: it is injective, not empty, and
  written with digits, sign, point and exponent only.
\<close>

definition number_unit :: "unit16 \<Rightarrow> bool" where
  "number_unit c \<longleftrightarrow> 48 \<le> c \<and> c \<le> 57 \<or> c = 45 \<or> c = 43 \<or> c = 46 \<or> c = 101 \<or> c = 69"

definition number_format :: "('n \<Rightarrow> jstr) \<Rightarrow> bool" where
  "number_format numstr \<longleftrightarrow>
     inj numstr \<and> (\<forall>n. \<exists>c cs. numstr n = c # cs \<and> (c = 45 \<or> 48 \<le> c \<and> c \<le> 57)
       \<and> (\<forall>d \<in> set cs. number_unit d))"

text \<open>What may follow a value inside a document.\<close>

definition ends :: "jstr \<Rightarrow> bool" where
  "ends x \<longleftrightarrow> x = [] \<or> hd x = 44 \<or> hd x = 93 \<or> hd x = 125"

lemma ends_simps [simp]: "ends []" "ends (44 # x)" "ends (93 # x)" "ends (125 # x)"
  by (simp_all add: ends_def)

lemma number_print:
  assumes "number_format f" "f n @ x = f m @ y" "ends x" "ends y"
  shows "n = m \<and> x = y"
proof -
  have nu: "\<forall>d \<in> set (f k). number_unit d" for k
    using assms(1) unfolding number_format_def number_unit_def by (metis set_ConsD)
  have tw: "takeWhile number_unit (f k @ z) = f k" if "ends z" for k z
  proof -
    have "takeWhile number_unit z = []"
      using that by (cases z) (auto simp: ends_def number_unit_def)
    then show ?thesis using nu [of k] by (simp add: takeWhile_append2)
  qed
  have "f n = f m" using tw [OF assms(3)] tw [OF assms(4)] assms(2) by metis
  then have "n = m" using assms(1) by (auto simp: number_format_def dest: injD)
  with assms(2) show ?thesis by simp
qed

text \<open>The first code unit tells the kind of a value.\<close>

definition first_unit :: "'n json \<Rightarrow> unit16 \<Rightarrow> bool" where
  "first_unit v c \<longleftrightarrow> (case v of
      JNull \<Rightarrow> c = 110 | JBool b \<Rightarrow> c = (if b then 116 else 102)
    | JNum _ \<Rightarrow> c = 45 \<or> 48 \<le> c \<and> c \<le> 57 | JStr _ \<Rightarrow> c = 34 | JArr _ \<Rightarrow> c = 91 | JObj _ \<Rightarrow> c = 123)"

lemma js_words [simp]:
  "js ''null'' = [110, 117, 108, 108]" "js ''true'' = [116, 114, 117, 101]"
  "js ''false'' = [102, 97, 108, 115, 101]"
  by (simp_all add: js_def)

lemma print_first:
  assumes "number_format f"
  obtains c cs where "print f v = c # cs" "first_unit v c"
proof (cases v)
  case (JNum n)
  obtain c cs where "f n = c # cs" "c = 45 \<or> 48 \<le> c \<and> c \<le> 57"
    using assms unfolding number_format_def by blast
  with JNum show ?thesis using that by (simp add: first_unit_def)
next
  case (JBool b)
  then show ?thesis using that by (cases b) (auto simp: first_unit_def)
qed (use that in \<open>auto simp: first_unit_def quote_def\<close>)

lemma first_unit_kind:
  assumes "number_format f" "print f v @ x = print f w @ y"
  shows "\<exists>c. first_unit v c \<and> first_unit w c"
  using print_first [OF assms(1), of v] print_first [OF assms(1), of w] assms(2)
  by (metis append_Cons list.inject)

lemma first_unit_not_close: "first_unit v c \<Longrightarrow> c \<noteq> 93 \<and> c \<noteq> 125 \<and> c \<noteq> 44"
  by (cases v) (auto simp: first_unit_def)

text \<open>A separated list is read back item by item, up to its closing bracket \<open>b\<close>.\<close>

lemma commas_inject:
  assumes "\<And>v w x y. v \<in> set vs \<Longrightarrow> ends x \<Longrightarrow> ends y \<Longrightarrow> g v @ x = g w @ y \<Longrightarrow> v = w \<and> x = y"
    and "\<And>v. v \<in> set vs \<union> set ws \<Longrightarrow> \<exists>c cs. g v = c # cs \<and> c \<noteq> b"
    and "b = 93 \<or> b = 125"
    and "commas (map g vs) @ b # x = commas (map g ws) @ b # y"
  shows "vs = ws \<and> x = y"
  using assms
proof (induction vs arbitrary: ws)
  case Nil
  show ?case
  proof (cases ws)
    case Nil
    with Nil.prems show ?thesis by simp
  next
    case (Cons w ws')
    then obtain c cs where "g w = c # cs" "c \<noteq> b" using Nil.prems(2) by fastforce
    with Cons Nil.prems(4) show ?thesis by (cases ws') auto
  qed
next
  case (Cons v vs)
  obtain c cs where v: "g v = c # cs" "c \<noteq> b" using Cons.prems(2) by fastforce
  have tail: "\<exists>z. commas (map g (u # us)) @ b # x = g u @ z \<and> ends z
      \<and> (case us of [] \<Rightarrow> z = b # x | _ \<Rightarrow> z = 44 # commas (map g us) @ b # x)" for u us x
    using Cons.prems(3) by (cases us) auto
  show ?case
  proof (cases ws)
    case Nil
    with v Cons.prems(4) show ?thesis by (cases vs) auto
  next
    case ws: (Cons w ws')
    obtain z where z: "commas (map g (v # vs)) @ b # x = g v @ z" "ends z"
      "case vs of [] \<Rightarrow> z = b # x | _ \<Rightarrow> z = 44 # commas (map g vs) @ b # x"
      using tail by blast
    obtain z' where z': "commas (map g (w # ws')) @ b # y = g w @ z'" "ends z'"
      "case ws' of [] \<Rightarrow> z' = b # y | _ \<Rightarrow> z' = 44 # commas (map g ws') @ b # y"
      using tail by blast
    have "v = w \<and> z = z'"
      using Cons.prems(1) [of v z z' w] Cons.prems(4) z z' ws by simp
    moreover have "vs = ws' \<and> x = y" if "z = z'"
    proof (cases "vs = [] \<or> ws' = []")
      case True
      with that z(3) z'(3) Cons.prems(3) show ?thesis by (cases vs; cases ws'; auto)
    next
      case False
      with that z(3) z'(3) have "commas (map g vs) @ b # x = commas (map g ws') @ b # y"
        by (cases vs; cases ws') auto
      then show ?thesis
        using Cons.prems ws by (intro Cons.IH) (auto intro: Cons.prems(1,2))
    qed
    ultimately show ?thesis using ws by simp
  qed
qed

lemma print_inject:
  fixes f :: "'n \<Rightarrow> jstr" and v w :: "'n json"
  assumes "number_format f" "print f v @ x = print f w @ y" "ends x" "ends y"
  shows "v = w \<and> x = y"
  using assms
proof (induction v arbitrary: w x y)
  case (JArr vs)
  from first_unit_kind [OF JArr.prems(1,2)] obtain ws :: "'n json list" where w: "w = JArr ws"
    by (cases w) (auto simp: first_unit_def split: if_splits)
  have "vs = ws \<and> x = y"
  proof (rule commas_inject [where g = "print f" and b = 93])
    show "\<exists>c cs. print f v = c # cs \<and> c \<noteq> 93" for v
      by (metis print_first [OF JArr.prems(1), of v] first_unit_not_close)
    show "commas (map (print f) vs) @ 93 # x = commas (map (print f) ws) @ 93 # y"
      using JArr.prems(2) w by simp
  qed (use JArr.IH JArr.prems(1) in auto)
  with w show ?case by simp
next
  case (JObj es)
  from first_unit_kind [OF JObj.prems(1,2)] obtain es' where w: "w = JObj es'"
    by (cases w) (auto simp: first_unit_def split: if_splits)
  let ?g = "\<lambda>(k, v). quote k @ 58 # print f v"
  have m: "map member_text (map (\<lambda>(k, v). (k, print f v)) l) = map ?g l" for l
    by (auto simp: member_text_def)
  have "es = es' \<and> x = y"
  proof (rule commas_inject [where g = ?g and b = 125])
    show "\<exists>c cs. ?g e = c # cs \<and> c \<noteq> 125" for e
      by (auto simp: quote_def split: prod.split)
    show "commas (map ?g es) @ 125 # x = commas (map ?g es') @ 125 # y"
      using JObj.prems(2) w by (simp add: m del: map_map)
    show "e = e' \<and> x = y" if "e \<in> set es" "ends x" "ends y" "?g e @ x = ?g e' @ y" for e e' x y
    proof -
      obtain k u k' u' where e: "e = (k, u)" "e' = (k', u')" by (cases e; cases e') auto
      with that have "quote k @ (58 # print f u @ x) = quote k' @ (58 # print f u' @ y)" by simp
      then have "k = k'" "print f u @ x = print f u' @ y" by (simp_all add: quote_inject)
      moreover have "u = u' \<and> x = y"
        by (rule JObj.IH [of e u])
           (use JObj.prems(1) that e \<open>print f u @ x = print f u' @ y\<close> in auto)
      ultimately show ?thesis using e by simp
    qed
  qed simp
  with w show ?case by simp
next
  case (JNum n)
  from first_unit_kind [OF JNum.prems(1,2)] obtain m where w: "w = JNum m"
    by (cases w) (auto simp: first_unit_def split: if_splits)
  with JNum.prems number_print [of f n x m y] show ?case by simp
next
  case (JStr s)
  from first_unit_kind [OF JStr.prems(1,2)] obtain t where w: "w = JStr t"
    by (cases w) (auto simp: first_unit_def split: if_splits)
  with JStr.prems show ?case by (simp add: quote_inject)
next
  case JNull
  from first_unit_kind [OF JNull.prems(1,2)] have "w = JNull"
    by (cases w) (auto simp: first_unit_def split: if_splits)
  with JNull.prems show ?case by simp
next
  case (JBool b)
  from first_unit_kind [OF JBool.prems(1,2)] have "w = JBool b"
    by (cases w) (auto simp: first_unit_def split: if_splits)
  with JBool.prems show ?case by simp
qed

section \<open>The canonical text is well-formed UTF-16\<close>

text \<open>
  Every surrogate is half of a pair: on such texts the UTF-8 encoder loses nothing.
\<close>

fun well_formed :: "jstr \<Rightarrow> bool" where
  "well_formed [] = True"
| "well_formed [c] = (\<not> high_surrogate c \<and> \<not> low_surrogate c)"
| "well_formed (c # d # cs) =
     (if high_surrogate c then low_surrogate d \<and> well_formed cs
      else \<not> low_surrogate c \<and> well_formed (d # cs))"

lemma low_not_high: "low_surrogate c \<Longrightarrow> \<not> high_surrogate c"
  unfolding low_surrogate_def high_surrogate_def by (auto simp: word_le_nat_alt)

lemma well_formed_append: "well_formed xs \<Longrightarrow> well_formed (xs @ ys) = well_formed ys"
proof (induction xs rule: well_formed.induct)
  case (2 c)
  then show ?case by (cases ys) auto
qed (auto split: if_splits)

lemma well_formed_plain:
  "(\<And>c. c \<in> set xs \<Longrightarrow> c < 0xD800) \<Longrightarrow> well_formed xs"
proof (induction xs rule: well_formed.induct)
  case (3 c d cs)
  have "\<not> high_surrogate c \<and> \<not> low_surrogate c"
    using "3.prems" [of c] by (auto simp: high_surrogate_def low_surrogate_def word_le_nat_alt word_less_nat_alt)
  with 3 show ?case by auto
qed (auto simp: high_surrogate_def low_surrogate_def word_le_nat_alt word_less_nat_alt)

lemma hexdigit_plain: "d < 16 \<Longrightarrow> hexdigit d < 0xD800"
  by (auto simp: hexdigit_def word_less_nat_alt unat_of_nat simp del: of_nat_add)

lemma escape_well_formed: "well_formed (escape_unit c)"
proof (cases "c < 32 \<or> high_surrogate c \<or> low_surrogate c")
  case True
  have "well_formed ([92, 117] @ hex4 c)"
    by (rule well_formed_plain) (auto simp: hex4_def Let_def intro!: hexdigit_plain)
  moreover have "well_formed [92, n]" if "n < 0xD800" for n
    using that by (intro well_formed_plain) auto
  ultimately show ?thesis using True by (simp add: escape_unit_def del: well_formed.simps)
next
  case False
  moreover have "well_formed [92, n]" if "n < 0xD800" for n
    using that by (intro well_formed_plain) auto
  ultimately show ?thesis by (auto simp: escape_unit_def simp del: well_formed.simps(3))
qed

lemma quote_units_well_formed: "well_formed (quote_units s)"
proof (induction s rule: quote_units.induct)
  case (3 c d cs)
  then show ?case by (auto simp: well_formed_append escape_well_formed)
qed (simp_all add: escape_well_formed)

lemma well_formed_Cons_plain: "c < 0xD800 \<Longrightarrow> well_formed (c # xs) = well_formed xs"
  using well_formed_append [of "[c]" xs] well_formed_plain [of "[c]"] by simp

lemma bracket_well_formed [simp]: "well_formed [93]" "well_formed [125]"
  by (simp_all add: high_surrogate_def low_surrogate_def)

lemma quote_well_formed: "well_formed (quote s @ x) = well_formed x"
  by (simp add: quote_def well_formed_Cons_plain well_formed_append quote_units_well_formed)

lemma commas_well_formed: "(\<And>x. x \<in> set xs \<Longrightarrow> well_formed x) \<Longrightarrow> well_formed (commas xs)"
  by (induction xs rule: commas.induct) (simp_all add: well_formed_append well_formed_Cons_plain)

lemma number_well_formed: "number_format f \<Longrightarrow> well_formed (f n)"
proof (rule well_formed_plain)
  fix c
  assume "number_format f" "c \<in> set (f n)"
  then have "number_unit c"
    unfolding number_format_def number_unit_def by (metis set_ConsD)
  then show "c < 0xD800" by (auto simp: number_unit_def word_le_nat_alt word_less_nat_alt)
qed

lemma serialize_well_formed:
  assumes "number_format f"
  shows "well_formed (serialize f v)"
proof (induction v)
  case (JArr vs)
  then have "well_formed (commas (map (serialize f) vs))" by (intro commas_well_formed) auto
  then show ?case by (simp add: well_formed_Cons_plain well_formed_append del: well_formed.simps)
next
  case (JObj es)
  have "well_formed (commas (map member_text (sort_key fst (map (\<lambda>(k, v). (k, serialize f v)) es))))"
  proof (rule commas_well_formed)
    fix x
    assume "x \<in> set (map member_text (sort_key fst (map (\<lambda>(k, v). (k, serialize f v)) es)))"
    then obtain k v where "(k, v) \<in> set es" "x = quote k @ 58 # serialize f v"
      by (auto simp: member_text_def)
    with JObj.IH [of "(k, v)" v] show "well_formed x"
      by (simp add: quote_well_formed well_formed_Cons_plain)
  qed
  then show ?case by (simp add: well_formed_Cons_plain well_formed_append del: well_formed.simps)
next
  case (JStr s)
  show ?case using quote_well_formed [of s "[]"] by simp
qed (simp_all add: assms number_well_formed well_formed_Cons_plain high_surrogate_def low_surrogate_def
    del: well_formed.simps(3))

section \<open>Properties\<close>

text \<open>Canonical bytes do not depend on the order of keys: two objects with the same
  members (each key once) have the same canonical bytes.\<close>

theorem marshal_key_order:
  assumes "mset es = mset es'" and "distinct (map fst es)"
  shows "marshal utf8 numstr (JObj es) = marshal utf8 numstr (JObj es')"
proof -
  let ?s = "map (\<lambda>(k, v). (k, serialize numstr v))"
  have "mset (?s es) = mset (?s es')" using assms(1) by simp
  moreover have fst: "map fst (?s es) = map fst es" by (induction es) auto
  ultimately have "sort_key fst (?s es) = sort_key fst (?s es')"
    using assms(2) by (intro sort_key_mset) (simp_all only: fst)
  then show ?thesis by (simp add: marshal_def)
qed

lemma canonical_text_injective:
  assumes "number_format numstr" and "serialize numstr v = serialize numstr w"
  shows "sorted_form v = sorted_form w"
proof -
  have "print numstr (sorted_form v) @ [] = print numstr (sorted_form w) @ []"
    using assms(2) by (simp flip: serialize_print)
  from print_inject [OF assms(1) this] show ?thesis by simp
qed

text \<open>C18. Canonical bytes determine the document: two values with the same canonical bytes
  are equal up to the order of keys, given that the platform's UTF-8 encoder is injective on
  well-formed UTF-16 and its number format is injective and made of number characters.\<close>

theorem marshal_injective:
  assumes "number_format numstr" and "inj_on utf8 {s. well_formed s}"
    and "marshal utf8 numstr v = marshal utf8 numstr w"
  shows "sorted_form v = sorted_form w"
proof -
  have "serialize numstr v = serialize numstr w"
    using assms(2,3) serialize_well_formed [OF assms(1)]
    by (simp add: marshal_def inj_on_eq_iff)
  then show ?thesis by (rule canonical_text_injective [OF assms(1)])
qed

section \<open>A platform on which the hypotheses hold\<close>

text \<open>Two bytes per code unit, and numbers as a digit per unit.\<close>

definition demo_utf8 :: "jstr \<Rightarrow> bytes" where
  "demo_utf8 s = concat (map (\<lambda>c. [ucast (drop_bit 8 c), ucast c]) s)"

definition demo_numstr :: "int \<Rightarrow> jstr" where
  "demo_numstr n = (if n < 0 then 45 else 48) # replicate (nat \<bar>n\<bar>) 49"

lemma demo_utf8_append: "demo_utf8 (a @ b) = demo_utf8 a @ demo_utf8 b"
  by (simp add: demo_utf8_def)

lemma demo_unit_inj:
  fixes c d :: unit16
  assumes "(ucast (drop_bit 8 c) :: byte) = ucast (drop_bit 8 d)" "(ucast c :: byte) = ucast d"
  shows "c = d"
proof (rule bit_word_eqI)
  fix n assume n: "n < LENGTH(16)"
  show "bit c n = bit d n"
  proof (cases "n < 8")
    case True
    with arg_cong [OF assms(2), of "\<lambda>w. bit w n"] show ?thesis by (simp add: bit_ucast_iff)
  next
    case False
    then have "n - 8 < 8" "8 + (n - 8) = n" using n by simp_all
    with arg_cong [OF assms(1), of "\<lambda>w. bit w (n - 8)"] show ?thesis
      by (simp add: bit_ucast_iff bit_drop_bit_eq)
  qed
qed

lemma demo_utf8_inj: "inj demo_utf8"
proof -
  have "demo_utf8 s = demo_utf8 t \<Longrightarrow> s = t" for s t
  proof (induction s arbitrary: t)
    case Nil
    then show ?case by (cases t) (simp_all add: demo_utf8_def)
  next
    case (Cons c s)
    then show ?case by (cases t) (auto simp: demo_utf8_def dest: demo_unit_inj)
  qed
  then show ?thesis by (rule injI)
qed

lemma demo_number_format: "number_format demo_numstr"
proof -
  have "inj demo_numstr"
    by (rule injI) (auto simp: demo_numstr_def replicate_eq_replicate split: if_splits)
  then show ?thesis
    by (auto simp: number_format_def demo_numstr_def number_unit_def)
qed

theorem marshal_key_order_witness:
  "marshal demo_utf8 demo_numstr (JObj [(js ''b'', JNum 1), (js ''a'', JNull)])
   = marshal demo_utf8 demo_numstr (JObj [(js ''a'', JNull), (js ''b'', JNum 1)])"
  by (rule marshal_key_order) (simp_all add: js_def add_mset_commute)

theorem marshal_injective_witness:
  "marshal demo_utf8 demo_numstr (JArr [JNum 1, JNull]) \<noteq> marshal demo_utf8 demo_numstr (JArr [JNum 1])"
proof
  assume "marshal demo_utf8 demo_numstr (JArr [JNum 1, JNull]) = marshal demo_utf8 demo_numstr (JArr [JNum 1])"
  from marshal_injective [OF demo_number_format inj_on_subset [OF demo_utf8_inj subset_UNIV] this]
  show False by simp
qed

end
