(* ===== verification/SignedDoc.thy ===== *)
theory SignedDoc
  imports Canonical
begin

text \<open>
  Signed documents, \<^verbatim>\<open>src/src/keys/signed.ts\<close>: blank the signature value at a
  dotted path, canonicalize, prefix, sign, and write the signature back; verify
  by the inverse walk. Ed25519 (\<open>sgn\<close>, \<open>vrf\<close>), base64 (\<open>enc\<close>, \<open>dec\<close>) and the
  platform's encoders are arguments. A document is a JSON object; the two deep
  clones through \<open>JSON.stringify\<close> and \<open>JSON.parse\<close> are the identity on it.
\<close>

section \<open>Model\<close>

datatype path_error = EmptySegment | NotAnObject jstr | LeafNotString | EmptyPath

text \<open>Property assignment on an object: in place, or appended.\<close>

abbreviation obj_set :: "jstr \<Rightarrow> 'n json \<Rightarrow> (jstr \<times> 'n json) list \<Rightarrow> (jstr \<times> 'n json) list" where
  "obj_set \<equiv> jsm_set"

text \<open>
  \<open>setPath\<close> on the segments of the path (the value of \<open>path.split(".")\<close>, never
  empty): every segment but the last must name an object.
\<close>

fun setPath :: "(jstr \<times> 'n json) list \<Rightarrow> jstr list \<Rightarrow> jstr \<Rightarrow> path_error + (jstr \<times> 'n json) list" where
  "setPath m [] value = Inl EmptyPath"
| "setPath m [leaf] value = Inr (obj_set leaf (JStr value) m)"
| "setPath m (key # key2 # parts) value =
     (case map_of m key of
        Some (JObj next) \<Rightarrow>
          bindR (setPath next (key2 # parts) value) (\<lambda>next'. Inr (obj_set key (JObj next') m))
      | _ \<Rightarrow> Inl (NotAnObject key))"

text \<open>\<open>pluckAndBlankPath\<close>: the same walk, which also rejects empty segments.\<close>

fun pluckAndBlankPath ::
  "(jstr \<times> 'n json) list \<Rightarrow> jstr list \<Rightarrow> path_error + (jstr \<times> (jstr \<times> 'n json) list)"
where
  "pluckAndBlankPath m [] = Inl EmptyPath"
| "pluckAndBlankPath m [leaf] =
     (if leaf = [] then Inl EmptyPath
      else case map_of m leaf of
          Some (JStr value) \<Rightarrow> Inr (value, obj_set leaf (JStr []) m)
        | _ \<Rightarrow> Inl LeafNotString)"
| "pluckAndBlankPath m (key # key2 # parts) =
     (if key = [] then Inl EmptySegment
      else case map_of m key of
          Some (JObj next) \<Rightarrow>
            bindR (pluckAndBlankPath next (key2 # parts)) (\<lambda>(value, next').
              Inr (value, obj_set key (JObj next') m))
        | _ \<Rightarrow> Inl (NotAnObject key))"

text \<open>What the platform and the signature package provide.\<close>

record 'n platform =
  pl_utf8 :: "jstr \<Rightarrow> bytes"
  pl_numstr :: "'n \<Rightarrow> jstr"
  pl_enc64 :: "bytes \<Rightarrow> jstr"
  pl_dec64 :: "jstr \<Rightarrow> bytes"
  pl_sign :: "bytes \<Rightarrow> bytes \<Rightarrow> bytes"
  pl_verify :: "bytes \<Rightarrow> bytes \<Rightarrow> bytes \<Rightarrow> bool"

definition signingInput :: "'n platform \<Rightarrow> jstr \<Rightarrow> (jstr \<times> 'n json) list \<Rightarrow> bytes" where
  "signingInput P prefix m = pl_utf8 P prefix @ marshal (pl_utf8 P) (pl_numstr P) (JObj m)"

definition signSignedDoc ::
  "'n platform \<Rightarrow> (jstr \<times> 'n json) list \<Rightarrow> bytes \<Rightarrow> jstr list \<Rightarrow> jstr
     \<Rightarrow> path_error + ((jstr \<times> 'n json) list \<times> jstr)"
where
  "signSignedDoc P preSign seed path prefix =
     bindR (setPath preSign path []) (\<lambda>clone.
     let sigB64 = pl_enc64 P (pl_sign P seed (signingInput P prefix clone)) in
     bindR (setPath clone path sigB64) (\<lambda>sdoc. Inr (sdoc, sigB64)))"

definition verifySignedDoc ::
  "'n platform \<Rightarrow> (jstr \<times> 'n json) list \<Rightarrow> bytes \<Rightarrow> jstr list \<Rightarrow> jstr \<Rightarrow> path_error + bool"
where
  "verifySignedDoc P sdoc publicKey path prefix =
     bindR (pluckAndBlankPath sdoc path) (\<lambda>(sigB64, clone).
     Inr (pl_verify P publicKey (pl_dec64 P sigB64) (signingInput P prefix clone)))"

section \<open>The walks\<close>

lemma obj_set_twice [simp]: "obj_set k v (obj_set k w m) = obj_set k v m"
  by (induction m) auto

lemma setPath_twice: "setPath m path v = Inr m' \<Longrightarrow> setPath m' path w = setPath m path w"
proof (induction m path v arbitrary: m' rule: setPath.induct)
  case (3 m key key2 parts v)
  then show ?case
    by (auto simp: bindR_eq_Inr split: option.splits json.splits)
qed auto

lemma pluck_setPath:
  "setPath m path v = Inr m' \<Longrightarrow> [] \<notin> set path \<Longrightarrow>
   pluckAndBlankPath m' path = Inr (v, projr (setPath m path []))"
proof (induction m path v arbitrary: m' rule: setPath.induct)
  case (3 m key key2 parts v)
  from "3.prems"(1) obtain nxt nxt' where n: "map_of m key = Some (JObj nxt)"
    "setPath nxt (key2 # parts) v = Inr nxt'" "m' = obj_set key (JObj nxt') m"
    by (auto simp: bindR_eq_Inr split: option.splits json.splits)
  have "isInr (setPath nxt (key2 # parts) w)" for w
    using n(2)
    by (induction nxt "key2 # parts" v arbitrary: nxt' key2 parts rule: setPath.induct)
       (auto simp: isInr_iff bindR_eq_Inr split: option.splits json.splits)
  then obtain b where b: "setPath nxt (key2 # parts) [] = Inr b" by (auto simp: isInr_iff)
  from "3.IH" [OF n(1) refl n(2)] "3.prems"(2) b
  have "pluckAndBlankPath nxt' (key2 # parts) = Inr (v, b)" by simp
  with n b "3.prems"(2) show ?case by auto
qed auto

section \<open>Properties\<close>

text \<open>
  What the signature scheme and base64 promise: a signature made with a seed is
  accepted under the matching public key, and decoding undoes encoding.
\<close>

definition scheme_ok :: "'n platform \<Rightarrow> bytes \<Rightarrow> bytes \<Rightarrow> bool" where
  "scheme_ok P seed pub \<longleftrightarrow>
     (\<forall>msg. pl_verify P pub (pl_sign P seed msg) msg) \<and> (\<forall>b. pl_dec64 P (pl_enc64 P b) = b)"

lemma signed_doc_roundtrip:
  assumes "scheme_ok P seed pub" and "[] \<notin> set path"
    and "signSignedDoc P doc seed path prefix = Inr (sdoc, sig)"
  shows "verifySignedDoc P sdoc pub path prefix = Inr True
    \<and> setPath sdoc path [] = setPath doc path []"
proof -
  obtain clone where c: "setPath doc path [] = Inr clone"
    "sig = pl_enc64 P (pl_sign P seed (signingInput P prefix clone))"
    "setPath clone path sig = Inr sdoc"
    using assms(3) by (auto simp: signSignedDoc_def bindR_eq_Inr Let_def)
  have "setPath clone path [] = Inr clone" using setPath_twice [OF c(1), of "[]"] c(1) by simp
  with pluck_setPath [OF c(3) assms(2)] have "pluckAndBlankPath sdoc path = Inr (sig, clone)" by simp
  moreover have "setPath sdoc path [] = setPath doc path []"
    using setPath_twice [OF c(3), of "[]"] setPath_twice [OF c(1), of "[]"] by simp
  ultimately show ?thesis
    using assms(1) c(2) by (simp add: verifySignedDoc_def scheme_ok_def)
qed

lemmas signed_doc_verifies = signed_doc_roundtrip [THEN conjunct1]

lemma js_inj: "inj js"
proof -
  have "(of_nat (of_char c) :: unit16) = of_nat (of_char d) \<longleftrightarrow> c = d" for c d :: char
  proof
    assume e: "(of_nat (of_char c) :: unit16) = of_nat (of_char d)"
    have l: "(of_char e :: nat) < 2 ^ LENGTH(16)" for e :: char
    proof -
      have "(of_char e :: nat) < 256" by (rule nat_of_char_less_256)
      then have "(of_char e :: nat) < 65536" by linarith
      then show ?thesis by simp
    qed
    have "unat (of_nat (of_char c) :: unit16) = of_char c" "unat (of_nat (of_char d) :: unit16) = of_char d"
      by (rule of_nat_inverse [OF refl l])+
    with e have "(of_char c :: nat) = of_char d" by metis
    then show "c = d" by simp
  qed simp
  then have "inj (\<lambda>c :: char. of_nat (of_char c) :: unit16)" by (simp add: inj_def)
  then show ?thesis unfolding js_def by (rule inj_mapI)
qed

lemma js_eq [simp]: "js s = js t \<longleftrightarrow> s = t"
  using js_inj by (rule inj_eq)

lemma js_Nil [simp]: "js s = [] \<longleftrightarrow> s = []" "[] = js s \<longleftrightarrow> s = []"
  by (auto simp: js_def)

text \<open>
  The interface of the records the program signs: \<open>toJson\<close> is the object the code hands to the
  two functions, \<open>get_sig\<close> and \<open>set_sig\<close> read and write the field at \<open>path\<close>.
\<close>

locale signed_record =
  fixes toJson :: "'r \<Rightarrow> (jstr \<times> 'n json) list"
    and path :: "jstr list"
    and get_sig :: "'r \<Rightarrow> jstr"
    and set_sig :: "jstr \<Rightarrow> 'r \<Rightarrow> 'r"
  assumes set_path: "setPath (toJson r) path v = Inr (toJson (set_sig v r))"
    and set_get: "set_sig (get_sig r) r = r"
    and get_set: "get_sig (set_sig v r) = v"
    and set_set: "set_sig v (set_sig w r) = set_sig v r"
    and segments: "[] \<notin> set path"
begin

lemma pluck: "pluckAndBlankPath (toJson r) path = Inr (get_sig r, toJson (set_sig [] r))"
  using pluck_setPath [OF set_path [of "r" "get_sig r"] segments] by (simp add: set_get set_path)

lemma sign_json:
  "signSignedDoc P (toJson r) seed path prefix =
     (let sigB64 = pl_enc64 P (pl_sign P seed (signingInput P prefix (toJson (set_sig [] r)))) in
      Inr (toJson (set_sig sigB64 r), sigB64))"
  by (simp add: signSignedDoc_def set_path set_set Let_def)

lemma verify_json:
  "verifySignedDoc P (toJson r) pub path prefix =
     Inr (pl_verify P pub (pl_dec64 P (get_sig r)) (signingInput P prefix (toJson (set_sig [] r))))"
  by (simp add: verifySignedDoc_def pluck)

lemma verify_blanked: "verifySignedDoc P (toJson r) pub path prefix = Inr True \<Longrightarrow>
    set_sig [] r' = set_sig [] r \<Longrightarrow> get_sig r' = get_sig r \<Longrightarrow>
    verifySignedDoc P (toJson r') pub path prefix = Inr True"
  by (simp add: verify_json)

lemma sign_verifies:
  assumes "scheme_ok P seed pub" and "signSignedDoc P (toJson r) seed path prefix = Inr (sdoc, sig)"
  shows "sdoc = toJson (set_sig sig r)"
    and "verifySignedDoc P (toJson (set_sig sig r)) pub path prefix = Inr True"
  using assms by (auto simp: sign_json verify_json Let_def get_set set_set scheme_ok_def)

end

text \<open>A document signed with \<open>signSignedDoc\<close> is accepted by \<open>verifySignedDoc\<close> at the same
  path and prefix under the matching public key, and it is the document given except for the
  signature value: blanking the path again gives what was signed.\<close>

theorem sign_then_verify:
  assumes "scheme_ok P seed pub" and "[] \<notin> set path"
    and "signSignedDoc P doc seed path prefix = Inr (sdoc, sig)"
  shows "verifySignedDoc P sdoc pub path prefix = Inr True
    \<and> setPath sdoc path [] = setPath doc path []"
  using assms by (rule signed_doc_roundtrip)

section \<open>Domain separation\<close>

text \<open>
  What is used of \<open>TextEncoder\<close>: it is injective on well-formed strings and it
  encodes a concatenation of well-formed strings piecewise.
\<close>

definition utf8_ok :: "(jstr \<Rightarrow> bytes) \<Rightarrow> bool" where
  "utf8_ok utf8 \<longleftrightarrow> inj_on utf8 {s. well_formed s} \<and>
     (\<forall>a b. well_formed a \<longrightarrow> well_formed b \<longrightarrow> utf8 (a @ b) = utf8 a @ utf8 b)"

text \<open>A signature prefix of the protocol: plain text without an opening brace.\<close>

definition prefix_ok :: "jstr \<Rightarrow> bool" where
  "prefix_ok p \<longleftrightarrow> list_all (\<lambda>c. c < 128 \<and> c \<noteq> 123) p"

lemma prefix_well_formed: "prefix_ok p \<Longrightarrow> well_formed p"
proof (induction p)
  case (Cons c p)
  then have "c < 128" "well_formed p" by (simp_all add: prefix_ok_def)
  moreover from this have "c < 0xD800" by (auto simp: word_less_nat_alt)
  ultimately show ?case by (simp add: well_formed_Cons_plain)
qed simp

lemma prefix_split:
  assumes "prefix_ok p" "prefix_ok q" "p @ 123 # x = q @ 123 # y"
  shows "p = q \<and> x = y"
proof -
  have "takeWhile (\<lambda>c. c \<noteq> 123) (r @ 123 # z) = r" if "prefix_ok r" for r z
    using that by (subst takeWhile_append2) (auto simp: prefix_ok_def list_all_iff)
  then have "p = q" using assms by metis
  with assms(3) show ?thesis by simp
qed

lemma serialize_obj_brace: "\<exists>z. serialize f (JObj m) = 123 # z"
  by simp

text \<open>The bytes under a signature determine both the domain-separation prefix and the
  document: when two signing inputs agree, the prefixes agree and the documents are the same
  up to the order of keys. A signature made for one kind of document therefore never
  covers another kind, nor a different document of its kind.\<close>

theorem signing_input_separates:
  assumes "utf8_ok (pl_utf8 P)" "number_format (pl_numstr P)"
    and "prefix_ok p" "prefix_ok q"
    and "signingInput P p m = signingInput P q m'"
  shows "p = q \<and> sorted_form (JObj m) = sorted_form (JObj m')"
proof -
  let ?s = "\<lambda>m. serialize (pl_numstr P) (JObj m)"
  have wf: "well_formed (?s m)" for m by (rule serialize_well_formed [OF assms(2)])
  have inp: "signingInput P r m = pl_utf8 P (r @ ?s m)" "well_formed (r @ ?s m)" if "prefix_ok r" for r m
    using that wf prefix_well_formed [OF that] assms(1)
    by (simp_all add: signingInput_def marshal_def utf8_ok_def well_formed_append del: serialize.simps)
  have "p @ ?s m = q @ ?s m'"
    using assms(1,5) inj_onD [of "pl_utf8 P" "{s. well_formed s}"] inp [OF assms(3)] inp [OF assms(4)]
    by (simp only: utf8_ok_def mem_Collect_eq)
  with prefix_split [OF assms(3,4)] serialize_obj_brace have e: "p = q" "?s m = ?s m'"
    by (metis (no_types, lifting))+
  have "sorted_form (JObj m) = sorted_form (JObj m')"
    using canonical_text_injective [OF assms(2)] e by blast
  with e show ?thesis by simp
qed

text \<open>A platform with a toy signature: the signed text itself behind the key.\<close>

definition demo_platform :: "int platform" where
  "demo_platform = \<lparr>pl_utf8 = demo_utf8, pl_numstr = demo_numstr,
     pl_enc64 = map ucast, pl_dec64 = map ucast,
     pl_sign = (\<lambda>seed msg. seed @ msg), pl_verify = (\<lambda>pub sig msg. sig = pub @ msg)\<rparr>"

lemma demo_scheme: "scheme_ok demo_platform seed seed"
proof -
  have "(ucast (ucast b :: unit16) :: byte) = b" for b :: byte
    by (rule bit_word_eqI) (simp add: bit_ucast_iff)
  then have "map ucast (map ucast b :: jstr) = b" for b :: bytes
    by (simp add: o_def)
  then show ?thesis by (simp add: scheme_ok_def demo_platform_def)
qed

definition demo_doc :: "(jstr \<times> int json) list" where
  "demo_doc = [(js ''n'', JNum 3), (js ''s'', JObj [(js ''v'', JStr [])])]"

definition demo_signed :: "((jstr \<times> int json) list \<times> jstr)" where
  "demo_signed = projr (signSignedDoc demo_platform demo_doc [7] [js ''s'', js ''v''] (js ''P:''))"

lemma demo_signed: "signSignedDoc demo_platform demo_doc [7] [js ''s'', js ''v''] (js ''P:'')
    = Inr (fst demo_signed, snd demo_signed)"
proof -
  have "isInr (signSignedDoc demo_platform demo_doc [7] [js ''s'', js ''v''] (js ''P:''))"
    by (simp add: signSignedDoc_def demo_doc_def js_def Let_def)
  then show ?thesis by (auto simp: isInr_iff demo_signed_def)
qed

theorem sign_then_verify_witness:
  "verifySignedDoc demo_platform (fst demo_signed) [7] [js ''s'', js ''v''] (js ''P:'') = Inr True"
  using sign_then_verify [OF demo_scheme _ demo_signed] by (simp add: js_def)

theorem signing_input_separates_witness:
  "signingInput demo_platform (js ''A:'') demo_doc \<noteq> signingInput demo_platform (js ''B:'') demo_doc"
proof
  assume eq: "signingInput demo_platform (js ''A:'') demo_doc = signingInput demo_platform (js ''B:'') demo_doc"
  have "utf8_ok (pl_utf8 demo_platform)"
    using inj_on_subset [OF demo_utf8_inj subset_UNIV]
    by (simp add: utf8_ok_def demo_platform_def demo_utf8_append)
  moreover have "number_format (pl_numstr demo_platform)"
    by (simp add: demo_platform_def demo_number_format)
  ultimately have "js ''A:'' = js ''B:''"
    using signing_input_separates [OF _ _ _ _ eq] by (simp add: prefix_ok_def js_def)
  then show False by (simp add: js_def)
qed

end
