(* ===== verification/TransparencyLog.thy ===== *)
theory TransparencyLog
  imports MerkleProofs SignedDoc
begin

text \<open>
  The transparency log, \<^verbatim>\<open>src/src/transparency/log.ts\<close>, its signed tree heads and
  the validation of its entries, \<^verbatim>\<open>sign.ts\<close> and \<^verbatim>\<open>types.ts\<close> beside it. The
  arguments are the platform (\<open>P\<close>), SHA-256 (\<open>sha\<close>), \<open>Date.parse\<close> (\<open>parseDate\<close>,
  \<open>None\<close> for \<open>NaN\<close>), \<open>toISOString\<close> cut to seconds (\<open>isoSecond\<close>) and the number
  constructor of JSON (\<open>num\<close>).
\<close>

section \<open>Wire records\<close>

text \<open>An optional, nullable property.\<close>

datatype 'a nullable = Undefined | Null | Value 'a

definition unset :: "jstr nullable \<Rightarrow> bool" where
  "unset v = (v = Undefined \<or> v = Null \<or> v = Value [])"

record log_entry =
  le_event :: jstr
  le_user_id :: jstr
  le_key_id :: jstr
  le_key_type :: jstr
  le_algorithm :: jstr
  le_public_key :: jstr
  le_created :: jstr
  le_expires :: "jstr nullable"
  le_revoked_at :: "jstr nullable"
  le_revoked_reason :: "jstr nullable"
  le_supersedes :: "jstr nullable"
  le_log_timestamp :: jstr

record signature_block =
  sg_algorithm :: jstr
  sg_key_id :: jstr
  sg_value :: jstr

record signed_tree_head =
  sth_log_size :: int
  sth_root_hash :: jstr
  sth_timestamp :: jstr
  sth_signature :: signature_block

text \<open>The records as JSON: an undefined property is dropped by \<open>JSON.stringify\<close>.\<close>

definition member_opt :: "string \<Rightarrow> jstr nullable \<Rightarrow> (jstr \<times> 'n json) list" where
  "member_opt k v = (case v of Undefined \<Rightarrow> [] | Null \<Rightarrow> [(js k, JNull)] | Value s \<Rightarrow> [(js k, JStr s)])"

definition log_entry_json :: "log_entry \<Rightarrow> 'n json" where
  "log_entry_json e = JObj (
     [(js ''event'', JStr (le_event e)), (js ''user_id'', JStr (le_user_id e)),
      (js ''key_id'', JStr (le_key_id e)), (js ''key_type'', JStr (le_key_type e)),
      (js ''algorithm'', JStr (le_algorithm e)), (js ''public_key'', JStr (le_public_key e)),
      (js ''created'', JStr (le_created e))]
     @ member_opt ''expires'' (le_expires e)
     @ member_opt ''revoked_at'' (le_revoked_at e)
     @ member_opt ''revoked_reason'' (le_revoked_reason e)
     @ member_opt ''supersedes'' (le_supersedes e)
     @ [(js ''log_timestamp'', JStr (le_log_timestamp e))])"

definition sth_json :: "(int \<Rightarrow> 'n) \<Rightarrow> signed_tree_head \<Rightarrow> (jstr \<times> 'n json) list" where
  "sth_json num sth =
     [(js ''log_size'', JNum (num (sth_log_size sth))),
      (js ''root_hash'', JStr (sth_root_hash sth)),
      (js ''timestamp'', JStr (sth_timestamp sth)),
      (js ''signature'', JObj
        [(js ''algorithm'', JStr (sg_algorithm (sth_signature sth))),
         (js ''key_id'', JStr (sg_key_id (sth_signature sth))),
         (js ''value'', JStr (sg_value (sth_signature sth)))])]"

section \<open>Validation\<close>

datatype log_error =
    BadEvent | MissingField string | BadKeyType | BadCreated | BadLogTimestamp
  | RotateNeedsSupersedes | PublishForbidsSupersedes | RevokeNeedsRevokedAt | RevokeNeedsReason
  | BadLogSize | BadRootHash | BadTimestamp | EmptyDomainKeyId | BadSeed
  | InvalidTreeSize int | TreeSizeExceeds int nat | LeafIndexOutOfRange int int
  | InvalidSizes int int | FirstExceedsSecond int int | SecondExceeds int nat
  | MerkleError merkle_error | PathError path_error

definition validateLogEntry :: "(jstr \<Rightarrow> time option) \<Rightarrow> log_entry \<Rightarrow> log_error + unit" where
  "validateLogEntry parseDate e =
     (if le_event e \<notin> {js ''publish'', js ''rotate'', js ''revoke''} then Inl BadEvent
      else if le_user_id e = [] then Inl (MissingField ''user_id'')
      else if le_key_id e = [] then Inl (MissingField ''key_id'')
      else if le_algorithm e = [] then Inl (MissingField ''algorithm'')
      else if le_public_key e = [] then Inl (MissingField ''public_key'')
      else if le_key_type e \<notin> {js ''identity'', js ''encryption''} then Inl BadKeyType
      else if le_created e = [] \<or> parseDate (le_created e) = None then Inl BadCreated
      else if le_log_timestamp e = [] \<or> parseDate (le_log_timestamp e) = None then Inl BadLogTimestamp
      else if le_event e = js ''rotate'' then
        (if unset (le_supersedes e) then Inl RotateNeedsSupersedes else Inr ())
      else if le_event e = js ''publish'' then
        (if \<not> unset (le_supersedes e) then Inl PublishForbidsSupersedes else Inr ())
      else if unset (le_revoked_at e) then Inl RevokeNeedsRevokedAt
      else if unset (le_revoked_reason e) then Inl RevokeNeedsReason
      else Inr ())"

definition validateSTH :: "(jstr \<Rightarrow> time option) \<Rightarrow> signed_tree_head \<Rightarrow> log_error + unit" where
  "validateSTH parseDate sth =
     (if sth_log_size sth < 0 then Inl BadLogSize
      else if sth_root_hash sth = [] then Inl BadRootHash
      else if sth_timestamp sth = [] then Inl BadTimestamp
      else if parseDate (sth_timestamp sth) = None then Inl BadTimestamp
      else Inr ())"

definition MaxSTHFreshnessMs :: int where "MaxSTHFreshnessMs = 60 * 60 * 1000"

definition checkSTHFresh :: "(jstr \<Rightarrow> time option) \<Rightarrow> signed_tree_head \<Rightarrow> time \<Rightarrow> bool" where
  "checkSTHFresh parseDate sth now =
     (case parseDate (sth_timestamp sth) of
        None \<Rightarrow> False
      | Some ts \<Rightarrow> now - ts \<le> MaxSTHFreshnessMs)"

section \<open>Signed tree heads\<close>

definition TransparencySTHPrefix :: jstr where
  "TransparencySTHPrefix = js ''SEMP-TRANSPARENCY-STH:''"

definition sth_path :: "jstr list" where
  "sth_path = [js ''signature'', js ''value'']"

definition liftE :: "('e \<Rightarrow> log_error) \<Rightarrow> 'e + 'a \<Rightarrow> log_error + 'a" where
  "liftE f r = (case r of Inl e \<Rightarrow> Inl (f e) | Inr x \<Rightarrow> Inr x)"

text \<open>
  \<open>signSTH\<close>. The source returns the signed JSON object itself as the new tree head;
  \<open>signSTH_json\<close> below shows that the record returned here is that object.
\<close>

definition signSTH ::
  "'n platform \<Rightarrow> (int \<Rightarrow> 'n) \<Rightarrow> (jstr \<Rightarrow> time option) \<Rightarrow> signed_tree_head \<Rightarrow> bytes \<Rightarrow> jstr
     \<Rightarrow> log_error + signed_tree_head"
where
  "signSTH P num parseDate sth seed keyId =
     (if keyId = [] then Inl EmptyDomainKeyId
      else bindR (validateSTH parseDate sth) (\<lambda>_.
        let preSign = sth\<lparr>sth_signature :=
              \<lparr>sg_algorithm = js ''ed25519'', sg_key_id = keyId, sg_value = []\<rparr>\<rparr> in
        bindR (liftE PathError (signSignedDoc P (sth_json num preSign) seed sth_path TransparencySTHPrefix))
          (\<lambda>(sdoc, sigB64). Inr (preSign\<lparr>sth_signature := (sth_signature preSign)\<lparr>sg_value := sigB64\<rparr>\<rparr>))))"

definition verifySTH ::
  "'n platform \<Rightarrow> (int \<Rightarrow> 'n) \<Rightarrow> (jstr \<Rightarrow> time option) \<Rightarrow> signed_tree_head \<Rightarrow> bytes
     \<Rightarrow> log_error + bool"
where
  "verifySTH P num parseDate sth domainPub =
     bindR (validateSTH parseDate sth) (\<lambda>_.
     if sg_value (sth_signature sth) = [] then Inr False
     else liftE PathError (verifySignedDoc P (sth_json num sth) domainPub sth_path TransparencySTHPrefix))"

section \<open>The log\<close>

record log =
  lg_entries :: "log_entry list"
  lg_leaves :: "bytes list"

record log_config =
  lc_seed :: bytes
  lc_key_id :: jstr

definition newLog :: "log_config \<Rightarrow> log_error + log" where
  "newLog cfg =
     (if lc_key_id cfg = [] then Inl EmptyDomainKeyId
      else if length (lc_seed cfg) \<noteq> 32 then Inl BadSeed
      else Inr \<lparr>lg_entries = [], lg_leaves = []\<rparr>)"

definition hashLeafFromEntry :: "'n platform \<Rightarrow> (bytes \<Rightarrow> bytes) \<Rightarrow> log_entry \<Rightarrow> bytes" where
  "hashLeafFromEntry P sha entry =
     hashLeaf sha (marshal (pl_utf8 P) (pl_numstr P) (log_entry_json entry))"

definition append_entry ::
  "'n platform \<Rightarrow> (bytes \<Rightarrow> bytes) \<Rightarrow> (jstr \<Rightarrow> time option) \<Rightarrow> log_entry \<Rightarrow> log
     \<Rightarrow> log_error + (nat \<times> log)"
where
  "append_entry P sha parseDate entry lg =
     bindR (validateLogEntry parseDate entry) (\<lambda>_.
     let lg' = lg\<lparr>lg_entries := lg_entries lg @ [entry],
                 lg_leaves := lg_leaves lg @ [hashLeafFromEntry P sha entry]\<rparr> in
     Inr (length (lg_leaves lg') - 1, lg'))"

definition size_of_log :: "log \<Rightarrow> nat" where
  "size_of_log lg = length (lg_leaves lg)"

definition entry_at :: "log \<Rightarrow> int \<Rightarrow> log_entry option" where
  "entry_at lg index =
     (if index < 0 \<or> index \<ge> int (length (lg_entries lg)) then None
      else Some (lg_entries lg ! nat index))"

definition issueSTH ::
  "'n platform \<Rightarrow> (bytes \<Rightarrow> bytes) \<Rightarrow> (int \<Rightarrow> 'n) \<Rightarrow> (jstr \<Rightarrow> time option) \<Rightarrow> (time \<Rightarrow> jstr)
     \<Rightarrow> log_config \<Rightarrow> time \<Rightarrow> log \<Rightarrow> log_error + signed_tree_head"
where
  "issueSTH P sha num parseDate isoSecond cfg now lg =
     bindR (liftE MerkleError (subtreeRoot sha (lg_leaves lg))) (\<lambda>root.
     bindR (liftE MerkleError (encodeHash (pl_enc64 P) root)) (\<lambda>rootHash.
     signSTH P num parseDate
       \<lparr>sth_log_size = int (length (lg_leaves lg)), sth_root_hash = rootHash,
        sth_timestamp = isoSecond now,
        sth_signature = \<lparr>sg_algorithm = [], sg_key_id = [], sg_value = []\<rparr>\<rparr>
       (lc_seed cfg) (lc_key_id cfg)))"

definition inclusionProof ::
  "(bytes \<Rightarrow> bytes) \<Rightarrow> (bytes \<Rightarrow> 's) \<Rightarrow> log \<Rightarrow> int \<Rightarrow> int \<Rightarrow> log_error + 's inclusion_proof"
where
  "inclusionProof sha enc lg leafIndex treeSize =
     (if treeSize \<le> 0 then Inl (InvalidTreeSize treeSize)
      else if treeSize > int (length (lg_leaves lg)) then
        Inl (TreeSizeExceeds treeSize (length (lg_leaves lg)))
      else if leafIndex < 0 \<or> leafIndex \<ge> treeSize then
        Inl (LeafIndexOutOfRange leafIndex treeSize)
      else
        let leaves = take (nat treeSize) (lg_leaves lg) in
        bindR (liftE MerkleError (auditPath sha (nat leafIndex) leaves)) (\<lambda>siblings.
        bindR (liftE MerkleError (encodeHash enc (leaves ! nat leafIndex))) (\<lambda>leaf.
        bindR (liftE MerkleError (mapR (encodeHash enc) siblings)) (\<lambda>path.
        Inr \<lparr>ip_log_size = treeSize, ip_leaf_hash = leaf, ip_leaf_index = leafIndex,
             ip_path = path\<rparr>))))"

definition consistencyProof ::
  "(bytes \<Rightarrow> bytes) \<Rightarrow> (bytes \<Rightarrow> 's) \<Rightarrow> log \<Rightarrow> int \<Rightarrow> int \<Rightarrow> log_error + 's consistency_proof"
where
  "consistencyProof sha enc lg firstSize secondSize =
     (if firstSize \<le> 0 \<or> secondSize \<le> 0 then Inl (InvalidSizes firstSize secondSize)
      else if firstSize > secondSize then Inl (FirstExceedsSecond firstSize secondSize)
      else if secondSize > int (length (lg_leaves lg)) then
        Inl (SecondExceeds secondSize (length (lg_leaves lg)))
      else
        bindR (liftE MerkleError (subproof sha (nat firstSize) (take (nat secondSize) (lg_leaves lg)) True))
          (\<lambda>path.
        bindR (liftE MerkleError (mapR (encodeHash enc) path)) (\<lambda>items.
        Inr \<lparr>cp_from_size = firstSize, cp_to_size = secondSize, cp_path = items\<rparr>)))"

section \<open>Invariant of the log\<close>

lemma liftE_simps [simp]: "liftE f (Inl e) = Inl (f e)" "liftE f (Inr x) = Inr x"
  by (simp_all add: liftE_def)

lemma liftE_Inr [simp]: "liftE f r = Inr x \<longleftrightarrow> r = Inr x"
  by (cases r) auto

text \<open>A log reached from the empty one by successful appends.\<close>

inductive log_reach ::
  "'n platform \<Rightarrow> (bytes \<Rightarrow> bytes) \<Rightarrow> (jstr \<Rightarrow> time option) \<Rightarrow> log \<Rightarrow> bool"
  for P sha parseDate
where
  start: "log_reach P sha parseDate \<lparr>lg_entries = [], lg_leaves = []\<rparr>"
| append: "log_reach P sha parseDate lg \<Longrightarrow> append_entry P sha parseDate e lg = Inr (i, lg')
    \<Longrightarrow> log_reach P sha parseDate lg'"

lemma append_entry_Inr:
  "append_entry P sha parseDate e lg = Inr (i, lg') \<longleftrightarrow>
    validateLogEntry parseDate e = Inr () \<and> i = length (lg_leaves lg) \<and>
    lg' = lg\<lparr>lg_entries := lg_entries lg @ [e], lg_leaves := lg_leaves lg @ [hashLeafFromEntry P sha e]\<rparr>"
  by (auto simp: append_entry_def bindR_eq_Inr Let_def)

lemma log_reach_leaves:
  "log_reach P sha parseDate lg \<Longrightarrow> lg_leaves lg = map (hashLeafFromEntry P sha) (lg_entries lg)"
  by (induction rule: log_reach.induct) (auto simp: append_entry_Inr)

lemma log_reach_leaves32:
  assumes "hash32 sha" "log_reach P sha parseDate lg"
  shows "leaves32 (lg_leaves lg)"
  using log_reach_leaves [OF assms(2)] assms(1)
  by (auto simp: leaves32_def hashLeafFromEntry_def hashLeaf_def hash32_def)

lemma log_reach_valid:
  "log_reach P sha parseDate lg \<Longrightarrow> e \<in> set (lg_entries lg) \<Longrightarrow> validateLogEntry parseDate e = Inr ()"
  by (induction rule: log_reach.induct) (auto simp: append_entry_Inr)

end
