(* ===== verification/LogProofs.thy ===== *)
theory LogProofs
  imports TransparencyLog
begin

text \<open>
  The guarantees of the transparency log end to end: the proofs it issues are
  accepted against the roots it publishes, and a proof accepted against such a
  root tells the truth about the leaves, unless checking it exhibits a collision
  of the hash function. Base64 enters through \<open>dec (enc h) = h\<close>.
\<close>

section \<open>Completeness: what the log issues is accepted\<close>

lemma encode_all:
  "leaves32 hs \<Longrightarrow> mapR (encodeHash enc) hs = Inr (map enc hs)"
  by (induction hs) (simp_all add: encodeHash_def)

lemma decode_all: "\<forall>h. dec (enc h) = h \<Longrightarrow> map dec (map enc hs) = hs"
  by (simp add: map_idI)

lemma inclusionProof_value:
  assumes "hash32 sha" "leaves32 (lg_leaves lg)" "i < n" "n \<le> length (lg_leaves lg)"
  shows "inclusionProof sha enc lg (int i) (int n) =
    Inr \<lparr>ip_log_size = int n, ip_leaf_hash = enc (lg_leaves lg ! i), ip_leaf_index = int i,
         ip_path = map enc (apath sha i (take n (lg_leaves lg)))\<rparr>"
proof -
  note ap = auditPath_32 [OF assms(1) leaves32_take [OF assms(2)], of i n]
  have "length (lg_leaves lg ! i) = 32" using assms(2-4) by (simp add: leaves32_nth)
  then show ?thesis using assms(3,4) ap
    by (simp add: inclusionProof_def encode_all encodeHash_def)
qed

lemma consistencyProof_value:
  assumes "hash32 sha" "leaves32 (lg_leaves lg)" "1 \<le> m" "m \<le> n" "n \<le> length (lg_leaves lg)"
  shows "consistencyProof sha enc lg (int m) (int n) =
    Inr \<lparr>cp_from_size = int m, cp_to_size = int n,
         cp_path = map enc (sproof sha m (take n (lg_leaves lg)) True)\<rparr>"
proof -
  have "m \<le> length (take n (lg_leaves lg))" using assms(4,5) by simp
  note sp = subproof_32 [OF assms(1) leaves32_take [OF assms(2)] assms(3) this, of True]
  then show ?thesis using assms(3-5) by (simp add: consistencyProof_def encode_all)
qed

text \<open>Every inclusion proof the log issues is accepted: for a log built by \<open>append\<close>, any
  tree size up to its current size and any leaf index below it, \<open>inclusionProof\<close> returns a proof
  of the leaf hash of the entry at that index, and \<open>verifyInclusionProof\<close> accepts it against the
  tree hash \<open>subtreeRoot\<close> computes for that size. Sizes are bounded by \<open>2 ^ 32\<close>, beyond which
  the 32-bit shifts of the verifier lose bits.\<close>

theorem log_inclusion_accepted:
  assumes "hash32 sha" "\<forall>h. dec (enc h) = h" "log_reach P sha parseDate lg"
    and "i < n" "n \<le> size_of_log lg" "n \<le> 2 ^ 32"
  shows "\<exists>proof rootHash.
    inclusionProof sha enc lg (int i) (int n) = Inr proof \<and>
    subtreeRoot sha (take n (lg_leaves lg)) = Inr rootHash \<and>
    verifyInclusionProof sha dec proof rootHash \<and>
    dec (ip_leaf_hash proof) = hashLeafFromEntry P sha (lg_entries lg ! i)"
proof -
  let ?ls = "take n (lg_leaves lg)"
  note l32 = log_reach_leaves32 [OF assms(1,3)]
  have n: "n \<le> length (lg_leaves lg)" using assms(5) by (simp add: size_of_log_def)
  note proof_is = inclusionProof_value [OF assms(1) l32 assms(4) n, of enc]
  note ap = auditPath_32 [OF assms(1) leaves32_take [OF l32], of i n]
  have "length (lg_leaves lg ! i) = 32" using l32 n assms(4) by (simp add: leaves32_nth)
  moreover have "computeRootFromInclusion sha i (length ?ls) (?ls ! i) (apath sha i ?ls) = Inr (root sha ?ls)"
    by (rule inclusion_root) (use assms l32 n in simp_all)
  ultimately have "verifyInclusionProof sha dec \<lparr>ip_log_size = int n,
      ip_leaf_hash = enc (lg_leaves lg ! i), ip_leaf_index = int i,
      ip_path = map enc (apath sha i ?ls)\<rparr> (root sha ?ls)"
    using assms(2,4) ap n by (simp add: verifyInclusionProof_iff o_def)
  moreover have "lg_leaves lg ! i = hashLeafFromEntry P sha (lg_entries lg ! i)"
  proof -
    have "i < length (lg_entries lg)" using log_reach_leaves [OF assms(3)] assms(4) n by simp
    then show ?thesis by (simp add: log_reach_leaves [OF assms(3)])
  qed
  ultimately show ?thesis
    using proof_is subtreeRoot_root [OF assms(1) leaves32_take [OF l32]] assms(2) by simp
qed

text \<open>A log and a later state of it.\<close>

inductive log_extends ::
  "'n platform \<Rightarrow> (bytes \<Rightarrow> bytes) \<Rightarrow> (jstr \<Rightarrow> time option) \<Rightarrow> log \<Rightarrow> log \<Rightarrow> bool"
  for P sha parseDate lg
where
  same: "log_extends P sha parseDate lg lg"
| more: "log_extends P sha parseDate lg lg' \<Longrightarrow> append_entry P sha parseDate e lg' = Inr (i, lg'')
    \<Longrightarrow> log_extends P sha parseDate lg lg''"

lemma log_extends_prefix:
  "log_extends P sha parseDate lg lg' \<Longrightarrow> \<exists>more. lg_leaves lg' = lg_leaves lg @ more"
  by (induction rule: log_extends.induct) (auto simp: append_entry_Inr)

lemma log_extends_reach:
  "log_extends P sha parseDate lg lg' \<Longrightarrow> log_reach P sha parseDate lg \<Longrightarrow> log_reach P sha parseDate lg'"
  by (induction rule: log_extends.induct) (auto intro: log_reach.append)

lemma verifyConsistency_sizes:
  "verifyConsistencyProof sha dec proof r1 r2 \<Longrightarrow>
     0 \<le> cp_from_size proof \<and> cp_from_size proof \<le> cp_to_size proof"
  by (auto simp: verifyConsistencyProof_def split: if_splits)

lemma verifyConsistency_less:
  assumes "0 < cp_from_size proof" "cp_from_size proof < cp_to_size proof"
  shows "verifyConsistencyProof sha dec proof r1 r2 \<longleftrightarrow>
    leaves32 (map dec (cp_path proof)) \<and>
    computeRootsFromConsistency sha (nat (cp_from_size proof)) (nat (cp_to_size proof)) r1
      (map dec (cp_path proof)) = Inr (r1, r2)"
proof (cases "decodeHashes dec (cp_path proof)")
  case (Inl e)
  then have "\<not> leaves32 (map dec (cp_path proof))"
    by (metis decodeHashes_Inr sum.distinct(1))
  with Inl assms show ?thesis by (auto simp: verifyConsistencyProof_def)
next
  case (Inr ys)
  then have "ys = map dec (cp_path proof)" "leaves32 (map dec (cp_path proof))"
    by (simp_all add: decodeHashes_Inr)
  with Inr assms show ?thesis
    by (auto simp: verifyConsistencyProof_def split: sum.splits)
qed

text \<open>C9. Every consistency proof the log issues is accepted: between a non-empty state of the log
  and any later state, \<open>consistencyProof\<close> returns a proof, and \<open>verifyConsistencyProof\<close> accepts
  it against the two tree hashes published at these states.\<close>

theorem log_consistency_accepted:
  assumes "hash32 sha" "\<forall>h. dec (enc h) = h" "log_reach P sha parseDate lg"
    and "log_extends P sha parseDate lg lg'" "0 < size_of_log lg" "size_of_log lg' \<le> 2 ^ 32"
  shows "\<exists>proof r1 r2.
    consistencyProof sha enc lg' (int (size_of_log lg)) (int (size_of_log lg')) = Inr proof \<and>
    subtreeRoot sha (lg_leaves lg) = Inr r1 \<and> subtreeRoot sha (lg_leaves lg') = Inr r2 \<and>
    verifyConsistencyProof sha dec proof r1 r2"
proof -
  let ?m = "size_of_log lg" and ?n = "size_of_log lg'"
  note l32 = log_reach_leaves32 [OF assms(1,3)]
    and l32' = log_reach_leaves32 [OF assms(1) log_extends_reach [OF assms(4,3)]]
  from log_extends_prefix [OF assms(4)] have pre: "lg_leaves lg = take ?m (lg_leaves lg')" "?m \<le> ?n"
    by (auto simp: size_of_log_def)
  define cpf where "cpf = \<lparr>cp_from_size = int ?m, cp_to_size = int ?n,
    cp_path = map enc (sproof sha ?m (lg_leaves lg') True)\<rparr>"
  have "consistencyProof sha enc lg' (int ?m) (int ?n) = Inr cpf"
  proof -
    have n: "?n = length (lg_leaves lg')" "1 \<le> ?m" using assms(5) by (simp_all only: size_of_log_def)
    then have "take ?n (lg_leaves lg') = lg_leaves lg'" by simp
    with n consistencyProof_value [OF assms(1) l32' n(2) pre(2), of enc] show ?thesis
      by (simp add: cpf_def)
  qed
  moreover have "verifyConsistencyProof sha dec cpf (root sha (lg_leaves lg)) (root sha (lg_leaves lg'))"
  proof (cases "?m = ?n")
    case True
    have "lg_leaves lg = lg_leaves lg'" using pre(1) unfolding True by (simp add: size_of_log_def)
    moreover have "sproof sha (length ls) ls True = []" for ls
      by (simp add: sproof_def subproof.simps [of sha "length ls" ls])
    ultimately show ?thesis using True
      by (simp add: verifyConsistencyProof_def cpf_def size_of_log_def)
  next
    case False
    with pre(2) have lt: "?m < ?n" by simp
    have "leaves32 (sproof sha ?m (lg_leaves lg') True)"
      using subproof_32 [OF assms(1) l32', of ?m True] assms(5) pre(2) by (simp add: size_of_log_def Suc_le_eq)
    moreover have "computeRootsFromConsistency sha ?m ?n (root sha (take ?m (lg_leaves lg')))
        (sproof sha ?m (lg_leaves lg') True)
      = Inr (root sha (take ?m (lg_leaves lg')), root sha (lg_leaves lg'))"
      using consistency_roots [OF assms(1) l32', of ?m] lt assms(5,6) by (simp add: size_of_log_def Suc_le_eq)
    ultimately show ?thesis
      using lt assms(2,5) unfolding pre(1) [symmetric]
      by (subst verifyConsistency_less) (simp_all add: cpf_def o_def)
  qed
  ultimately show ?thesis
    using subtreeRoot_root [OF assms(1) l32] subtreeRoot_root [OF assms(1) l32'] by blast
qed

section \<open>Soundness: what is accepted is true of the log\<close>

text \<open>C8. An inclusion proof accepted against the published root of a log names the leaf the log
  holds at that index, or checking it exhibits a hash collision with the hashes of
  the honest proof.\<close>

theorem inclusion_proof_sound:
  assumes "hash32 sha" "leaves32 ls" "length ls \<le> 2 ^ 32"
    and "subtreeRoot sha ls = Inr rootHash" "ip_log_size proof = int (length ls)"
    and "verifyInclusionProof sha dec proof rootHash"
  shows "dec (ip_leaf_hash proof) = ls ! nat (ip_leaf_index proof) \<or>
    collision sha (proofInputs sha dec proof)
      (inclusionInputs sha (nat (ip_leaf_index proof)) (length ls - 1) (ls ! nat (ip_leaf_index proof))
        (projr (auditPath sha (nat (ip_leaf_index proof)) ls)))"
proof -
  let ?i = "nat (ip_leaf_index proof)"
  note v = assms(6) [unfolded verifyInclusionProof_iff computeRootFromInclusion_def]
  have i: "?i < length ls" using v assms(5) by auto
  have "rootHash = root sha ls" using assms(4) by (simp add: root_def)
  then have "inclusionLoop sha ?i (length ls - 1) (ls ! ?i) (apath sha ?i ls) = Inr rootHash"
    using inclusion_root [OF assms(1,2) i assms(3)] by (simp add: computeRootFromInclusion_def)
  moreover have "inclusionLoop sha ?i (length ls - 1) (dec (ip_leaf_hash proof)) (map dec (ip_path proof))
      = Inr rootHash" using v assms(5) by simp
  ultimately have "dec (ip_leaf_hash proof) = ls ! ?i \<and> map dec (ip_path proof) = apath sha ?i ls \<or>
      collision sha (inclusionInputs sha ?i (length ls - 1) (dec (ip_leaf_hash proof)) (map dec (ip_path proof)))
        (inclusionInputs sha ?i (length ls - 1) (ls ! ?i) (apath sha ?i ls))"
    using v leaves32_nth [OF assms(2) i] auditPath_32 [OF assms(1,2), of ?i]
    by (intro inclusion_bind_loop [OF _ _ assms(1)]) simp_all
  then show ?thesis by (auto simp: proofInputs_def apath_def assms(5))
qed

text \<open>The second root of a consistency check is folded like an inclusion proof.\<close>

lemma consistency_second:
  "consistencyLoop sha fn sn fr sr path = Inr (a, b) \<Longrightarrow> inclusionLoop sha fn sn sr path = Inr b"
proof (induction path arbitrary: fn sn fr sr)
  case Nil
  then show ?case by (simp split: if_splits)
next
  case (Cons c path)
  then have sn: "sn > 0" by (simp split: if_splits)
  obtain fn' sn' where st: "strip_zeros fn sn = (fn', sn')" by force
  show ?case
  proof (cases "fn mod 2 = 1 \<or> fn = sn")
    case True
    with Cons.prems sn st obtain fr' sr' where "hashInterior sha c sr = Inr sr'"
      "consistencyLoop sha (shr1 fn') (shr1 sn') fr' sr' path = Inr (a, b)"
      by (auto simp: bindR_eq_Inr)
    with True sn st Cons.IH show ?thesis by auto
  next
    case False
    with Cons.prems sn obtain sr' where "hashInterior sha sr c = Inr sr'"
      "consistencyLoop sha (shr1 fn) (shr1 sn) fr sr' path = Inr (a, b)"
      by (auto simp: bindR_eq_Inr)
    with False sn Cons.IH show ?thesis by auto
  qed
qed

definition seedInputs :: "(bytes \<Rightarrow> bytes) \<Rightarrow> bytes \<Rightarrow> nat \<times> nat \<Rightarrow> bytes list \<Rightarrow> bytes list" where
  "seedInputs sha firstRoot fs path =
     (case fs of (fn, sn) \<Rightarrow>
        if fn \<noteq> 0 then (case path of [] \<Rightarrow> [] | s # path' \<Rightarrow> inclusionInputs sha fn sn s path')
        else inclusionInputs sha fn sn firstRoot path)"

lemma consistencySeed_bind:
  assumes "consistencySeed sha r1 fs p1 = Inr (a1, h)" "consistencySeed sha r2 fs p2 = Inr (a2, h)"
    and "hash32 sha" "length r1 = 32" "length r2 = 32" "leaves32 p1" "leaves32 p2"
  shows "a1 = a2 \<or> collision sha (seedInputs sha r1 fs p1) (seedInputs sha r2 fs p2)"
proof -
  obtain fn sn where fs: "fs = (fn, sn)" by force
  show ?thesis
  proof (cases "fn = 0")
    case True
    with assms fs have c: "consistencyLoop sha fn sn r1 r1 p1 = Inr (a1, h)"
      "consistencyLoop sha fn sn r2 r2 p2 = Inr (a2, h)" by (simp_all add: consistencySeed_def)
    from inclusion_bind_loop [OF consistency_second [OF c(1)] consistency_second [OF c(2)]] assms c True
    show ?thesis by (auto simp: seedInputs_def fs)
  next
    case False
    with assms fs obtain s1 q1 s2 q2 where p: "p1 = s1 # q1" "p2 = s2 # q2"
      "consistencyLoop sha fn sn s1 s1 q1 = Inr (a1, h)" "consistencyLoop sha fn sn s2 s2 q2 = Inr (a2, h)"
      by (auto simp: consistencySeed_def split: list.splits)
    from inclusion_bind_loop [OF consistency_second [OF p(3)] consistency_second [OF p(4)]] assms p False
    show ?thesis by (auto simp: seedInputs_def fs)
  qed
qed

text \<open>The inputs hashed while the tree hash of a list of leaves is computed.\<close>

function treeInputs :: "(bytes \<Rightarrow> bytes) \<Rightarrow> bytes list \<Rightarrow> bytes list" where
  "treeInputs sha ls =
     (if length ls \<le> 1 then []
      else let k = largestPowerOfTwoLessThan (length ls) in
        nodeInput (root sha (take k ls)) (root sha (drop k ls))
          # treeInputs sha (take k ls) @ treeInputs sha (drop k ls))"
  by pat_completeness auto
termination
  by (relation "measure (\<lambda>(sha, leaves). length leaves)")
     (simp_all only: wf_measure in_measure prod.case, auto simp del: length_take length_drop
       intro!: lp2_take lp2_drop)

declare treeInputs.simps [simp del]

lemma collision_mono:
  "collision sha xs ys \<Longrightarrow> set xs \<subseteq> set xs' \<Longrightarrow> set ys \<subseteq> set ys' \<Longrightarrow> collision sha xs' ys'"
  by (auto simp: collision_def)

lemma collision_append:
  "collision sha xs ys \<Longrightarrow> collision sha (xs @ xs') (ys @ ys')"
  "collision sha xs ys \<Longrightarrow> collision sha (xs' @ xs) (ys' @ ys)"
  by (auto simp: collision_def)

lemma root_bind:
  assumes "hash32 sha" "leaves32 xs" "leaves32 ys" "length xs = length ys" "root sha xs = root sha ys"
  shows "xs = ys \<or> collision sha (treeInputs sha xs) (treeInputs sha ys)"
  using assms
proof (induction sha xs arbitrary: ys rule: treeInputs.induct)
  case (1 sha xs)
  show ?case
  proof (cases "length xs \<le> 1")
    case True
    then show ?thesis using "1.prems"
      by (cases xs; cases ys) (auto simp: root_single)
  next
    case False
    define k where "k = largestPowerOfTwoLessThan (length xs)"
    let ?x = "nodeInput (root sha (take k xs)) (root sha (drop k xs))"
    let ?y = "nodeInput (root sha (take k ys)) (root sha (drop k ys))"
    have inp: "treeInputs sha xs = ?x # treeInputs sha (take k xs) @ treeInputs sha (drop k xs)"
      "treeInputs sha ys = ?y # treeInputs sha (take k ys) @ treeInputs sha (drop k ys)"
      using False "1.prems"(4)
      by (simp_all only: treeInputs.simps [of sha xs] treeInputs.simps [of sha ys] k_def Let_def if_False)
    have eq: "sha ?x = sha ?y"
      using root_split [of sha xs] root_split [of sha ys] False "1.prems" by (simp add: k_def)
    show ?thesis
    proof (cases "?x = ?y")
      case False
      with eq show ?thesis unfolding inp collision_def by auto
    next
      case True
      then have "root sha (take k xs) = root sha (take k ys)" "root sha (drop k xs) = root sha (drop k ys)"
        using "1.prems" root_len [of sha "take k xs"] root_len [of sha "take k ys"]
        by (simp_all add: nodeInput_inject)
      with "1.IH" [OF False k_def, of "take k ys"] "1.IH" [OF False k_def, of "drop k ys"] "1.prems"
      have "take k xs = take k ys \<or> collision sha (treeInputs sha (take k xs)) (treeInputs sha (take k ys))"
        "drop k xs = drop k ys \<or> collision sha (treeInputs sha (drop k xs)) (treeInputs sha (drop k ys))"
        by auto
      then consider "take k xs = take k ys" "drop k xs = drop k ys"
        | "collision sha (treeInputs sha (take k xs)) (treeInputs sha (take k ys))"
        | "collision sha (treeInputs sha (drop k xs)) (treeInputs sha (drop k ys))" by blast
      then show ?thesis
      proof cases
        case 1
        then have "xs = ys" by (metis append_take_drop_id)
        then show ?thesis ..
      qed (simp_all only: inp collision_Cons collision_append simp_thms)
    qed
  qed
qed

text \<open>The inputs hashed while a consistency proof is checked.\<close>

definition consistencyInputs ::
  "(bytes \<Rightarrow> bytes) \<Rightarrow> ('s \<Rightarrow> bytes) \<Rightarrow> 's consistency_proof \<Rightarrow> bytes \<Rightarrow> bytes list"
where
  "consistencyInputs sha dec proof firstRoot =
     seedInputs sha firstRoot
       (strip_ones (nat (cp_from_size proof) - 1) (nat (cp_to_size proof) - 1)) (map dec (cp_path proof))"

text \<open>C7. A log cannot rewrite its history: a consistency proof accepted between the roots of two
  leaf lists of the sizes it names shows that the first list is a prefix of the second, or checking
  it and computing the two roots exhibits a hash collision.\<close>

theorem consistency_proof_sound:
  assumes "hash32 sha" "leaves32 old" "leaves32 new" "length new \<le> 2 ^ 32"
    and "subtreeRoot sha old = Inr r1" "subtreeRoot sha new = Inr r2"
    and "cp_from_size proof = int (length old)" "cp_to_size proof = int (length new)"
    and "verifyConsistencyProof sha dec proof r1 r2"
  shows "old = take (length old) new \<or>
    collision sha (consistencyInputs sha dec proof r1 @ treeInputs sha old)
      (seedInputs sha (root sha (take (length old) new))
         (strip_ones (length old - 1) (length new - 1))
         (projr (subproof sha (length old) new True))
       @ treeInputs sha (take (length old) new))"
proof -
  let ?m = "length old" and ?n = "length new"
  have roots: "r1 = root sha old" "r2 = root sha new" using assms(5,6) by (simp_all add: root_def)
  have mn: "?m \<le> ?n" using verifyConsistency_sizes [OF assms(9)] assms(7,8) by simp
  have same_root: "old = take ?m new \<or> collision sha (treeInputs sha old) (treeInputs sha (take ?m new))"
    if "root sha old = root sha (take ?m new)"
    by (rule root_bind) (use assms mn that in simp_all)
  consider "?m = 0" | "0 < ?m" "?m = ?n" | "0 < ?m" "?m < ?n" using mn by linarith
  then show ?thesis
  proof cases
    case 1
    then show ?thesis by simp
  next
    case 2
    then have "r1 = r2" using assms(7-9) by (simp add: verifyConsistencyProof_def split: if_splits)
    with 2 roots have "root sha old = root sha (take ?m new)" by simp
    with same_root show ?thesis using collision_append(2) by blast
  next
    case 3
    let ?sp = "sproof sha ?m new True"
    from 3 assms(7-9) have acc: "leaves32 (map dec (cp_path proof))"
      "consistencySeed sha r1 (strip_ones (?m - 1) (?n - 1)) (map dec (cp_path proof)) = Inr (r1, r2)"
      by (simp_all add: verifyConsistency_less computeRootsFromConsistency_seed)
    have hon: "leaves32 ?sp" using subproof_32 [OF assms(1,3), of ?m True] 3 by simp
    have "consistencySeed sha (root sha (take ?m new)) (strip_ones (?m - 1) (?n - 1)) ?sp
        = Inr (root sha (take ?m new), r2)"
      using consistency_roots [OF assms(1,3), of ?m] 3 assms(4) roots
      by (simp add: computeRootsFromConsistency_seed)
    from consistencySeed_bind [OF acc(2) this assms(1)] acc(1) hon roots assms(1-3)
    have "r1 = root sha (take ?m new) \<or> collision sha (consistencyInputs sha dec proof r1)
        (seedInputs sha (root sha (take ?m new)) (strip_ones (?m - 1) (?n - 1)) ?sp)"
      by (simp add: root_len consistencyInputs_def assms(7,8))
    with same_root roots show ?thesis
      unfolding sproof_def using collision_append by metis
  qed
qed


section \<open>Signed tree heads\<close>

text \<open>The record \<open>signSTH\<close> returns is the JSON object that was signed.\<close>

lemma setPath_sth:
  "setPath (sth_json num sth) sth_path v =
   Inr (sth_json num (sth\<lparr>sth_signature := (sth_signature sth)\<lparr>sg_value := v\<rparr>\<rparr>))"
  by (simp add: sth_json_def sth_path_def js_def)

lemma signSTH_json:
  assumes "signSTH P num parseDate sth seed keyId = Inr sth'"
  shows "\<exists>sig. sg_value (sth_signature sth') = sig \<and>
    signSignedDoc P (sth_json num (sth\<lparr>sth_signature :=
        \<lparr>sg_algorithm = js ''ed25519'', sg_key_id = keyId, sg_value = []\<rparr>\<rparr>)) seed sth_path
      TransparencySTHPrefix = Inr (sth_json num sth', sig)"
  using assms
  by (auto simp: signSTH_def Let_def bindR_eq_Inr signSignedDoc_def setPath_sth split: if_splits)

lemma signSTH_fields:
  assumes "signSTH P num parseDate sth seed keyId = Inr sth'"
  shows "sth_log_size sth' = sth_log_size sth" "sth_root_hash sth' = sth_root_hash sth"
    "sth_timestamp sth' = sth_timestamp sth" "validateSTH parseDate sth = Inr ()"
    "sth_signature sth' = \<lparr>sg_algorithm = js ''ed25519'', sg_key_id = keyId, sg_value = sg_value (sth_signature sth')\<rparr>"
  using assms by (auto simp: signSTH_def Let_def bindR_eq_Inr split: if_splits)

text \<open>The signed tree head a log issues commits to the log: it carries the current size and the
  encoded tree hash of the current leaves, \<open>verifySTH\<close> accepts it under the domain's public key,
  and \<open>checkSTHFresh\<close> accepts it exactly until \<open>MaxSTHFreshnessMs\<close> after its timestamp.\<close>

theorem issued_sth_accepted:
  assumes "hash32 sha" "scheme_ok P (lc_seed cfg) pub" "\<forall>msg. pl_enc64 P (pl_sign P (lc_seed cfg) msg) \<noteq> []"
    and "log_reach P sha parseDate lg"
    and "issueSTH P sha num parseDate isoSecond cfg now lg = Inr sth"
  shows "sth_log_size sth = int (size_of_log lg)
    \<and> (\<exists>rootHash. subtreeRoot sha (lg_leaves lg) = Inr rootHash \<and> sth_root_hash sth = pl_enc64 P rootHash)
    \<and> verifySTH P num parseDate sth pub = Inr True
    \<and> (\<exists>ts. parseDate (isoSecond now) = Some ts \<and>
         (\<forall>t. checkSTHFresh parseDate sth t = (t \<le> ts + MaxSTHFreshnessMs)))"
proof -
  note l32 = log_reach_leaves32 [OF assms(1,4)]
  define pre where "pre = \<lparr>sth_log_size = int (length (lg_leaves lg)),
    sth_root_hash = pl_enc64 P (root sha (lg_leaves lg)), sth_timestamp = isoSecond now,
    sth_signature = \<lparr>sg_algorithm = [], sg_key_id = [], sg_value = []\<rparr>\<rparr>"
  from assms(5) subtreeRoot_32 [OF assms(1) l32]
  have sign: "signSTH P num parseDate pre (lc_seed cfg) (lc_key_id cfg) = Inr sth"
    by (simp add: issueSTH_def encodeHash_def pre_def)
  note f = signSTH_fields [OF sign]
  from f(4) obtain ts where ts: "parseDate (isoSecond now) = Some ts"
    by (auto simp: validateSTH_def pre_def split: if_splits)
  obtain sig where sig: "sg_value (sth_signature sth) = sig"
    "signSignedDoc P (sth_json num (pre\<lparr>sth_signature :=
        \<lparr>sg_algorithm = js ''ed25519'', sg_key_id = lc_key_id cfg, sg_value = []\<rparr>\<rparr>)) (lc_seed cfg) sth_path
      TransparencySTHPrefix = Inr (sth_json num sth, sig)"
    using signSTH_json [OF sign] by blast
  have "sig \<noteq> []" using sig(2) assms(3)
    by (auto simp: signSignedDoc_def bindR_eq_Inr Let_def)
  moreover have "validateSTH parseDate sth = Inr ()"
    using f(4) unfolding validateSTH_def f(1-3) .
  moreover have "verifySignedDoc P (sth_json num sth) pub sth_path TransparencySTHPrefix = Inr True"
    by (rule signed_doc_verifies [OF assms(2) _ sig(2)]) (simp add: sth_path_def js_def)
  ultimately have "verifySTH P num parseDate sth pub = Inr True"
    using sig(1) by (simp add: verifySTH_def)
  moreover have "checkSTHFresh parseDate sth t = (t \<le> ts + MaxSTHFreshnessMs)" for t
    using ts f(3) by (auto simp: checkSTHFresh_def pre_def)
  ultimately show ?thesis
    using f(1,2) ts subtreeRoot_root [OF assms(1) l32] by (simp add: pre_def size_of_log_def)
qed

section \<open>A log on which the hypotheses hold\<close>

definition demo_sha :: "bytes \<Rightarrow> bytes" where
  "demo_sha m = replicate 32 (sum_list m)"

definition demo_parse :: "jstr \<Rightarrow> time option" where
  "demo_parse s = (if s = js ''t'' then Some 0 else None)"

definition demo_entry :: "jstr \<Rightarrow> log_entry" where
  "demo_entry k = \<lparr>le_event = js ''publish'', le_user_id = js ''u'', le_key_id = k,
     le_key_type = js ''identity'', le_algorithm = js ''a'', le_public_key = js ''p'',
     le_created = js ''t'', le_expires = Null, le_revoked_at = Undefined,
     le_revoked_reason = Undefined, le_supersedes = Null, le_log_timestamp = js ''t''\<rparr>"

fun demo_log :: "jstr list \<Rightarrow> log" where
  "demo_log [] = \<lparr>lg_entries = [], lg_leaves = []\<rparr>"
| "demo_log (k # ks) = (case demo_log ks of lg \<Rightarrow>
     lg\<lparr>lg_entries := lg_entries lg @ [demo_entry k],
        lg_leaves := lg_leaves lg @ [hashLeafFromEntry demo_platform demo_sha (demo_entry k)]\<rparr>)"

lemma demo_hash32: "hash32 demo_sha"
  by (simp add: hash32_def demo_sha_def)

lemma demo_valid: "k \<noteq> [] \<Longrightarrow> validateLogEntry demo_parse (demo_entry k) = Inr ()"
  by (simp add: validateLogEntry_def demo_entry_def demo_parse_def unset_def js_def)

lemma demo_append:
  "k \<noteq> [] \<Longrightarrow> append_entry demo_platform demo_sha demo_parse (demo_entry k) (demo_log ks)
    = Inr (length (lg_leaves (demo_log ks)), demo_log (k # ks))"
  by (simp add: append_entry_def demo_valid)

lemma demo_reach: "[] \<notin> set ks \<Longrightarrow> log_reach demo_platform demo_sha demo_parse (demo_log ks)"
  by (induction ks) (auto intro: log_reach.intros demo_append simp del: demo_log.simps(2))

theorem log_inclusion_accepted_witness:
  "\<exists>proof rootHash.
    inclusionProof demo_sha id (demo_log [[1], [2], [3]]) 1 3 = Inr proof \<and>
    verifyInclusionProof demo_sha id proof rootHash \<and>
    ip_leaf_hash proof = hashLeafFromEntry demo_platform demo_sha (demo_entry [2])"
  using log_inclusion_accepted [OF demo_hash32, of id id demo_platform demo_parse "demo_log [[1], [2], [3]]" 1 3]
    demo_reach [of "[[1], [2], [3]]"]
  by (auto simp: size_of_log_def)

theorem log_consistency_accepted_witness:
  "\<exists>proof r1 r2.
    consistencyProof demo_sha id (demo_log [[1], [2], [3]]) 2 3 = Inr proof \<and>
    verifyConsistencyProof demo_sha id proof r1 r2"
proof -
  have "log_extends demo_platform demo_sha demo_parse (demo_log [[2], [3]]) (demo_log [[1], [2], [3]])"
    by (rule log_extends.more [OF log_extends.same demo_append]) simp
  from log_consistency_accepted [OF demo_hash32 _ demo_reach this, of id id] show ?thesis
    by (auto simp: size_of_log_def)
qed

theorem inclusion_proof_sound_witness:
  "\<exists>proof rootHash. verifyInclusionProof demo_sha id proof rootHash \<and>
     ip_leaf_hash proof = replicate 32 7 \<and> rootHash = replicate 32 7"
proof -
  define p where "p = \<lparr>ip_log_size = 1, ip_leaf_hash = replicate 32 (7::byte), ip_leaf_index = 0, ip_path = []\<rparr>"
  have v: "verifyInclusionProof demo_sha id p (replicate 32 7)"
    by (simp add: p_def verifyInclusionProof_def decodeHash_def decodeHashes_def computeRootFromInclusion_def)
  have "id (ip_leaf_hash p) = [replicate 32 7] ! nat (ip_leaf_index p)"
    using inclusion_proof_sound [OF demo_hash32, of "[replicate 32 7]" "replicate 32 7" p id] v
    by (simp add: p_def subtreeRoot.simps collision_def proofInputs_def)
  with v show ?thesis by (auto simp: p_def)
qed

theorem consistency_proof_sound_witness:
  "\<exists>proof. verifyConsistencyProof demo_sha id proof (replicate 32 7) (replicate 32 7)
     \<and> cp_from_size proof = 1 \<and> [replicate 32 (7::byte)] = take 1 [replicate 32 7]"
proof -
  define p where "p = \<lparr>cp_from_size = 1, cp_to_size = 1, cp_path = ([] :: bytes list)\<rparr>"
  have v: "verifyConsistencyProof demo_sha id p (replicate 32 7) (replicate 32 7)"
    by (simp add: p_def verifyConsistencyProof_def)
  have "[replicate 32 (7::byte)] = take (length [replicate 32 (7::byte)]) [replicate 32 7]"
    using consistency_proof_sound [OF demo_hash32, of "[replicate 32 7]" "[replicate 32 7]"
      "replicate 32 7" "replicate 32 7" p id] v
    by (simp add: p_def subtreeRoot.simps)
  with v show ?thesis by (auto simp: p_def)
qed

theorem issued_sth_accepted_witness:
  "\<exists>sth. verifySTH demo_platform id demo_parse sth (replicate 32 5) = Inr True
     \<and> sth_log_size sth = 1 \<and> checkSTHFresh demo_parse sth 3600000 \<and> \<not> checkSTHFresh demo_parse sth 3600001"
proof -
  let ?cfg = "\<lparr>lc_seed = replicate 32 5, lc_key_id = js ''k''\<rparr>"
  have ne: "\<forall>msg. pl_enc64 demo_platform (pl_sign demo_platform (lc_seed ?cfg) msg) \<noteq> []"
    by (simp add: demo_platform_def)
  have "subtreeRoot demo_sha (lg_leaves (demo_log [[1]])) = Inr (root demo_sha (lg_leaves (demo_log [[1]])))"
    "length (root demo_sha (lg_leaves (demo_log [[1]]))) = 32"
    using subtreeRoot_32 [OF demo_hash32 log_reach_leaves32 [OF demo_hash32 demo_reach, of "[[1]]"]] by simp_all
  moreover from this have "root demo_sha (lg_leaves (demo_log [[1]])) \<noteq> []"
    by (metis list.size(3) zero_neq_numeral)
  ultimately have "isInr (issueSTH demo_platform demo_sha id demo_parse (\<lambda>_. js ''t'') ?cfg 0 (demo_log [[1]]))"
    by (simp add: issueSTH_def encodeHash_def signSTH_def validateSTH_def demo_parse_def js_def
        signSignedDoc_def Let_def setPath_sth [unfolded js_def] demo_platform_def)
  then obtain sth where "issueSTH demo_platform demo_sha id demo_parse (\<lambda>_. js ''t'') ?cfg 0 (demo_log [[1]]) = Inr sth"
    by (auto simp: isInr_iff)
  from issued_sth_accepted [OF demo_hash32 _ ne demo_reach this, of "replicate 32 5"] demo_scheme show ?thesis
    by (auto simp: size_of_log_def demo_parse_def MaxSTHFreshnessMs_def intro!: exI [of _ sth])
qed

end
