(* ===== verification/GF256.thy ===== *)
theory GF256
  imports Prelude
begin

unbundle bit_operations_syntax

text \<open>
  Arithmetic of GF(256) as \<^verbatim>\<open>src/src/recovery/shamir.ts\<close> does it: carry-less
  multiplication modulo the AES polynomial (\<open>gf256MulRaw\<close>), the exponent and
  logarithm tables built from the generator 3, and multiplication and inversion
  by table lookup. The tables are shown to be right and the operations to make
  the bytes a field.
\<close>

section \<open>Model\<close>

text \<open>One iteration of \<open>gf256MulRaw\<close> on the variables \<open>(p, a, b)\<close>.\<close>

definition mulStep :: "byte \<times> byte \<times> byte \<Rightarrow> byte \<times> byte \<times> byte" where
  "mulStep = (\<lambda>(p, a, b).
     let p' = (if b AND 1 = 1 then p XOR a else p);
         hi = a AND 0x80;
         a' = push_bit 1 a;
         a'' = (if hi \<noteq> 0 then a' XOR 0x1B else a')
     in (p', a'', drop_bit 1 b))"

definition gf256MulRaw :: "byte \<Rightarrow> byte \<Rightarrow> byte" where
  "gf256MulRaw a b = fst ((mulStep ^^ 8) (0, a, b))"

text \<open>The loop of \<open>buildTables\<close>: \<open>x\<close> runs through the powers of 3.\<close>

primrec buildTables :: "nat \<Rightarrow> byte \<times> byte list \<times> byte list" where
  "buildTables 0 = (1, replicate 256 0, replicate 256 0)"
| "buildTables (Suc i) =
     (case buildTables i of (x, exp, log) \<Rightarrow>
        (gf256MulRaw x 3, exp[i := x], log[unat x := of_nat i]))"

definition gf256Exp :: "byte list" where
  "gf256Exp = (fst (snd (buildTables 255)))[255 := 1]"

definition gf256Log :: "byte list" where
  "gf256Log = snd (snd (buildTables 255))"

definition gf256Mul :: "byte \<Rightarrow> byte \<Rightarrow> byte" where
  "gf256Mul a b =
     (if a = 0 \<or> b = 0 then 0
      else gf256Exp ! ((unat (gf256Log ! unat a) + unat (gf256Log ! unat b)) mod 255))"

definition gf256Inv :: "byte \<Rightarrow> string + byte" where
  "gf256Inv a =
     (if a = 0 then Inl ''recovery: gf256Inv(0)''
      else Inr (gf256Exp ! (255 - unat (gf256Log ! unat a))))"

section \<open>The carry-less product\<close>

definition xtime :: "byte \<Rightarrow> byte" where
  "xtime a = (if a AND 0x80 \<noteq> 0 then push_bit 1 a XOR 0x1B else push_bit 1 a)"

definition term_of :: "byte \<Rightarrow> byte \<Rightarrow> nat \<Rightarrow> byte" where
  "term_of a b i = (if bit b i then (xtime ^^ i) a else 0)"

lemma bit0_and: "(b AND 1 = (1 :: byte)) = bit b 0"
  by (simp add: and_one_eq bit_0 odd_iff_mod_2_eq_one)

lemma mulStep_eq:
  "mulStep (p, a, b) = (if bit b 0 then p XOR a else p, xtime a, drop_bit 1 b)"
  by (simp only: mulStep_def xtime_def Let_def bit0_and prod.case)

lemma mulStep_iter:
  "(mulStep ^^ n) (p, a, b) =
     (foldl (\<lambda>q i. q XOR term_of a b i) p [0..<n], (xtime ^^ n) a, drop_bit n b)"
proof (induction n)
  case 0
  then show ?case by simp
next
  case (Suc n)
  have "bit (drop_bit n b) 0 = bit b n" by (simp add: bit_drop_bit_eq)
  with Suc show ?case by (simp add: mulStep_eq term_of_def)
qed

lemma gf256MulRaw_sum:
  "gf256MulRaw a b = foldl (\<lambda>q i. q XOR term_of a b i) 0 [0, 1, 2, 3, 4, 5, 6, 7]"
proof -
  have "[0..<8] = [0, 1, 2, 3, 4, 5, 6, 7 :: nat]" by (simp add: upt_rec)
  then show ?thesis by (simp only: gf256MulRaw_def mulStep_iter fst_conv)
qed

lemma and80: "(a AND 0x80 \<noteq> (0 :: byte)) = bit a 7"
proof -
  have "a AND 0x80 = (if bit a 7 then 0x80 else 0)"
    by (rule bit_word_eqI) (auto simp: bit_simps bit_numeral_rec less_Suc_eq numeral_eq_Suc)
  then show ?thesis by simp
qed

lemma xtime_alt: "xtime a = push_bit 1 a XOR (if bit a 7 then 0x1B else 0)"
  by (simp add: xtime_def and80)

lemma xtime_xor: "xtime (a XOR b) = xtime a XOR xtime b"
  by (simp add: xtime_alt push_bit_xor bit_xor_iff xor.assoc xor.left_commute)

lemma xtime_0 [simp]: "xtime 0 = 0"
  by (simp add: xtime_alt)

lemma xtime_pow_xor: "(xtime ^^ n) (a XOR b) = (xtime ^^ n) a XOR (xtime ^^ n) b"
  by (induction n) (simp_all add: xtime_xor)

lemma xtime_pow_0 [simp]: "(xtime ^^ n) 0 = 0"
  by (induction n) simp_all

lemma foldl_xor:
  "foldl (\<lambda>q i. q XOR (f i XOR g i)) (p XOR r) xs =
     foldl (\<lambda>q i. q XOR f i) (p :: byte) xs XOR foldl (\<lambda>q i. q XOR g i) r xs"
proof (induction xs arbitrary: p r)
  case (Cons x xs)
  have eq: "(p XOR r) XOR (f x XOR g x) = (p XOR f x) XOR (r XOR g x)"
    by (simp only: ac_simps)
  show ?case unfolding foldl_Cons eq by (rule Cons.IH)
qed simp

lemma raw_xor_right: "gf256MulRaw a (b XOR c) = gf256MulRaw a b XOR gf256MulRaw a c"
proof -
  have "term_of a (b XOR c) i = term_of a b i XOR term_of a c i" for i
    by (simp add: term_of_def bit_xor_iff)
  then show ?thesis using foldl_xor [of "term_of a b" "term_of a c" 0 0]
    by (simp only: gf256MulRaw_sum xor_self_eq)
qed

lemma raw_xor_left: "gf256MulRaw (a XOR b) c = gf256MulRaw a c XOR gf256MulRaw b c"
proof -
  have "term_of (a XOR b) c i = term_of a c i XOR term_of b c i" for i
    by (simp add: term_of_def xtime_pow_xor)
  then show ?thesis using foldl_xor [of "term_of a c" "term_of b c" 0 0]
    by (simp only: gf256MulRaw_sum xor_self_eq)
qed

lemma raw_0 [simp]: "gf256MulRaw a 0 = 0" "gf256MulRaw 0 a = 0"
  by (simp_all add: gf256MulRaw_sum term_of_def)

lemma bit_1_byte: "bit (1 :: byte) i = (i = 0)"
  by (auto simp: bit_1_iff)

lemma bit_3_byte: "bit (3 :: byte) i = (i = 0 \<or> i = 1)"
  by (cases i; cases "i - 1") (auto simp: bit_numeral_rec bit_1_iff)

lemma raw_1 [simp]: "gf256MulRaw a 1 = a"
  by (simp add: gf256MulRaw_sum term_of_def bit_1_byte)

lemma raw_3: "gf256MulRaw a 3 = a XOR xtime a"
  by (simp add: gf256MulRaw_sum term_of_def bit_3_byte)

text \<open>A byte is the sum of its bits, so linear identities are checked on the bits.\<close>

lemma byte_bits:
  "(x :: byte) = foldl (\<lambda>q i. q XOR (if bit x i then push_bit i 1 else 0)) 0 [0, 1, 2, 3, 4, 5, 6, 7]"
proof (rule bit_word_eqI)
  fix n
  assume n: "n < LENGTH(8)"
  then have e: "n = 0 \<or> n = 1 \<or> n = 2 \<or> n = 3 \<or> n = 4 \<or> n = 5 \<or> n = 6 \<or> n = 7" by simp presburger
  define part where "part i = (if bit x i then push_bit i 1 else (0 :: byte))" for i
  have part: "bit (part i) n \<longleftrightarrow> n = i \<and> bit x n" for i
    using n by (auto simp: part_def bit_push_bit_iff bit_1_iff simp del: push_bit_of_1)
  have f: "bit (foldl (\<lambda>q i. q XOR part i) p xs) n = foldl (\<lambda>q i. q \<noteq> (n = i \<and> bit x n)) (bit p n) xs"
    for p xs by (induction xs arbitrary: p) (simp_all add: bit_xor_iff part)
  have "bit x n = bit (foldl (\<lambda>q i. q XOR part i) 0 [0, 1, 2, 3, 4, 5, 6, 7]) n"
    unfolding f using e by (elim disjE; simp)
  then show "bit x n = bit (foldl (\<lambda>q i. q XOR (if bit x i then push_bit i 1 else (0 :: byte))) 0
      [0, 1, 2, 3, 4, 5, 6, 7]) n"
    by (simp only: part_def)
qed

text \<open>The reduction: multiplying by the eighth power of the indeterminate.\<close>

definition reduction :: "byte \<Rightarrow> byte" where
  "reduction x = (xtime ^^ 8) x XOR (xtime ^^ 4) x XOR (xtime ^^ 3) x XOR xtime x XOR x"

lemma reduction_xor: "reduction (x XOR y) = reduction x XOR reduction y"
  unfolding reduction_def xtime_pow_xor xtime_xor by (simp only: ac_simps)

lemma iter8: "(f ^^ 8) x = f (f (f (f (f (f (f (f x)))))))"
  and iter4: "(f ^^ 4) x = f (f (f (f x)))" and iter3: "(f ^^ 3) x = f (f (f x))"
  by (simp_all add: numeral_eq_Suc)

lemma reduction_bits:
  "reduction (push_bit 0 1) = 0" "reduction (push_bit 1 1) = 0" "reduction (push_bit 2 1) = 0"
  "reduction (push_bit 3 1) = 0" "reduction (push_bit 4 1) = 0" "reduction (push_bit 5 1) = 0"
  "reduction (push_bit 6 1) = 0" "reduction (push_bit 7 1) = 0"
  by (simp_all add: reduction_def xtime_def iter8 iter4 iter3)

lemma reduction_0: "reduction x = 0"
proof -
  have z: "reduction (if b then y else 0) = 0" if "reduction y = 0" for b y
    using that by (simp add: reduction_def)
  have "reduction 0 = 0" by (simp add: reduction_def)
  then show ?thesis
    by (subst byte_bits) (simp only: foldl.simps reduction_xor reduction_bits [THEN z] xor_self_eq)
qed

lemma xor_zero: "a XOR b = 0 \<Longrightarrow> a = (b :: byte)"
proof -
  assume "a XOR b = 0"
  have "a = (a XOR b) XOR b" by (simp only: xor.assoc xor_self_eq xor.right_neutral)
  then show ?thesis using \<open>a XOR b = 0\<close> by simp
qed

lemma xtime_8: "(xtime ^^ 8) x = (xtime ^^ 4) x XOR (xtime ^^ 3) x XOR xtime x XOR x"
proof (rule xor_zero)
  show "(xtime ^^ 8) x XOR ((xtime ^^ 4) x XOR (xtime ^^ 3) x XOR xtime x XOR x) = 0"
    using reduction_0 [of x] by (simp only: reduction_def xor.assoc)
qed

text \<open>Shifting the second factor shifts the product.\<close>

lemma raw_shift:
  "gf256MulRaw x (push_bit 1 y) XOR (if bit y 7 then (xtime ^^ 8) x else 0) = xtime (gf256MulRaw x y)"
proof -
  have p: "bit (push_bit 1 y) 0 = False" "i < 7 \<Longrightarrow> bit (push_bit 1 y) (Suc i) = bit y i" for i
    by (simp_all only: bit_push_bit_iff) simp_all
  have *: "term_of x (push_bit 1 y) 0 = 0"
    "i < 7 \<Longrightarrow> term_of x (push_bit 1 y) (Suc i) = xtime (term_of x y i)" for i
    by (simp_all only: term_of_def p funpow.simps o_apply if_distrib [of xtime] xtime_0 if_False)
  have "(xtime ^^ 8) x = xtime ((xtime ^^ 7) x)" by (simp add: numeral_eq_Suc)
  then have "(if bit y 7 then (xtime ^^ 8) x else 0) = xtime (term_of x y 7)"
    by (simp only: term_of_def if_distrib [of xtime] xtime_0)
  define Y where "Y = push_bit 1 y"
  have **: "term_of x Y (Suc i) = xtime (term_of x y i)" if "i < 7" for i
    using *(2) [OF that] by (simp only: Y_def)
  have "term_of x Y 0 = 0" "term_of x Y 1 = xtime (term_of x y 0)" "term_of x Y 2 = xtime (term_of x y 1)"
    "term_of x Y 3 = xtime (term_of x y 2)" "term_of x Y 4 = xtime (term_of x y 3)"
    "term_of x Y 5 = xtime (term_of x y 4)" "term_of x Y 6 = xtime (term_of x y 5)"
    "term_of x Y 7 = xtime (term_of x y 6)"
    using *(1) ** by (simp_all add: Y_def numeral_eq_Suc)
  then show ?thesis
    unfolding \<open>(if bit y 7 then (xtime ^^ 8) x else 0) = xtime (term_of x y 7)\<close> Y_def [symmetric]
    by (simp only: gf256MulRaw_sum foldl.simps xtime_xor xtime_0 xor.left_neutral)
qed

lemma raw_xtime: "gf256MulRaw x (xtime y) = xtime (gf256MulRaw x y)"
proof -
  have "gf256MulRaw x 0x1B = (xtime ^^ 8) x"
  proof -
    have "gf256MulRaw x (0x10 XOR 0x08 XOR 0x02 XOR 0x01)
        = gf256MulRaw x 0x10 XOR gf256MulRaw x 0x08 XOR gf256MulRaw x 0x02 XOR gf256MulRaw x 0x01"
      by (simp only: raw_xor_right)
    moreover have "(0x10 :: byte) XOR 0x08 XOR 0x02 XOR 0x01 = 0x1B" by simp
    moreover have "gf256MulRaw x 0x10 = (xtime ^^ 4) x" "gf256MulRaw x 0x08 = (xtime ^^ 3) x"
      "gf256MulRaw x 0x02 = xtime x"
      by (simp_all add: gf256MulRaw_sum term_of_def bit_numeral_rec numeral_eq_Suc)
    ultimately show ?thesis by (simp add: xtime_8)
  qed
  then have "gf256MulRaw x (xtime y) =
      gf256MulRaw x (push_bit 1 y) XOR (if bit y 7 then (xtime ^^ 8) x else 0)"
    by (simp only: xtime_alt raw_xor_right if_distrib [of "gf256MulRaw x"] raw_0)
  then show ?thesis by (simp only: raw_shift)
qed

lemma raw_assoc_3: "gf256MulRaw x (gf256MulRaw y 3) = gf256MulRaw (gf256MulRaw x y) 3"
  by (simp only: raw_3 raw_xor_right raw_xtime)

section \<open>Powers of the generator\<close>

definition gen :: "nat \<Rightarrow> byte" where
  "gen n = ((\<lambda>x. gf256MulRaw x 3) ^^ n) 1"

lemma gen_0 [simp]: "gen 0 = 1"
  by (simp add: gen_def)

lemma gen_Suc: "gen (Suc n) = gf256MulRaw (gen n) 3"
  by (simp add: gen_def)

lemma gen_add: "gen (i + j) = gf256MulRaw (gen i) (gen j)"
  by (induction j) (simp_all add: gen_Suc raw_assoc_3)

lemma gen_mult_1: "gen d = 1 \<Longrightarrow> gen (d * k) = 1"
  by (induction k) (simp_all add: gen_add)

lemma gen_double: "gen n = a \<Longrightarrow> gf256MulRaw a a = b \<Longrightarrow> gen (2 * n) = b"
  by (simp only: mult_2 gen_add)

lemma gen_powers:
  "gen 1 = 3" "gen 2 = 5" "gen 4 = 17" "gen 8 = 26" "gen 16 = 95" "gen 32 = 229"
  "gen 64 = 76" "gen 128 = 251"
proof -
  show 1: "gen 1 = 3" by (simp add: gen_def gf256MulRaw_def mulStep_def iter8)
  show 2: "gen 2 = 5" using gen_double [OF 1] by (simp add: gf256MulRaw_def mulStep_def iter8)
  show 3: "gen 4 = 17" using gen_double [OF 2] by (simp add: gf256MulRaw_def mulStep_def iter8)
  show 4: "gen 8 = 26" using gen_double [OF 3] by (simp add: gf256MulRaw_def mulStep_def iter8)
  show 5: "gen 16 = 95" using gen_double [OF 4] by (simp add: gf256MulRaw_def mulStep_def iter8)
  show 6: "gen 32 = 229" using gen_double [OF 5] by (simp add: gf256MulRaw_def mulStep_def iter8)
  show 7: "gen 64 = 76" using gen_double [OF 6] by (simp add: gf256MulRaw_def mulStep_def iter8)
  show 8: "gen 128 = 251" using gen_double [OF 7] by (simp add: gf256MulRaw_def mulStep_def iter8)
qed

lemma gen_15: "gen 15 = 53" and gen_51: "gen 51 = 12" and gen_85: "gen 85 = 189"
  and gen_255: "gen 255 = 1"
proof -
  have "gen 15 = gen (8 + (4 + (2 + 1)))" by simp
  then show 15: "gen 15 = 53"
    by (simp only: gen_add gen_powers) (simp add: gf256MulRaw_def mulStep_def iter8)
  have "gen 51 = gen (32 + (16 + (2 + 1)))" by simp
  then show "gen 51 = 12"
    by (simp only: gen_add gen_powers) (simp add: gf256MulRaw_def mulStep_def iter8)
  have "gen 85 = gen (64 + (16 + (4 + 1)))" by simp
  then show "gen 85 = 189"
    by (simp only: gen_add gen_powers) (simp add: gf256MulRaw_def mulStep_def iter8)
  have "gen 255 = gen (128 + (64 + (32 + (16 + 15))))" by simp
  then show "gen 255 = 1"
    by (simp only: gen_add gen_powers 15) (simp add: gf256MulRaw_def mulStep_def iter8)
qed

text \<open>The order of the generator is 255.\<close>

lemma gen_mod: "gen (n mod 255) = gen n"
proof -
  have "gen n = gf256MulRaw (gen (n mod 255)) (gen (255 * (n div 255)))"
    by (simp flip: gen_add)
  then show ?thesis by (simp add: gen_mult_1 [OF gen_255])
qed

lemma gen_coprime:
  assumes "gen d = 1" "gen e = 1"
  shows "gen (gcd d e) = 1"
proof (cases "d = 0")
  case False
  obtain x y where "d * x = e * y + gcd d e" using bezout_nat [OF False] by blast
  then have "gen (d * x) = gf256MulRaw (gen (e * y)) (gen (gcd d e))" by (simp only: gen_add)
  also have "\<dots> = gf256MulRaw (gen 0) (gen (gcd d e))" by (simp only: gen_mult_1 [OF assms(2)] gen_0)
  also have "\<dots> = gen (gcd d e)" by (simp only: gen_add [symmetric] add_0)
  finally show ?thesis by (simp only: gen_mult_1 [OF assms(1)])
qed (simp add: assms)

lemma divisors_255: "\<forall>g \<in> set [1..<255]. g dvd 255 \<longrightarrow> g dvd 15 \<or> g dvd 51 \<or> g dvd (85 :: nat)"
  by code_simp

lemma gen_order:
  assumes "gen d = 1" "0 < d"
  shows "255 \<le> d"
proof (rule ccontr)
  let ?g = "gcd d 255"
  assume "\<not> 255 \<le> d"
  moreover have "?g \<le> d" using assms(2) by (intro gcd_le1_nat) simp
  ultimately have "?g < 255" by linarith
  moreover have "?g \<noteq> 0" using assms(2) by simp
  ultimately have "?g \<in> set [1..<255]" by (simp add: Suc_le_eq del: gcd_eq_0_iff)
  then have "?g dvd 15 \<or> ?g dvd 51 \<or> ?g dvd 85" using divisors_255 gcd_dvd2 by blast
  moreover have g1: "gen ?g = 1" using assms(1) gen_255 by (rule gen_coprime)
  moreover have "gen n = 1" if "?g dvd n" for n
    using that gen_mult_1 [OF g1] by (metis dvdE)
  ultimately have "gen 15 = 1 \<or> gen 51 = 1 \<or> gen 85 = 1" by blast
  then show False by (simp add: gen_15 gen_51 gen_85)
qed

lemma gen_cancel: "gen i = gen (i + d) \<Longrightarrow> gen d = 1"
proof -
  assume "gen i = gen (i + d)"
  define k where "k = 254 * i"
  have "255 * i + d = k + (i + d)" "255 * i = k + i" by (simp_all add: k_def)
  then have "gen (255 * i + d) = gf256MulRaw (gen k) (gen (i + d))" by (simp only: gen_add)
  also have "\<dots> = gf256MulRaw (gen k) (gen i)" by (simp only: \<open>gen i = gen (i + d)\<close>)
  also have "\<dots> = gen (255 * i)" by (simp only: \<open>255 * i = k + i\<close> gen_add)
  also have "\<dots> = 1" by (rule gen_mult_1 [OF gen_255])
  finally have "gen (255 * i + d) = 1" .
  moreover have "gen (255 * i + d) = gen d" using gen_mod [of "255 * i + d"] gen_mod [of d] by simp
  ultimately show ?thesis by simp
qed

lemma gen_inj: "inj_on gen {..<255}"
proof (rule linorder_inj_onI)
  fix i j :: nat
  assume "i < j" "i \<in> {..<255}" "j \<in> {..<255}"
  then show "gen i \<noteq> gen j"
    using gen_cancel [of i "j - i"] gen_order [of "j - i"] by auto
qed auto

lemma gen_nonzero: "gen i \<noteq> 0"
proof
  assume "gen i = 0"
  then have "gen (i + 254 * i) = 0" by (simp only: gen_add raw_0)
  then show False using gen_mult_1 [OF gen_255, of i] by simp
qed

lemma gen_range: "gen ` {..<255} = - {0}"
proof (rule card_subset_eq)
  show "gen ` {..<255} \<subseteq> - {0}" by (auto simp: gen_nonzero)
  have "card (UNIV :: byte set) = 256" by (simp add: card_word)
  then have "card (- {0 :: byte}) = 255" by (simp only: Compl_eq_Diff_UNIV card_Diff_singleton UNIV_I)
  then show "card (gen ` {..<255}) = card (- {0 :: byte})" by (simp add: card_image gen_inj)
qed simp

lemma gen_ex: "a \<noteq> 0 \<Longrightarrow> \<exists>i < 255. a = gen i"
proof -
  assume "a \<noteq> 0"
  then have "a \<in> gen ` {..<255}" unfolding gen_range by simp
  then show ?thesis by auto
qed

section \<open>The tables\<close>

lemma tables:
  assumes "n \<le> 255" "buildTables n = (x, exp, log)"
  shows "x = gen n \<and> length exp = 256 \<and> length log = 256 \<and>
    (\<forall>i < n. exp ! i = gen i) \<and> (\<forall>i < n. log ! unat (gen i) = of_nat i)"
  using assms
proof (induction n arbitrary: x exp log)
  case 0
  then show ?case by auto
next
  case (Suc n)
  obtain x' exp' log' where b: "buildTables n = (x', exp', log')" by (cases "buildTables n")
  with Suc have IH: "x' = gen n" "length exp' = 256" "length log' = 256"
    "\<forall>i < n. exp' ! i = gen i" "\<forall>i < n. log' ! unat (gen i) = of_nat i" by auto
  have e: "x = gen (Suc n)" "exp = exp'[n := gen n]" "log = log'[unat (gen n) := of_nat n]"
    using Suc.prems b IH(1) by (auto simp: gen_Suc)
  have "unat (gen n) < 256" using unsigned_less [of "gen n", where 'a = nat] by simp
  moreover have "unat (gen n) \<noteq> unat (gen i)" if "i < n" for i
    using that Suc.prems(1) inj_onD [OF gen_inj, of i n] by (auto simp flip: word_unat_eq_iff)
  ultimately show ?case using e IH Suc.prems(1) by (auto simp: nth_list_update less_Suc_eq)
qed

lemma exp_nth: "i \<le> 255 \<Longrightarrow> gf256Exp ! i = gen i"
  using tables [of 255] gen_255
  by (cases "buildTables 255") (auto simp: gf256Exp_def nth_list_update)

lemma log_gen: "i < 255 \<Longrightarrow> unat (gf256Log ! unat (gen i)) = i"
  using tables [of 255]
  by (cases "buildTables 255") (auto simp: gf256Log_def unat_of_nat)

lemma gen_mul: "gf256Mul (gen i) (gen j) = gen (i + j)" if "i < 255" "j < 255"
  using that by (simp add: gf256Mul_def gen_nonzero log_gen exp_nth gen_mod)

lemma gf256Mul_raw: "gf256Mul a b = gf256MulRaw a b"
proof (cases "a = 0 \<or> b = 0")
  case True
  then show ?thesis by (auto simp: gf256Mul_def)
next
  case False
  then obtain i j where "i < 255" "a = gen i" "j < 255" "b = gen j" using gen_ex by metis
  then show ?thesis by (simp add: gen_mul gen_add)
qed

section \<open>The field laws\<close>

lemma mul_assoc: "gf256Mul (gf256Mul a b) c = gf256Mul a (gf256Mul b c)"
proof (cases "a = 0 \<or> b = 0 \<or> c = 0")
  case True
  then show ?thesis by (auto simp: gf256Mul_raw)
next
  case False
  then obtain i j k where "a = gen i" "b = gen j" "c = gen k" using gen_ex by metis
  then show ?thesis by (simp add: gf256Mul_raw add.assoc flip: gen_add)
qed

lemma mul_commute: "gf256Mul a b = gf256Mul b a"
proof (cases "a = 0 \<or> b = 0")
  case True
  then show ?thesis by (auto simp: gf256Mul_raw)
next
  case False
  then obtain i j where "a = gen i" "b = gen j" using gen_ex by metis
  then show ?thesis by (simp add: gf256Mul_raw add.commute flip: gen_add)
qed

lemma mul_1: "gf256Mul 1 a = a"
  by (subst mul_commute) (simp add: gf256Mul_raw)

lemma mul_distrib: "gf256Mul (a XOR b) c = gf256Mul a c XOR gf256Mul b c"
  by (simp add: gf256Mul_raw raw_xor_left)

lemma mul_0 [simp]: "gf256Mul 0 a = 0" "gf256Mul a 0 = 0"
  by (simp_all add: gf256Mul_def)

lemma inv_mul: "a \<noteq> 0 \<Longrightarrow> \<exists>b. gf256Inv a = Inr b \<and> gf256Mul b a = 1"
proof -
  assume a: "a \<noteq> 0"
  then obtain i where i: "i < 255" "a = gen i" using gen_ex by blast
  then have "gf256Inv a = Inr (gen (255 - i))"
    by (simp add: gf256Inv_def gen_nonzero log_gen exp_nth)
  moreover have "gf256Mul (gen (255 - i)) (gen i) = gen 255"
    using i(1) by (simp add: gf256Mul_raw flip: gen_add)
  ultimately show ?thesis using i(2) gen_255 by simp
qed

text \<open>The operations of \<^verbatim>\<open>shamir.ts\<close> on bytes obey the field laws: multiplication by
  table lookup is the carry-less product modulo the AES polynomial, it is associative,
  commutative and distributes over exclusive or, and every nonzero byte has the inverse that
  \<open>gf256Inv\<close> returns, while \<open>gf256Inv\<close> throws on zero.\<close>

theorem gf256_field_laws:
  "gf256Mul a b = gf256MulRaw a b \<and>
   gf256Mul (gf256Mul a b) c = gf256Mul a (gf256Mul b c) \<and>
   gf256Mul a b = gf256Mul b a \<and>
   gf256Mul (a XOR b) c = gf256Mul a c XOR gf256Mul b c \<and>
   gf256Mul 1 a = a \<and>
   (if a = 0 then \<exists>e. gf256Inv a = Inl e else \<exists>b. gf256Inv a = Inr b \<and> gf256Mul a b = 1)"
proof -
  have "if a = 0 then \<exists>e. gf256Inv a = Inl e else \<exists>b. gf256Inv a = Inr b \<and> gf256Mul a b = 1"
    using inv_mul [of a] mul_commute by (auto simp: gf256Inv_def)
  then show ?thesis
    using gf256Mul_raw mul_assoc mul_commute mul_distrib mul_1 by blast
qed

text \<open>The bytes with these operations as a type of the class \<open>field\<close>.\<close>

typedef gf = "UNIV :: byte set"
  morphisms of_gf to_gf by simp

setup_lifting type_definition_gf

instantiation gf :: field
begin

lift_definition zero_gf :: gf is 0 .
lift_definition one_gf :: gf is 1 .
lift_definition plus_gf :: "gf \<Rightarrow> gf \<Rightarrow> gf" is "(XOR)" .
lift_definition minus_gf :: "gf \<Rightarrow> gf \<Rightarrow> gf" is "(XOR)" .
lift_definition uminus_gf :: "gf \<Rightarrow> gf" is "\<lambda>a. a" .
lift_definition times_gf :: "gf \<Rightarrow> gf \<Rightarrow> gf" is gf256Mul .
lift_definition inverse_gf :: "gf \<Rightarrow> gf" is "\<lambda>a. if a = 0 then 0 else projr (gf256Inv a)" .
lift_definition divide_gf :: "gf \<Rightarrow> gf \<Rightarrow> gf"
  is "\<lambda>a b. gf256Mul a (if b = 0 then 0 else projr (gf256Inv b))" .

instance
proof
  fix a b c :: gf
  show "a + b + c = a + (b + c)" by transfer (simp add: xor.assoc)
  show "a + b = b + a" by transfer (simp add: xor.commute)
  show "0 + a = a" by transfer simp
  show "- a + a = 0" by transfer simp
  show "a - b = a + - b" by transfer simp
  show "a * b * c = a * (b * c)" by transfer (rule mul_assoc)
  show "a * b = b * a" by transfer (rule mul_commute)
  show "1 * a = a" by transfer (rule mul_1)
  show "(a + b) * c = a * c + b * c" by transfer (rule mul_distrib)
  show "(0 :: gf) \<noteq> 1" by transfer simp
  show "a \<noteq> 0 \<Longrightarrow> inverse a * a = 1"
    by transfer (use inv_mul in force)
  show "a div b = a * inverse b" by transfer simp
  show "inverse (0 :: gf) = 0" by transfer simp
qed

end

lemma to_gf_xor: "to_gf (a XOR b) = to_gf a + to_gf b"
  by transfer simp

lemma to_gf_mul: "to_gf (gf256Mul a b) = to_gf a * to_gf b"
  by transfer simp

lemma to_gf_0 [simp]: "to_gf 0 = 0" and to_gf_1 [simp]: "to_gf 1 = 1"
  by (transfer; simp)+

lemma to_gf_eq [simp]: "to_gf a = to_gf b \<longleftrightarrow> a = b"
  by (simp add: to_gf_inject)

lemma to_gf_inv: "a \<noteq> 0 \<Longrightarrow> gf256Inv a = Inr b \<Longrightarrow> to_gf b = inverse (to_gf a)"
  by transfer simp

lemma gf_minus_plus: "(a :: gf) - b = a + b"
  by transfer simp

end
