(* ===== verification/Interpolation.thy ===== *)
theory Interpolation
  imports Main
begin

text \<open>
  Polynomial functions over a field given by coefficient lists: closure
  properties, the number of roots, and the interpolating polynomial through
  given points. Shared by the correctness and the secrecy of secret sharing.
\<close>

definition ev :: "'a::comm_ring_1 list \<Rightarrow> 'a \<Rightarrow> 'a" where
  "ev cs x = foldr (\<lambda>c y. y * x + c) cs 0"

lemma ev_simps [simp]: "ev [] x = 0" "ev (c # cs) x = ev cs x * x + c"
  by (simp_all add: ev_def)

definition polyfun :: "nat \<Rightarrow> ('a::field \<Rightarrow> 'a) \<Rightarrow> bool" where
  "polyfun n f \<longleftrightarrow> (\<exists>cs. length cs = n \<and> f = ev cs)"

lemma polyfun_ev: "polyfun (length cs) (ev cs)"
  by (auto simp: polyfun_def)

lemma polyfun_0: "polyfun 0 f \<longleftrightarrow> f = (\<lambda>_. 0)"
  by (auto simp: polyfun_def fun_eq_iff)

lemma polyfun_Suc:
  "polyfun (Suc n) f \<longleftrightarrow> (\<exists>c g. polyfun n g \<and> f = (\<lambda>x. g x * x + c))"
proof
  assume "polyfun (Suc n) f"
  then obtain c cs where "length cs = n" "f = ev (c # cs)"
    by (auto simp: polyfun_def length_Suc_conv)
  then have "polyfun n (ev cs)" "f = (\<lambda>x. ev cs x * x + c)"
    by (auto simp: polyfun_def fun_eq_iff)
  then show "\<exists>c g. polyfun n g \<and> f = (\<lambda>x. g x * x + c)" by blast
next
  assume "\<exists>c g. polyfun n g \<and> f = (\<lambda>x. g x * x + c)"
  then obtain c cs where "length cs = n" "f = (\<lambda>x. ev cs x * x + c)" by (auto simp: polyfun_def)
  then have "length (c # cs) = Suc n" "f = ev (c # cs)" by (auto simp: fun_eq_iff)
  then show "polyfun (Suc n) f" unfolding polyfun_def by blast
qed

lemma polyfun_zero: "polyfun n (\<lambda>_. 0)"
  by (induction n) (auto simp: polyfun_0 polyfun_Suc intro!: exI [of _ 0] exI [of _ "\<lambda>_. 0"])

lemma polyfun_mono: "polyfun n f \<Longrightarrow> polyfun (Suc n) f"
proof (induction n arbitrary: f)
  case 0
  then show ?case by (simp add: polyfun_0 polyfun_zero)
next
  case (Suc n)
  then obtain c g where "polyfun n g" "f = (\<lambda>x. g x * x + c)" by (auto simp: polyfun_Suc)
  with Suc.IH show ?case by (subst polyfun_Suc) blast
qed

lemma polyfun_le: "n \<le> m \<Longrightarrow> polyfun n f \<Longrightarrow> polyfun m f"
  by (induction rule: dec_induct) (auto intro: polyfun_mono)

lemma polyfun_const: "polyfun (Suc n) (\<lambda>_. c)"
  by (subst polyfun_Suc) (intro exI [of _ c] exI [of _ "\<lambda>_. 0"], simp add: polyfun_zero)

lemma polyfun_add: "polyfun n f \<Longrightarrow> polyfun n g \<Longrightarrow> polyfun n (\<lambda>x. f x + g x)"
proof (induction n arbitrary: f g)
  case (Suc n)
  then obtain c f' d g' where "polyfun n f'" "f = (\<lambda>x. f' x * x + c)"
    "polyfun n g'" "g = (\<lambda>x. g' x * x + d)" by (auto simp: polyfun_Suc)
  with Suc.IH [of f' g'] show ?case
    by (subst polyfun_Suc)
       (intro exI [of _ "c + d"] exI [of _ "\<lambda>x. f' x + g' x"], auto simp: algebra_simps)
qed (simp add: polyfun_0)

lemma polyfun_scale: "polyfun n f \<Longrightarrow> polyfun n (\<lambda>x. k * f x)"
proof (induction n arbitrary: f)
  case (Suc n)
  then obtain c f' where "polyfun n f'" "f = (\<lambda>x. f' x * x + c)" by (auto simp: polyfun_Suc)
  with Suc.IH [of f'] show ?case
    by (subst polyfun_Suc)
       (intro exI [of _ "k * c"] exI [of _ "\<lambda>x. k * f' x"], auto simp: algebra_simps)
qed (simp add: polyfun_0)

lemma polyfun_shift: "polyfun n f \<Longrightarrow> polyfun (Suc n) (\<lambda>x. x * f x)"
  by (subst polyfun_Suc) (intro exI [of _ 0] exI [of _ f], auto simp: mult.commute)

lemma polyfun_linear: "polyfun n f \<Longrightarrow> polyfun (Suc n) (\<lambda>x. (x - a) * f x)"
  using polyfun_add [OF polyfun_shift polyfun_scale [OF polyfun_mono], of n f f "- a"]
  by (simp add: algebra_simps)

lemma polyfun_prod: "finite Y \<Longrightarrow> polyfun (Suc (card Y)) (\<lambda>x. \<Prod>y\<in>Y. (x - g y))"
  by (induction rule: finite_induct) (auto intro: polyfun_const polyfun_linear)

lemma polyfun_sum:
  "finite I \<Longrightarrow> (\<And>i. i \<in> I \<Longrightarrow> polyfun n (f i)) \<Longrightarrow> polyfun n (\<lambda>x. \<Sum>i\<in>I. f i x)"
  by (induction rule: finite_induct) (auto intro: polyfun_zero polyfun_add)

text \<open>Division by a linear factor, and the number of roots.\<close>

lemma polyfun_divide:
  "polyfun (Suc n) f \<Longrightarrow> \<exists>r. polyfun n r \<and> (\<forall>x. f x = f a + (x - a) * r x)"
proof (induction n arbitrary: f)
  case 0
  then obtain c g where "polyfun 0 g" "f = (\<lambda>x. g x * x + c)" by (auto simp: polyfun_Suc)
  then show ?case by (auto simp: polyfun_0)
next
  case (Suc n)
  then obtain c g where g: "polyfun (Suc n) g" "f = (\<lambda>x. g x * x + c)"
    using polyfun_Suc [of "Suc n" f] by blast
  from Suc.IH [OF g(1)] obtain r where r: "polyfun n r" "\<And>x. g x = g a + (x - a) * r x" by blast
  have "polyfun (Suc n) (\<lambda>x. g a + x * r x)"
    by (intro polyfun_add polyfun_const polyfun_shift r(1))
  moreover have "f x = f a + (x - a) * (g a + x * r x)" for x
    unfolding g(2) by (subst r(2) [of x]) (simp add: algebra_simps)
  ultimately show ?case by blast
qed

lemma polyfun_roots:
  "polyfun n f \<Longrightarrow> finite Y \<Longrightarrow> n \<le> card Y \<Longrightarrow> (\<And>y. y \<in> Y \<Longrightarrow> f y = 0) \<Longrightarrow> f = (\<lambda>_. 0)"
proof (induction n arbitrary: f Y)
  case 0
  then show ?case by (simp add: polyfun_0)
next
  case (Suc n)
  then obtain a where a: "a \<in> Y" by (metis card.empty ex_in_conv not_less_eq_eq zero_le)
  from polyfun_divide [OF Suc.prems(1), of a] Suc.prems(4) [OF a] obtain r where
    r: "polyfun n r" "\<And>x. f x = (x - a) * r x" by auto
  have "r = (\<lambda>_. 0)"
  proof (rule Suc.IH [OF r(1)])
    show "r y = 0" if "y \<in> Y - {a}" for y
      using Suc.prems(4) [of y] r(2) [of y] that by auto
  qed (use Suc.prems a in auto)
  then show ?case using r(2) by (auto simp: fun_eq_iff)
qed

text \<open>The Lagrange polynomial through the points \<open>(x i, y i)\<close>, \<open>i < n\<close>.\<close>

definition lagrange :: "nat \<Rightarrow> (nat \<Rightarrow> 'a::field) \<Rightarrow> (nat \<Rightarrow> 'a) \<Rightarrow> 'a \<Rightarrow> 'a" where
  "lagrange n x y z = (\<Sum>i<n. y i * (\<Prod>k\<in>{..<n} - {i}. (z - x k) / (x i - x k)))"

lemma lagrange_polyfun: "polyfun n (lagrange n x y)"
proof -
  have "polyfun n (\<lambda>z. y i * (\<Prod>k\<in>{..<n} - {i}. (z - x k) / (x i - x k)))" if "i \<in> {..<n}" for i
  proof -
    have "Suc (card ({..<n} - {i})) = n" using that by simp
    then have "polyfun n (\<lambda>z. \<Prod>k\<in>{..<n} - {i}. (z - x k))"
      by (metis finite_Diff finite_lessThan polyfun_prod)
    then have "polyfun n (\<lambda>z. (y i / (\<Prod>k\<in>{..<n} - {i}. (x i - x k))) * (\<Prod>k\<in>{..<n} - {i}. (z - x k)))"
      by (rule polyfun_scale)
    then show ?thesis by (simp add: prod_dividef)
  qed
  then have "polyfun n (\<lambda>z. \<Sum>i\<in>{..<n}. y i * (\<Prod>k\<in>{..<n} - {i}. (z - x k) / (x i - x k)))"
    by (intro polyfun_sum) auto
  then show ?thesis by (simp add: lagrange_def [abs_def])
qed

lemma lagrange_at:
  assumes "inj_on x {..<n}" "j < n"
  shows "lagrange n x y (x j) = y j"
proof -
  have "(\<Prod>k\<in>{..<n} - {i}. (x j - x k) / (x i - x k)) = (if i = j then 1 else 0)" if "i < n" for i
  proof (cases "i = j")
    case True
    have "x j - x k \<noteq> 0" if "k \<in> {..<n} - {j}" for k
      using assms that by (auto dest: inj_onD)
    then show ?thesis using True by (auto intro!: prod.neutral)
  next
    case False
    then have "j \<in> {..<n} - {i}" using assms(2) by simp
    then show ?thesis using False by (auto intro!: prod_zero)
  qed
  then have "lagrange n x y (x j) = (\<Sum>i<n. if i = j then y i else 0)"
    unfolding lagrange_def by (intro sum.cong) auto
  then show ?thesis using assms(2) by simp
qed

theorem lagrange_exact:
  assumes "polyfun m p" "m \<le> n" "inj_on x {..<n}" "\<And>i. i < n \<Longrightarrow> y i = p (x i)"
  shows "lagrange n x y z = p z"
proof -
  have "polyfun n (\<lambda>z. lagrange n x y z + (- 1) * p z)"
    using assms(1,2) by (intro polyfun_add lagrange_polyfun polyfun_scale) (rule polyfun_le)
  then have "(\<lambda>z. lagrange n x y z + (- 1) * p z) = (\<lambda>_. 0)"
  proof (rule polyfun_roots)
    show "finite (x ` {..<n})" "n \<le> card (x ` {..<n})" using assms(3) by (simp_all add: card_image)
    show "lagrange n x y w + - 1 * p w = 0" if "w \<in> x ` {..<n}" for w
      using that assms by (auto simp: lagrange_at)
  qed
  then have "lagrange n x y z + (- 1) * p z = 0" by (rule fun_cong)
  then show ?thesis by simp
qed

end
