(* ===== verification/Shamir.thy ===== *)
theory Shamir
  imports GF256 Interpolation
begin

text \<open>
  Secret sharing, \<^verbatim>\<open>src/src/recovery/shamir.ts\<close>: \<open>splitSecret\<close> evaluates one
  random polynomial per secret byte at the share indices, \<open>combineShares\<close>
  interpolates at zero. The random source is the argument \<open>rand\<close>.
\<close>

section \<open>Model\<close>

datatype shamir_error =
    EmptySecret | ThresholdTooLow int | SharesBelowThreshold int | TooManyShares int
  | RandTooShort | NoShares | EmptyShareValue | IndexZero nat | IndexOutOfRange nat int
  | DuplicateIndex int | LengthMismatch nat | InvOfZero

definition MinShamirThreshold :: int where "MinShamirThreshold = 2"
definition MaxShamirTotalShares :: int where "MaxShamirTotalShares = 16"

record share =
  sh_index :: int
  sh_value :: bytes

text \<open>\<open>polyEval\<close>: Horner's rule from the highest coefficient down.\<close>

definition polyEval :: "bytes \<Rightarrow> byte \<Rightarrow> byte" where
  "polyEval coeffs x = foldr (\<lambda>c y. gf256Mul y x XOR c) coeffs 0"

text \<open>
  The loop over the secret bytes \<open>js\<close>: the constant coefficient is the secret byte,
  the others are the next \<open>threshold - 1\<close> random bytes.
\<close>

fun splitLoop :: "nat \<Rightarrow> bytes \<Rightarrow> bytes \<Rightarrow> nat list \<Rightarrow> nat \<Rightarrow> share list \<Rightarrow> share list" where
  "splitLoop threshold secret randomBuf [] randIdx shares = shares"
| "splitLoop threshold secret randomBuf (j # js) randIdx shares =
     (let coeffs = secret ! j # map (\<lambda>k. randomBuf ! (randIdx + k)) [0..<threshold - 1] in
      splitLoop threshold secret randomBuf js (randIdx + (threshold - 1))
        (map (\<lambda>s. s\<lparr>sh_value := (sh_value s)[j := polyEval coeffs (of_int (sh_index s))]\<rparr>) shares))"

definition splitSecret :: "bytes \<Rightarrow> int \<Rightarrow> int \<Rightarrow> (nat \<Rightarrow> bytes) \<Rightarrow> shamir_error + share list" where
  "splitSecret secret threshold totalShares rand =
     (if length secret = 0 then Inl EmptySecret
      else if threshold < MinShamirThreshold then Inl (ThresholdTooLow threshold)
      else if totalShares < threshold then Inl (SharesBelowThreshold totalShares)
      else if totalShares > MaxShamirTotalShares then Inl (TooManyShares totalShares)
      else
        let shares = map (\<lambda>i. \<lparr>sh_index = int i + 1, sh_value = replicate (length secret) 0\<rparr>)
              [0..<nat totalShares];
            randomNeeded = (nat threshold - 1) * length secret;
            randomBuf = rand randomNeeded in
        if length randomBuf < randomNeeded then Inl RandTooShort
        else Inr (splitLoop (nat threshold) secret randomBuf [0..<length secret] 0 shares))"

text \<open>The validation loop of \<open>combineShares\<close>; \<open>seen\<close> is the set of indices so far.\<close>

fun checkShares :: "nat \<Rightarrow> int list \<Rightarrow> nat \<Rightarrow> share list \<Rightarrow> shamir_error + bytes" where
  "checkShares secretLen seen i [] = Inr []"
| "checkShares secretLen seen i (s # shares) =
     (if sh_index s = 0 then Inl (IndexZero i)
      else if sh_index s < 0 \<or> sh_index s > 255 then Inl (IndexOutOfRange i (sh_index s))
      else if sh_index s \<in> set seen then Inl (DuplicateIndex (sh_index s))
      else if length (sh_value s) \<noteq> secretLen then Inl (LengthMismatch i)
      else bindR (checkShares secretLen (sh_index s # seen) (Suc i) shares) (\<lambda>xs.
        Inr (of_int (sh_index s) # xs)))"

definition lagrangeBasis :: "bytes \<Rightarrow> nat \<Rightarrow> byte \<times> byte" where
  "lagrangeBasis xs i =
     foldl (\<lambda>(num, den) k.
         if k = i then (num, den)
         else (gf256Mul num (xs ! k), gf256Mul den (xs ! k XOR xs ! i)))
       (1, 1) [0..<length xs]"

fun lagrangeLoop :: "bytes \<Rightarrow> bytes \<Rightarrow> nat list \<Rightarrow> byte \<Rightarrow> shamir_error + byte" where
  "lagrangeLoop xs ys [] result = Inr result"
| "lagrangeLoop xs ys (i # is) result =
     (case lagrangeBasis xs i of (num, den) \<Rightarrow>
        (case gf256Inv den of
           Inl _ \<Rightarrow> Inl InvOfZero
         | Inr d \<Rightarrow>
             lagrangeLoop xs ys is (result XOR gf256Mul (ys ! i) (gf256Mul num d))))"

definition lagrangeInterpolateAtZero :: "bytes \<Rightarrow> bytes \<Rightarrow> shamir_error + byte" where
  "lagrangeInterpolateAtZero xs ys = lagrangeLoop xs ys [0..<length xs] 0"

definition combineShares :: "share list \<Rightarrow> shamir_error + bytes" where
  "combineShares shares =
     (case shares of
        [] \<Rightarrow> Inl NoShares
      | s0 # _ \<Rightarrow>
          let secretLen = length (sh_value s0) in
          if secretLen = 0 then Inl EmptyShareValue
          else bindR (checkShares secretLen [] 0 shares) (\<lambda>xs.
            mapR (\<lambda>j. lagrangeInterpolateAtZero xs (map (\<lambda>s. sh_value s ! j) shares))
              [0..<secretLen]))"

section \<open>The loops as field expressions\<close>

lemma polyEval_ev: "to_gf (polyEval cs x) = ev (map to_gf cs) (to_gf x)"
  by (induction cs) (simp_all add: polyEval_def to_gf_xor to_gf_mul)

lemma basis_fold:
  "foldl (\<lambda>(num, den) k. if k = i then (num, den)
      else (gf256Mul num (xs ! k), gf256Mul den (xs ! k XOR xs ! i))) (1, 1) [0..<m] = (num, den) \<Longrightarrow>
   to_gf num = (\<Prod>k\<in>{..<m} - {i}. to_gf (xs ! k)) \<and>
   to_gf den = (\<Prod>k\<in>{..<m} - {i}. to_gf (xs ! k) + to_gf (xs ! i))"
proof (induction m arbitrary: num den)
  case 0
  then show ?case by simp
next
  case (Suc m)
  obtain n d where nd: "foldl (\<lambda>(num, den) k. if k = i then (num, den)
      else (gf256Mul num (xs ! k), gf256Mul den (xs ! k XOR xs ! i))) (1, 1) [0..<m] = (n, d)"
    by force
  note IH = Suc.IH [OF this]
  show ?case
  proof (cases "m = i")
    case True
    then have "{..<Suc m} - {i} = {..<m} - {i}" by auto
    with True Suc.prems nd IH show ?thesis by simp
  next
    case False
    then have set: "{..<Suc m} - {i} = insert m ({..<m} - {i})" by auto
    from False Suc.prems nd have e: "gf256Mul n (xs ! m) = num" "gf256Mul d (xs ! m XOR xs ! i) = den"
      by simp_all
    show ?thesis unfolding set e [symmetric] using IH
      by (simp add: to_gf_mul to_gf_xor mult.commute)
  qed
qed

lemma basis_value:
  assumes "lagrangeBasis xs i = (num, den)" "distinct xs" "i < length xs"
  shows "\<exists>d. gf256Inv den = Inr d \<and> to_gf (gf256Mul num d) =
    (\<Prod>k\<in>{..<length xs} - {i}. (0 - to_gf (xs ! k)) / (to_gf (xs ! i) - to_gf (xs ! k)))"
proof -
  note b = basis_fold [OF assms(1) [unfolded lagrangeBasis_def]]
  have "to_gf (xs ! k) + to_gf (xs ! i) \<noteq> 0" if "k \<in> {..<length xs} - {i}" for k
    using that assms(2,3) nth_eq_iff_index_eq [of xs k i]
    by (metis DiffE eq_iff_diff_eq_0 gf_minus_plus lessThan_iff singletonI to_gf_eq)
  then have "to_gf den \<noteq> 0" using b by simp
  then have "den \<noteq> 0" by auto
  then obtain d where d: "gf256Inv den = Inr d" using inv_mul by blast
  have "to_gf (gf256Mul num d) = to_gf num / to_gf den"
    using to_gf_inv [OF \<open>den \<noteq> 0\<close> d] by (simp add: to_gf_mul divide_inverse)
  also have "\<dots> = (\<Prod>k\<in>{..<length xs} - {i}. to_gf (xs ! k) / (to_gf (xs ! k) + to_gf (xs ! i)))"
    using b by (simp add: prod_dividef)
  finally show ?thesis using d by (simp add: gf_minus_plus add.commute)
qed

lemma lagrangeLoop_value:
  assumes "distinct xs" "\<forall>i \<in> set is. i < length xs"
  shows "\<exists>v. lagrangeLoop xs ys is r = Inr v \<and> to_gf v = to_gf r +
    (\<Sum>i\<leftarrow>is. to_gf (ys ! i) *
      (\<Prod>k\<in>{..<length xs} - {i}. (0 - to_gf (xs ! k)) / (to_gf (xs ! i) - to_gf (xs ! k))))"
  using assms(2)
proof (induction "is" arbitrary: r)
  case Nil
  then show ?case by simp
next
  case (Cons i "is")
  obtain num den where nd: "lagrangeBasis xs i = (num, den)" by force
  from basis_value [OF nd assms(1)] Cons.prems obtain d where
    d: "gf256Inv den = Inr d" "to_gf (gf256Mul num d) = (\<Prod>k\<in>{..<length xs} - {i}.
      (0 - to_gf (xs ! k)) / (to_gf (xs ! i) - to_gf (xs ! k)))" by auto
  from Cons.IH [of "r XOR gf256Mul (ys ! i) (gf256Mul num d)"] Cons.prems nd d show ?case
    by (auto simp: to_gf_xor to_gf_mul add.assoc)
qed

lemma lagrange_at_zero:
  assumes "distinct xs"
  shows "\<exists>v. lagrangeInterpolateAtZero xs ys = Inr v \<and>
    to_gf v = lagrange (length xs) (\<lambda>i. to_gf (xs ! i)) (\<lambda>i. to_gf (ys ! i)) 0"
proof -
  obtain v where v: "lagrangeLoop xs ys [0..<length xs] 0 = Inr v" "to_gf v = to_gf 0 +
    (\<Sum>i\<leftarrow>[0..<length xs]. to_gf (ys ! i) *
      (\<Prod>k\<in>{..<length xs} - {i}. (0 - to_gf (xs ! k)) / (to_gf (xs ! i) - to_gf (xs ! k))))"
    using lagrangeLoop_value [OF assms, of "[0..<length xs]" ys 0] by auto
  have "to_gf v = (\<Sum>i\<in>{0..<length xs}. to_gf (ys ! i) *
      (\<Prod>k\<in>{..<length xs} - {i}. (0 - to_gf (xs ! k)) / (to_gf (xs ! i) - to_gf (xs ! k))))"
    using v(2) by (simp only: interv_sum_list_conv_sum_set_nat to_gf_0 add_0 set_upt)
  with v(1) show ?thesis
    by (simp add: lagrangeInterpolateAtZero_def lagrange_def atLeast0LessThan)
qed

end
