(* ===== verification/ShamirProofs.thy ===== *)
theory ShamirProofs
  imports Shamir
begin

text \<open>
  The guarantees of secret sharing: any threshold-sized set of shares restores
  the secret, any smaller set says nothing about it, and every malformed input
  is refused. The arguments are field arguments on \<open>gf\<close>, carried over from
  the byte-level code by the lemmas of \<^theory_text>\<open>Shamir\<close>.
\<close>

section \<open>The shares of a split\<close>

definition coefs :: "nat \<Rightarrow> bytes \<Rightarrow> bytes \<Rightarrow> nat \<Rightarrow> bytes" where
  "coefs t secret rb j = secret ! j # map (\<lambda>k. rb ! (j * (t - 1) + k)) [0..<t - 1]"

lemma length_coefs: "0 < t \<Longrightarrow> length (coefs t secret rb j) = t"
  by (simp add: coefs_def)

definition share_of :: "nat \<Rightarrow> bytes \<Rightarrow> bytes \<Rightarrow> nat \<Rightarrow> share" where
  "share_of t secret rb i = \<lparr>sh_index = int i + 1,
     sh_value = map (\<lambda>j. polyEval (coefs t secret rb j) (of_nat (Suc i))) [0..<length secret]\<rparr>"

lemma splitLoop_map:
  assumes "a \<le> n" "\<forall>s \<in> set shares. length (sh_value s) = n"
  shows "splitLoop t secret rb [a..<n] (a * (t - 1)) shares =
    map (\<lambda>s. s\<lparr>sh_value := take a (sh_value s) @
      map (\<lambda>j. polyEval (coefs t secret rb j) (of_int (sh_index s))) [a..<n]\<rparr>) shares"
  using assms
proof (induction "n - a" arbitrary: a shares)
  case 0
  then have "[a..<n] = []" by simp
  with 0 show ?case by (auto simp: map_idI)
next
  case (Suc d)
  then have up: "[a..<n] = a # [Suc a..<n]" by (simp add: upt_conv_Cons)
  have co: "secret ! a # map (\<lambda>k. rb ! (a * (t - 1) + k)) [0..<t - 1] = coefs t secret rb a"
    by (simp add: coefs_def)
  have idx: "a * (t - 1) + (t - 1) = Suc a * (t - 1)" by simp
  let ?f = "\<lambda>s. s\<lparr>sh_value := (sh_value s)[a := polyEval (coefs t secret rb a) (of_int (sh_index s))]\<rparr>"
  have "splitLoop t secret rb [Suc a..<n] (Suc a * (t - 1)) (map ?f shares) =
    map (\<lambda>s. s\<lparr>sh_value := take (Suc a) (sh_value s) @
      map (\<lambda>j. polyEval (coefs t secret rb j) (of_int (sh_index s))) [Suc a..<n]\<rparr>) (map ?f shares)"
    by (rule Suc.hyps) (use Suc in auto)
  also have "\<dots> = map (\<lambda>s. s\<lparr>sh_value := take a (sh_value s) @
      map (\<lambda>j. polyEval (coefs t secret rb j) (of_int (sh_index s))) [a..<n]\<rparr>) shares"
    using Suc.prems Suc.hyps(2) by (auto simp: up take_Suc_conv_app_nth)
  finally show ?case by (simp only: up splitLoop.simps Let_def co idx)
qed

lemma splitSecret_Inr:
  assumes "splitSecret secret t n rand = Inr shares"
  shows "secret \<noteq> []" "2 \<le> t" "t \<le> n" "n \<le> 16"
    "(nat t - 1) * length secret \<le> length (rand ((nat t - 1) * length secret))"
    "shares = map (share_of (nat t) secret (rand ((nat t - 1) * length secret))) [0..<nat n]"
proof -
  note d = assms [unfolded splitSecret_def MinShamirThreshold_def MaxShamirTotalShares_def Let_def]
  from d show "secret \<noteq> []" "2 \<le> t" "t \<le> n" "n \<le> 16"
    "(nat t - 1) * length secret \<le> length (rand ((nat t - 1) * length secret))"
    by (auto split: if_splits)
  from d have "shares = splitLoop (nat t) secret (rand ((nat t - 1) * length secret))
      [0..<length secret] (0 * (nat t - 1))
      (map (\<lambda>i. \<lparr>sh_index = int i + 1, sh_value = replicate (length secret) 0\<rparr>) [0..<nat n])"
    by (auto split: if_splits)
  then show "shares = map (share_of (nat t) secret (rand ((nat t - 1) * length secret))) [0..<nat n]"
    by (subst (asm) splitLoop_map) (auto simp: share_of_def add.commute)
qed

lemma splitSecret_ok:
  assumes "secret \<noteq> []" "2 \<le> t" "t \<le> n" "n \<le> 16"
    "(nat t - 1) * length secret \<le> length (rand ((nat t - 1) * length secret))"
  shows "splitSecret secret t n rand =
    Inr (map (share_of (nat t) secret (rand ((nat t - 1) * length secret))) [0..<nat n])"
proof -
  have "isInr (splitSecret secret t n rand)" using assms
    by (simp add: splitSecret_def MinShamirThreshold_def MaxShamirTotalShares_def Let_def)
  then obtain shares where s: "splitSecret secret t n rand = Inr shares" by (auto simp: isInr_iff)
  with splitSecret_Inr(6) [OF s] show ?thesis by simp
qed

lemma small_index: "i < 255 \<Longrightarrow> j < 255 \<Longrightarrow> (of_nat (Suc i) :: byte) = of_nat (Suc j) \<Longrightarrow> i = j"
  by (simp add: word_unat_eq_iff unat_of_nat del: of_nat_Suc)

lemma index_nonzero: "i < 255 \<Longrightarrow> (of_nat (Suc i) :: byte) \<noteq> 0"
  by (simp add: word_unat_eq_iff unat_of_nat del: of_nat_Suc)

section \<open>Reconstruction\<close>

lemma checkShares_ok:
  assumes "\<forall>s \<in> set ss. 0 < sh_index s \<and> sh_index s \<le> 255 \<and> length (sh_value s) = l"
    "distinct (map sh_index ss)" "set seen \<inter> sh_index ` set ss = {}"
  shows "checkShares l seen i ss = Inr (map (of_int \<circ> sh_index) ss)"
  using assms
proof (induction ss arbitrary: seen i)
  case (Cons s ss)
  then have "checkShares l (sh_index s # seen) (Suc i) ss = Inr (map (of_int \<circ> sh_index) ss)"
    by (intro Cons.IH) auto
  with Cons.prems show ?case by auto
qed simp

lemma combine_byte:
  assumes "distinct is" "\<forall>i \<in> set is. i < 16" "2 \<le> t" "t \<le> length is"
  shows "lagrangeInterpolateAtZero (map (\<lambda>i. of_nat (Suc i)) is)
      (map (\<lambda>i. polyEval (coefs t secret rb j) (of_nat (Suc i))) is) = Inr (secret ! j)"
proof -
  let ?xs = "map (\<lambda>i. of_nat (Suc i)) is :: bytes"
  let ?ys = "map (\<lambda>i. polyEval (coefs t secret rb j) (of_nat (Suc i))) is"
  let ?p = "ev (map to_gf (coefs t secret rb j))"
  have inj: "inj_on (\<lambda>i. of_nat (Suc i) :: byte) (set is)"
  proof (rule inj_onI)
    fix x y assume "x \<in> set is" "y \<in> set is" "(of_nat (Suc x) :: byte) = of_nat (Suc y)"
    moreover from this assms(2) have "x < 255" "y < 255" by fastforce+
    ultimately show "x = y" using small_index by blast
  qed
  have dist: "distinct ?xs" unfolding distinct_map using assms(1) inj by blast
  from lagrange_at_zero [OF dist, of ?ys] obtain v where
    v: "lagrangeInterpolateAtZero ?xs ?ys = Inr v"
       "to_gf v = lagrange (length ?xs) (\<lambda>i. to_gf (?xs ! i)) (\<lambda>i. to_gf (?ys ! i)) 0" by blast
  have "lagrange (length ?xs) (\<lambda>i. to_gf (?xs ! i)) (\<lambda>i. to_gf (?ys ! i)) 0 = ?p 0"
  proof (rule lagrange_exact)
    show "polyfun t ?p" using polyfun_ev [of "map to_gf (coefs t secret rb j)"] assms(3)
      by (simp add: length_coefs)
    show "t \<le> length ?xs" using assms(4) by simp
    show "inj_on (\<lambda>i. to_gf (?xs ! i)) {..<length ?xs}"
      using dist by (auto simp: inj_on_def nth_eq_iff_index_eq simp del: of_nat_Suc nth_map)
    show "to_gf (?ys ! i) = ?p (to_gf (?xs ! i))" if "i < length ?xs" for i
      using that by (simp add: polyEval_ev del: of_nat_Suc)
  qed
  also have "?p 0 = to_gf (secret ! j)" by (simp add: coefs_def)
  finally show ?thesis using v by simp
qed

lemma combine_shares_of:
  assumes "distinct is" "\<forall>i \<in> set is. i < 16" "2 \<le> t" "t \<le> length is" "secret \<noteq> []"
  shows "combineShares (map (share_of t secret rb) is) = Inr secret"
proof -
  let ?ss = "map (share_of t secret rb) is"
  have check: "checkShares (length secret) [] 0 ?ss = Inr (map (of_int \<circ> sh_index) ?ss)"
    by (rule checkShares_ok)
       (use assms(1,2) in \<open>auto simp: share_of_def distinct_map inj_on_def\<close>)
  have xs: "map (of_int \<circ> sh_index) ?ss = (map (\<lambda>i. of_nat (Suc i)) is :: bytes)"
    by (simp add: share_of_def)
  have ys: "map (\<lambda>s. sh_value s ! j) ?ss = map (\<lambda>i. polyEval (coefs t secret rb j) (of_nat (Suc i))) is"
    if "j < length secret" for j using that by (simp add: share_of_def)
  have bytes: "mapR (\<lambda>j. lagrangeInterpolateAtZero (map (\<lambda>i. of_nat (Suc i)) is)
      (map (\<lambda>s. sh_value s ! j) ?ss)) [0..<length secret] = Inr (map (\<lambda>j. secret ! j) [0..<length secret])"
    by (rule mapR_Inr) (simp only: set_upt atLeastLessThan_iff ys combine_byte [OF assms(1-4)])
  obtain i0 js where iseq: "is = i0 # js" using assms(3,4) by (cases "is") auto
  have "length (sh_value (share_of t secret rb i0)) = length secret" by (simp add: share_of_def)
  moreover from this assms(5) have "sh_value (share_of t secret rb i0) \<noteq> []" by force
  ultimately show ?thesis using check bytes assms(5)
    by (simp only: combineShares_def iseq list.map list.case Let_def length_0_conv if_False
        bindR_simps xs [unfolded iseq list.map] map_nth)
qed


text \<open>C10. Any threshold-sized set of distinct shares of a split restores exactly the
  secret: \<open>combineShares\<close> on any list of distinct shares taken from the output of
  \<open>splitSecret\<close>, in any order, at least \<open>threshold\<close> of them, returns the secret.\<close>

theorem shamir_reconstruction:
  assumes "splitSecret secret t n rand = Inr shares"
    and "set sub \<subseteq> set shares" "distinct sub" "t \<le> int (length sub)"
  shows "combineShares sub = Inr secret"
proof -
  note split = splitSecret_Inr [OF assms(1)]
  let ?f = "share_of (nat t) secret (rand ((nat t - 1) * length secret))"
  let ?is = "map (\<lambda>s. nat (sh_index s - 1)) sub"
  have sub: "\<exists>i < nat n. s = ?f i" if "s \<in> set sub" for s
    using that subsetD [OF assms(2) that] unfolding split(6) by auto
  have restore: "?f (nat (sh_index s - 1)) = s" if "s \<in> set sub" for s
    using sub [OF that] by (auto simp: share_of_def add.commute)
  then have "map ?f ?is = sub" unfolding map_map by (intro map_idI) (simp only: o_apply restore)
  moreover have "combineShares (map ?f ?is) = Inr secret"
  proof (rule combine_shares_of)
    have "inj_on (\<lambda>s. nat (sh_index s - 1)) (set sub)"
      by (rule inj_onI) (metis restore)
    with assms(3) show "distinct ?is" by (simp add: distinct_map)
    show "\<forall>i \<in> set ?is. i < 16" using sub split(4) by (force simp: share_of_def)
  qed (use split assms(4) in auto)
  ultimately show ?thesis by simp
qed

definition demo_rand :: "nat \<Rightarrow> bytes" where
  "demo_rand n = replicate n 7"

definition demo_shares :: "share list" where
  "demo_shares = projr (splitSecret [42, 200] 2 3 demo_rand)"

lemma demo_split: "splitSecret [42, 200] 2 3 demo_rand = Inr demo_shares"
proof -
  have "isInr (splitSecret [42, 200] 2 3 demo_rand)"
    by (simp add: splitSecret_def MinShamirThreshold_def MaxShamirTotalShares_def demo_rand_def)
  then show ?thesis by (auto simp: demo_shares_def isInr_iff)
qed

theorem shamir_reconstruction_witness:
  "combineShares [demo_shares ! 2, demo_shares ! 0] = Inr [42, 200]"
proof (rule shamir_reconstruction [where t = 2 and n = 3 and rand = demo_rand and shares = demo_shares])
  show "splitSecret [42, 200] 2 3 demo_rand = Inr demo_shares" by (rule demo_split)
  note shares = splitSecret_Inr(6) [OF demo_split]
  then have "length demo_shares = 3" by (metis length_map length_upt diff_zero nat_numeral)
  then show "set [demo_shares ! 2, demo_shares ! 0] \<subseteq> set demo_shares" by simp
  show "distinct [demo_shares ! 2, demo_shares ! 0]"
    by (subst (1 2) shares) (simp add: share_of_def)
qed simp

section \<open>Secrecy\<close>

lemma card_gf: "card (UNIV :: gf set) = 256"
proof -
  have "bij_betw to_gf (UNIV :: byte set) UNIV"
    by (rule bij_betw_byWitness [where f' = of_gf]) (simp_all add: to_gf_inverse of_gf_inverse)
  then show ?thesis using bij_betw_same_card [of to_gf UNIV UNIV] by (simp add: card_word)
qed

lemma finite_gf: "finite (UNIV :: gf set)"
  using card_gf card.infinite by fastforce

lemma ev_zero_coefs:
  fixes cs :: "gf list"
  assumes "length cs \<le> 255" "\<And>x. x \<noteq> 0 \<Longrightarrow> ev cs x = 0"
  shows "\<forall>c \<in> set cs. c = 0"
  using assms
proof (induction cs)
  case (Cons c cs)
  have "ev (c # cs) = (\<lambda>_. 0)"
  proof (rule polyfun_roots)
    show "polyfun (length (c # cs)) (ev (c # cs))" by (rule polyfun_ev)
    show "finite (UNIV - {0 :: gf})" using finite_gf by simp
    show "length (c # cs) \<le> card (UNIV - {0 :: gf})"
      using Cons.prems(1) card_gf finite_gf by (simp add: card_Diff_singleton)
  qed (use Cons.prems(2) in simp)
  then have e: "ev cs x * x + c = 0" for x by (metis ev_simps(2))
  from e [of 0] have c: "c = 0" by simp
  with e have "ev cs x = 0" if "x \<noteq> 0" for x using that by fastforce
  with Cons c show ?case by simp
qed simp

lemma ev_diff:
  "length cs = length ds \<Longrightarrow> ev (map2 (-) cs ds) x = ev cs x - (ev ds x :: 'a::field)"
  by (induction cs ds rule: list_induct2) (simp_all add: left_diff_distrib)

lemma ev_determines:
  fixes cs ds :: "gf list"
  assumes "length cs = n" "length ds = n" "n \<le> 255" "finite Y" "n \<le> card Y"
    "\<And>y. y \<in> Y \<Longrightarrow> ev cs y = ev ds y"
  shows "cs = ds"
proof -
  let ?d = "map2 (-) cs ds"
  have "ev ?d = (\<lambda>_. 0)"
    by (rule polyfun_roots [of n])
       (use assms polyfun_ev [of ?d] in \<open>auto simp: ev_diff\<close>)
  then have zero: "\<forall>c \<in> set ?d. c = 0" using assms by (intro ev_zero_coefs) auto
  show ?thesis
  proof (rule nth_equalityI)
    show "cs ! i = ds ! i" if "i < length cs" for i
    proof -
      have "cs ! i - ds ! i = ?d ! i" "?d ! i \<in> set ?d"
        using that assms(1,2) by (simp, intro nth_mem, simp)
      with zero have "cs ! i - ds ! i = 0" by metis
      then show ?thesis by simp
    qed
  qed (simp add: assms)
qed

lemma ev_through_points:
  fixes X :: "gf set"
  assumes "0 \<notin> X" "Suc (card X) \<le> 255"
  shows "\<exists>!cs. length cs = card X \<and> (\<forall>x \<in> X. ev (s # cs) x = f x)"
proof (rule ex_ex1I)
  have fin: "finite X" using finite_gf finite_subset [OF subset_UNIV] by blast
  obtain xs where xs: "set xs = X" "distinct xs" using finite_distinct_list [OF fin] by blast
  let ?x = "\<lambda>i. (0 # xs) ! i" and ?y = "\<lambda>i. (s # map f xs) ! i"
  have len: "length xs = card X" using xs distinct_card by fastforce
  have inj: "inj_on ?x {..<Suc (card X)}"
    using xs assms(1) len inj_on_nth [of "0 # xs"] by simp
  obtain cs where cs: "length cs = Suc (card X)" "lagrange (Suc (card X)) ?x ?y = ev cs"
    using lagrange_polyfun [of "Suc (card X)" ?x ?y] unfolding polyfun_def by blast
  have at: "ev cs (?x i) = ?y i" if "i < Suc (card X)" for i
    using lagrange_at [OF inj that, of ?y] cs(2) by simp
  obtain c ds where c: "cs = c # ds" using cs(1) by (cases cs) auto
  have "c = s" using at [of 0] by (simp add: c)
  moreover have "ev cs x = f x" if "x \<in> X" for x
  proof -
    from that xs obtain i where "i < length xs" "xs ! i = x" by (auto simp: in_set_conv_nth)
    with at [of "Suc i"] len show ?thesis by simp
  qed
  ultimately show "\<exists>cs. length cs = card X \<and> (\<forall>x \<in> X. ev (s # cs) x = f x)"
    using cs(1) c by auto
next
  fix cs ds
  assume h: "length cs = card X \<and> (\<forall>x \<in> X. ev (s # cs) x = f x)"
    "length ds = card X \<and> (\<forall>x \<in> X. ev (s # ds) x = f x)"
  have fin: "finite X" using finite_gf finite_subset [OF subset_UNIV] by blast
  have "s # cs = s # ds"
  proof (rule ev_determines)
    show "finite (insert 0 X)" "Suc (card X) \<le> card (insert 0 X)" using fin assms(1) by simp_all
    show "ev (s # cs) y = ev (s # ds) y" if "y \<in> insert 0 X" for y
      using that h by (cases "y = 0") simp_all
  qed (use h assms in simp_all)
  then show "cs = ds" by simp
qed


definition segment :: "nat \<Rightarrow> 'a list \<Rightarrow> nat \<Rightarrow> 'a list" where
  "segment m buf j = map (\<lambda>k. buf ! (j * m + k)) [0..<m]"

lemma segments_unique:
  assumes "\<And>j. j < l \<Longrightarrow> \<exists>!r. length r = m \<and> P j r"
  shows "\<exists>!buf. length buf = m * l \<and> (\<forall>j<l. P j (segment m buf j))"
proof (rule ex_ex1I)
  from assms have "\<forall>j. \<exists>r. j < l \<longrightarrow> length r = m \<and> P j r" by blast
  then obtain R where R: "\<And>j. j < l \<Longrightarrow> length (R j) = m \<and> P j (R j)" by metis
  let ?buf = "map (\<lambda>i. R (i div m) ! (i mod m)) [0..<m * l]"
  have "segment m ?buf j = R j" if "j < l" for j
  proof (rule nth_equalityI)
    fix k assume "k < length (segment m ?buf j)"
    then have k: "k < m" by (simp add: segment_def)
    have "j * m + k < Suc j * m" using k by simp
    also have "\<dots> \<le> l * m" using that by (intro mult_le_mono1) simp
    finally show "segment m ?buf j ! k = R j ! k"
      using k by (simp add: segment_def mult.commute)
  qed (use R that in \<open>simp add: segment_def\<close>)
  with R show "\<exists>buf. length buf = m * l \<and> (\<forall>j<l. P j (segment m buf j))"
    by (intro exI [of _ ?buf]) simp
next
  fix a b
  assume h: "length a = m * l \<and> (\<forall>j<l. P j (segment m a j))"
    "length b = m * l \<and> (\<forall>j<l. P j (segment m b j))"
  have seg: "segment m a j = segment m b j" if "j < l" for j
    using assms [OF that] h that by (metis length_map length_upt diff_zero segment_def)
  show "a = b"
  proof (rule nth_equalityI)
    fix i assume i: "i < length a"
    then have "i < l * m" using h by (simp add: mult.commute)
    then have m: "0 < m" and "i div m < l" by (cases m, simp_all add: less_mult_imp_div_less)
    with seg have "segment m a (i div m) ! (i mod m) = segment m b (i div m) ! (i mod m)" by simp
    with m show "a ! i = b ! i" by (simp add: segment_def)
  qed (use h in simp)
qed

lemma coefs_segment: "coefs t secret rb j = secret ! j # segment (t - 1) rb j"
  by (simp add: coefs_def segment_def)

lemma bytes_through_points:
  assumes "K \<subseteq> {..<16}" "card K = m"
  shows "\<exists>!r. length r = m \<and> (\<forall>i \<in> K. polyEval (s # r) (of_nat (Suc i)) = f i)"
proof -
  let ?x = "\<lambda>i. to_gf (of_nat (Suc i))"
  have bound: "i < 255" if "i \<in> K" for i using that assms(1) by auto
  have inj: "inj_on ?x K"
    by (rule inj_onI) (use bound small_index in \<open>simp del: of_nat_Suc\<close>)
  let ?g = "\<lambda>x. to_gf (f (inv_into K ?x x))"
  have zero: "0 \<notin> ?x ` K"
  proof
    assume "0 \<in> ?x ` K"
    then obtain i where "i \<in> K" "to_gf (of_nat (Suc i)) = to_gf 0" by auto
    then show False using bound index_nonzero by (simp del: of_nat_Suc to_gf_0)
  qed
  have card: "card (?x ` K) = m" using inj assms(2) by (simp add: card_image)
  have "m \<le> 16" using card_mono [OF _ assms(1)] assms(2) by simp
  then have "\<exists>!cs. length cs = card (?x ` K) \<and> (\<forall>x \<in> ?x ` K. ev (to_gf s # cs) x = ?g x)"
    using zero card by (intro ev_through_points) simp_all
  then have gf: "\<exists>!cs. length cs = m \<and> (\<forall>i \<in> K. ev (to_gf s # cs) (?x i) = to_gf (f i))"
    using inv_into_f_f [OF inj] by (simp add: card del: of_nat_Suc ev_simps)
  have eq: "polyEval (s # r) (of_nat (Suc i)) = f i \<longleftrightarrow>
      ev (to_gf s # map to_gf r) (?x i) = to_gf (f i)" for r i
    by (metis list.map(2) polyEval_ev to_gf_eq)
  have map_of: "map to_gf (map of_gf cs) = cs" for cs
    by (simp add: o_def of_gf_inverse)
  show ?thesis
  proof (rule ex_ex1I)
    from gf obtain cs where "length cs = m" "\<forall>i \<in> K. ev (to_gf s # cs) (?x i) = to_gf (f i)" by blast
    then show "\<exists>r. length r = m \<and> (\<forall>i \<in> K. polyEval (s # r) (of_nat (Suc i)) = f i)"
      by (intro exI [of _ "map of_gf cs"]) (simp only: eq map_of length_map simp_thms ball_simps)
  next
    fix r r'
    assume "length r = m \<and> (\<forall>i \<in> K. polyEval (s # r) (of_nat (Suc i)) = f i)"
      "length r' = m \<and> (\<forall>i \<in> K. polyEval (s # r') (of_nat (Suc i)) = f i)"
    then have "map to_gf r = map to_gf r'" using gf unfolding eq by (metis length_map)
    then show "r = r'" by (simp add: inj_map_eq_map inj_def)
  qed
qed

lemma ex1_cong: "(\<And>x. P x = Q x) \<Longrightarrow> (\<exists>!x. P x) = (\<exists>!x. Q x)"
  by simp

text \<open>C11. Shares below the threshold say nothing about the secret: given any
  \<open>threshold - 1\<close> shares \<open>K\<close> of a split and any other secret of the same length,
  exactly one random string makes \<open>splitSecret\<close> produce these very shares from that
  other secret. With a uniform random source all secrets of that length are thus
  equally likely to a holder of the shares \<open>K\<close>.\<close>

theorem shamir_secrecy:
  assumes "splitSecret secret t n rand = Inr shares"
    and "K \<subseteq> {..<nat n}" "int (card K) = t - 1" "length secret' = length secret"
  shows "\<exists>!buf. length buf = nat (t - 1) * length secret \<and>
    (\<exists>shares'. splitSecret secret' t n (\<lambda>_. buf) = Inr shares' \<and> (\<forall>i \<in> K. shares' ! i = shares ! i))"
proof -
  note split = splitSecret_Inr [OF assms(1)]
  let ?m = "nat t - 1" and ?L = "length secret"
  have K: "K \<subseteq> {..<16}" "card K = ?m" using assms(2,3) split(2,4) by auto
  define v where "v i j = sh_value (shares ! i) ! j" for i j
  have shares: "shares ! i = \<lparr>sh_index = int i + 1, sh_value = map (v i) [0..<?L]\<rparr>" if "i \<in> K" for i
  proof -
    from that assms(2) have "i < nat n" by auto
    then have "shares ! i = share_of (nat t) secret (rand (?m * ?L)) i" using split(6) by simp
    then show ?thesis by (simp add: share_of_def v_def)
  qed
  have iff: "(\<exists>shares'. splitSecret secret' t n (\<lambda>_. buf) = Inr shares' \<and> (\<forall>i \<in> K. shares' ! i = shares ! i))
      \<longleftrightarrow> (\<forall>j<?L. \<forall>i\<in>K. polyEval (secret' ! j # segment ?m buf j) (of_nat (Suc i)) = v i j)"
    if "length buf = ?m * ?L" for buf
  proof -
    have "secret' \<noteq> []" using assms(4) split(1) by force
    then have "splitSecret secret' t n (\<lambda>_. buf) = Inr (map (share_of (nat t) secret' buf) [0..<nat n])"
      using splitSecret_ok [of secret' t n "\<lambda>_. buf"] split assms(4) that by simp
    moreover have "map (share_of (nat t) secret' buf) [0..<nat n] ! i = share_of (nat t) secret' buf i"
      if "i \<in> K" for i using that assms(2) by auto
    ultimately show ?thesis
      using assms(4) by (auto simp: shares share_of_def coefs_segment simp del: of_nat_Suc)
  qed
  have ex1: "\<exists>!buf. length buf = ?m * ?L \<and>
      (\<forall>j<?L. \<forall>i\<in>K. polyEval (secret' ! j # segment ?m buf j) (of_nat (Suc i)) = v i j)"
    by (rule segments_unique) (rule bytes_through_points [OF K])
  have m: "nat (t - 1) = ?m" using split(2) by (simp add: nat_diff_distrib)
  have "(length buf = ?m * ?L \<and>
        (\<exists>shares'. splitSecret secret' t n (\<lambda>_. buf) = Inr shares' \<and> (\<forall>i \<in> K. shares' ! i = shares ! i)))
      = (length buf = ?m * ?L \<and>
        (\<forall>j<?L. \<forall>i\<in>K. polyEval (secret' ! j # segment ?m buf j) (of_nat (Suc i)) = v i j))" for buf
    using iff by blast
  then show ?thesis unfolding m by (rule ex1_cong [THEN iffD2, OF _ ex1])
qed


theorem shamir_secrecy_witness:
  "\<exists>!buf. length buf = 2 \<and>
    (\<exists>shares'. splitSecret [9, 9] 2 3 (\<lambda>_. buf) = Inr shares' \<and> shares' ! 1 = demo_shares ! 1)"
  using shamir_secrecy [OF demo_split, of "{1}" "[9, 9]"] by (simp add: numeral_2_eq_2)

section \<open>Refused inputs\<close>

lemma checkShares_iff:
  "isInr (checkShares l seen i ss) \<longleftrightarrow>
    (\<forall>s \<in> set ss. 0 < sh_index s \<and> sh_index s \<le> 255 \<and> length (sh_value s) = l) \<and>
    distinct (map sh_index ss) \<and> set seen \<inter> sh_index ` set ss = {}"
proof (induction ss arbitrary: seen i)
  case (Cons s ss)
  show ?case
    using Cons.IH [of "sh_index s # seen" "Suc i"]
    by (cases "checkShares l (sh_index s # seen) (Suc i) ss") auto
qed simp

lemma checkShares_xs:
  "checkShares l seen i ss = Inr xs \<Longrightarrow> xs = map (of_int \<circ> sh_index) ss"
  by (induction l seen i ss arbitrary: xs rule: checkShares.induct)
     (auto simp: bindR_eq_Inr split: if_splits)

lemma of_int_inj_byte:
  assumes "0 \<le> a" "a \<le> 255" "0 \<le> b" "b \<le> 255" "(of_int a :: byte) = of_int b"
  shows "a = b"
proof -
  have "take_bit 8 a = take_bit 8 b" using assms(5) by (simp add: word_of_int_eq_iff)
  then show ?thesis using assms by (simp add: take_bit_eq_mod)
qed

text \<open>\<open>combineShares\<close> returns a secret exactly on well-formed input: at least one
  share, a non-empty common value length, indices in 1..255 and no index twice.
  On every other input it throws; on this input the inversion in the field never does.\<close>

theorem combineShares_accepts:
  "isInr (combineShares shares) \<longleftrightarrow>
    (case shares of [] \<Rightarrow> False
     | s0 # _ \<Rightarrow> sh_value s0 \<noteq> [] \<and> distinct (map sh_index shares) \<and>
        list_all (\<lambda>s. 0 < sh_index s \<and> sh_index s \<le> 255 \<and>
          length (sh_value s) = length (sh_value s0)) shares)"
proof (cases shares)
  case Nil
  then show ?thesis by (simp add: combineShares_def)
next
  case (Cons s0 ss)
  let ?l = "length (sh_value s0)"
  let ?ok = "distinct (map sh_index shares) \<and>
    list_all (\<lambda>s. 0 < sh_index s \<and> sh_index s \<le> 255 \<and> length (sh_value s) = ?l) shares"
  have ok: "isInr (checkShares ?l [] 0 shares) \<longleftrightarrow> ?ok"
    unfolding checkShares_iff by (auto simp: list_all_iff)
  have fill: "isInr (mapR (\<lambda>j. lagrangeInterpolateAtZero xs (map (\<lambda>s. sh_value s ! j) shares)) js)"
    if h: "?ok" "checkShares ?l [] 0 shares = Inr xs" for xs js
  proof -
    have "inj_on (of_int :: int \<Rightarrow> byte) (sh_index ` set shares)"
    proof (rule inj_onI)
      fix a b :: int
      assume "a \<in> sh_index ` set shares" "b \<in> sh_index ` set shares" "(of_int a :: byte) = of_int b"
      moreover from this h(1) have "0 \<le> a" "a \<le> 255" "0 \<le> b" "b \<le> 255"
        by (fastforce simp: list_all_iff)+
      ultimately show "a = b" using of_int_inj_byte by blast
    qed
    then have "distinct xs" using h checkShares_xs [OF h(2)]
      by (simp add: distinct_map comp_inj_on)
    then have "\<exists>v. lagrangeInterpolateAtZero xs ys = Inr v" for ys using lagrange_at_zero by blast
    then obtain f where "\<And>ys. lagrangeInterpolateAtZero xs ys = Inr (f ys)" by metis
    then show ?thesis by (simp add: mapR_Inr [where g = "\<lambda>j. f (map (\<lambda>s. sh_value s ! j) shares)"])
  qed
  have comb: "combineShares shares = (if sh_value s0 = [] then Inl EmptyShareValue
      else bindR (checkShares ?l [] 0 shares) (\<lambda>xs.
        mapR (\<lambda>j. lagrangeInterpolateAtZero xs (map (\<lambda>s. sh_value s ! j) shares)) [0..<?l]))"
    by (simp only: combineShares_def Cons list.case Let_def length_0_conv)
  have "isInr (combineShares shares) \<longleftrightarrow> sh_value s0 \<noteq> [] \<and> ?ok"
  proof (cases "checkShares ?l [] 0 shares")
    case (Inl e)
    with ok have "\<not> ?ok" by simp
    then show ?thesis by (simp add: comb Inl)
  next
    case (Inr xs)
    with ok have "?ok" by simp
    with fill [OF _ Inr] show ?thesis by (simp add: comb Inr)
  qed
  then show ?thesis by (simp add: Cons)
qed

end
