(* ===== verification/Retry.thy ===== *)
theory Retry
  imports Prelude Canonical Complex_Main
begin

text \<open>
  The retry policy of delivery, \<^verbatim>\<open>src/src/delivery/retry.ts\<close>: sanitised
  configuration, exponential backoff with jitter, the recoverable reason codes
  and the effective deadline. JavaScript numbers are rationals here (exact, no
  rounding of the double format); an absent option is \<open>None\<close>.
\<close>

section \<open>Model\<close>

definition MinRetryInitialIntervalMs :: rat where "MinRetryInitialIntervalMs = 60000"
definition MinRetryMultiplier :: rat where "MinRetryMultiplier = 2"
definition MaxRetryIntervalMs :: rat where "MaxRetryIntervalMs = 6 * 60 * 60 * 1000"
definition MinRetryJitterFraction :: rat where "MinRetryJitterFraction = 1 / 10"
definition MinJitterFloorMs :: rat where "MinJitterFloorMs = MinRetryInitialIntervalMs / 2"
definition DefaultMaxRetryHorizonMs :: int where "DefaultMaxRetryHorizonMs = 72 * 60 * 60 * 1000"
definition MaxRetryHorizonCapMs :: int where "MaxRetryHorizonCapMs = 7 * 24 * 60 * 60 * 1000"

record retry_config =
  rc_initialIntervalMs :: "rat option"
  rc_multiplier :: "rat option"
  rc_maxIntervalMs :: "rat option"
  rc_jitterFraction :: "rat option"

record effective_retry_config =
  ef_initialIntervalMs :: rat
  ef_multiplier :: rat
  ef_maxIntervalMs :: rat
  ef_jitterFraction :: rat

definition default_to :: "'a \<Rightarrow> 'a option \<Rightarrow> 'a" where
  "default_to d v = (case v of None \<Rightarrow> d | Some x \<Rightarrow> x)"

definition sanitizeRetry :: "retry_config \<Rightarrow> effective_retry_config" where
  "sanitizeRetry cfg =
     (let maxIntervalMs = default_to 0 (rc_maxIntervalMs cfg) in
      \<lparr>ef_initialIntervalMs = max (default_to 0 (rc_initialIntervalMs cfg)) MinRetryInitialIntervalMs,
       ef_multiplier = max (default_to 0 (rc_multiplier cfg)) MinRetryMultiplier,
       ef_maxIntervalMs =
         (if maxIntervalMs \<le> 0 \<or> maxIntervalMs > MaxRetryIntervalMs then MaxRetryIntervalMs
          else maxIntervalMs),
       ef_jitterFraction = max (default_to 0 (rc_jitterFraction cfg)) MinRetryJitterFraction\<rparr>)"

text \<open>An effective configuration is passed on as a configuration.\<close>

definition as_config :: "effective_retry_config \<Rightarrow> retry_config" where
  "as_config e = \<lparr>rc_initialIntervalMs = Some (ef_initialIntervalMs e),
     rc_multiplier = Some (ef_multiplier e), rc_maxIntervalMs = Some (ef_maxIntervalMs e),
     rc_jitterFraction = Some (ef_jitterFraction e)\<rparr>"

text \<open>The loop of \<open>baseIntervalMs\<close>: \<open>n\<close> rounds are left.\<close>

fun backoffLoop :: "effective_retry_config \<Rightarrow> nat \<Rightarrow> rat \<Rightarrow> rat" where
  "backoffLoop eff 0 d = d"
| "backoffLoop eff (Suc n) d =
     (let d' = d * ef_multiplier eff in
      if d' > ef_maxIntervalMs eff then ef_maxIntervalMs eff else backoffLoop eff n d')"

definition baseIntervalMs :: "retry_config \<Rightarrow> int \<Rightarrow> rat" where
  "baseIntervalMs cfg attempt =
     (let eff = sanitizeRetry cfg in
      min (backoffLoop eff (nat (max 0 attempt)) (ef_initialIntervalMs eff)) (ef_maxIntervalMs eff))"

datatype retry_error = NonPositiveBase | RandOutOfRange

definition jitterIntervalMs :: "retry_config \<Rightarrow> rat \<Rightarrow> rat \<Rightarrow> retry_error + rat" where
  "jitterIntervalMs cfg baseMs r =
     (let eff = sanitizeRetry cfg in
      if baseMs \<le> 0 then Inl NonPositiveBase
      else if r < 0 \<or> r \<ge> 1 then Inl RandOutOfRange
      else
        let m = 1 - ef_jitterFraction eff + 2 * ef_jitterFraction eff * r;
            jittered = of_int \<lfloor>baseMs * m\<rfloor> in
        Inr (max jittered MinJitterFloorMs))"

text \<open>The new \<open>Date\<close> truncates to whole milliseconds; the summands are whole already.\<close>

definition nextAttemptAt :: "retry_config \<Rightarrow> time \<Rightarrow> int \<Rightarrow> rat \<Rightarrow> retry_error + time" where
  "nextAttemptAt cfg previous attempt r =
     bindR (jitterIntervalMs cfg (baseIntervalMs cfg attempt) r) (\<lambda>jittered.
     Inr (previous + \<lfloor>jittered\<rfloor>))"

definition isRecoverableReason :: "jstr \<Rightarrow> bool" where
  "isRecoverableReason reasonCode =
     (reasonCode \<in> set (map js [''handshake_invalid'', ''handshake_expired'', ''no_session'',
        ''server_unavailable'', ''rate_limited'', ''server_at_capacity'']))"

definition effectiveDeadline :: "time option \<Rightarrow> time \<Rightarrow> int option \<Rightarrow> time" where
  "effectiveDeadline postmarkExpires queuedAt horizonMs =
     (let h = default_to 0 horizonMs;
          h = (if h \<le> 0 then DefaultMaxRetryHorizonMs else h);
          h = (if h > MaxRetryHorizonCapMs then MaxRetryHorizonCapMs else h);
          horizonDeadline = queuedAt + h in
      case postmarkExpires of
        None \<Rightarrow> horizonDeadline
      | Some e \<Rightarrow> if e < horizonDeadline then e else horizonDeadline)"

section \<open>Properties\<close>

lemma sanitize_bounds:
  "60000 \<le> ef_initialIntervalMs (sanitizeRetry cfg)" "2 \<le> ef_multiplier (sanitizeRetry cfg)"
  "0 < ef_maxIntervalMs (sanitizeRetry cfg)" "ef_maxIntervalMs (sanitizeRetry cfg) \<le> 21600000"
  "1 / 10 \<le> ef_jitterFraction (sanitizeRetry cfg)"
  by (simp_all add: sanitizeRetry_def Let_def MinRetryInitialIntervalMs_def MinRetryMultiplier_def
      MaxRetryIntervalMs_def MinRetryJitterFraction_def)

lemma sanitize_idempotent: "sanitizeRetry (as_config (sanitizeRetry cfg)) = sanitizeRetry cfg"
  by (simp add: sanitizeRetry_def Let_def as_config_def default_to_def MinRetryInitialIntervalMs_def
      MinRetryMultiplier_def MaxRetryIntervalMs_def MinRetryJitterFraction_def)

lemma backoffLoop_closed:
  assumes "1 \<le> ef_multiplier eff" "0 \<le> d"
  shows "min (backoffLoop eff n d) (ef_maxIntervalMs eff) = min (d * ef_multiplier eff ^ n) (ef_maxIntervalMs eff)"
  using assms(2)
proof (induction n arbitrary: d)
  case (Suc n)
  let ?d = "d * ef_multiplier eff"
  have d: "0 \<le> ?d" using Suc.prems assms(1) by simp
  show ?case
  proof (cases "?d > ef_maxIntervalMs eff")
    case True
    have "1 \<le> ef_multiplier eff ^ n" using assms(1) by (rule one_le_power)
    with d have "?d * 1 \<le> ?d * ef_multiplier eff ^ n" by (intro mult_left_mono)
    with True show ?thesis by (simp add: mult.assoc)
  next
    case False
    with Suc.IH [OF d] show ?thesis by (simp add: mult.assoc)
  qed
qed simp

text \<open>The backoff loop computes the capped exponential: for attempt \<open>n\<close> the base interval is
  \<open>initialInterval * multiplier ^ n\<close> cut at \<open>maxInterval\<close>, where the sanitised values
  respect the minimum interval of one minute, the minimum factor 2 and the cap of six hours.\<close>

theorem base_interval_closed_form:
  "baseIntervalMs cfg (int n) =
     min (ef_initialIntervalMs (sanitizeRetry cfg) * ef_multiplier (sanitizeRetry cfg) ^ n)
         (ef_maxIntervalMs (sanitizeRetry cfg))
   \<and> 60000 \<le> ef_initialIntervalMs (sanitizeRetry cfg) \<and> 2 \<le> ef_multiplier (sanitizeRetry cfg)
   \<and> 0 < ef_maxIntervalMs (sanitizeRetry cfg) \<and> ef_maxIntervalMs (sanitizeRetry cfg) \<le> 21600000"
proof -
  have "1 \<le> ef_multiplier (sanitizeRetry cfg)" "0 \<le> ef_initialIntervalMs (sanitizeRetry cfg)"
    using sanitize_bounds [of cfg] by linarith+
  then show ?thesis
    using backoffLoop_closed [of "sanitizeRetry cfg"] sanitize_bounds [of cfg]
    by (simp add: baseIntervalMs_def Let_def)
qed

lemma base_interval_pos: "0 < baseIntervalMs cfg a"
proof -
  have "baseIntervalMs cfg a = baseIntervalMs cfg (int (nat (max 0 a)))"
    by (simp add: baseIntervalMs_def Let_def)
  also have "\<dots> = min (ef_initialIntervalMs (sanitizeRetry cfg) * ef_multiplier (sanitizeRetry cfg) ^ nat (max 0 a))
      (ef_maxIntervalMs (sanitizeRetry cfg))"
    using backoffLoop_closed [of "sanitizeRetry cfg"] sanitize_bounds [of cfg]
    by (simp add: baseIntervalMs_def Let_def)
  finally show ?thesis using sanitize_bounds [of cfg] by simp
qed

lemma base_interval_max: "baseIntervalMs cfg a \<le> 21600000"
  using sanitize_bounds(4) [of cfg] by (simp add: baseIntervalMs_def Let_def min_le_iff_disj)

lemma next_attempt_ok:
  assumes "0 \<le> r" "r < 1"
  shows "\<exists>t. nextAttemptAt cfg previous a r = Inr t \<and> previous + 30000 \<le> t"
  using assms base_interval_pos [of cfg a]
  by (simp add: nextAttemptAt_def jitterIntervalMs_def Let_def MinJitterFloorMs_def
      MinRetryInitialIntervalMs_def le_floor_iff)

text \<open>A further attempt is never scheduled early or without bound: with a random draw in
  \<open>[0, 1)\<close> the next attempt exists, lies at least 30 seconds (half the first interval) after the
  previous one, and at most the base interval enlarged by the jitter fraction (or those
  30 seconds) after it.\<close>

theorem next_attempt_bounds:
  assumes "0 \<le> r" "r < 1"
  shows "\<exists>t. nextAttemptAt cfg previous a r = Inr t \<and> previous + 30000 \<le> t \<and>
    of_int (t - previous) \<le> max 30000 (baseIntervalMs cfg a * (1 + ef_jitterFraction (sanitizeRetry cfg)))"
proof -
  let ?j = "ef_jitterFraction (sanitizeRetry cfg)" and ?b = "baseIntervalMs cfg a"
  let ?m = "1 - ?j + 2 * ?j * r"
  have "2 * ?j * r \<le> 2 * ?j * 1"
    using assms sanitize_bounds(5) [of cfg] by (intro mult_left_mono) linarith+
  then have "?m \<le> 1 + ?j" by simp
  then have "?b * ?m \<le> ?b * (1 + ?j)" using base_interval_pos [of cfg a] by (intro mult_left_mono) simp_all
  moreover have "of_int \<lfloor>?b * ?m\<rfloor> \<le> ?b * ?m" by (rule of_int_floor_le)
  ultimately have le: "of_int \<lfloor>?b * ?m\<rfloor> \<le> ?b * (1 + ?j)" by linarith
  have t: "nextAttemptAt cfg previous a r = Inr (previous + max \<lfloor>?b * ?m\<rfloor> 30000)"
    using assms base_interval_pos [of cfg a]
    by (simp add: nextAttemptAt_def jitterIntervalMs_def Let_def MinJitterFloorMs_def
        MinRetryInitialIntervalMs_def max_def le_floor_iff floor_le_iff)
  have "of_int (max x 30000) \<le> max 30000 y" if "of_int x \<le> y" for x :: int and y :: rat
    using that by (cases "x \<le> 30000") (simp_all add: max_def)
  from this [OF le] show ?thesis by (simp add: t del: of_int_max)
qed

theorem next_attempt_bounds_witness:
  "\<exists>t. nextAttemptAt \<lparr>rc_initialIntervalMs = None, rc_multiplier = None, rc_maxIntervalMs = None,
      rc_jitterFraction = None\<rparr> 1000 3 (1 / 2) = Inr t \<and> 31000 \<le> t"
  using next_attempt_bounds [of "1 / 2" _ 1000 3] by fastforce

lemma deadline_le:
  "effectiveDeadline e q h \<le> q + (if default_to 0 h \<le> 0 then DefaultMaxRetryHorizonMs
     else min (default_to 0 h) MaxRetryHorizonCapMs)"
  by (simp add: effectiveDeadline_def Let_def DefaultMaxRetryHorizonMs_def MaxRetryHorizonCapMs_def
      split: option.splits)

end
