(* ===== verification/Scheduler.thy ===== *)
theory Scheduler
  imports Retry "HOL-Library.Product_Lexorder"
begin

text \<open>
  The delivery queue and its scheduler: \<^verbatim>\<open>queue.ts\<close>, \<^verbatim>\<open>scheduler.ts\<close>, and from
  \<^verbatim>\<open>submission.ts\<close> and \<^verbatim>\<open>cancel.ts\<close> the messages the scheduler builds, all in
  \<^verbatim>\<open>src/src/delivery\<close>. The scheduler works on any store with the operations of
  the interface \<open>SchedulerStore\<close>, here a record of functions; the laws it relies on
  are the locale \<open>scheduler_store\<close>, interpreted on the in-memory store of the source.
  ISO timestamps with second precision are times rounded down to seconds.
\<close>

section \<open>Queue records\<close>

datatype queue_record_state = Queued | Delivered | Rejected | Expired | Canceled

definition isTerminalState :: "queue_record_state \<Rightarrow> bool" where
  "isTerminalState s = (s \<noteq> Queued)"

datatype attempt_status = StDelivered | StRejected | StSilent

record queue_state =
  q_envelope_id :: jstr
  q_recipient :: jstr
  q_state :: queue_record_state
  q_attempts :: nat
  q_last_attempt_at :: "time option"
  q_last_outcome :: "attempt_status option"
  q_last_reason_code :: "jstr option"
  q_next_attempt_at :: "time option"
  q_deadline :: time
  q_terminal_at :: "time option"

definition isoSecond :: "time \<Rightarrow> time" where
  "isoSecond d = d - d mod 1000"

lemma isoSecond_le: "isoSecond d \<le> d"
  by (simp add: isoSecond_def)

definition setTerminal :: "queue_state \<Rightarrow> queue_record_state \<Rightarrow> time \<Rightarrow> queue_state" where
  "setTerminal q state now =
     (if \<not> isTerminalState state then q
      else if isTerminalState (q_state q) then q
      else q\<lparr>q_state := state, q_next_attempt_at := None, q_terminal_at := Some (isoSecond now)\<rparr>)"

section \<open>Messages\<close>

record submission_event =
  ev_envelope_id :: jstr
  ev_recipient :: jstr
  ev_status :: attempt_status
  ev_reason_code :: "jstr option"
  ev_reason :: "jstr option"
  ev_timestamp :: time

record event_opts =
  eo_reason_code :: "jstr option"
  eo_reason :: "jstr option"
  eo_now :: "time option"

datatype scheduler_error =
    EmptyEnvelopeId | EmptyRecipient | RecordExists | UnknownRecord | TickInProgress | DeliverThrew

text \<open>\<open>newSubmissionEvent\<close>; \<open>wall\<close> is the clock it reads when it gets no \<open>nowFn\<close>.\<close>

definition newSubmissionEvent ::
  "time \<Rightarrow> jstr \<Rightarrow> jstr \<Rightarrow> attempt_status \<Rightarrow> event_opts \<Rightarrow> scheduler_error + submission_event"
where
  "newSubmissionEvent wall envelopeId recipient status opts =
     (if envelopeId = [] then Inl EmptyEnvelopeId
      else if recipient = [] then Inl EmptyRecipient
      else Inr \<lparr>ev_envelope_id = envelopeId, ev_recipient = recipient, ev_status = status,
                ev_reason_code = eo_reason_code opts, ev_reason = eo_reason opts,
                ev_timestamp = isoSecond (default_to wall (eo_now opts))\<rparr>)"

record cancel_result =
  cr_recipient :: jstr
  cr_state :: queue_record_state
  cr_no_op :: bool

section \<open>The store interface and the scheduler\<close>

record 's store_ops =
  so_put :: "queue_state \<Rightarrow> 's \<Rightarrow> 's"
  so_get :: "'s \<Rightarrow> jstr \<Rightarrow> jstr \<Rightarrow> queue_state option"
  so_due :: "'s \<Rightarrow> time \<Rightarrow> queue_state list"
  so_old :: "'s \<Rightarrow> time \<Rightarrow> queue_state list"
  so_delete :: "jstr \<Rightarrow> jstr \<Rightarrow> 's \<Rightarrow> 's"

record sched_config =
  sc_retry :: retry_config
  sc_horizon :: int
  sc_sink :: bool

text \<open>The constructor: the options with their defaults; the store and the sender are required.\<close>

definition newScheduler :: "retry_config \<Rightarrow> int option \<Rightarrow> bool \<Rightarrow> sched_config" where
  "newScheduler retry maxRetryHorizonMs sink =
     \<lparr>sc_retry = as_config (sanitizeRetry retry),
      sc_horizon = default_to (72 * 3600000) maxRetryHorizonMs, sc_sink = sink\<rparr>"

text \<open>The state: the store, the events passed to the sink so far, and the latch of \<open>tick\<close>.\<close>

record 's sched =
  sd_store :: 's
  sd_events :: "submission_event list"
  sd_inflight :: bool

record attempt_result =
  ar_status :: attempt_status
  ar_reasonCode :: "jstr option"
  ar_reason :: "jstr option"

text \<open>What the world answers during a tick: the sender's results (\<open>None\<close> when it throws)
  and the random draws.\<close>

record sched_env =
  en_deliver :: "jstr \<Rightarrow> jstr \<Rightarrow> attempt_result option"
  en_rand :: "jstr \<Rightarrow> jstr \<Rightarrow> rat"

definition enqueue ::
  "'s store_ops \<Rightarrow> sched_config \<Rightarrow> time \<Rightarrow> jstr \<Rightarrow> jstr \<Rightarrow> time \<Rightarrow> 's sched \<Rightarrow> scheduler_error + 's sched"
where
  "enqueue S cfg now envelopeId recipient postmarkExpires st =
     (if envelopeId = [] then Inl EmptyEnvelopeId
      else if recipient = [] then Inl EmptyRecipient
      else if so_get S (sd_store st) envelopeId recipient \<noteq> None then Inl RecordExists
      else
        let deadline = effectiveDeadline (Some postmarkExpires) now (Some (sc_horizon cfg));
            q = \<lparr>q_envelope_id = envelopeId, q_recipient = recipient, q_state = Queued,
                 q_attempts = 0, q_last_attempt_at = None, q_last_outcome = None,
                 q_last_reason_code = None, q_next_attempt_at = Some (isoSecond now),
                 q_deadline = isoSecond deadline, q_terminal_at = None\<rparr> in
        Inr (st\<lparr>sd_store := so_put S q (sd_store st)\<rparr>))"

text \<open>
  \<open>emit\<close>: the events for the sink. The option object it builds has the property
  \<open>reasonCode\<close>, which \<open>newSubmissionEvent\<close> does not read (it reads
  \<open>reason_code\<close>): the event gets no reason code.
\<close>

definition emit ::
  "sched_config \<Rightarrow> time \<Rightarrow> queue_state \<Rightarrow> jstr option \<Rightarrow> scheduler_error + submission_event list"
where
  "emit cfg wall q reason =
     (if \<not> sc_sink cfg then Inr []
      else
        let status = (if q_state q = Delivered then StDelivered else StRejected);
            opts = \<lparr>eo_reason_code = None,
                    eo_reason = (if reason = Some [] then None else reason),
                    eo_now = q_terminal_at q\<rparr> in
        bindR (newSubmissionEvent wall (q_envelope_id q) (q_recipient q) status opts) (\<lambda>ev. Inr [ev]))"

definition transitionTerminal ::
  "sched_config \<Rightarrow> queue_state \<Rightarrow> queue_record_state \<Rightarrow> time \<Rightarrow> jstr option
     \<Rightarrow> scheduler_error + queue_state \<times> submission_event list"
where
  "transitionTerminal cfg q state now reason =
     (if isTerminalState (q_state q) then Inr (q, [])
      else
        let q' = setTerminal q state now in
        bindR (emit cfg now q' reason) (\<lambda>evs. Inr (q', evs)))"

definition transitionExpired ::
  "sched_config \<Rightarrow> queue_state \<Rightarrow> time \<Rightarrow> scheduler_error + queue_state \<times> submission_event list"
where
  "transitionExpired cfg q now =
     (if isTerminalState (q_state q) then Inr (q, [])
      else
        let q' = setTerminal q Expired now in
        bindR (emit cfg now q' None) (\<lambda>evs. Inr (q', evs)))"

text \<open>\<open>runAttempt\<close> after the sender has answered with \<open>res\<close>.\<close>

definition recordAttempt :: "queue_state \<Rightarrow> time \<Rightarrow> attempt_result \<Rightarrow> queue_state" where
  "recordAttempt q now res =
     q\<lparr>q_attempts := q_attempts q + 1, q_last_attempt_at := Some (isoSecond now),
       q_last_outcome := Some (ar_status res),
       q_last_reason_code := (if ar_reasonCode res = Some [] then None else ar_reasonCode res)\<rparr>"

definition runAttempt ::
  "sched_config \<Rightarrow> time \<Rightarrow> attempt_result \<Rightarrow> rat \<Rightarrow> queue_state
     \<Rightarrow> scheduler_error + queue_state \<times> submission_event list"
where
  "runAttempt cfg now res r q =
     (let q1 = recordAttempt q now res in
      if ar_status res = StDelivered then transitionTerminal cfg q1 Delivered now (ar_reason res)
      else if ar_status res = StRejected \<and> \<not> isRecoverableReason (default_to [] (ar_reasonCode res))
      then transitionTerminal cfg q1 Rejected now (ar_reason res)
      else
        let next = (case nextAttemptAt (sc_retry cfg) now (int (q_attempts q1) - 1) r of
                      Inl _ \<Rightarrow> now + 1000
                    | Inr t \<Rightarrow> t) in
        if next > q_deadline q1 then transitionExpired cfg q1 now
        else Inr (q1\<lparr>q_next_attempt_at := Some (isoSecond next)\<rparr>, []))"

text \<open>One round of the loop of \<open>tick\<close>, and the loop.\<close>

definition attemptOutcome ::
  "sched_config \<Rightarrow> time \<Rightarrow> sched_env \<Rightarrow> queue_state
     \<Rightarrow> scheduler_error + queue_state \<times> submission_event list"
where
  "attemptOutcome cfg now env q =
     (if now \<ge> q_deadline q then transitionExpired cfg q now
      else case en_deliver env (q_envelope_id q) (q_recipient q) of
          None \<Rightarrow> Inl DeliverThrew
        | Some res \<Rightarrow> runAttempt cfg now res (en_rand env (q_envelope_id q) (q_recipient q)) q)"

fun tickLoop ::
  "'s store_ops \<Rightarrow> sched_config \<Rightarrow> time \<Rightarrow> sched_env \<Rightarrow> queue_state list
     \<Rightarrow> 's sched \<Rightarrow> nat \<Rightarrow> scheduler_error option \<Rightarrow> 's sched \<times> nat \<times> scheduler_error option"
where
  "tickLoop S cfg now env [] st advanced err = (st, advanced, err)"
| "tickLoop S cfg now env (q # due) st advanced err =
     (if isTerminalState (q_state q) then tickLoop S cfg now env due st advanced err
      else case attemptOutcome cfg now env q of
          Inl e \<Rightarrow> tickLoop S cfg now env due st advanced (if err = None then Some e else err)
        | Inr (q', evs) \<Rightarrow>
            tickLoop S cfg now env due
              (st\<lparr>sd_store := so_put S q' (sd_store st), sd_events := sd_events st @ evs\<rparr>)
              (advanced + 1) err)"

definition tick ::
  "'s store_ops \<Rightarrow> sched_config \<Rightarrow> time \<Rightarrow> sched_env \<Rightarrow> 's sched
     \<Rightarrow> 's sched \<times> (scheduler_error + nat \<times> scheduler_error option)"
where
  "tick S cfg now env st =
     (if sd_inflight st then (st, Inl TickInProgress)
      else
        let due = so_due S (sd_store st) now in
        case tickLoop S cfg now env due (st\<lparr>sd_inflight := True\<rparr>) 0 None of
          (st', advanced, err) \<Rightarrow> (st'\<lparr>sd_inflight := False\<rparr>, Inr (advanced, err)))"

definition no_op_result :: "queue_state \<Rightarrow> jstr \<Rightarrow> cancel_result" where
  "no_op_result q recipient = \<lparr>cr_recipient = recipient, cr_state = q_state q, cr_no_op = True\<rparr>"

text \<open>The steps shared by the two cancellations: the record is stored before the event is sent.\<close>

definition cancelRecord ::
  "'s store_ops \<Rightarrow> sched_config \<Rightarrow> time \<Rightarrow> jstr \<Rightarrow> queue_state \<Rightarrow> 's sched
     \<Rightarrow> 's sched \<times> (scheduler_error + unit)"
where
  "cancelRecord S cfg now reason q st =
     (let q' = setTerminal q Canceled now;
          st' = st\<lparr>sd_store := so_put S q' (sd_store st)\<rparr> in
      case emit cfg now q' (Some reason) of
        Inl e \<Rightarrow> (st', Inl e)
      | Inr evs \<Rightarrow> (st'\<lparr>sd_events := sd_events st' @ evs\<rparr>, Inr ()))"

definition cancel ::
  "'s store_ops \<Rightarrow> sched_config \<Rightarrow> time \<Rightarrow> jstr \<Rightarrow> jstr \<Rightarrow> 's sched
     \<Rightarrow> 's sched \<times> (scheduler_error + cancel_result)"
where
  "cancel S cfg now envelopeId recipient st =
     (case so_get S (sd_store st) envelopeId recipient of
        None \<Rightarrow> (st, Inl UnknownRecord)
      | Some q \<Rightarrow>
          if isTerminalState (q_state q) then (st, Inr (no_op_result q recipient))
          else case cancelRecord S cfg now (js ''client-initiated cancellation'') q st of
              (st', Inl e) \<Rightarrow> (st', Inl e)
            | (st', Inr _) \<Rightarrow>
                (st', Inr \<lparr>cr_recipient = recipient, cr_state = Canceled, cr_no_op = False\<rparr>))"

fun cancelLoop ::
  "'s store_ops \<Rightarrow> sched_config \<Rightarrow> time \<Rightarrow> queue_state list \<Rightarrow> 's sched \<Rightarrow> cancel_result list
     \<Rightarrow> 's sched \<times> (scheduler_error + cancel_result list)"
where
  "cancelLoop S cfg now [] st out = (st, Inr out)"
| "cancelLoop S cfg now (q # qs) st out =
     (if isTerminalState (q_state q) then
        cancelLoop S cfg now qs st (out @ [no_op_result q (q_recipient q)])
      else case cancelRecord S cfg now (js ''client-initiated whole-envelope cancellation'') q st of
          (st', Inl e) \<Rightarrow> (st', Inl e)
        | (st', Inr _) \<Rightarrow>
            cancelLoop S cfg now qs st'
              (out @ [\<lparr>cr_recipient = q_recipient q, cr_state = Canceled, cr_no_op = False\<rparr>]))"

definition cancelEnvelope ::
  "'s store_ops \<Rightarrow> sched_config \<Rightarrow> time \<Rightarrow> jstr \<Rightarrow> 's sched
     \<Rightarrow> 's sched \<times> (scheduler_error + cancel_result list)"
where
  "cancelEnvelope S cfg now envelopeId st =
     (if envelopeId = [] then (st, Inl EmptyEnvelopeId)
      else
        let all_due = so_due S (sd_store st) (now + sc_horizon cfg * 2);
            matches = filter (\<lambda>q. q_envelope_id q = envelopeId) all_due in
        cancelLoop S cfg now matches st [])"

definition pruneTerminal :: "'s store_ops \<Rightarrow> time \<Rightarrow> int \<Rightarrow> 's sched \<Rightarrow> 's sched \<times> nat" where
  "pruneTerminal S now retentionMs st =
     (let stale = so_old S (sd_store st) (now - retentionMs) in
      (st\<lparr>sd_store := fold (\<lambda>q. so_delete S (q_envelope_id q) (q_recipient q)) stale (sd_store st)\<rparr>,
       length stale))"

section \<open>The in-memory store\<close>

type_synonym mem_store = "(jstr, queue_state) jsmap"

definition keyOf :: "jstr \<Rightarrow> jstr \<Rightarrow> jstr" where
  "keyOf envelopeId recipient = envelopeId @ [0] @ recipient"

definition mem_put :: "queue_state \<Rightarrow> mem_store \<Rightarrow> mem_store" where
  "mem_put q m = jsm_set (keyOf (q_envelope_id q) (q_recipient q)) q m"

definition mem_get :: "mem_store \<Rightarrow> jstr \<Rightarrow> jstr \<Rightarrow> queue_state option" where
  "mem_get m envelopeId recipient = jsm_get m (keyOf envelopeId recipient)"

definition due_at :: "time \<Rightarrow> queue_state \<Rightarrow> bool" where
  "due_at now q =
     (if isTerminalState (q_state q) then False
      else case q_next_attempt_at q of None \<Rightarrow> False | Some t \<Rightarrow> t \<le> now)"

text \<open>The comparison of \<open>dueRecords\<close>: by time, then by envelope id; ties keep their order.\<close>

definition mem_due :: "mem_store \<Rightarrow> time \<Rightarrow> queue_state list" where
  "mem_due m now =
     sort_key (\<lambda>q. (default_to 0 (q_next_attempt_at q), q_envelope_id q))
       (filter (due_at now) (map snd m))"

definition terminal_by :: "time \<Rightarrow> queue_state \<Rightarrow> bool" where
  "terminal_by cutoff q =
     (isTerminalState (q_state q) \<and> (case q_terminal_at q of None \<Rightarrow> False | Some t \<Rightarrow> t \<le> cutoff))"

definition mem_old :: "mem_store \<Rightarrow> time \<Rightarrow> queue_state list" where
  "mem_old m cutoff = filter (terminal_by cutoff) (map snd m)"

definition mem_delete :: "jstr \<Rightarrow> jstr \<Rightarrow> mem_store \<Rightarrow> mem_store" where
  "mem_delete envelopeId recipient m = jsm_delete (keyOf envelopeId recipient) m"

definition mem :: "mem_store store_ops" where
  "mem = \<lparr>so_put = mem_put, so_get = mem_get, so_due = mem_due, so_old = mem_old,
          so_delete = mem_delete\<rparr>"

end
