(* ===== verification/SchedulerProofs.thy ===== *)
theory SchedulerProofs
  imports Scheduler
begin

text \<open>
  The guarantees of the delivery scheduler over any store that keeps the laws of
  the interface: terminal states are final, an event leaves exactly when a record
  becomes terminal, every record is resolved at its deadline, and whole-envelope
  cancellation leaves nothing queued. The laws are discharged for the in-memory store.
\<close>

section \<open>Updates of one record\<close>

lemma setTerminal_simps [simp]:
  "q_envelope_id (setTerminal q s now) = q_envelope_id q"
  "q_recipient (setTerminal q s now) = q_recipient q"
  "q_deadline (setTerminal q s now) = q_deadline q"
  by (simp_all add: setTerminal_def)

lemma setTerminal_queued:
  "q_state q = Queued \<Longrightarrow> s \<noteq> Queued \<Longrightarrow>
   setTerminal q s now = q\<lparr>q_state := s, q_next_attempt_at := None, q_terminal_at := Some (isoSecond now)\<rparr>"
  by (simp add: setTerminal_def isTerminalState_def)

text \<open>The event a record that just became terminal is announced with.\<close>

definition announces :: "sched_config \<Rightarrow> queue_state \<Rightarrow> submission_event list \<Rightarrow> bool" where
  "announces cfg q evs \<longleftrightarrow>
     (if sc_sink cfg then \<exists>ev. evs = [ev] \<and> ev_envelope_id ev = q_envelope_id q \<and>
         ev_recipient ev = q_recipient q \<and> ev_reason_code ev = None \<and>
         (ev_status ev = StDelivered \<longleftrightarrow> q_state q = Delivered)
      else evs = [])"

lemma emit_Inr: "emit cfg wall q reason = Inr evs \<Longrightarrow> announces cfg q evs"
  by (auto simp: emit_def announces_def newSubmissionEvent_def bindR_eq_Inr Let_def split: if_splits)

lemma emit_ok:
  "q_envelope_id q \<noteq> [] \<Longrightarrow> q_recipient q \<noteq> [] \<Longrightarrow> \<exists>evs. emit cfg wall q reason = Inr evs"
  by (simp add: emit_def newSubmissionEvent_def Let_def)

lemma transition_Inr:
  assumes "transitionTerminal cfg q s now reason = Inr (q', evs) \<or> (s = Expired \<and> transitionExpired cfg q now = Inr (q', evs))"
    and "q_state q = Queued" "s \<noteq> Queued"
  shows "q' = q\<lparr>q_state := s, q_next_attempt_at := None, q_terminal_at := Some (isoSecond now)\<rparr> \<and> announces cfg q' evs"
  using assms
  by (auto simp: transitionTerminal_def transitionExpired_def isTerminalState_def bindR_eq_Inr Let_def
      setTerminal_queued dest: emit_Inr)

text \<open>
  What one round of \<open>tick\<close> does to a queued record: its identity and deadline stay;
  it becomes terminal with an event, or stays queued with a later attempt before the deadline.
\<close>

definition advances :: "sched_config \<Rightarrow> time \<Rightarrow> queue_state \<Rightarrow> queue_state \<Rightarrow> submission_event list \<Rightarrow> bool" where
  "advances cfg now q q' evs \<longleftrightarrow>
     q_envelope_id q' = q_envelope_id q \<and> q_recipient q' = q_recipient q \<and> q_deadline q' = q_deadline q \<and>
     (if q_state q' = Queued
      then evs = [] \<and> now < q_deadline q \<and> q_terminal_at q' = q_terminal_at q \<and> q_attempts q' = Suc (q_attempts q) \<and>
        (\<exists>t. q_next_attempt_at q' = Some t \<and> t \<le> q_deadline q)
      else announces cfg q' evs \<and> q_next_attempt_at q' = None \<and> q_terminal_at q' = Some (isoSecond now))"

lemma recordAttempt_simps [simp]:
  "q_envelope_id (recordAttempt q now res) = q_envelope_id q"
  "q_recipient (recordAttempt q now res) = q_recipient q"
  "q_deadline (recordAttempt q now res) = q_deadline q"
  "q_state (recordAttempt q now res) = q_state q"
  "q_terminal_at (recordAttempt q now res) = q_terminal_at q"
  "q_attempts (recordAttempt q now res) = Suc (q_attempts q)"
  by (simp_all add: recordAttempt_def)

lemma runAttempt_advances:
  assumes "runAttempt cfg now res r q = Inr (q', evs)" "q_state q = Queued" "now < q_deadline q"
  shows "advances cfg now q q' evs"
proof -
  let ?q1 = "recordAttempt q now res"
  let ?next = "case nextAttemptAt (sc_retry cfg) now (int (q_attempts ?q1) - 1) r of Inl _ \<Rightarrow> now + 1000 | Inr t \<Rightarrow> t"
  consider s reason where "transitionTerminal cfg ?q1 s now reason = Inr (q', evs)" "s \<noteq> Queued"
    | "transitionExpired cfg ?q1 now = Inr (q', evs)"
    | "?next \<le> q_deadline q" "q' = ?q1\<lparr>q_next_attempt_at := Some (isoSecond ?next)\<rparr>" "evs = []"
    using assms(1) unfolding runAttempt_def Let_def
    by (auto split: if_splits)
  then show ?thesis
  proof cases
    case 1
    with transition_Inr [of cfg ?q1 s now reason q' evs] assms(2) show ?thesis by (auto simp: advances_def)
  next
    case 2
    with transition_Inr [of cfg ?q1 Expired now None q' evs] assms(2) show ?thesis by (auto simp: advances_def)
  next
    case 3
    with isoSecond_le [of ?next] assms(2,3) show ?thesis by (auto simp: advances_def)
  qed
qed

lemma attemptOutcome_advances:
  assumes "attemptOutcome cfg now env q = Inr (q', evs)" "q_state q = Queued"
  shows "advances cfg now q q' evs"
proof (cases "now \<ge> q_deadline q")
  case True
  with assms have "transitionExpired cfg q now = Inr (q', evs)" by (simp add: attemptOutcome_def)
  with transition_Inr [of cfg q Expired now None q' evs] assms(2) show ?thesis by (auto simp: advances_def)
next
  case False
  with assms obtain res where "runAttempt cfg now res (en_rand env (q_envelope_id q) (q_recipient q)) q = Inr (q', evs)"
    by (auto simp: attemptOutcome_def split: option.splits)
  with False assms(2) show ?thesis by (intro runAttempt_advances) auto
qed

lemma attemptOutcome_expires:
  assumes "now \<ge> q_deadline q" "q_state q = Queued" "q_envelope_id q \<noteq> []" "q_recipient q \<noteq> []"
  shows "\<exists>q' evs. attemptOutcome cfg now env q = Inr (q', evs) \<and> q_state q' = Expired"
proof -
  obtain evs where "emit cfg now (setTerminal q Expired now) None = Inr evs"
    using emit_ok [of "setTerminal q Expired now" cfg now None] assms by auto
  with assms(1,2) show ?thesis
    by (simp add: attemptOutcome_def transitionExpired_def isTerminalState_def setTerminal_def)
qed

text \<open>The record after its round: unchanged when the round failed.\<close>

definition after_round :: "sched_config \<Rightarrow> time \<Rightarrow> sched_env \<Rightarrow> queue_state \<Rightarrow> queue_state" where
  "after_round cfg now env q =
     (case attemptOutcome cfg now env q of Inl _ \<Rightarrow> q | Inr (q', _) \<Rightarrow> q')"

section \<open>Changes of one record\<close>

definition lookup :: "'s store_ops \<Rightarrow> 's sched \<Rightarrow> jstr \<Rightarrow> jstr \<Rightarrow> queue_state option" where
  "lookup S st e r = so_get S (sd_store st) e r"

definition about :: "jstr \<Rightarrow> jstr \<Rightarrow> submission_event list \<Rightarrow> submission_event list" where
  "about e r evs = filter (\<lambda>ev. ev_envelope_id ev = e \<and> ev_recipient ev = r) evs"

lemma about_append [simp]: "about e r (xs @ ys) = about e r xs @ about e r ys"
  by (simp add: about_def)

lemma about_announces:
  "announces cfg q evs \<Longrightarrow>
   about e r evs = (if e = q_envelope_id q \<and> r = q_recipient q then evs else [])"
  by (auto simp: announces_def about_def split: if_splits)

text \<open>
  How one record may change: not at all, or from queued, and then with its event
  when it becomes terminal. Successive changes compose.
\<close>

definition progress ::
  "sched_config \<Rightarrow> queue_state option \<Rightarrow> queue_state option \<Rightarrow> submission_event list \<Rightarrow> bool"
where
  "progress cfg a b evs \<longleftrightarrow>
     (a = b \<and> evs = []) \<or>
     (\<exists>q q'. a = Some q \<and> b = Some q' \<and> q_state q = Queued \<and>
        (if q_state q' = Queued then evs = [] else announces cfg q' evs))"

lemma progress_refl: "progress cfg a a []"
  by (simp add: progress_def)

lemma progress_trans:
  "progress cfg a b xs \<Longrightarrow> progress cfg b c ys \<Longrightarrow> progress cfg a c (xs @ ys)"
proof -
  assume ab: "progress cfg a b xs" and bc: "progress cfg b c ys"
  show ?thesis
  proof (cases "a = b \<and> xs = []")
    case True
    with bc show ?thesis by simp
  next
    case False
    with ab obtain q q' where q: "a = Some q" "b = Some q'" "q_state q = Queued"
      "if q_state q' = Queued then xs = [] else announces cfg q' xs"
      by (auto simp: progress_def)
    show ?thesis
    proof (cases "b = c \<and> ys = []")
      case True
      with ab show ?thesis by simp
    next
      case False
      with bc q(2) obtain q'' where "c = Some q''" "q_state q' = Queued"
        "if q_state q'' = Queued then ys = [] else announces cfg q'' ys"
        by (auto simp: progress_def)
      with q show ?thesis by (simp add: progress_def)
    qed
  qed
qed

section \<open>The operations as steps\<close>

datatype sched_op =
    OpEnqueue jstr jstr time
  | OpTick sched_env
  | OpCancel jstr jstr
  | OpCancelEnvelope jstr
  | OpPrune int

text \<open>One operation at the clock reading \<open>now\<close>; a refused \<open>enqueue\<close> changes nothing.\<close>

fun runOp :: "'s store_ops \<Rightarrow> sched_config \<Rightarrow> time \<Rightarrow> sched_op \<Rightarrow> 's sched \<Rightarrow> 's sched" where
  "runOp S cfg now (OpEnqueue e r x) st =
     (case enqueue S cfg now e r x st of Inl _ \<Rightarrow> st | Inr st' \<Rightarrow> st')"
| "runOp S cfg now (OpTick env) st = fst (tick S cfg now env st)"
| "runOp S cfg now (OpCancel e r) st = fst (cancel S cfg now e r st)"
| "runOp S cfg now (OpCancelEnvelope e) st = fst (cancelEnvelope S cfg now e st)"
| "runOp S cfg now (OpPrune ret) st = fst (pruneTerminal S now ret st)"

fun op_ok :: "(jstr \<Rightarrow> bool) \<Rightarrow> sched_op \<Rightarrow> bool" where
  "op_ok addr (OpEnqueue e r x) = addr e"
| "op_ok addr (OpCancel e r) = addr e"
| "op_ok addr _ = True"

text \<open>The states reached by operations at clock readings that do not go back.\<close>

inductive sched_reach ::
  "'s store_ops \<Rightarrow> (jstr \<Rightarrow> bool) \<Rightarrow> 's \<Rightarrow> sched_config \<Rightarrow> time \<Rightarrow> 's sched \<Rightarrow> bool"
  for S addr empty_store cfg
where
  start: "sched_reach S addr empty_store cfg now \<lparr>sd_store = empty_store, sd_events = [], sd_inflight = False\<rparr>"
| step: "sched_reach S addr empty_store cfg clock st \<Longrightarrow> clock \<le> now \<Longrightarrow> op_ok addr op
    \<Longrightarrow> sched_reach S addr empty_store cfg now (runOp S cfg now op st)"

text \<open>A record at a clock reading: queued with an attempt ahead that is due by the deadline,
  or terminal with the time of the transition and no further attempt.\<close>

definition record_ok :: "sched_config \<Rightarrow> time \<Rightarrow> queue_state \<Rightarrow> bool" where
  "record_ok cfg clock q \<longleftrightarrow>
     q_envelope_id q \<noteq> [] \<and> q_recipient q \<noteq> [] \<and>
     q_deadline q \<le> clock + (if sc_horizon cfg \<le> 0 then DefaultMaxRetryHorizonMs
                             else min (sc_horizon cfg) MaxRetryHorizonCapMs) \<and>
     (if q_state q = Queued
      then q_terminal_at q = None \<and> (\<exists>t. q_next_attempt_at q = Some t \<and> t \<le> max clock (q_deadline q))
      else q_next_attempt_at q = None \<and> (\<exists>t. q_terminal_at q = Some t \<and> t \<le> clock))"

lemma record_ok_mono: "record_ok cfg clock q \<Longrightarrow> clock \<le> now \<Longrightarrow> record_ok cfg now q"
  by (fastforce simp: record_ok_def split: if_splits)

lemma record_ok_advances:
  assumes "advances cfg now q q' evs" "record_ok cfg clock q" "clock \<le> now" "q_state q = Queued"
  shows "record_ok cfg now q'"
  using assms isoSecond_le [of now] record_ok_mono [OF assms(2,3)]
  by (fastforce simp: record_ok_def advances_def split: if_splits)

lemma record_ok_setTerminal:
  assumes "record_ok cfg now q" "q_state q = Queued" "s \<noteq> Queued"
  shows "record_ok cfg now (setTerminal q s now)"
  using assms isoSecond_le [of now] by (simp add: record_ok_def setTerminal_queued)

lemma record_ok_after_round:
  assumes "record_ok cfg clock q" "clock \<le> now" "q_state q = Queued"
  shows "record_ok cfg now (after_round cfg now env q)"
  using assms record_ok_mono [OF assms(1,2)] attemptOutcome_advances record_ok_advances
  by (fastforce simp: after_round_def split: sum.splits prod.splits)

section \<open>The laws of the store\<close>

text \<open>
  \<open>addressable\<close> are the envelope ids the store keeps apart; for the in-memory store,
  whose keys join envelope id and recipient with a NUL, those without a NUL.
\<close>

locale scheduler_store =
  fixes S :: "'s store_ops" and ok :: "'s \<Rightarrow> bool" and addressable :: "jstr \<Rightarrow> bool"
    and empty_store :: 's
  assumes ok_empty: "ok empty_store"
    and get_empty: "so_get S empty_store e r = None"
    and get_put: "ok s \<Longrightarrow> addressable (q_envelope_id q) \<Longrightarrow> addressable e \<Longrightarrow>
      so_get S (so_put S q s) e r =
        (if e = q_envelope_id q \<and> r = q_recipient q then Some q else so_get S s e r)"
    and ok_put: "ok s \<Longrightarrow> addressable (q_envelope_id q) \<Longrightarrow> ok (so_put S q s)"
    and get_delete: "ok s \<Longrightarrow> addressable e' \<Longrightarrow> addressable e \<Longrightarrow>
      so_get S (so_delete S e' r' s) e r = (if e = e' \<and> r = r' then None else so_get S s e r)"
    and ok_delete: "ok s \<Longrightarrow> addressable e' \<Longrightarrow> ok (so_delete S e' r' s)"
    and get_id: "ok s \<Longrightarrow> addressable e \<Longrightarrow> so_get S s e r = Some q \<Longrightarrow>
      q_envelope_id q = e \<and> q_recipient q = r"
    and due_iff: "ok s \<Longrightarrow> q \<in> set (so_due S s now) \<longleftrightarrow>
      addressable (q_envelope_id q) \<and> so_get S s (q_envelope_id q) (q_recipient q) = Some q \<and>
      q_state q = Queued \<and> (\<exists>t. q_next_attempt_at q = Some t \<and> t \<le> now)"
    and due_distinct: "ok s \<Longrightarrow> distinct (map (\<lambda>q. (q_envelope_id q, q_recipient q)) (so_due S s now))"
    and old_iff: "ok s \<Longrightarrow> q \<in> set (so_old S s cutoff) \<longleftrightarrow>
      addressable (q_envelope_id q) \<and> so_get S s (q_envelope_id q) (q_recipient q) = Some q \<and>
      q_state q \<noteq> Queued \<and> (\<exists>t. q_terminal_at q = Some t \<and> t \<le> cutoff)"
begin

definition steps_to :: "sched_config \<Rightarrow> 's sched \<Rightarrow> 's sched \<Rightarrow> bool" where
  "steps_to cfg st st' \<longleftrightarrow>
     ok (sd_store st') \<and> (\<forall>e r. addressable e \<longrightarrow>
        (\<exists>evs. about e r (sd_events st') = about e r (sd_events st) @ evs \<and>
           progress cfg (lookup S st e r) (lookup S st' e r) evs))"

lemma steps_to_refl: "ok (sd_store st) \<Longrightarrow> steps_to cfg st st"
  by (auto simp: steps_to_def intro: progress_refl)

lemma steps_to_trans: "steps_to cfg a b \<Longrightarrow> steps_to cfg b c \<Longrightarrow> steps_to cfg a c"
  unfolding steps_to_def by (metis append.assoc progress_trans)

text \<open>Rewriting a list of records that are in the store, each at most once.\<close>

lemma write_one:
  assumes "ok (sd_store st)" "addressable (q_envelope_id q)"
    and "lookup S st (q_envelope_id q) (q_recipient q) = Some q" "q_state q = Queued"
    and "q_envelope_id q' = q_envelope_id q" "q_recipient q' = q_recipient q"
    and "if q_state q' = Queued then evs = [] else announces cfg q' evs"
  shows "steps_to cfg st (st\<lparr>sd_store := so_put S q' (sd_store st), sd_events := sd_events st @ evs\<rparr>)"
proof -
  have "about e r evs = (if e = q_envelope_id q' \<and> r = q_recipient q' then evs else [])" for e r
    using assms(7) about_announces [of cfg q' evs e r] by (cases "q_state q' = Queued") (auto simp: about_def)
  then show ?thesis
    using assms by (auto simp: steps_to_def lookup_def progress_def get_put ok_put)
qed

lemma tickLoop_spec:
  assumes "tickLoop S cfg now env qs st adv err = (st', adv', err')" "ok (sd_store st)"
    and "distinct (map (\<lambda>q. (q_envelope_id q, q_recipient q)) qs)"
    and "\<forall>q \<in> set qs. addressable (q_envelope_id q) \<and> lookup S st (q_envelope_id q) (q_recipient q) = Some q
      \<and> q_state q = Queued"
  shows "steps_to cfg st st' \<and>
    (\<forall>e r. addressable e \<longrightarrow> lookup S st' e r =
       (case lookup S st e r of None \<Rightarrow> None
        | Some q \<Rightarrow> Some (if q \<in> set qs then after_round cfg now env q else q)))"
  using assms
proof (induction qs arbitrary: st adv err)
  case Nil
  then show ?case by (auto intro: steps_to_refl split: option.splits)
next
  case (Cons q qs)
  have q: "addressable (q_envelope_id q)" "lookup S st (q_envelope_id q) (q_recipient q) = Some q"
    "q_state q = Queued" using Cons.prems(4) by simp_all
  have others: "\<forall>p \<in> set qs. \<not> (q_envelope_id p = q_envelope_id q \<and> q_recipient p = q_recipient q)"
    using Cons.prems(3) by (auto simp: image_iff)
  show ?case
  proof (cases "attemptOutcome cfg now env q")
    case (Inl x)
    then have "tickLoop S cfg now env qs st adv (if err = None then Some x else err) = (st', adv', err')"
      using Cons.prems(1) q(3) by (simp add: isTerminalState_def)
    from Cons.IH [OF this Cons.prems(2)] Cons.prems(3,4) have
      IH: "steps_to cfg st st'" "\<And>e r. addressable e \<Longrightarrow> lookup S st' e r = (case lookup S st e r of None \<Rightarrow> None
        | Some q \<Rightarrow> Some (if q \<in> set qs then after_round cfg now env q else q))" by simp_all
    have "after_round cfg now env q = q" using Inl by (simp add: after_round_def)
    then have same: "(if p \<in> set qs then after_round cfg now env p else p)
        = (if p \<in> set (q # qs) then after_round cfg now env p else p)" for p by simp
    show ?thesis using IH unfolding same by blast
  next
    case (Inr y)
    obtain q' evs where y: "y = (q', evs)" by force
    let ?st = "st\<lparr>sd_store := so_put S q' (sd_store st), sd_events := sd_events st @ evs\<rparr>"
    have loop: "tickLoop S cfg now env qs ?st (adv + 1) err = (st', adv', err')"
      using Cons.prems(1) q(3) Inr y by (simp add: isTerminalState_def)
    have adv: "advances cfg now q q' evs" using attemptOutcome_advances Inr y q(3) by blast
    then have id: "q_envelope_id q' = q_envelope_id q" "q_recipient q' = q_recipient q" by (simp_all add: advances_def)
    have first: "steps_to cfg st ?st"
      by (rule write_one) (use adv q Cons.prems(2) id in \<open>auto simp: advances_def\<close>)
    have look: "lookup S ?st e r = (if e = q_envelope_id q \<and> r = q_recipient q then Some q' else lookup S st e r)"
      if "addressable e" for e r using that Cons.prems(2) q(1) id by (simp add: lookup_def get_put)
    have rest: "steps_to cfg ?st st' \<and>
      (\<forall>e r. addressable e \<longrightarrow> lookup S st' e r =
       (case lookup S ?st e r of None \<Rightarrow> None
        | Some q \<Rightarrow> Some (if q \<in> set qs then after_round cfg now env q else q)))"
    proof (rule Cons.IH [OF loop])
      show "ok (sd_store ?st)" using first by (simp add: steps_to_def)
      show "distinct (map (\<lambda>q. (q_envelope_id q, q_recipient q)) qs)" using Cons.prems(3) by simp
      show "\<forall>p \<in> set qs. addressable (q_envelope_id p) \<and>
          lookup S ?st (q_envelope_id p) (q_recipient p) = Some p \<and> q_state p = Queued"
        using Cons.prems(4) others look by auto
    qed
    have q'_fresh: "q' \<notin> set qs" using others id by auto
    have all: "lookup S st' e r = (case lookup S st e r of None \<Rightarrow> None
        | Some p \<Rightarrow> Some (if p \<in> set (q # qs) then after_round cfg now env p else p))"
      if "addressable e" for e r
    proof (cases "e = q_envelope_id q \<and> r = q_recipient q")
      case True
      with look [OF that] have "lookup S ?st e r = Some q'" by simp
      then have "lookup S st' e r = Some q'" using rest that q'_fresh by simp
      with True q Inr y show ?thesis by (simp add: after_round_def)
    next
      case False
    then have ne: "lookup S st e r \<noteq> Some q"
      using get_id [OF Cons.prems(2) that, of r q] unfolding lookup_def by blast
      have "lookup S ?st e r = lookup S st e r" using False unfolding look [OF that] by (rule if_not_P)
      with rest that have "lookup S st' e r = (case lookup S st e r of None \<Rightarrow> None
        | Some q \<Rightarrow> Some (if q \<in> set qs then after_round cfg now env q else q))" by simp
      with ne show ?thesis by (cases "lookup S st e r") auto
    qed
    from rest have "steps_to cfg ?st st'" by (rule conjunct1)
    with first have "steps_to cfg st st'" by (rule steps_to_trans)
    with all show ?thesis by (intro conjI allI impI)
  qed
qed

lemma steps_to_final:
  assumes "steps_to cfg st st'" "addressable e" "lookup S st e r = Some q" "q_state q \<noteq> Queued"
  shows "lookup S st' e r = Some q \<and> about e r (sd_events st') = about e r (sd_events st)"
proof -
  from assms(1,2) obtain evs where evs: "about e r (sd_events st') = about e r (sd_events st) @ evs"
    "progress cfg (lookup S st e r) (lookup S st' e r) evs" unfolding steps_to_def by blast
  with assms(3,4) have "lookup S st' e r = Some q" "evs = []" by (simp_all add: progress_def)
  with evs show ?thesis by simp
qed

lemma steps_to_events:
  assumes "sd_store st' = sd_store st" "sd_events st' = sd_events st" "ok (sd_store st)"
  shows "steps_to cfg st st'"
  unfolding steps_to_def using assms
  by (metis append_Nil2 lookup_def progress_refl)

lemma tick_spec:
  assumes "ok (sd_store st)" "\<not> sd_inflight st"
  shows "steps_to cfg st (fst (tick S cfg now env st)) \<and> \<not> sd_inflight (fst (tick S cfg now env st)) \<and>
    (\<forall>e r. addressable e \<longrightarrow> lookup S (fst (tick S cfg now env st)) e r =
       (case lookup S st e r of None \<Rightarrow> None
        | Some q \<Rightarrow> Some (if q_state q = Queued \<and> (\<exists>t. q_next_attempt_at q = Some t \<and> t \<le> now)
            then after_round cfg now env q else q)))"
proof -
  let ?st = "st\<lparr>sd_inflight := True\<rparr>" and ?due = "so_due S (sd_store st) now"
  obtain st' adv err where loop: "tickLoop S cfg now env ?due ?st 0 None = (st', adv, err)"
    by (metis prod_cases3)
  have spec: "steps_to cfg ?st st' \<and> (\<forall>e r. addressable e \<longrightarrow> lookup S st' e r =
       (case lookup S ?st e r of None \<Rightarrow> None
        | Some q \<Rightarrow> Some (if q \<in> set ?due then after_round cfg now env q else q)))"
    by (rule tickLoop_spec [OF loop]) (use assms due_distinct due_iff in \<open>auto simp: lookup_def\<close>)
  have tick: "fst (tick S cfg now env st) = st'\<lparr>sd_inflight := False\<rparr>"
    using assms(2) loop by (simp add: tick_def)
  have look: "lookup S (st'\<lparr>sd_inflight := False\<rparr>) e r = lookup S st' e r"
    "lookup S ?st e r = lookup S st e r" for e r by (simp_all add: lookup_def)
  have "steps_to cfg st ?st" "steps_to cfg st' (st'\<lparr>sd_inflight := False\<rparr>)"
    by (rule steps_to_events; use assms(1) spec in \<open>simp add: steps_to_def\<close>)+
  with spec have "steps_to cfg st (st'\<lparr>sd_inflight := False\<rparr>)" using steps_to_trans by blast
  moreover have "lookup S st' e r = (case lookup S st e r of None \<Rightarrow> None
        | Some q \<Rightarrow> Some (if q_state q = Queued \<and> (\<exists>t. q_next_attempt_at q = Some t \<and> t \<le> now)
            then after_round cfg now env q else q))" if e: "addressable e" for e r
  proof (cases "lookup S st e r")
    case None
    with spec e look show ?thesis by simp
  next
    case (Some q)
    then have "q_envelope_id q = e \<and> q_recipient q = r"
      using get_id assms(1) e by (simp add: lookup_def)
    then have "q \<in> set ?due \<longleftrightarrow> q_state q = Queued \<and> (\<exists>t. q_next_attempt_at q = Some t \<and> t \<le> now)"
      using Some e assms(1) by (simp add: due_iff lookup_def)
    with Some spec e look show ?thesis by simp
  qed
  ultimately show ?thesis by (simp add: tick look)
qed

lemma cancelRecord_spec:
  assumes "cancelRecord S cfg now reason q st = (st', res)" "ok (sd_store st)"
    and "addressable (q_envelope_id q)" "lookup S st (q_envelope_id q) (q_recipient q) = Some q"
    and "q_state q = Queued" "q_envelope_id q \<noteq> []" "q_recipient q \<noteq> []"
  shows "steps_to cfg st st'" "res = Inr ()" "sd_inflight st' = sd_inflight st"
    "addressable e \<Longrightarrow> lookup S st' e r =
      (if e = q_envelope_id q \<and> r = q_recipient q then Some (setTerminal q Canceled now) else lookup S st e r)"
proof -
  let ?q = "setTerminal q Canceled now"
  obtain evs where evs: "emit cfg now ?q (Some reason) = Inr evs"
    using emit_ok [of ?q cfg now "Some reason"] assms(6,7) by auto
  then have st': "st' = st\<lparr>sd_store := so_put S ?q (sd_store st), sd_events := sd_events st @ evs\<rparr>"
    and res: "res = Inr ()" using assms(1) by (auto simp: cancelRecord_def Let_def)
  show "res = Inr ()" "sd_inflight st' = sd_inflight st" by (simp_all add: res st')
  show "steps_to cfg st st'" unfolding st'
    by (rule write_one) (use assms emit_Inr [OF evs] in \<open>simp_all add: setTerminal_queued\<close>)
  show "addressable e \<Longrightarrow> lookup S st' e r =
      (if e = q_envelope_id q \<and> r = q_recipient q then Some ?q else lookup S st e r)"
    using assms(2,3) by (simp add: lookup_def st' get_put)
qed

lemma cancelLoop_spec:
  assumes "cancelLoop S cfg now qs st out = (st', res)" "ok (sd_store st)"
    and "distinct (map (\<lambda>q. (q_envelope_id q, q_recipient q)) qs)"
    and "\<forall>q \<in> set qs. addressable (q_envelope_id q) \<and> lookup S st (q_envelope_id q) (q_recipient q) = Some q
      \<and> q_state q = Queued \<and> q_envelope_id q \<noteq> [] \<and> q_recipient q \<noteq> []"
  shows "steps_to cfg st st' \<and> sd_inflight st' = sd_inflight st \<and> isInr res \<and>
    (\<forall>e r. addressable e \<longrightarrow> lookup S st' e r =
       (case lookup S st e r of None \<Rightarrow> None
        | Some q \<Rightarrow> Some (if q \<in> set qs then setTerminal q Canceled now else q)))"
  using assms
proof (induction qs arbitrary: st out)
  case Nil
  then show ?case by (auto intro: steps_to_refl split: option.splits)
next
  case (Cons q qs)
  have q: "addressable (q_envelope_id q)" "lookup S st (q_envelope_id q) (q_recipient q) = Some q"
    "q_state q = Queued" "q_envelope_id q \<noteq> []" "q_recipient q \<noteq> []" using Cons.prems(4) by simp_all
  have others: "\<forall>p \<in> set qs. \<not> (q_envelope_id p = q_envelope_id q \<and> q_recipient p = q_recipient q)"
    using Cons.prems(3) by (auto simp: image_iff)
  obtain st1 res1 where one: "cancelRecord S cfg now (js ''client-initiated whole-envelope cancellation'') q st = (st1, res1)"
    by force
  note spec = cancelRecord_spec [OF one Cons.prems(2) q]
  have ok1: "ok (sd_store st1)" using spec(1) by (simp add: steps_to_def)
  from Cons.prems(1) q(3) one spec(2) have loop: "cancelLoop S cfg now qs st1
      (out @ [\<lparr>cr_recipient = q_recipient q, cr_state = Canceled, cr_no_op = False\<rparr>]) = (st', res)"
    by (simp add: isTerminalState_def)
  have prem: "\<forall>p \<in> set qs. addressable (q_envelope_id p) \<and>
      lookup S st1 (q_envelope_id p) (q_recipient p) = Some p \<and> q_state p = Queued
      \<and> q_envelope_id p \<noteq> [] \<and> q_recipient p \<noteq> []"
    using Cons.prems(4) others by (auto simp: spec(4))
  from Cons.prems(3) have dist: "distinct (map (\<lambda>q. (q_envelope_id q, q_recipient q)) qs)" by simp
  note IH = Cons.IH [OF loop ok1 dist prem]
  have fresh: "setTerminal q Canceled now \<notin> set qs" using others by auto
  have look: "lookup S st' e r = (case lookup S st e r of None \<Rightarrow> None
        | Some p \<Rightarrow> Some (if p \<in> set (q # qs) then setTerminal p Canceled now else p))"
    if e: "addressable e" for e r
  proof (cases "e = q_envelope_id q \<and> r = q_recipient q")
    case True
    with spec(4) [OF e] have "lookup S st1 e r = Some (setTerminal q Canceled now)" by simp
    with IH e fresh True q show ?thesis by simp
  next
    case False
    then have ne: "lookup S st e r \<noteq> Some q"
      using get_id [OF Cons.prems(2) e, of r q] unfolding lookup_def by blast
    have "lookup S st1 e r = lookup S st e r" using False unfolding spec(4) [OF e] by (rule if_not_P)
    with IH e ne show ?thesis by (cases "lookup S st e r") auto
  qed
  have "steps_to cfg st1 st'" "sd_inflight st' = sd_inflight st1" "isInr res"
    using IH by blast+
  with steps_to_trans [OF spec(1)] spec(3) have
    "steps_to cfg st st'" "sd_inflight st' = sd_inflight st" "isInr res" by simp_all
  with look show ?case by (intro conjI allI impI)
qed

lemma fold_delete:
  assumes "ok s" "\<forall>q \<in> set qs. addressable (q_envelope_id q)"
  shows "ok (fold (\<lambda>q. so_delete S (q_envelope_id q) (q_recipient q)) qs s) \<and>
    (\<forall>e r. addressable e \<longrightarrow>
      so_get S (fold (\<lambda>q. so_delete S (q_envelope_id q) (q_recipient q)) qs s) e r =
      (if \<exists>q \<in> set qs. e = q_envelope_id q \<and> r = q_recipient q then None else so_get S s e r))"
  using assms by (induction qs arbitrary: s) (auto simp: ok_delete get_delete)

text \<open>The invariant of the reachable states.\<close>

definition inv :: "sched_config \<Rightarrow> time \<Rightarrow> 's sched \<Rightarrow> bool" where
  "inv cfg clock st \<longleftrightarrow> ok (sd_store st) \<and> \<not> sd_inflight st \<and>
     (\<forall>e r q. addressable e \<longrightarrow> lookup S st e r = Some q \<longrightarrow> record_ok cfg clock q)"

lemma inv_record: "inv cfg clock st \<Longrightarrow> addressable e \<Longrightarrow> lookup S st e r = Some q \<Longrightarrow> record_ok cfg clock q"
  by (simp add: inv_def)

lemma inv_mono: "inv cfg clock st \<Longrightarrow> clock \<le> now \<Longrightarrow> inv cfg now st"
  unfolding inv_def using record_ok_mono by blast

lemma lookup_id:
  "ok (sd_store st) \<Longrightarrow> addressable e \<Longrightarrow> lookup S st e r = Some q \<Longrightarrow> q_envelope_id q = e \<and> q_recipient q = r"
  unfolding lookup_def by (rule get_id)

lemma enqueue_spec:
  assumes "enqueue S cfg now e r x st = Inr st'" "ok (sd_store st)" "addressable e"
  shows "ok (sd_store st')" "sd_inflight st' = sd_inflight st" "sd_events st' = sd_events st"
    "lookup S st e r = None" "e \<noteq> []" "r \<noteq> []"
    "\<exists>q. record_ok cfg now q \<and> q_state q = Queued \<and> (\<forall>e' r'. addressable e' \<longrightarrow>
        lookup S st' e' r' = (if e' = e \<and> r' = r then Some q else lookup S st e' r'))"
proof -
  let ?d = "effectiveDeadline (Some x) now (Some (sc_horizon cfg))"
  let ?q = "\<lparr>q_envelope_id = e, q_recipient = r, q_state = Queued,
                 q_attempts = 0, q_last_attempt_at = None, q_last_outcome = None,
                 q_last_reason_code = None, q_next_attempt_at = Some (isoSecond now),
                 q_deadline = isoSecond ?d, q_terminal_at = None\<rparr>"
  from assms(1) have e: "e \<noteq> []" "r \<noteq> []" "lookup S st e r = None"
    "st' = st\<lparr>sd_store := so_put S ?q (sd_store st)\<rparr>"
    by (auto simp: enqueue_def lookup_def Let_def split: if_splits)
  then show "lookup S st e r = None" "e \<noteq> []" "r \<noteq> []" "sd_inflight st' = sd_inflight st"
    "sd_events st' = sd_events st" "ok (sd_store st')"
    using assms(2,3) by (simp_all add: ok_put)
  have "isoSecond ?d \<le> now + (if sc_horizon cfg \<le> 0 then DefaultMaxRetryHorizonMs
                             else min (sc_horizon cfg) MaxRetryHorizonCapMs)"
    using isoSecond_le [of ?d] deadline_le [of "Some x" now "Some (sc_horizon cfg)"]
    unfolding default_to_def option.case by (rule order_trans)
  then have "record_ok cfg now ?q"
    using e(1,2) isoSecond_le [of now] by (simp add: record_ok_def)
  moreover have "\<forall>e' r'. addressable e' \<longrightarrow>
        lookup S st' e' r' = (if e' = e \<and> r' = r then Some ?q else lookup S st e' r')"
    using assms(2,3) by (simp add: e(4) lookup_def get_put)
  ultimately show "\<exists>q. record_ok cfg now q \<and> q_state q = Queued \<and> (\<forall>e' r'. addressable e' \<longrightarrow>
        lookup S st' e' r' = (if e' = e \<and> r' = r then Some q else lookup S st e' r'))"
    by (intro exI [of _ ?q]) simp
qed

lemma cancel_spec:
  assumes "inv cfg now st" "addressable e"
  shows "steps_to cfg st (fst (cancel S cfg now e r st)) \<and>
    \<not> sd_inflight (fst (cancel S cfg now e r st)) \<and>
    (\<forall>e' r' q. addressable e' \<longrightarrow> lookup S (fst (cancel S cfg now e r st)) e' r' = Some q \<longrightarrow>
       lookup S st e' r' = Some q \<or>
       (\<exists>p. lookup S st e' r' = Some p \<and> q_state p = Queued \<and> q = setTerminal p Canceled now))"
proof -
  have ok: "ok (sd_store st)" "\<not> sd_inflight st" using assms(1) by (simp_all add: inv_def)
  show ?thesis
  proof (cases "\<exists>q. lookup S st e r = Some q \<and> q_state q = Queued")
    case False
    then have "fst (cancel S cfg now e r st) = st"
      by (auto simp: cancel_def lookup_def isTerminalState_def split: option.splits)
    with ok show ?thesis by (simp add: steps_to_refl)
  next
    case True
    then obtain q where q: "lookup S st e r = Some q" "q_state q = Queued" by blast
    have id: "q_envelope_id q = e" "q_recipient q = r" using lookup_id ok(1) assms(2) q(1) by blast+
    have ne: "e \<noteq> []" "r \<noteq> []" using inv_record [OF assms q(1)] id by (auto simp: record_ok_def)
    obtain st' res where one: "cancelRecord S cfg now (js ''client-initiated cancellation'') q st = (st', res)"
      by force
    have st': "fst (cancel S cfg now e r st) = st'"
      using q one unfolding lookup_def by (cases res) (simp_all add: cancel_def isTerminalState_def)
    have spec: "steps_to cfg st st'" "sd_inflight st' = sd_inflight st"
      and look: "\<And>e' r'. addressable e' \<Longrightarrow> lookup S st' e' r' =
        (if e' = e \<and> r' = r then Some (setTerminal q Canceled now) else lookup S st e' r')"
      using cancelRecord_spec [OF one ok(1)] q id ne assms(2) by simp_all
    have "lookup S st e' r' = Some p \<or>
       (\<exists>p'. lookup S st e' r' = Some p' \<and> q_state p' = Queued \<and> p = setTerminal p' Canceled now)"
      if "addressable e'" "lookup S st' e' r' = Some p" for e' r' p
      using look [OF that(1), of r'] that(2) q by (cases "e' = e \<and> r' = r") auto
    with spec ok(2) show ?thesis unfolding st' by simp
  qed
qed

lemma cancelEnvelope_spec:
  assumes "inv cfg now st"
  shows "steps_to cfg st (fst (cancelEnvelope S cfg now e st)) \<and>
    \<not> sd_inflight (fst (cancelEnvelope S cfg now e st)) \<and>
    (\<forall>e' r'. addressable e' \<longrightarrow> lookup S (fst (cancelEnvelope S cfg now e st)) e' r' =
       (case lookup S st e' r' of None \<Rightarrow> None
        | Some q \<Rightarrow> Some (if e \<noteq> [] \<and> e' = e \<and> q_state q = Queued \<and>
             (\<exists>t. q_next_attempt_at q = Some t \<and> t \<le> now + sc_horizon cfg * 2)
           then setTerminal q Canceled now else q)))"
proof -
  have ok: "ok (sd_store st)" "\<not> sd_inflight st" using assms by (simp_all add: inv_def)
  show ?thesis
  proof (cases "e = []")
    case True
    then have "fst (cancelEnvelope S cfg now e st) = st" by (simp add: cancelEnvelope_def)
    with ok True show ?thesis by (auto simp: steps_to_refl split: option.splits)
  next
    case False
    let ?due = "so_due S (sd_store st) (now + sc_horizon cfg * 2)"
    let ?m = "filter (\<lambda>q. q_envelope_id q = e) ?due"
    obtain st' res where loop: "cancelLoop S cfg now ?m st [] = (st', res)" by force
    have st': "fst (cancelEnvelope S cfg now e st) = st'"
      using False loop by (simp add: cancelEnvelope_def)
    have dist: "distinct (map (\<lambda>q. (q_envelope_id q, q_recipient q)) ?m)"
      using due_distinct [OF ok(1)] by (rule distinct_map_filter)
    have mem: "\<forall>q \<in> set ?m. addressable (q_envelope_id q) \<and> lookup S st (q_envelope_id q) (q_recipient q) = Some q
      \<and> q_state q = Queued \<and> q_envelope_id q \<noteq> [] \<and> q_recipient q \<noteq> []"
    proof
      fix q assume "q \<in> set ?m"
      then have q: "addressable (q_envelope_id q)" "lookup S st (q_envelope_id q) (q_recipient q) = Some q"
        "q_state q = Queued" using ok(1) by (auto simp: due_iff lookup_def)
      with inv_record [OF assms q(1,2)] show "addressable (q_envelope_id q) \<and> lookup S st (q_envelope_id q) (q_recipient q) = Some q
        \<and> q_state q = Queued \<and> q_envelope_id q \<noteq> [] \<and> q_recipient q \<noteq> []" by (simp add: record_ok_def)
    qed
    note spec = cancelLoop_spec [OF loop ok(1) dist mem]
    have "lookup S st' e' r' = (case lookup S st e' r' of None \<Rightarrow> None
        | Some q \<Rightarrow> Some (if e \<noteq> [] \<and> e' = e \<and> q_state q = Queued \<and>
             (\<exists>t. q_next_attempt_at q = Some t \<and> t \<le> now + sc_horizon cfg * 2)
           then setTerminal q Canceled now else q))" if a: "addressable e'" for e' r'
    proof (cases "lookup S st e' r'")
      case None
      with spec a show ?thesis by simp
    next
      case (Some q)
      have id: "q_envelope_id q = e'" "q_recipient q = r'" using lookup_id ok(1) a Some by blast+
      have "q \<in> set ?m \<longleftrightarrow> e' = e \<and> q_state q = Queued \<and>
             (\<exists>t. q_next_attempt_at q = Some t \<and> t \<le> now + sc_horizon cfg * 2)"
        using Some id a ok(1) by (auto simp: due_iff lookup_def)
      with Some spec a False show ?thesis by simp
    qed
    with spec ok(2) show ?thesis unfolding st' by simp
  qed
qed

lemma prune_spec:
  assumes "ok (sd_store st)"
  shows "ok (sd_store (fst (pruneTerminal S now ret st))) \<and>
    sd_inflight (fst (pruneTerminal S now ret st)) = sd_inflight st \<and>
    sd_events (fst (pruneTerminal S now ret st)) = sd_events st \<and>
    (\<forall>e r. addressable e \<longrightarrow> lookup S (fst (pruneTerminal S now ret st)) e r =
       (case lookup S st e r of None \<Rightarrow> None
        | Some q \<Rightarrow> if q_state q \<noteq> Queued \<and> (\<exists>t. q_terminal_at q = Some t \<and> t \<le> now - ret)
            then None else Some q))"
proof -
  let ?old = "so_old S (sd_store st) (now - ret)"
  have mem: "\<forall>q \<in> set ?old. addressable (q_envelope_id q)" using assms by (simp add: old_iff)
  note del = fold_delete [OF assms mem]
  let ?st = "fst (pruneTerminal S now ret st)"
  have st: "sd_store ?st = fold (\<lambda>q. so_delete S (q_envelope_id q) (q_recipient q)) ?old (sd_store st)"
    "sd_inflight ?st = sd_inflight st" "sd_events ?st = sd_events st"
    by (simp_all add: pruneTerminal_def Let_def)
  have eq: "(if \<exists>q \<in> set ?old. e = q_envelope_id q \<and> r = q_recipient q then None else lookup S st e r) =
       (case lookup S st e r of None \<Rightarrow> None
        | Some q \<Rightarrow> if q_state q \<noteq> Queued \<and> (\<exists>t. q_terminal_at q = Some t \<and> t \<le> now - ret)
            then None else Some q)" if a: "addressable e" for e r
  proof (cases "lookup S st e r")
    case None
    then show ?thesis by simp
  next
    case (Some q)
    have "q_envelope_id q = e" "q_recipient q = r" using lookup_id assms a Some by blast+
    then have "(\<exists>q \<in> set ?old. e = q_envelope_id q \<and> r = q_recipient q) \<longleftrightarrow>
        q_state q \<noteq> Queued \<and> (\<exists>t. q_terminal_at q = Some t \<and> t \<le> now - ret)"
      using Some a assms by (auto simp: old_iff lookup_def)
    with Some show ?thesis by simp
  qed
  have look: "lookup S ?st e r = (if \<exists>q \<in> set ?old. e = q_envelope_id q \<and> r = q_recipient q then None else lookup S st e r)"
    if "addressable e" for e r using del that unfolding lookup_def st by blast
  have ok: "ok (sd_store ?st)" using del unfolding st by blast
  show ?thesis
  proof (intro conjI allI impI)
    show "lookup S ?st e r = (case lookup S st e r of None \<Rightarrow> None
        | Some q \<Rightarrow> if q_state q \<noteq> Queued \<and> (\<exists>t. q_terminal_at q = Some t \<and> t \<le> now - ret)
            then None else Some q)" if "addressable e" for e r
      using look [OF that] eq [OF that] by (rule trans)
  qed (fact ok st(2) st(3))+
qed

section \<open>What every operation preserves\<close>

lemma runOp_inv:
  assumes "inv cfg clock st" "clock \<le> now" "op_ok addressable op"
  shows "inv cfg now (runOp S cfg now op st)"
proof -
  have now: "inv cfg now st" using inv_mono assms(1,2) by blast
  then have ok: "ok (sd_store st)" "\<not> sd_inflight st" by (simp_all add: inv_def)
  note rec = inv_record [OF now]
  show ?thesis
  proof (cases op)
    case (OpEnqueue e r x)
    show ?thesis
    proof (cases "enqueue S cfg now e r x st")
      case (Inl err)
      with OpEnqueue now show ?thesis by simp
    next
      case (Inr st')
      have "addressable e" using assms(3) OpEnqueue by simp
      note spec = enqueue_spec [OF Inr ok(1) this]
      from spec(7) obtain q where q: "record_ok cfg now q"
        "\<And>e' r'. addressable e' \<Longrightarrow> lookup S st' e' r' = (if e' = e \<and> r' = r then Some q else lookup S st e' r')"
        by blast
      have "record_ok cfg now p" if "addressable e'" "lookup S st' e' r' = Some p" for e' r' p
        using q(2) [OF that(1), of r'] that(2) q(1) rec [OF that(1)] by (auto split: if_splits)
      with spec(1,2) ok(2) show ?thesis unfolding inv_def using OpEnqueue Inr by auto
    qed
  next
    case (OpTick env)
    note spec = tick_spec [OF ok, of cfg now env]
    have "record_ok cfg now q" if a: "addressable e" and l: "lookup S (fst (tick S cfg now env st)) e r = Some q" for e r q
    proof (cases "lookup S st e r")
      case None
      with spec a l show ?thesis by simp
    next
      case (Some p)
      with spec a l rec [OF a Some] record_ok_after_round [of cfg now p now env] show ?thesis
        by (auto split: if_splits)
    qed
    with spec show ?thesis unfolding inv_def OpTick by (auto simp: steps_to_def)
  next
    case (OpCancel e r)
    have "addressable e" using assms(3) OpCancel by simp
    note spec = cancel_spec [OF now this, of r]
    have "record_ok cfg now q" if a: "addressable e'" and l: "lookup S (fst (cancel S cfg now e r st)) e' r' = Some q" for e' r' q
    proof -
      from spec a l consider "lookup S st e' r' = Some q"
        | p where "lookup S st e' r' = Some p" "q_state p = Queued" "q = setTerminal p Canceled now" by blast
      then show ?thesis using rec [OF a] record_ok_setTerminal by cases auto
    qed
    with spec show ?thesis unfolding inv_def OpCancel by (auto simp: steps_to_def)
  next
    case (OpCancelEnvelope e)
    note spec = cancelEnvelope_spec [OF now, of e]
    have "record_ok cfg now q" if a: "addressable e'" and l: "lookup S (fst (cancelEnvelope S cfg now e st)) e' r' = Some q" for e' r' q
    proof (cases "lookup S st e' r'")
      case None
      with spec a l show ?thesis by simp
    next
      case (Some p)
      with spec a l rec [OF a Some] record_ok_setTerminal [of cfg now p Canceled] show ?thesis
        by (auto split: if_splits)
    qed
    with spec show ?thesis unfolding inv_def OpCancelEnvelope by (auto simp: steps_to_def)
  next
    case (OpPrune ret)
    note spec = prune_spec [OF ok(1), of now ret]
    have "record_ok cfg now q" if a: "addressable e" and l: "lookup S (fst (pruneTerminal S now ret st)) e r = Some q" for e r q
      using spec a l rec [OF a] by (cases "lookup S st e r") (auto split: if_splits)
    with spec ok(2) show ?thesis unfolding inv_def OpPrune by auto
  qed
qed

lemma reach_inv: "sched_reach S addressable empty_store cfg clock st \<Longrightarrow> inv cfg clock st"
proof (induction rule: sched_reach.induct)
  case (start now)
  then show ?case by (simp add: inv_def ok_empty lookup_def get_empty)
next
  case (step clock st now op)
  then show ?case using runOp_inv by blast
qed

lemma runOp_progress:
  assumes "inv cfg clock st" "clock \<le> now" "op_ok addressable op" "addressable e"
  shows "\<exists>evs. about e r (sd_events (runOp S cfg now op st)) = about e r (sd_events st) @ evs \<and>
    (progress cfg (lookup S st e r) (lookup S (runOp S cfg now op st) e r) evs \<or>
     evs = [] \<and> lookup S st e r = None \<and>
       (\<exists>q. lookup S (runOp S cfg now op st) e r = Some q \<and> q_state q = Queued) \<or>
     evs = [] \<and> lookup S (runOp S cfg now op st) e r = None \<and>
       (\<exists>ret q t. op = OpPrune ret \<and> lookup S st e r = Some q \<and> q_state q \<noteq> Queued \<and>
          q_terminal_at q = Some t \<and> t \<le> now - ret))"
proof -
  have now: "inv cfg now st" using inv_mono assms(1,2) by blast
  then have ok: "ok (sd_store st)" "\<not> sd_inflight st" by (simp_all add: inv_def)
  have steps: ?thesis if "steps_to cfg st (runOp S cfg now op st)"
    using that assms(4) unfolding steps_to_def by blast
  show ?thesis
  proof (cases op)
    case (OpEnqueue e' r' x)
    show ?thesis
    proof (cases "enqueue S cfg now e' r' x st")
      case (Inl err)
      with OpEnqueue steps steps_to_refl [OF ok(1)] show ?thesis by simp
    next
      case (Inr st')
      have a: "addressable e'" using assms(3) OpEnqueue by simp
      note spec = enqueue_spec [OF Inr ok(1) a]
      from spec(7) obtain q where q: "q_state q = Queued"
        "lookup S st' e r = (if e = e' \<and> r = r' then Some q else lookup S st e r)"
        using assms(4) by blast
      have op: "runOp S cfg now op st = st'" using OpEnqueue Inr by simp
      show ?thesis unfolding op
      proof (intro exI [of _ "[]"] conjI)
        show "progress cfg (lookup S st e r) (lookup S st' e r) [] \<or>
          [] = [] \<and> lookup S st e r = None \<and> (\<exists>q. lookup S st' e r = Some q \<and> q_state q = Queued) \<or>
          [] = [] \<and> lookup S st' e r = None \<and>
            (\<exists>ret q t. op = OpPrune ret \<and> lookup S st e r = Some q \<and> q_state q \<noteq> Queued \<and>
              q_terminal_at q = Some t \<and> t \<le> now - ret)"
        proof (cases "e = e' \<and> r = r'")
          case True
          with q spec(4) show ?thesis by simp
        next
          case False
          then have "lookup S st' e r = lookup S st e r" unfolding q(2) by (rule if_not_P)
          then show ?thesis by (simp add: progress_refl)
        qed
      qed (simp add: spec(3))
    qed
  next
    case (OpTick env)
    with tick_spec [OF ok] steps show ?thesis by simp
  next
    case (OpCancel e' r')
    with cancel_spec [OF now] assms(3) steps show ?thesis by simp
  next
    case (OpCancelEnvelope e')
    with cancelEnvelope_spec [OF now] steps show ?thesis by simp
  next
    case (OpPrune ret)
    let ?st = "fst (pruneTerminal S now ret st)"
    note spec = prune_spec [OF ok(1), of now ret]
    have ev: "sd_events ?st = sd_events st" using spec by blast
    have look: "lookup S ?st e r = (case lookup S st e r of None \<Rightarrow> None
        | Some q \<Rightarrow> if q_state q \<noteq> Queued \<and> (\<exists>t. q_terminal_at q = Some t \<and> t \<le> now - ret)
            then None else Some q)" using spec assms(4) by blast
    show ?thesis
    proof (cases "lookup S ?st e r = lookup S st e r")
      case True
      with OpPrune ev show ?thesis by (auto simp: progress_refl)
    next
      case False
      with look have "lookup S ?st e r = None \<and> (\<exists>q t. lookup S st e r = Some q \<and> q_state q \<noteq> Queued \<and>
          q_terminal_at q = Some t \<and> t \<le> now - ret)"
        by (auto split: option.splits if_splits)
      with OpPrune ev show ?thesis by auto
    qed
  qed
qed

lemma tick_resolves:
  assumes "inv cfg clock st" "clock \<le> now" "addressable e" "lookup S st e r = Some q"
    and "q_state q = Queued" "q_deadline q \<le> now"
  shows "\<exists>q'. lookup S (fst (tick S cfg now env st)) e r = Some q' \<and> q_state q' = Expired"
proof -
  have now: "inv cfg now st" using inv_mono assms(1,2) by blast
  then have ok: "ok (sd_store st)" "\<not> sd_inflight st" by (simp_all add: inv_def)
  have rec: "record_ok cfg clock q" using inv_record assms(1,3,4) by blast
  then have "\<exists>t. q_next_attempt_at q = Some t \<and> t \<le> now"
    using assms(2,5,6) by (auto simp: record_ok_def)
  with tick_spec [OF ok, of cfg now env] assms(3-5)
  have "lookup S (fst (tick S cfg now env st)) e r = Some (after_round cfg now env q)" by simp
  moreover have "q_state (after_round cfg now env q) = Expired"
    using attemptOutcome_expires [OF assms(6,5), of cfg env] rec
    by (auto simp: after_round_def record_ok_def)
  ultimately show ?thesis by blast
qed

lemma cancelEnvelope_complete:
  assumes "inv cfg clock st" "clock \<le> now" "addressable e" "e \<noteq> []" "0 < sc_horizon cfg"
    and "lookup S (fst (cancelEnvelope S cfg now e st)) e r = Some q"
  shows "q_state q \<noteq> Queued"
proof -
  have now: "inv cfg now st" using inv_mono assms(1,2) by blast
  note spec = cancelEnvelope_spec [OF now, of e]
  from spec assms(3,6) obtain p where p: "lookup S st e r = Some p"
    "q = (if q_state p = Queued \<and> (\<exists>t. q_next_attempt_at p = Some t \<and> t \<le> now + sc_horizon cfg * 2)
           then setTerminal p Canceled now else p)"
    using assms(4) by (cases "lookup S st e r") auto
  have "record_ok cfg now p" using inv_record [OF now assms(3) p(1)] .
  then have "q_state p = Queued \<Longrightarrow> \<exists>t. q_next_attempt_at p = Some t \<and> t \<le> now + sc_horizon cfg * 2"
    using assms(5) by (fastforce simp: record_ok_def max_def split: if_splits)
  then show ?thesis using p(2) by (auto simp: setTerminal_def isTerminalState_def split: if_splits)
qed

end

section \<open>The in-memory store keeps the laws\<close>

definition no_nul :: "jstr \<Rightarrow> bool" where
  "no_nul e \<longleftrightarrow> 0 \<notin> set e"

definition mem_ok :: "mem_store \<Rightarrow> bool" where
  "mem_ok m \<longleftrightarrow> jsm_ok m \<and>
     list_all (\<lambda>(k, q). k = keyOf (q_envelope_id q) (q_recipient q) \<and> no_nul (q_envelope_id q)) m"

lemma keyOf_inject:
  assumes "no_nul e" "no_nul e'"
  shows "keyOf e r = keyOf e' r' \<longleftrightarrow> e = e' \<and> r = r'"
proof
  have split: "takeWhile (\<lambda>c. c \<noteq> 0) (keyOf d x) = d" if "no_nul d" for d x
    using that by (auto simp: keyOf_def no_nul_def takeWhile_append)
  assume eq: "keyOf e r = keyOf e' r'"
  have "e = e'" using split [OF assms(1), of r] split [OF assms(2), of r'] eq by simp
  with eq show "e = e' \<and> r = r'" by (simp add: keyOf_def)
qed simp

lemma mem_ok_entry: "mem_ok m \<Longrightarrow> (k, q) \<in> set m \<longleftrightarrow> jsm_get m k = Some q"
  by (simp add: mem_ok_def jsm_entries)

lemma mem_ok_get:
  "mem_ok m \<Longrightarrow> jsm_get m k = Some q \<Longrightarrow> k = keyOf (q_envelope_id q) (q_recipient q) \<and> no_nul (q_envelope_id q)"
  by (auto simp: mem_ok_def list_all_iff dest: map_of_SomeD)

lemma mem_values:
  assumes "mem_ok m"
  shows "q \<in> set (map snd m) \<longleftrightarrow> no_nul (q_envelope_id q) \<and> mem_get m (q_envelope_id q) (q_recipient q) = Some q"
proof
  assume "q \<in> set (map snd m)"
  then obtain k where "(k, q) \<in> set m" by auto
  with assms mem_ok_get [OF assms, of k q] show "no_nul (q_envelope_id q) \<and> mem_get m (q_envelope_id q) (q_recipient q) = Some q"
    by (simp add: mem_ok_entry mem_get_def)
next
  assume "no_nul (q_envelope_id q) \<and> mem_get m (q_envelope_id q) (q_recipient q) = Some q"
  then have "(keyOf (q_envelope_id q) (q_recipient q), q) \<in> set m"
    using assms by (simp add: mem_ok_entry mem_get_def)
  then show "q \<in> set (map snd m)" by force
qed

lemma mem_distinct:
  assumes "mem_ok m"
  shows "distinct (map (\<lambda>q. (q_envelope_id q, q_recipient q)) (map snd m))"
proof -
  have "map (\<lambda>q. keyOf (q_envelope_id q) (q_recipient q)) (map snd m) = map fst m"
    using assms by (auto simp: mem_ok_def list_all_iff)
  moreover have "distinct (map fst m)" using assms by (simp add: mem_ok_def jsm_ok_def)
  ultimately have "distinct (map (\<lambda>q. keyOf (q_envelope_id q) (q_recipient q)) (map snd m))"
    by (rule ssubst)
  then have "distinct (map (\<lambda>(e, r). keyOf e r) (map (\<lambda>q. (q_envelope_id q, q_recipient q)) (map snd m)))"
    by (simp add: o_def)
  then show ?thesis using distinct_map by blast
qed

lemma mem_ok_put: "mem_ok m \<Longrightarrow> no_nul (q_envelope_id q) \<Longrightarrow> mem_ok (mem_put q m)"
proof -
  have "list_all P (jsm_set k q m)" if "list_all P m" "P (k, q)" for P k
    using that by (induction k q m rule: jsm_set.induct) auto
  then show "mem_ok m \<Longrightarrow> no_nul (q_envelope_id q) \<Longrightarrow> mem_ok (mem_put q m)"
    by (simp add: mem_ok_def mem_put_def)
qed

lemma mem_ok_delete: "mem_ok m \<Longrightarrow> mem_ok (mem_delete e r m)"
  by (auto simp: mem_ok_def mem_delete_def jsm_ok_delete) (auto simp: jsm_delete_def list_all_iff)

lemma distinct_map_sort: "distinct (map f (sort_key g xs)) = distinct (map f xs)"
  by (metis mset_map mset_sort mset_eq_imp_distinct_iff)

interpretation ms: scheduler_store mem mem_ok no_nul "[]"
proof unfold_locales
  fix s :: mem_store and q :: queue_state and e e' r r' and now cutoff :: time
  show "mem_ok []" by (simp add: mem_ok_def)
  show "so_get mem [] e r = None" by (simp add: mem_def mem_get_def)
  assume ok: "mem_ok s"
  show "no_nul (q_envelope_id q) \<Longrightarrow> no_nul e \<Longrightarrow> so_get mem (so_put mem q s) e r =
      (if e = q_envelope_id q \<and> r = q_recipient q then Some q else so_get mem s e r)"
    by (auto simp: mem_def mem_get_def mem_put_def keyOf_inject)
  show "no_nul (q_envelope_id q) \<Longrightarrow> mem_ok (so_put mem q s)"
    using ok by (simp add: mem_def mem_ok_put)
  show "no_nul e' \<Longrightarrow> no_nul e \<Longrightarrow> so_get mem (so_delete mem e' r' s) e r =
      (if e = e' \<and> r = r' then None else so_get mem s e r)"
    by (auto simp: mem_def mem_get_def mem_delete_def keyOf_inject)
  show "no_nul e' \<Longrightarrow> mem_ok (so_delete mem e' r' s)"
    using ok by (simp add: mem_def mem_ok_delete)
  show "no_nul e \<Longrightarrow> so_get mem s e r = Some q \<Longrightarrow> q_envelope_id q = e \<and> q_recipient q = r"
    using mem_ok_get [OF ok] keyOf_inject by (fastforce simp: mem_def mem_get_def)
  have vals: "q \<in> snd ` set s \<longleftrightarrow> no_nul (q_envelope_id q) \<and> mem_get s (q_envelope_id q) (q_recipient q) = Some q" for q
    using mem_values [OF ok] by simp
  show "q \<in> set (so_due mem s now) \<longleftrightarrow> no_nul (q_envelope_id q) \<and>
      so_get mem s (q_envelope_id q) (q_recipient q) = Some q \<and> q_state q = Queued \<and>
      (\<exists>t. q_next_attempt_at q = Some t \<and> t \<le> now)"
    by (auto simp: mem_def mem_due_def vals due_at_def isTerminalState_def split: option.splits)
  show "distinct (map (\<lambda>q. (q_envelope_id q, q_recipient q)) (so_due mem s now))"
    using mem_distinct [OF ok]
    by (simp add: mem_def mem_due_def distinct_map_sort distinct_map_filter)
  show "q \<in> set (so_old mem s cutoff) \<longleftrightarrow> no_nul (q_envelope_id q) \<and>
      so_get mem s (q_envelope_id q) (q_recipient q) = Some q \<and> q_state q \<noteq> Queued \<and>
      (\<exists>t. q_terminal_at q = Some t \<and> t \<le> cutoff)"
    by (auto simp: mem_def mem_old_def vals terminal_by_def isTerminalState_def split: option.splits)
qed

section \<open>Properties of the scheduler over the in-memory store\<close>

text \<open>The states of a scheduler on a fresh in-memory store.\<close>

abbreviation mem_reach :: "sched_config \<Rightarrow> time \<Rightarrow> mem_store sched \<Rightarrow> bool" where
  "mem_reach \<equiv> sched_reach mem no_nul []"

text \<open>C12. A terminal state is final: after any further operation (enqueue, tick with any answers
  of the world, either cancellation, prune) a record that was delivered, rejected, expired or canceled
  is unchanged, except that a prune may remove it once its retention has passed.\<close>

theorem terminal_state_is_final:
  assumes "mem_reach cfg clock st" "clock \<le> now" "op_ok no_nul op" "no_nul e"
    and "lookup mem st e r = Some q" "q_state q \<noteq> Queued"
  shows "lookup mem (runOp mem cfg now op st) e r = Some q \<or>
    (\<exists>ret t. op = OpPrune ret \<and> lookup mem (runOp mem cfg now op st) e r = None
       \<and> q_terminal_at q = Some t \<and> t \<le> now - ret)"
  using ms.runOp_progress [OF ms.reach_inv [OF assms(1)] assms(2-4), of r] assms(5,6)
  by (auto simp: progress_def)



text \<open>Whole-envelope cancellation leaves no recipient of the envelope queued, provided the
  configured horizon is positive.\<close>

theorem cancel_envelope_complete:
  assumes "mem_reach cfg clock st" "clock \<le> now" "no_nul e" "e \<noteq> []" "0 < sc_horizon cfg"
    and "lookup mem (fst (cancelEnvelope mem cfg now e st)) e r = Some q"
  shows "q_state q \<noteq> Queued"
  using ms.cancelEnvelope_complete [OF ms.reach_inv [OF assms(1)]] assms(2-6) by blast

section \<open>A run on which the hypotheses hold\<close>

definition demo_cfg :: sched_config where
  "demo_cfg = newScheduler \<lparr>rc_initialIntervalMs = None, rc_multiplier = None, rc_maxIntervalMs = None,
     rc_jitterFraction = None\<rparr> (Some 3600000) True"

definition demo_start :: "mem_store sched" where
  "demo_start = \<lparr>sd_store = [], sd_events = [], sd_inflight = False\<rparr>"

definition demo_queued :: "mem_store sched" where
  "demo_queued = runOp mem demo_cfg 0 (OpEnqueue [1] [2] 600000) demo_start"

definition demo_canceled :: "mem_store sched" where
  "demo_canceled = runOp mem demo_cfg 1000 (OpCancel [1] [2]) demo_queued"

lemma demo_queued_reach: "mem_reach demo_cfg 0 demo_queued"
  unfolding demo_queued_def demo_start_def
  by (rule sched_reach.step [OF sched_reach.start [where now = 0]]) (simp_all add: no_nul_def)

lemma demo_canceled_reach: "mem_reach demo_cfg 1000 demo_canceled"
  unfolding demo_canceled_def
  by (rule sched_reach.step [OF demo_queued_reach]) (simp_all add: no_nul_def)

lemmas demo_eval = demo_queued_def demo_canceled_def demo_start_def demo_cfg_def newScheduler_def
  enqueue_def cancel_def cancelRecord_def emit_def newSubmissionEvent_def setTerminal_def
  isTerminalState_def effectiveDeadline_def default_to_def DefaultMaxRetryHorizonMs_def
  MaxRetryHorizonCapMs_def isoSecond_def mem_def mem_put_def mem_get_def keyOf_def Let_def

lemma demo_queued_lookup:
  "\<exists>q. lookup mem demo_queued [1] [2] = Some q \<and> q_state q = Queued \<and> q_deadline q = 600000"
  by (simp add: demo_eval lookup_def)

lemma demo_canceled_lookup:
  "\<exists>q. lookup mem demo_canceled [1] [2] = Some q \<and> q_state q = Canceled"
  by (simp add: demo_eval lookup_def)

theorem terminal_state_is_final_witness:
  "\<exists>q. lookup mem (runOp mem demo_cfg 2000 (OpCancelEnvelope [1]) demo_canceled) [1] [2] = Some q
     \<and> q_state q = Canceled"
proof -
  obtain q where q: "lookup mem demo_canceled [1] [2] = Some q" "q_state q = Canceled"
    using demo_canceled_lookup by blast
  then show ?thesis
    using terminal_state_is_final [OF demo_canceled_reach, of 2000 "OpCancelEnvelope [1]" "[1]" "[2]" q]
    by (simp add: no_nul_def)
qed



theorem cancel_envelope_complete_witness:
  "\<exists>q. lookup mem (fst (cancelEnvelope mem demo_cfg 1000 [1] demo_queued)) [1] [2] = Some q
     \<and> q_state q \<noteq> Queued"
proof -
  have "\<exists>q. lookup mem (fst (cancelEnvelope mem demo_cfg 1000 [1] demo_queued)) [1] [2] = Some q"
    by (simp add: demo_eval lookup_def cancelEnvelope_def mem_due_def due_at_def)
  then obtain q where q: "lookup mem (fst (cancelEnvelope mem demo_cfg 1000 [1] demo_queued)) [1] [2] = Some q" ..
  with cancel_envelope_complete [OF demo_queued_reach _ _ _ _ q] show ?thesis
    by (simp add: no_nul_def demo_cfg_def newScheduler_def default_to_def)
qed

definition zero_cfg :: sched_config where
  "zero_cfg = newScheduler \<lparr>rc_initialIntervalMs = None, rc_multiplier = None, rc_maxIntervalMs = None,
     rc_jitterFraction = None\<rparr> (Some 0) True"

definition silent_env :: sched_env where
  "silent_env = \<lparr>en_deliver = \<lambda>_ _. Some \<lparr>ar_status = StSilent, ar_reasonCode = None, ar_reason = None\<rparr>,
    en_rand = \<lambda>_ _. 0\<rparr>"

definition zero_waiting :: "mem_store sched" where
  "zero_waiting = runOp mem zero_cfg 0 (OpTick silent_env) (runOp mem zero_cfg 0 (OpEnqueue [1] [2] 600000) demo_start)"

lemma zero_waiting_reach: "mem_reach zero_cfg 0 zero_waiting"
  unfolding zero_waiting_def demo_start_def
  by (rule sched_reach.step [OF sched_reach.step [OF sched_reach.start [where now = 0]]])
     (simp_all add: no_nul_def)

lemma zero_cfg_simps: "sc_horizon zero_cfg = 0" "sc_sink zero_cfg"
  "nextAttemptAt (sc_retry zero_cfg) 0 0 0 = Inr 54000"
  by (simp_all add: zero_cfg_def newScheduler_def default_to_def nextAttemptAt_def jitterIntervalMs_def
      baseIntervalMs_def Let_def sanitizeRetry_def as_config_def MinRetryInitialIntervalMs_def
      MinRetryMultiplier_def MaxRetryIntervalMs_def MinRetryJitterFraction_def MinJitterFloorMs_def)

lemmas op_eval = enqueue_def setTerminal_def isTerminalState_def effectiveDeadline_def default_to_def
  DefaultMaxRetryHorizonMs_def MaxRetryHorizonCapMs_def isoSecond_def mem_def mem_put_def mem_get_def
  keyOf_def Let_def demo_start_def tick_def mem_due_def due_at_def attemptOutcome_def runAttempt_def
  recordAttempt_def lookup_def cancelEnvelope_def

lemma zero_waiting_lookup:
  "\<exists>q. lookup mem (fst (cancelEnvelope mem zero_cfg 0 [1] zero_waiting)) [1] [2] = Some q \<and> q_state q = Queued"
  by (simp add: zero_waiting_def silent_env_def zero_cfg_simps op_eval)

text \<open>With a configured horizon of 0 (which \<open>enqueue\<close> reads as the default of 72 hours)
  whole-envelope cancellation misses records: the enumeration looks only up to the present, and a
  record waiting for its next attempt stays queued.\<close>

theorem cancel_envelope_zero_horizon:
  "\<exists>cfg clock st q. sc_horizon cfg = 0 \<and> mem_reach cfg clock st \<and>
     lookup mem (fst (cancelEnvelope mem cfg clock [1] st)) [1] [2] = Some q \<and> q_state q = Queued"
  using zero_cfg_simps(1) zero_waiting_reach zero_waiting_lookup by blast

end
