(* ===== verification/SchedulerRace.thy ===== *)
theory SchedulerRace
  imports SchedulerProofs
begin

text \<open>
  The scheduler under interleaving. \<open>tick\<close> awaits the sender, and while it waits other
  calls on the same scheduler run. Here \<open>tick\<close> is cut at that point into the pieces that
  run to completion: taking the due list, advancing to the next record, and resuming with
  the sender's answer (\<open>SchedulerProofs\<close> treats a tick as one operation). The store is the
  in-memory one, whose own promises are settled at once.
\<close>

section \<open>Steps\<close>

record 's conc =
  cs_sched :: "'s sched"
  cs_now :: time
  cs_due :: "queue_state list"
  cs_await :: "queue_state option"

datatype conc_label =
    LBegin time
  | LAdvance
  | LAnswer "attempt_result option" rat
  | LOp time sched_op

definition tickBegin :: "'s store_ops \<Rightarrow> time \<Rightarrow> 's conc \<Rightarrow> 's conc" where
  "tickBegin S now c =
     (if sd_inflight (cs_sched c) then c
      else c\<lparr>cs_sched := (cs_sched c)\<lparr>sd_inflight := True\<rparr>, cs_now := now,
             cs_due := so_due S (sd_store (cs_sched c)) now, cs_await := None\<rparr>)"

definition commit :: "'s store_ops \<Rightarrow> scheduler_error + queue_state \<times> submission_event list \<Rightarrow> 's conc \<Rightarrow> 's conc" where
  "commit S r c =
     (case r of Inl _ \<Rightarrow> c
      | Inr (q', evs) \<Rightarrow> c\<lparr>cs_sched := (cs_sched c)\<lparr>sd_store := so_put S q' (sd_store (cs_sched c)),
                             sd_events := sd_events (cs_sched c) @ evs\<rparr>\<rparr>)"

definition tickAdvance :: "'s store_ops \<Rightarrow> sched_config \<Rightarrow> 's conc \<Rightarrow> 's conc" where
  "tickAdvance S cfg c =
     (if \<not> sd_inflight (cs_sched c) \<or> cs_await c \<noteq> None then c
      else case cs_due c of
          [] \<Rightarrow> c\<lparr>cs_sched := (cs_sched c)\<lparr>sd_inflight := False\<rparr>\<rparr>
        | q # due \<Rightarrow>
            if isTerminalState (q_state q) then c\<lparr>cs_due := due\<rparr>
            else if cs_now c \<ge> q_deadline q then
              commit S (transitionExpired cfg q (cs_now c)) (c\<lparr>cs_due := due\<rparr>)
            else c\<lparr>cs_due := due, cs_await := Some q\<rparr>)"

definition tickAnswer :: "'s store_ops \<Rightarrow> sched_config \<Rightarrow> attempt_result option \<Rightarrow> rat \<Rightarrow> 's conc \<Rightarrow> 's conc" where
  "tickAnswer S cfg res r c =
     (case cs_await c of
        None \<Rightarrow> c
      | Some q \<Rightarrow>
          (case res of
             None \<Rightarrow> c\<lparr>cs_await := None\<rparr>
           | Some a \<Rightarrow> commit S (runAttempt cfg (cs_now c) a r q) (c\<lparr>cs_await := None\<rparr>)))"

fun concStep :: "'s store_ops \<Rightarrow> sched_config \<Rightarrow> conc_label \<Rightarrow> 's conc \<Rightarrow> 's conc" where
  "concStep S cfg (LBegin now) c = tickBegin S now c"
| "concStep S cfg LAdvance c = tickAdvance S cfg c"
| "concStep S cfg (LAnswer res r) c = tickAnswer S cfg res r c"
| "concStep S cfg (LOp now op) c = c\<lparr>cs_sched := runOp S cfg now op (cs_sched c)\<rparr>"

definition concRun :: "'s store_ops \<Rightarrow> sched_config \<Rightarrow> conc_label list \<Rightarrow> 's conc \<Rightarrow> 's conc" where
  "concRun S cfg ls c = fold (concStep S cfg) ls c"

lemma concRun_simps [simp]:
  "concRun S cfg [] c = c"
  "concRun S cfg (l # ls) c = concRun S cfg ls (concStep S cfg l c)"
  by (simp_all add: concRun_def)

lemma concRun_append: "concRun S cfg (xs @ ys) c = concRun S cfg ys (concRun S cfg xs c)"
  by (simp add: concRun_def)

definition idle :: "'s sched \<Rightarrow> 's conc" where
  "idle st = \<lparr>cs_sched = st, cs_now = 0, cs_due = [], cs_await = None\<rparr>"

section \<open>A tick nobody interrupts is the atomic tick\<close>

definition env_labels :: "time \<Rightarrow> sched_env \<Rightarrow> queue_state \<Rightarrow> conc_label list" where
  "env_labels now env q =
     (if isTerminalState (q_state q) \<or> now \<ge> q_deadline q then [LAdvance]
      else [LAdvance, LAnswer (en_deliver env (q_envelope_id q) (q_recipient q))
              (en_rand env (q_envelope_id q) (q_recipient q))])"

lemma one_record:
  assumes "cs_due c = q # due" "cs_await c = None" "sd_inflight (cs_sched c)"
  shows "concRun S cfg (env_labels (cs_now c) env q) c =
    (if isTerminalState (q_state q) then c\<lparr>cs_due := due\<rparr>
     else commit S (attemptOutcome cfg (cs_now c) env q) (c\<lparr>cs_due := due\<rparr>))"
proof -
  have same: "c\<lparr>cs_due := due, cs_await := None\<rparr> = c\<lparr>cs_due := due\<rparr>"
    using assms(2) by (cases c) simp
  have thrown: "commit S (Inl e) d = d" for e d by (simp add: commit_def)
  then show ?thesis using assms
    by (auto simp: env_labels_def tickAdvance_def tickAnswer_def attemptOutcome_def same thrown
        split: option.splits)
qed

lemma tickLoop_run:
  assumes "tickLoop S cfg now env due st adv err = (st', adv', err')" "sd_inflight st"
  shows "\<exists>c. concRun S cfg (concat (map (env_labels now env) due))
      \<lparr>cs_sched = st, cs_now = now, cs_due = due, cs_await = None\<rparr> = c \<and>
    c = \<lparr>cs_sched = st', cs_now = now, cs_due = [], cs_await = None\<rparr> \<and> sd_inflight st'"
  using assms
proof (induction due arbitrary: st adv err)
  case Nil
  then show ?case by simp
next
  case (Cons q due)
  let ?c = "\<lparr>cs_sched = st, cs_now = now, cs_due = q # due, cs_await = None\<rparr>"
  have one: "concRun S cfg (env_labels now env q) ?c =
    (if isTerminalState (q_state q) then ?c\<lparr>cs_due := due\<rparr>
     else commit S (attemptOutcome cfg now env q) (?c\<lparr>cs_due := due\<rparr>))"
    using one_record [of ?c q due S cfg env] Cons.prems(2) by simp
  obtain st1 adv1 err1 where next1: "tickLoop S cfg now env due st1 adv1 err1 = (st', adv', err')"
    "concRun S cfg (env_labels now env q) ?c = \<lparr>cs_sched = st1, cs_now = now, cs_due = due, cs_await = None\<rparr>"
    "sd_inflight st1"
    using Cons.prems one
    by (auto simp: commit_def split: if_splits sum.splits prod.splits)
  from Cons.IH [OF next1(1,3)] next1(2) show ?case by (simp add: concRun_append)
qed

text \<open>The cut into steps is faithful: the steps of one tick with no other call between them
  (begin, then per due record advance and answer, then finish) lead to the same scheduler state as
  \<open>tick\<close> in one piece.\<close>

theorem uninterrupted_tick:
  assumes "\<not> sd_inflight st"
  shows "cs_sched (concRun S cfg
      (LBegin now # concat (map (env_labels now env) (so_due S (sd_store st) now)) @ [LAdvance]) (idle st))
    = fst (tick S cfg now env st)"
proof -
  let ?due = "so_due S (sd_store st) now"
  obtain st' adv err where loop: "tickLoop S cfg now env ?due (st\<lparr>sd_inflight := True\<rparr>) 0 None = (st', adv, err)"
    by (metis prod_cases3)
  have "tickBegin S now (idle st) =
      \<lparr>cs_sched = st\<lparr>sd_inflight := True\<rparr>, cs_now = now, cs_due = ?due, cs_await = None\<rparr>"
    using assms by (simp add: tickBegin_def idle_def)
  moreover from tickLoop_run [OF loop] have "concRun S cfg (concat (map (env_labels now env) ?due))
      \<lparr>cs_sched = st\<lparr>sd_inflight := True\<rparr>, cs_now = now, cs_due = ?due, cs_await = None\<rparr>
    = \<lparr>cs_sched = st', cs_now = now, cs_due = [], cs_await = None\<rparr>" "sd_inflight st'" by simp_all
  ultimately show ?thesis
    using assms loop by (simp add: concRun_append tickAdvance_def tick_def)
qed

section \<open>A cancellation during the sender's call is overwritten\<close>

definition race :: "conc_label list" where
  "race = [LBegin 1000, LAdvance, LOp 2000 (OpCancel [1] [2]),
           LAnswer (Some \<lparr>ar_status = StDelivered, ar_reasonCode = None, ar_reason = None\<rparr>) 0, LAdvance]"

lemmas race_eval = race_def idle_def tickBegin_def tickAdvance_def tickAnswer_def commit_def
  demo_eval lookup_def mem_due_def due_at_def runAttempt_def recordAttempt_def transitionTerminal_def
  about_def

lemma race_before:
  "\<exists>q. lookup mem (cs_sched (concRun mem demo_cfg (take 3 race) (idle demo_queued))) [1] [2] = Some q \<and> q_state q = Canceled"
  by (simp add: race_eval)

lemma race_after:
  "\<exists>q. lookup mem (cs_sched (concRun mem demo_cfg race (idle demo_queued))) [1] [2] = Some q \<and> q_state q = Delivered"
  by (simp add: race_eval)

lemma race_events:
  "map ev_status (about [1] [2] (sd_events (cs_sched (concRun mem demo_cfg race (idle demo_queued)))))
   = [StRejected, StDelivered]"
  by (simp add: race_eval)


theorem uninterrupted_tick_witness:
  "cs_sched (concRun mem demo_cfg
      (LBegin 1000 # concat (map (env_labels 1000 silent_env) (so_due mem (sd_store demo_queued) 1000)) @ [LAdvance])
      (idle demo_queued))
    = fst (tick mem demo_cfg 1000 silent_env demo_queued)"
  by (rule uninterrupted_tick) (simp add: demo_eval)

end
