(* ===== verification/Closure.thy ===== *)
theory Closure
  imports SignedDoc
begin

text \<open>
  Account closure, \<^verbatim>\<open>src/src/closure\<close>: the records (\<^verbatim>\<open>closure.ts\<close>), the in-memory
  store (\<^verbatim>\<open>store.ts\<close>) and the home server's driver on it (\<^verbatim>\<open>driver.ts\<close>), with the clock-skew
  checks of \<^verbatim>\<open>src/src/clockskew\<close>. \<open>parseDate\<close> stands for \<open>Date.parse\<close>.
\<close>

section \<open>Clock skew\<close>

record tolerance =
  forwardMs :: int
  graceMs :: int

definition defaultTolerance :: tolerance where
  "defaultTolerance = \<lparr>forwardMs = 15 * 60 * 1000, graceMs = 15 * 60 * 1000\<rparr>"

definition strictTolerance :: tolerance where
  "strictTolerance = \<lparr>forwardMs = 5 * 60 * 1000, graceMs = 0\<rparr>"

text \<open>The checks return whether they accept.\<close>

definition checkFutureTimestamp :: "time \<Rightarrow> time \<Rightarrow> tolerance \<Rightarrow> bool" where
  "checkFutureTimestamp t now tol =
     (if t \<le> now then True else if t - now > forwardMs tol then False else True)"

definition checkExpiry :: "time \<Rightarrow> time \<Rightarrow> tolerance \<Rightarrow> bool" where
  "checkExpiry expiresAt now tol = (if now \<le> expiresAt + graceMs tol then True else False)"

section \<open>Closure records\<close>

record closure_signature =
  cs_algorithm :: jstr
  cs_key_id :: jstr
  cs_value :: jstr

record closure_record =
  cl_type :: jstr
  cl_step :: jstr
  cl_version :: jstr
  cl_user_id :: jstr
  cl_requested_at :: jstr
  cl_grace_period_seconds :: int
  cl_issued_by :: jstr
  cl_signature :: closure_signature

definition RecordType :: jstr where "RecordType = js ''SEMP_ACCOUNT_CLOSURE''"
definition AccountClosurePrefix :: jstr where "AccountClosurePrefix = js ''SEMP-ACCOUNT-CLOSURE:''"
definition MinGracePeriodSeconds :: int where "MinGracePeriodSeconds = 7 * 24 * 60 * 60"
definition MaxGracePeriodSeconds :: int where "MaxGracePeriodSeconds = 90 * 24 * 60 * 60"
definition MinRetentionMs :: int where "MinRetentionMs = 180 * 24 * 60 * 60 * 1000"

datatype closure_error =
    BadType | BadStep | MissingVersion | MissingUserId | MissingRequestedAt | BadRequestedAt
  | MissingIssuedBy | GraceTooShort int | GraceTooLong int | Unsigned
  | EmptyDeviceKeyId | ClosurePath path_error | AlreadyPending

definition validateClosureRecord ::
  "(jstr \<Rightarrow> time option) \<Rightarrow> closure_record \<Rightarrow> bool \<Rightarrow> closure_error + unit"
where
  "validateClosureRecord parseDate r skipSignatureCheck =
     (if cl_type r \<noteq> RecordType then Inl BadType
      else if cl_step r \<noteq> js ''request'' \<and> cl_step r \<noteq> js ''cancel'' then Inl BadStep
      else if cl_version r = [] then Inl MissingVersion
      else if cl_user_id r = [] then Inl MissingUserId
      else if cl_requested_at r = [] then Inl MissingRequestedAt
      else if parseDate (cl_requested_at r) = None then Inl BadRequestedAt
      else if cl_issued_by r = [] then Inl MissingIssuedBy
      else if cl_step r = js ''request'' \<and> cl_grace_period_seconds r < MinGracePeriodSeconds then
        Inl (GraceTooShort (cl_grace_period_seconds r))
      else if cl_step r = js ''request'' \<and> cl_grace_period_seconds r > MaxGracePeriodSeconds then
        Inl (GraceTooLong (cl_grace_period_seconds r))
      else if \<not> skipSignatureCheck \<and> cs_value (cl_signature r) = [] then Inl Unsigned
      else Inr ())"

definition closure_json :: "(int \<Rightarrow> 'n) \<Rightarrow> closure_record \<Rightarrow> (jstr \<times> 'n json) list" where
  "closure_json num r =
     [(js ''type'', JStr (cl_type r)), (js ''step'', JStr (cl_step r)),
      (js ''version'', JStr (cl_version r)), (js ''user_id'', JStr (cl_user_id r)),
      (js ''requested_at'', JStr (cl_requested_at r)),
      (js ''grace_period_seconds'', JNum (num (cl_grace_period_seconds r))),
      (js ''issued_by'', JStr (cl_issued_by r)),
      (js ''signature'', JObj
        [(js ''algorithm'', JStr (cs_algorithm (cl_signature r))),
         (js ''key_id'', JStr (cs_key_id (cl_signature r))),
         (js ''value'', JStr (cs_value (cl_signature r)))])]"

definition closure_path :: "jstr list" where
  "closure_path = [js ''signature'', js ''value'']"

text \<open>The signed JSON object the source returns is the record returned here (\<open>signClosure_json\<close>).\<close>

definition signClosureRecord ::
  "'n platform \<Rightarrow> (int \<Rightarrow> 'n) \<Rightarrow> (jstr \<Rightarrow> time option) \<Rightarrow> closure_record \<Rightarrow> bytes \<Rightarrow> jstr
     \<Rightarrow> closure_error + closure_record"
where
  "signClosureRecord P num parseDate record_in seed deviceKeyId =
     (if deviceKeyId = [] then Inl EmptyDeviceKeyId
      else bindR (validateClosureRecord parseDate record_in True) (\<lambda>_.
        let preSign = record_in\<lparr>cl_signature :=
              \<lparr>cs_algorithm = js ''ed25519'', cs_key_id = deviceKeyId, cs_value = []\<rparr>\<rparr> in
        case signSignedDoc P (closure_json num preSign) seed closure_path AccountClosurePrefix of
          Inl e \<Rightarrow> Inl (ClosurePath e)
        | Inr (sdoc, sigB64) \<Rightarrow>
            Inr (preSign\<lparr>cl_signature := (cl_signature preSign)\<lparr>cs_value := sigB64\<rparr>\<rparr>)))"

definition verifyClosureRecord ::
  "'n platform \<Rightarrow> (int \<Rightarrow> 'n) \<Rightarrow> (jstr \<Rightarrow> time option) \<Rightarrow> closure_record \<Rightarrow> bytes
     \<Rightarrow> closure_error + bool"
where
  "verifyClosureRecord P num parseDate r devicePub =
     bindR (validateClosureRecord parseDate r False) (\<lambda>_.
     if cs_value (cl_signature r) = [] then Inr False
     else case verifySignedDoc P (closure_json num r) devicePub closure_path AccountClosurePrefix of
            Inl e \<Rightarrow> Inl (ClosurePath e)
          | Inr ok \<Rightarrow> Inr ok)"

definition finalizationAt :: "(jstr \<Rightarrow> time option) \<Rightarrow> closure_record \<Rightarrow> closure_error + time" where
  "finalizationAt parseDate r =
     (case parseDate (cl_requested_at r) of
        None \<Rightarrow> Inl BadRequestedAt
      | Some ts \<Rightarrow> Inr (ts + cl_grace_period_seconds r * 1000))"

definition isFinalizable :: "(jstr \<Rightarrow> time option) \<Rightarrow> closure_record \<Rightarrow> time \<Rightarrow> closure_error + bool" where
  "isFinalizable parseDate r now =
     (if cl_step r \<noteq> js ''request'' then Inr False
      else bindR (finalizationAt parseDate r) (\<lambda>t. Inr (now \<ge> t)))"

section \<open>The in-memory store\<close>

record closure_store =
  pending :: "(jstr, closure_record) jsmap"
  finalized :: "(jstr, time) jsmap"

definition putPending :: "closure_record \<Rightarrow> closure_store \<Rightarrow> closure_error + closure_store" where
  "putPending r s =
     (if cl_user_id r = [] then Inl MissingUserId
      else if jsm_get (pending s) (cl_user_id r) \<noteq> None then Inl AlreadyPending
      else Inr (s\<lparr>pending := jsm_set (cl_user_id r) r (pending s)\<rparr>))"

definition getPending :: "closure_store \<Rightarrow> jstr \<Rightarrow> closure_record option" where
  "getPending s userId = jsm_get (pending s) userId"

definition deletePending :: "jstr \<Rightarrow> closure_store \<Rightarrow> closure_store" where
  "deletePending userId s = s\<lparr>pending := jsm_delete userId (pending s)\<rparr>"

fun dueLoop :: "(jstr \<Rightarrow> time option) \<Rightarrow> time \<Rightarrow> closure_record list \<Rightarrow> closure_error + closure_record list" where
  "dueLoop parseDate now [] = Inr []"
| "dueLoop parseDate now (r # rs) =
     bindR (finalizationAt parseDate r) (\<lambda>t.
     bindR (dueLoop parseDate now rs) (\<lambda>due. Inr (if now \<ge> t then r # due else due)))"

definition duePending :: "(jstr \<Rightarrow> time option) \<Rightarrow> closure_store \<Rightarrow> time \<Rightarrow> closure_error + closure_record list" where
  "duePending parseDate s now =
     bindR (dueLoop parseDate now (map snd (pending s))) (\<lambda>due. Inr (sort_key cl_user_id due))"

definition countPending :: "closure_store \<Rightarrow> nat" where
  "countPending s = length (pending s)"

definition putFinalized :: "jstr \<Rightarrow> time \<Rightarrow> closure_store \<Rightarrow> closure_error + closure_store" where
  "putFinalized userId finalizedAt s =
     (if userId = [] then Inl MissingUserId
      else Inr (s\<lparr>finalized := jsm_set userId finalizedAt (finalized s)\<rparr>))"

definition getFinalized :: "closure_store \<Rightarrow> jstr \<Rightarrow> time option" where
  "getFinalized s userId = jsm_get (finalized s) userId"

definition pruneFinalized :: "int \<Rightarrow> time \<Rightarrow> closure_store \<Rightarrow> closure_store \<times> nat" where
  "pruneFinalized retainForMs now s =
     (let retain = (if retainForMs < MinRetentionMs then MinRetentionMs else retainForMs);
          cutoff = now - retain;
          keep = filter (\<lambda>(u, t). \<not> t < cutoff) (finalized s) in
      (s\<lparr>finalized := keep\<rparr>, length (finalized s) - length keep))"

section \<open>The driver\<close>

datatype submit_result = Accepted | PendingAlready | NotPending | Invalid closure_error | SubmitThrew closure_error

definition submit :: "(jstr \<Rightarrow> time option) \<Rightarrow> closure_record \<Rightarrow> closure_store \<Rightarrow> closure_store \<times> submit_result" where
  "submit parseDate r s =
     (case validateClosureRecord parseDate r False of
        Inl e \<Rightarrow> (s, Invalid e)
      | Inr _ \<Rightarrow>
          if cl_step r = js ''request'' then
            (case putPending r s of
               Inl e \<Rightarrow> (s, if e = AlreadyPending then PendingAlready else SubmitThrew e)
             | Inr s' \<Rightarrow> (s', Accepted))
          else
            (case getPending s (cl_user_id r) of
               None \<Rightarrow> (s, NotPending)
             | Some _ \<Rightarrow> (deletePending (cl_user_id r) s, Accepted)))"

text \<open>The loop of \<open>tick\<close>; an exception leaves the state it has reached.\<close>

fun finalizeLoop ::
  "(jstr \<Rightarrow> time option) \<Rightarrow> time \<Rightarrow> closure_record list \<Rightarrow> closure_store \<Rightarrow> (jstr \<times> time) list
     \<Rightarrow> closure_store \<times> (closure_error + (jstr \<times> time) list)"
where
  "finalizeLoop parseDate now [] s out = (s, Inr out)"
| "finalizeLoop parseDate now (r # due) s out =
     (case isFinalizable parseDate r now of
        Inl e \<Rightarrow> (s, Inl e)
      | Inr b \<Rightarrow>
          if \<not> b then finalizeLoop parseDate now due s out
          else case putFinalized (cl_user_id r) now s of
              Inl e \<Rightarrow> (s, Inl e)
            | Inr s' \<Rightarrow>
                finalizeLoop parseDate now due (deletePending (cl_user_id r) s')
                  (out @ [(cl_user_id r, now)]))"

definition closure_tick ::
  "(jstr \<Rightarrow> time option) \<Rightarrow> time \<Rightarrow> closure_store \<Rightarrow> closure_store \<times> (closure_error + (jstr \<times> time) list)"
where
  "closure_tick parseDate now s =
     (case duePending parseDate s now of
        Inl e \<Rightarrow> (s, Inl e)
      | Inr due \<Rightarrow> finalizeLoop parseDate now due s [])"

definition isAccountClosed :: "closure_store \<Rightarrow> jstr \<Rightarrow> bool" where
  "isAccountClosed s userId = (getFinalized s userId \<noteq> None)"

datatype policy_outcome = PassThrough | AckSilent | AckRejected jstr

text \<open>\<open>recipientPolicy\<close>; the in-memory store does not fail.\<close>

definition recipientPolicy :: "closure_store \<Rightarrow> bool \<Rightarrow> jstr \<Rightarrow> policy_outcome" where
  "recipientPolicy s useSilent recipientAddress =
     (if \<not> isAccountClosed s recipientAddress then PassThrough
      else if useSilent then AckSilent
      else AckRejected (js ''policy_forbidden''))"

section \<open>Reachable stores\<close>

datatype closure_op = OpSubmit closure_record | OpTick | OpPrune int

fun runClosureOp :: "(jstr \<Rightarrow> time option) \<Rightarrow> time \<Rightarrow> closure_op \<Rightarrow> closure_store \<Rightarrow> closure_store" where
  "runClosureOp parseDate now (OpSubmit r) s = fst (submit parseDate r s)"
| "runClosureOp parseDate now OpTick s = fst (closure_tick parseDate now s)"
| "runClosureOp parseDate now (OpPrune ret) s = fst (pruneFinalized ret now s)"

inductive closure_reach :: "(jstr \<Rightarrow> time option) \<Rightarrow> time \<Rightarrow> closure_store \<Rightarrow> bool" for parseDate where
  start: "closure_reach parseDate now \<lparr>pending = [], finalized = []\<rparr>"
| step: "closure_reach parseDate clock s \<Longrightarrow> clock \<le> now \<Longrightarrow>
    closure_reach parseDate now (runClosureOp parseDate now op s)"

definition pending_ok :: "(jstr \<Rightarrow> time option) \<Rightarrow> jstr \<times> closure_record \<Rightarrow> bool" where
  "pending_ok parseDate = (\<lambda>(u, r). u = cl_user_id r \<and> cl_step r = js ''request'' \<and>
     validateClosureRecord parseDate r False = Inr ())"

definition closure_inv :: "(jstr \<Rightarrow> time option) \<Rightarrow> time \<Rightarrow> closure_store \<Rightarrow> bool" where
  "closure_inv parseDate clock s \<longleftrightarrow>
     jsm_ok (pending s) \<and> jsm_ok (finalized s) \<and> list_all (pending_ok parseDate) (pending s) \<and>
     list_all (\<lambda>(u, t). t \<le> clock) (finalized s)"

lemma list_all_set: "list_all P m \<Longrightarrow> P (k, v) \<Longrightarrow> list_all P (jsm_set k v m)"
  by (induction k v m rule: jsm_set.induct) auto

lemma list_all_delete: "list_all P m \<Longrightarrow> list_all P (jsm_delete k m)"
  by (auto simp: jsm_delete_def list_all_iff)

lemma validate_request:
  assumes "validateClosureRecord parseDate r b = Inr ()" "cl_step r = js ''request''"
  shows "\<exists>ts. parseDate (cl_requested_at r) = Some ts"
    "7 * 24 * 60 * 60 \<le> cl_grace_period_seconds r" "cl_grace_period_seconds r \<le> 90 * 24 * 60 * 60"
    "cl_user_id r \<noteq> []"
  using assms by (auto simp: validateClosureRecord_def MinGracePeriodSeconds_def MaxGracePeriodSeconds_def
      split: if_splits)

lemma submit_cases:
  obtains "fst (submit parseDate r s) = s"
  | "validateClosureRecord parseDate r False = Inr ()" "cl_step r = js ''request''"
    "jsm_get (pending s) (cl_user_id r) = None" "snd (submit parseDate r s) = Accepted"
    "fst (submit parseDate r s) = s\<lparr>pending := jsm_set (cl_user_id r) r (pending s)\<rparr>"
  | "validateClosureRecord parseDate r False = Inr ()" "cl_step r = js ''cancel''"
    "snd (submit parseDate r s) = Accepted"
    "fst (submit parseDate r s) = s\<lparr>pending := jsm_delete (cl_user_id r) (pending s)\<rparr>"
proof (cases "validateClosureRecord parseDate r False")
  case (Inl e)
  then show ?thesis using that(1) by (simp add: submit_def)
next
  case (Inr u)
  then have "cl_step r = js ''request'' \<or> cl_step r = js ''cancel''"
    by (auto simp: validateClosureRecord_def split: if_splits)
  moreover have "js ''cancel'' \<noteq> js ''request''" by (simp add: js_def)
  ultimately consider "cl_step r = js ''request''" "cl_user_id r = [] \<or> jsm_get (pending s) (cl_user_id r) \<noteq> None"
    | "cl_step r = js ''request''" "cl_user_id r \<noteq> []" "jsm_get (pending s) (cl_user_id r) = None"
    | "cl_step r = js ''cancel''" "cl_step r \<noteq> js ''request''" "jsm_get (pending s) (cl_user_id r) = None"
    | "cl_step r = js ''cancel''" "cl_step r \<noteq> js ''request''" "jsm_get (pending s) (cl_user_id r) \<noteq> None"
    by metis
  then show ?thesis
  proof cases
    case 1
    then have "\<exists>e. putPending r s = Inl e" by (auto simp: putPending_def)
    then have "fst (submit parseDate r s) = s" using 1(1) Inr by (auto simp: submit_def)
    then show ?thesis by (rule that(1))
  next
    case 2
    then show ?thesis using Inr by (intro that(2)) (simp_all add: submit_def putPending_def)
  next
    case 3
    then have "fst (submit parseDate r s) = s" using Inr by (simp add: submit_def getPending_def)
    then show ?thesis by (rule that(1))
  next
    case 4
    then show ?thesis using Inr
      by (intro that(3)) (auto simp: submit_def getPending_def deletePending_def)
  qed
qed

lemma submit_inv: "closure_inv parseDate clock s \<Longrightarrow> closure_inv parseDate clock (fst (submit parseDate r s))"
  by (rule submit_cases [of parseDate r s])
     (auto simp: closure_inv_def pending_ok_def list_all_delete intro!: list_all_set)

lemma dueLoop_ok:
  "list_all (pending_ok parseDate) m \<Longrightarrow> dueLoop parseDate now (map snd m) =
     Inr (filter (\<lambda>r. \<exists>t. finalizationAt parseDate r = Inr t \<and> t \<le> now) (map snd m))"
proof (induction m)
  case (Cons e m)
  obtain u r where e: "e = (u, r)" by force
  with Cons.prems have "\<exists>ts. parseDate (cl_requested_at r) = Some ts"
    using validate_request(1) [of parseDate r False] by (simp add: pending_ok_def)
  with e Cons show ?case by (auto simp: finalizationAt_def)
qed simp

lemma duePending_ok:
  "closure_inv parseDate clock s \<Longrightarrow> \<exists>due. duePending parseDate s now = Inr due \<and>
     distinct (map cl_user_id due) \<and> sorted (map cl_user_id due) \<and>
     (\<forall>r. r \<in> set due \<longleftrightarrow> getPending s (cl_user_id r) = Some r \<and> isFinalizable parseDate r now = Inr True)"
proof -
  assume inv: "closure_inv parseDate clock s"
  then have ok: "jsm_ok (pending s)" "list_all (pending_ok parseDate) (pending s)" by (simp_all add: closure_inv_def)
  let ?P = "\<lambda>r. \<exists>t. finalizationAt parseDate r = Inr t \<and> t \<le> now"
  let ?due = "sort_key cl_user_id (filter ?P (map snd (pending s)))"
  have due: "duePending parseDate s now = Inr ?due" using dueLoop_ok [OF ok(2)] by (simp add: duePending_def)
  have ids: "map cl_user_id (map snd (pending s)) = map fst (pending s)"
    using ok(2) by (auto simp: list_all_iff pending_ok_def)
  have mem: "r \<in> snd ` set (pending s) \<longleftrightarrow> getPending s (cl_user_id r) = Some r" for r
  proof
    assume "r \<in> snd ` set (pending s)"
    then obtain u where u: "(u, r) \<in> set (pending s)" by force
    with ok(2) have "u = cl_user_id r" by (auto simp: list_all_iff pending_ok_def)
    with u ok(1) show "getPending s (cl_user_id r) = Some r" by (simp add: getPending_def jsm_entries)
  next
    assume "getPending s (cl_user_id r) = Some r"
    then have "(cl_user_id r, r) \<in> set (pending s)" by (simp add: getPending_def map_of_SomeD)
    then show "r \<in> snd ` set (pending s)" by force
  qed
  have fin: "?P r \<longleftrightarrow> isFinalizable parseDate r now = Inr True" if "getPending s (cl_user_id r) = Some r" for r
  proof -
    have "(cl_user_id r, r) \<in> set (pending s)" using that ok(1) by (simp add: getPending_def jsm_entries)
    with ok(2) have "cl_step r = js ''request''" by (auto simp: list_all_iff pending_ok_def)
    then show ?thesis by (auto simp: isFinalizable_def bindR_eq_Inr)
  qed
  have "distinct (map cl_user_id ?due)"
  proof -
    have "distinct (map cl_user_id (map snd (pending s)))" unfolding ids using ok(1) by (simp add: jsm_ok_def)
    then have d: "distinct (map cl_user_id (filter ?P (map snd (pending s))))" by (rule distinct_map_filter)
    have "mset (map cl_user_id ?due) = mset (map cl_user_id (filter ?P (map snd (pending s))))"
      by (simp only: mset_map mset_sort)
    from mset_eq_imp_distinct_iff [OF this] d show ?thesis by (rule iffD2)
  qed
  moreover have "r \<in> set ?due \<longleftrightarrow> getPending s (cl_user_id r) = Some r \<and> isFinalizable parseDate r now = Inr True" for r
  proof -
    have "r \<in> set ?due \<longleftrightarrow> r \<in> snd ` set (pending s) \<and> ?P r" by (simp only: set_sort set_filter set_map) blast
    with mem fin show ?thesis by blast
  qed
  moreover have "sorted (map cl_user_id ?due)" by (rule sorted_sort_key)
  ultimately show ?thesis using due by blast
qed

lemma finalizeLoop_spec:
  assumes "distinct (map cl_user_id due)"
    and "\<forall>r \<in> set due. cl_user_id r \<noteq> [] \<and> isFinalizable parseDate r now = Inr True"
  shows "\<exists>s'. finalizeLoop parseDate now due s out = (s', Inr (out @ map (\<lambda>r. (cl_user_id r, now)) due)) \<and>
    (\<forall>u. getPending s' u = (if u \<in> cl_user_id ` set due then None else getPending s u)) \<and>
    (\<forall>u. getFinalized s' u = (if u \<in> cl_user_id ` set due then Some now else getFinalized s u)) \<and>
    (jsm_ok (pending s) \<longrightarrow> jsm_ok (pending s')) \<and> (jsm_ok (finalized s) \<longrightarrow> jsm_ok (finalized s')) \<and>
    set (pending s') \<subseteq> set (pending s) \<and> (list_all (\<lambda>(u, t). t \<le> now) (finalized s) \<longrightarrow>
      list_all (\<lambda>(u, t). t \<le> now) (finalized s'))"
  using assms
proof (induction due arbitrary: s out)
  case Nil
  then show ?case by simp
next
  case (Cons r due)
  let ?s = "deletePending (cl_user_id r) (s\<lparr>finalized := jsm_set (cl_user_id r) now (finalized s)\<rparr>)"
  have step: "finalizeLoop parseDate now (r # due) s out =
      finalizeLoop parseDate now due ?s (out @ [(cl_user_id r, now)])"
    using Cons.prems(2) by (simp add: putFinalized_def)
  have IH: "\<exists>s'. finalizeLoop parseDate now due ?s (out @ [(cl_user_id r, now)]) =
      (s', Inr ((out @ [(cl_user_id r, now)]) @ map (\<lambda>r. (cl_user_id r, now)) due)) \<and>
    (\<forall>u. getPending s' u = (if u \<in> cl_user_id ` set due then None else getPending ?s u)) \<and>
    (\<forall>u. getFinalized s' u = (if u \<in> cl_user_id ` set due then Some now else getFinalized ?s u)) \<and>
    (jsm_ok (pending ?s) \<longrightarrow> jsm_ok (pending s')) \<and> (jsm_ok (finalized ?s) \<longrightarrow> jsm_ok (finalized s')) \<and>
    set (pending s') \<subseteq> set (pending ?s) \<and> (list_all (\<lambda>(u, t). t \<le> now) (finalized ?s) \<longrightarrow>
      list_all (\<lambda>(u, t). t \<le> now) (finalized s'))"
    by (rule Cons.IH) (use Cons.prems in auto)
  have s: "getPending ?s u = (if u = cl_user_id r then None else getPending s u)"
    "getFinalized ?s u = (if u = cl_user_id r then Some now else getFinalized s u)" for u
    by (simp_all add: getPending_def getFinalized_def deletePending_def)
  have s2: "jsm_ok (pending s) \<longrightarrow> jsm_ok (pending ?s)" "jsm_ok (finalized s) \<longrightarrow> jsm_ok (finalized ?s)"
    "set (pending ?s) \<subseteq> set (pending s)"
    "list_all (\<lambda>(u, t). t \<le> now) (finalized s) \<longrightarrow> list_all (\<lambda>(u, t). t \<le> now) (finalized ?s)"
    by (auto simp: deletePending_def jsm_delete_def list_all_set jsm_ok_filter)
  from IH obtain s' where s': "finalizeLoop parseDate now due ?s (out @ [(cl_user_id r, now)]) =
      (s', Inr ((out @ [(cl_user_id r, now)]) @ map (\<lambda>r. (cl_user_id r, now)) due))"
    "\<And>u. getPending s' u = (if u \<in> cl_user_id ` set due then None else getPending ?s u)"
    "\<And>u. getFinalized s' u = (if u \<in> cl_user_id ` set due then Some now else getFinalized ?s u)"
    "jsm_ok (pending ?s) \<longrightarrow> jsm_ok (pending s')" "jsm_ok (finalized ?s) \<longrightarrow> jsm_ok (finalized s')"
    "set (pending s') \<subseteq> set (pending ?s)" "list_all (\<lambda>(u, t). t \<le> now) (finalized ?s) \<longrightarrow>
      list_all (\<lambda>(u, t). t \<le> now) (finalized s')" by blast
  show ?case
    by (intro exI [of _ s']) (use step s' s s2 in auto)
qed

lemma reach_record:
  assumes "closure_inv parseDate clock s" "getPending s u = Some r"
  shows "cl_user_id r = u" "cl_step r = js ''request''" "validateClosureRecord parseDate r False = Inr ()"
  using assms map_of_SomeD [of "pending s" u r]
  by (auto simp: closure_inv_def list_all_iff pending_ok_def getPending_def)

lemma closure_tick_ok:
  assumes "closure_inv parseDate clock s" and "clock \<le> now"
  obtains due s' where "closure_tick parseDate now s = (s', Inr (map (\<lambda>r. (cl_user_id r, now)) due))"
    "distinct (map cl_user_id due)" "sorted (map cl_user_id due)"
    "\<And>r. r \<in> set due \<longleftrightarrow> getPending s (cl_user_id r) = Some r \<and> isFinalizable parseDate r now = Inr True"
    "\<And>u. getPending s' u = (if u \<in> cl_user_id ` set due then None else getPending s u)"
    "\<And>u. getFinalized s' u = (if u \<in> cl_user_id ` set due then Some now else getFinalized s u)"
    "closure_inv parseDate now s'"
proof -
  from duePending_ok [OF assms(1), of now] obtain due where due: "duePending parseDate s now = Inr due"
    "distinct (map cl_user_id due)" "sorted (map cl_user_id due)"
    "\<forall>r. r \<in> set due \<longleftrightarrow> getPending s (cl_user_id r) = Some r \<and> isFinalizable parseDate r now = Inr True"
    by blast
  have mem: "cl_user_id r \<noteq> [] \<and> isFinalizable parseDate r now = Inr True" if "r \<in> set due" for r
  proof -
    have "getPending s (cl_user_id r) = Some r" "isFinalizable parseDate r now = Inr True"
      using due(4) that by blast+
    with reach_record [OF assms(1)] validate_request(4) show ?thesis by blast
  qed
  from finalizeLoop_spec [OF due(2), of parseDate now s "[]"] mem obtain s' where s':
    "finalizeLoop parseDate now due s [] = (s', Inr (map (\<lambda>r. (cl_user_id r, now)) due))"
    "\<forall>u. getPending s' u = (if u \<in> cl_user_id ` set due then None else getPending s u)"
    "\<forall>u. getFinalized s' u = (if u \<in> cl_user_id ` set due then Some now else getFinalized s u)"
    "jsm_ok (pending s) \<longrightarrow> jsm_ok (pending s')" "jsm_ok (finalized s) \<longrightarrow> jsm_ok (finalized s')"
    "set (pending s') \<subseteq> set (pending s)"
    "list_all (\<lambda>(u, t). t \<le> now) (finalized s) \<longrightarrow> list_all (\<lambda>(u, t). t \<le> now) (finalized s')"
    by auto
  have "list_all (\<lambda>(u, t). t \<le> now) (finalized s)"
    using assms by (fastforce simp: closure_inv_def list_all_iff)
  with s'(4-7) assms(1) have "closure_inv parseDate now s'" by (auto simp: closure_inv_def list_all_iff)
  moreover have "closure_tick parseDate now s = (s', Inr (map (\<lambda>r. (cl_user_id r, now)) due))"
    using due(1) s'(1) by (simp add: closure_tick_def)
  ultimately show ?thesis using that due(2-4) s'(2,3) by blast
qed

lemma closure_inv_later: "closure_inv parseDate clock s \<Longrightarrow> clock \<le> now \<Longrightarrow> closure_inv parseDate now s"
  by (fastforce simp: closure_inv_def list_all_iff)

lemma prune_inv: "closure_inv parseDate clock s \<Longrightarrow> closure_inv parseDate clock (fst (pruneFinalized ret now s))"
  by (auto simp: closure_inv_def pruneFinalized_def Let_def list_all_iff jsm_ok_filter)

lemma runClosureOp_inv:
  assumes "closure_inv parseDate clock s" and "clock \<le> now"
  shows "closure_inv parseDate now (runClosureOp parseDate now op s)"
proof (cases op)
  case (OpSubmit r)
  then show ?thesis using submit_inv [OF closure_inv_later [OF assms]] by simp
next
  case OpTick
  from assms show ?thesis by (rule closure_tick_ok) (simp add: OpTick)
next
  case (OpPrune ret)
  then show ?thesis using prune_inv [OF closure_inv_later [OF assms]] by simp
qed

lemma closure_reach_inv: "closure_reach parseDate clock s \<Longrightarrow> closure_inv parseDate clock s"
proof (induction rule: closure_reach.induct)
  case (start now)
  show ?case by (simp add: closure_inv_def)
next
  case (step clock s now op)
  then show ?case by (blast intro: runClosureOp_inv)
qed

section \<open>Properties\<close>

text \<open>The signed document of a closure record.\<close>

interpretation closure_doc: signed_record "closure_json num" closure_path
  "\<lambda>r. cs_value (cl_signature r)"
  "\<lambda>v r. r\<lparr>cl_signature := (cl_signature r)\<lparr>cs_value := v\<rparr>\<rparr>"
  by unfold_locales (simp_all add: closure_json_def closure_path_def)

text \<open>Closure records: what \<open>signClosureRecord\<close> returns keeps the fields it was given, names the
  algorithm and the device key, and \<open>verifyClosureRecord\<close> accepts it under the device's public key.\<close>

theorem closure_sign_then_verify:
  assumes "scheme_ok P seed pub" "\<forall>msg. pl_enc64 P (pl_sign P seed msg) \<noteq> []"
    and "signClosureRecord P num parseDate r seed deviceKeyId = Inr r'"
  shows "verifyClosureRecord P num parseDate r' pub = Inr True
    \<and> r' = r\<lparr>cl_signature := cl_signature r'\<rparr>
    \<and> cs_algorithm (cl_signature r') = js ''ed25519'' \<and> cs_key_id (cl_signature r') = deviceKeyId"
proof -
  let ?pre = "r\<lparr>cl_signature := \<lparr>cs_algorithm = js ''ed25519'', cs_key_id = deviceKeyId, cs_value = []\<rparr>\<rparr>"
  obtain v where v: "signSignedDoc P (closure_json num ?pre) seed closure_path AccountClosurePrefix
        = Inr (closure_json num (?pre\<lparr>cl_signature := (cl_signature ?pre)\<lparr>cs_value := v\<rparr>\<rparr>), v)"
      "v \<noteq> []" "r' = ?pre\<lparr>cl_signature := (cl_signature ?pre)\<lparr>cs_value := v\<rparr>\<rparr>"
    "validateClosureRecord parseDate r True = Inr ()"
    using assms(2,3) by (auto simp: signClosureRecord_def bindR_eq_Inr closure_doc.sign_json Let_def split: if_splits)
  from closure_doc.sign_verifies(2) [OF assms(1) v(1)] v(3)
  have "verifySignedDoc P (closure_json num r') pub closure_path AccountClosurePrefix = Inr True" by simp
  moreover have "validateClosureRecord parseDate r' False = Inr ()"
    using v(2,4) unfolding v(3) by (auto simp: validateClosureRecord_def split: if_splits)
  ultimately show ?thesis using v(2,3) by (simp add: verifyClosureRecord_def)
qed

text \<open>C17. In every store the driver can reach, \<open>tick\<close> returns normally and finalizes exactly the accounts
  whose pending request has passed its grace period (between 7 and 90 days after the request), in
  the order of their ids; those become closed and are no longer pending, all others are untouched.\<close>

theorem closure_tick_finalizes_due:
  assumes "closure_reach parseDate clock s" and "clock \<le> now"
  shows "\<exists>s' out. closure_tick parseDate now s = (s', Inr out) \<and> sorted_wrt (<) (map fst out)
    \<and> (\<forall>u. u \<in> fst ` set out \<longleftrightarrow> (\<exists>r ts. getPending s u = Some r
          \<and> parseDate (cl_requested_at r) = Some ts \<and> ts + cl_grace_period_seconds r * 1000 \<le> now
          \<and> 7 * 24 * 60 * 60 \<le> cl_grace_period_seconds r \<and> cl_grace_period_seconds r \<le> 90 * 24 * 60 * 60))
    \<and> (\<forall>u. getPending s' u = (if u \<in> fst ` set out then None else getPending s u)
          \<and> getFinalized s' u = (if u \<in> fst ` set out then Some now else getFinalized s u))"
proof -
  have inv: "closure_inv parseDate clock s" by (rule closure_reach_inv [OF assms(1)])
  from closure_tick_ok [OF inv assms(2)] obtain due s' where t:
    "closure_tick parseDate now s = (s', Inr (map (\<lambda>r. (cl_user_id r, now)) due))"
    "distinct (map cl_user_id due)" "sorted (map cl_user_id due)"
    "\<And>r. r \<in> set due \<longleftrightarrow> getPending s (cl_user_id r) = Some r \<and> isFinalizable parseDate r now = Inr True"
    "\<And>u. getPending s' u = (if u \<in> cl_user_id ` set due then None else getPending s u)"
    "\<And>u. getFinalized s' u = (if u \<in> cl_user_id ` set due then Some now else getFinalized s u)" by metis
  let ?out = "map (\<lambda>r. (cl_user_id r, now)) due"
  have ids: "map fst ?out = map cl_user_id due" "fst ` set ?out = cl_user_id ` set due" by force+
  have srt: "sorted_wrt (<) (map fst ?out)" unfolding ids(1) using t(2,3) by (simp add: strict_sorted_iff)
  have due: "u \<in> fst ` set ?out \<longleftrightarrow> (\<exists>r ts. getPending s u = Some r
          \<and> parseDate (cl_requested_at r) = Some ts \<and> ts + cl_grace_period_seconds r * 1000 \<le> now
          \<and> 7 * 24 * 60 * 60 \<le> cl_grace_period_seconds r \<and> cl_grace_period_seconds r \<le> 90 * 24 * 60 * 60)" for u
  proof -
    have "u \<in> fst ` set ?out \<longleftrightarrow> (\<exists>r. getPending s u = Some r \<and> isFinalizable parseDate r now = Inr True)"
      unfolding ids(2) image_iff Bex_def t(4) using reach_record(1) [OF inv] by metis
    moreover have "isFinalizable parseDate r now = Inr True \<longleftrightarrow> (\<exists>ts. parseDate (cl_requested_at r) = Some ts
          \<and> ts + cl_grace_period_seconds r * 1000 \<le> now)" if "getPending s u = Some r" for r
      using reach_record(2) [OF inv that] by (auto simp: isFinalizable_def finalizationAt_def split: option.splits)
    ultimately show ?thesis
      using reach_record [OF inv] validate_request(2,3) by (metis (no_types, lifting))
  qed
  show ?thesis
    by (intro exI [of _ s'] exI [of _ ?out] conjI allI t(1) srt due) (simp_all only: ids(2) t(5,6))
qed

text \<open>The local part of a closed account is retained: whatever operation runs (a prune with any
  argument included), an account stays closed, and ingress rejects or silences its envelopes, until more
  than 180 days after its finalization.\<close>

theorem closed_account_retained:
  assumes "closure_reach parseDate clock s" and "getFinalized s u = Some t" and "clock \<le> now"
    and "now \<le> t + 180 * 24 * 60 * 60 * 1000"
  shows "(\<exists>t' \<ge> t. getFinalized (runClosureOp parseDate now op s) u = Some t')
    \<and> recipientPolicy (runClosureOp parseDate now op s) silent u
      = (if silent then AckSilent else AckRejected (js ''policy_forbidden''))"
proof -
  have inv: "closure_inv parseDate clock s" by (rule closure_reach_inv [OF assms(1)])
  have "(u, t) \<in> set (finalized s)" using assms(2) by (simp add: getFinalized_def map_of_SomeD)
  then have "t \<le> now" using inv assms(3) by (force simp: closure_inv_def list_all_iff)
  have "\<exists>t' \<ge> t. getFinalized (runClosureOp parseDate now op s) u = Some t'"
  proof (cases op)
    case (OpSubmit r)
    then show ?thesis
      by simp (rule submit_cases [of parseDate r s], use assms(2) in \<open>auto simp: getFinalized_def\<close>)
  next
    case OpTick
    show ?thesis
      by (rule closure_tick_ok [OF inv assms(3)]) (use assms(2) \<open>t \<le> now\<close> in \<open>auto simp: OpTick\<close>)
  next
    case (OpPrune ret)
    have "jsm_ok (finalized s)" using inv by (simp add: closure_inv_def)
    then show ?thesis using assms(2,4)
      by (auto simp: OpPrune getFinalized_def pruneFinalized_def Let_def jsm_get_filter MinRetentionMs_def)
  qed
  then show ?thesis by (auto simp: recipientPolicy_def isAccountClosed_def)
qed

section \<open>A store on which the hypotheses hold\<close>

definition demo_date :: "jstr \<Rightarrow> time option" where
  "demo_date s = (if s = js ''t'' then Some 0 else None)"

definition demo_closure :: closure_record where
  "demo_closure = \<lparr>cl_type = RecordType, cl_step = js ''request'', cl_version = js ''1.0.0'',
     cl_user_id = js ''u'', cl_requested_at = js ''t'', cl_grace_period_seconds = 604800,
     cl_issued_by = js ''d'', cl_signature = \<lparr>cs_algorithm = [], cs_key_id = [], cs_value = js ''x''\<rparr>\<rparr>"

lemma demo_closure_valid: "validateClosureRecord demo_date demo_closure b = Inr ()"
  by (simp add: validateClosureRecord_def demo_closure_def demo_date_def
      MinGracePeriodSeconds_def MaxGracePeriodSeconds_def)

definition demo_store :: closure_store where
  "demo_store = \<lparr>pending = [(js ''u'', demo_closure)], finalized = []\<rparr>"

lemma demo_store_reach: "closure_reach demo_date now demo_store"
proof -
  have "runClosureOp demo_date now (OpSubmit demo_closure) \<lparr>pending = [], finalized = []\<rparr> = demo_store"
    using demo_closure_valid [of False]
    by (simp add: submit_def putPending_def demo_store_def) (simp add: demo_closure_def)
  moreover have "closure_reach demo_date now (runClosureOp demo_date now (OpSubmit demo_closure) \<lparr>pending = [], finalized = []\<rparr>)"
    by (rule closure_reach.step [OF closure_reach.start order_refl])
  ultimately show ?thesis by simp
qed

lemma demo_tick:
  "closure_tick demo_date 604800000 demo_store
     = (\<lparr>pending = [], finalized = [(js ''u'', 604800000)]\<rparr>, Inr [(js ''u'', 604800000)])"
  by (simp add: closure_tick_def duePending_def demo_store_def demo_closure_def finalizationAt_def demo_date_def
      isFinalizable_def putFinalized_def deletePending_def jsm_delete_def)

theorem closure_tick_finalizes_due_witness:
  "\<exists>s' out. closure_tick demo_date 604800000 demo_store = (s', Inr out) \<and> js ''u'' \<in> fst ` set out
     \<and> getFinalized s' (js ''u'') = Some 604800000"
  using closure_tick_finalizes_due [OF demo_store_reach, of 0 604800000] by (auto simp: demo_tick getFinalized_def)

theorem closed_account_retained_witness:
  "recipientPolicy (runClosureOp demo_date 16156800000 (OpPrune 0)
     (fst (closure_tick demo_date 604800000 demo_store))) False (js ''u'') = AckRejected (js ''policy_forbidden'')"
proof -
  have "closure_reach demo_date 604800000 (runClosureOp demo_date 604800000 OpTick demo_store)"
    by (rule closure_reach.step [OF demo_store_reach [of 604800000] order_refl])
  from closed_account_retained [OF this, of "js ''u''" 604800000 16156800000 "OpPrune 0" False] show ?thesis
    by (simp add: demo_tick getFinalized_def)
qed

theorem closure_sign_then_verify_witness:
  "\<exists>r'. signClosureRecord demo_platform id demo_date demo_closure [7] (js ''k'') = Inr r'
     \<and> verifyClosureRecord demo_platform id demo_date r' [7] = Inr True \<and> cl_user_id r' = js ''u''"
proof -
  have "isInr (signClosureRecord demo_platform id demo_date demo_closure [7] (js ''k''))"
    by (simp add: signClosureRecord_def demo_closure_valid closure_doc.sign_json Let_def)
  then obtain r' where r': "signClosureRecord demo_platform id demo_date demo_closure [7] (js ''k'') = Inr r'"
    by (auto simp: isInr_iff)
  have "\<forall>msg. pl_enc64 demo_platform (pl_sign demo_platform [7] msg) \<noteq> []" by (simp add: demo_platform_def)
  from closure_sign_then_verify [OF demo_scheme this r'] have v:
    "verifyClosureRecord demo_platform id demo_date r' [7] = Inr True"
    "r' = demo_closure\<lparr>cl_signature := cl_signature r'\<rparr>" by blast+
  have "cl_user_id r' = js ''u''" by (subst v(2)) (simp add: demo_closure_def)
  with v(1) r' show ?thesis by blast
qed

end
