(* ===== verification/Crypto.thy ===== *)
theory Crypto
  imports SignedDoc
begin

unbundle bit_operations_syntax

text \<open>
  The wrappers of \<^verbatim>\<open>src/src/crypto\<close> (\<^verbatim>\<open>aead.ts\<close>, \<^verbatim>\<open>kdf.ts\<close>, \<^verbatim>\<open>kem.ts\<close>, \<^verbatim>\<open>mac.ts\<close>) and
  \<^verbatim>\<open>src/src/keys/sign.ts\<close> around the primitives of the noble packages, which are arguments
  (\<open>primitives\<close>): the guards on lengths, the wire layouts of the hybrid KEM, the labels of the
  key schedule and the constant-time comparison are the program's own.
\<close>

section \<open>The primitives\<close>

text \<open>A primitive that may throw returns an option.\<close>

record primitives =
  x_shared :: "bytes \<Rightarrow> bytes \<Rightarrow> bytes option"
  x_public :: "bytes \<Rightarrow> bytes option"
  kem_keygen :: "bytes \<Rightarrow> bytes \<times> bytes"
  kem_encaps :: "bytes \<Rightarrow> bytes \<Rightarrow> (bytes \<times> bytes) option"
  kem_decaps :: "bytes \<Rightarrow> bytes \<Rightarrow> bytes option"
  hk_extract :: "bytes \<Rightarrow> bytes \<Rightarrow> bytes"
  hk_expand :: "bytes \<Rightarrow> bytes \<Rightarrow> nat \<Rightarrow> bytes"
  chacha_enc :: "bytes \<Rightarrow> bytes \<Rightarrow> bytes \<Rightarrow> bytes \<Rightarrow> bytes option"
  chacha_dec :: "bytes \<Rightarrow> bytes \<Rightarrow> bytes \<Rightarrow> bytes \<Rightarrow> bytes option"
  xchacha_enc :: "bytes \<Rightarrow> bytes \<Rightarrow> bytes \<Rightarrow> bytes \<Rightarrow> bytes option"
  xchacha_dec :: "bytes \<Rightarrow> bytes \<Rightarrow> bytes \<Rightarrow> bytes \<Rightarrow> bytes option"
  hmac_sha256 :: "bytes \<Rightarrow> bytes \<Rightarrow> bytes"
  sha256 :: "bytes \<Rightarrow> bytes"
  ed_public :: "bytes \<Rightarrow> bytes"
  ed_sign :: "bytes \<Rightarrow> bytes \<Rightarrow> bytes"
  ed_verify :: "bytes \<Rightarrow> bytes \<Rightarrow> bytes \<Rightarrow> bool option"

datatype crypto_error = BadLength nat nat | PrimitiveThrew | RangeError | EmptyKey

abbreviation prim :: "'a option \<Rightarrow> crypto_error + 'a" where
  "prim x \<equiv> (case x of None \<Rightarrow> Inl PrimitiveThrew | Some v \<Rightarrow> Inr v)"

definition bufSet :: "bytes \<Rightarrow> nat \<Rightarrow> bytes \<Rightarrow> crypto_error + bytes" where
  "bufSet buf off src = (case buf_set buf off src of None \<Rightarrow> Inl RangeError | Some b \<Rightarrow> Inr b)"

abbreviation zeros :: "nat \<Rightarrow> bytes" where "zeros n \<equiv> replicate n 0"

text \<open>Two writes that fill a new array lay the parts out one after the other.\<close>

lemma bufSet_first: "length a \<le> n \<Longrightarrow> bufSet (zeros n) 0 a = Inr (a @ zeros (n - length a))"
  by (simp add: bufSet_def buf_set_def)

lemma bufSet_second: "length a = k \<Longrightarrow> length b = n \<Longrightarrow> bufSet (a @ zeros n) k b = Inr (a @ b)"
  by (simp add: bufSet_def buf_set_def)

section \<open>Signatures and fingerprints\<close>

definition publicKeyFromSeed :: "primitives \<Rightarrow> bytes \<Rightarrow> crypto_error + bytes" where
  "publicKeyFromSeed C seed =
     (if length seed \<noteq> 32 then Inl (BadLength (length seed) 32) else Inr (ed_public C seed))"

definition sign :: "primitives \<Rightarrow> bytes \<Rightarrow> bytes \<Rightarrow> crypto_error + bytes" where
  "sign C seed message =
     (if length seed \<noteq> 32 then Inl (BadLength (length seed) 32) else Inr (ed_sign C message seed))"

definition verify :: "primitives \<Rightarrow> bytes \<Rightarrow> bytes \<Rightarrow> bytes \<Rightarrow> bool" where
  "verify C publicKey signature message =
     (if length publicKey \<noteq> 32 \<or> length signature \<noteq> 64 then False
      else case ed_verify C signature message publicKey of None \<Rightarrow> False | Some ok \<Rightarrow> ok)"

text \<open>\<open>toString(16).padStart(2, "0")\<close> of a byte.\<close>

definition hexDigit :: "nat \<Rightarrow> 16 word" where
  "hexDigit d = of_nat (if d < 10 then 48 + d else 87 + d)"

definition hexByte :: "byte \<Rightarrow> jstr" where
  "hexByte b = [hexDigit (unat b div 16), hexDigit (unat b mod 16)]"

definition bytesToHex :: "bytes \<Rightarrow> jstr" where
  "bytesToHex bs = concat (map hexByte bs)"

definition fingerprint :: "primitives \<Rightarrow> bytes \<Rightarrow> crypto_error + jstr" where
  "fingerprint C publicKey =
     (if publicKey = [] then Inl EmptyKey else Inr (bytesToHex (sha256 C publicKey)))"

lemma hexDigit_inj:
  assumes "d < 16" "e < 16" "hexDigit d = hexDigit e"
  shows "d = e"
proof -
  have "unat (hexDigit i) = (if i < 10 then 48 + i else 87 + i)" if "i < 16" for i
    unfolding hexDigit_def using that by (intro of_nat_inverse [OF refl]) simp
  with assms have "(if d < 10 then 48 + d else 87 + d) = (if e < 10 then 48 + e else 87 + e)" by metis
  with assms(1,2) show ?thesis by (auto split: if_splits)
qed

lemma hexByte_inj: "hexByte b = hexByte c \<Longrightarrow> b = c"
proof -
  assume h: "hexByte b = hexByte c"
  have l: "unat a < 256" for a :: byte using unsigned_less [of a, where 'a = nat] by simp
  have "unat b div 16 = unat c div 16" "unat b mod 16 = unat c mod 16"
    using h l [of b] l [of c] by (auto simp: hexByte_def intro!: hexDigit_inj)
  then have "unat b = unat c" by (metis div_mult_mod_eq)
  then show "b = c" by (simp only: word_unat_eq_iff)
qed

lemma bytesToHex_simps: "bytesToHex [] = []" "bytesToHex (x # xs) = hexByte x @ bytesToHex xs"
  by (simp_all add: bytesToHex_def)

lemma hexByte_length [simp]: "length (hexByte b) = 2" "hexByte b \<noteq> []"
  by (simp_all add: hexByte_def)

lemma bytesToHex_inj: "bytesToHex a = bytesToHex b \<longleftrightarrow> a = b"
proof (induction a arbitrary: b)
  case Nil
  then show ?case by (cases b) (simp_all add: bytesToHex_simps)
next
  case (Cons x a)
  show ?case
  proof (cases b)
    case Nil
    then show ?thesis by (simp add: bytesToHex_simps)
  next
    case (Cons y c)
    have "bytesToHex (x # a) = bytesToHex b \<longleftrightarrow> hexByte x = hexByte y \<and> bytesToHex a = bytesToHex c"
      by (simp add: Cons bytesToHex_simps)
    then show ?thesis using Cons Cons.IH [of c] hexByte_inj by blast
  qed
qed

section \<open>MAC comparison\<close>

definition computeMAC :: "primitives \<Rightarrow> bytes \<Rightarrow> bytes \<Rightarrow> bytes" where
  "computeMAC C key message = hmac_sha256 C key message"

text \<open>\<open>diff |= a[i] ^ b[i]\<close> over two arrays of the same length.\<close>

fun diffLoop :: "byte \<Rightarrow> bytes \<Rightarrow> bytes \<Rightarrow> byte" where
  "diffLoop d (x # xs) (y # ys) = diffLoop (d OR (x XOR y)) xs ys"
| "diffLoop d _ _ = d"

definition verifyMAC :: "bytes \<Rightarrow> bytes \<Rightarrow> bool" where
  "verifyMAC expected actual =
     (if length expected \<noteq> length actual then False else diffLoop 0 expected actual = 0)"

lemma or_eq_0: "(a :: byte) OR b = 0 \<longleftrightarrow> a = 0 \<and> b = 0"
  by (auto simp: bit_eq_iff bit_or_iff)

lemma xor_eq_0: "(a :: byte) XOR b = 0 \<longleftrightarrow> a = b"
  by (auto simp: bit_eq_iff bit_xor_iff)

lemma diffLoop_0: "length a = length b \<Longrightarrow> diffLoop d a b = 0 \<longleftrightarrow> d = 0 \<and> a = b"
  by (induction d a b rule: diffLoop.induct) (auto simp: or_eq_0 xor_eq_0)

lemma verifyMAC_eq [simp]: "verifyMAC a b \<longleftrightarrow> a = b"
  by (auto simp: verifyMAC_def diffLoop_0)

section \<open>Authenticated encryption\<close>

datatype aead_algorithm = Chacha20Poly1305 | XChacha20Poly1305

definition aeadSeal ::
  "primitives \<Rightarrow> aead_algorithm \<Rightarrow> bytes \<Rightarrow> bytes \<Rightarrow> bytes \<Rightarrow> bytes \<Rightarrow> crypto_error + bytes"
where
  "aeadSeal C algorithm key nonce plaintext aad =
     (case algorithm of
        Chacha20Poly1305 \<Rightarrow>
          if length nonce \<noteq> 12 then Inl (BadLength (length nonce) 12)
          else prim (chacha_enc C key nonce aad plaintext)
      | XChacha20Poly1305 \<Rightarrow>
          if length nonce \<noteq> 24 then Inl (BadLength (length nonce) 24)
          else prim (xchacha_enc C key nonce aad plaintext))"

definition aeadOpen ::
  "primitives \<Rightarrow> aead_algorithm \<Rightarrow> bytes \<Rightarrow> bytes \<Rightarrow> bytes \<Rightarrow> bytes \<Rightarrow> crypto_error + bytes"
where
  "aeadOpen C algorithm key nonce ciphertext aad =
     (case algorithm of
        Chacha20Poly1305 \<Rightarrow>
          if length nonce \<noteq> 12 then Inl (BadLength (length nonce) 12)
          else prim (chacha_dec C key nonce aad ciphertext)
      | XChacha20Poly1305 \<Rightarrow>
          if length nonce \<noteq> 24 then Inl (BadLength (length nonce) 24)
          else prim (xchacha_dec C key nonce aad ciphertext))"

section \<open>Key schedule\<close>

record session_keys =
  encC2S :: bytes
  encS2C :: bytes
  macC2S :: bytes
  macS2C :: bytes
  envMAC :: bytes
  resumption :: "bytes option"

definition InfoSessionEncC2S :: jstr where "InfoSessionEncC2S = js ''SEMP-v1-session-enc-c2s''"
definition InfoSessionEncS2C :: jstr where "InfoSessionEncS2C = js ''SEMP-v1-session-enc-s2c''"
definition InfoSessionMACC2S :: jstr where "InfoSessionMACC2S = js ''SEMP-v1-session-mac-c2s''"
definition InfoSessionMACS2C :: jstr where "InfoSessionMACS2C = js ''SEMP-v1-session-mac-s2c''"
definition InfoSessionEnvMAC :: jstr where "InfoSessionEnvMAC = js ''SEMP-v1-session-env-mac''"
definition InfoSessionResumption :: jstr where "InfoSessionResumption = js ''SEMP-v1-session-resumption''"
definition SessionKeyLength :: nat where "SessionKeyLength = 32"

text \<open>\<open>extract(salt, ikm)\<close> of the KDF interface; the primitive takes the key material first.\<close>

definition kdf_extract :: "primitives \<Rightarrow> bytes \<Rightarrow> bytes \<Rightarrow> bytes" where
  "kdf_extract C salt ikm = hk_extract C ikm salt"

definition kdf_expand :: "primitives \<Rightarrow> bytes \<Rightarrow> bytes \<Rightarrow> nat \<Rightarrow> bytes" where
  "kdf_expand C prk info len = hk_expand C prk info len"

definition deriveSessionKeys ::
  "primitives \<Rightarrow> (jstr \<Rightarrow> bytes) \<Rightarrow> bytes \<Rightarrow> bytes \<Rightarrow> bytes \<Rightarrow> session_keys"
where
  "deriveSessionKeys C utf8 sharedSecret clientNonce serverNonce =
     (let salt = clientNonce @ serverNonce;
          prk = kdf_extract C salt sharedSecret in
      \<lparr>encC2S = kdf_expand C prk (utf8 InfoSessionEncC2S) SessionKeyLength,
       encS2C = kdf_expand C prk (utf8 InfoSessionEncS2C) SessionKeyLength,
       macC2S = kdf_expand C prk (utf8 InfoSessionMACC2S) SessionKeyLength,
       macS2C = kdf_expand C prk (utf8 InfoSessionMACS2C) SessionKeyLength,
       envMAC = kdf_expand C prk (utf8 InfoSessionEnvMAC) SessionKeyLength,
       resumption = None\<rparr>)"

definition deriveSessionKeysWithResumption ::
  "primitives \<Rightarrow> (jstr \<Rightarrow> bytes) \<Rightarrow> bytes \<Rightarrow> bytes \<Rightarrow> bytes \<Rightarrow> session_keys"
where
  "deriveSessionKeysWithResumption C utf8 sharedSecret clientNonce serverNonce =
     (let salt = clientNonce @ serverNonce;
          prk = kdf_extract C salt sharedSecret in
      \<lparr>encC2S = kdf_expand C prk (utf8 InfoSessionEncC2S) SessionKeyLength,
       encS2C = kdf_expand C prk (utf8 InfoSessionEncS2C) SessionKeyLength,
       macC2S = kdf_expand C prk (utf8 InfoSessionMACC2S) SessionKeyLength,
       macS2C = kdf_expand C prk (utf8 InfoSessionMACS2C) SessionKeyLength,
       envMAC = kdf_expand C prk (utf8 InfoSessionEnvMAC) SessionKeyLength,
       resumption = Some (kdf_expand C prk (utf8 InfoSessionResumption) SessionKeyLength)\<rparr>)"

definition deriveResumedSessionKeys ::
  "primitives \<Rightarrow> (jstr \<Rightarrow> bytes) \<Rightarrow> bytes \<Rightarrow> bytes \<Rightarrow> bytes \<Rightarrow> bytes \<Rightarrow> session_keys"
where
  "deriveResumedSessionKeys C utf8 ephemeralSharedSecret kResumption clientNonce serverNonce =
     (let ikm = ephemeralSharedSecret @ kResumption;
          salt = clientNonce @ serverNonce;
          prk = kdf_extract C salt ikm in
      \<lparr>encC2S = kdf_expand C prk (utf8 InfoSessionEncC2S) SessionKeyLength,
       encS2C = kdf_expand C prk (utf8 InfoSessionEncS2C) SessionKeyLength,
       macC2S = kdf_expand C prk (utf8 InfoSessionMACC2S) SessionKeyLength,
       macS2C = kdf_expand C prk (utf8 InfoSessionMACS2C) SessionKeyLength,
       envMAC = kdf_expand C prk (utf8 InfoSessionEnvMAC) SessionKeyLength,
       resumption = None\<rparr>)"

definition deriveRekeyKeys ::
  "primitives \<Rightarrow> (jstr \<Rightarrow> bytes) \<Rightarrow> bytes \<Rightarrow> bytes \<Rightarrow> bytes \<Rightarrow> session_keys"
where
  "deriveRekeyKeys C utf8 sharedSecret rekeyNonce responderNonce =
     deriveSessionKeys C utf8 sharedSecret rekeyNonce responderNonce"

section \<open>Key agreement\<close>

definition Kyber768PublicKeySize :: nat where "Kyber768PublicKeySize = 1184"
definition Kyber768PrivateKeySize :: nat where "Kyber768PrivateKeySize = 2400"
definition Kyber768CiphertextSize :: nat where "Kyber768CiphertextSize = 1088"
definition Kyber768SharedKeySize :: nat where "Kyber768SharedKeySize = 32"
definition X25519Size :: nat where "X25519Size = 32"
definition HybridPublicKeySize :: nat where "HybridPublicKeySize = Kyber768PublicKeySize + X25519Size"
definition HybridPrivateKeySize :: nat where "HybridPrivateKeySize = Kyber768PrivateKeySize + X25519Size"
definition HybridCiphertextSize :: nat where "HybridCiphertextSize = Kyber768CiphertextSize + X25519Size"
definition HybridSharedSecretSize :: nat where "HybridSharedSecretSize = Kyber768SharedKeySize + X25519Size"

lemmas kem_sizes = HybridPublicKeySize_def HybridPrivateKeySize_def HybridCiphertextSize_def
  HybridSharedSecretSize_def Kyber768PublicKeySize_def Kyber768PrivateKeySize_def
  Kyber768CiphertextSize_def Kyber768SharedKeySize_def X25519Size_def

definition x25519Agree :: "primitives \<Rightarrow> bytes \<Rightarrow> bytes \<Rightarrow> crypto_error + bytes" where
  "x25519Agree C secretKey publicKey = prim (x_shared C secretKey publicKey)"

definition x25519PublicKey :: "primitives \<Rightarrow> bytes \<Rightarrow> crypto_error + bytes" where
  "x25519PublicKey C secretKey = prim (x_public C secretKey)"

definition kyber768KeyPairFromSeed :: "primitives \<Rightarrow> bytes \<Rightarrow> crypto_error + (bytes \<times> bytes)" where
  "kyber768KeyPairFromSeed C seed =
     (if length seed \<noteq> 64 then Inl (BadLength (length seed) 64)
      else let (secretKey, publicKey) = kem_keygen C seed in Inr (publicKey, secretKey))"

definition kyber768EncapsulateDeterministic ::
  "primitives \<Rightarrow> bytes \<Rightarrow> bytes \<Rightarrow> crypto_error + (bytes \<times> bytes)"
where
  "kyber768EncapsulateDeterministic C publicKey m = prim (kem_encaps C publicKey m)"

definition kyber768Decapsulate :: "primitives \<Rightarrow> bytes \<Rightarrow> bytes \<Rightarrow> crypto_error + bytes" where
  "kyber768Decapsulate C secretKey ciphertext = prim (kem_decaps C ciphertext secretKey)"

definition hybridPrivateKeyFromKyberAndX25519 :: "bytes \<Rightarrow> bytes \<Rightarrow> crypto_error + bytes" where
  "hybridPrivateKeyFromKyberAndX25519 x25519Priv kyberPriv =
     (if length x25519Priv \<noteq> X25519Size then Inl (BadLength (length x25519Priv) X25519Size)
      else if length kyberPriv \<noteq> Kyber768PrivateKeySize then
        Inl (BadLength (length kyberPriv) Kyber768PrivateKeySize)
      else
        bindR (bufSet (zeros HybridPrivateKeySize) 0 kyberPriv) (\<lambda>out.
        bufSet out Kyber768PrivateKeySize x25519Priv))"

text \<open>\<open>hybridGenerateKeyPair\<close>; the two draws from \<open>getRandomValues\<close> are arguments.\<close>

definition hybridGenerateKeyPair ::
  "primitives \<Rightarrow> bytes \<Rightarrow> bytes \<Rightarrow> crypto_error + (bytes \<times> bytes)"
where
  "hybridGenerateKeyPair C xPriv seed =
     bindR (x25519PublicKey C xPriv) (\<lambda>xPub.
     let (kyberPriv, kyberPub) = kem_keygen C seed in
     bindR (bufSet (zeros HybridPublicKeySize) 0 kyberPub) (\<lambda>pub.
     bindR (bufSet pub Kyber768PublicKeySize xPub) (\<lambda>pub.
     bindR (bufSet (zeros HybridPrivateKeySize) 0 kyberPriv) (\<lambda>priv.
     bindR (bufSet priv Kyber768PrivateKeySize xPriv) (\<lambda>priv.
     Inr (pub, priv))))))"

text \<open>The layouts of a ciphertext and of a shared secret.\<close>

definition hybridOutput :: "bytes \<Rightarrow> bytes \<Rightarrow> bytes \<Rightarrow> bytes \<Rightarrow> crypto_error + (bytes \<times> bytes)" where
  "hybridOutput kyberCt xEphPub kyberSS xSS =
     bindR (bufSet (zeros HybridCiphertextSize) 0 kyberCt) (\<lambda>ciphertext.
     bindR (bufSet ciphertext Kyber768CiphertextSize xEphPub) (\<lambda>ciphertext.
     bindR (bufSet (zeros HybridSharedSecretSize) 0 kyberSS) (\<lambda>sharedSecret.
     bindR (bufSet sharedSecret Kyber768SharedKeySize xSS) (\<lambda>sharedSecret.
     Inr (ciphertext, sharedSecret)))))"

text \<open>\<open>hybridEncapsulate\<close>; the ephemeral key and the encapsulation coins it draws are arguments.\<close>

definition hybridEncapsulate ::
  "primitives \<Rightarrow> bytes \<Rightarrow> bytes \<Rightarrow> bytes \<Rightarrow> crypto_error + (bytes \<times> bytes)"
where
  "hybridEncapsulate C xEphPriv m remotePub =
     (if length remotePub \<noteq> HybridPublicKeySize then Inl (BadLength (length remotePub) HybridPublicKeySize)
      else
        let kyberRemote = take Kyber768PublicKeySize remotePub;
            xRemote = drop Kyber768PublicKeySize remotePub in
        bindR (x25519PublicKey C xEphPriv) (\<lambda>xEphPub.
        bindR (x25519Agree C xEphPriv xRemote) (\<lambda>xSS.
        bindR (prim (kem_encaps C kyberRemote m)) (\<lambda>(kyberCt, kyberSS).
        hybridOutput kyberCt xEphPub kyberSS xSS))))"

definition hybridEncapsulateWithRandomness ::
  "primitives \<Rightarrow> bytes \<Rightarrow> bytes \<times> bytes \<Rightarrow> crypto_error + (bytes \<times> bytes)"
where
  "hybridEncapsulateWithRandomness C remotePub randomness =
     (let (kyberEncapsRandomnessM, ephemeralX25519Priv) = randomness in
      if length remotePub \<noteq> HybridPublicKeySize then Inl (BadLength (length remotePub) HybridPublicKeySize)
      else if length kyberEncapsRandomnessM \<noteq> 32 then Inl (BadLength (length kyberEncapsRandomnessM) 32)
      else if length ephemeralX25519Priv \<noteq> X25519Size then
        Inl (BadLength (length ephemeralX25519Priv) X25519Size)
      else
        let kyberRemote = take Kyber768PublicKeySize remotePub;
            xRemote = drop Kyber768PublicKeySize remotePub in
        bindR (x25519PublicKey C ephemeralX25519Priv) (\<lambda>xEphPub.
        bindR (x25519Agree C ephemeralX25519Priv xRemote) (\<lambda>xSS.
        bindR (prim (kem_encaps C kyberRemote kyberEncapsRandomnessM)) (\<lambda>(kyberCt, kyberSS).
        hybridOutput kyberCt xEphPub kyberSS xSS))))"

definition hybridDecapsulate :: "primitives \<Rightarrow> bytes \<Rightarrow> bytes \<Rightarrow> crypto_error + bytes" where
  "hybridDecapsulate C ciphertext localPriv =
     (if length ciphertext \<noteq> HybridCiphertextSize then
        Inl (BadLength (length ciphertext) HybridCiphertextSize)
      else if length localPriv \<noteq> HybridPrivateKeySize then
        Inl (BadLength (length localPriv) HybridPrivateKeySize)
      else
        let kyberCt = take Kyber768CiphertextSize ciphertext;
            xEphPub = drop Kyber768CiphertextSize ciphertext;
            kyberPriv = take Kyber768PrivateKeySize localPriv;
            xLocalPriv = drop Kyber768PrivateKeySize localPriv in
        bindR (kyber768Decapsulate C kyberPriv kyberCt) (\<lambda>kyberSS.
        bindR (x25519Agree C xLocalPriv xEphPub) (\<lambda>xSS.
        bindR (bufSet (zeros HybridSharedSecretSize) 0 kyberSS) (\<lambda>shared.
        bufSet shared Kyber768SharedKeySize xSS))))"

section \<open>What the primitives promise\<close>

text \<open>
  X25519: keys and shared secrets have 32 bytes and both sides compute the same secret. ML-KEM-768:
  the sizes of FIPS 203, and decapsulation recovers the encapsulated secret (its failure probability
  of about 2 to the power -164 is neglected).
\<close>

definition dh_ok :: "primitives \<Rightarrow> bool" where
  "dh_ok C \<longleftrightarrow>
     (\<forall>a pa. x_public C a = Some pa \<longrightarrow> length a = 32 \<and> length pa = 32) \<and>
     (\<forall>a p s. x_shared C a p = Some s \<longrightarrow> length s = 32) \<and>
     (\<forall>a b pa pb. x_public C a = Some pa \<longrightarrow> x_public C b = Some pb \<longrightarrow> x_shared C a pb = x_shared C b pa)"

definition kem_ok :: "primitives \<Rightarrow> bool" where
  "kem_ok C \<longleftrightarrow>
     (\<forall>seed sk pk. kem_keygen C seed = (sk, pk) \<longrightarrow> length sk = 2400 \<and> length pk = 1184 \<and>
        (\<forall>m ct ss. kem_encaps C pk m = Some (ct, ss) \<longrightarrow>
           length ct = 1088 \<and> length ss = 32 \<and> kem_decaps C ct sk = Some ss))"

lemma prim_Inr [simp]: "prim x = Inr v \<longleftrightarrow> x = Some v"
  by (cases x) auto

lemma hybridOutput_ok:
  assumes "length kyberCt = 1088" "length xEphPub = 32" "length kyberSS = 32" "length xSS = 32"
  shows "hybridOutput kyberCt xEphPub kyberSS xSS = Inr (kyberCt @ xEphPub, kyberSS @ xSS)"
  using assms by (simp add: hybridOutput_def kem_sizes bufSet_first bufSet_second)

lemma hybridGenerateKeyPair_Inr:
  assumes "kem_ok C" "dh_ok C" "hybridGenerateKeyPair C xPriv seed = Inr (pub, priv)"
  obtains xPub sk pk where "x_public C xPriv = Some xPub" "kem_keygen C seed = (sk, pk)"
    "length xPub = 32" "length xPriv = 32" "length sk = 2400" "length pk = 1184"
    "pub = pk @ xPub" "priv = sk @ xPriv"
proof -
  obtain sk pk where k: "kem_keygen C seed = (sk, pk)" by force
  with assms(1) have l: "length sk = 2400" "length pk = 1184" by (auto simp: kem_ok_def)
  from assms(3) obtain xPub where x: "x_public C xPriv = Some xPub"
    by (auto simp: hybridGenerateKeyPair_def x25519PublicKey_def bindR_eq_Inr)
  with assms(2) have lx: "length xPriv = 32" "length xPub = 32" by (auto simp: dh_ok_def)
  have "pub = pk @ xPub \<and> priv = sk @ xPriv"
    using assms(3) k x l lx
    by (simp add: hybridGenerateKeyPair_def x25519PublicKey_def kem_sizes bufSet_first bufSet_second)
  with that k x l lx show ?thesis by blast
qed

lemma hybrid_agree:
  assumes "kem_ok C" "dh_ok C"
    and "hybridGenerateKeyPair C xPriv seed = Inr (pub, priv)"
    and "hybridEncapsulate C xEphPriv m pub = Inr (ct, ss)"
  shows "hybridDecapsulate C ct priv = Inr ss \<and> length ct = HybridCiphertextSize
    \<and> length ss = HybridSharedSecretSize"
proof -
  from hybridGenerateKeyPair_Inr [OF assms(1-3)] obtain xPub sk pk where k:
    "x_public C xPriv = Some xPub" "kem_keygen C seed = (sk, pk)"
    "length xPub = 32" "length xPriv = 32" "length sk = 2400" "length pk = 1184"
    "pub = pk @ xPub" "priv = sk @ xPriv" by metis
  have "length pub = HybridPublicKeySize" using k by (simp add: kem_sizes)
  with assms(4) k obtain ePub xSS kyberCt kyberSS where e: "x_public C xEphPriv = Some ePub"
    "x_shared C xEphPriv xPub = Some xSS" "kem_encaps C pk m = Some (kyberCt, kyberSS)"
    "hybridOutput kyberCt ePub kyberSS xSS = Inr (ct, ss)"
    by (auto simp: hybridEncapsulate_def x25519PublicKey_def x25519Agree_def bindR_eq_Inr Let_def
        Kyber768PublicKeySize_def)
  have kd: "length kyberCt = 1088" "length kyberSS = 32" "kem_decaps C kyberCt sk = Some kyberSS"
    using assms(1) k(2) e(3) unfolding kem_ok_def by blast+
  have xd: "length ePub = 32" "length xSS = 32" "x_shared C xPriv ePub = Some xSS"
    using assms(2) k(1) e(1,2) unfolding dh_ok_def by metis+
  from e(4) kd xd have out: "ct = kyberCt @ ePub" "ss = kyberSS @ xSS" by (simp_all add: hybridOutput_ok)
  with kd xd k show ?thesis
    by (simp add: hybridDecapsulate_def kyber768Decapsulate_def x25519Agree_def kem_sizes
        bufSet_first bufSet_second)
qed

text \<open>The post-quantum suite agrees on a secret: decapsulating, with a generated key pair, what
  \<open>hybridEncapsulate\<close> made for its public key gives the same 64 bytes, and the ciphertext has the
  size of the wire format.\<close>

theorem hybrid_kem_roundtrip:
  assumes "kem_ok C" "dh_ok C"
    and "hybridGenerateKeyPair C xPriv seed = Inr (pub, priv)"
    and "hybridEncapsulate C xEphPriv m pub = Inr (ct, ss)"
  shows "hybridDecapsulate C ct priv = Inr ss \<and> length ct = 1120 \<and> length ss = 64"
  using hybrid_agree [OF assms] by (simp add: kem_sizes)

section \<open>Primitives on which the hypotheses hold\<close>

definition demo_prims :: primitives where
  "demo_prims = \<lparr>
     x_shared = (\<lambda>a p. if length a = 32 \<and> length p = 32 then Some (map2 (+) a p) else None),
     x_public = (\<lambda>a. if length a = 32 then Some a else None),
     kem_keygen = (\<lambda>seed. (zeros 2400, zeros 1184)),
     kem_encaps = (\<lambda>pk m. if length m = 32 then Some (m @ zeros 1056, m) else None),
     kem_decaps = (\<lambda>ct sk. Some (take 32 ct)),
     hk_extract = (\<lambda>ikm salt. ikm @ salt), hk_expand = (\<lambda>prk info len. take len (prk @ info @ zeros len)),
     chacha_enc = (\<lambda>k n aad pt. Some (k @ pt)),
     chacha_dec = (\<lambda>k n aad ct. if take (length k) ct = k then Some (drop (length k) ct) else None),
     xchacha_enc = (\<lambda>k n aad pt. Some (k @ pt)),
     xchacha_dec = (\<lambda>k n aad ct. if take (length k) ct = k then Some (drop (length k) ct) else None),
     hmac_sha256 = (\<lambda>k m. k @ m), sha256 = (\<lambda>m. replicate 32 (sum_list m)),
     ed_public = (\<lambda>seed. take 32 (seed @ zeros 32)), ed_sign = (\<lambda>m seed. replicate 64 (sum_list (seed @ m))),
     ed_verify = (\<lambda>s m pub. Some (s = replicate 64 (sum_list (pub @ m))))\<rparr>"

lemma demo_prims_ok: "kem_ok demo_prims" "dh_ok demo_prims"
proof -
  have "map2 (+) a b = map2 (+) b a" for a b :: bytes
    by (rule nth_equalityI) (simp_all add: add.commute)
  then show "dh_ok demo_prims" by (auto simp: dh_ok_def demo_prims_def)
qed (auto simp: kem_ok_def demo_prims_def)

theorem hybrid_kem_roundtrip_witness:
  "\<exists>pub priv ct ss. hybridGenerateKeyPair demo_prims (zeros 32) [] = Inr (pub, priv)
     \<and> hybridEncapsulate demo_prims (replicate 32 1) (replicate 32 2) pub = Inr (ct, ss)
     \<and> hybridDecapsulate demo_prims ct priv = Inr ss"
proof -
  have "hybridGenerateKeyPair demo_prims (zeros 32) [] = Inr (zeros 1184 @ zeros 32, zeros 2400 @ zeros 32)"
    by (simp add: hybridGenerateKeyPair_def demo_prims_def x25519PublicKey_def kem_sizes bufSet_first
        bufSet_second)
  moreover have "isInr (hybridEncapsulate demo_prims (replicate 32 1) (replicate 32 2) (zeros 1184 @ zeros 32))"
    by (simp add: hybridEncapsulate_def demo_prims_def x25519PublicKey_def x25519Agree_def kem_sizes
        hybridOutput_ok)
  ultimately show ?thesis
    using hybrid_kem_roundtrip [OF demo_prims_ok] by (fastforce simp: isInr_iff)
qed

end
