(* ===== verification/JsonRead.thy ===== *)
theory JsonRead
  imports Canonical
begin

text \<open>
  A reader for the text \<open>JSON.stringify\<close> writes (no white space), with the proof that it undoes
  \<open>print\<close>: the concrete \<open>JSON.parse\<close> on which the theorems about message exchanges are instantiated.
\<close>

fun readValue :: "(jstr \<Rightarrow> 'n option) \<Rightarrow> nat \<Rightarrow> jstr \<Rightarrow> ('n json \<times> jstr) option"
  and readItems :: "(jstr \<Rightarrow> 'n option) \<Rightarrow> nat \<Rightarrow> jstr \<Rightarrow> ('n json list \<times> jstr) option"
  and readMembers :: "(jstr \<Rightarrow> 'n option) \<Rightarrow> nat \<Rightarrow> jstr \<Rightarrow> ((jstr \<times> 'n json) list \<times> jstr) option"
where
  "readValue num 0 s = None"
| "readValue num (Suc f) s =
     (case s of [] \<Rightarrow> None | c # r \<Rightarrow>
        if c = 34 then map_option (map_prod JStr id) (unquote r)
        else if c = 91 then map_option (map_prod JArr id) (readItems num f r)
        else if c = 123 then map_option (map_prod JObj id) (readMembers num f r)
        else if c = 110 then (if take 3 r = js ''ull'' then Some (JNull, drop 3 r) else None)
        else if c = 116 then (if take 3 r = js ''rue'' then Some (JBool True, drop 3 r) else None)
        else if c = 102 then (if take 4 r = js ''alse'' then Some (JBool False, drop 4 r) else None)
        else case num (takeWhile number_unit s) of
            None \<Rightarrow> None | Some n \<Rightarrow> Some (JNum n, dropWhile number_unit s))"
| "readItems num 0 s = None"
| "readItems num (Suc f) s =
     (case s of [] \<Rightarrow> None | c # r \<Rightarrow>
        if c = 93 then Some ([], r)
        else case readValue num f s of None \<Rightarrow> None | Some (v, s') \<Rightarrow>
          (case s' of [] \<Rightarrow> None | d # r' \<Rightarrow>
             if d = 44 then map_option (map_prod ((#) v) id) (readItems num f r')
             else if d = 93 then Some ([v], r') else None))"
| "readMembers num 0 s = None"
| "readMembers num (Suc f) s =
     (case s of [] \<Rightarrow> None | c # r \<Rightarrow>
        if c = 125 then Some ([], r)
        else case unquote r of None \<Rightarrow> None | Some (k, s1) \<Rightarrow>
          (case readValue num f (tl s1) of None \<Rightarrow> None | Some (v, s') \<Rightarrow>
             (case s' of [] \<Rightarrow> None | d # r' \<Rightarrow>
                if d = 44 then map_option (map_prod ((#) (k, v)) id) (readMembers num f r')
                else if d = 125 then Some ([(k, v)], r') else None)))"

definition readJson :: "(jstr \<Rightarrow> 'n option) \<Rightarrow> jstr \<Rightarrow> 'n json option" where
  "readJson num s = (case readValue num (length s) s of Some (v, []) \<Rightarrow> Some v | _ \<Rightarrow> None)"

definition reads :: "(jstr \<Rightarrow> 'n option) \<Rightarrow> ('n \<Rightarrow> jstr) \<Rightarrow> 'n json \<Rightarrow> bool" where
  "reads num numstr v \<longleftrightarrow> (\<forall>f x. length (print numstr v) \<le> f \<longrightarrow> ends x \<longrightarrow>
     readValue num f (print numstr v @ x) = Some (v, x))"

lemma print_head:
  assumes "number_format numstr"
  obtains c cs where "print numstr v = c # cs" "c \<noteq> 93" "c \<noteq> 125" "c \<noteq> 44"
  using print_first [OF assms, of v] first_unit_not_close by metis

lemma readItems_commas:
  assumes "number_format numstr" "\<And>v. v \<in> set vs \<Longrightarrow> reads num numstr v"
    and "length (commas (map (print numstr) vs)) + 1 \<le> f"
  shows "readItems num f (commas (map (print numstr) vs) @ 93 # x) = Some (vs, x)"
  using assms(2,3)
proof (induction vs arbitrary: f)
  case Nil
  then show ?case by (cases f) auto
next
  case (Cons v vs)
  obtain g where f: "f = Suc g" using Cons.prems(2) by (cases f) auto
  obtain c cs where h: "print numstr v = c # cs" "c \<noteq> 93" using print_head [OF assms(1)] by metis
  define z where "z = (case vs of [] \<Rightarrow> 93 # x | _ \<Rightarrow> 44 # commas (map (print numstr) vs) @ 93 # x)"
  have whole: "commas (map (print numstr) (v # vs)) @ 93 # x = print numstr v @ z"
    by (cases vs) (simp_all add: z_def)
  have "ends z" by (cases vs) (simp_all add: z_def)
  moreover have "length (print numstr v) \<le> g" using Cons.prems(2) f by (cases vs) auto
  ultimately have v: "readValue num g (print numstr v @ z) = Some (v, z)"
    using Cons.prems(1) by (simp add: reads_def)
  have step: "readItems num f (print numstr v @ z) = (case z of [] \<Rightarrow> None | d # r' \<Rightarrow>
      if d = 44 then map_option (map_prod ((#) v) id) (readItems num g r')
      else if d = 93 then Some ([v], r') else None)"
    using v h by (simp add: f)
  show ?case
  proof (cases vs)
    case Nil
    then show ?thesis unfolding whole step by (simp add: z_def)
  next
    case (Cons w ws)
    have "readItems num g (commas (map (print numstr) vs) @ 93 # x) = Some (vs, x)"
      by (rule Cons.IH) (use Cons.prems f h Cons in auto)
    then show ?thesis unfolding whole step by (simp add: z_def Cons)
  qed
qed

lemma readMembers_commas:
  assumes "\<And>k v. (k, v) \<in> set es \<Longrightarrow> reads num numstr v"
    and "length (commas (map (\<lambda>(k, v). quote k @ 58 # print numstr v) es)) + 1 \<le> f"
  shows "readMembers num f (commas (map (\<lambda>(k, v). quote k @ 58 # print numstr v) es) @ 125 # x) = Some (es, x)"
  using assms
proof (induction es arbitrary: f)
  case Nil
  then show ?case by (cases f) auto
next
  case (Cons e es)
  obtain k v where e: "e = (k, v)" by force
  obtain g where f: "f = Suc g" using Cons.prems(2) by (cases f) auto
  let ?m = "map (\<lambda>(k, v). quote k @ 58 # print numstr v) es"
  define z where "z = (case es of [] \<Rightarrow> 125 # x | _ \<Rightarrow> 44 # commas ?m @ 125 # x)"
  have whole: "commas (map (\<lambda>(k, v). quote k @ 58 # print numstr v) (e # es)) @ 125 # x
      = 34 # quote_units k @ 34 # 58 # print numstr v @ z"
    by (cases es) (simp_all add: z_def e quote_def)
  have "ends z" by (cases es) (simp_all add: z_def)
  moreover have "length (print numstr v) \<le> g" using Cons.prems(2) f e by (cases es) (auto simp: quote_def)
  ultimately have v: "readValue num g (print numstr v @ z) = Some (v, z)"
    using Cons.prems(1) [of k v] e unfolding reads_def by simp
  have step: "readMembers num f (34 # quote_units k @ 34 # 58 # print numstr v @ z) =
     (case z of [] \<Rightarrow> None | d # r' \<Rightarrow>
        if d = 44 then map_option (map_prod ((#) (k, v)) id) (readMembers num g r')
        else if d = 125 then Some ([(k, v)], r') else None)"
    using v by (simp add: f unquote_quote)
  show ?case
  proof (cases es)
    case Nil
    then show ?thesis unfolding whole step by (simp add: z_def e)
  next
    case (Cons e' es')
    have "readMembers num g (commas ?m @ 125 # x) = Some (es, x)"
      by (rule Cons.IH) (use Cons.prems f Cons e in \<open>auto simp: quote_def\<close>)
    then show ?thesis unfolding whole step by (simp add: z_def Cons e)
  qed
qed

text \<open>The reader undoes the printer, given a reader of numbers that undoes their printing.\<close>

lemma number_reads:
  assumes "number_format numstr" "num (numstr n) = Some n"
  shows "reads num numstr (JNum n)"
  unfolding reads_def
proof (intro allI impI)
  fix f x
  assume f: "length (print numstr (JNum n)) \<le> f" and x: "ends x"
  obtain c cs where c: "numstr n = c # cs" "c = 45 \<or> 48 \<le> c \<and> c \<le> 57" "\<forall>d \<in> set cs. number_unit d"
    using assms(1) unfolding number_format_def by metis
  have nu: "\<forall>d \<in> set (numstr n). number_unit d" using c by (auto simp: number_unit_def)
  have x0: "takeWhile number_unit x = []" "dropWhile number_unit x = x"
    using x by (cases x; auto simp: ends_def number_unit_def)+
  have tw: "takeWhile number_unit (numstr n @ x) = numstr n" "dropWhile number_unit (numstr n @ x) = x"
    using nu x0 by (simp_all add: takeWhile_append2 dropWhile_append2)
  obtain g where g: "f = Suc g" using f c(1) by (cases f) auto
  have "c \<noteq> 34 \<and> c \<noteq> 91 \<and> c \<noteq> 123 \<and> c \<noteq> 110 \<and> c \<noteq> 116 \<and> c \<noteq> 102" using c(2) by auto
  then show "readValue num f (print numstr (JNum n) @ x) = Some (JNum n, x)"
    using tw assms(2) c(1) by (simp add: g)
qed

lemma print_reads:
  assumes nf: "number_format numstr" and num: "\<And>n. num (numstr n) = Some n"
  shows "reads num numstr v"
proof (induction v)
  case (JNum n)
  show ?case using nf num by (rule number_reads)
next
  case (JStr s)
  show ?case unfolding reads_def
  proof (intro allI impI)
    fix f x assume "length (print numstr (JStr s)) \<le> f"
    then show "readValue num f (print numstr (JStr s) @ x) = Some (JStr s, x)"
      by (cases f) (simp_all add: quote_def unquote_quote)
  qed
next
  case (JArr vs)
  show ?case unfolding reads_def
  proof (intro allI impI)
    fix f x assume f: "length (print numstr (JArr vs)) \<le> f"
    then obtain g where g: "f = Suc g" by (cases f) auto
    with f have "readItems num g (commas (map (print numstr) vs) @ 93 # x) = Some (vs, x)"
      by (intro readItems_commas [OF nf] JArr.IH) auto
    then show "readValue num f (print numstr (JArr vs) @ x) = Some (JArr vs, x)" by (simp add: g)
  qed
next
  case (JObj es)
  have m: "map member_text (map (\<lambda>(k, v). (k, print numstr v)) es) = map (\<lambda>(k, v). quote k @ 58 # print numstr v) es"
    by (auto simp: member_text_def)
  show ?case unfolding reads_def
  proof (intro allI impI)
    fix f x assume f: "length (print numstr (JObj es)) \<le> f"
    then obtain g where g: "f = Suc g" by (cases f) auto
    have "readMembers num g (commas (map (\<lambda>(k, v). quote k @ 58 # print numstr v) es) @ 125 # x) = Some (es, x)"
      by (rule readMembers_commas) (use f g m JObj.IH in \<open>auto simp del: map_map\<close>)
    then show "readValue num f (print numstr (JObj es) @ x) = Some (JObj es, x)"
      by (simp add: g m del: map_map)
  qed
next
  case JNull
  show ?case unfolding reads_def
  proof (intro allI impI)
    fix f x assume "length (print numstr JNull) \<le> f"
    then show "readValue num f (print numstr JNull @ x) = Some (JNull, x)"
      by (cases f) (simp_all add: js_def)
  qed
next
  case (JBool b)
  show ?case unfolding reads_def
  proof (intro allI impI)
    fix f x assume "length (print numstr (JBool b)) \<le> f"
    then show "readValue num f (print numstr (JBool b) @ x) = Some (JBool b, x)"
      by (cases f; cases b) (simp_all add: js_def)
  qed
qed

lemma readJson_print:
  assumes "number_format numstr" "\<And>n. num (numstr n) = Some n"
  shows "readJson num (print numstr v) = Some v"
  using print_reads [of numstr num v, OF assms(1) assms(2)] by (simp add: readJson_def reads_def) (metis append_Nil2 ends_simps(1) option.case prod.case list.case(1) order_refl)

section \<open>The instance\<close>

definition demo_num :: "jstr \<Rightarrow> int option" where
  "demo_num s = (case s of [] \<Rightarrow> None | c # cs \<Rightarrow> Some (if c = 45 then - int (length cs) else int (length cs)))"

lemma demo_num_str: "demo_num (demo_numstr n) = Some n"
  by (simp add: demo_num_def demo_numstr_def)

fun demo_decode :: "bytes \<Rightarrow> jstr" where
  "demo_decode (h # l # bs) = (push_bit 8 (ucast h) + ucast l) # demo_decode bs"
| "demo_decode _ = []"

lemma demo_unit: "push_bit 8 (ucast (ucast (drop_bit 8 c) :: byte)) + ucast (ucast c :: byte) = (c :: unit16)"
proof -
  have "push_bit 8 (ucast (ucast (drop_bit 8 c) :: byte)) + ucast (ucast c :: byte)
      = or (push_bit 8 (ucast (ucast (drop_bit 8 c) :: byte))) (ucast (ucast c :: byte) :: unit16)"
    by (rule disjunctive_add) (auto simp: bit_push_bit_iff bit_ucast_iff)
  also have "\<dots> = c"
    by (rule bit_word_eqI) (auto simp: bit_or_iff bit_push_bit_iff bit_ucast_iff bit_drop_bit_eq)
  finally show ?thesis .
qed

lemma demo_decode_utf8: "demo_decode (demo_utf8 s) = s"
  by (induction s) (simp_all add: demo_utf8_def demo_unit)

definition demo_json_parse :: "bytes \<Rightarrow> int json option" where
  "demo_json_parse b = readJson demo_num (demo_decode b)"

lemma demo_json_parse_print: "demo_json_parse (demo_utf8 (print demo_numstr v)) = Some v"
  by (simp add: demo_json_parse_def demo_decode_utf8 readJson_print demo_number_format demo_num_str)

end
