(* ===== verification/JsValue.thy ===== *)
theory JsValue
  imports Crypto JsonRead
begin

text \<open>
  Values as the message handlers see them. A received frame is decoded and parsed into a JSON value
  whose fields the code reads without checking their types first, so the handlers work on JavaScript
  values: a JSON value, or \<open>undefined\<close> (\<open>None\<close>). Also here: operations with state that may throw,
  and what the handlers use of the platform (\<open>env\<close>).
\<close>

section \<open>Operations with state\<close>

text \<open>
  A method of a class takes the object's state and returns it updated, with the result or the
  exception; an exception keeps the state reached so far.
\<close>

type_synonym ('s, 'e, 'a) op = "'s \<Rightarrow> 's \<times> ('e + 'a)"

definition ret :: "'a \<Rightarrow> ('s, 'e, 'a) op" where
  "ret x = (\<lambda>s. (s, Inr x))"

definition throw :: "'e \<Rightarrow> ('s, 'e, 'a) op" where
  "throw e = (\<lambda>s. (s, Inl e))"

definition bindX :: "('s, 'e, 'a) op \<Rightarrow> ('a \<Rightarrow> ('s, 'e, 'b) op) \<Rightarrow> ('s, 'e, 'b) op" where
  "bindX m f = (\<lambda>s. case m s of (s', Inl e) \<Rightarrow> (s', Inl e) | (s', Inr x) \<Rightarrow> f x s')"

definition get :: "('s, 'e, 's) op" where
  "get = (\<lambda>s. (s, Inr s))"

definition modify :: "('s \<Rightarrow> 's) \<Rightarrow> ('s, 'e, unit) op" where
  "modify f = (\<lambda>s. (f s, Inr ()))"

definition lift :: "'e + 'a \<Rightarrow> ('s, 'e, 'a) op" where
  "lift r = (\<lambda>s. (s, r))"

definition throwIf :: "bool \<Rightarrow> 'e \<Rightarrow> ('s, 'e, unit) op" where
  "throwIf b e = (if b then throw e else ret ())"

lemma op_simps [simp]:
  "ret x s = (s, Inr x)" "throw e s = (s, Inl e)" "get s = (s, Inr s)" "modify f s = (f s, Inr ())"
  "lift r s = (s, r)" "throwIf True e = throw e" "throwIf False e = ret ()"
  by (simp_all add: ret_def throw_def get_def modify_def lift_def throwIf_def)

lemma bindX_ret [simp]: "bindX (ret x) f = f x" by (simp add: bindX_def fun_eq_iff)
lemma bindX_throw [simp]: "bindX (throw e) f = throw e" by (simp add: bindX_def fun_eq_iff)
lemma bindX_get [simp]: "bindX get f s = f s s" by (simp add: bindX_def)
lemma bindX_modify [simp]: "bindX (modify g) f s = f () (g s)" by (simp add: bindX_def)
lemma bindX_lift [simp]: "bindX (lift (Inr x)) f = f x" "bindX (lift (Inl e)) f = throw e"
  by (simp_all add: bindX_def fun_eq_iff)

text \<open>The ways a sequence returns normally.\<close>

lemma bindX_Inr: "bindX m f s = (s', Inr y) \<longleftrightarrow> (\<exists>s1 x. m s = (s1, Inr x) \<and> f x s1 = (s', Inr y))"
  by (auto simp: bindX_def split: prod.splits sum.splits)

lemma lift_Inr: "lift r s = (s', Inr y) \<longleftrightarrow> s' = s \<and> r = Inr y"
  by (auto simp: lift_def)

lemma throwIf_Inr: "throwIf b e s = (s', Inr y) \<longleftrightarrow> \<not> b \<and> s' = s"
  by (auto simp: throwIf_def)

lemma throwIf_step: "bindX (throwIf b e) f = (if b then throw e else f ())"
  by simp

text \<open>
  \<open>post Q m s\<close>: the state that running \<open>m\<close> in \<open>s\<close> leaves satisfies \<open>Q\<close>, whether it returns or throws.
  The rules, one per construct, reduce it to the states in which the operation can stop.
\<close>

named_theorems vcg

definition post :: "('s \<Rightarrow> bool) \<Rightarrow> ('s, 'e, 'a) op \<Rightarrow> 's \<Rightarrow> bool" where
  "post Q m s \<longleftrightarrow> Q (fst (m s))"

lemma vcg_ret [vcg]: "Q s \<Longrightarrow> post Q (ret x) s" by (simp add: post_def)
lemma vcg_throw [vcg]: "Q s \<Longrightarrow> post Q (throw e) s" by (simp add: post_def)
lemma vcg_modify [vcg]: "Q (f s) \<Longrightarrow> post Q (modify f) s" by (simp add: post_def)
lemma vcg_lift [vcg]: "Q s \<Longrightarrow> post Q (lift r) s" by (simp add: post_def)
lemma vcg_bind_get [vcg]: "post Q (f s) s \<Longrightarrow> post Q (bindX get f) s" by (simp add: post_def)
lemma vcg_bind_modify [vcg]: "post Q (f ()) (g s) \<Longrightarrow> post Q (bindX (modify g) f) s"
  by (simp add: post_def)
lemma vcg_bind_lift [vcg]:
  "Q s \<Longrightarrow> (\<And>x. r = Inr x \<Longrightarrow> post Q (f x) s) \<Longrightarrow> post Q (bindX (lift r) f) s"
  by (cases r) (simp_all add: post_def)
lemma vcg_bind_throwIf [vcg]:
  "(b \<Longrightarrow> Q s) \<Longrightarrow> (\<not> b \<Longrightarrow> post Q (f ()) s) \<Longrightarrow> post Q (bindX (throwIf b e) f) s"
  by (cases b) (simp_all add: post_def)
lemma vcg_bind_ret [vcg]: "post Q (f x) s \<Longrightarrow> post Q (bindX (ret x) f) s" by simp
lemma vcg_bind_throw [vcg]: "Q s \<Longrightarrow> post Q (bindX (throw e) f) s" by (simp add: post_def)
lemma vcg_bind_bind [vcg]: "post Q (bindX m (\<lambda>x. bindX (f x) g)) s \<Longrightarrow> post Q (bindX (bindX m f) g) s"
  by (auto simp: post_def bindX_def split: prod.splits sum.splits)
lemma vcg_if [vcg]: "(b \<Longrightarrow> post Q m s) \<Longrightarrow> (\<not> b \<Longrightarrow> post Q n s) \<Longrightarrow> post Q (if b then m else n) s"
  by simp
lemma vcg_bind_if [vcg]:
  "(b \<Longrightarrow> post Q (bindX m f) s) \<Longrightarrow> (\<not> b \<Longrightarrow> post Q (bindX n f) s) \<Longrightarrow> post Q (bindX (if b then m else n) f) s"
  by simp
lemma vcg_let [vcg]: "post Q (f x) s \<Longrightarrow> post Q (let y = x in f y) s" by simp
lemma vcg_bind_let [vcg]: "post Q (bindX (f x) g) s \<Longrightarrow> post Q (bindX (let y = x in f y) g) s" by simp
lemma vcg_option [vcg]:
  "(x = None \<Longrightarrow> post Q n s) \<Longrightarrow> (\<And>y. x = Some y \<Longrightarrow> post Q (m y) s) \<Longrightarrow>
   post Q (case x of None \<Rightarrow> n | Some y \<Rightarrow> m y) s"
  by (cases x) simp_all
lemma vcg_bind_option [vcg]:
  "(x = None \<Longrightarrow> post Q (bindX n f) s) \<Longrightarrow> (\<And>y. x = Some y \<Longrightarrow> post Q (bindX (m y) f) s) \<Longrightarrow>
   post Q (bindX (case x of None \<Rightarrow> n | Some y \<Rightarrow> m y) f) s"
  by (cases x) simp_all
lemma vcg_sum [vcg]:
  "(\<And>e. x = Inl e \<Longrightarrow> post Q (n e) s) \<Longrightarrow> (\<And>y. x = Inr y \<Longrightarrow> post Q (m y) s) \<Longrightarrow>
   post Q (case x of Inl e \<Rightarrow> n e | Inr y \<Rightarrow> m y) s"
  by (cases x) simp_all
lemma vcg_bind_sum [vcg]:
  "(\<And>e. x = Inl e \<Longrightarrow> post Q (bindX (n e) f) s) \<Longrightarrow> (\<And>y. x = Inr y \<Longrightarrow> post Q (bindX (m y) f) s) \<Longrightarrow>
   post Q (bindX (case x of Inl e \<Rightarrow> n e | Inr y \<Rightarrow> m y) f) s"
  by (cases x) simp_all
lemma vcg_prod [vcg]: "(\<And>a b. x = (a, b) \<Longrightarrow> post Q (m a b) s) \<Longrightarrow> post Q (case x of (a, b) \<Rightarrow> m a b) s"
  by (cases x) simp

lemma vcg_bind_prod [vcg]:
  "(\<And>a b. x = (a, b) \<Longrightarrow> post Q (bindX (m a b) f) s) \<Longrightarrow> post Q (bindX (case x of (a, b) \<Rightarrow> m a b) f) s"
  by (cases x) simp

lemma post_mono: "post P m s \<Longrightarrow> (\<And>t. P t \<Longrightarrow> Q t) \<Longrightarrow> post Q m s"
  by (simp add: post_def)

text \<open>A call of an operation that has its own specification.\<close>

lemma post_call:
  "post R m s \<Longrightarrow> (\<And>t. R t \<Longrightarrow> Q t) \<Longrightarrow> (\<And>x t. R t \<Longrightarrow> post Q (f x) t) \<Longrightarrow> post Q (bindX m f) s"
  by (auto simp: post_def bindX_def split: prod.splits sum.splits)

section \<open>Values and their fields\<close>

type_synonym 'n jsv = "'n json option"

type_synonym 'n obj = "(jstr \<times> 'n json) list"

abbreviation str :: "string \<Rightarrow> 'n json" where "str s \<equiv> JStr (js s)"

text \<open>\<open>v.k\<close>: reading a field of \<open>undefined\<close> or \<open>null\<close> throws; other values than objects have none of the
  fields the handlers read.\<close>

datatype js_error = TypeError

fun field :: "'n jsv \<Rightarrow> string \<Rightarrow> js_error + 'n jsv" where
  "field None k = Inl TypeError"
| "field (Some JNull) k = Inl TypeError"
| "field (Some (JObj m)) k = Inr (map_of m (js k))"
| "field (Some (JBool b)) k = Inr None"
| "field (Some (JNum n)) k = Inr None"
| "field (Some (JStr s)) k = Inr None"
| "field (Some (JArr xs)) k = Inr None"

text \<open>The object behind a value, for the code's property writes on it.\<close>

fun objOf :: "'n jsv \<Rightarrow> 'n obj" where
  "objOf (Some (JObj m)) = m"
| "objOf v = []"

lemma field_str_obj: "field v k = Inr (Some x) \<Longrightarrow> v = Some (JObj (objOf v)) \<and> map_of (objOf v) (js k) = Some x"
  by (cases "(v, k)" rule: field.cases) auto

text \<open>\<open>v ?? d\<close>.\<close>

fun coalesce :: "'n jsv \<Rightarrow> 'n json \<Rightarrow> 'n json" where
  "coalesce None d = d"
| "coalesce (Some JNull) d = d"
| "coalesce (Some v) d = v"

text \<open>\<open>a === b\<close> on values that come from different places: two objects or arrays are never the same.\<close>

definition strictEq :: "'n jsv \<Rightarrow> 'n jsv \<Rightarrow> bool" where
  "strictEq a b \<longleftrightarrow> a = b \<and> (case a of Some (JArr _) \<Rightarrow> False | Some (JObj _) \<Rightarrow> False | _ \<Rightarrow> True)"

lemma strictEq_str [simp]:
  "strictEq v (Some (JStr s)) \<longleftrightarrow> v = Some (JStr s)" "strictEq (Some (JStr s)) v \<longleftrightarrow> v = Some (JStr s)"
  by (auto simp: strictEq_def)

lemma strictEqD: "strictEq a b \<Longrightarrow> a = b"
  by (simp add: strictEq_def)

section \<open>The platform\<close>

text \<open>
  What the handlers use besides the primitives: the encoders, \<open>JSON.parse\<close> of the decoded text
  (\<open>None\<close> when it throws), \<open>Buffer.from(v, "base64")\<close> and \<open>String(v)\<close> on values that are
  not strings, the comparisons \<open>v > k\<close> and \<open>k >= v\<close> with JavaScript's coercions, and which numbers
  are truthy.
\<close>

record 'n env =
  e_utf8 :: "jstr \<Rightarrow> bytes"
  e_numstr :: "'n \<Rightarrow> jstr"
  e_num :: "int \<Rightarrow> 'n"
  e_enc64 :: "bytes \<Rightarrow> jstr"
  e_dec64 :: "jstr \<Rightarrow> bytes"
  e_prims :: primitives
  e_parse :: "bytes \<Rightarrow> 'n json option"
  e_buffer :: "'n jsv \<Rightarrow> bytes option"
  e_string :: "'n json \<Rightarrow> jstr"
  e_gt :: "'n jsv \<Rightarrow> int \<Rightarrow> bool"
  e_ge :: "int \<Rightarrow> 'n jsv \<Rightarrow> bool"
  e_date :: "jstr \<Rightarrow> time option"
  e_truthy :: "'n \<Rightarrow> bool"

text \<open>The signature functions of \<^verbatim>\<open>keys/sign.ts\<close> as the platform of the signed documents.\<close>

definition plat :: "'n env \<Rightarrow> 'n platform" where
  "plat E = \<lparr>pl_utf8 = e_utf8 E, pl_numstr = e_numstr E, pl_enc64 = e_enc64 E, pl_dec64 = e_dec64 E,
     pl_sign = (\<lambda>seed msg. ed_sign (e_prims E) msg seed), pl_verify = verify (e_prims E)\<rparr>"

abbreviation marshalE :: "'n env \<Rightarrow> 'n json \<Rightarrow> bytes" where
  "marshalE E v \<equiv> marshal (e_utf8 E) (e_numstr E) v"

definition stringOf :: "'n env \<Rightarrow> 'n json \<Rightarrow> jstr" where
  "stringOf E w = (case w of JStr s \<Rightarrow> s | _ \<Rightarrow> e_string E w)"

fun truthy :: "'n env \<Rightarrow> 'n jsv \<Rightarrow> bool" where
  "truthy E None = False"
| "truthy E (Some JNull) = False"
| "truthy E (Some (JBool b)) = b"
| "truthy E (Some (JNum n)) = e_truthy E n"
| "truthy E (Some (JStr s)) = (s \<noteq> [])"
| "truthy E (Some (JArr vs)) = True"
| "truthy E (Some (JObj m)) = True"

text \<open>\<open>base64Decode\<close> of a value and \<open>TextEncoder.encode\<close> of a value.\<close>

definition base64Decode :: "'n env \<Rightarrow> 'n jsv \<Rightarrow> js_error + bytes" where
  "base64Decode E v = (case v of
      Some (JStr s) \<Rightarrow> Inr (e_dec64 E s)
    | _ \<Rightarrow> (case e_buffer E v of None \<Rightarrow> Inl TypeError | Some b \<Rightarrow> Inr b))"

definition encodeText :: "'n env \<Rightarrow> 'n jsv \<Rightarrow> bytes" where
  "encodeText E v = (case v of None \<Rightarrow> [] | Some w \<Rightarrow> e_utf8 E (stringOf E w))"

lemma base64Decode_str [simp]: "base64Decode E (Some (JStr s)) = Inr (e_dec64 E s)"
  by (simp add: base64Decode_def)

lemma encodeText_str [simp]: "encodeText E (Some (JStr s)) = e_utf8 E s"
  by (simp add: encodeText_def stringOf_def)

section \<open>Parsing what was printed\<close>

text \<open>
  \<open>JSON.parse\<close> undoes the serializers on values whose objects have distinct keys that are not array
  indices (which \<open>Object.keys\<close> would list first; they have at most ten digits).
\<close>

definition index_like :: "jstr \<Rightarrow> bool" where
  "index_like k \<longleftrightarrow> length k \<le> 10 \<and> (case k of [] \<Rightarrow> False | c # _ \<Rightarrow> 48 \<le> c \<and> c \<le> 57)"

fun plain :: "'n json \<Rightarrow> bool" where
  "plain (JArr vs) = (\<forall>v \<in> set vs. plain v)"
| "plain (JObj es) = (distinct (map fst es) \<and> (\<forall>(k, v) \<in> set es. \<not> index_like k \<and> plain v))"
| "plain v = True"

definition parse_ok :: "'n env \<Rightarrow> bool" where
  "parse_ok E \<longleftrightarrow> (\<forall>v. plain v \<longrightarrow> e_parse E (e_utf8 E (print (e_numstr E) v)) = Some v)"

lemma distinct_sort_key: "distinct (map f (sort_key g es)) = distinct (map f es)"
proof -
  have "mset (map f (sort_key g es)) = mset (map f es)" by simp
  then show ?thesis by (rule mset_eq_imp_distinct_iff)
qed

lemma plain_sorted: "plain v \<Longrightarrow> plain (sorted_form v)"
proof (induction v)
  case (JObj es)
  let ?s = "map (\<lambda>(k, v). (k, sorted_form v)) es"
  have "map fst ?s = map fst es" by auto
  then have "distinct (map fst (sort_key fst ?s))" using JObj.prems by (simp add: distinct_sort_key del: map_map)
  with JObj show ?case by fastforce
qed auto

lemma parse_marshal: "parse_ok E \<Longrightarrow> plain v \<Longrightarrow> e_parse E (marshalE E v) = Some (sorted_form v)"
  by (simp add: parse_ok_def marshal_def serialize_print plain_sorted)

lemma map_of_sort:
  assumes "distinct (map fst es)"
  shows "map_of (sort_key fst es) k = map_of es k"
proof -
  have "map_of (sort_key fst es) = map_of es"
  proof (rule map_of_eqI)
    show "set (map fst (sort_key fst es)) = set (map fst es)" by simp
    have d: "distinct (map fst (sort_key fst es))"
      using assms by (simp add: distinct_sort_key)
    show "\<forall>k \<in> set (map fst (sort_key fst es)). map_of (sort_key fst es) k = map_of es k"
    proof
      fix k assume "k \<in> set (map fst (sort_key fst es))"
      then obtain v where "(k, v) \<in> set es" by auto
      then show "map_of (sort_key fst es) k = map_of es k" using d assms by (simp add: map_of_is_SomeI)
    qed
  qed
  then show ?thesis by simp
qed

lemma map_of_sorted_form:
  assumes "distinct (map fst es)"
  shows "map_of (sort_key fst (map (\<lambda>(k, v). (k, sorted_form v)) es)) k = map_option sorted_form (map_of es k)"
proof -
  have "map fst (map (\<lambda>(k, v). (k, sorted_form v)) es) = map fst es" by auto
  with assms show ?thesis by (simp add: map_of_sort map_of_map del: map_map)
qed

text \<open>Marshalling depends on the sorted form only.\<close>

lemma sorted_form_idem: "plain v \<Longrightarrow> sorted_form (sorted_form v) = sorted_form v"
proof (induction v)
  case (JObj es)
  let ?s = "map (\<lambda>(k, v). (k, sorted_form v)) es"
  have e: "map (\<lambda>(k, v). (k, sorted_form v)) ?s = ?s" using JObj by (fastforce simp: snds.simps)
  have "sort_key fst (map (\<lambda>(k, v). (k, sorted_form v)) (sort_key fst ?s))
      = sort_key fst (sort_key fst (map (\<lambda>(k, v). (k, sorted_form v)) ?s))"
    by (simp only: sort_key_map_snd)
  also have "\<dots> = sort_key fst ?s" unfolding e by (simp add: sort_key_id_if_sorted)
  finally show ?case by simp
qed auto

text \<open>The sorted form of an object depends on its content only.\<close>

lemma sorted_form_ext:
  assumes "distinct (map fst a)" "distinct (map fst b)"
    and "\<And>k. map_option sorted_form (map_of a k) = map_option sorted_form (map_of b k)"
  shows "sorted_form (JObj a) = sorted_form (JObj b)"
proof -
  let ?s = "map (\<lambda>(k, v). (k, sorted_form v))"
  have d: "distinct (map fst (?s l)) = distinct (map fst l)" for l :: "'a obj"
    by (rule arg_cong [of _ _ distinct]) auto
  have "map_of (?s a) = map_of (?s b)"
  proof
    fix k
    show "map_of (?s a) k = map_of (?s b) k" using assms(3) [of k] by (simp add: map_of_map del: map_map)
  qed
  with assms(1,2) have "set (?s a) = set (?s b)" by (simp add: map_of_inject_set d del: set_map map_map)
  moreover have "distinct (map fst (?s a))" "distinct (map fst (?s b))" using assms(1,2) by (simp_all only: d)
  then have "distinct (?s a)" "distinct (?s b)" unfolding distinct_map [of fst] by blast+
  ultimately have "mset (?s a) = mset (?s b)" using set_eq_iff_mset_eq_distinct by blast
  then have "sort_key fst (?s a) = sort_key fst (?s b)" using assms(1) by (intro sort_key_mset) (simp_all add: d del: map_map)
  then show ?thesis by simp
qed

text \<open>What a receiver parses from a marshalled object, and its fields.\<close>

definition wire :: "'n obj \<Rightarrow> 'n jsv" where
  "wire m = Some (sorted_form (JObj m))"

lemma objOf_wire: "map_of (objOf (wire m)) k = map_option sorted_form (map_of m k)" if "distinct (map fst m)"
  using map_of_sorted_form [OF that] by (simp add: wire_def)

lemma marshal_wire:
  assumes "plain (JObj m)"
  shows "marshalE E (JObj (objOf (wire m))) = marshalE E (JObj m)"
  using sorted_form_idem [OF assms] by (simp add: wire_def marshal_def serialize_print)

section \<open>A platform on which the hypotheses hold\<close>

definition demo_env :: "int env" where
  "demo_env = \<lparr>e_utf8 = demo_utf8, e_numstr = demo_numstr, e_num = (\<lambda>n. n), e_enc64 = map ucast,
     e_dec64 = map ucast, e_prims = demo_prims, e_parse = demo_json_parse, e_buffer = (\<lambda>v. None),
     e_string = (\<lambda>v. []), e_gt = (\<lambda>v k. case v of Some (JNum n) \<Rightarrow> n > k | _ \<Rightarrow> False),
     e_ge = (\<lambda>k v. case v of Some (JNum n) \<Rightarrow> k \<ge> n | _ \<Rightarrow> False), e_date = (\<lambda>s. Some 0), e_truthy = (\<lambda>n. n \<noteq> 0)\<rparr>"

lemma demo_parse_ok: "parse_ok demo_env"
  by (simp add: parse_ok_def demo_env_def demo_json_parse_print)

lemma demo_env_scheme: "length seed = 32 \<Longrightarrow> scheme_ok (plat demo_env) seed seed"
proof -
  assume "length seed = 32"
  moreover have "(ucast (ucast b :: unit16) :: byte) = b" for b :: byte
    by (rule bit_word_eqI) (simp add: bit_ucast_iff)
  then have "map ucast (map ucast b :: jstr) = b" for b :: bytes by (simp add: o_def)
  ultimately show ?thesis
    by (simp add: scheme_ok_def plat_def demo_env_def verify_def demo_prims_def)
qed

end
