(* ===== verification/HandshakeMessages.thy ===== *)
theory HandshakeMessages
  imports JsValue
begin

text \<open>
  The messages of the handshake, \<^verbatim>\<open>src/src/handshake/messages.ts\<close>, with the capability negotiation
  (\<^verbatim>\<open>capabilities.ts\<close>), the confirmation hash (\<^verbatim>\<open>confirm.ts\<close>), the identity proof (\<^verbatim>\<open>identity.ts\<close>)
  and the client's abort (\<^verbatim>\<open>abort.ts\<close>). A built message is the object the code returns; received
  messages are unchecked values and are read field by field in the state machines.
\<close>

section \<open>Errors of the handshake\<close>

datatype 'n hs_error =
    Js js_error
  | CryptoErr crypto_error
  | SyntaxErr
  | PathErr path_error
  | HsFail string
  | Rejected "'n jsv" "'n jsv" "'n jsv"
  | ChallengeInvalid string
  | CallbackThrew jstr
  | ServerRejection jstr "jstr option" bytes

abbreviation liftJs :: "js_error + 'a \<Rightarrow> ('s, 'n hs_error, 'a) op" where
  "liftJs r \<equiv> lift (case r of Inl e \<Rightarrow> Inl (Js e) | Inr x \<Rightarrow> Inr x)"

abbreviation liftCrypto :: "crypto_error + 'a \<Rightarrow> ('s, 'n hs_error, 'a) op" where
  "liftCrypto r \<equiv> lift (case r of Inl e \<Rightarrow> Inl (CryptoErr e) | Inr x \<Rightarrow> Inr x)"

definition parseFrame :: "'n env \<Rightarrow> bytes \<Rightarrow> 'n hs_error + 'n jsv" where
  "parseFrame E data = (case e_parse E data of None \<Rightarrow> Inl SyntaxErr | Some v \<Rightarrow> Inr (Some v))"

lemma case_sum_Inr: "(case r of Inl e \<Rightarrow> Inl (f e) | Inr x \<Rightarrow> Inr x) = Inr y \<longleftrightarrow> r = Inr y"
  by (cases r) auto

section \<open>Capabilities\<close>

record capabilities =
  encryption_algorithms :: "jstr list"
  cap_extensions :: "jstr list"
  max_envelope_size :: "int option"

record negotiated =
  ng_algorithm :: jstr
  ng_extensions :: "jstr list"
  ng_max_envelope_size :: "int option"

abbreviation pqSuite :: jstr where "pqSuite \<equiv> js ''pq-kyber768-x25519''"
abbreviation baseSuite :: jstr where "baseSuite \<equiv> js ''x25519-chacha20-poly1305''"

definition SuitePreferenceOrder :: "jstr list" where
  "SuitePreferenceOrder = [pqSuite, baseSuite]"

definition ImplementedSuites :: "jstr list" where
  "ImplementedSuites = [pqSuite, baseSuite]"

definition defaultClientCapabilities :: capabilities where
  "defaultClientCapabilities =
     \<lparr>encryption_algorithms = [pqSuite, baseSuite], cap_extensions = [], max_envelope_size = None\<rparr>"

definition defaultServerCapabilities :: capabilities where
  "defaultServerCapabilities =
     \<lparr>encryption_algorithms = [pqSuite, baseSuite], cap_extensions = [], max_envelope_size = None\<rparr>"

definition intersectStrings :: "jstr list \<Rightarrow> jstr list \<Rightarrow> jstr list" where
  "intersectStrings a b =
     (if a = [] \<or> b = [] then [] else filter (\<lambda>v. v \<in> set b) a)"

definition negotiateCapabilities :: "capabilities \<Rightarrow> capabilities \<Rightarrow> negotiated option" where
  "negotiateCapabilities offered accepted =
     (case List.find (\<lambda>i. i \<in> set (encryption_algorithms offered) \<and>
             i \<in> set (encryption_algorithms accepted) \<and> i \<in> set ImplementedSuites) SuitePreferenceOrder of
        None \<Rightarrow> None
      | Some chosen \<Rightarrow>
          let maxEnvelope = (case max_envelope_size offered of
                  Some oMax \<Rightarrow> if oMax > 0 then Some oMax else None | None \<Rightarrow> None);
              maxEnvelope = (case max_envelope_size accepted of
                  Some aMax \<Rightarrow>
                    if aMax > 0 then
                      (case maxEnvelope of None \<Rightarrow> Some aMax | Some m \<Rightarrow> Some (min m aMax))
                    else maxEnvelope
                | None \<Rightarrow> maxEnvelope) in
          Some \<lparr>ng_algorithm = chosen,
            ng_extensions = intersectStrings (cap_extensions offered) (cap_extensions accepted),
            ng_max_envelope_size = maxEnvelope\<rparr>)"

section \<open>Builders\<close>

definition HandshakePrefix :: jstr where "HandshakePrefix = js ''SEMP-HANDSHAKE:''"
definition HandshakeVersion :: jstr where "HandshakeVersion = js ''1.0.0''"

record key_ref =
  kr_algorithm :: jstr
  kr_key :: jstr
  kr_key_id :: jstr

definition keyref_json :: "key_ref \<Rightarrow> 'n json" where
  "keyref_json k = JObj [(js ''algorithm'', JStr (kr_algorithm k)), (js ''key'', JStr (kr_key k)),
     (js ''key_id'', JStr (kr_key_id k))]"

definition capabilities_json :: "(int \<Rightarrow> 'n) \<Rightarrow> capabilities \<Rightarrow> 'n json" where
  "capabilities_json num c = JObj
     ([(js ''encryption_algorithms'', JArr (map JStr (encryption_algorithms c))),
       (js ''extensions'', JArr (map JStr (cap_extensions c)))] @
      (case max_envelope_size c of None \<Rightarrow> [] | Some m \<Rightarrow> [(js ''max_envelope_size'', JNum (num m))]))"

record server_identity_proof =
  sip_domain :: jstr
  sip_key_id :: jstr
  sip_signature :: jstr

definition sip_json :: "server_identity_proof \<Rightarrow> 'n json" where
  "sip_json p = JObj [(js ''domain'', JStr (sip_domain p)), (js ''key_id'', JStr (sip_key_id p)),
     (js ''signature'', JStr (sip_signature p))]"

definition buildInit :: "(int \<Rightarrow> 'n) \<Rightarrow> jstr \<Rightarrow> jstr \<Rightarrow> key_ref \<Rightarrow> capabilities \<Rightarrow> 'n obj" where
  "buildInit num nonce transport clientEphemeralKey caps =
     [(js ''type'', str ''SEMP_HANDSHAKE''), (js ''step'', str ''init''), (js ''party'', str ''client''),
      (js ''version'', JStr HandshakeVersion), (js ''nonce'', JStr nonce), (js ''transport'', JStr transport),
      (js ''client_ephemeral_key'', keyref_json clientEphemeralKey),
      (js ''capabilities'', capabilities_json num caps), (js ''extensions'', JObj [])]"

text \<open>
  \<open>signSignedDoc\<close> with the top-level field \<open>server_signature\<close>; \<open>sign\<close> throws on a seed that has not
  32 bytes.
\<close>

definition signMessage :: "'n env \<Rightarrow> 'n obj \<Rightarrow> bytes \<Rightarrow> 'n hs_error + 'n obj" where
  "signMessage E preSign seed =
     (case sign (e_prims E) seed [] of
        Inl e \<Rightarrow> Inl (CryptoErr e)
      | Inr _ \<Rightarrow>
          (case signSignedDoc (plat E) preSign seed [js ''server_signature''] HandshakePrefix of
             Inl e \<Rightarrow> Inl (PathErr e)
           | Inr (signedJSON, _) \<Rightarrow> Inr signedJSON))"

definition negotiated_json :: "(int \<Rightarrow> 'n) \<Rightarrow> negotiated \<Rightarrow> 'n json" where
  "negotiated_json num n = JObj
     ([(js ''encryption_algorithm'', JStr (ng_algorithm n)),
       (js ''extensions'', JArr (map JStr (ng_extensions n)))] @
      (case ng_max_envelope_size n of None \<Rightarrow> [] | Some m \<Rightarrow> [(js ''max_envelope_size'', JNum (num m))]))"

record response_input =
  ri_session_id :: jstr
  ri_server_nonce :: jstr
  ri_ephemeral :: key_ref
  ri_identity_proof :: server_identity_proof
  ri_negotiated :: negotiated

text \<open>The client's nonce is echoed as it was received.\<close>

definition response_json :: "(int \<Rightarrow> 'n) \<Rightarrow> response_input \<Rightarrow> 'n json \<Rightarrow> 'n obj" where
  "response_json num i clientNonce =
     [(js ''type'', str ''SEMP_HANDSHAKE''), (js ''step'', str ''response''), (js ''party'', str ''server''),
      (js ''version'', JStr HandshakeVersion), (js ''session_id'', JStr (ri_session_id i)),
      (js ''client_nonce'', clientNonce), (js ''server_nonce'', JStr (ri_server_nonce i)),
      (js ''server_ephemeral_key'', keyref_json (ri_ephemeral i)),
      (js ''server_identity_proof'', sip_json (ri_identity_proof i)),
      (js ''negotiated'', negotiated_json num (ri_negotiated i)),
      (js ''server_signature'', JStr []), (js ''extensions'', JObj [])]"

definition buildResponse :: "'n env \<Rightarrow> response_input \<Rightarrow> 'n json \<Rightarrow> bytes \<Rightarrow> 'n hs_error + 'n obj" where
  "buildResponse E i clientNonce seed = signMessage E (response_json (e_num E) i clientNonce) seed"

text \<open>A field whose value is \<open>undefined\<close> is left out by the serializer.\<close>

definition opt_field :: "string \<Rightarrow> 'n jsv \<Rightarrow> 'n obj" where
  "opt_field k v = (case v of None \<Rightarrow> [] | Some x \<Rightarrow> [(js k, x)])"

definition buildConfirm :: "'n jsv \<Rightarrow> jstr \<Rightarrow> jstr \<Rightarrow> 'n obj" where
  "buildConfirm sessionId confirmationHashB64 identityProofB64 =
     [(js ''type'', str ''SEMP_HANDSHAKE''), (js ''step'', str ''confirm''), (js ''party'', str ''client''),
      (js ''version'', JStr HandshakeVersion)] @ opt_field ''session_id'' sessionId @
     [(js ''confirmation_hash'', JStr confirmationHashB64), (js ''identity_proof'', JStr identityProofB64),
      (js ''extensions'', JObj [])]"

record resumption_ticket =
  rt_value :: jstr
  rt_expires_at :: jstr

definition ticket_json :: "resumption_ticket \<Rightarrow> 'n json" where
  "ticket_json t = JObj [(js ''value'', JStr (rt_value t)), (js ''expires_at'', JStr (rt_expires_at t))]"

definition accepted_json ::
  "(int \<Rightarrow> 'n) \<Rightarrow> jstr \<Rightarrow> int \<Rightarrow> jstr list \<Rightarrow> resumption_ticket option \<Rightarrow> 'n obj \<Rightarrow> 'n obj"
where
  "accepted_json num sessionId sessionTTL permissions ticket extensions =
     [(js ''type'', str ''SEMP_HANDSHAKE''), (js ''step'', str ''accepted''), (js ''party'', str ''server''),
      (js ''version'', JStr HandshakeVersion), (js ''session_id'', JStr sessionId),
      (js ''session_ttl'', JNum (num sessionTTL)), (js ''permissions'', JArr (map JStr permissions)),
      (js ''server_signature'', JStr []), (js ''extensions'', JObj extensions)] @
     opt_field ''resumption_ticket'' (map_option ticket_json ticket)"

definition buildAccepted ::
  "'n env \<Rightarrow> jstr \<Rightarrow> int \<Rightarrow> jstr list \<Rightarrow> resumption_ticket option \<Rightarrow> 'n obj \<Rightarrow> bytes
     \<Rightarrow> 'n hs_error + 'n obj"
where
  "buildAccepted E sessionId sessionTTL permissions ticket extensions seed =
     signMessage E (accepted_json (e_num E) sessionId sessionTTL permissions ticket extensions) seed"

definition buildRejected ::
  "'n env \<Rightarrow> jstr \<Rightarrow> jstr \<Rightarrow> jstr option \<Rightarrow> bytes \<Rightarrow> 'n hs_error + 'n obj"
where
  "buildRejected E sessionId reasonCode reason seed =
     signMessage E
       ([(js ''type'', str ''SEMP_HANDSHAKE''), (js ''step'', str ''rejected''), (js ''party'', str ''server''),
         (js ''version'', JStr HandshakeVersion), (js ''session_id'', JStr sessionId),
         (js ''reason_code'', JStr reasonCode), (js ''server_signature'', JStr []),
         (js ''extensions'', JObj [])] @ opt_field ''reason'' (map_option JStr reason)) seed"

definition buildClientRejection :: "'n env \<Rightarrow> jstr \<Rightarrow> jstr option \<Rightarrow> 'n hs_error + bytes" where
  "buildClientRejection E reasonCode reason =
     (if reasonCode = [] then Inl (HsFail ''empty reason_code'')
      else Inr (marshalE E (JObj
        [(js ''type'', str ''SEMP_HANDSHAKE''), (js ''step'', str ''rejected''), (js ''party'', str ''client''),
         (js ''version'', JStr HandshakeVersion), (js ''reason_code'', JStr reasonCode),
         (js ''reason'', JStr (case reason of None \<Rightarrow> [] | Some r \<Rightarrow> r)), (js ''extensions'', JObj [])])))"

definition isResumptionFailed :: "'n hs_error \<Rightarrow> bool" where
  "isResumptionFailed err = (case err of
      Rejected _ reasonCode _ \<Rightarrow>
        reasonCode \<in> {Some (str ''resumption_failed''), Some (str ''session_expired''), Some (str ''no_session'')}
    | _ \<Rightarrow> False)"

section \<open>Confirmation hash\<close>

definition confirmationHash :: "primitives \<Rightarrow> bytes \<Rightarrow> bytes \<Rightarrow> bytes" where
  "confirmationHash C message1Canonical message2Canonical = sha256 C (message1Canonical @ message2Canonical)"

section \<open>Identity proof\<close>

definition IdentityPrefix :: jstr where "IdentityPrefix = js ''SEMP-IDENTITY:''"

record identity_config =
  ic_clientId :: jstr
  ic_clientIdentity :: jstr
  ic_longTermSeed :: bytes
  ic_longTermKeyId :: jstr
  ic_proofNonce :: "bytes option"

text \<open>What the identity signature covers.\<close>

definition identityInput :: "'n env \<Rightarrow> 'n jsv \<Rightarrow> bytes \<Rightarrow> bytes" where
  "identityInput E sessionId hash = e_utf8 E IdentityPrefix @ (encodeText E sessionId @ hash)"

definition identity_block :: "'n env \<Rightarrow> identity_config \<Rightarrow> bytes \<Rightarrow> 'n json" where
  "identity_block E c identitySig = JObj
     [(js ''client_id'', JStr (ic_clientId c)), (js ''client_identity'', JStr (ic_clientIdentity c)),
      (js ''client_long_term_key_id'', JStr (ic_longTermKeyId c)),
      (js ''identity_signature'', JStr (e_enc64 E identitySig)),
      (js ''auth'', JObj [(js ''method'', str ''identity_key''), (js ''params'', JObj [])])]"

text \<open>\<open>composeIdentityProof\<close>; \<open>rnd\<close> is the nonce drawn when the input has none. \<open>JSON.stringify\<close> is \<open>print\<close>.\<close>

definition composeIdentityProof ::
  "'n env \<Rightarrow> identity_config \<Rightarrow> 'n jsv \<Rightarrow> bytes \<Rightarrow> bytes \<Rightarrow> bytes \<Rightarrow> crypto_error + jstr"
where
  "composeIdentityProof E c sessionId ch key rnd =
     bindR (sign (e_prims E) (ic_longTermSeed c) (identityInput E sessionId ch)) (\<lambda>identitySig.
     let blockBytes = e_utf8 E (print (e_numstr E) (identity_block E c identitySig));
         nonce = (case ic_proofNonce c of None \<Rightarrow> rnd | Some n \<Rightarrow> n) in
     if length nonce \<noteq> 12 then Inl (BadLength (length nonce) 12)
     else
       bindR (aeadSeal (e_prims E) Chacha20Poly1305 key nonce blockBytes (encodeText E sessionId)) (\<lambda>ct.
       Inr (e_enc64 E (nonce @ ct))))"

definition openIdentityProof :: "'n env \<Rightarrow> 'n jsv \<Rightarrow> bytes \<Rightarrow> jstr \<Rightarrow> 'n hs_error + 'n jsv" where
  "openIdentityProof E identityProofB64 key sessionId =
     (case base64Decode E identityProofB64 of
        Inl e \<Rightarrow> Inl (Js e)
      | Inr wrapped \<Rightarrow>
          if length wrapped < 12 then Inl (HsFail ''identity_proof too short'')
          else
            let nonce = take 12 wrapped; ct = drop 12 wrapped; aad = e_utf8 E sessionId in
            (case aeadOpen (e_prims E) Chacha20Poly1305 key nonce ct aad of
               Inl e \<Rightarrow> Inl (CryptoErr e)
             | Inr pt \<Rightarrow> parseFrame E pt))"

section \<open>Negotiation\<close>

text \<open>Capability negotiation: it fails exactly when no implemented suite is in both lists; otherwise
  the chosen suite is in both, it is the post-quantum one whenever both offer that, the extensions are
  those of the offer that the other side accepts, and the envelope limit is the smallest positive one
  advertised. The two sides agree on suite and limit whoever makes the offer.\<close>

theorem negotiate_strongest:
  "(negotiateCapabilities a b = None \<longleftrightarrow>
      set (encryption_algorithms a) \<inter> set (encryption_algorithms b) \<inter> {pqSuite, baseSuite} = {})
   \<and> pred_option (\<lambda>n.
       ng_algorithm n \<in> set (encryption_algorithms a) \<inter> set (encryption_algorithms b)
     \<and> (ng_algorithm n = pqSuite \<longleftrightarrow> pqSuite \<in> set (encryption_algorithms a) \<inter> set (encryption_algorithms b))
     \<and> ng_extensions n = filter (\<lambda>x. x \<in> set (cap_extensions b)) (cap_extensions a)
     \<and> set_option (ng_max_envelope_size n)
         = (let limits = {m. 0 < m \<and> (max_envelope_size a = Some m \<or> max_envelope_size b = Some m)} in
            if limits = {} then {} else {Min limits})) (negotiateCapabilities a b)
   \<and> map_option (\<lambda>n. (ng_algorithm n, ng_max_envelope_size n)) (negotiateCapabilities a b)
     = map_option (\<lambda>n. (ng_algorithm n, ng_max_envelope_size n)) (negotiateCapabilities b a)"
proof (intro conjI)
  have limits: "{m. 0 < m \<and> (x = Some m \<or> y = Some m)} = set_option (case x of Some i \<Rightarrow> if i > 0 then Some i else None | None \<Rightarrow> None)
      \<union> set_option (case y of Some i \<Rightarrow> if i > 0 then Some i else None | None \<Rightarrow> None)" for x y :: "int option"
    by (cases x; cases y) auto
  show "negotiateCapabilities a b = None \<longleftrightarrow>
      set (encryption_algorithms a) \<inter> set (encryption_algorithms b) \<inter> {pqSuite, baseSuite} = {}"
    by (auto simp: negotiateCapabilities_def SuitePreferenceOrder_def ImplementedSuites_def Let_def)
  show "map_option (\<lambda>n. (ng_algorithm n, ng_max_envelope_size n)) (negotiateCapabilities a b)
     = map_option (\<lambda>n. (ng_algorithm n, ng_max_envelope_size n)) (negotiateCapabilities b a)"
    by (auto simp: negotiateCapabilities_def SuitePreferenceOrder_def ImplementedSuites_def Let_def min.commute
        split: option.splits)
  show "pred_option (\<lambda>n.
       ng_algorithm n \<in> set (encryption_algorithms a) \<inter> set (encryption_algorithms b)
     \<and> (ng_algorithm n = pqSuite \<longleftrightarrow> pqSuite \<in> set (encryption_algorithms a) \<inter> set (encryption_algorithms b))
     \<and> ng_extensions n = filter (\<lambda>x. x \<in> set (cap_extensions b)) (cap_extensions a)
     \<and> set_option (ng_max_envelope_size n)
         = (let limits = {m. 0 < m \<and> (max_envelope_size a = Some m \<or> max_envelope_size b = Some m)} in
            if limits = {} then {} else {Min limits})) (negotiateCapabilities a b)"
    unfolding Let_def limits
    by (auto simp: negotiateCapabilities_def SuitePreferenceOrder_def ImplementedSuites_def Let_def
        intersectStrings_def min.commute split: option.splits)
qed

section \<open>Signed messages\<close>

text \<open>The object with its signature field set.\<close>

lemma signMessage_Inr:
  "signMessage E m seed = Inr m' \<longleftrightarrow> length seed = 32 \<and>
     m' = obj_set (js ''server_signature'') (JStr (e_enc64 E (ed_sign (e_prims E)
       (signingInput (plat E) HandshakePrefix (obj_set (js ''server_signature'') (JStr []) m)) seed))) m"
  by (auto simp: signMessage_def sign_def signSignedDoc_def Let_def plat_def split: if_splits)

lemma map_of_obj_set: "map_of (obj_set k v m) k' = (if k' = k then Some v else map_of m k')"
  by simp

end
