(* ===== verification/PoW.thy ===== *)
theory PoW
  imports HandshakeMessages
begin

text \<open>
  Proof of work, \<^verbatim>\<open>src/src/handshake/pow.ts\<close>: the verifier of a challenge solution and the count of
  leading zero bits; and the client's search for a solution (\<open>solvePoW\<close> of \<^verbatim>\<open>client_state.ts\<close>).
\<close>

section \<open>Leading zero bits\<close>

text \<open>\<open>while (bb !== 0) { bb = bb >>> 1; bits--; }\<close>\<close>

function shiftLoop :: "byte \<Rightarrow> nat \<Rightarrow> nat" where
  "shiftLoop bb bits = (if bb \<noteq> 0 then shiftLoop (drop_bit 1 bb) (bits - 1) else bits)"
  by auto

lemma unat_half: "unat (drop_bit (Suc 0) (b :: byte)) = unat b div 2"
  by (simp add: unat_div_distrib drop_bit_Suc)

termination shiftLoop
  by (relation "measure (\<lambda>(b, n). unat b)") (auto simp: unat_half unat_gt_0 unat_eq_zero)

fun leadingZeroBits :: "bytes \<Rightarrow> nat" where
  "leadingZeroBits [] = 0"
| "leadingZeroBits (b # h) = (if b = 0 then 8 + leadingZeroBits h else shiftLoop b 8)"

text \<open>The hash as a number, most significant byte first.\<close>

fun bigEndian :: "bytes \<Rightarrow> nat" where
  "bigEndian [] = 0"
| "bigEndian (b # h) = unat b * 256 ^ length h + bigEndian h"

lemma bigEndian_less: "bigEndian h < 256 ^ length h"
proof (induction h)
  case (Cons b h)
  have "unat b < 256" using unsigned_less [of b, where 'a = nat] by simp
  then have "unat b \<le> 255" by simp
  then have "unat b * 256 ^ length h \<le> 255 * 256 ^ length h" by (rule mult_right_mono) simp
  then have "unat b * 256 ^ length h + bigEndian h < 255 * 256 ^ length h + 256 ^ length h"
    using Cons by linarith
  then show ?case by simp
qed simp

lemma shiftLoop_zero: "b = 0 \<Longrightarrow> shiftLoop b n = n"
  by (subst shiftLoop.simps) simp

lemma shiftLoop_le: "shiftLoop b n \<le> n"
proof (induction b n rule: shiftLoop.induct)
  case (1 b n)
  show ?case
  proof (cases "b = 0")
    case False
    then have "shiftLoop b n = shiftLoop (drop_bit 1 b) (n - 1)" by (subst shiftLoop.simps) simp
    with 1 [OF False] show ?thesis by linarith
  qed (simp add: shiftLoop_zero)
qed

lemma shiftLoop_ge:
  assumes "unat b < 2 ^ n" and "d \<le> n"
  shows "d \<le> shiftLoop b n \<longleftrightarrow> unat b < 2 ^ (n - d)"
  using assms
proof (induction n arbitrary: b)
  case 0
  then have "b = 0" by (simp add: unat_eq_zero)
  then show ?case using 0 by (simp add: shiftLoop_zero)
next
  case (Suc n)
  show ?case
  proof (cases "b = 0")
    case True
    then show ?thesis using Suc.prems by (simp add: shiftLoop_zero)
  next
    case False
    then have step: "shiftLoop b (Suc n) = shiftLoop (drop_bit 1 b) n" by (subst shiftLoop.simps) simp
    have h: "unat (drop_bit 1 b) < 2 ^ n" using Suc.prems(1) by (simp add: unat_half)
    show ?thesis
    proof (cases "d \<le> n")
      case True
      have "unat b div 2 < 2 ^ (n - d) \<longleftrightarrow> unat b < 2 ^ (Suc n - d)"
        using True by (simp add: Suc_diff_le less_mult_imp_div_less div_less_iff_less_mult mult.commute)
      then show ?thesis using Suc.IH [OF h True] step by (simp add: unat_half)
    next
      case d: False
      then have "d = Suc n" using Suc.prems(2) by simp
      moreover have "unat b \<noteq> 0" using False by (simp add: unat_eq_zero)
      ultimately show ?thesis using shiftLoop_le [of "drop_bit 1 b" n] step by simp
    qed
  qed
qed

lemma leadingZeroBits_ge:
  assumes "d \<le> 8 * length h"
  shows "d \<le> leadingZeroBits h \<longleftrightarrow> bigEndian h < 2 ^ (8 * length h - d)"
  using assms
proof (induction h arbitrary: d)
  case Nil
  then show ?case by simp
next
  case (Cons b h)
  have pow: "(256 :: nat) ^ length h = 2 ^ (8 * length h)" by (simp add: power_mult)
  have lt: "bigEndian h < 2 ^ (8 * length h)" using bigEndian_less [of h] by (simp add: pow)
  have b: "unat b < 2 ^ 8" using unsigned_less [of b, where 'a = nat] by simp
  show ?case
  proof (cases "b = 0")
    case True
    show ?thesis
    proof (cases "d \<le> 8")
      case True
      then have "(2 :: nat) ^ (8 * length h) \<le> 2 ^ (8 * length (b # h) - d)" by (intro power_increasing) auto
      with lt have "bigEndian h < 2 ^ (8 * length (b # h) - d)" by (rule less_le_trans)
      with True \<open>b = 0\<close> show ?thesis by simp
    next
      case False
      then have "d - 8 \<le> 8 * length h" "8 * length h - (d - 8) = 8 * length (b # h) - d"
        using Cons.prems by auto
      with Cons.IH [of "d - 8"] have "d - 8 \<le> leadingZeroBits h \<longleftrightarrow> bigEndian h < 2 ^ (8 * length (b # h) - d)"
        by simp
      moreover have "d \<le> leadingZeroBits (b # h) \<longleftrightarrow> d - 8 \<le> leadingZeroBits h" using \<open>b = 0\<close> by auto
      moreover have "bigEndian (b # h) = bigEndian h" using \<open>b = 0\<close> by simp
      ultimately show ?thesis by simp
    qed
  next
    case False
    then have lz: "leadingZeroBits (b # h) = shiftLoop b 8" by simp
    have b1: "1 \<le> unat b" using False by (metis One_nat_def Suc_leI unat_gt_0)
    show ?thesis
    proof (cases "d \<le> 8")
      case True
      let ?k = "2 ^ (8 * length h) :: nat"
      have e: "(2 :: nat) ^ (8 * length (b # h) - d) = 2 ^ (8 - d) * ?k"
        using True by (simp add: power_add [symmetric])
      have "unat b * ?k + bigEndian h < 2 ^ (8 - d) * ?k \<longleftrightarrow> unat b < 2 ^ (8 - d)"
      proof
        assume a: "unat b * ?k + bigEndian h < 2 ^ (8 - d) * ?k"
        then have "unat b * ?k < 2 ^ (8 - d) * ?k" by linarith
        then show "unat b < 2 ^ (8 - d)" by simp
      next
        assume "unat b < 2 ^ (8 - d)"
        then have "(unat b + 1) * ?k \<le> 2 ^ (8 - d) * ?k" by (intro mult_right_mono) auto
        with lt show "unat b * ?k + bigEndian h < 2 ^ (8 - d) * ?k" by (simp add: algebra_simps)
      qed
      with shiftLoop_ge [OF b True] e lz show ?thesis by (simp add: pow)
    next
      case False
      have "\<not> d \<le> shiftLoop b 8" using shiftLoop_ge [OF b, of 8] b1 False by auto
      moreover have "(2 :: nat) ^ (8 * length (b # h) - d) \<le> 2 ^ (8 * length h)"
        using False by (intro power_increasing) auto
      moreover have "1 * 2 ^ (8 * length h) \<le> unat b * 2 ^ (8 * length h)" using b1 by (rule mult_right_mono) simp
      ultimately have "\<not> d \<le> shiftLoop b 8"
        "\<not> unat b * 2 ^ (8 * length h) + bigEndian h < 2 ^ (8 * length (b # h) - d)" by linarith+
      then show ?thesis unfolding lz bigEndian.simps pow by simp
    qed
  qed
qed

section \<open>Verification\<close>

definition MaxPoWDifficulty :: int where "MaxPoWDifficulty = 28"

datatype pow_error = NegativeDifficulty | AboveCap | EmptyChallengeId | EmptyNonce | HashMismatch | TooEasy

definition challengePreimage :: "'n env \<Rightarrow> bytes \<Rightarrow> jstr \<Rightarrow> jstr \<Rightarrow> bytes" where
  "challengePreimage E prefix challengeId nonceB64 =
     e_utf8 E (e_enc64 E prefix @ js '':'' @ challengeId @ js '':'' @ nonceB64)"

text \<open>
  \<open>toLowerCase\<close>. Only the ASCII letters matter: the result is compared with a hexadecimal string,
  and no other code unit becomes one of its characters. \<open>Buffer.from(s, "base64")\<close> never throws, so
  the check that the nonce is base64 has no branch.
\<close>

definition toLowerCase :: "jstr \<Rightarrow> jstr" where
  "toLowerCase = map (\<lambda>c. if 65 \<le> c \<and> c \<le> 90 then c + 32 else c)"

definition verifyChallengeSolution ::
  "'n env \<Rightarrow> bytes \<Rightarrow> jstr \<Rightarrow> jstr \<Rightarrow> jstr \<Rightarrow> int \<Rightarrow> pow_error option"
where
  "verifyChallengeSolution E prefix challengeId nonceB64 claimedHashHex difficulty =
     (if difficulty < 0 then Some NegativeDifficulty
      else if difficulty > MaxPoWDifficulty then Some AboveCap
      else if challengeId = [] then Some EmptyChallengeId
      else if nonceB64 = [] then Some EmptyNonce
      else
        let preimage = challengePreimage E prefix challengeId nonceB64;
            sum = sha256 (e_prims E) preimage;
            computedHex = bytesToHex sum in
        if toLowerCase computedHex \<noteq> toLowerCase claimedHashHex then Some HashMismatch
        else if int (leadingZeroBits sum) < difficulty then Some TooEasy
        else None)"

definition firstContactDigest :: "primitives \<Rightarrow> bytes \<Rightarrow> bytes \<Rightarrow> bytes \<times> nat" where
  "firstContactDigest C prefix nonce =
     (let sum = sha256 C (prefix @ nonce) in (sum, leadingZeroBits sum))"

section \<open>The search\<close>

text \<open>The loop from the last index down to 0: \<open>out[i] = v & 0xff; v >>= 8\<close>.\<close>

fun bigUintToBytes :: "nat \<Rightarrow> nat \<Rightarrow> bytes" where
  "bigUintToBytes v 0 = []"
| "bigUintToBytes v (Suc n) = bigUintToBytes (v div 256) n @ [of_nat (v mod 256)]"

definition powNonce :: "'n env \<Rightarrow> nat \<Rightarrow> jstr" where
  "powNonce E counter = e_enc64 E (bigUintToBytes counter 16)"

definition powSum :: "'n env \<Rightarrow> jstr \<Rightarrow> jstr \<Rightarrow> nat \<Rightarrow> bytes" where
  "powSum E prefixB64 challengeId counter =
     sha256 (e_prims E) (e_utf8 E (prefixB64 @ js '':'' @ challengeId @ js '':'' @ powNonce E counter))"

text \<open>\<open>while (true)\<close>: \<open>None\<close> when the loop never returns.\<close>

partial_function (option) solveLoop ::
  "'n env \<Rightarrow> jstr \<Rightarrow> jstr \<Rightarrow> 'n jsv \<Rightarrow> nat \<Rightarrow> (jstr \<times> jstr) option"
where
  "solveLoop E prefixB64 challengeId difficulty counter =
     (let sum = powSum E prefixB64 challengeId counter in
      if e_ge E (int (leadingZeroBits sum)) difficulty then Some (powNonce E counter, bytesToHex sum)
      else solveLoop E prefixB64 challengeId difficulty (counter + 1))"

definition solvePoW :: "'n env \<Rightarrow> bytes \<Rightarrow> jstr \<Rightarrow> 'n jsv \<Rightarrow> (jstr \<times> jstr) option" where
  "solvePoW E prefix challengeId difficulty = solveLoop E (e_enc64 E prefix) challengeId difficulty 0"

lemma solveLoop_found:
  assumes "e_ge E (int (leadingZeroBits (powSum E p c (n + k)))) d"
    and "\<And>j. j < k \<Longrightarrow> \<not> e_ge E (int (leadingZeroBits (powSum E p c (n + j)))) d"
  shows "solveLoop E p c d n = Some (powNonce E (n + k), bytesToHex (powSum E p c (n + k)))"
  using assms
proof (induction k arbitrary: n)
  case 0
  then show ?case by (subst solveLoop.simps) (simp add: Let_def)
next
  case (Suc k)
  have "\<not> e_ge E (int (leadingZeroBits (powSum E p c n))) d" using Suc.prems(2) [of 0] by simp
  then have "solveLoop E p c d n = solveLoop E p c d (Suc n)" by (subst solveLoop.simps) (simp add: Let_def)
  moreover have "solveLoop E p c d (Suc n) = Some (powNonce E (Suc n + k), bytesToHex (powSum E p c (Suc n + k)))"
    by (rule Suc.IH) (use Suc.prems(1) Suc.prems(2) [of "Suc j" for j] in auto)
  ultimately show ?case by simp
qed

lemma solveLoop_result:
  assumes "solveLoop E p c d n = Some r"
  shows "\<exists>k \<ge> n. e_ge E (int (leadingZeroBits (powSum E p c k))) d"
proof (rule solveLoop.raw_induct [where P = "\<lambda>E p c d n r. \<exists>k \<ge> n. e_ge E (int (leadingZeroBits (powSum E p c k))) d", OF _ assms])
  fix loop :: "'a env \<Rightarrow> jstr \<Rightarrow> jstr \<Rightarrow> 'a jsv \<Rightarrow> nat \<Rightarrow> (jstr \<times> jstr) option" and E p c d n r
  assume IH: "\<And>E p c d n r. loop E p c d n = Some r \<Longrightarrow> \<exists>k \<ge> n. e_ge E (int (leadingZeroBits (powSum E p c k))) d"
    and body: "(let sum = powSum E p c n in
        if e_ge E (int (leadingZeroBits sum)) d then Some (powNonce E n, bytesToHex sum)
        else loop E p c d (n + 1)) = Some r"
  show "\<exists>k \<ge> n. e_ge E (int (leadingZeroBits (powSum E p c k))) d"
  proof (cases "e_ge E (int (leadingZeroBits (powSum E p c n))) d")
    case False
    with body have "loop E p c d (n + 1) = Some r" by (simp add: Let_def)
    from IH [OF this] show ?thesis by (meson add_leD1)
  qed blast
qed

text \<open>The nonce has 16 bytes, so counters repeat modulo \<open>2 ^ 128\<close>.\<close>

lemma bigUintToBytes_mod: "bigUintToBytes (v mod 256 ^ n) n = bigUintToBytes v n"
proof (induction n arbitrary: v)
  case (Suc n)
  have "v mod 256 ^ Suc n div 256 = v div 256 mod 256 ^ n"
    by (simp add: mod_mult2_eq)
  moreover have "v mod 256 ^ Suc n mod 256 = v mod 256" by (simp add: mod_mod_cancel)
  ultimately show ?case using Suc.IH [of "v div 256"] by simp
qed simp

lemma powSum_mod: "powSum E p c (n mod 2 ^ 128) = powSum E p c n" "powNonce E (n mod 2 ^ 128) = powNonce E n"
  using bigUintToBytes_mod [of n 16] by (simp_all add: powSum_def powNonce_def)

lemma solvePoW_least:
  assumes "e_ge E (int (leadingZeroBits (powSum E (e_enc64 E prefix) c k))) d"
  obtains n where "n \<le> k" "e_ge E (int (leadingZeroBits (powSum E (e_enc64 E prefix) c n))) d"
    "solvePoW E prefix c d = Some (powNonce E n, bytesToHex (powSum E (e_enc64 E prefix) c n))"
proof -
  let ?P = "\<lambda>n. e_ge E (int (leadingZeroBits (powSum E (e_enc64 E prefix) c n))) d"
  define n where "n = (LEAST n. ?P n)"
  have n: "?P n" "n \<le> k" unfolding n_def using assms by (rule LeastI, rule Least_le)
  have "\<not> ?P j" if "j < n" for j using that unfolding n_def by (rule not_less_Least)
  then have "solveLoop E (e_enc64 E prefix) c d 0 = Some (powNonce E (0 + n), bytesToHex (powSum E (e_enc64 E prefix) c (0 + n)))"
    using n(1) by (intro solveLoop_found) simp_all
  then show ?thesis using n by (intro that [of n]) (simp_all add: solvePoW_def)
qed

text \<open>C16. The search for a proof of work returns if and only if one of the \<open>2 ^ 128\<close> nonces has enough
  leading zero bits, and the solution it returns is then accepted by the verifier: its hash, read as a
  big-endian number, is below \<open>2 ^ (256 - difficulty)\<close>.\<close>

theorem solvePoW_terminates_and_verifies:
  assumes "\<forall>k. e_ge E (int k) v \<longleftrightarrow> d \<le> int k" and "0 \<le> d" "d \<le> 28" "challengeId \<noteq> []"
    and "\<forall>n. powNonce E n \<noteq> []" and "\<forall>m. length (sha256 (e_prims E) m) = 32"
  shows "(solvePoW E prefix challengeId v \<noteq> None \<longleftrightarrow>
      (\<exists>n < 2 ^ 128. bigEndian (sha256 (e_prims E) (challengePreimage E prefix challengeId (powNonce E n)))
         < 2 ^ (256 - nat d)))
    \<and> pred_option (\<lambda>(nonceB64, hashHex).
        verifyChallengeSolution E prefix challengeId nonceB64 hashHex d = None)
        (solvePoW E prefix challengeId v)"
proof -
  let ?sum = "powSum E (e_enc64 E prefix) challengeId"
  have sum: "?sum n = sha256 (e_prims E) (challengePreimage E prefix challengeId (powNonce E n))" for n
    by (simp add: powSum_def challengePreimage_def)
  have lz: "e_ge E (int (leadingZeroBits (?sum n))) v \<longleftrightarrow> bigEndian (?sum n) < 2 ^ (256 - nat d)" for n
  proof -
    have "length (?sum n) = 32" using assms(6) by (simp add: powSum_def)
    then have "nat d \<le> leadingZeroBits (?sum n) \<longleftrightarrow> bigEndian (?sum n) < 2 ^ (256 - nat d)"
      using leadingZeroBits_ge [of "nat d" "?sum n"] assms(3) by simp
    moreover have "nat d \<le> leadingZeroBits (?sum n) \<longleftrightarrow> d \<le> int (leadingZeroBits (?sum n))" by (rule nat_le_iff)
    ultimately show ?thesis using assms(1) by simp
  qed
  have small: "\<exists>n < 2 ^ 128. bigEndian (?sum n) < 2 ^ (256 - nat d)" if "bigEndian (?sum n) < 2 ^ (256 - nat d)" for n
  proof (intro exI conjI)
    show "n mod 2 ^ 128 < (2 :: nat) ^ 128" by (rule mod_less_divisor) simp
    show "bigEndian (?sum (n mod 2 ^ 128)) < 2 ^ (256 - nat d)" using that by (simp only: powSum_mod)
  qed
  show ?thesis
  proof (cases "solvePoW E prefix challengeId v")
    case None
    have "\<not> bigEndian (?sum n) < 2 ^ (256 - nat d)" for n
      using solvePoW_least [of E prefix challengeId n v] None lz by (metis option.distinct(1))
    then show ?thesis using None by (simp add: sum)
  next
    case (Some r)
    from solveLoop_result [OF Some [unfolded solvePoW_def]] obtain k where
      "e_ge E (int (leadingZeroBits (?sum k))) v" by blast
    from solvePoW_least [OF this] obtain n where n: "e_ge E (int (leadingZeroBits (?sum n))) v"
      "solvePoW E prefix challengeId v = Some (powNonce E n, bytesToHex (?sum n))" by blast
    have "d \<le> int (leadingZeroBits (?sum n))" using n(1) assms(1) by simp
    then have "verifyChallengeSolution E prefix challengeId (powNonce E n) (bytesToHex (?sum n)) d = None"
      using assms(2-5) by (simp add: verifyChallengeSolution_def MaxPoWDifficulty_def sum Let_def)
    moreover have "\<exists>n < 2 ^ 128. bigEndian (?sum n) < 2 ^ (256 - nat d)" using small n(1) lz by blast
    ultimately show ?thesis using n(2) by (simp add: sum)
  qed
qed

lemma length_bigUintToBytes [simp]: "length (bigUintToBytes v n) = n"
  by (induction n arbitrary: v) simp_all

theorem solvePoW_terminates_and_verifies_witness:
  "pred_option (\<lambda>(nonceB64, hashHex).
        verifyChallengeSolution demo_env [] (js ''c'') nonceB64 hashHex 8 = None)
        (solvePoW demo_env [] (js ''c'') (Some (JNum 8)))
   \<and> solvePoW demo_env [] (js ''c'') (Some (JNum 8)) \<noteq> None"
proof -
  have h: "\<forall>k. e_ge demo_env (int k) (Some (JNum 8)) \<longleftrightarrow> (8 :: int) \<le> int k" "(0 :: int) \<le> 8" "(8 :: int) \<le> 28"
    "js ''c'' \<noteq> []" "\<forall>m. length (sha256 (e_prims demo_env) m) = 32"
    by (simp_all add: demo_env_def js_def demo_prims_def)
  have "length (powNonce demo_env n) = 16" for n by (simp add: powNonce_def demo_env_def)
  then have n: "\<forall>n. powNonce demo_env n \<noteq> []" by (metis list.size(3) zero_neq_numeral)
  have z: "bigUintToBytes 0 n = replicate n 0" for n
    by (induction n) (simp_all add: replicate_append_same)
  have be: "bigEndian (replicate n 0) = 0" for n by (induction n) simp_all
  have "bigUintToBytes 41 (Suc 15) = replicate 15 0 @ [41]" unfolding bigUintToBytes.simps by (simp add: z)
  then have "powNonce demo_env 41 = replicate 15 0 @ [41]" by (simp add: powNonce_def demo_env_def)
  moreover have "sum_list (demo_utf8 (replicate n 0)) = 0" for n by (induction n) (simp_all add: demo_utf8_def)
  ultimately have "sum_list (challengePreimage demo_env [] (js ''c'') (powNonce demo_env 41)) = 0"
    by (simp add: challengePreimage_def demo_env_def demo_utf8_append) (simp add: demo_utf8_def js_def)
  then have "bigEndian (sha256 (e_prims demo_env) (challengePreimage demo_env [] (js ''c'') (powNonce demo_env 41))) < 2 ^ (256 - nat 8)"
    by (simp add: demo_env_def demo_prims_def be del: replicate.simps)
  moreover have "(41 :: nat) < 2 ^ 128" by simp
  ultimately show ?thesis
    using solvePoW_terminates_and_verifies [OF h(1-4) n h(5), of "[]"] by blast
qed
end
