(* ===== verification/HandshakeClient.thy ===== *)
theory HandshakeClient
  imports PoW
begin

text \<open>
  The client's handshake state machine, \<^verbatim>\<open>src/src/handshake/client_state.ts\<close>. A method is an operation
  on the state (\<open>op\<close>); the values drawn from \<open>getRandomValues\<close> are arguments (\<open>draws\<close>).
\<close>

section \<open>State\<close>

record client_config =
  cc_suite :: jstr
  cc_capabilities :: capabilities
  cc_transport :: jstr
  cc_serverDomainPub :: bytes
  cc_ephemeralPriv :: "bytes option"
  cc_nonce :: "bytes option"
  cc_identity :: "identity_config option"

record 'n client_session =
  hs_sessionId :: "'n jsv"
  hs_sessionTTL :: "'n jsv"
  hs_permissions :: "'n jsv"
  hs_keys :: session_keys
  hs_proofKeyId :: "'n jsv"
  hs_proofSignature :: "'n jsv"
  hs_extensions :: "'n jsv"
  hs_ticket :: "'n jsv"

text \<open>
  \<open>cc_ephemeralPriv\<close> of the configuration is the caller's array, which the client works on in place.
\<close>

record 'n client =
  hc_cfg :: client_config
  hc_nonce :: "bytes option"
  hc_ephPriv :: "bytes option"
  hc_ephPub :: "bytes option"
  hc_initCanonical :: "bytes option"
  hc_sessionId :: "'n jsv"
  hc_sessionKeys :: "session_keys option"
  hc_proofKeyId :: "'n jsv"
  hc_proofSignature :: "'n jsv"
  hc_resumptionSecret :: "bytes option"
  hc_resumeNonce :: "bytes option"
  hc_finalSession :: "'n client_session option"

record draws =
  dr_x25519 :: bytes
  dr_kemSeed :: bytes
  dr_nonce :: bytes
  dr_proofNonce :: bytes
  dr_resumeNonce :: bytes

definition newClient :: "client_config \<Rightarrow> 'n hs_error + 'n client" where
  "newClient cfg =
     (if cc_suite cfg \<noteq> baseSuite \<and> cc_suite cfg \<noteq> pqSuite then Inl (HsFail ''unsupported suite'')
      else if cc_serverDomainPub cfg = [] then Inl (HsFail ''empty server domain pub'')
      else if cc_transport cfg = [] then Inl (HsFail ''empty transport identifier'')
      else Inr \<lparr>hc_cfg = cfg, hc_nonce = cc_nonce cfg, hc_ephPriv = cc_ephemeralPriv cfg, hc_ephPub = None,
        hc_initCanonical = None, hc_sessionId = Some (JStr []), hc_sessionKeys = None,
        hc_proofKeyId = Some (JStr []), hc_proofSignature = Some (JStr []), hc_resumptionSecret = None,
        hc_resumeNonce = None, hc_finalSession = None\<rparr>)"

section \<open>Helpers\<close>

definition fld :: "'n jsv \<Rightarrow> string \<Rightarrow> 'n hs_error + 'n jsv" where
  "fld v k = (case field v k of Inl e \<Rightarrow> Inl (Js e) | Inr x \<Rightarrow> Inr x)"

definition b64 :: "'n env \<Rightarrow> 'n jsv \<Rightarrow> 'n hs_error + bytes" where
  "b64 E v = (case base64Decode E v of Inl e \<Rightarrow> Inl (Js e) | Inr x \<Rightarrow> Inr x)"

definition cr :: "crypto_error + 'a \<Rightarrow> 'n hs_error + 'a" where
  "cr r = (case r of Inl e \<Rightarrow> Inl (CryptoErr e) | Inr x \<Rightarrow> Inr x)"

lemma fld_Inr: "fld v k = Inr x \<longleftrightarrow> field v k = Inr x"
  by (simp add: fld_def case_sum_Inr)

lemma cr_Inr [simp]: "cr r = Inr x \<longleftrightarrow> r = Inr x"
  by (simp add: cr_def case_sum_Inr)

definition hexSha256 :: "primitives \<Rightarrow> bytes \<Rightarrow> jstr" where
  "hexSha256 C bs = bytesToHex (sha256 C bs)"

text \<open>\<open>verifyServerSignature\<close> on a received object (the deep clone is the identity on it).\<close>

definition verifyServerSignature :: "'n env \<Rightarrow> 'n jsv \<Rightarrow> string \<Rightarrow> bytes \<Rightarrow> 'n hs_error + unit" where
  "verifyServerSignature E message signatureField serverDomainPub =
     bindR (fld message signatureField) (\<lambda>sigB64.
     case sigB64 of
       Some (JStr sig) \<Rightarrow>
         if sig = [] then Inl (HsFail ''signature missing or empty'')
         else
           let clone = obj_set (js signatureField) (JStr []) (objOf message);
               signingInput = e_utf8 E HandshakePrefix @ marshalE E (JObj clone) in
           if \<not> verify (e_prims E) serverDomainPub (e_dec64 E sig) signingInput then
             Inl (HsFail ''signature did not verify under server domain key'')
           else Inr ()
     | _ \<Rightarrow> Inl (HsFail ''signature missing or empty''))"

text \<open>The error a rejection is turned into.\<close>

definition rejection :: "'n jsv \<Rightarrow> 'n hs_error + 'a" where
  "rejection m =
     bindR (fld m ''session_id'') (\<lambda>sid. bindR (fld m ''reason_code'') (\<lambda>code.
     bindR (fld m ''reason'') (\<lambda>reason. Inl (Rejected sid code reason))))"

section \<open>INIT\<close>

definition clientInit :: "'n env \<Rightarrow> draws \<Rightarrow> ('n client, 'n hs_error, bytes) op" where
  "clientInit E r =
     bindX get (\<lambda>c.
     bindX (throwIf (hc_initCanonical c \<noteq> None) (HsFail ''init already called'')) (\<lambda>_.
     bindX
       (if cc_suite (hc_cfg c) = pqSuite then
          bindX (throwIf (hc_ephPriv c \<noteq> None) (HsFail ''PQ suite does not accept pre-pinned key'')) (\<lambda>_.
          bindX (lift (cr (hybridGenerateKeyPair (e_prims E) (dr_x25519 r) (dr_kemSeed r)))) (\<lambda>(pub, priv).
          bindX (modify (\<lambda>c. c\<lparr>hc_ephPriv := Some priv, hc_ephPub := Some pub\<rparr>)) (\<lambda>_. ret pub)))
        else
          let priv = (case hc_ephPriv c of None \<Rightarrow> dr_x25519 r | Some p \<Rightarrow> p) in
          bindX (modify (\<lambda>c. c\<lparr>hc_ephPriv := Some priv\<rparr>)) (\<lambda>_.
          bindX (lift (cr (x25519PublicKey (e_prims E) priv))) (\<lambda>pub.
          bindX (modify (\<lambda>c. c\<lparr>hc_ephPub := Some pub\<rparr>)) (\<lambda>_. ret pub))))
     (\<lambda>ephPub.
     let nonce = (case hc_nonce c of None \<Rightarrow> dr_nonce r | Some n \<Rightarrow> n) in
     bindX (modify (\<lambda>c. c\<lparr>hc_nonce := Some nonce\<rparr>)) (\<lambda>_.
     bindX (lift (if cc_suite (hc_cfg c) = pqSuite then Inr (hexSha256 (e_prims E) ephPub)
                  else cr (fingerprint (e_prims E) ephPub))) (\<lambda>ephKeyId.
     let init = buildInit (e_num E) (e_enc64 E nonce) (cc_transport (hc_cfg c))
           \<lparr>kr_algorithm = cc_suite (hc_cfg c), kr_key = e_enc64 E ephPub, kr_key_id = ephKeyId\<rparr>
           (cc_capabilities (hc_cfg c));
         initCanonical = marshalE E (JObj init) in
     bindX (modify (\<lambda>c. c\<lparr>hc_initCanonical := Some initCanonical\<rparr>)) (\<lambda>_.
     ret initCanonical))))))"

section \<open>CHALLENGE\<close>

text \<open>\<open>None\<close> when the search for a solution does not return. The state is only read.\<close>

definition checkChallenge :: "'n env \<Rightarrow> time \<Rightarrow> 'n client \<Rightarrow> bytes \<Rightarrow> 'n hs_error + (bytes \<times> 'n jsv \<times> 'n jsv)" where
  "checkChallenge E now c data =
     (if hc_initCanonical c = None then Inl (HsFail ''onChallenge before init'') else
      bindR (parseFrame E data) (\<lambda>m.
      bindR (fld m ''type'') (\<lambda>type. bindR (fld m ''step'') (\<lambda>step.
      if type \<noteq> Some (str ''SEMP_HANDSHAKE'') \<or> step \<noteq> Some (str ''challenge'') then
        Inl (HsFail ''challenge type/step mismatch'') else
      bindR (fld m ''challenge_type'') (\<lambda>ctype.
      if ctype \<noteq> Some (str ''proof_of_work'') then Inl (HsFail ''unsupported challenge type'') else
      bindR (verifyServerSignature E m ''server_signature'' (cc_serverDomainPub (hc_cfg c))) (\<lambda>_.
      bindR (fld m ''parameters'') (\<lambda>params.
      let params = Some (coalesce params (JObj [])) in
      bindR (fld params ''algorithm'') (\<lambda>algorithm.
      if algorithm \<noteq> Some (str ''argon2id-pow'') then Inl (HsFail ''unsupported PoW algorithm'') else
      bindR (fld params ''difficulty'') (\<lambda>difficulty.
      let difficulty = Some (coalesce difficulty (JNum (e_num E 0))) in
      if e_gt E difficulty MaxPoWDifficulty then Inl (ChallengeInvalid ''difficulty'') else
      bindR (fld m ''expires'') (\<lambda>expires.
      if (case expires of
            Some (JStr s) \<Rightarrow> s \<noteq> [] \<and> (case e_date E s of None \<Rightarrow> False | Some ms \<Rightarrow> now \<ge> ms)
          | _ \<Rightarrow> False)
      then Inl (ChallengeInvalid ''expired'') else
      bindR (fld params ''prefix'') (\<lambda>prefix.
      bindR (b64 E (Some (coalesce prefix (JStr [])))) (\<lambda>prefix.
      bindR (fld m ''challenge_id'') (\<lambda>cid. Inr (prefix, cid, difficulty))))))))))))))"

definition onChallenge :: "'n env \<Rightarrow> time \<Rightarrow> 'n client \<Rightarrow> bytes \<Rightarrow> ('n hs_error + bytes) option" where
  "onChallenge E now c data =
     (case checkChallenge E now c data of
        Inl e \<Rightarrow> Some (Inl e)
      | Inr (prefix, cid, difficulty) \<Rightarrow>
          (case solvePoW E prefix (stringOf E (coalesce cid (JStr []))) difficulty of
             None \<Rightarrow> None
           | Some (nonceB64, hashHex) \<Rightarrow> Some (Inr (marshalE E (JObj
               ([(js ''type'', str ''SEMP_HANDSHAKE''), (js ''step'', str ''challenge_response''),
                 (js ''party'', str ''client''), (js ''version'', str ''1.0.0'')] @
                opt_field ''challenge_id'' cid @
                [(js ''challenge_type'', str ''proof_of_work''),
                 (js ''solution'', JObj [(js ''nonce'', JStr nonceB64), (js ''hash'', JStr hashHex)])]))))))"

section \<open>RESPONSE\<close>

text \<open>The shared secret under the suite of the client.\<close>

definition clientShared :: "'n env \<Rightarrow> 'n client \<Rightarrow> bytes \<Rightarrow> bytes \<Rightarrow> 'n hs_error + bytes" where
  "clientShared E c ephPriv serverEphPub =
     (if cc_suite (hc_cfg c) = pqSuite then
        (case hc_ephPub c of
           Some pub \<Rightarrow>
             if length pub \<noteq> HybridPublicKeySize then Inl (HsFail ''PQ ephemeral pub missing or wrong size'')
             else cr (hybridDecapsulate (e_prims E) serverEphPub ephPriv)
         | None \<Rightarrow> Inl (HsFail ''PQ ephemeral pub missing or wrong size''))
      else cr (x25519Agree (e_prims E) ephPriv serverEphPub))"

text \<open>The checks on the message and the session keys: what precedes the first change of the state.\<close>

definition responseKeys ::
  "'n env \<Rightarrow> 'n client \<Rightarrow> bytes \<Rightarrow> bytes \<Rightarrow> bytes \<Rightarrow> 'n hs_error + ('n jsv \<times> session_keys)"
where
  "responseKeys E c ephPriv nonce data =
     bindR (parseFrame E data) (\<lambda>m.
     bindR (fld m ''step'') (\<lambda>step.
     if step = Some (str ''rejected'') then rejection m else
     bindR (fld m ''type'') (\<lambda>type.
     if type \<noteq> Some (str ''SEMP_HANDSHAKE'') \<or> step \<noteq> Some (str ''response'') then
       Inl (HsFail ''response type/step mismatch'') else
     bindR (fld m ''client_nonce'') (\<lambda>clientNonce.
     if clientNonce \<noteq> Some (JStr (e_enc64 E nonce)) then Inl (HsFail ''response client_nonce mismatch'') else
     bindR (verifyServerSignature E m ''server_signature'' (cc_serverDomainPub (hc_cfg c))) (\<lambda>_.
     bindR (fld m ''server_ephemeral_key'') (\<lambda>ek. bindR (fld ek ''key'') (\<lambda>key.
     bindR (b64 E key) (\<lambda>serverEphPub.
     bindR (fld m ''server_nonce'') (\<lambda>sn. bindR (b64 E sn) (\<lambda>serverNonce.
     bindR (clientShared E c ephPriv serverEphPub) (\<lambda>shared.
     Inr (m, deriveSessionKeysWithResumption (e_prims E) (e_utf8 E) shared nonce serverNonce))))))))))))"

text \<open>\<open>this.ephPriv.fill(0); this.ephPriv = null\<close>: a pinned key is the caller's array.\<close>

definition dropEphemeral :: "'n client \<Rightarrow> 'n client" where
  "dropEphemeral c = c\<lparr>hc_ephPriv := None,
     hc_cfg := (hc_cfg c)\<lparr>cc_ephemeralPriv := map_option (\<lambda>p. zeros (length p)) (cc_ephemeralPriv (hc_cfg c))\<rparr>\<rparr>"

definition onResponse :: "'n env \<Rightarrow> draws \<Rightarrow> bytes \<Rightarrow> ('n client, 'n hs_error, bytes) op" where
  "onResponse E r data =
     bindX get (\<lambda>c.
     case hc_initCanonical c of
       None \<Rightarrow> throw (HsFail ''onResponse before init'')
     | Some initCanonical \<Rightarrow>
       (case (hc_ephPriv c, hc_nonce c) of
          (Some ephPriv, Some nonce) \<Rightarrow>
            bindX (lift (responseKeys E c ephPriv nonce data)) (\<lambda>(resp, keys).
            bindX (modify dropEphemeral) (\<lambda>_.
            let ch = confirmationHash (e_prims E) initCanonical (marshalE E (JObj (objOf resp))) in
            bindX (lift (fld resp ''session_id'')) (\<lambda>sid.
            bindX (lift (case cc_identity (hc_cfg c) of
                None \<Rightarrow> Inr []
              | Some i \<Rightarrow> cr (composeIdentityProof E i sid ch (encC2S keys) (dr_proofNonce r)))) (\<lambda>proofB64.
            let confirm = buildConfirm sid (e_enc64 E ch) proofB64 in
            bindX (modify (\<lambda>c. c\<lparr>hc_sessionId := sid, hc_sessionKeys := Some keys\<rparr>)) (\<lambda>_.
            bindX (lift (fld resp ''server_identity_proof'')) (\<lambda>idp.
            bindX (lift (fld idp ''key_id'')) (\<lambda>kid.
            bindX (modify (\<lambda>c. c\<lparr>hc_proofKeyId := kid\<rparr>)) (\<lambda>_.
            bindX (lift (fld idp ''signature'')) (\<lambda>psig.
            bindX (modify (\<lambda>c. c\<lparr>hc_proofSignature := psig\<rparr>)) (\<lambda>_.
            ret (marshalE E (JObj confirm))))))))))))
        | _ \<Rightarrow> throw (HsFail ''ephemeral state missing'')))"

section \<open>ACCEPTED\<close>

definition ttlOf :: "'n env \<Rightarrow> 'n jsv \<Rightarrow> 'n jsv" where
  "ttlOf E v = (if e_gt E v 0 then v else Some (JNum (e_num E 300)))"

definition acceptedSession ::
  "'n env \<Rightarrow> 'n jsv \<Rightarrow> session_keys \<Rightarrow> 'n jsv \<Rightarrow> 'n jsv \<Rightarrow> 'n client_session"
where
  "acceptedSession E m keys proofKeyId proofSignature =
     (let get = (\<lambda>k. map_of (objOf m) (js k)) in
      \<lparr>hs_sessionId = get ''session_id'', hs_sessionTTL = ttlOf E (get ''session_ttl''),
       hs_permissions = get ''permissions'', hs_keys = keys, hs_proofKeyId = proofKeyId,
       hs_proofSignature = proofSignature, hs_extensions = get ''extensions'',
       hs_ticket = get ''resumption_ticket''\<rparr>)"

definition checkAccepted :: "'n env \<Rightarrow> 'n client \<Rightarrow> bytes \<Rightarrow> 'n hs_error + 'n jsv" where
  "checkAccepted E c data =
     bindR (parseFrame E data) (\<lambda>m.
     bindR (fld m ''step'') (\<lambda>step.
     if step = Some (str ''rejected'') then rejection m else
     bindR (fld m ''type'') (\<lambda>type.
     if type \<noteq> Some (str ''SEMP_HANDSHAKE'') \<or> step \<noteq> Some (str ''accepted'') then
       Inl (HsFail ''accepted type/step mismatch'') else
     bindR (fld m ''session_id'') (\<lambda>sid.
     if \<not> strictEq sid (hc_sessionId c) then Inl (HsFail ''accepted session_id mismatch'') else
     bindR (verifyServerSignature E m ''server_signature'' (cc_serverDomainPub (hc_cfg c))) (\<lambda>_.
     Inr m)))))"

definition onAccepted :: "'n env \<Rightarrow> bytes \<Rightarrow> ('n client, 'n hs_error, unit) op" where
  "onAccepted E data =
     bindX get (\<lambda>c.
     case hc_sessionKeys c of
       None \<Rightarrow> throw (HsFail ''onAccepted before onResponse'')
     | Some keys \<Rightarrow>
         bindX (lift (checkAccepted E c data)) (\<lambda>m.
         modify (\<lambda>c. c\<lparr>hc_finalSession :=
           Some (acceptedSession E m keys (hc_proofKeyId c) (hc_proofSignature c))\<rparr>)))"

definition onRejected :: "'n env \<Rightarrow> bytes \<Rightarrow> 'n hs_error + 'n hs_error" where
  "onRejected E data =
     bindR (parseFrame E data) (\<lambda>m.
     bindR (fld m ''type'') (\<lambda>type. bindR (fld m ''step'') (\<lambda>step.
     if type \<noteq> Some (str ''SEMP_HANDSHAKE'') \<or> step \<noteq> Some (str ''rejected'') then
       Inl (HsFail ''rejected type/step mismatch'')
     else case rejection m of Inl e \<Rightarrow> Inr e | Inr e \<Rightarrow> Inr e)))"

section \<open>Resumption\<close>

definition loadResumptionSecret :: "bytes \<Rightarrow> ('n client, 'n hs_error, unit) op" where
  "loadResumptionSecret secret =
     bindX (throwIf (secret = []) (HsFail ''empty resumption secret'')) (\<lambda>_.
     modify (\<lambda>c. c\<lparr>hc_resumptionSecret := Some secret\<rparr>))"

definition resume :: "'n env \<Rightarrow> draws \<Rightarrow> jstr \<Rightarrow> ('n client, 'n hs_error, bytes) op" where
  "resume E r ticket =
     bindX get (\<lambda>c.
     bindX (throwIf (hc_resumptionSecret c = None) (HsFail ''resume before loadResumptionSecret'')) (\<lambda>_.
     bindX (throwIf (ticket = []) (HsFail ''empty resumption ticket'')) (\<lambda>_.
     let nonce = (case hc_resumeNonce c of None \<Rightarrow> dr_resumeNonce r | Some n \<Rightarrow> n) in
     bindX (modify (\<lambda>c. c\<lparr>hc_resumeNonce := Some nonce\<rparr>)) (\<lambda>_.
     ret (marshalE E (JObj
       [(js ''type'', str ''SEMP_HANDSHAKE''), (js ''step'', str ''resume''), (js ''party'', str ''client''),
        (js ''version'', str ''1.0.0''), (js ''ticket'', JStr ticket),
        (js ''client_nonce'', JStr (e_enc64 E nonce)),
        (js ''capabilities'', capabilities_json (e_num E) (cc_capabilities (hc_cfg c))),
        (js ''extensions'', JObj [])]))))))"

definition checkResumeAccepted :: "'n env \<Rightarrow> 'n client \<Rightarrow> bytes \<Rightarrow> 'n hs_error + ('n jsv \<times> bytes)" where
  "checkResumeAccepted E c data =
     bindR (parseFrame E data) (\<lambda>m.
     bindR (fld m ''step'') (\<lambda>step.
     if step = Some (str ''rejected'') then rejection m else
     bindR (fld m ''type'') (\<lambda>type.
     if type \<noteq> Some (str ''SEMP_HANDSHAKE'') \<or> step \<noteq> Some (str ''accepted'') then
       Inl (HsFail ''resume accepted type/step mismatch'') else
     bindR (verifyServerSignature E m ''server_signature'' (cc_serverDomainPub (hc_cfg c))) (\<lambda>_.
     bindR (fld m ''server_nonce'') (\<lambda>sn.
     case sn of
       Some (JStr s) \<Rightarrow>
         if s = [] then Inl (HsFail ''resume accepted missing server_nonce'') else Inr (m, e_dec64 E s)
     | _ \<Rightarrow> Inl (HsFail ''resume accepted missing server_nonce''))))))"

definition onResumeAccepted ::
  "'n env \<Rightarrow> bytes \<Rightarrow> ('n client, 'n hs_error, 'n client_session \<times> 'n jsv) op"
where
  "onResumeAccepted E data =
     bindX get (\<lambda>c.
     case (hc_resumptionSecret c, hc_resumeNonce c) of
       (Some secret, Some nonce) \<Rightarrow>
         bindX (lift (checkResumeAccepted E c data)) (\<lambda>(m, serverNonce).
         let keys = deriveSessionKeysWithResumption (e_prims E) (e_utf8 E) secret nonce serverNonce in
         bindX (modify (\<lambda>c. c\<lparr>hc_resumptionSecret := None\<rparr>)) (\<lambda>_.
         let sess = acceptedSession E m keys (Some (JStr [])) (Some (JStr [])) in
         bindX (modify (\<lambda>c. c\<lparr>hc_finalSession := Some sess\<rparr>)) (\<lambda>_.
         ret (sess, case hs_ticket sess of
             None \<Rightarrow> None | Some JNull \<Rightarrow> None | Some t \<Rightarrow> (case field (Some t) ''value'' of Inl _ \<Rightarrow> None | Inr v \<Rightarrow> v)))))
     | _ \<Rightarrow> throw (HsFail ''onResumeAccepted before resume''))"

section \<open>Session and erasure\<close>

definition clientSession :: "'n client \<Rightarrow> 'n hs_error + 'n client_session" where
  "clientSession c = (case hc_finalSession c of
      None \<Rightarrow> Inl (HsFail ''session not yet established'') | Some s \<Rightarrow> Inr s)"

definition clientErase :: "'n client \<Rightarrow> 'n client" where
  "clientErase c =
     (let c1 = (if hc_ephPriv c \<noteq> None then dropEphemeral c else c) in
      c1\<lparr>hc_resumptionSecret := None, hc_sessionKeys := None\<rparr>)"

end
