(* ===== verification/Transport.thy ===== *)
theory Transport
  imports Prelude
begin

text \<open>
  The in-process transport, \<^verbatim>\<open>src/src/transport/memory.ts\<close>: two asynchronous queues crossed between two
  endpoints. A call of \<open>shift\<close> returns a promise; promises are numbers, and \<open>settled\<close> is the log of
  promises settled so far, oldest first.
\<close>

section \<open>The queue\<close>

datatype 'a outcome = Resolved 'a | ResolvedNull | RejectedPromise

record 'a fifo =
  items :: "'a list"
  waiters :: "nat list"
  writerClosed :: bool
  readerClosed :: bool
  settled :: "(nat \<times> 'a outcome) list"

definition newQueue :: "'a fifo" where
  "newQueue = \<lparr>items = [], waiters = [], writerClosed = False, readerClosed = False, settled = []\<rparr>"

definition settle :: "nat \<Rightarrow> 'a outcome \<Rightarrow> 'a fifo \<Rightarrow> 'a fifo" where
  "settle p x q = q\<lparr>settled := settled q @ [(p, x)]\<rparr>"

datatype transport_error = PushAfterWriterClose | SendAfterClose

definition push :: "'a \<Rightarrow> 'a fifo \<Rightarrow> 'a fifo \<times> (transport_error + unit)" where
  "push v q =
     (if writerClosed q then (q, Inl PushAfterWriterClose)
      else (case waiters q of
          p # ps \<Rightarrow> (settle p (Resolved v) (q\<lparr>waiters := ps\<rparr>), Inr ())
        | [] \<Rightarrow> (q\<lparr>items := items q @ [v]\<rparr>, Inr ())))"

text \<open>\<open>p\<close> is the promise the call returns.\<close>

definition shift :: "nat \<Rightarrow> 'a fifo \<Rightarrow> 'a fifo" where
  "shift p q =
     (if readerClosed q then settle p RejectedPromise q
      else (case items q of
          v # vs \<Rightarrow> settle p (Resolved v) (q\<lparr>items := vs\<rparr>)
        | [] \<Rightarrow> if writerClosed q then settle p ResolvedNull q else q\<lparr>waiters := waiters q @ [p]\<rparr>))"

definition closeWriter :: "'a fifo \<Rightarrow> 'a fifo" where
  "closeWriter q =
     (let q = q\<lparr>writerClosed := True\<rparr> in
      if items q = [] then
        q\<lparr>waiters := [], settled := settled q @ map (\<lambda>p. (p, ResolvedNull)) (waiters q)\<rparr>
      else q)"

definition closeReader :: "'a fifo \<Rightarrow> 'a fifo" where
  "closeReader q = q\<lparr>readerClosed := True, waiters := [],
     settled := settled q @ map (\<lambda>p. (p, RejectedPromise)) (waiters q)\<rparr>"

section \<open>The pair of endpoints\<close>

text \<open>A queue with the endpoints at its two ends: what the writer sent and whether each end is closed.\<close>

record 'a pair =
  aToB :: "'a fifo"
  bToA :: "'a fifo"
  aClosed :: bool
  bClosed :: bool

definition newPair :: "'a pair" where
  "newPair = \<lparr>aToB = newQueue, bToA = newQueue, aClosed = False, bClosed = False\<rparr>"

text \<open>The methods of \<open>Endpoint\<close>, for the endpoint \<open>a\<close>; those of \<open>b\<close> are the same on the swapped pair.\<close>

definition swap :: "'a pair \<Rightarrow> 'a pair" where
  "swap P = \<lparr>aToB = bToA P, bToA = aToB P, aClosed = bClosed P, bClosed = aClosed P\<rparr>"

definition send_a :: "'a \<Rightarrow> 'a pair \<Rightarrow> 'a pair \<times> (transport_error + unit)" where
  "send_a message P =
     (if aClosed P then (P, Inl SendAfterClose)
      else (case push message (aToB P) of (q, r) \<Rightarrow> (P\<lparr>aToB := q\<rparr>, r)))"

definition receive_a :: "nat \<Rightarrow> 'a pair \<Rightarrow> 'a pair" where
  "receive_a p P = P\<lparr>bToA := shift p (bToA P)\<rparr>"

definition close_a :: "'a pair \<Rightarrow> 'a pair" where
  "close_a P =
     (if aClosed P then P
      else P\<lparr>aClosed := True, aToB := closeWriter (aToB P), bToA := closeReader (bToA P)\<rparr>)"

definition send_b :: "'a \<Rightarrow> 'a pair \<Rightarrow> 'a pair \<times> (transport_error + unit)" where
  "send_b message P = (case send_a message (swap P) of (Q, r) \<Rightarrow> (swap Q, r))"

definition receive_b :: "nat \<Rightarrow> 'a pair \<Rightarrow> 'a pair" where
  "receive_b p P = swap (receive_a p (swap P))"

definition close_b :: "'a pair \<Rightarrow> 'a pair" where
  "close_b P = swap (close_a (swap P))"

section \<open>Runs\<close>

datatype 'a transport_call = SendA 'a | SendB 'a | ReceiveA nat | ReceiveB nat | CloseA | CloseB

text \<open>A step, and the messages whose \<open>send\<close> returned, in order.\<close>

record 'a run =
  state :: "'a pair"
  sentA :: "'a list"
  sentB :: "'a list"

fun run_step :: "'a transport_call \<Rightarrow> 'a run \<Rightarrow> 'a run" where
  "run_step (SendA m) R = (case send_a m (state R) of
      (P, Inl e) \<Rightarrow> R\<lparr>state := P\<rparr> | (P, Inr _) \<Rightarrow> R\<lparr>state := P, sentA := sentA R @ [m]\<rparr>)"
| "run_step (SendB m) R = (case send_b m (state R) of
      (P, Inl e) \<Rightarrow> R\<lparr>state := P\<rparr> | (P, Inr _) \<Rightarrow> R\<lparr>state := P, sentB := sentB R @ [m]\<rparr>)"
| "run_step (ReceiveA p) R = R\<lparr>state := receive_a p (state R)\<rparr>"
| "run_step (ReceiveB p) R = R\<lparr>state := receive_b p (state R)\<rparr>"
| "run_step CloseA R = R\<lparr>state := close_a (state R)\<rparr>"
| "run_step CloseB R = R\<lparr>state := close_b (state R)\<rparr>"

definition transport_run :: "'a transport_call list \<Rightarrow> 'a run" where
  "transport_run cs = fold run_step cs \<lparr>state = newPair, sentA = [], sentB = []\<rparr>"

section \<open>Order and loss\<close>

fun received :: "(nat \<times> 'a outcome) list \<Rightarrow> 'a list" where
  "received [] = []"
| "received ((p, Resolved v) # log) = v # received log"
| "received ((p, ResolvedNull) # log) = received log"
| "received ((p, RejectedPromise) # log) = received log"

lemma received_append [simp]: "received (a @ b) = received a @ received b"
  by (induction a rule: received.induct) simp_all

lemma received_map [simp]:
  "received (map (\<lambda>p. (p, ResolvedNull)) ps) = []" "received (map (\<lambda>p. (p, RejectedPromise)) ps) = []"
  by (induction ps) simp_all

text \<open>
  What a queue guarantees for the messages pushed so far: they are the received ones followed by the
  buffered ones; a promise waits only while nothing is buffered and the queue is open; \<open>null\<close> is received
  only when the writer has closed and nothing is left.
\<close>

definition queue_ok :: "'a list \<Rightarrow> 'a fifo \<Rightarrow> bool" where
  "queue_ok sent q \<longleftrightarrow> sent = received (settled q) @ items q \<and> (waiters q \<noteq> [] \<longrightarrow> items q = []) \<and>
     (waiters q \<noteq> [] \<longrightarrow> \<not> writerClosed q \<and> \<not> readerClosed q) \<and>
     (ResolvedNull \<in> snd ` set (settled q) \<longrightarrow> writerClosed q \<and> items q = [])"

lemma push_ok: "queue_ok sent q \<Longrightarrow> \<not> writerClosed q \<Longrightarrow> \<exists>q'. push v q = (q', Inr ()) \<and>
    queue_ok (sent @ [v]) q' \<and> writerClosed q' = writerClosed q \<and> readerClosed q' = readerClosed q"
  by (cases "waiters q") (auto simp: push_def queue_ok_def settle_def)

lemma shift_ok: "queue_ok sent q \<Longrightarrow> queue_ok sent (shift p q) \<and>
    writerClosed (shift p q) = writerClosed q \<and> readerClosed (shift p q) = readerClosed q"
  by (auto simp: shift_def queue_ok_def settle_def split: list.splits)

lemma closeWriter_ok: "queue_ok sent q \<Longrightarrow> queue_ok sent (closeWriter q) \<and> writerClosed (closeWriter q) \<and>
    readerClosed (closeWriter q) = readerClosed q"
  by (auto simp: closeWriter_def queue_ok_def Let_def)

lemma closeReader_ok: "queue_ok sent q \<Longrightarrow> queue_ok sent (closeReader q) \<and> readerClosed (closeReader q) \<and>
    writerClosed (closeReader q) = writerClosed q"
  by (auto simp: closeReader_def queue_ok_def)

text \<open>One endpoint: its flag agrees with the two queues.\<close>

definition side_ok :: "'a list \<Rightarrow> bool \<Rightarrow> bool \<Rightarrow> 'a fifo \<Rightarrow> bool" where
  "side_ok sent writer reader q \<longleftrightarrow> queue_ok sent q \<and> writerClosed q = writer \<and> readerClosed q = reader"

definition pair_ok :: "'a list \<Rightarrow> 'a list \<Rightarrow> 'a pair \<Rightarrow> bool" where
  "pair_ok sa sb P \<longleftrightarrow>
     side_ok sa (aClosed P) (bClosed P) (aToB P) \<and> side_ok sb (bClosed P) (aClosed P) (bToA P)"

lemma swap_simps [simp]:
  "aToB (swap P) = bToA P" "bToA (swap P) = aToB P" "aClosed (swap P) = bClosed P" "bClosed (swap P) = aClosed P"
  "swap (swap P) = P"
  by (simp_all add: swap_def)

lemma pair_ok_swap [simp]: "pair_ok sb sa (swap P) = pair_ok sa sb P"
  by (auto simp: pair_ok_def)

lemma send_a_ok:
  assumes "pair_ok sa sb P"
  shows "aClosed P \<Longrightarrow> send_a m P = (P, Inl SendAfterClose)"
    and "\<not> aClosed P \<Longrightarrow> \<exists>P'. send_a m P = (P', Inr ()) \<and> pair_ok (sa @ [m]) sb P' \<and> \<not> aClosed P'"
  using assms push_ok [of sa "aToB P" m]
  by (auto simp: send_a_def pair_ok_def side_ok_def)

lemma receive_a_ok: "pair_ok sa sb P \<Longrightarrow> pair_ok sa sb (receive_a p P)"
  using shift_ok [of sb "bToA P" p] by (auto simp: receive_a_def pair_ok_def side_ok_def)

lemma close_a_ok: "pair_ok sa sb P \<Longrightarrow> pair_ok sa sb (close_a P) \<and> aClosed (close_a P)"
  using closeWriter_ok [of sa "aToB P"] closeReader_ok [of sb "bToA P"]
  by (auto simp: close_a_def pair_ok_def side_ok_def)

lemma run_step_ok:
  assumes "pair_ok (sentA R) (sentB R) (state R)"
  shows "pair_ok (sentA (run_step c R)) (sentB (run_step c R)) (state (run_step c R))"
proof (cases c)
  case (SendA m)
  with send_a_ok [OF assms, of m] assms show ?thesis by (cases "aClosed (state R)") auto
next
  case (SendB m)
  have "pair_ok (sentB R) (sentA R) (swap (state R))" using assms by simp
  from SendB send_a_ok [OF this, of m] assms show ?thesis
    by (cases "bClosed (state R)") (auto simp: send_b_def)
next
  case (ReceiveA p)
  with receive_a_ok [OF assms] show ?thesis by simp
next
  case (ReceiveB p)
  have "pair_ok (sentB R) (sentA R) (swap (state R))" using assms by simp
  from ReceiveB receive_a_ok [OF this] show ?thesis by (simp add: receive_b_def)
next
  case CloseA
  with close_a_ok [OF assms] show ?thesis by simp
next
  case CloseB
  have "pair_ok (sentB R) (sentA R) (swap (state R))" using assms by simp
  from CloseB close_a_ok [OF this] show ?thesis by (simp add: close_b_def)
qed

lemma transport_run_ok: "pair_ok (sentA (transport_run cs)) (sentB (transport_run cs)) (state (transport_run cs))"
proof -
  have inv: "pair_ok (sentA (fold run_step cs R)) (sentB (fold run_step cs R)) (state (fold run_step cs R))"
    if "pair_ok (sentA R) (sentB R) (state R)" for R :: "'a run"
    using that by (induction cs arbitrary: R) (simp_all add: run_step_ok)
  have "pair_ok [] [] newPair"
    by (simp add: pair_ok_def side_ok_def queue_ok_def newPair_def newQueue_def)
  then show ?thesis unfolding transport_run_def by (intro inv) simp
qed

text \<open>Whatever the two endpoints of the in-process transport call, in whatever order: what \<open>b\<close> has
  received is the beginning of what \<open>a\<close> sent, in order and without loss or duplication, and the rest is
  buffered; a receive waits only when everything sent has been received and both ends are open; the end
  of the stream is reported only after \<open>a\<close> has closed and everything it sent has been received; and
  \<open>send\<close> fails exactly on a closed endpoint.\<close>

theorem memory_transport_order:
  fixes cs :: "'a transport_call list"
  defines "R \<equiv> transport_run cs"
  defines "q \<equiv> aToB (state R)"
  shows "sentA R = received (settled q) @ items q
    \<and> (\<forall>p. (p, ResolvedNull) \<in> set (settled q) \<longrightarrow> aClosed (state R) \<and> received (settled q) = sentA R)
    \<and> (\<forall>p. p \<in> set (waiters q) \<longrightarrow> \<not> aClosed (state R) \<and> \<not> bClosed (state R) \<and> received (settled q) = sentA R)
    \<and> (snd (send_a m (state R)) = (if aClosed (state R) then Inl SendAfterClose else Inr ()))"
proof -
  have ok: "pair_ok (sentA R) (sentB R) (state R)" unfolding R_def by (rule transport_run_ok)
  then have "side_ok (sentA R) (aClosed (state R)) (bClosed (state R)) q" by (simp add: pair_ok_def q_def)
  then have q: "queue_ok (sentA R) q" "writerClosed q = aClosed (state R)" "readerClosed q = bClosed (state R)"
    by (simp_all add: side_ok_def)
  have "snd (send_a m (state R)) = (if aClosed (state R) then Inl SendAfterClose else Inr ())"
    using send_a_ok [OF ok, of m] by (cases "aClosed (state R)") auto
  moreover have "\<forall>p. (p, ResolvedNull) \<in> set (settled q) \<longrightarrow> aClosed (state R) \<and> received (settled q) = sentA R"
    using q by (force simp: queue_ok_def)
  moreover have "\<forall>p. p \<in> set (waiters q) \<longrightarrow>
      \<not> aClosed (state R) \<and> \<not> bClosed (state R) \<and> received (settled q) = sentA R"
    using q by (auto simp: queue_ok_def)
  ultimately show ?thesis using q(1) by (simp add: queue_ok_def)
qed

theorem memory_transport_order_witness:
  "aClosed (state (transport_run [SendA True, ReceiveB 0, CloseA, ReceiveB 1]))
   \<and> received (settled (aToB (state (transport_run [SendA True, ReceiveB 0, CloseA, ReceiveB 1]))))
     = sentA (transport_run [SendA True, ReceiveB 0, CloseA, ReceiveB 1])"
proof -
  have "(1, ResolvedNull) \<in> set (settled (aToB (state (transport_run [SendA True, ReceiveB 0, CloseA, ReceiveB 1]))))"
    by (simp add: transport_run_def newPair_def newQueue_def send_a_def receive_b_def receive_a_def close_a_def
        push_def shift_def settle_def closeWriter_def closeReader_def swap_def Let_def)
  with memory_transport_order [of "[SendA True, ReceiveB 0, CloseA, ReceiveB 1]"] show ?thesis by blast
qed

end
