(* ===== verification/Session.thy ===== *)
theory Session
  imports HandshakeClient Transport
begin

text \<open>
  The established session, \<^verbatim>\<open>src/src/session/session.ts\<close>, the sealed rekey messages
  (\<^verbatim>\<open>rekey_seal.ts\<close>) and the rekey drivers (\<^verbatim>\<open>rekey.ts\<close>). A driver awaits frames of the peer, so it is
  cut into the parts between two awaits of \<open>receive\<close>: other operations may run in between.
\<close>

section \<open>The transport a session uses\<close>

record 't transport_ops =
  t_send :: "bytes \<Rightarrow> 't \<Rightarrow> 't \<times> (transport_error + unit)"
  t_close :: "'t \<Rightarrow> 't \<times> (transport_error + unit)"

section \<open>State\<close>

datatype role = Client | Server

datatype 'n session_error =
    SessionClosed
  | KeysErased
  | ApplyAfterErase
  | ApplyOnClosed
  | TransportErr transport_error
  | HandshakeErr "'n hs_error"
  | RekeyFail string
  | RekeyRejected "'n jsv" "'n jsv"

text \<open>
  The lifetime is a number of seconds, \<open>None\<close> for a value that is not a number. \<open>s_dropped\<close> are the
  key objects the session has given up, with the content they have now: \<open>zero\<close> works on the arrays in
  place, so this is what other holders of the objects see.
\<close>

record ('n, 't) session_config =
  cf_role :: role
  cf_sessionId :: "'n jsv"
  cf_sessionTTL :: "int option"
  cf_establishedAt :: time
  cf_permissions :: "'n json list"
  cf_keys :: session_keys
  cf_transport :: 't
  cf_ticket :: "'n jsv"
  cf_proofKeyId :: "'n jsv"
  cf_proofSignature :: "'n jsv"
  cf_extensions :: "'n jsv"

record ('n, 't) session =
  s_role :: role
  s_sessionId :: "'n jsv"
  s_sessionTTL :: "int option"
  s_establishedAt :: time
  s_permissions :: "'n json set"
  s_ticket :: "'n jsv"
  s_proofKeyId :: "'n jsv"
  s_proofSignature :: "'n jsv"
  s_extensions :: "'n obj"
  s_keys :: "session_keys option"
  s_transport :: 't
  s_closed :: bool
  s_dropped :: "session_keys list"

type_synonym ('n, 't, 'a) session_op = "(('n, 't) session, 'n session_error, 'a) op"

text \<open>\<open>{ ...v }\<close>: the fields of an object, the elements of an array or the units of a string by index.\<close>

fun decimal :: "nat \<Rightarrow> jstr" where
  "decimal n = (if n < 10 then [hexDigit n] else decimal (n div 10) @ [hexDigit (n mod 10)])"

declare decimal.simps [simp del]

fun spread :: "'n jsv \<Rightarrow> 'n obj" where
  "spread (Some (JObj m)) = m"
| "spread (Some (JArr vs)) = map2 (\<lambda>i v. (decimal i, v)) [0..<length vs] vs"
| "spread (Some (JStr s)) = map2 (\<lambda>i c. (decimal i, JStr [c])) [0..<length s] s"
| "spread v = []"

definition newSession :: "('n, 't) session_config \<Rightarrow> ('n, 't) session" where
  "newSession c = \<lparr>s_role = cf_role c, s_sessionId = cf_sessionId c, s_sessionTTL = cf_sessionTTL c,
     s_establishedAt = cf_establishedAt c, s_permissions = set (cf_permissions c), s_ticket = cf_ticket c,
     s_proofKeyId = cf_proofKeyId c, s_proofSignature = cf_proofSignature c,
     s_extensions = spread (cf_extensions c), s_keys = Some (cf_keys c),
     s_transport = cf_transport c, s_closed = False, s_dropped = []\<rparr>"

section \<open>Lifetime\<close>

definition expiresAt :: "('n, 't) session \<Rightarrow> time option" where
  "expiresAt s = map_option (\<lambda>ttl. s_establishedAt s + ttl * 1000) (s_sessionTTL s)"

definition isExpired :: "time \<Rightarrow> ('n, 't) session \<Rightarrow> bool" where
  "isExpired now s = (case expiresAt s of None \<Rightarrow> False | Some t \<Rightarrow> now \<ge> t)"

section \<open>Operations\<close>

definition sessionKeys :: "('n, 't, session_keys) session_op" where
  "sessionKeys = bindX get (\<lambda>s. case s_keys s of None \<Rightarrow> throw KeysErased | Some k \<Rightarrow> ret k)"

definition sessionTransport :: "('n, 't) session \<Rightarrow> 'n session_error + 't" where
  "sessionTransport s = (if s_closed s then Inl SessionClosed else Inr (s_transport s))"

text \<open>A call on the transport.\<close>

definition onTransport :: "('t \<Rightarrow> 't \<times> (transport_error + 'a)) \<Rightarrow> ('n, 't, 'a) session_op" where
  "onTransport f = (\<lambda>s. case f (s_transport s) of
      (t, Inl e) \<Rightarrow> (s\<lparr>s_transport := t\<rparr>, Inl (TransportErr e))
    | (t, Inr x) \<Rightarrow> (s\<lparr>s_transport := t\<rparr>, Inr x))"

definition sessionSend :: "'t transport_ops \<Rightarrow> bytes \<Rightarrow> ('n, 't, unit) session_op" where
  "sessionSend T message =
     bindX get (\<lambda>s.
     bindX (throwIf (s_closed s) SessionClosed) (\<lambda>_.
     onTransport (t_send T message)))"

text \<open>Calling \<open>receive\<close>; what the promise then gives is the argument of the continuation.\<close>

definition sessionReceive :: "('n, 't, unit) session_op" where
  "sessionReceive = bindX get (\<lambda>s. throwIf (s_closed s) SessionClosed)"

definition sessionClose :: "'t transport_ops \<Rightarrow> ('n, 't, unit) session_op" where
  "sessionClose T =
     bindX get (\<lambda>s.
     if s_closed s then ret ()
     else
       bindX (modify (\<lambda>s. s\<lparr>s_closed := True\<rparr>)) (\<lambda>_.
       \<lambda>s. (fst (onTransport (t_close T) s), Inr ())))"

text \<open>\<open>zero\<close> on the arrays of a key object.\<close>

definition zeroBytes :: "bytes \<Rightarrow> bytes" where
  "zeroBytes b = map (\<lambda>_. 0) b"

definition zeroKeys :: "session_keys \<Rightarrow> session_keys" where
  "zeroKeys k = \<lparr>encC2S = zeroBytes (encC2S k), encS2C = zeroBytes (encS2C k), macC2S = zeroBytes (macC2S k),
     macS2C = zeroBytes (macS2C k), envMAC = zeroBytes (envMAC k),
     resumption = map_option zeroBytes (resumption k)\<rparr>"

definition applyRekey :: "'n jsv \<Rightarrow> session_keys \<Rightarrow> ('n, 't, unit) session_op" where
  "applyRekey newSessionId newKeys =
     bindX get (\<lambda>s.
     case s_keys s of
       None \<Rightarrow> throw ApplyAfterErase
     | Some prev \<Rightarrow>
         bindX (throwIf (s_closed s) ApplyOnClosed) (\<lambda>_.
         modify (\<lambda>s. s\<lparr>s_dropped := s_dropped s @ [zeroKeys prev], s_keys := Some newKeys,
           s_sessionId := newSessionId\<rparr>)))"

text \<open>\<open>erase\<close> awaits \<open>close\<close>; \<open>eraseKeys\<close> is what it does after that.\<close>

definition eraseKeys :: "('n, 't, unit) session_op" where
  "eraseKeys =
     bindX get (\<lambda>s.
     case s_keys s of
       None \<Rightarrow> ret ()
     | Some k \<Rightarrow> modify (\<lambda>s. s\<lparr>s_dropped := s_dropped s @ [zeroKeys k], s_keys := None\<rparr>))"

definition sessionErase :: "'t transport_ops \<Rightarrow> ('n, 't, unit) session_op" where
  "sessionErase T = bindX (sessionClose T) (\<lambda>_. eraseKeys)"

section \<open>Sealed rekey messages\<close>

text \<open>\<open>appendLP\<close>: a length in four bytes, most significant first, and the bytes.\<close>

definition lengthPrefixed :: "bytes \<Rightarrow> bytes" where
  "lengthPrefixed b =
     (let n = of_nat (length b) :: 32 word in
      [ucast (drop_bit 24 n AND 255), ucast (drop_bit 16 n AND 255), ucast (drop_bit 8 n AND 255),
       ucast (n AND 255)] @ b)"

definition rekeyAAD :: "'n env \<Rightarrow> jstr \<Rightarrow> 'n jsv \<Rightarrow> bytes \<Rightarrow> bytes" where
  "rekeyAAD E direction sessionId macKey =
     lengthPrefixed (e_utf8 E direction) @ lengthPrefixed (encodeText E sessionId) @ lengthPrefixed macKey"

abbreviation c2s :: jstr where "c2s \<equiv> js ''c2s''"
abbreviation s2c :: jstr where "s2c \<equiv> js ''s2c''"

text \<open>\<open>None\<close> for a direction the switch does not name: it gives \<open>undefined\<close>, and reading it throws.\<close>

definition pickRekeyKeys :: "jstr \<Rightarrow> session_keys \<Rightarrow> (bytes \<times> bytes) option" where
  "pickRekeyKeys direction keys =
     (if direction = c2s then Some (encC2S keys, macC2S keys)
      else if direction = s2c then Some (encS2C keys, macS2C keys)
      else None)"

definition rekeyKeys :: "'n jsv \<Rightarrow> ('n, 't, bytes \<times> bytes) session_op" where
  "rekeyKeys direction =
     (case direction of
        Some (JStr d) \<Rightarrow>
          if d = c2s \<or> d = s2c then
            bindX sessionKeys (\<lambda>keys.
            case pickRekeyKeys d keys of None \<Rightarrow> throw (HandshakeErr (Js TypeError)) | Some k \<Rightarrow> ret k)
          else throw (HandshakeErr (Js TypeError))
      | _ \<Rightarrow> throw (HandshakeErr (Js TypeError)))"

definition hsLift :: "'n hs_error + 'a \<Rightarrow> ('s, 'n session_error, 'a) op" where
  "hsLift r = lift (case r of Inl e \<Rightarrow> Inl (HandshakeErr e) | Inr x \<Rightarrow> Inr x)"

definition sealRekeyMessage ::
  "'n env \<Rightarrow> jstr \<Rightarrow> bytes \<Rightarrow> bytes \<Rightarrow> ('n, 't, 'n obj) session_op"
where
  "sealRekeyMessage E direction plaintext n =
     bindX (rekeyKeys (Some (JStr direction))) (\<lambda>(encKey, macKey).
     bindX (throwIf (length n \<noteq> 12) (HandshakeErr (CryptoErr (BadLength (length n) 12)))) (\<lambda>_.
     bindX get (\<lambda>s.
     let aad = rekeyAAD E direction (s_sessionId s) macKey in
     bindX (hsLift (cr (aeadSeal (e_prims E) Chacha20Poly1305 encKey n plaintext aad))) (\<lambda>ct.
     ret ([(js ''type'', str ''SEMP_REKEY''), (js ''sealed'', JBool True), (js ''direction'', JStr direction),
           (js ''version'', str ''1.0.0'')] @ opt_field ''session_id'' (s_sessionId s) @
          [(js ''nonce'', JStr (e_enc64 E n)), (js ''ciphertext'', JStr (e_enc64 E ct))])))))"

definition openRekeyMessage :: "'n env \<Rightarrow> 'n jsv \<Rightarrow> ('n, 't, bytes) session_op" where
  "openRekeyMessage E msg =
     bindX (hsLift (fld msg ''type'')) (\<lambda>type.
     bindX (throwIf (type \<noteq> Some (str ''SEMP_REKEY'')) (RekeyFail ''type'')) (\<lambda>_.
     bindX (hsLift (fld msg ''sealed'')) (\<lambda>sealed.
     bindX (throwIf (\<not> truthy E sealed) (RekeyFail ''cleartext rekey not supported'')) (\<lambda>_.
     bindX (hsLift (fld msg ''session_id'')) (\<lambda>sid.
     bindX get (\<lambda>s.
     bindX (throwIf (\<not> strictEq sid (s_sessionId s)) (RekeyFail ''session_id does not match current'')) (\<lambda>_.
     bindX (hsLift (fld msg ''direction'')) (\<lambda>direction.
     bindX (rekeyKeys direction) (\<lambda>(encKey, macKey).
     bindX (hsLift (fld msg ''nonce'')) (\<lambda>nonce. bindX (hsLift (b64 E nonce)) (\<lambda>nonce.
     bindX (hsLift (fld msg ''ciphertext'')) (\<lambda>ct. bindX (hsLift (b64 E ct)) (\<lambda>ct.
     let d = (case direction of Some (JStr d) \<Rightarrow> d | _ \<Rightarrow> []) in
     hsLift (cr (aeadOpen (e_prims E) Chacha20Poly1305 encKey nonce ct
       (rekeyAAD E d (s_sessionId s) macKey))))))))))))))))"

section \<open>Rekey drivers\<close>

definition directionFromRole :: "role \<Rightarrow> jstr" where
  "directionFromRole r = (case r of Client \<Rightarrow> c2s | Server \<Rightarrow> s2c)"

definition otherDirection :: "jstr \<Rightarrow> jstr" where
  "otherDirection d = (if d = c2s then s2c else c2s)"

definition otherRole :: "role \<Rightarrow> role" where
  "otherRole r = (case r of Client \<Rightarrow> Server | Server \<Rightarrow> Client)"

record rekey_draws =
  rd_ephPriv :: bytes
  rd_nonce :: bytes
  rd_aeadNonce :: bytes
  rd_sessionId :: jstr

definition ephemeral_json :: "'n env \<Rightarrow> bytes \<Rightarrow> jstr \<Rightarrow> 'n json" where
  "ephemeral_json E ephPub keyId =
     keyref_json \<lparr>kr_algorithm = baseSuite, kr_key = e_enc64 E ephPub, kr_key_id = keyId\<rparr>"

definition rekeyInit :: "'n env \<Rightarrow> 'n jsv \<Rightarrow> bytes \<Rightarrow> jstr \<Rightarrow> bytes \<Rightarrow> 'n obj" where
  "rekeyInit E sessionId ephPub keyId rekeyNonce =
     [(js ''type'', str ''SEMP_REKEY''), (js ''step'', str ''rekey-init''), (js ''version'', str ''1.0.0'')] @
     opt_field ''session_id'' sessionId @
     [(js ''new_ephemeral_key'', ephemeral_json E ephPub keyId), (js ''rekey_nonce'', JStr (e_enc64 E rekeyNonce))]"

definition rekeyAccepted :: "'n env \<Rightarrow> 'n jsv \<Rightarrow> jstr \<Rightarrow> bytes \<Rightarrow> jstr \<Rightarrow> 'n jsv \<Rightarrow> bytes \<Rightarrow> 'n obj" where
  "rekeyAccepted E sessionId newSessionId ephPub keyId rekeyNonce responderNonce =
     [(js ''type'', str ''SEMP_REKEY''), (js ''step'', str ''rekey-accepted''), (js ''version'', str ''1.0.0'')] @
     opt_field ''session_id'' sessionId @
     [(js ''new_session_id'', JStr newSessionId), (js ''new_ephemeral_key'', ephemeral_json E ephPub keyId)] @
     opt_field ''rekey_nonce'' rekeyNonce @
     [(js ''responder_nonce'', JStr (e_enc64 E responderNonce))]"

text \<open>Sealing a body and sending it, as \<open>JSON.stringify\<close> prints the sealed message.\<close>

definition sealed_frame :: "'n env \<Rightarrow> 'n obj \<Rightarrow> bytes" where
  "sealed_frame E m = e_utf8 E (print (e_numstr E) (JObj m))"

definition sendSealed :: "'n env \<Rightarrow> 't transport_ops \<Rightarrow> jstr \<Rightarrow> 'n obj \<Rightarrow> bytes \<Rightarrow> ('n, 't, bytes) session_op" where
  "sendSealed E T direction body aeadNonce =
     bindX (sealRekeyMessage E direction (marshalE E (JObj body)) aeadNonce) (\<lambda>sealed.
     let frame = sealed_frame E sealed in
     bindX (sessionSend T frame) (\<lambda>_. ret frame))"

text \<open>\<open>rekeyClient\<close> up to the await of the response.\<close>

definition rekeyClientSend :: "'n env \<Rightarrow> 't transport_ops \<Rightarrow> rekey_draws \<Rightarrow> ('n, 't, bytes) session_op" where
  "rekeyClientSend E T r =
     bindX get (\<lambda>s.
     bindX (hsLift (cr (x25519PublicKey (e_prims E) (rd_ephPriv r)))) (\<lambda>ephPub.
     bindX (hsLift (cr (fingerprint (e_prims E) ephPub))) (\<lambda>keyId.
     bindX (sendSealed E T (directionFromRole (s_role s))
       (rekeyInit E (s_sessionId s) ephPub keyId (rd_nonce r)) (rd_aeadNonce r)) (\<lambda>frame.
     bindX sessionReceive (\<lambda>_.
     ret frame)))))"

text \<open>The checks both drivers make on a frame, and the body that was sealed in it.\<close>

definition openFrame :: "'n env \<Rightarrow> jstr \<Rightarrow> bytes option \<Rightarrow> ('n, 't, 'n jsv) session_op" where
  "openFrame E direction frame =
     (case frame of
        None \<Rightarrow> throw (RekeyFail ''connection closed'')
      | Some data \<Rightarrow>
          bindX (hsLift (parseFrame E data)) (\<lambda>wrapper.
          bindX (hsLift (fld wrapper ''type'')) (\<lambda>type.
          bindX (throwIf (type \<noteq> Some (str ''SEMP_REKEY'')) (RekeyFail ''expected SEMP_REKEY'')) (\<lambda>_.
          bindX (hsLift (fld wrapper ''direction'')) (\<lambda>d.
          bindX (throwIf (d \<noteq> Some (JStr direction)) (RekeyFail ''direction'')) (\<lambda>_.
          bindX (openRekeyMessage E wrapper) (\<lambda>plain.
          hsLift (parseFrame E plain))))))))"

definition rekeyClientReceive ::
  "'n env \<Rightarrow> rekey_draws \<Rightarrow> bytes option \<Rightarrow> ('n, 't, 'n jsv) session_op"
where
  "rekeyClientReceive E r frame =
     bindX get (\<lambda>s.
     bindX (openFrame E (otherDirection (directionFromRole (s_role s))) frame) (\<lambda>body.
     bindX (hsLift (fld body ''step'')) (\<lambda>step.
     if step = Some (str ''rekey-rejected'') then
       bindX (hsLift (fld body ''reason_code'')) (\<lambda>code.
       bindX (hsLift (fld body ''reason'')) (\<lambda>reason. throw (RekeyRejected code reason)))
     else
       bindX (throwIf (step \<noteq> Some (str ''rekey-accepted'')) (RekeyFail ''expected step=rekey-accepted'')) (\<lambda>_.
       bindX (hsLift (fld body ''new_ephemeral_key'')) (\<lambda>ek. bindX (hsLift (fld ek ''key'')) (\<lambda>key.
       bindX (hsLift (b64 E key)) (\<lambda>responderPub.
       bindX (hsLift (cr (x25519Agree (e_prims E) (rd_ephPriv r) responderPub))) (\<lambda>shared.
       bindX (hsLift (fld body ''responder_nonce'')) (\<lambda>rn. bindX (hsLift (b64 E rn)) (\<lambda>responderNonce.
       let newKeys = deriveRekeyKeys (e_prims E) (e_utf8 E) shared (rd_nonce r) responderNonce in
       bindX (hsLift (fld body ''new_session_id'')) (\<lambda>newId.
       bindX (applyRekey newId newKeys) (\<lambda>_.
       ret newId))))))))))))"

definition rekeyServer ::
  "'n env \<Rightarrow> 't transport_ops \<Rightarrow> rekey_draws \<Rightarrow> bytes option \<Rightarrow> ('n, 't, bytes) session_op"
where
  "rekeyServer E T r frame =
     bindX get (\<lambda>s.
     let initDir = directionFromRole (otherRole (s_role s)); respDir = otherDirection initDir in
     bindX (openFrame E initDir frame) (\<lambda>init.
     bindX (hsLift (fld init ''step'')) (\<lambda>step.
     bindX (throwIf (step \<noteq> Some (str ''rekey-init'')) (RekeyFail ''expected step=rekey-init'')) (\<lambda>_.
     bindX (hsLift (cr (x25519PublicKey (e_prims E) (rd_ephPriv r)))) (\<lambda>ephPub.
     bindX (hsLift (fld init ''new_ephemeral_key'')) (\<lambda>ek. bindX (hsLift (fld ek ''key'')) (\<lambda>key.
     bindX (hsLift (b64 E key)) (\<lambda>initiatorPub.
     bindX (hsLift (fld init ''rekey_nonce'')) (\<lambda>rn. bindX (hsLift (b64 E rn)) (\<lambda>rekeyNonce.
     bindX (hsLift (cr (x25519Agree (e_prims E) (rd_ephPriv r) initiatorPub))) (\<lambda>shared.
     let newKeys = deriveRekeyKeys (e_prims E) (e_utf8 E) shared rekeyNonce (rd_nonce r) in
     bindX (hsLift (cr (fingerprint (e_prims E) ephPub))) (\<lambda>keyId.
     bindX (sendSealed E T respDir
       (rekeyAccepted E (s_sessionId s) (rd_sessionId r) ephPub keyId rn (rd_nonce r)) (rd_aeadNonce r)) (\<lambda>reply.
     bindX (applyRekey (Some (JStr (rd_sessionId r))) newKeys) (\<lambda>_.
     ret reply))))))))))))))"

end
