(* ===== verification/Dispatcher.thy ===== *)
theory Dispatcher
  imports Session
begin

text \<open>
  The message dispatcher, \<^verbatim>\<open>src/src/session/dispatcher.ts\<close>: it reads frames until the stream ends and
  routes each to the handler of its type. What \<open>receive\<close> gives, call after call, is a list; the handlers
  act on a state of their own and may throw.
\<close>

section \<open>Handlers\<close>

datatype received_frame = GotFrame bytes | GotEof | ReceiveThrew jstr

type_synonym ('n, 'h) frame_handler = "(bytes \<Rightarrow> 'n jsv \<Rightarrow> 'h \<Rightarrow> 'h \<times> (jstr + unit)) option"

record ('n, 'h) dispatch_handlers =
  onRekey :: "('n, 'h) frame_handler"
  onEnvelope :: "('n, 'h) frame_handler"
  onKeys :: "('n, 'h) frame_handler"
  onFetch :: "('n, 'h) frame_handler"
  onDiscovery :: "('n, 'h) frame_handler"
  onDelivery :: "('n, 'h) frame_handler"
  onUnknown :: "(jstr \<Rightarrow> bytes \<Rightarrow> 'h \<Rightarrow> 'h \<times> (jstr + unit)) option"
  onHandlerError :: "(jstr \<Rightarrow> jstr \<Rightarrow> 'h \<Rightarrow> 'h) option"
  onFatal :: "(jstr \<Rightarrow> 'h \<Rightarrow> 'h) option"

text \<open>The handler the switch selects for a type.\<close>

definition handlerFor :: "('n, 'h) dispatch_handlers \<Rightarrow> jstr \<Rightarrow> ('n, 'h) frame_handler" where
  "handlerFor H type =
     (if type = js ''SEMP_REKEY'' then onRekey H
      else if type = js ''SEMP_ENVELOPE'' then onEnvelope H
      else if type = js ''SEMP_KEYS'' then onKeys H
      else if type = js ''SEMP_FETCH'' then onFetch H
      else if type = js ''SEMP_DISCOVERY'' then onDiscovery H
      else if type = js ''SEMP_DELIVERY_ACK'' \<or> type = js ''SEMP_DELIVERY_RECEIPT'' then onDelivery H
      else None)"

definition dispatchOne ::
  "('n, 'h) dispatch_handlers \<Rightarrow> jstr \<Rightarrow> bytes \<Rightarrow> 'n jsv \<Rightarrow> 'h \<Rightarrow> 'h \<times> (jstr + unit)"
where
  "dispatchOne H type frame parsed h =
     (case handlerFor H type of
        Some f \<Rightarrow> f frame parsed h
      | None \<Rightarrow> (case onUnknown H of None \<Rightarrow> (h, Inr ()) | Some f \<Rightarrow> f type frame h))"

section \<open>The loop\<close>

text \<open>
  How it ends: resolved, rejected with the exception of a statement outside every \<open>try\<close>, or still waiting
  for the next frame.
\<close>

datatype dispatcher_end = DispatcherResolved | DispatcherRejected js_error | DispatcherWaiting

definition typeOf :: "'n jsv \<Rightarrow> js_error + jstr" where
  "typeOf parsed = bindR (field parsed ''type'') (\<lambda>t. Inr (case t of Some (JStr s) \<Rightarrow> s | _ \<Rightarrow> []))"

definition fatal :: "('n, 'h) dispatch_handlers \<Rightarrow> jstr \<Rightarrow> 'h \<Rightarrow> 'h" where
  "fatal H message h = (case onFatal H of None \<Rightarrow> h | Some f \<Rightarrow> f message h)"

definition malformed :: jstr where "malformed = js ''dispatcher: malformed frame''"

definition handleFrame :: "('n, 'h) dispatch_handlers \<Rightarrow> jstr \<Rightarrow> bytes \<Rightarrow> 'n jsv \<Rightarrow> 'h \<Rightarrow> 'h" where
  "handleFrame H type frame parsed h =
     (case dispatchOne H type frame parsed h of
        (h', Inr _) \<Rightarrow> h'
      | (h', Inl err) \<Rightarrow> (case onHandlerError H of None \<Rightarrow> h' | Some f \<Rightarrow> f err type h'))"

fun runDispatcher ::
  "'n env \<Rightarrow> ('n, 'h) dispatch_handlers \<Rightarrow> received_frame list \<Rightarrow> 'h \<Rightarrow> 'h \<times> dispatcher_end"
where
  "runDispatcher E H [] h = (h, DispatcherWaiting)"
| "runDispatcher E H (ReceiveThrew message # fs) h = (fatal H message h, DispatcherResolved)"
| "runDispatcher E H (GotEof # fs) h = (h, DispatcherResolved)"
| "runDispatcher E H (GotFrame frame # fs) h =
     (case e_parse E frame of
        None \<Rightarrow> (fatal H malformed h, DispatcherResolved)
      | Some v \<Rightarrow>
          (case typeOf (Some v) of
             Inl e \<Rightarrow> (h, DispatcherRejected e)
           | Inr type \<Rightarrow> runDispatcher E H fs (handleFrame H type frame (Some v) h)))"

section \<open>Properties\<close>

text \<open>A frame the loop dispatches, with its parsed value and type.\<close>

definition dispatchable :: "'n env \<Rightarrow> received_frame \<Rightarrow> bool" where
  "dispatchable E r \<longleftrightarrow> (case r of
      GotFrame frame \<Rightarrow> (case e_parse E frame of None \<Rightarrow> False | Some v \<Rightarrow> v \<noteq> JNull) | _ \<Rightarrow> False)"

fun dispatched :: "'n env \<Rightarrow> ('n, 'h) dispatch_handlers \<Rightarrow> received_frame \<Rightarrow> 'h \<Rightarrow> 'h" where
  "dispatched E H (GotFrame frame) h = (case e_parse E frame of
     None \<Rightarrow> h | Some v \<Rightarrow> handleFrame H (case typeOf (Some v) of Inr t \<Rightarrow> t | Inl _ \<Rightarrow> []) frame (Some v) h)"
| "dispatched E H GotEof h = h"
| "dispatched E H (ReceiveThrew m) h = h"

lemma typeOf_Inr: "v \<noteq> JNull \<Longrightarrow> \<exists>t. typeOf (Some v) = Inr t"
  by (cases v) (simp_all add: typeOf_def)

lemma runDispatcher_append:
  "list_all (dispatchable E) fs \<Longrightarrow> runDispatcher E H (fs @ gs) h = runDispatcher E H gs (fold (dispatched E H) fs h)"
proof (induction fs arbitrary: h)
  case (Cons r fs)
  then obtain frame v where r: "r = GotFrame frame" "e_parse E frame = Some v" "v \<noteq> JNull"
    by (auto simp: dispatchable_def split: received_frame.splits option.splits)
  obtain t where "typeOf (Some v) = Inr t" using typeOf_Inr [OF r(3)] by blast
  with Cons r show ?case by simp
qed simp

text \<open>As long as the frames are JSON values other than \<open>null\<close>, every frame is handled once, in the order
  of arrival, whatever the handlers throw; the loop ends only at the end of the stream, at a failed
  receive or at a malformed frame, the last two after telling \<open>onFatal\<close>, and what follows is not read.\<close>

theorem dispatcher_handles_every_frame:
  assumes "list_all (dispatchable E) fs"
  shows "runDispatcher E H fs h = (fold (dispatched E H) fs h, DispatcherWaiting)
    \<and> runDispatcher E H (fs @ GotEof # gs) h = (fold (dispatched E H) fs h, DispatcherResolved)
    \<and> runDispatcher E H (fs @ ReceiveThrew m # gs) h = (fatal H m (fold (dispatched E H) fs h), DispatcherResolved)
    \<and> (e_parse E bad = None \<longrightarrow>
        runDispatcher E H (fs @ GotFrame bad # gs) h = (fatal H malformed (fold (dispatched E H) fs h), DispatcherResolved))"
  using runDispatcher_append [OF assms, of H "[]" h] by (simp add: runDispatcher_append [OF assms])

text \<open>A frame that is the JSON value \<open>null\<close> ends the loop with a rejected promise: no hook is told, and
  the frames after it are not read.\<close>

theorem dispatcher_null_frame:
  assumes "list_all (dispatchable E) fs" and "e_parse E frame = Some JNull"
  shows "runDispatcher E H (fs @ GotFrame frame # gs) h
    = (fold (dispatched E H) fs h, DispatcherRejected TypeError)"
  using assms(2) by (simp add: runDispatcher_append [OF assms(1)] typeOf_def)

definition demo_handlers :: "(int, jstr list) dispatch_handlers" where
  "demo_handlers = \<lparr>onRekey = Some (\<lambda>f v h. (h @ [js ''rekey''], Inl (js ''bad''))), onEnvelope = None,
     onKeys = None, onFetch = None, onDiscovery = None, onDelivery = None,
     onUnknown = Some (\<lambda>t f h. (h @ [t], Inr ())), onHandlerError = Some (\<lambda>e t h. h @ [e]),
     onFatal = Some (\<lambda>m h. h @ [m])\<rparr>"

definition demo_frame :: "int json \<Rightarrow> bytes" where
  "demo_frame v = e_utf8 demo_env (print (e_numstr demo_env) v)"

lemma demo_frame_parse: "plain v \<Longrightarrow> e_parse demo_env (demo_frame v) = Some v"
  using demo_parse_ok by (simp add: parse_ok_def demo_frame_def del: plain.simps)

theorem dispatcher_handles_every_frame_witness:
  "runDispatcher demo_env demo_handlers
     [GotFrame (demo_frame (JObj [(js ''type'', str ''SEMP_REKEY'')])), GotFrame (demo_frame (JArr [])), GotEof] []
   = ([js ''rekey'', js ''bad'', []], DispatcherResolved)"
proof -
  let ?fs = "[GotFrame (demo_frame (JObj [(js ''type'', str ''SEMP_REKEY'')])), GotFrame (demo_frame (JArr []))]"
  have p: "e_parse demo_env (demo_frame (JObj [(js ''type'', str ''SEMP_REKEY'')])) = Some (JObj [(js ''type'', str ''SEMP_REKEY'')])"
    "e_parse demo_env (demo_frame (JArr [])) = Some (JArr [])"
    by (rule demo_frame_parse, simp add: index_like_def js_def)+
  then have "list_all (dispatchable demo_env) ?fs" by (simp add: dispatchable_def)
  from dispatcher_handles_every_frame [OF this, of demo_handlers "[]" "[]"] show ?thesis
    by (simp add: p typeOf_def handleFrame_def dispatchOne_def handlerFor_def demo_handlers_def)
qed

theorem dispatcher_null_frame_witness:
  "runDispatcher demo_env demo_handlers [GotFrame (demo_frame JNull), GotEof] [] = ([], DispatcherRejected TypeError)"
proof -
  have "e_parse demo_env (demo_frame JNull) = Some JNull" by (rule demo_frame_parse) simp
  from dispatcher_null_frame [OF _ this, of "[]" demo_handlers "[GotEof]" "[]"] show ?thesis by simp
qed

end
