(* ===== verification/SessionProofs.thy ===== *)
theory SessionProofs
  imports Session
begin

text \<open>
  The life of a session: what every operation may change, and what holds in every reachable state;
  where new keys come from; and that the associated data of a sealed rekey message determines its parts.
\<close>

section \<open>Operations that only read\<close>

text \<open>\<open>reads m s\<close>: running \<open>m\<close> in \<open>s\<close> leaves \<open>s\<close>.\<close>

abbreviation reads :: "('s, 'e, 'a) op \<Rightarrow> 's \<Rightarrow> bool" where
  "reads m s \<equiv> post (\<lambda>t. t = s) m s"

lemma reads_bind: "reads m s \<Longrightarrow> Q s \<Longrightarrow> (\<And>x. m s = (s, Inr x) \<Longrightarrow> post Q (f x) s) \<Longrightarrow> post Q (bindX m f) s"
  by (auto simp: post_def bindX_def split: prod.splits sum.splits)

lemma vcg_hsLift [vcg]: "Q s \<Longrightarrow> post Q (hsLift r) s"
  by (simp add: hsLift_def post_def)

lemma vcg_bind_hsLift [vcg]:
  "Q s \<Longrightarrow> (\<And>x. r = Inr x \<Longrightarrow> post Q (f x) s) \<Longrightarrow> post Q (bindX (hsLift r) f) s"
  by (cases r) (simp_all add: hsLift_def post_def)

lemma vcg_throwIf [vcg]: "Q s \<Longrightarrow> post Q (throwIf b e) s"
  by (cases b) (simp_all add: post_def)

lemma sessionKeys_reads: "reads sessionKeys s"
  unfolding sessionKeys_def by (intro vcg) simp_all

lemma rekeyKeys_reads: "reads (rekeyKeys d) s"
proof -
  have "reads (rekeyKeys (Some (JStr x))) s" for x
    unfolding rekeyKeys_def by simp (intro conjI impI vcg reads_bind sessionKeys_reads, simp_all)
  moreover have "reads (rekeyKeys d) s" if "\<And>x. d \<noteq> Some (JStr x)"
    using that by (auto simp: rekeyKeys_def post_def split: option.splits json.splits)
  ultimately show ?thesis by blast
qed

lemma openRekeyMessage_reads: "reads (openRekeyMessage E m) s"
  unfolding openRekeyMessage_def by (intro vcg reads_bind [OF rekeyKeys_reads] refl)

lemma openFrame_reads: "reads (openFrame E d frame) s"
  unfolding openFrame_def by (intro vcg reads_bind [OF openRekeyMessage_reads] refl)

lemma sealRekeyMessage_reads: "reads (sealRekeyMessage E d p n) s"
  unfolding sealRekeyMessage_def by (intro vcg reads_bind [OF rekeyKeys_reads] refl)

section \<open>What an operation changes\<close>

text \<open>Only the transport, and not even that once the session is closed.\<close>

definition quiet :: "('n, 't) session \<Rightarrow> ('n, 't) session \<Rightarrow> bool" where
  "quiet s s' \<longleftrightarrow> (\<exists>t. s' = s\<lparr>s_transport := t\<rparr> \<and> (s_closed s \<longrightarrow> t = s_transport s))"

lemma quiet_refl [simp]: "quiet s s"
  unfolding quiet_def by (rule exI [of _ "s_transport s"]) simp

definition fixed_parts :: "('n, 't) session \<Rightarrow> ('n, 't) session \<Rightarrow> bool" where
  "fixed_parts s s' \<longleftrightarrow> s_role s' = s_role s \<and> s_sessionTTL s' = s_sessionTTL s \<and>
     s_establishedAt s' = s_establishedAt s \<and> s_permissions s' = s_permissions s"

text \<open>A step: the parts of the configuration stay; a closed session stays closed, sends nothing and takes
  no new keys; keys are given up only with their arrays zeroed.\<close>

definition evolves :: "('n, 't) session \<Rightarrow> ('n, 't) session \<Rightarrow> bool" where
  "evolves s s' \<longleftrightarrow> fixed_parts s s' \<and>
     (s_closed s \<longrightarrow> s_closed s' \<and> s_transport s' = s_transport s \<and> s_sessionId s' = s_sessionId s \<and>
        (s_keys s' = s_keys s \<or> s_keys s' = None)) \<and>
     (s_keys s' = s_keys s \<and> s_dropped s' = s_dropped s \<or>
      (\<exists>k. s_keys s = Some k \<and> s_dropped s' = s_dropped s @ [zeroKeys k])) \<and>
     (s_keys s' = None \<longrightarrow> s_keys s = None \<or> s_closed s')"

lemma quiet_evolves: "quiet s s' \<Longrightarrow> evolves s s'"
  by (auto simp: quiet_def evolves_def fixed_parts_def)

lemma sessionSend_quiet: "post (quiet s) (sessionSend T m) s"
  unfolding sessionSend_def
  by (intro vcg quiet_refl) (auto simp: post_def onTransport_def quiet_def split: prod.splits sum.splits)

lemma sendSealed_quiet: "post (quiet s) (sendSealed E T d body n) s"
  unfolding sendSealed_def Let_def
  by (intro reads_bind [OF sealRekeyMessage_reads] quiet_refl post_call [OF sessionSend_quiet] vcg)

lemma sessionReceive_reads: "reads sessionReceive s"
  unfolding sessionReceive_def by (intro vcg refl)

lemma rekeyClientSend_quiet: "post (quiet s) (rekeyClientSend E T r) s"
proof -
  have "post (quiet s) (bindX sessionReceive (\<lambda>_. ret x)) t" if "quiet s t" for x t
    by (intro reads_bind [OF sessionReceive_reads] vcg that)
  then show ?thesis
    unfolding rekeyClientSend_def by (intro vcg post_call [OF sendSealed_quiet] quiet_refl)
qed

lemma sessionClose_evolves: "post (evolves s) (sessionClose T) s"
  unfolding sessionClose_def
  by (intro vcg) (auto simp: post_def onTransport_def evolves_def fixed_parts_def split: prod.splits sum.splits)

lemma eraseKeys_evolves: "s_closed s \<Longrightarrow> post (evolves s) eraseKeys s"
  unfolding eraseKeys_def by (intro vcg) (auto simp: evolves_def fixed_parts_def)

lemma applyRekey_evolves: "quiet s t \<Longrightarrow> post (evolves s) (applyRekey sid k) t"
  unfolding applyRekey_def
  by (intro vcg) (auto simp: evolves_def quiet_def fixed_parts_def)

lemma rekeyClientReceive_evolves: "post (evolves s) (rekeyClientReceive E r frame) s"
proof -
  have e: "evolves s s" by (rule quiet_evolves [OF quiet_refl])
  show ?thesis
    unfolding rekeyClientReceive_def
    by (intro vcg reads_bind [OF openFrame_reads] post_call [OF applyRekey_evolves [OF quiet_refl]] e)
qed

lemma rekeyServer_evolves: "post (evolves s) (rekeyServer E T r frame) s"
proof -
  have e: "evolves s s" by (rule quiet_evolves [OF quiet_refl])
  show ?thesis
    unfolding rekeyServer_def Let_def
    by (intro vcg reads_bind [OF openFrame_reads] post_call [OF sendSealed_quiet]
        post_call [OF applyRekey_evolves] e) (auto intro: quiet_evolves)
qed

section \<open>Reachable states\<close>

text \<open>
  The operations in any order, with any arguments; what \<open>erase\<close> does after its await of \<open>close\<close> is a
  step of its own.
\<close>

inductive session_step :: "'n env \<Rightarrow> 't transport_ops \<Rightarrow> ('n, 't) session \<Rightarrow> ('n, 't) session \<Rightarrow> bool"
  for E T where
  send: "session_step E T s (fst (sessionSend T m s))"
| receive: "session_step E T s (fst (sessionReceive s))"
| close: "session_step E T s (fst (sessionClose T s))"
| erase: "s_closed s \<Longrightarrow> session_step E T s (fst (eraseKeys s))"
| apply_rekey: "session_step E T s (fst (applyRekey sid k s))"
| rekey_send: "session_step E T s (fst (rekeyClientSend E T r s))"
| rekey_receive: "session_step E T s (fst (rekeyClientReceive E r frame s))"
| rekey_serve: "session_step E T s (fst (rekeyServer E T r frame s))"

lemma session_step_evolves: "session_step E T s s' \<Longrightarrow> evolves s s'"
proof (induction rule: session_step.induct)
  case (send s m)
  show ?case by (rule quiet_evolves) (use sessionSend_quiet [of s T m] in \<open>simp add: post_def\<close>)
next
  case (receive s)
  have "fst (sessionReceive s) = s" using sessionReceive_reads [of s] by (simp add: post_def)
  then show ?case using quiet_evolves [OF quiet_refl] by simp
next
  case (rekey_send s r)
  show ?case by (rule quiet_evolves) (use rekeyClientSend_quiet [of s E T r] in \<open>simp add: post_def\<close>)
qed (use sessionClose_evolves eraseKeys_evolves applyRekey_evolves [OF quiet_refl]
      rekeyClientReceive_evolves rekeyServer_evolves in \<open>auto simp: post_def\<close>)

definition wiped :: "session_keys \<Rightarrow> bool" where
  "wiped k \<longleftrightarrow> set (encC2S k @ encS2C k @ macC2S k @ macS2C k @ envMAC k) \<subseteq> {0} \<and>
     (\<forall>b. resumption k = Some b \<longrightarrow> set b \<subseteq> {0})"

lemma wiped_zeroKeys [simp]: "wiped (zeroKeys k)"
  by (auto simp: wiped_def zeroKeys_def zeroBytes_def)

definition session_inv :: "('n, 't) session_config \<Rightarrow> ('n, 't) session \<Rightarrow> bool" where
  "session_inv c s \<longleftrightarrow> fixed_parts (newSession c) s \<and> (s_keys s = None \<longrightarrow> s_closed s) \<and>
     (\<forall>k \<in> set (s_dropped s). wiped k)"

lemma session_inv_step: "session_inv c s \<Longrightarrow> evolves s s' \<Longrightarrow> session_inv c s'"
  unfolding session_inv_def evolves_def fixed_parts_def by auto

lemma session_reach_inv: "(session_step E T)\<^sup>*\<^sup>* (newSession c) s \<Longrightarrow> session_inv c s"
proof (induction rule: rtranclp_induct)
  case base
  show ?case by (simp add: session_inv_def fixed_parts_def newSession_def)
next
  case (step s s')
  then show ?case by (blast intro: session_inv_step session_step_evolves)
qed

text \<open>C19. In every state a session can reach, by sending, receiving, closing, erasing and rekeying in any
  order and on any frames: the key objects it has given up hold zeros only, it is without keys only when
  closed, and it expires when its first configuration says, rekeyed or not. Whatever happens next, keys
  that are replaced or erased join the zeroed ones; and a closed session stays closed, hands nothing
  more to the transport and takes neither new keys nor a new id.\<close>

theorem session_lifecycle:
  assumes "(session_step E T)\<^sup>*\<^sup>* (newSession c) s"
  shows "(\<forall>k \<in> set (s_dropped s). wiped k)
    \<and> (s_keys s = None \<longrightarrow> s_closed s)
    \<and> isExpired now s = (case cf_sessionTTL c of None \<Rightarrow> False | Some ttl \<Rightarrow> cf_establishedAt c + ttl * 1000 \<le> now)
    \<and> (\<forall>s'. session_step E T s s' \<longrightarrow>
         (\<forall>k. s_keys s = Some k \<longrightarrow> s_keys s' = Some k \<or> zeroKeys k \<in> set (s_dropped s')) \<and>
         (s_closed s \<longrightarrow> s_closed s' \<and> s_transport s' = s_transport s \<and> s_sessionId s' = s_sessionId s \<and>
            (s_keys s' = s_keys s \<or> s_keys s' = None)))"
proof -
  have inv: "session_inv c s" by (rule session_reach_inv [OF assms])
  have "isExpired now s = (case cf_sessionTTL c of None \<Rightarrow> False | Some ttl \<Rightarrow> cf_establishedAt c + ttl * 1000 \<le> now)"
    using inv by (auto simp: session_inv_def fixed_parts_def isExpired_def expiresAt_def newSession_def
        split: option.splits)
  moreover have "\<forall>s'. session_step E T s s' \<longrightarrow>
         (\<forall>k. s_keys s = Some k \<longrightarrow> s_keys s' = Some k \<or> zeroKeys k \<in> set (s_dropped s')) \<and>
         (s_closed s \<longrightarrow> s_closed s' \<and> s_transport s' = s_transport s \<and> s_sessionId s' = s_sessionId s \<and>
            (s_keys s' = s_keys s \<or> s_keys s' = None))"
    by (auto dest!: session_step_evolves simp: evolves_def)
  ultimately show ?thesis using inv by (simp add: session_inv_def)
qed

section \<open>Where new keys come from\<close>

text \<open>A body that came sealed under the session's current keys for a direction and under its current id.\<close>

definition sealed_by :: "'n env \<Rightarrow> ('n, 't) session \<Rightarrow> jstr \<Rightarrow> 'n jsv \<Rightarrow> bool" where
  "sealed_by E s d body \<longleftrightarrow> (\<exists>k encKey macKey n ct plain. s_keys s = Some k \<and>
     pickRekeyKeys d k = Some (encKey, macKey) \<and>
     aeadOpen (e_prims E) Chacha20Poly1305 encKey n ct (rekeyAAD E d (s_sessionId s) macKey) = Inr plain \<and>
     parseFrame E plain = Inr body)"

lemma hsLift_run: "hsLift r s = (s', Inr x) \<longleftrightarrow> s' = s \<and> r = Inr x"
  by (cases r) (auto simp: hsLift_def lift_Inr)

lemma rekeyKeys_Inr:
  "rekeyKeys (Some (JStr d)) s = (s', Inr x) \<longleftrightarrow> s' = s \<and> (\<exists>k. s_keys s = Some k \<and> pickRekeyKeys d k = Some x)"
  by (auto simp: rekeyKeys_def sessionKeys_def bindX_def pickRekeyKeys_def split: option.splits if_splits)

lemma openFrame_sealed_by:
  assumes "openFrame E d frame s = (s', Inr body)"
  shows "s' = s \<and> sealed_by E s d body"
proof -
  from assms obtain w plain where w: "fld w ''direction'' = Inr (Some (JStr d))"
    "openRekeyMessage E w s = (s', Inr plain)" "parseFrame E plain = Inr body"
    by (auto simp: openFrame_def bindX_Inr hsLift_run throwIf_Inr split: option.splits)
  have "s' = s" using openRekeyMessage_reads [of s E w] w(2) by (simp add: post_def)
  with w(2) obtain ek mk n ct where "rekeyKeys (Some (JStr d)) s = (s, Inr (ek, mk))"
    "aeadOpen (e_prims E) Chacha20Poly1305 ek n ct (rekeyAAD E d (s_sessionId s) mk) = Inr plain"
    by (auto simp: openRekeyMessage_def bindX_Inr hsLift_run throwIf_Inr w(1) Let_def rekeyKeys_Inr)
  with w(3) \<open>s' = s\<close> show ?thesis unfolding sealed_by_def rekeyKeys_Inr by blast
qed

text \<open>The keys of a session after a rekey, by the role it played in it.\<close>

definition keys_from :: "'n env \<Rightarrow> bytes \<Rightarrow> bytes \<Rightarrow> 'n jsv \<Rightarrow> session_keys \<Rightarrow> bool" where
  "keys_from E ephPriv nonce body keys \<longleftrightarrow> (\<exists>ek pub shared other.
     field body ''new_ephemeral_key'' = Inr ek \<and> (\<exists>key. field ek ''key'' = Inr key \<and> base64Decode E key = Inr pub) \<and>
     x25519Agree (e_prims E) ephPriv pub = Inr shared \<and>
     ((\<exists>v. field body ''responder_nonce'' = Inr v \<and> base64Decode E v = Inr other) \<and>
        keys = deriveRekeyKeys (e_prims E) (e_utf8 E) shared nonce other \<or>
      (\<exists>v. field body ''rekey_nonce'' = Inr v \<and> base64Decode E v = Inr other) \<and>
        keys = deriveRekeyKeys (e_prims E) (e_utf8 E) shared other nonce))"

lemma b64_Inr: "b64 E v = Inr x \<longleftrightarrow> base64Decode E v = Inr x"
  by (simp add: b64_def case_sum_Inr)

lemma applyRekey_post:
  assumes "quiet s t" "\<And>u. s_keys u = s_keys s \<Longrightarrow> Q u" "\<And>u. s_keys u = Some k \<Longrightarrow> Q u"
  shows "post Q (applyRekey sid k) t"
proof -
  have "s_keys t = s_keys s" using assms(1) by (auto simp: quiet_def)
  then show ?thesis unfolding applyRekey_def by (intro vcg) (auto intro: assms)
qed

lemma rekeyClientReceive_keys:
  "post (\<lambda>u. s_keys u = s_keys s \<or> (\<exists>body keys. s_keys u = Some keys \<and>
      sealed_by E s (otherDirection (directionFromRole (s_role s))) body \<and>
      keys_from E (rd_ephPriv r) (rd_nonce r) body keys)) (rekeyClientReceive E r frame) s"
  (is "post ?Q _ _")
proof -
  have fin: "post ?Q (bindX (applyRekey newId keys) (\<lambda>_. ret newId)) s"
    if "sealed_by E s (otherDirection (directionFromRole (s_role s))) body"
      "keys_from E (rd_ephPriv r) (rd_nonce r) body keys" for newId :: "'a jsv" and body keys
  proof (rule post_call)
    show "post ?Q (applyRekey newId keys) s" by (rule applyRekey_post [OF quiet_refl]) (use that in auto)
  qed (auto intro: vcg)
  show ?thesis
    unfolding rekeyClientReceive_def
    by (intro vcg reads_bind [OF openFrame_reads] fin)
       (auto dest: openFrame_sealed_by simp: keys_from_def fld_Inr b64_Inr)
qed

lemma rekeyServer_keys:
  "post (\<lambda>u. s_keys u = s_keys s \<or> (\<exists>body keys. s_keys u = Some keys \<and>
      sealed_by E s (directionFromRole (otherRole (s_role s))) body \<and>
      keys_from E (rd_ephPriv r) (rd_nonce r) body keys)) (rekeyServer E T r frame) s"
  (is "post ?Q _ _")
proof -
  have fin: "post ?Q (bindX (applyRekey newId keys) (\<lambda>_. ret x)) t"
    if "sealed_by E s (directionFromRole (otherRole (s_role s))) body"
      "keys_from E (rd_ephPriv r) (rd_nonce r) body keys" "quiet s t" for newId :: "'a jsv" and body keys x t
  proof (rule post_call)
    show "post ?Q (applyRekey newId keys) t" by (rule applyRekey_post [OF that(3)]) (use that in auto)
  qed (auto intro: vcg)
  have q: "quiet s t \<Longrightarrow> s_keys t = s_keys s" for t by (auto simp: quiet_def)
  show ?thesis
    unfolding rekeyServer_def Let_def
    by (intro vcg reads_bind [OF openFrame_reads] post_call [OF sendSealed_quiet] fin)
       (auto dest: openFrame_sealed_by q simp: keys_from_def fld_Inr b64_Inr)
qed


section \<open>Associated data\<close>

lemma be32_inj:
  fixes n m :: "32 word"
  assumes "\<And>k. k \<in> {0, 8, 16, 24} \<Longrightarrow>
      (ucast (drop_bit k n AND 255) :: byte) = ucast (drop_bit k m AND 255)"
  shows "n = m"
proof (rule bit_word_eqI)
  fix i assume i: "i < LENGTH(32)"
  have byte: "bit n (k + j) = bit m (k + j)" if k: "k \<in> {0, 8, 16, 24}" "j < 8" for k j
  proof -
    have "bit (ucast (drop_bit k n AND 255) :: byte) j = bit (ucast (drop_bit k m AND 255) :: byte) j"
      using assms [OF k(1)] by simp
    moreover have "bit (255 :: 32 word) j"
    proof -
      have m: "(255 :: 32 word) = mask 8" by (simp add: mask_eq_exp_minus_1)
      show ?thesis unfolding m bit_mask_iff using k(2) by simp
    qed
    ultimately show ?thesis using k by (simp add: bit_simps)
  qed
  have "i = i div 8 * 8 + i mod 8" "i mod 8 < 8" "i div 8 * 8 \<in> {0, 8, 16, 24}" using i by auto
  with byte [of "i div 8 * 8" "i mod 8"] show "bit n i = bit m i" by simp
qed

lemma lengthPrefixed_inj:
  assumes "lengthPrefixed a @ u = lengthPrefixed b @ v" and "length a < 2 ^ 32" "length b < 2 ^ 32"
  shows "a = b \<and> u = v"
proof -
  have "(of_nat (length a) :: 32 word) = of_nat (length b)"
    by (rule be32_inj) (use assms(1) in \<open>auto simp: lengthPrefixed_def Let_def\<close>)
  then have "unat (of_nat (length a) :: 32 word) = unat (of_nat (length b) :: 32 word)" by simp
  then have "length a = length b" using assms(2,3) by (simp add: unat_of_nat take_bit_eq_mod)
  with assms(1) show ?thesis by (simp add: lengthPrefixed_def Let_def)
qed

text \<open>The associated data under which a rekey message is sealed determines the direction, the session id
  and the MAC key: no byte can move from one part to the next.\<close>

theorem rekey_aad_injective:
  assumes "rekeyAAD E d (Some (JStr sid)) mac = rekeyAAD E d' (Some (JStr sid')) mac'"
    and "inj (e_utf8 E)"
    and "\<forall>b \<in> {e_utf8 E d, e_utf8 E d', e_utf8 E sid, e_utf8 E sid', mac, mac'}. length b < 2 ^ 32"
  shows "d = d' \<and> sid = sid' \<and> mac = mac'"
proof -
  let ?u = "e_utf8 E"
  have "?u d = ?u d' \<and> lengthPrefixed (?u sid) @ lengthPrefixed mac = lengthPrefixed (?u sid') @ lengthPrefixed mac'"
    by (rule lengthPrefixed_inj) (use assms in \<open>simp_all add: rekeyAAD_def\<close>)
  moreover from this have "?u sid = ?u sid' \<and> lengthPrefixed mac = lengthPrefixed mac'"
    by (intro lengthPrefixed_inj) (use assms(3) in simp_all)
  moreover from this have "mac = mac' \<and> ([] :: bytes) = []"
    by (intro lengthPrefixed_inj) (use assms(3) in simp_all)
  ultimately show ?thesis using assms(2) by (simp add: inj_eq)
qed

theorem rekey_aad_injective_witness:
  "rekeyAAD demo_env c2s (Some (JStr (js ''S''))) [1] \<noteq> rekeyAAD demo_env s2c (Some (JStr (js ''S''))) [1]"
proof
  assume "rekeyAAD demo_env c2s (Some (JStr (js ''S''))) [1] = rekeyAAD demo_env s2c (Some (JStr (js ''S''))) [1]"
  from rekey_aad_injective [OF this] demo_utf8_inj have "c2s = s2c"
    by (simp add: demo_env_def demo_utf8_def js_def)
  then show False by simp
qed

end
