(* ===== verification/HandshakeServer.thy ===== *)
theory HandshakeServer
  imports HandshakeClient "HOL-Library.Sublist"
begin

text \<open>
  The server's handshake state machine, \<^verbatim>\<open>src/src/handshake/server_state.ts\<close>. The callbacks of the
  configuration are functions that return or throw a message; \<open>message\<close> is \<open>err.message\<close>.
\<close>

section \<open>State\<close>

type_synonym 'a callback = "jstr + 'a"

record verdict =
  vd_ok :: bool
  vd_reasonCode :: "jstr option"
  vd_reason :: "jstr option"

record 'n server_config =
  sc_seed :: bytes
  sc_domain :: jstr
  sc_supportedSuites :: "jstr list"
  sc_identityProofSignature :: "key_ref \<Rightarrow> 'n jsv \<Rightarrow> jstr \<Rightarrow> jstr callback"
  sc_verifyIdentityProof :: "('n jsv \<Rightarrow> session_keys \<Rightarrow> 'n jsv option \<Rightarrow> verdict callback) option"
  sc_lookupClientIdentityKey :: "('n jsv \<Rightarrow> 'n jsv \<Rightarrow> bytes callback) option"
  sc_permissions :: "jstr list"
  sc_sessionTTL :: int
  sc_resumptionTicket :: "(session_keys \<Rightarrow> resumption_ticket callback) option"
  sc_ephemeralPriv :: "bytes option"
  sc_hybridRandomness :: "(bytes \<times> bytes) option"
  sc_nonce :: "bytes option"
  sc_acceptedExtensions :: "'n obj option"

record 'n server_session =
  ss_sessionId :: jstr
  ss_sessionTTL :: int
  ss_permissions :: "jstr list"
  ss_keys :: session_keys
  ss_proofKeyId :: jstr
  ss_proofSignature :: jstr
  ss_extensions :: "'n obj"
  ss_ticket :: "resumption_ticket option"
  ss_clientIdentity :: "'n json"
  ss_clientLongTermKeyId :: "'n json"

text \<open>\<open>sc_ephemeralPriv\<close> is the configuration's array, which the server works on in place.\<close>

record 'n server =
  sv_cfg :: "'n server_config"
  sv_sessionId :: jstr
  sv_ephPriv :: "bytes option"
  sv_nonce :: "bytes option"
  sv_initCanonical :: "bytes option"
  sv_respCanonical :: "bytes option"
  sv_sessionKeys :: "session_keys option"
  sv_idProof :: "server_identity_proof option"
  sv_finalSession :: "'n server_session option"
  sv_clientIdentity :: "'n jsv"
  sv_clientLongTermKeyId :: "'n jsv"

record server_draws =
  sd_sessionId :: jstr
  sd_nonce :: bytes
  sd_x25519 :: bytes
  sd_kemCoins :: bytes

definition newServer :: "'n server_config \<Rightarrow> 'n hs_error + 'n server" where
  "newServer cfg =
     (if sc_supportedSuites cfg = [] then Inl (HsFail ''server has no supported suites'')
      else if sc_seed cfg = [] then Inl (HsFail ''empty server domain signing seed'')
      else if sc_domain cfg = [] then Inl (HsFail ''empty server domain'')
      else Inr \<lparr>sv_cfg = cfg, sv_sessionId = [], sv_ephPriv = None, sv_nonce = None, sv_initCanonical = None,
        sv_respCanonical = None, sv_sessionKeys = None, sv_idProof = None, sv_finalSession = None,
        sv_clientIdentity = None, sv_clientLongTermKeyId = None\<rparr>)"

section \<open>Helpers\<close>

text \<open>\<open>offered.includes(s)\<close> on an unchecked value: an array, a string, or an exception.\<close>

fun arrayIncludes :: "'n jsv \<Rightarrow> jstr \<Rightarrow> 'n hs_error + bool" where
  "arrayIncludes (Some (JArr vs)) s = Inr (\<exists>v \<in> set vs. case v of JStr t \<Rightarrow> t = s | _ \<Rightarrow> False)"
| "arrayIncludes (Some (JStr t)) s = Inr (sublist s t)"
| "arrayIncludes v s = Inl (Js TypeError)"

fun pickSuite :: "'n jsv \<Rightarrow> jstr list \<Rightarrow> 'n hs_error + jstr option" where
  "pickSuite offered [] = Inr None"
| "pickSuite offered (s # supported) =
     bindR (arrayIncludes offered s) (\<lambda>found. if found then Inr (Some s) else pickSuite offered supported)"

definition callback :: "'a callback \<Rightarrow> 'n hs_error + 'a" where
  "callback r = (case r of Inl m \<Rightarrow> Inl (CallbackThrew m) | Inr x \<Rightarrow> Inr x)"

lemma callback_Inr [simp]: "callback r = Inr x \<longleftrightarrow> r = Inr x"
  by (simp add: callback_def case_sum_Inr)

text \<open>\<open>buildRejectedSigned\<close>, and the error that carries its bytes.\<close>

definition buildRejectedSigned :: "'n env \<Rightarrow> jstr \<Rightarrow> jstr \<Rightarrow> jstr option \<Rightarrow> bytes \<Rightarrow> 'n hs_error + bytes" where
  "buildRejectedSigned E sessionId reasonCode reason seed =
     bindR (buildRejected E sessionId reasonCode reason seed) (\<lambda>rej. Inr (marshalE E (JObj rej)))"

definition rejectWith ::
  "'n env \<Rightarrow> 'n server \<Rightarrow> jstr \<Rightarrow> jstr option \<Rightarrow> jstr option \<Rightarrow> ('n server, 'n hs_error, 'a) op"
where
  "rejectWith E s code wireReason reason =
     (case buildRejectedSigned E (sv_sessionId s) code wireReason (sc_seed (sv_cfg s)) of
        Inl e \<Rightarrow> throw e
      | Inr rej \<Rightarrow> throw (ServerRejection code reason rej))"

definition constantTimeEqual :: "bytes \<Rightarrow> bytes \<Rightarrow> bool" where
  "constantTimeEqual a b = (if length a \<noteq> length b then False else diffLoop 0 a b = 0)"

lemma constantTimeEqual_eq [simp]: "constantTimeEqual a b \<longleftrightarrow> a = b"
  by (auto simp: constantTimeEqual_def diffLoop_0)

section \<open>INIT\<close>

text \<open>The wire form of the server's ephemeral key, and the shared secret.\<close>

definition agree ::
  "'n env \<Rightarrow> server_draws \<Rightarrow> bool \<Rightarrow> bytes \<Rightarrow> ('n server, 'n hs_error, bytes \<times> bytes) op"
where
  "agree E d isPQ clientEphPub =
     (if isPQ then
        bindX get (\<lambda>s.
        lift (cr (case sc_hybridRandomness (sv_cfg s) of
            Some rnd \<Rightarrow> hybridEncapsulateWithRandomness (e_prims E) clientEphPub rnd
          | None \<Rightarrow> hybridEncapsulate (e_prims E) (sd_x25519 d) (sd_kemCoins d) clientEphPub)))
      else
        bindX get (\<lambda>s.
        let priv = (case sc_ephemeralPriv (sv_cfg s) of Some p \<Rightarrow> p | None \<Rightarrow> sd_x25519 d) in
        bindX (modify (\<lambda>s. s\<lparr>sv_ephPriv := Some priv\<rparr>)) (\<lambda>_.
        bindX (lift (cr (x25519PublicKey (e_prims E) priv))) (\<lambda>serverEphPub.
        bindX (lift (cr (x25519Agree (e_prims E) priv clientEphPub))) (\<lambda>shared.
        ret (serverEphPub, shared))))))"

definition onInit :: "'n env \<Rightarrow> server_draws \<Rightarrow> bytes \<Rightarrow> ('n server, 'n hs_error, bytes) op" where
  "onInit E d data =
     bindX get (\<lambda>s.
     bindX (throwIf (sv_initCanonical s \<noteq> None) (HsFail ''onInit called twice'')) (\<lambda>_.
     bindX (lift (parseFrame E data)) (\<lambda>m.
     bindX (lift (fld m ''type'')) (\<lambda>type. bindX (lift (fld m ''step'')) (\<lambda>step.
     bindX (throwIf (type \<noteq> Some (str ''SEMP_HANDSHAKE'') \<or> step \<noteq> Some (str ''init''))
       (HsFail ''init type/step mismatch'')) (\<lambda>_.
     bindX (modify (\<lambda>s. s\<lparr>sv_initCanonical := Some data, sv_sessionId := sd_sessionId d\<rparr>)) (\<lambda>_.
     bindX (lift (fld m ''capabilities'')) (\<lambda>caps.
     bindX (lift (fld caps ''encryption_algorithms'')) (\<lambda>offered.
     bindX (lift (pickSuite offered (sc_supportedSuites (sv_cfg s)))) (\<lambda>picked.
     case picked of
       None \<Rightarrow> bindX get (\<lambda>s. rejectWith E s (js ''version_unsupported'') None None)
     | Some negotiated \<Rightarrow>
       let isPQ = (negotiated = pqSuite) in
       bindX (lift (fld m ''client_ephemeral_key'')) (\<lambda>ek. bindX (lift (fld ek ''key'')) (\<lambda>key.
       bindX (lift (b64 E key)) (\<lambda>clientEphPub.
       bindX (lift (fld m ''nonce'')) (\<lambda>nonce. bindX (lift (b64 E nonce)) (\<lambda>clientNonce.
       let serverNonce = (case sc_nonce (sv_cfg s) of Some n \<Rightarrow> n | None \<Rightarrow> sd_nonce d) in
       bindX (modify (\<lambda>s. s\<lparr>sv_nonce := Some serverNonce\<rparr>)) (\<lambda>_.
       bindX (agree E d isPQ clientEphPub) (\<lambda>(serverEphPub, shared).
       bindX (lift (if isPQ then Inr (hexSha256 (e_prims E) serverEphPub)
                    else cr (fingerprint (e_prims E) serverEphPub))) (\<lambda>serverEphKeyId.
       let keys = deriveSessionKeysWithResumption (e_prims E) (e_utf8 E) shared clientNonce serverNonce;
           ephemeral = \<lparr>kr_algorithm = negotiated, kr_key = e_enc64 E serverEphPub, kr_key_id = serverEphKeyId\<rparr>
       in
       bindX (modify (\<lambda>s. s\<lparr>sv_sessionKeys := Some keys\<rparr>)) (\<lambda>_.
       bindX (lift (cr (publicKeyFromSeed (e_prims E) (sc_seed (sv_cfg s))))) (\<lambda>domainPub.
       bindX (lift (cr (fingerprint (e_prims E) domainPub))) (\<lambda>keyId.
       bindX (lift (callback (sc_identityProofSignature (sv_cfg s) ephemeral nonce (e_enc64 E serverNonce)))) (\<lambda>psig.
       let idProof = \<lparr>sip_domain = sc_domain (sv_cfg s), sip_key_id = keyId, sip_signature = psig\<rparr> in
       bindX (modify (\<lambda>s. s\<lparr>sv_idProof := Some idProof\<rparr>)) (\<lambda>_.
       bindX (lift (buildResponse E
         \<lparr>ri_session_id = sd_sessionId d, ri_server_nonce = e_enc64 E serverNonce, ri_ephemeral = ephemeral,
          ri_identity_proof = idProof,
          ri_negotiated = \<lparr>ng_algorithm = negotiated, ng_extensions = [], ng_max_envelope_size = None\<rparr>\<rparr>
         (coalesce nonce JNull) (sc_seed (sv_cfg s)))) (\<lambda>resp.
       let respCanonical = marshalE E (JObj resp) in
       bindX (modify (\<lambda>s. s\<lparr>sv_respCanonical := Some respCanonical\<rparr>)) (\<lambda>_.
       ret respCanonical)))))))))))))))))))))))))"

section \<open>CONFIRM\<close>

text \<open>The identity signature in the opened block, checked when a lookup is configured.\<close>

definition checkIdentity ::
  "'n env \<Rightarrow> ('n hs_error \<Rightarrow> jstr) \<Rightarrow> 'n server \<Rightarrow> bytes \<Rightarrow> 'n jsv \<Rightarrow> ('n server, 'n hs_error, unit) op"
where
  "checkIdentity E message s wantHash block =
     (case sc_lookupClientIdentityKey (sv_cfg s) of
        None \<Rightarrow> ret ()
      | Some lookup \<Rightarrow>
          (case bindR (fld block ''client_identity'') (\<lambda>who.
                bindR (fld block ''client_long_term_key_id'') (\<lambda>kid. callback (lookup who kid))) of
             Inl e \<Rightarrow> rejectWith E s (js ''auth_failed'') (Some (message e)) (Some (message e))
           | Inr clientPub \<Rightarrow>
               bindX (lift (fld block ''identity_signature'')) (\<lambda>isig.
               bindX (lift (b64 E isig)) (\<lambda>sig.
               if \<not> verify (e_prims E) clientPub sig
                      (identityInput E (Some (JStr (sv_sessionId s))) wantHash) then
                 (let reason = js ''identity_signature did not verify'' in
                  rejectWith E s (js ''auth_failed'') (Some reason) (Some reason))
               else ret ()))))"

definition openClientIdentity ::
  "'n env \<Rightarrow> ('n hs_error \<Rightarrow> jstr) \<Rightarrow> 'n server \<Rightarrow> session_keys \<Rightarrow> bytes \<Rightarrow> 'n jsv
     \<Rightarrow> ('n server, 'n hs_error, 'n jsv option) op"
where
  "openClientIdentity E message s keys wantHash identityProof =
     (if identityProof = Some (JStr []) then ret None
      else
        (case openIdentityProof E identityProof (encC2S keys) (sv_sessionId s) of
           Inl e \<Rightarrow> rejectWith E s (js ''auth_failed'') (Some (message e)) (Some (message e))
         | Inr block \<Rightarrow>
             bindX (checkIdentity E message s wantHash block) (\<lambda>_.
             bindX (lift (fld block ''client_identity'')) (\<lambda>who.
             bindX (modify (\<lambda>s. s\<lparr>sv_clientIdentity := who\<rparr>)) (\<lambda>_.
             bindX (lift (fld block ''client_long_term_key_id'')) (\<lambda>kid.
             bindX (modify (\<lambda>s. s\<lparr>sv_clientLongTermKeyId := kid\<rparr>)) (\<lambda>_.
             ret (Some block))))))))"

text \<open>\<open>this.serverEphPriv.fill(0); this.serverEphPriv = null\<close>: a pinned key is the configuration's array.\<close>

definition dropServerEphemeral :: "'n server \<Rightarrow> 'n server" where
  "dropServerEphemeral s =
     (if sv_ephPriv s = None then s
      else s\<lparr>sv_ephPriv := None, sv_cfg := (sv_cfg s)\<lparr>sc_ephemeralPriv :=
          map_option (\<lambda>p. zeros (length p)) (sc_ephemeralPriv (sv_cfg s))\<rparr>\<rparr>)"

definition onConfirm ::
  "'n env \<Rightarrow> ('n hs_error \<Rightarrow> jstr) \<Rightarrow> bytes \<Rightarrow> ('n server, 'n hs_error, bytes) op"
where
  "onConfirm E message data =
     bindX get (\<lambda>s.
     case (sv_initCanonical s, sv_respCanonical s, sv_sessionKeys s, sv_idProof s) of
       (Some initCanonical, Some respCanonical, Some keys, Some idProof) \<Rightarrow>
         bindX (lift (parseFrame E data)) (\<lambda>m.
         bindX (lift (fld m ''type'')) (\<lambda>type. bindX (lift (fld m ''step'')) (\<lambda>step.
         bindX (throwIf (type \<noteq> Some (str ''SEMP_HANDSHAKE'') \<or> step \<noteq> Some (str ''confirm''))
           (HsFail ''confirm type/step mismatch'')) (\<lambda>_.
         let wantHash = confirmationHash (e_prims E) initCanonical respCanonical in
         bindX (lift (fld m ''confirmation_hash'')) (\<lambda>h. bindX (lift (b64 E h)) (\<lambda>gotHash.
         if \<not> constantTimeEqual gotHash wantHash then
           rejectWith E s (js ''handshake_invalid'') None (Some (js ''confirmation hash mismatch''))
         else
           bindX (lift (fld m ''identity_proof'')) (\<lambda>identityProof.
           bindX (openClientIdentity E message s keys wantHash identityProof) (\<lambda>block.
           bindX (case sc_verifyIdentityProof (sv_cfg s) of
               None \<Rightarrow> ret ()
             | Some verifier \<Rightarrow>
                 bindX (lift (callback (verifier identityProof keys block))) (\<lambda>verdict.
                 if \<not> vd_ok verdict then
                   (let code = (case vd_reasonCode verdict of None \<Rightarrow> js ''auth_failed'' | Some c \<Rightarrow> c) in
                    rejectWith E s code (vd_reason verdict) (vd_reason verdict))
                 else ret ())) (\<lambda>_.
           bindX (lift (case sc_resumptionTicket (sv_cfg s) of
               None \<Rightarrow> Inr None
             | Some f \<Rightarrow> bindR (callback (f keys)) (\<lambda>t. Inr (Some t)))) (\<lambda>ticket.
           let extensions = (case sc_acceptedExtensions (sv_cfg s) of None \<Rightarrow> [] | Some x \<Rightarrow> x) in
           bindX (lift (buildAccepted E (sv_sessionId s) (sc_sessionTTL (sv_cfg s)) (sc_permissions (sv_cfg s))
             ticket extensions (sc_seed (sv_cfg s)))) (\<lambda>accepted.
           bindX (modify (\<lambda>s. s\<lparr>sv_finalSession := Some
             \<lparr>ss_sessionId = sv_sessionId s, ss_sessionTTL = sc_sessionTTL (sv_cfg s),
              ss_permissions = sc_permissions (sv_cfg s), ss_keys = keys,
              ss_proofKeyId = sip_key_id idProof, ss_proofSignature = sip_signature idProof,
              ss_extensions = extensions, ss_ticket = ticket,
              ss_clientIdentity = coalesce (sv_clientIdentity s) (JStr []),
              ss_clientLongTermKeyId = coalesce (sv_clientLongTermKeyId s) (JStr [])\<rparr>\<rparr>)) (\<lambda>_.
           bindX (modify dropServerEphemeral) (\<lambda>_.
           ret (marshalE E (JObj accepted)))))))))))))))
     | _ \<Rightarrow> throw (HsFail ''onConfirm before onInit''))"

section \<open>Session and erasure\<close>

definition serverSession :: "'n server \<Rightarrow> 'n hs_error + 'n server_session" where
  "serverSession s = (case sv_finalSession s of
      None \<Rightarrow> Inl (HsFail ''server session not yet established'') | Some x \<Rightarrow> Inr x)"

definition clientIdentity :: "'n server \<Rightarrow> 'n json" where
  "clientIdentity s = coalesce (sv_clientIdentity s) (JStr [])"

definition clientLongTermKeyId :: "'n server \<Rightarrow> 'n json" where
  "clientLongTermKeyId s = coalesce (sv_clientLongTermKeyId s) (JStr [])"

definition serverErase :: "'n server \<Rightarrow> 'n server" where
  "serverErase s = (dropServerEphemeral s)\<lparr>sv_sessionKeys := None\<rparr>"

end
