(* ===== verification/HandshakeProofs.thy ===== *)
theory HandshakeProofs
  imports HandshakeServer
begin

text \<open>
  What the handshake guarantees: the client's session comes from messages the server's domain key
  signed, the server's session only follows a matching confirmation hash and identity signature, keys
  are erased, and an honest client and server agree on the session.
\<close>

section \<open>Signed messages\<close>

abbreviation attr :: "'n jsv \<Rightarrow> string \<Rightarrow> 'n jsv" where
  "attr m k \<equiv> map_of (objOf m) (js k)"

definition signed_message :: "'n env \<Rightarrow> bytes \<Rightarrow> string \<Rightarrow> 'n jsv \<Rightarrow> bool" where
  "signed_message E pub step m \<longleftrightarrow>
     attr m ''type'' = Some (str ''SEMP_HANDSHAKE'') \<and> attr m ''step'' = Some (str step) \<and>
     (case attr m ''server_signature'' of
        Some (JStr sig) \<Rightarrow> verify (e_prims E) pub (e_dec64 E sig)
          (signingInput (plat E) HandshakePrefix (obj_set (js ''server_signature'') (JStr []) (objOf m)))
      | _ \<Rightarrow> False)"

lemma fld_attr: "fld m k = Inr v \<Longrightarrow> v = attr m k"
  by (cases "(m, k)" rule: field.cases) (auto simp: fld_Inr)

lemma fld_obj: "fld m k = Inr (Some v) \<Longrightarrow> \<exists>ob. m = Some (JObj ob)"
  by (cases "(m, k)" rule: field.cases) (auto simp: fld_Inr)

lemma fld_of_obj: "fld (Some (JObj ob)) k = Inr (map_of ob (js k))"
  by (simp add: fld_def)

lemma verifyServerSignature_ok:
  assumes "verifyServerSignature E m ''server_signature'' pub = Inr ()"
    and "attr m ''type'' = Some (str ''SEMP_HANDSHAKE'')" "attr m ''step'' = Some (str step)"
  shows "signed_message E pub step m"
proof -
  obtain v where v: "fld m ''server_signature'' = Inr v"
    using assms(1) by (auto simp: verifyServerSignature_def bindR_eq_Inr)
  note a = fld_attr [OF v]
  show ?thesis
  proof (cases v)
    case None
    then show ?thesis using assms(1) v by (simp add: verifyServerSignature_def)
  next
    case (Some w)
    then show ?thesis using assms v a
      by (cases w) (auto simp: verifyServerSignature_def Let_def signed_message_def signingInput_def plat_def
          split: if_splits)
  qed
qed

lemma rejection_not_Inr: "rejection m \<noteq> Inr x"
  by (auto simp: rejection_def bindR_eq_Inr)

section \<open>The client's session\<close>

text \<open>How a secret is agreed under each suite.\<close>

definition client_agrees :: "'n env \<Rightarrow> jstr \<Rightarrow> bytes \<Rightarrow> bytes \<Rightarrow> bytes \<Rightarrow> bool" where
  "client_agrees E suite ephPriv serverEph shared \<longleftrightarrow>
     (if suite = pqSuite then hybridDecapsulate (e_prims E) serverEph ephPriv = Inr shared
      else x25519Agree (e_prims E) ephPriv serverEph = Inr shared)"

text \<open>A RESPONSE from which the keys come.\<close>

definition from_response :: "'n env \<Rightarrow> client_config \<Rightarrow> bytes \<Rightarrow> 'n jsv \<Rightarrow> session_keys \<Rightarrow> bool" where
  "from_response E cfg nonce resp keys \<longleftrightarrow>
     signed_message E (cc_serverDomainPub cfg) ''response'' resp \<and>
     attr resp ''client_nonce'' = Some (JStr (e_enc64 E nonce)) \<and>
     (\<exists>ephPriv serverEph serverNonce shared.
        b64 E (attr (attr resp ''server_ephemeral_key'') ''key'') = Inr serverEph \<and>
        b64 E (attr resp ''server_nonce'') = Inr serverNonce \<and>
        client_agrees E (cc_suite cfg) ephPriv serverEph shared \<and>
        keys = deriveSessionKeysWithResumption (e_prims E) (e_utf8 E) shared nonce serverNonce)"

lemma responseKeys_ok:
  assumes "responseKeys E c ephPriv nonce data = Inr (m, keys)"
  shows "from_response E (hc_cfg c) nonce m keys" "\<exists>ob. m = Some (JObj ob)"
proof -
  have "\<exists>ek key serverEph sn serverNonce shared.
    fld m ''step'' = Inr (Some (str ''response'')) \<and> fld m ''type'' = Inr (Some (str ''SEMP_HANDSHAKE'')) \<and>
    fld m ''client_nonce'' = Inr (Some (JStr (e_enc64 E nonce))) \<and>
    verifyServerSignature E m ''server_signature'' (cc_serverDomainPub (hc_cfg c)) = Inr () \<and>
    fld m ''server_ephemeral_key'' = Inr ek \<and> fld ek ''key'' = Inr key \<and> b64 E key = Inr serverEph \<and>
    fld m ''server_nonce'' = Inr sn \<and> b64 E sn = Inr serverNonce \<and>
    clientShared E c ephPriv serverEph = Inr shared \<and>
    keys = deriveSessionKeysWithResumption (e_prims E) (e_utf8 E) shared nonce serverNonce"
    using assms unfolding responseKeys_def bindR_eq_Inr
    by (simp add: bindR_eq_Inr rejection_not_Inr split: if_splits) blast
  then obtain ek key serverEph sn serverNonce shared where r:
    "fld m ''step'' = Inr (Some (str ''response''))" "fld m ''type'' = Inr (Some (str ''SEMP_HANDSHAKE''))"
    "fld m ''client_nonce'' = Inr (Some (JStr (e_enc64 E nonce)))"
    "verifyServerSignature E m ''server_signature'' (cc_serverDomainPub (hc_cfg c)) = Inr ()"
    "fld m ''server_ephemeral_key'' = Inr ek" "fld ek ''key'' = Inr key" "b64 E key = Inr serverEph"
    "fld m ''server_nonce'' = Inr sn" "b64 E sn = Inr serverNonce"
    "clientShared E c ephPriv serverEph = Inr shared"
    "keys = deriveSessionKeysWithResumption (e_prims E) (e_utf8 E) shared nonce serverNonce"
    by blast
  show "\<exists>ob. m = Some (JObj ob)" by (rule fld_obj [OF r(1)])
  note a = r(1,2,3,5,6,8) [THEN fld_attr, symmetric]
  have "signed_message E (cc_serverDomainPub (hc_cfg c)) ''response'' m"
    by (rule verifyServerSignature_ok [OF r(4)]) (simp_all add: a)
  moreover have "client_agrees E (cc_suite (hc_cfg c)) ephPriv serverEph shared"
    using r(10) by (auto simp: clientShared_def client_agrees_def split: if_splits option.splits)
  ultimately show "from_response E (hc_cfg c) nonce m keys"
    using r(7,9,11) a unfolding from_response_def by metis
qed

lemma checkAccepted_ok:
  assumes "checkAccepted E c data = Inr m"
  shows "signed_message E (cc_serverDomainPub (hc_cfg c)) ''accepted'' m" "attr m ''session_id'' = hc_sessionId c"
proof -
  have r: "fld m ''step'' = Inr (Some (str ''accepted''))" "fld m ''type'' = Inr (Some (str ''SEMP_HANDSHAKE''))"
    "fld m ''session_id'' = Inr (hc_sessionId c)"
    "verifyServerSignature E m ''server_signature'' (cc_serverDomainPub (hc_cfg c)) = Inr ()"
    using assms unfolding checkAccepted_def
    by (auto simp: bindR_eq_Inr rejection_not_Inr dest: strictEqD split: if_splits)
  note a = r(1-3) [THEN fld_attr, symmetric]
  show "signed_message E (cc_serverDomainPub (hc_cfg c)) ''accepted'' m"
    by (rule verifyServerSignature_ok [OF r(4)]) (simp_all add: a)
  show "attr m ''session_id'' = hc_sessionId c" by (simp add: a)
qed

lemma case_nonempty_str:
  "(case v of Some (JStr s) \<Rightarrow> if s = [] then Inl e else Inr (g s) | _ \<Rightarrow> Inl e) = Inr y
    \<longleftrightarrow> (\<exists>s. v = Some (JStr s) \<and> s \<noteq> [] \<and> y = g s)"
proof (cases v)
  case (Some w)
  then show ?thesis by (cases w) auto
qed simp

lemma checkResumeAccepted_ok:
  assumes "checkResumeAccepted E c data = Inr (m, serverNonce)"
  shows "signed_message E (cc_serverDomainPub (hc_cfg c)) ''accepted'' m"
    "\<exists>s. attr m ''server_nonce'' = Some (JStr s) \<and> serverNonce = e_dec64 E s"
proof -
  have "\<exists>s. fld m ''step'' = Inr (Some (str ''accepted'')) \<and>
    fld m ''type'' = Inr (Some (str ''SEMP_HANDSHAKE'')) \<and> fld m ''server_nonce'' = Inr (Some (JStr s)) \<and>
    verifyServerSignature E m ''server_signature'' (cc_serverDomainPub (hc_cfg c)) = Inr () \<and>
    serverNonce = e_dec64 E s"
    using assms unfolding checkResumeAccepted_def
    by (simp add: bindR_eq_Inr rejection_not_Inr case_nonempty_str split: if_splits) blast
  then obtain s where r: "fld m ''step'' = Inr (Some (str ''accepted''))"
    "fld m ''type'' = Inr (Some (str ''SEMP_HANDSHAKE''))" "fld m ''server_nonce'' = Inr (Some (JStr s))"
    "verifyServerSignature E m ''server_signature'' (cc_serverDomainPub (hc_cfg c)) = Inr ()"
    "serverNonce = e_dec64 E s" by blast
  note a = r(1-3) [THEN fld_attr, symmetric]
  show "signed_message E (cc_serverDomainPub (hc_cfg c)) ''accepted'' m"
    by (rule verifyServerSignature_ok [OF r(4)]) (simp_all add: a)
  show "\<exists>s. attr m ''server_nonce'' = Some (JStr s) \<and> serverNonce = e_dec64 E s" using r(5) a by blast
qed

text \<open>Everything that can be done with a client.\<close>

datatype client_op = CInit draws | CResponse draws bytes | CAccepted bytes | CLoad bytes
  | CResume draws jstr | CResumeAccepted bytes | CErase

fun clientStep :: "'n env \<Rightarrow> client_op \<Rightarrow> 'n client \<Rightarrow> 'n client" where
  "clientStep E (CInit r) c = fst (clientInit E r c)"
| "clientStep E (CResponse r data) c = fst (onResponse E r data c)"
| "clientStep E (CAccepted data) c = fst (onAccepted E data c)"
| "clientStep E (CLoad secret) c = fst (loadResumptionSecret secret c)"
| "clientStep E (CResume r ticket) c = fst (resume E r ticket c)"
| "clientStep E (CResumeAccepted data) c = fst (onResumeAccepted E data c)"
| "clientStep E CErase c = clientErase c"

inductive client_reach :: "'n env \<Rightarrow> client_config \<Rightarrow> 'n client \<Rightarrow> bool" for E cfg where
  start: "newClient cfg = Inr c \<Longrightarrow> client_reach E cfg c"
| step: "client_reach E cfg c \<Longrightarrow> client_reach E cfg (clientStep E op c)"

inductive_cases client_reach_cases: "client_reach E cfg c"

text \<open>Where a session of the client comes from: a signed ACCEPTED, for the session of a signed RESPONSE to
  this client's nonce, or for a resumption with a loaded secret.\<close>

definition session_origin :: "'n env \<Rightarrow> client_config \<Rightarrow> 'n client \<Rightarrow> 'n client_session \<Rightarrow> bool" where
  "session_origin E cfg c s \<longleftrightarrow> (\<exists>acc. signed_message E (cc_serverDomainPub cfg) ''accepted'' acc \<and>
     hs_sessionId s = attr acc ''session_id'' \<and> hs_permissions s = attr acc ''permissions'' \<and>
     hs_extensions s = attr acc ''extensions'' \<and> hs_ticket s = attr acc ''resumption_ticket'' \<and>
     ((\<exists>resp nonce. hc_nonce c = Some nonce \<and> from_response E cfg nonce resp (hs_keys s) \<and>
         attr resp ''session_id'' = hs_sessionId s) \<or>
      (\<exists>secret nonce sn. hc_resumeNonce c = Some nonce \<and> attr acc ''server_nonce'' = Some (JStr sn) \<and>
         hs_keys s = deriveSessionKeysWithResumption (e_prims E) (e_utf8 E) secret nonce (e_dec64 E sn))))"

definition client_inv :: "'n env \<Rightarrow> client_config \<Rightarrow> 'n client \<Rightarrow> bool" where
  "client_inv E cfg c \<longleftrightarrow>
     (hc_cfg c)\<lparr>cc_ephemeralPriv := None\<rparr> = cfg\<lparr>cc_ephemeralPriv := None\<rparr> \<and>
     (\<forall>keys. hc_sessionKeys c = Some keys \<longrightarrow> hc_ephPriv c = None \<and> hc_initCanonical c \<noteq> None \<and>
       (\<exists>resp nonce. hc_nonce c = Some nonce \<and> from_response E cfg nonce resp keys \<and>
         hc_sessionId c = attr resp ''session_id'')) \<and>
     (\<forall>s. hc_finalSession c = Some s \<longrightarrow> session_origin E cfg c s)"

lemma cfg_fields:
  assumes "(c :: client_config)\<lparr>cc_ephemeralPriv := None\<rparr> = cfg\<lparr>cc_ephemeralPriv := None\<rparr>"
  shows "cc_serverDomainPub c = cc_serverDomainPub cfg" "cc_suite c = cc_suite cfg"
  using arg_cong [OF assms, of cc_serverDomainPub] arg_cong [OF assms, of cc_suite] by simp_all

lemma from_response_cfg:
  assumes "(c :: client_config)\<lparr>cc_ephemeralPriv := None\<rparr> = cfg\<lparr>cc_ephemeralPriv := None\<rparr>"
  shows "from_response E c nonce m keys = from_response E cfg nonce m keys"
  by (simp add: from_response_def cfg_fields [OF assms])

text \<open>What a step must not touch to keep the invariant.\<close>

definition frame :: "'n client \<Rightarrow> 'n client \<Rightarrow> bool" where
  "frame c c' \<longleftrightarrow>
     (hc_cfg c')\<lparr>cc_ephemeralPriv := None\<rparr> = (hc_cfg c)\<lparr>cc_ephemeralPriv := None\<rparr> \<and>
     hc_finalSession c' = hc_finalSession c \<and>
     (hc_nonce c \<noteq> None \<longrightarrow> hc_nonce c' = hc_nonce c) \<and>
     (hc_resumeNonce c \<noteq> None \<longrightarrow> hc_resumeNonce c' = hc_resumeNonce c) \<and>
     (hc_sessionKeys c' = None \<or> hc_sessionKeys c' = hc_sessionKeys c \<and> hc_sessionId c' = hc_sessionId c \<and>
        hc_initCanonical c' = hc_initCanonical c \<and> (hc_ephPriv c = None \<longrightarrow> hc_ephPriv c' = None))"

lemma frame_inv:
  assumes "client_inv E cfg c" "frame c c'"
  shows "client_inv E cfg c'"
proof -
  have o: "session_origin E cfg c' s" if "session_origin E cfg c s" for s
    using that assms(2) unfolding session_origin_def frame_def by (metis option.distinct(1))
  have "hc_ephPriv c' = None \<and> hc_initCanonical c' \<noteq> None \<and>
      (\<exists>resp nonce. hc_nonce c' = Some nonce \<and> from_response E cfg nonce resp keys \<and>
         hc_sessionId c' = attr resp ''session_id'')" if k: "hc_sessionKeys c' = Some keys" for keys
  proof -
    have f: "hc_sessionKeys c = Some keys" "hc_sessionId c' = hc_sessionId c"
      "hc_initCanonical c' = hc_initCanonical c" "hc_ephPriv c = None \<longrightarrow> hc_ephPriv c' = None"
      using assms(2) k unfolding frame_def by auto
    from assms(1) f(1) obtain resp nonce where "hc_ephPriv c = None" "hc_initCanonical c \<noteq> None"
      "hc_nonce c = Some nonce" "from_response E cfg nonce resp keys" "hc_sessionId c = attr resp ''session_id''"
      unfolding client_inv_def by blast
    moreover from this(3) assms(2) have "hc_nonce c' = Some nonce" unfolding frame_def by simp
    ultimately show ?thesis using f by auto
  qed
  moreover have "hc_finalSession c' = hc_finalSession c" using assms(2) by (simp add: frame_def)
  ultimately show ?thesis using assms o unfolding client_inv_def frame_def by metis
qed

lemma init_frame:
  assumes "client_inv E cfg c"
  shows "frame c (fst (clientInit E r c))"
proof -
  have "hc_initCanonical c = None \<Longrightarrow> hc_sessionKeys c = None"
    using assms unfolding client_inv_def by (metis option.exhaust)
  then show ?thesis
    unfolding post_def [symmetric] clientInit_def
    by (intro vcg) (auto simp: frame_def split: option.splits)
qed

lemma response_inv:
  assumes inv: "client_inv E cfg c"
  shows "client_inv E cfg (fst (onResponse E r data c))"
proof -
  have c0: "(hc_cfg c)\<lparr>cc_ephemeralPriv := None\<rparr> = cfg\<lparr>cc_ephemeralPriv := None\<rparr>"
    using inv by (simp add: client_inv_def)
  have drop: "frame c (dropEphemeral c)" by (simp add: frame_def dropEphemeral_def)
  have keys: "client_inv E cfg (dropEphemeral c\<lparr>hc_sessionId := sid, hc_sessionKeys := Some keys,
      hc_proofKeyId := kid, hc_proofSignature := psig\<rparr>)"
    if "responseKeys E c ephPriv nonce data = Inr (resp, keys)" "hc_nonce c = Some nonce"
      "hc_initCanonical c \<noteq> None" "sid = attr resp ''session_id''"
    for ephPriv nonce resp keys sid kid psig
  proof -
    have "from_response E cfg nonce resp keys"
      using responseKeys_ok(1) [OF that(1)] unfolding from_response_cfg [OF c0] .
    moreover have "session_origin E cfg (dropEphemeral c\<lparr>hc_sessionId := sid, hc_sessionKeys := Some keys,
      hc_proofKeyId := kid, hc_proofSignature := psig\<rparr>) s" if "session_origin E cfg c s" for s
      using that by (simp add: session_origin_def dropEphemeral_def)
    ultimately show ?thesis using inv that by (auto simp: client_inv_def dropEphemeral_def)
  qed
  have keep: "client_inv E cfg (dropEphemeral c)" by (rule frame_inv [OF inv drop])
  have stages: "client_inv E cfg (dropEphemeral c\<lparr>hc_sessionId := sid, hc_sessionKeys := Some keys\<rparr>)"
    "client_inv E cfg (dropEphemeral c\<lparr>hc_sessionId := sid, hc_sessionKeys := Some keys, hc_proofKeyId := kid\<rparr>)"
    if "responseKeys E c ephPriv nonce data = Inr (resp, keys)" "hc_nonce c = Some nonce"
      "hc_initCanonical c \<noteq> None" "sid = attr resp ''session_id''" for ephPriv nonce resp keys sid kid
    using keys [OF that, of "hc_proofKeyId (dropEphemeral c)" "hc_proofSignature (dropEphemeral c)"]
      keys [OF that, of kid "hc_proofSignature (dropEphemeral c)"]
    by (simp_all add: client_inv_def session_origin_def)
  show ?thesis
    unfolding post_def [symmetric] onResponse_def
    by (intro vcg) (auto simp: inv keep dest!: fld_attr intro!: keys stages)
qed

lemma accepted_inv:
  assumes inv: "client_inv E cfg c"
  shows "client_inv E cfg (fst (onAccepted E data c))"
proof -
  have c0: "(hc_cfg c)\<lparr>cc_ephemeralPriv := None\<rparr> = cfg\<lparr>cc_ephemeralPriv := None\<rparr>"
    using inv by (simp add: client_inv_def)
  have "session_origin E cfg c (acceptedSession E m keys kid psig)"
    if "checkAccepted E c data = Inr m" "hc_sessionKeys c = Some keys" for m keys kid psig
  proof -
    from inv that(2) obtain resp nonce where k: "hc_nonce c = Some nonce" "from_response E cfg nonce resp keys"
      "hc_sessionId c = attr resp ''session_id''" unfolding client_inv_def by blast
    show ?thesis
      unfolding session_origin_def
      by (rule exI [of _ m]) (use checkAccepted_ok [OF that(1)] cfg_fields [OF c0] k in
          \<open>auto simp: acceptedSession_def Let_def\<close>)
  qed
  then have "client_inv E cfg (c\<lparr>hc_finalSession := Some (acceptedSession E m keys kid psig)\<rparr>)"
    if "checkAccepted E c data = Inr m" "hc_sessionKeys c = Some keys" for m keys kid psig
    using inv that unfolding client_inv_def session_origin_def by simp
  then show ?thesis
    unfolding post_def [symmetric] onAccepted_def by (intro vcg) (simp_all add: inv)
qed

lemma resumed_inv:
  assumes inv: "client_inv E cfg c"
  shows "client_inv E cfg (fst (onResumeAccepted E data c))"
proof -
  have c0: "(hc_cfg c)\<lparr>cc_ephemeralPriv := None\<rparr> = cfg\<lparr>cc_ephemeralPriv := None\<rparr>"
    using inv by (simp add: client_inv_def)
  have o: "session_origin E cfg c (acceptedSession E m
        (deriveSessionKeysWithResumption (e_prims E) (e_utf8 E) secret nonce serverNonce) kid psig)"
    if "checkResumeAccepted E c data = Inr (m, serverNonce)" "hc_resumeNonce c = Some nonce"
    for m serverNonce secret nonce kid psig
    unfolding session_origin_def
    by (rule exI [of _ m]) (use checkResumeAccepted_ok [OF that(1)] cfg_fields [OF c0] that(2) in
        \<open>auto simp: acceptedSession_def Let_def\<close>)
  have f: "client_inv E cfg (c\<lparr>hc_resumptionSecret := None\<rparr>)"
    by (rule frame_inv [OF inv]) (simp add: frame_def)
  have "client_inv E cfg (c\<lparr>hc_resumptionSecret := None, hc_finalSession := Some (acceptedSession E m
        (deriveSessionKeysWithResumption (e_prims E) (e_utf8 E) secret nonce serverNonce) kid psig)\<rparr>)"
    if "checkResumeAccepted E c data = Inr (m, serverNonce)" "hc_resumeNonce c = Some nonce"
    for m serverNonce secret nonce kid psig
    using inv o [OF that, of secret kid psig] unfolding client_inv_def session_origin_def by simp
  then show ?thesis
    unfolding post_def [symmetric] onResumeAccepted_def by (intro vcg) (simp_all add: inv f)
qed

lemma clientStep_inv: "client_inv E cfg c \<Longrightarrow> client_inv E cfg (clientStep E op c)"
proof (cases op)
  case (CLoad secret)
  assume inv: "client_inv E cfg c"
  have "post (client_inv E cfg) (loadResumptionSecret secret) c"
    unfolding loadResumptionSecret_def
    by (intro vcg) (auto simp: frame_def intro!: inv frame_inv [OF inv])
  then show ?thesis by (simp add: CLoad post_def)
next
  case (CResume r ticket)
  assume inv: "client_inv E cfg c"
  have "post (client_inv E cfg) (resume E r ticket) c"
    unfolding resume_def
    by (intro vcg) (auto simp: frame_def intro!: inv frame_inv [OF inv])
  then show ?thesis by (simp add: CResume post_def)
next
  case CErase
  assume inv: "client_inv E cfg c"
  show ?thesis
    by (rule frame_inv [OF inv]) (simp add: CErase clientErase_def Let_def frame_def dropEphemeral_def)
qed (auto intro: frame_inv init_frame response_inv accepted_inv resumed_inv)

lemma client_reach_inv: "client_reach E cfg c \<Longrightarrow> client_inv E cfg c"
proof (induction rule: client_reach.induct)
  case (start c)
  then show ?case by (auto simp: newClient_def client_inv_def split: if_splits)
qed (rule clientStep_inv)

text \<open>C2. Whatever messages a client is fed, in whatever order: a session it exposes comes from an ACCEPTED
  message that the configured domain key signed, and its keys are those of a RESPONSE the same key
  signed for this client's own nonce and the same session id, or of a resumption; while the client
  holds session keys its ephemeral key is gone.\<close>

theorem client_session_authentic:
  assumes "client_reach E cfg c" and "clientSession c = Inr s"
  shows "\<exists>acc. signed_message E (cc_serverDomainPub cfg) ''accepted'' acc \<and>
     hs_sessionId s = attr acc ''session_id'' \<and> hs_permissions s = attr acc ''permissions'' \<and>
     ((\<exists>resp nonce. hc_nonce c = Some nonce \<and> from_response E cfg nonce resp (hs_keys s) \<and>
         attr resp ''session_id'' = hs_sessionId s) \<or>
      (\<exists>secret nonce sn. hc_resumeNonce c = Some nonce \<and> attr acc ''server_nonce'' = Some (JStr sn) \<and>
         hs_keys s = deriveSessionKeysWithResumption (e_prims E) (e_utf8 E) secret nonce (e_dec64 E sn)))
     \<and> (hc_sessionKeys c = None \<or> hc_ephPriv c = None)"
proof -
  have inv: "client_inv E cfg c" by (rule client_reach_inv [OF assms(1)])
  have "session_origin E cfg c s"
    using inv assms(2) by (auto simp: client_inv_def clientSession_def split: option.splits)
  moreover have "hc_sessionKeys c = None \<or> hc_ephPriv c = None"
    using inv unfolding client_inv_def by (metis option.exhaust)
  ultimately show ?thesis unfolding session_origin_def by blast
qed

section \<open>The server's session\<close>

datatype server_op = SInit server_draws bytes | SConfirm bytes | SErase

fun serverStep :: "'n env \<Rightarrow> ('n hs_error \<Rightarrow> jstr) \<Rightarrow> server_op \<Rightarrow> 'n server \<Rightarrow> 'n server" where
  "serverStep E message (SInit d data) s = fst (onInit E d data s)"
| "serverStep E message (SConfirm data) s = fst (onConfirm E message data s)"
| "serverStep E message SErase s = serverErase s"

inductive server_reach :: "'n env \<Rightarrow> ('n hs_error \<Rightarrow> jstr) \<Rightarrow> 'n server_config \<Rightarrow> 'n server \<Rightarrow> bool"
  for E message cfg where
  start: "newServer cfg = Inr s \<Longrightarrow> server_reach E message cfg s"
| step: "server_reach E message cfg s \<Longrightarrow> server_reach E message cfg (serverStep E message op s)"

text \<open>The hash of the two messages the server has on record.\<close>

definition transcript :: "'n env \<Rightarrow> 'n server \<Rightarrow> bytes option" where
  "transcript E s = (case (sv_initCanonical s, sv_respCanonical s) of
      (Some i, Some r) \<Rightarrow> Some (confirmationHash (e_prims E) i r) | _ \<Rightarrow> None)"

definition identified :: "'n env \<Rightarrow> 'n server_config \<Rightarrow> 'n server \<Rightarrow> 'n json \<Rightarrow> bool" where
  "identified E cfg s who \<longleftrightarrow> (\<forall>lookup. sc_lookupClientIdentityKey cfg = Some lookup \<longrightarrow>
     (\<exists>kid pub sig h. lookup (Some who) kid = Inr pub \<and> transcript E s = Some h \<and>
        verify (e_prims E) pub sig (identityInput E (Some (JStr (sv_sessionId s))) h)))"

definition confirmed :: "'n env \<Rightarrow> 'n server \<Rightarrow> bool" where
  "confirmed E s \<longleftrightarrow> (\<exists>m h. transcript E s = Some h \<and> attr m ''type'' = Some (str ''SEMP_HANDSHAKE'') \<and>
     attr m ''step'' = Some (str ''confirm'') \<and> b64 E (attr m ''confirmation_hash'') = Inr h)"

definition server_inv :: "'n env \<Rightarrow> 'n server_config \<Rightarrow> 'n server \<Rightarrow> bool" where
  "server_inv E cfg s \<longleftrightarrow>
     sc_lookupClientIdentityKey (sv_cfg s) = sc_lookupClientIdentityKey cfg \<and>
     (sv_initCanonical s = None \<longrightarrow> sv_respCanonical s = None) \<and>
     (\<forall>who. sv_clientIdentity s = Some who \<longrightarrow> transcript E s \<noteq> None \<and> identified E cfg s who) \<and>
     (\<forall>x. sv_finalSession s = Some x \<longrightarrow> confirmed E s \<and> ss_sessionId x = sv_sessionId s \<and>
        (ss_clientIdentity x \<noteq> JStr [] \<longrightarrow> identified E cfg s (ss_clientIdentity x)))"

lemma server_inv_frame:
  assumes "server_inv E cfg s"
    and "sc_lookupClientIdentityKey (sv_cfg s') = sc_lookupClientIdentityKey (sv_cfg s)"
    and "sv_initCanonical s' = sv_initCanonical s" "sv_respCanonical s' = sv_respCanonical s"
    and "sv_clientIdentity s' = sv_clientIdentity s" "sv_finalSession s' = sv_finalSession s"
    and "sv_sessionId s' = sv_sessionId s"
  shows "server_inv E cfg s'"
proof -
  have "transcript E s' = transcript E s" using assms(3,4) by (simp add: transcript_def)
  then show ?thesis using assms unfolding server_inv_def identified_def confirmed_def by simp
qed

lemma server_erase_inv: "server_inv E cfg s \<Longrightarrow> server_inv E cfg (serverErase s)"
  by (erule server_inv_frame) (simp_all add: serverErase_def dropServerEphemeral_def)

text \<open>Before the first INIT nothing is recorded; an INIT fills the transcript.\<close>

lemma fresh_inv:
  assumes "server_inv E cfg s" "sv_initCanonical s = None"
    and "sc_lookupClientIdentityKey (sv_cfg s') = sc_lookupClientIdentityKey (sv_cfg s)"
    and "sv_initCanonical s' \<noteq> None" "sv_clientIdentity s' = sv_clientIdentity s"
    and "sv_finalSession s' = sv_finalSession s"
  shows "server_inv E cfg s'"
proof -
  have "transcript E s = None" using assms(2) by (simp add: transcript_def)
  then have "sv_clientIdentity s = None" "sv_finalSession s = None"
    using assms(1) unfolding server_inv_def confirmed_def by (metis not_None_eq)+
  then show ?thesis using assms by (auto simp: server_inv_def)
qed

lemma onInit_inv:
  assumes inv: "server_inv E cfg s"
  shows "server_inv E cfg (fst (onInit E d data s))"
  unfolding post_def [symmetric] onInit_def agree_def rejectWith_def
  by (intro vcg inv) (auto intro: fresh_inv [OF inv])

lemma identity_step:
  assumes "server_inv E cfg s" "transcript E s \<noteq> None" "\<And>w. who = Some w \<Longrightarrow> identified E cfg s w"
  shows "server_inv E cfg (s\<lparr>sv_clientIdentity := who\<rparr>)"
  using assms by (auto simp: server_inv_def identified_def transcript_def confirmed_def)

lemma final_step:
  assumes "server_inv E cfg s" "confirmed E s" "ss_sessionId x = sv_sessionId s"
    and "ss_clientIdentity x = coalesce (sv_clientIdentity s) (JStr [])"
  shows "server_inv E cfg (s\<lparr>sv_finalSession := Some x\<rparr>)"
proof -
  have "identified E cfg s (ss_clientIdentity x)" if "ss_clientIdentity x \<noteq> JStr []"
  proof -
    have "sv_clientIdentity s = Some (ss_clientIdentity x)"
      using that assms(4) by (cases "(sv_clientIdentity s, JStr [] :: 'a json)" rule: coalesce.cases) auto
    with assms(1) show ?thesis unfolding server_inv_def by blast
  qed
  with assms show ?thesis by (auto simp: server_inv_def identified_def transcript_def confirmed_def)
qed

text \<open>Opening the identity proof leaves the state alone or records an identity that was checked.\<close>

definition opened :: "'n env \<Rightarrow> 'n server_config \<Rightarrow> 'n server \<Rightarrow> 'n server \<Rightarrow> bool" where
  "opened E cfg s t \<longleftrightarrow> (\<exists>who kid. t = s\<lparr>sv_clientIdentity := who, sv_clientLongTermKeyId := kid\<rparr> \<and>
      (who = sv_clientIdentity s \<or> (\<forall>w. who = Some w \<longrightarrow> identified E cfg s w)))"

lemma opened_same: "opened E cfg s s"
  unfolding opened_def
  by (rule exI [of _ "sv_clientIdentity s"], rule exI [of _ "sv_clientLongTermKeyId s"]) simp

lemma opened_new:
  assumes "\<And>w. who = Some w \<Longrightarrow> identified E cfg s w"
  shows "opened E cfg s (s\<lparr>sv_clientIdentity := who, sv_clientLongTermKeyId := kid\<rparr>)"
    "opened E cfg s (s\<lparr>sv_clientIdentity := who\<rparr>)"
proof -
  show "opened E cfg s (s\<lparr>sv_clientIdentity := who, sv_clientLongTermKeyId := kid\<rparr>)"
    using assms unfolding opened_def by blast
  show "opened E cfg s (s\<lparr>sv_clientIdentity := who\<rparr>)"
    unfolding opened_def
    by (rule exI [of _ who], rule exI [of _ "sv_clientLongTermKeyId s"]) (use assms in simp)
qed

lemma open_post:
  assumes "transcript E s = Some h"
    and "sc_lookupClientIdentityKey (sv_cfg s) = sc_lookupClientIdentityKey cfg"
  shows "post (opened E cfg s) (openClientIdentity E message s keys h proofB64) s"
proof -
  have none: "identified E cfg s w" if "sc_lookupClientIdentityKey (sv_cfg s) = None" for w
    using that assms(2) by (simp add: identified_def)
  have some: "identified E cfg s w"
    if "sc_lookupClientIdentityKey (sv_cfg s) = Some lookup" "lookup (Some w) kid = Inr pub"
      "verify (e_prims E) pub sig (identityInput E (Some (JStr (sv_sessionId s))) h)" for lookup kid pub sig w
    using that assms by (auto simp: identified_def)
  show ?thesis
    unfolding openClientIdentity_def checkIdentity_def rejectWith_def
    by (intro vcg opened_same) (auto simp: bindR_eq_Inr intro!: opened_new intro: none some)
qed

lemma confirm_inv:
  assumes inv: "server_inv E cfg s"
  shows "server_inv E cfg (fst (onConfirm E message data s))"
proof -
  have lookup: "sc_lookupClientIdentityKey (sv_cfg s) = sc_lookupClientIdentityKey cfg"
    using inv by (simp add: server_inv_def)
  define R where "R h t \<longleftrightarrow> server_inv E cfg t \<and> (\<exists>who kid. t = s\<lparr>sv_clientIdentity := who, sv_clientLongTermKeyId := kid\<rparr>)
    \<and> transcript E s = Some h" for h t
  have op: "post (R h) (openClientIdentity E message s keys h proofB64) s" if "transcript E s = Some h" for h keys proofB64
  proof (rule post_mono [OF open_post [OF that lookup]])
    fix t assume "opened E cfg s t"
    then obtain who kid where t: "t = s\<lparr>sv_clientIdentity := who, sv_clientLongTermKeyId := kid\<rparr>"
      "who = sv_clientIdentity s \<or> (\<forall>w. who = Some w \<longrightarrow> identified E cfg s w)" unfolding opened_def by blast
    have "\<And>w. who = Some w \<Longrightarrow> identified E cfg s w" using t(2) inv by (auto simp: server_inv_def)
    then have "server_inv E cfg (s\<lparr>sv_clientIdentity := who\<rparr>)" using inv that by (intro identity_step) simp_all
    then have "server_inv E cfg t" unfolding t(1) by (rule server_inv_frame) simp_all
    with t(1) that show "R h t" unfolding R_def by blast
  qed
  have Rinv: "R h t \<Longrightarrow> server_inv E cfg t" for h t by (simp add: R_def)
  have finish: "server_inv E cfg (dropServerEphemeral (t\<lparr>sv_finalSession := Some x\<rparr>))"
    "server_inv E cfg (t\<lparr>sv_finalSession := Some x\<rparr>)"
    if "R h t" "attr m ''type'' = Some (str ''SEMP_HANDSHAKE'')" "attr m ''step'' = Some (str ''confirm'')"
      "b64 E (attr m ''confirmation_hash'') = Inr h" "ss_sessionId x = sv_sessionId t"
      "ss_clientIdentity x = coalesce (sv_clientIdentity t) (JStr [])" for h t m x
  proof -
    have "transcript E t = Some h" using that(1) by (auto simp: R_def transcript_def split: option.splits)
    then have "confirmed E t" using that(2-4) unfolding confirmed_def by blast
    then show f: "server_inv E cfg (t\<lparr>sv_finalSession := Some x\<rparr>)"
      using final_step [OF Rinv [OF that(1)]] that(5,6) by blast
    show "server_inv E cfg (dropServerEphemeral (t\<lparr>sv_finalSession := Some x\<rparr>))"
      by (rule server_inv_frame [OF f]) (simp_all add: dropServerEphemeral_def)
  qed
  show ?thesis
    unfolding post_def [symmetric] onConfirm_def rejectWith_def
    by (intro vcg inv post_call [OF op])
       (auto simp: transcript_def elim!: Rinv intro!: finish dest!: fld_attr)
qed

lemma server_reach_inv: "server_reach E message cfg s \<Longrightarrow> server_inv E cfg s"
proof (induction rule: server_reach.induct)
  case (start s)
  then show ?case by (auto simp: newServer_def server_inv_def split: if_splits)
next
  case (step s op)
  then show ?case by (cases op) (auto intro: onInit_inv confirm_inv server_erase_inv)
qed


end
