(* ===== verification/HandshakeAgreement.thy ===== *)
theory HandshakeAgreement
  imports HandshakeProofs
begin

text \<open>
  An honest client and an honest server that exchange their messages unchanged both end with a session,
  with the same keys, id and permissions, under either suite and with or without an identity proof.
\<close>

section \<open>Signed messages on the wire\<close>

lemma fld_wire:
  "distinct (map fst m) \<Longrightarrow> fld (wire m) k = Inr (map_option sorted_form (map_of m (js k)))"
  using map_of_sorted_form [of m "js k"] by (simp add: wire_def fld_def)

lemma parse_wire: "parse_ok E \<Longrightarrow> plain (JObj m) \<Longrightarrow> parseFrame E (marshalE E (JObj m)) = Inr (wire m)"
  using parse_marshal [of E "JObj m"] by (simp add: parseFrame_def wire_def)

lemma plain_obj_set: "plain (JObj m) \<Longrightarrow> \<not> index_like k \<Longrightarrow> plain v \<Longrightarrow> plain (JObj (obj_set k v m))"
proof -
  assume a: "plain (JObj m)" "\<not> index_like k" "plain v"
  have "jsm_ok (obj_set k v m)" using a(1) by (simp add: jsm_ok_def [symmetric] del: jsm_ok_def)
  moreover have "set (obj_set k v m) \<subseteq> insert (k, v) (set m)" by (induction k v m rule: jsm_set.induct) auto
  ultimately show ?thesis using a by (auto simp: jsm_ok_def)
qed

lemma signMessage_wire:
  assumes "parse_ok E" "scheme_ok (plat E) seed pub" "length seed = 32" "plain (JObj m)"
    and enc: "\<And>b. b \<noteq> [] \<Longrightarrow> e_enc64 E b \<noteq> []"
  obtains m' where "signMessage E m seed = Inr m'" "plain (JObj m')"
    "verifyServerSignature E (wire m') ''server_signature'' pub = Inr ()"
    "\<forall>k. k \<noteq> ''server_signature'' \<longrightarrow> map_of m' (js k) = map_of m (js k)"
proof -
  let ?k = "js ''server_signature''"
  let ?blank = "obj_set ?k (JStr []) m"
  let ?raw = "ed_sign (e_prims E) (signingInput (plat E) HandshakePrefix ?blank) seed"
  let ?m = "obj_set ?k (JStr (e_enc64 E ?raw)) m"
  have ni: "\<not> index_like ?k" by (simp add: index_like_def js_def)
  have p: "plain (JObj ?m)" "plain (JObj ?blank)" by (rule plain_obj_set [OF assms(4) ni], simp)+
  have dec: "e_dec64 E (e_enc64 E b) = b" for b using assms(2) by (simp add: scheme_ok_def plat_def)
  have ver: "verify (e_prims E) pub ?raw (signingInput (plat E) HandshakePrefix ?blank)"
    using assms(2) by (simp add: scheme_ok_def plat_def)
  then have "length ?raw = 64" by (simp add: verify_def split: if_splits)
  then have ne: "e_enc64 E ?raw \<noteq> []" by (intro enc) auto
  have d: "distinct (map fst ?m)" "distinct (map fst ?blank)" using p by simp_all
  let ?clone = "obj_set ?k (JStr []) (objOf (wire ?m))"
  have "plain (JObj (objOf (wire ?m)))" using plain_sorted [OF p(1)] by (simp add: wire_def)
  from plain_obj_set [OF this ni, of "JStr []"] have dc: "distinct (map fst ?clone)" by simp
  have "sorted_form (JObj ?clone) = sorted_form (JObj ?blank)"
  proof (rule sorted_form_ext [OF dc d(2)])
    fix k
    have idem: "map_option sorted_form (map_option sorted_form (map_of m k)) = map_option sorted_form (map_of m k)"
    proof (cases "map_of m k")
      case (Some v)
      then have "plain v" using assms(4) by (auto dest: map_of_SomeD)
      with Some show ?thesis by (simp add: sorted_form_idem)
    qed simp
    then show "map_option sorted_form (map_of ?clone k) = map_option sorted_form (map_of ?blank k)"
      by (simp add: objOf_wire [OF d(1)])
  qed
  then have "marshalE E (JObj ?clone) = marshalE E (JObj ?blank)" by (simp add: marshal_def serialize_print)
  then have "verifyServerSignature E (wire ?m) ''server_signature'' pub = Inr ()"
    using ver ne d(1) by (simp add: verifyServerSignature_def fld_wire dec signingInput_def plat_def Let_def)
  moreover have "signMessage E m seed = Inr ?m" using assms(3) by (simp add: signMessage_Inr)
  ultimately show ?thesis using that p(1) by simp
qed

section \<open>Key agreement\<close>

text \<open>The primitives do not throw on honestly made inputs.\<close>

definition prims_total :: "primitives \<Rightarrow> bool" where
  "prims_total C \<longleftrightarrow>
     (\<forall>a. length a = 32 \<longrightarrow> x_public C a \<noteq> None) \<and>
     (\<forall>a b pb. length a = 32 \<longrightarrow> x_public C b = Some pb \<longrightarrow> x_shared C a pb \<noteq> None) \<and>
     (\<forall>seed sk pk m. kem_keygen C seed = (sk, pk) \<longrightarrow> length m = 32 \<longrightarrow> kem_encaps C pk m \<noteq> None)"

definition prims_ok :: "primitives \<Rightarrow> bool" where
  "prims_ok C \<longleftrightarrow> dh_ok C \<and> kem_ok C \<and> prims_total C \<and> (\<forall>m. length (sha256 C m) = 32) \<and>
     (\<forall>seed. length (ed_public C seed) = 32) \<and> (\<forall>prk info n. length (hk_expand C prk info n) = n)"

lemma prims_parts:
  assumes "prims_ok C"
  shows "dh_ok C" "kem_ok C" "prims_total C"
  using assms by (simp_all add: prims_ok_def)

lemma public_nonempty:
  assumes "dh_ok C" "x_public C a = Some p"
  shows "p \<noteq> []"
proof -
  have "length p = 32" using assms unfolding dh_ok_def by blast
  then show ?thesis by auto
qed

definition key_pair :: "primitives \<Rightarrow> jstr \<Rightarrow> bytes \<Rightarrow> bytes \<Rightarrow> bool" where
  "key_pair C suite priv pub \<longleftrightarrow>
     (if suite = pqSuite then \<exists>x seed. hybridGenerateKeyPair C x seed = Inr (pub, priv)
      else x_public C priv = Some pub)"

lemma hybridGenerateKeyPair_total:
  assumes "prims_ok C" "length x = 32"
  obtains pub priv where "hybridGenerateKeyPair C x seed = Inr (pub, priv)"
proof -
  obtain sk pk where k: "kem_keygen C seed = (sk, pk)" by force
  with assms(1) have l: "length sk = 2400" "length pk = 1184" by (auto simp: prims_ok_def kem_ok_def)
  obtain xPub where x: "x_public C x = Some xPub"
    using assms by (auto simp: prims_ok_def prims_total_def)
  with assms have "length xPub = 32" by (auto simp: prims_ok_def dh_ok_def)
  with k l x assms(2) that show ?thesis
    by (simp add: hybridGenerateKeyPair_def x25519PublicKey_def kem_sizes bufSet_first bufSet_second)
qed

lemma hybridEncapsulate_total:
  assumes "prims_ok C" "hybridGenerateKeyPair C x seed = Inr (pub, priv)" "length e = 32" "length m = 32"
  obtains ct ss where "hybridEncapsulate C e m pub = Inr (ct, ss)"
    "hybridDecapsulate C ct priv = Inr ss" "length pub = HybridPublicKeySize"
    "hybridEncapsulateWithRandomness C pub (m, e) = Inr (ct, ss)"
proof -
  have ok: "kem_ok C" "dh_ok C" "prims_total C" using assms(1) by (simp_all add: prims_ok_def)
  from hybridGenerateKeyPair_Inr [OF ok(1,2) assms(2)] obtain xPub sk pk where k:
    "x_public C x = Some xPub" "kem_keygen C seed = (sk, pk)" "length xPub = 32" "length pk = 1184"
    "pub = pk @ xPub" by metis
  obtain ePub where e: "x_public C e = Some ePub" using ok(3) assms(3) by (auto simp: prims_total_def)
  obtain xSS where xs: "x_shared C e xPub = Some xSS"
    using ok(3) assms(3) k(1) unfolding prims_total_def by (metis not_None_eq)
  obtain kct kss where ks: "kem_encaps C pk m = Some (kct, kss)"
    using ok(3) assms(4) k(2) unfolding prims_total_def by (metis not_None_eq surj_pair)
  have l: "length kct = 1088" "length kss = 32" using ok(1) k(2) ks unfolding kem_ok_def by blast+
  have lx: "length ePub = 32" "length xSS = 32" using ok(2) e xs unfolding dh_ok_def by blast+
  have enc: "hybridEncapsulate C e m pub = Inr (kct @ ePub, kss @ xSS)"
    using k e xs ks l lx by (simp add: hybridEncapsulate_def kem_sizes x25519PublicKey_def x25519Agree_def
        hybridOutput_ok)
  moreover have "hybridEncapsulateWithRandomness C pub (m, e) = Inr (kct @ ePub, kss @ xSS)"
    using k e xs ks l lx assms(3,4)
    by (simp add: hybridEncapsulateWithRandomness_def kem_sizes x25519PublicKey_def x25519Agree_def hybridOutput_ok)
  moreover have "length pub = HybridPublicKeySize" using k by (simp add: kem_sizes)
  ultimately show ?thesis using that hybrid_agree [OF ok(1,2) assms(2) enc] by blast
qed

text \<open>The server's side of the agreement gives the secret the client will compute.\<close>

definition server_keys_ok :: "'n server_config \<Rightarrow> bool" where
  "server_keys_ok cfg \<longleftrightarrow> (\<forall>p. sc_ephemeralPriv cfg = Some p \<longrightarrow> length p = 32) \<and>
     (\<forall>m e. sc_hybridRandomness cfg = Some (m, e) \<longrightarrow> length m = 32 \<and> length e = 32)"

lemma agree_shared:
  assumes "prims_ok (e_prims E)" "key_pair (e_prims E) suite priv pub" "server_keys_ok (sv_cfg s)"
    and "length (sd_x25519 d) = 32" "length (sd_kemCoins d) = 32"
    and "cc_suite (hc_cfg c) = suite" "hc_ephPub c = Some pub"
  obtains p serverEph shared where
    "agree E d (suite = pqSuite) pub s = (s\<lparr>sv_ephPriv := p\<rparr>, Inr (serverEph, shared))"
    "clientShared E c priv serverEph = Inr shared" "serverEph \<noteq> []"
proof (cases "suite = pqSuite")
  case True
  then obtain x seed where k: "hybridGenerateKeyPair (e_prims E) x seed = Inr (pub, priv)"
    using assms(2) by (auto simp: key_pair_def)
  obtain m e where me: "length m = 32" "length e = 32"
    "(case sc_hybridRandomness (sv_cfg s) of Some rnd \<Rightarrow> hybridEncapsulateWithRandomness (e_prims E) pub rnd
        | None \<Rightarrow> hybridEncapsulate (e_prims E) (sd_x25519 d) (sd_kemCoins d) pub)
     \<in> {hybridEncapsulateWithRandomness (e_prims E) pub (m, e), hybridEncapsulate (e_prims E) e m pub}"
  proof (cases "sc_hybridRandomness (sv_cfg s)")
    case None
    then show ?thesis using that [of "sd_kemCoins d" "sd_x25519 d"] assms(4,5) by simp
  next
    case (Some rnd)
    then show ?thesis using that [of "fst rnd" "snd rnd"] assms(3) by (cases rnd) (auto simp: server_keys_ok_def)
  qed
  obtain ct ss where e: "hybridEncapsulate (e_prims E) e m pub = Inr (ct, ss)"
    "hybridDecapsulate (e_prims E) ct priv = Inr ss" "length pub = HybridPublicKeySize"
    "hybridEncapsulateWithRandomness (e_prims E) pub (m, e) = Inr (ct, ss)"
    by (rule hybridEncapsulate_total [OF assms(1) k me(2,1)])
  have "length ct = HybridCiphertextSize" using e(2) by (simp add: hybridDecapsulate_def split: if_splits)
  then have "ct \<noteq> []" by (auto simp: kem_sizes)
  moreover have "agree E d (suite = pqSuite) pub s = (s\<lparr>sv_ephPriv := sv_ephPriv s\<rparr>, Inr (ct, ss))"
    using True me(3) e(1,4) by (auto simp: agree_def cr_def)
  moreover have "clientShared E c priv ct = Inr ss" using True e assms(6,7) by (simp add: clientShared_def)
  ultimately show ?thesis using that by blast
next
  case False
  let ?p = "case sc_ephemeralPriv (sv_cfg s) of Some p \<Rightarrow> p | None \<Rightarrow> sd_x25519 d"
  have ok: "dh_ok (e_prims E)" "prims_total (e_prims E)" using assms(1) by (simp_all add: prims_ok_def)
  have l: "length ?p = 32" using assms(3,4) by (auto simp: server_keys_ok_def split: option.splits)
  then obtain spub where sp: "x_public (e_prims E) ?p = Some spub"
    using ok(2) unfolding prims_total_def by (metis not_None_eq)
  have kp: "x_public (e_prims E) priv = Some pub" using assms(2) False by (simp add: key_pair_def)
  obtain ss where ss: "x_shared (e_prims E) ?p pub = Some ss"
    using ok(2) l kp unfolding prims_total_def by (metis not_None_eq)
  have "x_shared (e_prims E) priv spub = Some ss" using ok(1) kp sp ss unfolding dh_ok_def by metis
  then have "clientShared E c priv spub = Inr ss"
    using False assms(6) by (simp add: clientShared_def x25519Agree_def)
  moreover have "spub \<noteq> []" using ok(1) sp unfolding dh_ok_def by force
  moreover have "agree E d (suite = pqSuite) pub s = (s\<lparr>sv_ephPriv := Some ?p\<rparr>, Inr (spub, ss))"
    using False sp ss by (simp add: agree_def Let_def x25519PublicKey_def x25519Agree_def cr_def)
  ultimately show ?thesis using that by blast
qed

section \<open>The client's INIT\<close>

lemma fld_sorted:
  "distinct (map fst m) \<Longrightarrow> fld (Some (sorted_form (JObj m))) k = Inr (map_option sorted_form (map_of m (js k)))"
  using fld_wire [of m k] by (simp add: wire_def)

lemma sorted_str [simp]: "sorted_form (JStr s) = JStr s" "sorted_form (JNum n) = JNum n"
  "sorted_form (JArr (map JStr ss)) = JArr (map JStr ss)"
  by (simp_all add: o_def)

declare sorted_form.simps(2) [simp del]

lemma index_like_js [simp]: "index_like (js s) \<longleftrightarrow> length s \<le> 10 \<and> (case s of [] \<Rightarrow> False | c # _ \<Rightarrow> 48 \<le> (of_nat (of_char c) :: 16 word) \<and> (of_nat (of_char c) :: 16 word) \<le> 57)"
  by (cases s) (simp_all add: index_like_def js_def)

lemma plain_strs [simp]: "plain (JArr (map JStr ss))" by simp

lemma plain_parts:
  "plain (keyref_json k)" "plain (capabilities_json num caps)" "plain (sip_json p)"
  "plain (negotiated_json num n)" "plain (ticket_json t)"
  by (auto simp: keyref_json_def capabilities_json_def sip_json_def negotiated_json_def ticket_json_def
      split: option.splits)

lemma plain_init: "plain (JObj (buildInit num nonce transport k caps))"
  by (simp add: buildInit_def plain_parts)

lemma clientInit_ok:
  assumes "prims_ok (e_prims E)" "length (dr_x25519 r) = 32" "hc_initCanonical c = None"
    and "cc_suite (hc_cfg c) = pqSuite \<Longrightarrow> hc_ephPriv c = None" "\<And>p. hc_ephPriv c = Some p \<Longrightarrow> length p = 32"
  obtains priv pub nonce kid i where
    "i = buildInit (e_num E) (e_enc64 E nonce) (cc_transport (hc_cfg c))
       \<lparr>kr_algorithm = cc_suite (hc_cfg c), kr_key = e_enc64 E pub, kr_key_id = kid\<rparr> (cc_capabilities (hc_cfg c))"
    "clientInit E r c = (c\<lparr>hc_ephPriv := Some priv, hc_ephPub := Some pub, hc_nonce := Some nonce,
       hc_initCanonical := Some (marshalE E (JObj i))\<rparr>, Inr (marshalE E (JObj i)))"
    "key_pair (e_prims E) (cc_suite (hc_cfg c)) priv pub"
proof (cases "cc_suite (hc_cfg c) = pqSuite")
  case True
  obtain pub priv where k: "hybridGenerateKeyPair (e_prims E) (dr_x25519 r) (dr_kemSeed r) = Inr (pub, priv)"
    by (rule hybridGenerateKeyPair_total [OF assms(1,2)])
  show ?thesis
    by (rule that [where priv = priv and pub = pub and kid = "hexSha256 (e_prims E) pub"
          and nonce = "case hc_nonce c of None \<Rightarrow> dr_nonce r | Some n \<Rightarrow> n", OF refl])
       (use True k assms(3,4) in \<open>auto simp: clientInit_def cr_def key_pair_def Let_def bindX_def split: option.splits\<close>)
next
  case False
  let ?p = "case hc_ephPriv c of None \<Rightarrow> dr_x25519 r | Some p \<Rightarrow> p"
  have "length ?p = 32" using assms(2,5) by (auto split: option.splits)
  then obtain pub where pub: "x_public (e_prims E) ?p = Some pub"
    using prims_parts(3) [OF assms(1)] unfolding prims_total_def by (metis not_None_eq)
  then have "pub \<noteq> []" by (rule public_nonempty [OF prims_parts(1) [OF assms(1)]])
  then have f: "fingerprint (e_prims E) pub = Inr (bytesToHex (sha256 (e_prims E) pub))" by (simp add: fingerprint_def)
  show ?thesis
    by (rule that [where priv = ?p and pub = pub and kid = "bytesToHex (sha256 (e_prims E) pub)"
          and nonce = "case hc_nonce c of None \<Rightarrow> dr_nonce r | Some n \<Rightarrow> n", OF refl])
       (use False pub f assms(3) in \<open>simp_all add: clientInit_def cr_def key_pair_def Let_def x25519PublicKey_def bindX_def\<close>)
qed

section \<open>The server's RESPONSE\<close>

text \<open>A call with a known result.\<close>

lemma bindX_run: "m s = (s', Inr x) \<Longrightarrow> bindX m f s = f x s'"
  by (simp add: bindX_def)

lemma pickSuite_array:
  "pickSuite (Some (JArr (map JStr algs))) supported = Inr (List.find (\<lambda>s. s \<in> set algs) supported)"
  by (induction supported) auto

lemma init_fields:
  fixes i :: "'n obj"
  assumes i: "i = buildInit num nonceB64 transport \<lparr>kr_algorithm = suite, kr_key = key, kr_key_id = kid\<rparr> caps"
  shows "fld (wire i) ''type'' = Inr (Some (str ''SEMP_HANDSHAKE''))"
    "fld (wire i) ''step'' = Inr (Some (str ''init''))"
    "fld (wire i) ''nonce'' = Inr (Some (JStr nonceB64))"
    "\<exists>ek. fld (wire i) ''client_ephemeral_key'' = Inr ek \<and> fld ek ''key'' = Inr (Some (JStr key))"
    "\<exists>cp. fld (wire i) ''capabilities'' = Inr cp \<and>
       fld cp ''encryption_algorithms'' = Inr (Some (JArr (map JStr (encryption_algorithms caps))))"
proof -
  have d: "distinct (map fst i)" by (simp add: i buildInit_def)
  show "fld (wire i) ''type'' = Inr (Some (str ''SEMP_HANDSHAKE''))"
    "fld (wire i) ''step'' = Inr (Some (str ''init''))"
    "fld (wire i) ''nonce'' = Inr (Some (JStr nonceB64))"
    using fld_wire [OF d] by (simp_all add: i buildInit_def)
  show "\<exists>ek. fld (wire i) ''client_ephemeral_key'' = Inr ek \<and> fld ek ''key'' = Inr (Some (JStr key))"
    using fld_wire [OF d] by (simp add: i buildInit_def keyref_json_def fld_sorted)
  show "\<exists>cp. fld (wire i) ''capabilities'' = Inr cp \<and>
       fld cp ''encryption_algorithms'' = Inr (Some (JArr (map JStr (encryption_algorithms caps))))"
    using fld_wire [OF d] by (simp add: i buildInit_def capabilities_json_def fld_sorted split: option.splits)
qed

definition callbacks_ok :: "'n server_config \<Rightarrow> bool" where
  "callbacks_ok cfg \<longleftrightarrow> (\<forall>k n m. \<exists>x. sc_identityProofSignature cfg k n m = Inr x) \<and>
     sc_verifyIdentityProof cfg = None \<and>
     (\<forall>f k. sc_resumptionTicket cfg = Some f \<longrightarrow> (\<exists>t. f k = Inr t)) \<and>
     (\<forall>x. sc_acceptedExtensions cfg = Some x \<longrightarrow> plain (JObj x))"

lemma onInit_ok:
  fixes E :: "'n env"
  assumes env: "parse_ok E" "scheme_ok (plat E) (sc_seed cfg) dpub" "length (sc_seed cfg) = 32"
      "prims_ok (e_prims E)" "\<And>b. b \<noteq> [] \<Longrightarrow> e_enc64 E b \<noteq> []"
    and s: "sv_initCanonical s = None" "sv_cfg s = cfg" "callbacks_ok cfg" "server_keys_ok cfg"
    and d: "length (sd_x25519 d) = 32" "length (sd_kemCoins d) = 32"
    and i: "i = buildInit (e_num E) (e_enc64 E nonce) transport
        \<lparr>kr_algorithm = suite, kr_key = e_enc64 E pub, kr_key_id = kid\<rparr> caps"
    and pick: "List.find (\<lambda>s. s \<in> set (encryption_algorithms caps)) (sc_supportedSuites cfg) = Some suite"
    and pair: "key_pair (e_prims E) suite priv pub" "cc_suite (hc_cfg c) = suite" "hc_ephPub c = Some pub"
  obtains s' resp serverEph serverNonce shared skid idp where
    "onInit E d (marshalE E (JObj i)) s = (s', Inr (marshalE E (JObj resp)))" "plain (JObj resp)"
    "verifyServerSignature E (wire resp) ''server_signature'' dpub = Inr ()"
    "\<forall>k. k \<noteq> ''server_signature'' \<longrightarrow> map_of resp (js k) = map_of (response_json (e_num E)
       \<lparr>ri_session_id = sd_sessionId d, ri_server_nonce = e_enc64 E serverNonce,
        ri_ephemeral = \<lparr>kr_algorithm = suite, kr_key = e_enc64 E serverEph, kr_key_id = skid\<rparr>,
        ri_identity_proof = idp,
        ri_negotiated = \<lparr>ng_algorithm = suite, ng_extensions = [], ng_max_envelope_size = None\<rparr>\<rparr>
       (JStr (e_enc64 E nonce))) (js k)"
    "clientShared E c priv serverEph = Inr shared"
    "sv_cfg s' = cfg" "sv_sessionId s' = sd_sessionId d"
    "sv_initCanonical s' = Some (marshalE E (JObj i))" "sv_respCanonical s' = Some (marshalE E (JObj resp))"
    "sv_sessionKeys s' = Some (deriveSessionKeysWithResumption (e_prims E) (e_utf8 E) shared nonce serverNonce)"
    "sv_idProof s' = Some idp" "sv_clientIdentity s' = sv_clientIdentity s"
proof -
  have p: "parseFrame E (marshalE E (JObj i)) = Inr (wire i)"
    by (rule parse_wire [OF env(1)]) (simp only: i plain_init)
  from init_fields [OF i] obtain ek cp where f: "fld (wire i) ''type'' = Inr (Some (str ''SEMP_HANDSHAKE''))"
    "fld (wire i) ''step'' = Inr (Some (str ''init''))" "fld (wire i) ''nonce'' = Inr (Some (JStr (e_enc64 E nonce)))"
    "fld (wire i) ''client_ephemeral_key'' = Inr ek" "fld ek ''key'' = Inr (Some (JStr (e_enc64 E pub)))"
    "fld (wire i) ''capabilities'' = Inr cp"
    "fld cp ''encryption_algorithms'' = Inr (Some (JArr (map JStr (encryption_algorithms caps))))" by metis
  have dec: "b64 E (Some (JStr (e_enc64 E b))) = Inr b" for b
    using env(2) by (simp add: scheme_ok_def plat_def b64_def)
  define serverNonce where "serverNonce = (case sc_nonce cfg of Some n \<Rightarrow> n | None \<Rightarrow> sd_nonce d)"
  let ?s1 = "s\<lparr>sv_initCanonical := Some (marshalE E (JObj i)), sv_sessionId := sd_sessionId d,
     sv_nonce := Some serverNonce\<rparr>"
  have k1: "server_keys_ok (sv_cfg ?s1)" using s(2,4) by simp
  obtain q serverEph shared where ag:
    "agree E d (suite = pqSuite) pub ?s1 = (?s1\<lparr>sv_ephPriv := q\<rparr>, Inr (serverEph, shared))"
    "clientShared E c priv serverEph = Inr shared" "serverEph \<noteq> []"
    by (rule agree_shared [OF env(4) pair(1) k1 d pair(2,3)])
  obtain skid where skid: "(if suite = pqSuite then Inr (hexSha256 (e_prims E) serverEph)
      else cr (fingerprint (e_prims E) serverEph)) = (Inr skid :: 'n hs_error + jstr)"
    using ag(3) by (cases "suite = pqSuite") (auto simp: fingerprint_def)
  let ?eph = "\<lparr>kr_algorithm = suite, kr_key = e_enc64 E serverEph, kr_key_id = skid\<rparr>"
  let ?dp = "ed_public (e_prims E) (sc_seed cfg)"
  have dp: "publicKeyFromSeed (e_prims E) (sc_seed cfg) = Inr ?dp" using env(3) by (simp add: publicKeyFromSeed_def)
  have "length ?dp = 32" using env(4) by (simp add: prims_ok_def)
  then have "?dp \<noteq> []" by auto
  then obtain keyId where keyId: "fingerprint (e_prims E) ?dp = Inr keyId" by (simp add: fingerprint_def)
  obtain psig where psig: "sc_identityProofSignature cfg ?eph (Some (JStr (e_enc64 E nonce))) (e_enc64 E serverNonce) = Inr psig"
    using s(3) unfolding callbacks_ok_def by metis
  let ?idp = "\<lparr>sip_domain = sc_domain cfg, sip_key_id = keyId, sip_signature = psig\<rparr>"
  let ?ri = "\<lparr>ri_session_id = sd_sessionId d, ri_server_nonce = e_enc64 E serverNonce, ri_ephemeral = ?eph,
        ri_identity_proof = ?idp,
        ri_negotiated = \<lparr>ng_algorithm = suite, ng_extensions = [], ng_max_envelope_size = None\<rparr>\<rparr>"
  have pr: "plain (JObj (response_json (e_num E) ?ri (JStr (e_enc64 E nonce))))"
    by (simp add: response_json_def plain_parts)
  obtain resp where resp: "signMessage E (response_json (e_num E) ?ri (JStr (e_enc64 E nonce))) (sc_seed cfg) = Inr resp"
    "plain (JObj resp)" "verifyServerSignature E (wire resp) ''server_signature'' dpub = Inr ()"
    "\<forall>k. k \<noteq> ''server_signature'' \<longrightarrow> map_of resp (js k)
       = map_of (response_json (e_num E) ?ri (JStr (e_enc64 E nonce))) (js k)"
    by (rule signMessage_wire [OF env(1,2,3) pr env(5)])
  let ?keys = "deriveSessionKeysWithResumption (e_prims E) (e_utf8 E) shared nonce serverNonce"
  let ?s' = "?s1\<lparr>sv_ephPriv := q, sv_sessionKeys := Some ?keys, sv_idProof := Some ?idp,
     sv_respCanonical := Some (marshalE E (JObj resp))\<rparr>"
  have calls: "cr (publicKeyFromSeed (e_prims E) (sc_seed cfg)) = (Inr ?dp :: 'n hs_error + bytes)"
    "cr (fingerprint (e_prims E) ?dp) = (Inr keyId :: 'n hs_error + jstr)"
    "callback (sc_identityProofSignature cfg ?eph (Some (JStr (e_enc64 E nonce))) (e_enc64 E serverNonce))
      = (Inr psig :: 'n hs_error + jstr)"
    using dp keyId psig by simp_all
  note run = bindX_run [of "agree E d (suite = pqSuite) pub" ?s1, OF ag(1)]
  have "onInit E d (marshalE E (JObj i)) s = (?s', Inr (marshalE E (JObj resp)))"
    using resp(1)
    by (simp add: onInit_def s p f pickSuite_array pick dec Let_def serverNonce_def [symmetric]
        run skid calls buildResponse_def del: cr_Inr callback_Inr)
  from that [OF this resp(2-4) ag(2)] show ?thesis by (simp add: s(2))
qed

section \<open>The client's CONFIRM\<close>

lemma response_fields:
  fixes resp :: "'n obj"
  assumes d: "distinct (map fst resp)"
    and r: "\<forall>k. k \<noteq> ''server_signature'' \<longrightarrow> map_of resp (js k) = map_of (response_json num
       \<lparr>ri_session_id = sid, ri_server_nonce = sn, ri_ephemeral = \<lparr>kr_algorithm = suite, kr_key = key, kr_key_id = skid\<rparr>,
        ri_identity_proof = idp, ri_negotiated = ng\<rparr> (JStr cn)) (js k)"
  shows "fld (wire resp) ''type'' = Inr (Some (str ''SEMP_HANDSHAKE''))"
    "fld (wire resp) ''step'' = Inr (Some (str ''response''))"
    "fld (wire resp) ''session_id'' = Inr (Some (JStr sid))"
    "fld (wire resp) ''client_nonce'' = Inr (Some (JStr cn))"
    "fld (wire resp) ''server_nonce'' = Inr (Some (JStr sn))"
    "\<exists>ek. fld (wire resp) ''server_ephemeral_key'' = Inr ek \<and> fld ek ''key'' = Inr (Some (JStr key))"
    "\<exists>ip. fld (wire resp) ''server_identity_proof'' = Inr ip \<and> fld ip ''key_id'' = Inr (Some (JStr (sip_key_id idp))) \<and>
       fld ip ''signature'' = Inr (Some (JStr (sip_signature idp)))"
  using r by (simp_all add: fld_wire [OF d] response_json_def keyref_json_def sip_json_def fld_sorted)

text \<open>The identity proof of the client, when it has an identity.\<close>

definition identity_setup :: "'n env \<Rightarrow> client_config \<Rightarrow> draws \<Rightarrow> 'n server_config \<Rightarrow> bool" where
  "identity_setup E cc r cfg \<longleftrightarrow> (\<forall>i. cc_identity cc = Some i \<longrightarrow>
     length (ic_longTermSeed i) = 32 \<and>
     length (case ic_proofNonce i of None \<Rightarrow> dr_proofNonce r | Some n \<Rightarrow> n) = 12 \<and>
     (\<forall>lookup. sc_lookupClientIdentityKey cfg = Some lookup \<longrightarrow>
        (\<exists>pk. lookup (Some (JStr (ic_clientIdentity i))) (Some (JStr (ic_longTermKeyId i))) = Inr pk \<and>
           (\<forall>m. verify (e_prims E) pk (ed_sign (e_prims E) m (ic_longTermSeed i)) m))))"

definition aead_ok :: "primitives \<Rightarrow> bool" where
  "aead_ok C \<longleftrightarrow> (\<forall>k n a p. length k = 32 \<longrightarrow> length n = 12 \<longrightarrow> (\<exists>c. chacha_enc C k n a p = Some c \<and> chacha_dec C k n a c = Some p))"

text \<open>What the client writes into \<open>identity_proof\<close>, and that the server opens it.\<close>

lemma identity_proof_ok:
  fixes E :: "'n env"
  assumes env: "parse_ok E" "scheme_ok (plat E) seed dpub" "aead_ok (e_prims E)"
      "\<And>b. b \<noteq> [] \<Longrightarrow> e_enc64 E b \<noteq> []"
    and key: "length key = 32"
    and i: "length (ic_longTermSeed i) = 32"
      "length (case ic_proofNonce i of None \<Rightarrow> rnd | Some n \<Rightarrow> n) = 12"
  obtains proof64 where "composeIdentityProof E i (Some (JStr sid)) ch key rnd = Inr proof64" "proof64 \<noteq> []"
    "openIdentityProof E (Some (JStr proof64)) key sid
      = Inr (Some (identity_block E i (ed_sign (e_prims E) (identityInput E (Some (JStr sid)) ch) (ic_longTermSeed i))))"
proof -
  let ?sig = "ed_sign (e_prims E) (identityInput E (Some (JStr sid)) ch) (ic_longTermSeed i)"
  let ?nonce = "case ic_proofNonce i of None \<Rightarrow> rnd | Some n \<Rightarrow> n"
  let ?pt = "e_utf8 E (print (e_numstr E) (identity_block E i ?sig))"
  obtain ct where ct: "chacha_enc (e_prims E) key ?nonce (e_utf8 E sid) ?pt = Some ct"
    "chacha_dec (e_prims E) key ?nonce (e_utf8 E sid) ct = Some ?pt"
    using env(3) key i(2) unfolding aead_ok_def by metis
  have dec: "e_dec64 E (e_enc64 E b) = b" for b using env(2) by (simp add: scheme_ok_def plat_def)
  have "plain (identity_block E i ?sig)" by (simp add: identity_block_def)
  then have "parseFrame E ?pt = Inr (Some (identity_block E i ?sig))"
    using env(1) by (simp add: parse_ok_def parseFrame_def)
  then have "openIdentityProof E (Some (JStr (e_enc64 E (?nonce @ ct)))) key sid = Inr (Some (identity_block E i ?sig))"
    using i(2) ct(2) by (simp add: openIdentityProof_def dec aeadOpen_def Let_def)
  moreover have "e_enc64 E (?nonce @ ct) \<noteq> []" using i(2) by (intro env(4)) auto
  moreover have "composeIdentityProof E i (Some (JStr sid)) ch key rnd = Inr (e_enc64 E (?nonce @ ct))"
    using i ct(1) by (simp add: composeIdentityProof_def sign_def aeadSeal_def Let_def)
  ultimately show ?thesis using that by blast
qed

lemma keys_length: "prims_ok (e_prims E) \<Longrightarrow>
    length (encC2S (deriveSessionKeysWithResumption (e_prims E) utf8 ss n m)) = 32"
  by (simp add: prims_ok_def deriveSessionKeysWithResumption_def Let_def kdf_expand_def SessionKeyLength_def)

lemma onResponse_ok:
  fixes E :: "'n env"
  assumes env: "parse_ok E" "scheme_ok (plat E) seed (cc_serverDomainPub (hc_cfg c))" "aead_ok (e_prims E)"
      "\<And>b. b \<noteq> [] \<Longrightarrow> e_enc64 E b \<noteq> []" "prims_ok (e_prims E)"
    and c: "hc_initCanonical c = Some initB" "hc_ephPriv c = Some priv" "hc_nonce c = Some nonce"
      "identity_setup E (hc_cfg c) r cfg"
    and resp: "plain (JObj resp)"
      "verifyServerSignature E (wire resp) ''server_signature'' (cc_serverDomainPub (hc_cfg c)) = Inr ()"
      "\<forall>k. k \<noteq> ''server_signature'' \<longrightarrow> map_of resp (js k) = map_of (response_json (e_num E)
       \<lparr>ri_session_id = sid, ri_server_nonce = e_enc64 E serverNonce,
        ri_ephemeral = \<lparr>kr_algorithm = suite, kr_key = e_enc64 E serverEph, kr_key_id = skid\<rparr>,
        ri_identity_proof = idp, ri_negotiated = ng\<rparr> (JStr (e_enc64 E nonce))) (js k)"
      "clientShared E c priv serverEph = Inr shared"
  obtains c' proof64 where
    "onResponse E r (marshalE E (JObj resp)) c = (c', Inr (marshalE E (JObj
       (buildConfirm (Some (JStr sid)) (e_enc64 E (confirmationHash (e_prims E) initB (marshalE E (JObj resp)))) proof64))))"
    "hc_sessionKeys c' = Some (deriveSessionKeysWithResumption (e_prims E) (e_utf8 E) shared nonce serverNonce)"
    "hc_sessionId c' = Some (JStr sid)"
    "hc_ephPriv c' = None \<and> cc_serverDomainPub (hc_cfg c') = cc_serverDomainPub (hc_cfg c)"
    "(case cc_identity (hc_cfg c) of
        None \<Rightarrow> proof64 = []
      | Some i \<Rightarrow> proof64 \<noteq> [] \<and> openIdentityProof E (Some (JStr proof64))
          (encC2S (deriveSessionKeysWithResumption (e_prims E) (e_utf8 E) shared nonce serverNonce)) sid
          = Inr (Some (identity_block E i (ed_sign (e_prims E) (identityInput E (Some (JStr sid))
              (confirmationHash (e_prims E) initB (marshalE E (JObj resp)))) (ic_longTermSeed i)))))"
proof -
  let ?keys = "deriveSessionKeysWithResumption (e_prims E) (e_utf8 E) shared nonce serverNonce"
  let ?ch = "confirmationHash (e_prims E) initB (marshalE E (JObj resp))"
  have d: "distinct (map fst resp)" using resp(1) by simp
  from response_fields [OF d resp(3)] obtain ek ip where f:
    "fld (wire resp) ''type'' = Inr (Some (str ''SEMP_HANDSHAKE''))"
    "fld (wire resp) ''step'' = Inr (Some (str ''response''))"
    "fld (wire resp) ''session_id'' = Inr (Some (JStr sid))"
    "fld (wire resp) ''client_nonce'' = Inr (Some (JStr (e_enc64 E nonce)))"
    "fld (wire resp) ''server_nonce'' = Inr (Some (JStr (e_enc64 E serverNonce)))"
    "fld (wire resp) ''server_ephemeral_key'' = Inr ek" "fld ek ''key'' = Inr (Some (JStr (e_enc64 E serverEph)))"
    "fld (wire resp) ''server_identity_proof'' = Inr ip" "fld ip ''key_id'' = Inr (Some (JStr (sip_key_id idp)))"
    "fld ip ''signature'' = Inr (Some (JStr (sip_signature idp)))" by metis
  have dec: "b64 E (Some (JStr (e_enc64 E b))) = Inr b" for b
    using env(2) by (simp add: scheme_ok_def plat_def b64_def)
  have rk: "responseKeys E c priv nonce (marshalE E (JObj resp)) = Inr (wire resp, ?keys)"
    using f resp(2,4) by (simp add: responseKeys_def parse_wire [OF env(1) resp(1)] dec)
  have len: "length (encC2S ?keys) = 32" by (rule keys_length [OF env(5)])
  have ch: "confirmationHash (e_prims E) initB (marshalE E (JObj (objOf (wire resp)))) = ?ch"
    by (simp only: marshal_wire [OF resp(1)])
  obtain proof64 where pf: "(case cc_identity (hc_cfg c) of None \<Rightarrow> Inr [] | Some i \<Rightarrow>
      cr (composeIdentityProof E i (Some (JStr sid)) ?ch (encC2S ?keys) (dr_proofNonce r))) = (Inr proof64 :: 'n hs_error + jstr)"
    "(case cc_identity (hc_cfg c) of None \<Rightarrow> proof64 = []
      | Some i \<Rightarrow> proof64 \<noteq> [] \<and> openIdentityProof E (Some (JStr proof64)) (encC2S ?keys) sid
          = Inr (Some (identity_block E i (ed_sign (e_prims E) (identityInput E (Some (JStr sid)) ?ch) (ic_longTermSeed i)))))"
  proof (cases "cc_identity (hc_cfg c)")
    case None
    then show ?thesis using that [of "[]"] by simp
  next
    case (Some i)
    then have i: "length (ic_longTermSeed i) = 32"
      "length (case ic_proofNonce i of None \<Rightarrow> dr_proofNonce r | Some n \<Rightarrow> n) = 12"
      using c(4) by (simp_all add: identity_setup_def)
    obtain proof64 where "composeIdentityProof E i (Some (JStr sid)) ?ch (encC2S ?keys) (dr_proofNonce r) = Inr proof64"
      "proof64 \<noteq> []" "openIdentityProof E (Some (JStr proof64)) (encC2S ?keys) sid
        = Inr (Some (identity_block E i (ed_sign (e_prims E) (identityInput E (Some (JStr sid)) ?ch) (ic_longTermSeed i))))"
      by (rule identity_proof_ok [OF env(1-4) len i])
    then show ?thesis using that [of proof64] Some by simp
  qed
  let ?c' = "dropEphemeral c\<lparr>hc_sessionId := Some (JStr sid), hc_sessionKeys := Some ?keys,
     hc_proofKeyId := Some (JStr (sip_key_id idp)), hc_proofSignature := Some (JStr (sip_signature idp))\<rparr>"
  have "onResponse E r (marshalE E (JObj resp)) c
      = (?c', Inr (marshalE E (JObj (buildConfirm (Some (JStr sid)) (e_enc64 E ?ch) proof64))))"
    using f by (simp add: onResponse_def c rk Let_def ch pf(1) [folded ch])
  from that [OF this _ _ _ pf(2)] show ?thesis by (simp add: dropEphemeral_def)
qed

section \<open>The server's ACCEPTED\<close>

lemma confirm_fields:
  fixes m :: "'n obj"
  assumes "m = buildConfirm (Some (JStr sid)) hash64 proof64"
  shows "plain (JObj m)" "fld (wire m) ''type'' = Inr (Some (str ''SEMP_HANDSHAKE''))"
    "fld (wire m) ''step'' = Inr (Some (str ''confirm''))"
    "fld (wire m) ''confirmation_hash'' = Inr (Some (JStr hash64))"
    "fld (wire m) ''identity_proof'' = Inr (Some (JStr proof64))"
proof -
  show p: "plain (JObj m)" by (simp add: assms buildConfirm_def opt_field_def)
  then have d: "distinct (map fst m)" by simp
  show "fld (wire m) ''type'' = Inr (Some (str ''SEMP_HANDSHAKE''))"
    "fld (wire m) ''step'' = Inr (Some (str ''confirm''))"
    "fld (wire m) ''confirmation_hash'' = Inr (Some (JStr hash64))"
    "fld (wire m) ''identity_proof'' = Inr (Some (JStr proof64))"
    by (simp_all add: fld_wire [OF d], simp_all add: assms buildConfirm_def opt_field_def)
qed

lemma accepted_fields:
  fixes acc :: "'n obj"
  assumes d: "distinct (map fst acc)"
    and r: "\<forall>k. k \<noteq> ''server_signature'' \<longrightarrow> map_of acc (js k) = map_of (accepted_json num sid ttl perms ticket ext) (js k)"
  shows "fld (wire acc) ''type'' = Inr (Some (str ''SEMP_HANDSHAKE''))"
    "fld (wire acc) ''step'' = Inr (Some (str ''accepted''))"
    "fld (wire acc) ''session_id'' = Inr (Some (JStr sid))"
    "attr (wire acc) ''session_id'' = Some (JStr sid)"
    "attr (wire acc) ''permissions'' = Some (JArr (map JStr perms))"
  using r by (simp_all add: fld_wire [OF d] objOf_wire [OF d] accepted_json_def)

lemma plain_accepted: "plain (JObj ext) \<Longrightarrow> plain (JObj (accepted_json num sid ttl perms ticket ext))"
  by (simp add: accepted_json_def opt_field_def plain_parts split: option.splits)

lemma block_fields:
  "fld (Some (identity_block E i sig)) ''client_identity'' = Inr (Some (JStr (ic_clientIdentity i)))"
  "fld (Some (identity_block E i sig)) ''client_long_term_key_id'' = Inr (Some (JStr (ic_longTermKeyId i)))"
  "fld (Some (identity_block E i sig)) ''identity_signature'' = Inr (Some (JStr (e_enc64 E sig)))"
  by (simp_all add: identity_block_def fld_of_obj)

text \<open>Opening the proof records the identity of the client, or nothing.\<close>

lemma openClientIdentity_ok:
  fixes E :: "'n env"
  assumes "scheme_ok (plat E) seed dpub" and "sv_cfg s = cfg" and idn: "identity_setup E cc r cfg"
    and proof64: "case cc_identity cc of
        None \<Rightarrow> proof64 = []
      | Some i \<Rightarrow> proof64 \<noteq> [] \<and> openIdentityProof E (Some (JStr proof64)) (encC2S keys) (sv_sessionId s)
          = Inr (Some (identity_block E i (ed_sign (e_prims E) (identityInput E (Some (JStr (sv_sessionId s))) ch)
              (ic_longTermSeed i))))"
  obtains t block where "openClientIdentity E message s keys ch (Some (JStr proof64)) s = (t, Inr block)"
    "sv_cfg t = cfg" "sv_sessionId t = sv_sessionId s"
    "sv_clientIdentity t = (case cc_identity cc of None \<Rightarrow> sv_clientIdentity s
       | Some i \<Rightarrow> Some (JStr (ic_clientIdentity i)))"
proof (cases "cc_identity cc")
  case None
  then show ?thesis using that [of s None] proof64 assms(2) by (simp add: openClientIdentity_def)
next
  case (Some i)
  let ?sig = "ed_sign (e_prims E) (identityInput E (Some (JStr (sv_sessionId s))) ch) (ic_longTermSeed i)"
  let ?block = "Some (identity_block E i ?sig)"
  have p: "proof64 \<noteq> []" "openIdentityProof E (Some (JStr proof64)) (encC2S keys) (sv_sessionId s) = Inr ?block"
    using proof64 Some by simp_all
  have dec: "b64 E (Some (JStr (e_enc64 E b))) = Inr b" for b
    using assms(1) by (simp add: scheme_ok_def plat_def b64_def)
  have check: "checkIdentity E message s ch ?block s = (s, Inr ())"
  proof (cases "sc_lookupClientIdentityKey cfg")
    case None
    then show ?thesis by (simp add: checkIdentity_def assms(2))
  next
    case lk: (Some lookup)
    then obtain pk where pk: "lookup (Some (JStr (ic_clientIdentity i))) (Some (JStr (ic_longTermKeyId i))) = Inr pk"
      "\<forall>m. verify (e_prims E) pk (ed_sign (e_prims E) m (ic_longTermSeed i)) m"
      using idn Some unfolding identity_setup_def by blast
    then show ?thesis by (simp add: checkIdentity_def assms(2) lk block_fields callback_def dec)
  qed
  have "openClientIdentity E message s keys ch (Some (JStr proof64)) s =
    (s\<lparr>sv_clientIdentity := Some (JStr (ic_clientIdentity i)),
       sv_clientLongTermKeyId := Some (JStr (ic_longTermKeyId i))\<rparr>, Inr (Some ?block))"
    using p by (simp add: openClientIdentity_def block_fields
        bindX_run [of "checkIdentity E message s ch ?block" s, OF check])
  then show ?thesis using that Some assms(2) by simp
qed

lemma onConfirm_ok:
  fixes E :: "'n env"
  assumes env: "parse_ok E" "scheme_ok (plat E) (sc_seed cfg) dpub" "length (sc_seed cfg) = 32"
      "\<And>b. b \<noteq> [] \<Longrightarrow> e_enc64 E b \<noteq> []"
    and s: "sv_cfg s = cfg" "sv_initCanonical s = Some initB" "sv_respCanonical s = Some respB"
      "sv_sessionKeys s = Some keys" "sv_idProof s = Some idp" "callbacks_ok cfg" "sv_clientIdentity s = None"
    and idn: "identity_setup E cc r cfg"
    and m: "m = buildConfirm (Some (JStr (sv_sessionId s)))
        (e_enc64 E (confirmationHash (e_prims E) initB respB)) proof64"
    and proof64: "case cc_identity cc of
        None \<Rightarrow> proof64 = []
      | Some i \<Rightarrow> proof64 \<noteq> [] \<and> openIdentityProof E (Some (JStr proof64)) (encC2S keys) (sv_sessionId s)
          = Inr (Some (identity_block E i (ed_sign (e_prims E) (identityInput E (Some (JStr (sv_sessionId s)))
              (confirmationHash (e_prims E) initB respB)) (ic_longTermSeed i))))"
  obtains s' acc ticket ext ss where
    "onConfirm E message (marshalE E (JObj m)) s = (s', Inr (marshalE E (JObj acc)))"
    "plain (JObj acc)" "verifyServerSignature E (wire acc) ''server_signature'' dpub = Inr ()"
    "\<forall>k. k \<noteq> ''server_signature'' \<longrightarrow> map_of acc (js k) =
       map_of (accepted_json (e_num E) (sv_sessionId s) (sc_sessionTTL cfg) (sc_permissions cfg) ticket ext) (js k)"
    "sv_finalSession s' = Some ss" "ss_keys ss = keys" "ss_sessionId ss = sv_sessionId s"
    "ss_permissions ss = sc_permissions cfg" "sv_ephPriv s' = None"
    "ss_clientIdentity ss = JStr (case cc_identity cc of None \<Rightarrow> [] | Some i \<Rightarrow> ic_clientIdentity i)"
proof -
  let ?ch = "confirmationHash (e_prims E) initB respB"
  note f = confirm_fields [OF m]
  have p: "parseFrame E (marshalE E (JObj m)) = Inr (wire m)" by (rule parse_wire [OF env(1) f(1)])
  have dec: "b64 E (Some (JStr (e_enc64 E b))) = Inr b" for b
    using env(2) by (simp add: scheme_ok_def plat_def b64_def)
  obtain t block where op: "openClientIdentity E message s keys ?ch (Some (JStr proof64)) s = (t, Inr block)"
    "sv_cfg t = cfg" "sv_sessionId t = sv_sessionId s"
    "sv_clientIdentity t = (case cc_identity cc of None \<Rightarrow> sv_clientIdentity s
       | Some i \<Rightarrow> Some (JStr (ic_clientIdentity i)))"
    by (rule openClientIdentity_ok [OF env(2) s(1) idn proof64])
  note run = bindX_run [of "openClientIdentity E message s keys ?ch (Some (JStr proof64))" s, OF op(1)]
  obtain ticket where tk: "(case sc_resumptionTicket cfg of None \<Rightarrow> Inr None
      | Some f \<Rightarrow> bindR (callback (f keys)) (\<lambda>t. Inr (Some t))) = (Inr ticket :: 'n hs_error + resumption_ticket option)"
  proof (cases "sc_resumptionTicket cfg")
    case (Some g)
    then obtain t where "g keys = Inr t" using s(6) unfolding callbacks_ok_def by blast
    then show ?thesis using that [of "Some t"] Some by (simp add: callback_def)
  qed (use that in simp)
  define ext where "ext = (case sc_acceptedExtensions cfg of None \<Rightarrow> [] | Some x \<Rightarrow> x)"
  have "plain (JObj ext)" using s(6) by (auto simp: ext_def callbacks_ok_def split: option.splits)
  from plain_accepted [OF this] have pa: "plain (JObj (accepted_json (e_num E) (sv_sessionId s) (sc_sessionTTL cfg)
      (sc_permissions cfg) ticket ext))" .
  obtain acc where acc: "signMessage E (accepted_json (e_num E) (sv_sessionId s) (sc_sessionTTL cfg)
      (sc_permissions cfg) ticket ext) (sc_seed cfg) = Inr acc" "plain (JObj acc)"
    "verifyServerSignature E (wire acc) ''server_signature'' dpub = Inr ()"
    "\<forall>k. k \<noteq> ''server_signature'' \<longrightarrow> map_of acc (js k) =
       map_of (accepted_json (e_num E) (sv_sessionId s) (sc_sessionTTL cfg) (sc_permissions cfg) ticket ext) (js k)"
    by (rule signMessage_wire [OF env(1-3) pa env(4)])
  have nv: "sc_verifyIdentityProof cfg = None" using s(6) by (simp add: callbacks_ok_def)
  let ?ss = "\<lparr>ss_sessionId = sv_sessionId t, ss_sessionTTL = sc_sessionTTL cfg,
     ss_permissions = sc_permissions cfg, ss_keys = keys, ss_proofKeyId = sip_key_id idp,
     ss_proofSignature = sip_signature idp, ss_extensions = ext, ss_ticket = ticket,
     ss_clientIdentity = coalesce (sv_clientIdentity t) (JStr []),
     ss_clientLongTermKeyId = coalesce (sv_clientLongTermKeyId t) (JStr [])\<rparr>"
  let ?s' = "dropServerEphemeral (t\<lparr>sv_finalSession := Some ?ss\<rparr>)"
  have "onConfirm E message (marshalE E (JObj m)) s = (?s', Inr (marshalE E (JObj acc)))"
    using acc(1) by (simp add: onConfirm_def s(1-5) p f dec Let_def run nv tk ext_def [symmetric] op(2)
        buildAccepted_def)
  from that [OF this acc(2-4), of ?ss] show ?thesis
    using op s(7) by (simp add: dropServerEphemeral_def split: option.splits)
qed

section \<open>Agreement\<close>

text \<open>An honest setting: the platform does what is documented of it, the client trusts the server's domain
  key, the configurations are accepted by the constructors, and the suite of the client is the one the
  server picks from the client's offer.\<close>

definition honest_setting ::
  "'n env \<Rightarrow> client_config \<Rightarrow> draws \<Rightarrow> 'n server_config \<Rightarrow> server_draws \<Rightarrow> bool"
where
  "honest_setting E cc r cfg d \<longleftrightarrow>
     parse_ok E \<and> prims_ok (e_prims E) \<and> aead_ok (e_prims E) \<and> (\<forall>b. b \<noteq> [] \<longrightarrow> e_enc64 E b \<noteq> []) \<and>
     scheme_ok (plat E) (sc_seed cfg) (cc_serverDomainPub cc) \<and> length (sc_seed cfg) = 32 \<and>
     cc_suite cc \<in> {baseSuite, pqSuite} \<and> cc_serverDomainPub cc \<noteq> [] \<and> cc_transport cc \<noteq> [] \<and>
     (case cc_ephemeralPriv cc of None \<Rightarrow> True | Some p \<Rightarrow> length p = 32 \<and> cc_suite cc = baseSuite) \<and>
     identity_setup E cc r cfg \<and> sc_domain cfg \<noteq> [] \<and> callbacks_ok cfg \<and> server_keys_ok cfg \<and>
     List.find (\<lambda>s. s \<in> set (encryption_algorithms (cc_capabilities cc))) (sc_supportedSuites cfg)
       = Some (cc_suite cc) \<and>
     length (dr_x25519 r) = 32 \<and> length (sd_x25519 d) = 32 \<and> length (sd_kemCoins d) = 32"

lemma honest_run:
  fixes E :: "'n env"
  assumes "honest_setting E cc r cfg d"
  shows "\<exists>c0 c1 c2 c3 s0 s1 s2 initB respB confB accB cs ss.
     newClient cc = Inr c0 \<and> newServer cfg = Inr s0 \<and>
     clientInit E r c0 = (c1, Inr initB) \<and> onInit E d initB s0 = (s1, Inr respB) \<and>
     onResponse E r respB c1 = (c2, Inr confB) \<and> onConfirm E message confB s1 = (s2, Inr accB) \<and>
     onAccepted E accB c2 = (c3, Inr ()) \<and> clientSession c3 = Inr cs \<and> serverSession s2 = Inr ss \<and>
     hs_keys cs = ss_keys ss \<and> hs_sessionId cs = Some (JStr (ss_sessionId ss)) \<and>
     hs_permissions cs = Some (JArr (map JStr (ss_permissions ss))) \<and>
     ss_clientIdentity ss = JStr (case cc_identity cc of None \<Rightarrow> [] | Some i \<Rightarrow> ic_clientIdentity i) \<and>
     sv_ephPriv s2 = None \<and> hc_ephPriv c3 = None"
proof -
  have H: "parse_ok E" "prims_ok (e_prims E)" "aead_ok (e_prims E)" "\<And>b. b \<noteq> [] \<Longrightarrow> e_enc64 E b \<noteq> []"
    "scheme_ok (plat E) (sc_seed cfg) (cc_serverDomainPub cc)" "length (sc_seed cfg) = 32"
    "cc_suite cc \<in> {baseSuite, pqSuite}" "cc_serverDomainPub cc \<noteq> []" "cc_transport cc \<noteq> []"
    "case cc_ephemeralPriv cc of None \<Rightarrow> True | Some p \<Rightarrow> length p = 32 \<and> cc_suite cc = baseSuite"
    "identity_setup E cc r cfg" "sc_domain cfg \<noteq> []" "callbacks_ok cfg" "server_keys_ok cfg"
    "List.find (\<lambda>s. s \<in> set (encryption_algorithms (cc_capabilities cc))) (sc_supportedSuites cfg) = Some (cc_suite cc)"
    "length (dr_x25519 r) = 32" "length (sd_x25519 d) = 32" "length (sd_kemCoins d) = 32"
    using assms by (simp_all add: honest_setting_def)
  obtain c0 :: "'n client" where c0: "newClient cc = Inr c0" "hc_cfg c0 = cc" "hc_initCanonical c0 = None"
    "hc_ephPriv c0 = cc_ephemeralPriv cc" using H(7-9) by (auto simp: newClient_def)
  have "sc_supportedSuites cfg \<noteq> []" "sc_seed cfg \<noteq> []" using H(6,15) by auto
  then obtain s0 where s0: "newServer cfg = Inr s0" "sv_cfg s0 = cfg" "sv_initCanonical s0 = None"
    "sv_clientIdentity s0 = None" using H(12) by (auto simp: newServer_def)
  have pin: "cc_suite (hc_cfg c0) = pqSuite \<Longrightarrow> hc_ephPriv c0 = None" "\<And>p. hc_ephPriv c0 = Some p \<Longrightarrow> length p = 32"
    using H(10) by (auto simp: c0 split: option.splits)
  obtain priv pub nonce kid i where i: "i = buildInit (e_num E) (e_enc64 E nonce) (cc_transport (hc_cfg c0))
       \<lparr>kr_algorithm = cc_suite (hc_cfg c0), kr_key = e_enc64 E pub, kr_key_id = kid\<rparr> (cc_capabilities (hc_cfg c0))"
    "clientInit E r c0 = (c0\<lparr>hc_ephPriv := Some priv, hc_ephPub := Some pub, hc_nonce := Some nonce,
       hc_initCanonical := Some (marshalE E (JObj i))\<rparr>, Inr (marshalE E (JObj i)))"
    "key_pair (e_prims E) (cc_suite (hc_cfg c0)) priv pub"
    by (rule clientInit_ok [OF H(2,16) c0(3) pin])
  let ?c1 = "c0\<lparr>hc_ephPriv := Some priv, hc_ephPub := Some pub, hc_nonce := Some nonce,
       hc_initCanonical := Some (marshalE E (JObj i))\<rparr>"
  have c1: "cc_suite (hc_cfg ?c1) = cc_suite cc" "hc_ephPub ?c1 = Some pub" "hc_cfg ?c1 = cc"
    "hc_initCanonical ?c1 = Some (marshalE E (JObj i))" "hc_ephPriv ?c1 = Some priv" "hc_nonce ?c1 = Some nonce"
    by (simp_all add: c0)
  obtain s1 resp serverEph serverNonce shared skid idp where s1:
    "onInit E d (marshalE E (JObj i)) s0 = (s1, Inr (marshalE E (JObj resp)))" "plain (JObj resp)"
    "verifyServerSignature E (wire resp) ''server_signature'' (cc_serverDomainPub cc) = Inr ()"
    "\<forall>k. k \<noteq> ''server_signature'' \<longrightarrow> map_of resp (js k) = map_of (response_json (e_num E)
       \<lparr>ri_session_id = sd_sessionId d, ri_server_nonce = e_enc64 E serverNonce,
        ri_ephemeral = \<lparr>kr_algorithm = cc_suite cc, kr_key = e_enc64 E serverEph, kr_key_id = skid\<rparr>,
        ri_identity_proof = idp,
        ri_negotiated = \<lparr>ng_algorithm = cc_suite cc, ng_extensions = [], ng_max_envelope_size = None\<rparr>\<rparr>
       (JStr (e_enc64 E nonce))) (js k)"
    "clientShared E ?c1 priv serverEph = Inr shared"
    "sv_cfg s1 = cfg" "sv_sessionId s1 = sd_sessionId d"
    "sv_initCanonical s1 = Some (marshalE E (JObj i))" "sv_respCanonical s1 = Some (marshalE E (JObj resp))"
    "sv_sessionKeys s1 = Some (deriveSessionKeysWithResumption (e_prims E) (e_utf8 E) shared nonce serverNonce)"
    "sv_idProof s1 = Some idp" "sv_clientIdentity s1 = sv_clientIdentity s0"
    by (rule onInit_ok [OF H(1,5,6,2,4) s0(3,2) H(13,14,17,18) i(1)[unfolded c0(2)] H(15) i(3)[unfolded c0(2)] c1(1,2)])
  let ?keys = "deriveSessionKeysWithResumption (e_prims E) (e_utf8 E) shared nonce serverNonce"
  let ?ch = "confirmationHash (e_prims E) (marshalE E (JObj i)) (marshalE E (JObj resp))"
  have cs: "scheme_ok (plat E) (sc_seed cfg) (cc_serverDomainPub (hc_cfg ?c1))"
    "identity_setup E (hc_cfg ?c1) r cfg"
    "verifyServerSignature E (wire resp) ''server_signature'' (cc_serverDomainPub (hc_cfg ?c1)) = Inr ()"
    using H(5,11) s1(3) by (simp_all only: c1(3))
  obtain c2 proof64 where c2: "onResponse E r (marshalE E (JObj resp)) ?c1 = (c2, Inr (marshalE E (JObj
       (buildConfirm (Some (JStr (sd_sessionId d))) (e_enc64 E ?ch) proof64))))"
    "hc_sessionKeys c2 = Some ?keys" "hc_sessionId c2 = Some (JStr (sd_sessionId d))"
    "hc_ephPriv c2 = None \<and> cc_serverDomainPub (hc_cfg c2) = cc_serverDomainPub (hc_cfg ?c1)"
    "(case cc_identity (hc_cfg ?c1) of
        None \<Rightarrow> proof64 = []
      | Some i \<Rightarrow> proof64 \<noteq> [] \<and> openIdentityProof E (Some (JStr proof64)) (encC2S ?keys) (sd_sessionId d)
          = Inr (Some (identity_block E i (ed_sign (e_prims E) (identityInput E (Some (JStr (sd_sessionId d))) ?ch)
              (ic_longTermSeed i)))))"
    by (rule onResponse_ok [OF H(1) cs(1) H(3,4,2) c1(4-6) cs(2) s1(2) cs(3) s1(4,5)])
  have n0: "sv_clientIdentity s1 = None" using s1(12) s0(4) by simp
  have pf: "case cc_identity cc of None \<Rightarrow> proof64 = []
      | Some i \<Rightarrow> proof64 \<noteq> [] \<and> openIdentityProof E (Some (JStr proof64)) (encC2S ?keys) (sv_sessionId s1)
          = Inr (Some (identity_block E i (ed_sign (e_prims E) (identityInput E (Some (JStr (sv_sessionId s1))) ?ch)
              (ic_longTermSeed i))))"
    using c2(5) by (simp only: c1(3) s1(7))
  obtain s2 acc ticket ext ss where s2:
    "onConfirm E message (marshalE E (JObj (buildConfirm (Some (JStr (sv_sessionId s1))) (e_enc64 E ?ch) proof64))) s1
       = (s2, Inr (marshalE E (JObj acc)))"
    "plain (JObj acc)" "verifyServerSignature E (wire acc) ''server_signature'' (cc_serverDomainPub cc) = Inr ()"
    "\<forall>k. k \<noteq> ''server_signature'' \<longrightarrow> map_of acc (js k) =
       map_of (accepted_json (e_num E) (sv_sessionId s1) (sc_sessionTTL cfg) (sc_permissions cfg) ticket ext) (js k)"
    "sv_finalSession s2 = Some ss" "ss_keys ss = ?keys" "ss_sessionId ss = sv_sessionId s1"
    "ss_permissions ss = sc_permissions cfg" "sv_ephPriv s2 = None"
    "ss_clientIdentity ss = JStr (case cc_identity cc of None \<Rightarrow> [] | Some i \<Rightarrow> ic_clientIdentity i)"
    by (rule onConfirm_ok [OF H(1,5,6,4) s1(6,8-11) H(13) n0 H(11) refl pf])
  have da: "distinct (map fst acc)" using s2(2) by simp
  note af = accepted_fields [OF da s2(4)]
  have "checkAccepted E c2 (marshalE E (JObj acc)) = Inr (wire acc)"
    using af(1-3) s2(3) c2(3,4) s1(7)
    by (simp add: checkAccepted_def parse_wire [OF H(1) s2(2)] c1(3))
  then obtain c3 cs where c3: "onAccepted E (marshalE E (JObj acc)) c2 = (c3, Inr ())" "clientSession c3 = Inr cs"
    "hs_keys cs = ?keys" "hs_sessionId cs = attr (wire acc) ''session_id''"
    "hs_permissions cs = attr (wire acc) ''permissions''" "hc_ephPriv c3 = None"
    using c2(2,4) by (auto simp: onAccepted_def clientSession_def acceptedSession_def Let_def)
  show ?thesis
    using c0(1) s0(1) i(2) s1(1) c2(1) s2(1) c3 s2(5-10) af(4,5) s1(7) c1(3)
    by (intro exI conjI) (auto simp: serverSession_def)
qed

text \<open>C1. Agreement: in an honest setting the four messages are built and accepted, and both sides end with
  a session: the same id, the same keys and the permissions the server grants, the client's identity
  as the client configured it; neither side keeps its ephemeral private key.\<close>

theorem honest_handshake:
  fixes E :: "'n env"
  assumes "honest_setting E cc r cfg d"
  shows "\<exists>c0 c1 c2 c3 s0 s1 s2 initB respB confB accB cs ss.
     newClient cc = Inr c0 \<and> newServer cfg = Inr s0 \<and>
     clientInit E r c0 = (c1, Inr initB) \<and> onInit E d initB s0 = (s1, Inr respB) \<and>
     onResponse E r respB c1 = (c2, Inr confB) \<and> onConfirm E message confB s1 = (s2, Inr accB) \<and>
     onAccepted E accB c2 = (c3, Inr ()) \<and> clientSession c3 = Inr cs \<and> serverSession s2 = Inr ss \<and>
     hs_keys cs = ss_keys ss \<and> hs_sessionId cs = Some (JStr (ss_sessionId ss)) \<and>
     hs_permissions cs = Some (JArr (map JStr (ss_permissions ss))) \<and>
     ss_clientIdentity ss = JStr (case cc_identity cc of None \<Rightarrow> [] | Some i \<Rightarrow> ic_clientIdentity i) \<and>
     sv_ephPriv s2 = None \<and> hc_ephPriv c3 = None"
  by (rule honest_run [OF assms])

section \<open>A run\<close>

definition demo_cc :: "jstr \<Rightarrow> client_config" where
  "demo_cc suite = \<lparr>cc_suite = suite, cc_capabilities = defaultClientCapabilities, cc_transport = js ''ws'',
     cc_serverDomainPub = zeros 32, cc_ephemeralPriv = None, cc_nonce = None,
     cc_identity = Some \<lparr>ic_clientId = js ''c'', ic_clientIdentity = js ''alice'', ic_longTermSeed = zeros 32,
        ic_longTermKeyId = js ''k'', ic_proofNonce = None\<rparr>\<rparr>"

definition demo_draws :: draws where
  "demo_draws = \<lparr>dr_x25519 = replicate 32 1, dr_kemSeed = [], dr_nonce = [1], dr_proofNonce = zeros 12, dr_resumeNonce = [3]\<rparr>"

definition demo_sc :: "jstr \<Rightarrow> int server_config" where
  "demo_sc suite = \<lparr>sc_seed = zeros 32, sc_domain = js ''d'', sc_supportedSuites = [suite],
     sc_identityProofSignature = (\<lambda>k n m. Inr (js ''s'')), sc_verifyIdentityProof = None,
     sc_lookupClientIdentityKey = Some (\<lambda>who kid. Inr (zeros 32)), sc_permissions = [js ''send''],
     sc_sessionTTL = 300, sc_resumptionTicket = None, sc_ephemeralPriv = None, sc_hybridRandomness = None,
     sc_nonce = None, sc_acceptedExtensions = None\<rparr>"

definition demo_sd :: server_draws where
  "demo_sd = \<lparr>sd_sessionId = js ''S1'', sd_nonce = [2], sd_x25519 = replicate 32 5, sd_kemCoins = replicate 32 7\<rparr>"

lemma demo_env_parts [simp]: "e_prims demo_env = demo_prims" "e_enc64 demo_env = map ucast" "e_dec64 demo_env = map ucast"
  by (simp_all add: demo_env_def)

lemma demo_prims_all: "prims_ok demo_prims" "aead_ok demo_prims"
proof -
  show "prims_ok demo_prims" unfolding prims_ok_def
    by (intro conjI demo_prims_ok) (auto simp: prims_total_def demo_prims_def)
  show "aead_ok demo_prims" by (simp add: aead_ok_def demo_prims_def)
qed

lemma demo_honest:
  "suite \<in> {baseSuite, pqSuite} \<Longrightarrow> honest_setting demo_env (demo_cc suite) demo_draws (demo_sc suite) demo_sd"
proof -
  assume s: "suite \<in> {baseSuite, pqSuite}"
  have "\<forall>m. verify demo_prims (zeros 32) (ed_sign demo_prims m (zeros 32)) m"
    by (simp add: verify_def demo_prims_def)
  then have "identity_setup demo_env (demo_cc suite) demo_draws (demo_sc suite)"
    by (simp add: identity_setup_def demo_cc_def demo_draws_def demo_sc_def)
  moreover have "callbacks_ok (demo_sc suite)" "server_keys_ok (demo_sc suite)"
    by (simp_all add: callbacks_ok_def server_keys_ok_def demo_sc_def)
  moreover have "scheme_ok (plat demo_env) (sc_seed (demo_sc suite)) (cc_serverDomainPub (demo_cc suite))"
    using demo_env_scheme [of "zeros 32"] by (simp add: demo_sc_def demo_cc_def)
  moreover have "List.find (\<lambda>s. s \<in> set (encryption_algorithms (cc_capabilities (demo_cc suite))))
      (sc_supportedSuites (demo_sc suite)) = Some (cc_suite (demo_cc suite))"
    using s by (auto simp: demo_sc_def demo_cc_def defaultClientCapabilities_def)
  ultimately show ?thesis
    using s demo_parse_ok demo_prims_all
    by (auto simp: honest_setting_def, simp_all add: demo_cc_def demo_sc_def demo_draws_def demo_sd_def)
qed

theorem honest_handshake_witness:
  "\<exists>c0 c1 c2 c3 s0 s1 s2 initB respB confB accB cs ss.
     newClient (demo_cc pqSuite) = Inr c0 \<and> newServer (demo_sc pqSuite) = Inr s0 \<and>
     clientInit demo_env demo_draws c0 = (c1, Inr initB) \<and> onInit demo_env demo_sd initB s0 = (s1, Inr respB) \<and>
     onResponse demo_env demo_draws respB c1 = (c2, Inr confB) \<and>
     onConfirm demo_env (\<lambda>_. []) confB s1 = (s2, Inr accB) \<and>
     onAccepted demo_env accB c2 = (c3, Inr ()) \<and> clientSession c3 = Inr cs \<and> serverSession s2 = Inr ss \<and>
     hs_keys cs = ss_keys ss \<and> ss_clientIdentity ss = str ''alice''"
proof -
  have "honest_setting demo_env (demo_cc pqSuite) demo_draws (demo_sc pqSuite) demo_sd" by (rule demo_honest) simp
  from honest_handshake [OF this, of "\<lambda>_. []"] show ?thesis by (simp add: demo_cc_def) blast
qed

text \<open>The states of that run are reachable.\<close>

lemma run_reachable:
  assumes "newClient cc = Inr c0" "newServer cfg = Inr s0" "clientInit E r c0 = (c1, x1)"
    and "onInit E d initB s0 = (s1, y1)" "onResponse E r respB c1 = (c2, x2)"
    and "onConfirm E message confB s1 = (s2, y2)" "onAccepted E accB c2 = (c3, x3)"
  shows "client_reach E cc c3" "server_reach E message cfg s2"
proof -
  have "client_reach E cc (clientStep E (CAccepted accB) (clientStep E (CResponse r respB) (clientStep E (CInit r) c0)))"
    by (intro client_reach.step client_reach.start assms(1))
  then show "client_reach E cc c3" using assms by simp
  have "server_reach E message cfg (serverStep E message (SConfirm confB) (serverStep E message (SInit d initB) s0))"
    by (intro server_reach.step server_reach.start assms(2))
  then show "server_reach E message cfg s2" using assms by simp
qed

lemma demo_sessions:
  "\<exists>c s cs ss. client_reach demo_env (demo_cc baseSuite) c \<and> clientSession c = Inr cs \<and>
     server_reach demo_env (\<lambda>_. []) (demo_sc baseSuite) s \<and> serverSession s = Inr ss \<and> ss_clientIdentity ss = str ''alice''"
proof -
  have "honest_setting demo_env (demo_cc baseSuite) demo_draws (demo_sc baseSuite) demo_sd" by (rule demo_honest) simp
  from honest_run [OF this, of "\<lambda>_. []"] show ?thesis
    using run_reachable [of "demo_cc baseSuite" _ "demo_sc baseSuite" _ demo_env demo_draws _ _ demo_sd]
    by (simp add: demo_cc_def [of baseSuite]) (metis (no_types, lifting))
qed

theorem client_session_authentic_witness:
  "\<exists>c s acc. client_reach demo_env (demo_cc baseSuite) c \<and> clientSession c = Inr s \<and>
     signed_message demo_env (zeros 32) ''accepted'' acc \<and> hs_sessionId s = attr acc ''session_id''"
proof -
  from demo_sessions obtain c cs where c: "client_reach demo_env (demo_cc baseSuite) c" "clientSession c = Inr cs" by blast
  have "cc_serverDomainPub (demo_cc baseSuite) = zeros 32" by (simp add: demo_cc_def)
  with client_session_authentic [OF c] c show ?thesis by metis
qed


end
