(* ===== verification/SessionRekey.thy ===== *)
theory SessionRekey
  imports SessionProofs HandshakeAgreement
begin

text \<open>
  A rekey between two honest ends. The transport is an interface: what the drivers need of it is a
  locale, which the in-process transport of \<^verbatim>\<open>memory.ts\<close> provides at both of its ends.
\<close>

declare sorted_form.simps(2) [simp del]

section \<open>Sealing and opening\<close>

definition keys_sized :: "session_keys \<Rightarrow> bool" where
  "keys_sized k \<longleftrightarrow> length (encC2S k) = 32 \<and> length (encS2C k) = 32"

lemma derived_sized: "prims_ok C \<Longrightarrow> keys_sized (deriveRekeyKeys C u s a b)"
  by (simp add: keys_sized_def deriveRekeyKeys_def deriveSessionKeys_def kdf_expand_def SessionKeyLength_def
      prims_ok_def Let_def)

lemma sessionReceive_bind: "\<not> s_closed s \<Longrightarrow> bindX sessionReceive f s = f () s"
  by (simp add: sessionReceive_def bindX_def)

lemma applyRekey_bind:
  "s_keys s = Some k \<Longrightarrow> \<not> s_closed s \<Longrightarrow> bindX (applyRekey sid keys) f s =
     f () (s\<lparr>s_dropped := s_dropped s @ [zeroKeys k], s_keys := Some keys, s_sessionId := sid\<rparr>)"
  by (simp add: applyRekey_def bindX_def)

definition sealed_json :: "'n env \<Rightarrow> jstr \<Rightarrow> jstr \<Rightarrow> bytes \<Rightarrow> bytes \<Rightarrow> 'n obj" where
  "sealed_json E d sid n ct =
     [(js ''type'', str ''SEMP_REKEY''), (js ''sealed'', JBool True), (js ''direction'', JStr d),
      (js ''version'', str ''1.0.0''), (js ''session_id'', JStr sid),
      (js ''nonce'', JStr (e_enc64 E n)), (js ''ciphertext'', JStr (e_enc64 E ct))]"

lemma hsLift_Inr [simp]: "hsLift (Inr x) = ret x"
  by (simp add: hsLift_def fun_eq_iff)

lemma rekeyKeys_bind:
  assumes "pickRekeyKeys d k = Some x" "s_keys s = Some k"
  shows "bindX (rekeyKeys (Some (JStr d))) f s = f x s"
proof -
  have "d = c2s \<or> d = s2c" using assms(1) by (auto simp: pickRekeyKeys_def split: if_splits)
  with assms have "rekeyKeys (Some (JStr d)) s = (s, Inr x)"
    by (auto simp: rekeyKeys_def sessionKeys_def bindX_def)
  then show ?thesis by (rule bindX_run)
qed

lemma seal_open:
  fixes E :: "'n env" and s :: "('n, 't) session"
  assumes env: "parse_ok E" "aead_ok (e_prims E)" "\<And>b. e_dec64 E (e_enc64 E b) = b"
    and s: "s_keys s = Some k" "s_sessionId s = Some (JStr sid)" "keys_sized k" and n: "length n = 12"
    and d: "d = c2s \<or> d = s2c"
  obtains ct where "sealRekeyMessage E d p n s = (s, Inr (sealed_json E d sid n ct))"
    "\<forall>t :: ('n, 'u) session. s_keys t = Some k \<and> s_sessionId t = Some (JStr sid) \<longrightarrow>
       openRekeyMessage E (Some (JObj (sealed_json E d sid n ct))) t = (t, Inr p)"
proof -
  obtain ek mk where pk: "pickRekeyKeys d k = Some (ek, mk)" "length ek = 32"
    using d s(3) by (auto simp: pickRekeyKeys_def keys_sized_def)
  obtain c where c: "chacha_enc (e_prims E) ek n (rekeyAAD E d (Some (JStr sid)) mk) p = Some c"
    "chacha_dec (e_prims E) ek n (rekeyAAD E d (Some (JStr sid)) mk) c = Some p"
    using env(2) pk(2) n unfolding aead_ok_def by blast
  have "sealRekeyMessage E d p n s = (s, Inr (sealed_json E d sid n c))"
    using s(2) n c(1) by (simp add: sealRekeyMessage_def rekeyKeys_bind [OF pk(1) s(1)] aeadSeal_def cr_def
        opt_field_def sealed_json_def)
  moreover have "openRekeyMessage E (Some (JObj (sealed_json E d sid n c))) t = (t, Inr p)"
    if t: "s_keys t = Some k" "s_sessionId t = Some (JStr sid)" for t :: "('n, 'u) session"
    using t(2) n c(2) env(3)
    by (simp add: openRekeyMessage_def sealed_json_def fld_def rekeyKeys_bind [OF pk(1) t(1)] b64_def aeadOpen_def cr_def)
  ultimately show ?thesis using that [of c] by blast
qed

lemma openFrame_sealed:
  assumes "parse_ok E" "plain (JObj body)"
    and "openRekeyMessage E (Some (JObj (sealed_json E d sid n ct))) t = (t, Inr (marshalE E (JObj body)))"
  shows "openFrame E d (Some (sealed_frame E (sealed_json E d sid n ct))) t = (t, Inr (wire body))"
proof -
  have "plain (JObj (sealed_json E d sid n ct))" by (simp add: sealed_json_def)
  then have "e_parse E (sealed_frame E (sealed_json E d sid n ct)) = Some (JObj (sealed_json E d sid n ct))"
    using assms(1) unfolding parse_ok_def sealed_frame_def by blast
  then have "parseFrame E (sealed_frame E (sealed_json E d sid n ct)) = Inr (Some (JObj (sealed_json E d sid n ct)))"
    by (simp add: parseFrame_def)
  moreover have "fld (Some (JObj (sealed_json E d sid n ct))) ''type'' = Inr (Some (str ''SEMP_REKEY''))"
    "fld (Some (JObj (sealed_json E d sid n ct))) ''direction'' = Inr (Some (JStr d))"
    by (simp_all add: fld_def sealed_json_def)
  ultimately show ?thesis
    using parse_wire [OF assms(1,2)] by (simp add: openFrame_def bindX_run [of "openRekeyMessage E (Some (JObj (sealed_json E d sid n ct)))" t, OF assms(3)])
qed

section \<open>The bodies\<close>

lemma rekeyInit_fields:
  fixes E :: "'n env" and pub kid nonce sid
  defines "m \<equiv> wire (rekeyInit E (Some (JStr sid)) pub kid nonce)"
  assumes "\<And>b. e_dec64 E (e_enc64 E b) = b"
  shows "plain (JObj (rekeyInit E (Some (JStr sid)) pub kid nonce))"
    "fld m ''step'' = Inr (Some (str ''rekey-init''))"
    "fld m ''rekey_nonce'' = Inr (Some (JStr (e_enc64 E nonce)))"
    "fld m ''new_ephemeral_key'' = Inr (Some (sorted_form (ephemeral_json E pub kid)))"
    "fld (Some (sorted_form (ephemeral_json E pub kid))) ''key'' = Inr (Some (JStr (e_enc64 E pub)))"
    "b64 E (Some (JStr (e_enc64 E b))) = Inr b"
proof -
  let ?b = "rekeyInit E (Some (JStr sid)) pub kid nonce"
  show p: "plain (JObj ?b)" by (simp add: rekeyInit_def opt_field_def ephemeral_json_def plain_parts)
  then have d: "distinct (map fst ?b)" by simp
  show "fld m ''step'' = Inr (Some (str ''rekey-init''))"
    "fld m ''rekey_nonce'' = Inr (Some (JStr (e_enc64 E nonce)))"
    "fld m ''new_ephemeral_key'' = Inr (Some (sorted_form (ephemeral_json E pub kid)))"
    unfolding m_def by (simp_all add: fld_wire [OF d]) (simp_all add: rekeyInit_def opt_field_def)
  show "fld (Some (sorted_form (ephemeral_json E pub kid))) ''key'' = Inr (Some (JStr (e_enc64 E pub)))"
    by (simp add: ephemeral_json_def keyref_json_def fld_sorted)
  show "b64 E (Some (JStr (e_enc64 E b))) = Inr b" by (simp add: b64_def assms(2))
qed

lemma rekeyAccepted_fields:
  fixes E :: "'n env" and pub kid nonce sid newId
  defines "m \<equiv> \<lambda>rn. wire (rekeyAccepted E (Some (JStr sid)) newId pub kid (Some (JStr rn)) nonce)"
  shows "plain (JObj (rekeyAccepted E (Some (JStr sid)) newId pub kid (Some (JStr rn)) nonce))"
    "fld (m rn) ''step'' = Inr (Some (str ''rekey-accepted''))"
    "fld (m rn) ''new_session_id'' = Inr (Some (JStr newId))"
    "fld (m rn) ''responder_nonce'' = Inr (Some (JStr (e_enc64 E nonce)))"
    "fld (m rn) ''new_ephemeral_key'' = Inr (Some (sorted_form (ephemeral_json E pub kid)))"
proof -
  let ?b = "rekeyAccepted E (Some (JStr sid)) newId pub kid (Some (JStr rn)) nonce"
  show p: "plain (JObj ?b)" by (simp add: rekeyAccepted_def opt_field_def ephemeral_json_def plain_parts)
  then have d: "distinct (map fst ?b)" by simp
  show "fld (m rn) ''step'' = Inr (Some (str ''rekey-accepted''))"
    "fld (m rn) ''new_session_id'' = Inr (Some (JStr newId))"
    "fld (m rn) ''responder_nonce'' = Inr (Some (JStr (e_enc64 E nonce)))"
    "fld (m rn) ''new_ephemeral_key'' = Inr (Some (sorted_form (ephemeral_json E pub kid)))"
    unfolding m_def by (simp_all add: fld_wire [OF d]) (simp_all add: rekeyAccepted_def opt_field_def)
qed

text \<open>An ephemeral key of 32 bytes: its public key, the fingerprint, and agreement with another one.\<close>

lemma ephemeral_ok:
  assumes "prims_ok C" "length a = 32"
  obtains p where "x25519PublicKey C a = Inr p" "x_public C a = Some p"
    "fingerprint C p = Inr (bytesToHex (sha256 C p))"
proof -
  obtain p where p: "x_public C a = Some p"
    using prims_parts(3) [OF assms(1)] assms(2) unfolding prims_total_def by (metis not_None_eq)
  have "p \<noteq> []" by (rule public_nonempty [OF prims_parts(1) [OF assms(1)] p])
  with p that show ?thesis by (simp add: x25519PublicKey_def fingerprint_def)
qed

lemma shared_ok:
  assumes "prims_ok C" "length a = 32" "x_public C a = Some pa" "x_public C b = Some pb"
  obtains z where "x25519Agree C a pb = Inr z" "x25519Agree C b pa = Inr z"
proof -
  obtain z where z: "x_shared C a pb = Some z"
    using prims_parts(3) [OF assms(1)] assms(2,4) unfolding prims_total_def by (metis not_None_eq)
  moreover have "x_shared C b pa = Some z"
    using prims_parts(1) [OF assms(1)] assms(3,4) z unfolding dh_ok_def by metis
  ultimately show ?thesis using that by (simp add: x25519Agree_def)
qed

section \<open>The interface of the transport\<close>

text \<open>
  While it is usable, a send succeeds and appends to what was sent; after a close it is not usable and
  nothing was sent by closing.
\<close>

locale transport =
  fixes T :: "'t transport_ops" and usable :: "'t \<Rightarrow> bool" and sent :: "'t \<Rightarrow> bytes list"
  assumes send_usable: "usable t \<Longrightarrow> \<exists>t'. t_send T m t = (t', Inr ()) \<and> usable t' \<and> sent t' = sent t @ [m]"
    and close_stops: "usable t \<Longrightarrow> \<not> usable (fst (t_close T t)) \<and> sent (fst (t_close T t)) = sent t"
begin

text \<open>A session that can be rekeyed.\<close>

definition ready :: "session_keys \<Rightarrow> jstr \<Rightarrow> ('n, 't) session \<Rightarrow> bool" where
  "ready k sid s \<longleftrightarrow> s_keys s = Some k \<and> s_sessionId s = Some (JStr sid) \<and> keys_sized k \<and> \<not> s_closed s \<and>
     usable (s_transport s)"

lemma sendSealed_ready:
  fixes E :: "'n env" and s :: "('n, 't) session"
  assumes env: "parse_ok E" "aead_ok (e_prims E)" "\<And>b. e_dec64 E (e_enc64 E b) = b"
    and s: "ready k sid s" and n: "length n = 12" and d: "d = c2s \<or> d = s2c" and b: "plain (JObj body)"
  obtains t f where "sendSealed E T d body n s = (s\<lparr>s_transport := t\<rparr>, Inr f)"
    "usable t" "sent t = sent (s_transport s) @ [f]"
    "\<forall>u :: ('n, 'u) session. s_keys u = Some k \<and> s_sessionId u = Some (JStr sid) \<longrightarrow>
       openFrame E d (Some f) u = (u, Inr (wire body))"
proof -
  have r: "s_keys s = Some k" "s_sessionId s = Some (JStr sid)" "keys_sized k" "\<not> s_closed s" "usable (s_transport s)"
    using s by (simp_all add: ready_def)
  obtain ct where ct: "sealRekeyMessage E d (marshalE E (JObj body)) n s = (s, Inr (sealed_json E d sid n ct))"
    "\<forall>t :: ('n, 'u) session. s_keys t = Some k \<and> s_sessionId t = Some (JStr sid) \<longrightarrow>
       openRekeyMessage E (Some (JObj (sealed_json E d sid n ct))) t = (t, Inr (marshalE E (JObj body)))"
    by (rule seal_open [OF env r(1-3) n d, where p = "marshalE E (JObj body)"])
  let ?f = "sealed_frame E (sealed_json E d sid n ct)"
  obtain t where t: "t_send T ?f (s_transport s) = (t, Inr ())" "usable t" "sent t = sent (s_transport s) @ [?f]"
    using send_usable [OF r(5)] by blast
  have send: "sessionSend T ?f s = (s\<lparr>s_transport := t\<rparr>, Inr ())"
    using r(4) t(1) by (simp add: sessionSend_def onTransport_def)
  have "sendSealed E T d body n s = (s\<lparr>s_transport := t\<rparr>, Inr ?f)"
    by (simp add: sendSealed_def Let_def bindX_run [of "sealRekeyMessage E d (marshalE E (JObj body)) n" s, OF ct(1)]
        bindX_run [of "sessionSend T ?f" s, OF send])
  moreover have "\<forall>u :: ('n, 'u) session. s_keys u = Some k \<and> s_sessionId u = Some (JStr sid) \<longrightarrow>
       openFrame E d (Some ?f) u = (u, Inr (wire body))"
    using openFrame_sealed [OF env(1) b] ct(2) by blast
  ultimately show ?thesis using t(2,3) that by blast
qed

lemma client_sends:
  fixes E :: "'n env" and A :: "('n, 't) session"
  assumes env: "parse_ok E" "aead_ok (e_prims E)" "\<And>b. e_dec64 E (e_enc64 E b) = b" "prims_ok (e_prims E)"
    and A: "ready k sid A" and r: "length (rd_ephPriv r) = 32" "length (rd_aeadNonce r) = 12"
  obtains t f pub kid where "rekeyClientSend E T r A = (A\<lparr>s_transport := t\<rparr>, Inr f)"
    "usable t" "sent t = sent (s_transport A) @ [f]" "x_public (e_prims E) (rd_ephPriv r) = Some pub"
    "\<forall>u :: ('n, 'u) session. s_keys u = Some k \<and> s_sessionId u = Some (JStr sid) \<longrightarrow>
       openFrame E (directionFromRole (s_role A)) (Some f) u =
         (u, Inr (wire (rekeyInit E (Some (JStr sid)) pub kid (rd_nonce r))))"
proof -
  obtain pub where pub: "x25519PublicKey (e_prims E) (rd_ephPriv r) = Inr pub"
    "x_public (e_prims E) (rd_ephPriv r) = Some pub"
    "fingerprint (e_prims E) pub = Inr (bytesToHex (sha256 (e_prims E) pub))"
    by (rule ephemeral_ok [OF env(4) r(1)])
  let ?b = "rekeyInit E (Some (JStr sid)) pub (bytesToHex (sha256 (e_prims E) pub)) (rd_nonce r)"
  have d: "directionFromRole (s_role A) = c2s \<or> directionFromRole (s_role A) = s2c"
    by (simp add: directionFromRole_def split: role.splits)
  obtain t f where s: "sendSealed E T (directionFromRole (s_role A)) ?b (rd_aeadNonce r) A = (A\<lparr>s_transport := t\<rparr>, Inr f)"
    "usable t" "sent t = sent (s_transport A) @ [f]"
    "\<forall>u :: ('n, 'u) session. s_keys u = Some k \<and> s_sessionId u = Some (JStr sid) \<longrightarrow>
       openFrame E (directionFromRole (s_role A)) (Some f) u = (u, Inr (wire ?b))"
    by (rule sendSealed_ready [OF env(1-3) A r(2) d rekeyInit_fields(1) [OF env(3)]])
  have "s_sessionId A = Some (JStr sid)" "\<not> s_closed A" using A by (simp_all add: ready_def)
  then have "rekeyClientSend E T r A = (A\<lparr>s_transport := t\<rparr>, Inr f)"
    using pub by (simp add: rekeyClientSend_def cr_def sessionReceive_bind
        bindX_run [of "sendSealed E T (directionFromRole (s_role A)) ?b (rd_aeadNonce r)" A, OF s(1)])
  then show ?thesis using that s(2-4) pub(2) by blast
qed

lemma server_replies:
  fixes E :: "'n env" and B :: "('n, 't) session"
  assumes env: "parse_ok E" "aead_ok (e_prims E)" "\<And>b. e_dec64 E (e_enc64 E b) = b" "prims_ok (e_prims E)"
    and B: "ready k sid B" and r: "length (rd_ephPriv r) = 32" "length (rd_aeadNonce r) = 12"
    and pub: "x_public (e_prims E) a = Some pub"
    and f: "openFrame E (directionFromRole (otherRole (s_role B))) (Some f) B =
         (B, Inr (wire (rekeyInit E (Some (JStr sid)) pub kid nonce)))"
  obtains t g z pb kb where
    "rekeyServer E T r (Some f) B = (B\<lparr>s_transport := t, s_dropped := s_dropped B @ [zeroKeys k],
       s_keys := Some (deriveRekeyKeys (e_prims E) (e_utf8 E) z nonce (rd_nonce r)),
       s_sessionId := Some (JStr (rd_sessionId r))\<rparr>, Inr g)"
    "usable t" "sent t = sent (s_transport B) @ [g]"
    "x_public (e_prims E) (rd_ephPriv r) = Some pb" "x25519Agree (e_prims E) (rd_ephPriv r) pub = Inr z"
    "\<forall>u :: ('n, 'u) session. s_keys u = Some k \<and> s_sessionId u = Some (JStr sid) \<longrightarrow>
       openFrame E (otherDirection (directionFromRole (otherRole (s_role B)))) (Some g) u =
         (u, Inr (wire (rekeyAccepted E (Some (JStr sid)) (rd_sessionId r) pb kb (Some (JStr (e_enc64 E nonce))) (rd_nonce r))))"
proof -
  obtain pb where pb: "x25519PublicKey (e_prims E) (rd_ephPriv r) = Inr pb"
    "x_public (e_prims E) (rd_ephPriv r) = Some pb"
    "fingerprint (e_prims E) pb = Inr (bytesToHex (sha256 (e_prims E) pb))"
    by (rule ephemeral_ok [OF env(4) r(1)])
  obtain z where z: "x25519Agree (e_prims E) (rd_ephPriv r) pub = Inr z"
    by (rule shared_ok [OF env(4) r(1) pb(2) pub])
  let ?d = "otherDirection (directionFromRole (otherRole (s_role B)))"
  let ?b = "rekeyAccepted E (Some (JStr sid)) (rd_sessionId r) pb (bytesToHex (sha256 (e_prims E) pb))
     (Some (JStr (e_enc64 E nonce))) (rd_nonce r)"
  have d: "?d = c2s \<or> ?d = s2c" by (simp add: otherDirection_def)
  obtain t g where s: "sendSealed E T ?d ?b (rd_aeadNonce r) B = (B\<lparr>s_transport := t\<rparr>, Inr g)"
    "usable t" "sent t = sent (s_transport B) @ [g]"
    "\<forall>u :: ('n, 'u) session. s_keys u = Some k \<and> s_sessionId u = Some (JStr sid) \<longrightarrow>
       openFrame E ?d (Some g) u = (u, Inr (wire ?b))"
    by (rule sendSealed_ready [OF env(1-3) B r(2) d rekeyAccepted_fields(1)])
  have B': "s_sessionId B = Some (JStr sid)" "\<not> s_closed B" "s_keys B = Some k" using B by (simp_all add: ready_def)
  note fields = rekeyInit_fields [OF env(3)]
  have "rekeyServer E T r (Some f) B = (B\<lparr>s_transport := t, s_dropped := s_dropped B @ [zeroKeys k],
       s_keys := Some (deriveRekeyKeys (e_prims E) (e_utf8 E) z nonce (rd_nonce r)),
       s_sessionId := Some (JStr (rd_sessionId r))\<rparr>, Inr g)"
    using B' pb z fields
    by (simp add: rekeyServer_def Let_def cr_def applyRekey_bind
        bindX_run [of "openFrame E (directionFromRole (otherRole (s_role B))) (Some f)" B, OF f]
        bindX_run [of "sendSealed E T ?d ?b (rd_aeadNonce r)" B, OF s(1)])
  then show ?thesis using that s(2-4) pb(2) z by blast
qed

end

lemma client_finishes:
  fixes E :: "'n env" and A :: "('n, 't) session"
  assumes env: "\<And>b. e_dec64 E (e_enc64 E b) = b"
    and A: "s_keys A = Some k" "\<not> s_closed A"
    and z: "x25519Agree (e_prims E) (rd_ephPriv r) pb = Inr z"
    and g: "openFrame E (otherDirection (directionFromRole (s_role A))) (Some g) A =
         (A, Inr (wire (rekeyAccepted E (Some (JStr sid)) newId pb kb (Some (JStr rn)) nonce)))"
  shows "rekeyClientReceive E r (Some g) A = (A\<lparr>s_dropped := s_dropped A @ [zeroKeys k],
       s_keys := Some (deriveRekeyKeys (e_prims E) (e_utf8 E) z (rd_nonce r) nonce),
       s_sessionId := Some (JStr newId)\<rparr>, Inr (Some (JStr newId)))"
proof -
  note fields = rekeyAccepted_fields rekeyInit_fields(5,6) [OF env]
  show ?thesis
    using A z
    by (simp add: fields rekeyClientReceive_def Let_def cr_def applyRekey_bind
        bindX_run [of "openFrame E (otherDirection (directionFromRole (s_role A))) (Some g)" A, OF g])
qed

section \<open>The in-process transport provides the interface\<close>

text \<open>Endpoint \<open>a\<close> and endpoint \<open>b\<close> of a pair, as transports of a session.\<close>

definition endpoint_a :: "bytes run transport_ops" where
  "endpoint_a = \<lparr>
     t_send = (\<lambda>m R. (run_step (SendA m) R, snd (send_a m (state R)))),
     t_close = (\<lambda>R. (run_step CloseA R, Inr ()))\<rparr>"

definition endpoint_b :: "bytes run transport_ops" where
  "endpoint_b = \<lparr>
     t_send = (\<lambda>m R. (run_step (SendB m) R, snd (send_b m (state R)))),
     t_close = (\<lambda>R. (run_step CloseB R, Inr ()))\<rparr>"

definition open_run :: "bool \<Rightarrow> bytes run \<Rightarrow> bool" where
  "open_run a R \<longleftrightarrow> pair_ok (sentA R) (sentB R) (state R) \<and> \<not> (if a then aClosed (state R) else bClosed (state R))"

interpretation end_a: transport endpoint_a "open_run True" sentA
proof
  fix R m
  assume R: "open_run True R"
  then have ok: "pair_ok (sentA R) (sentB R) (state R)" "\<not> aClosed (state R)" by (simp_all add: open_run_def)
  from send_a_ok(2) [OF ok(1) ok(2), of m] obtain P where P: "send_a m (state R) = (P, Inr ())"
    "pair_ok (sentA R @ [m]) (sentB R) P" "\<not> aClosed P" by blast
  then show "\<exists>t'. t_send endpoint_a m R = (t', Inr ()) \<and> open_run True t' \<and> sentA t' = sentA R @ [m]"
    by (simp add: endpoint_a_def open_run_def)
  show "\<not> open_run True (fst (t_close endpoint_a R)) \<and> sentA (fst (t_close endpoint_a R)) = sentA R"
    using close_a_ok [OF ok(1)] by (simp add: endpoint_a_def open_run_def)
qed

interpretation end_b: transport endpoint_b "open_run False" sentB
proof
  fix R m
  assume R: "open_run False R"
  then have ok: "pair_ok (sentB R) (sentA R) (swap (state R))" "\<not> aClosed (swap (state R))"
    by (simp_all add: open_run_def)
  from send_a_ok(2) [OF ok(1) ok(2), of m] obtain P where P: "send_a m (swap (state R)) = (P, Inr ())"
    "pair_ok (sentB R @ [m]) (sentA R) P" "\<not> aClosed P" by blast
  then have "pair_ok (sentA R) (sentB R @ [m]) (swap P)" by simp
  with P show "\<exists>t'. t_send endpoint_b m R = (t', Inr ()) \<and> open_run False t' \<and> sentB t' = sentB R @ [m]"
    by (simp add: endpoint_b_def open_run_def send_b_def)
  show "\<not> open_run False (fst (t_close endpoint_b R)) \<and> sentB (fst (t_close endpoint_b R)) = sentB R"
    using close_a_ok [OF ok(1)] by (simp add: endpoint_b_def open_run_def close_b_def)
qed

section \<open>Agreement\<close>

text \<open>What the platform and the two sessions bring.\<close>

definition rekey_env :: "'n env \<Rightarrow> bool" where
  "rekey_env E \<longleftrightarrow> parse_ok E \<and> aead_ok (e_prims E) \<and> prims_ok (e_prims E) \<and> (\<forall>b. e_dec64 E (e_enc64 E b) = b)"

definition draws_sized :: "rekey_draws \<Rightarrow> bool" where
  "draws_sized r \<longleftrightarrow> length (rd_ephPriv r) = 32 \<and> length (rd_aeadNonce r) = 12"

lemma rekey_run:
  fixes A B :: "('n, bytes run) session"
  assumes "rekey_env E" "draws_sized ra" "draws_sized rb"
    and "end_a.ready k sid A" "end_b.ready k sid B" "s_role B = otherRole (s_role A)"
  shows "\<exists>A1 A2 B1 f g keys.
     rekeyClientSend E endpoint_a ra A = (A1, Inr f) \<and>
     rekeyServer E endpoint_b rb (Some f) B = (B1, Inr g) \<and>
     rekeyClientReceive E ra (Some g) A1 = (A2, Inr (Some (JStr (rd_sessionId rb)))) \<and>
     end_a.ready keys (rd_sessionId rb) A2 \<and> end_b.ready keys (rd_sessionId rb) B1 \<and>
     sentA (s_transport A2) = sentA (s_transport A) @ [f] \<and> sentB (s_transport B1) = sentB (s_transport B) @ [g] \<and>
     s_dropped A2 = s_dropped A @ [zeroKeys k] \<and> s_dropped B1 = s_dropped B @ [zeroKeys k] \<and>
     resumption keys = None"
proof -
  have env: "parse_ok E" "aead_ok (e_prims E)" "\<And>b. e_dec64 E (e_enc64 E b) = b" "prims_ok (e_prims E)"
    using assms(1) by (simp_all add: rekey_env_def)
  have ra: "length (rd_ephPriv ra) = 32" "length (rd_aeadNonce ra) = 12"
    and rb: "length (rd_ephPriv rb) = 32" "length (rd_aeadNonce rb) = 12"
    using assms(2,3) by (simp_all add: draws_sized_def)
  have A: "s_keys A = Some k" "s_sessionId A = Some (JStr sid)" "\<not> s_closed A"
    and B: "s_keys B = Some k" "s_sessionId B = Some (JStr sid)" "\<not> s_closed B"
    using assms(4,5) by (simp_all add: end_a.ready_def end_b.ready_def)
  have role: "otherRole (s_role B) = s_role A" using assms(6) by (simp add: otherRole_def split: role.splits)
  obtain t f pub kid where a1: "rekeyClientSend E endpoint_a ra A = (A\<lparr>s_transport := t\<rparr>, Inr f)"
    "open_run True t" "sentA t = sentA (s_transport A) @ [f]" "x_public (e_prims E) (rd_ephPriv ra) = Some pub"
    "\<forall>u :: ('n, bytes run) session. s_keys u = Some k \<and> s_sessionId u = Some (JStr sid) \<longrightarrow>
       openFrame E (directionFromRole (s_role A)) (Some f) u =
         (u, Inr (wire (rekeyInit E (Some (JStr sid)) pub kid (rd_nonce ra))))"
    by (rule end_a.client_sends [OF env assms(4) ra])
  have fB: "openFrame E (directionFromRole (otherRole (s_role B))) (Some f) B =
         (B, Inr (wire (rekeyInit E (Some (JStr sid)) pub kid (rd_nonce ra))))"
    using a1(5) B role by simp
  obtain u g z pb kb where b1: "rekeyServer E endpoint_b rb (Some f) B =
      (B\<lparr>s_transport := u, s_dropped := s_dropped B @ [zeroKeys k],
       s_keys := Some (deriveRekeyKeys (e_prims E) (e_utf8 E) z (rd_nonce ra) (rd_nonce rb)),
       s_sessionId := Some (JStr (rd_sessionId rb))\<rparr>, Inr g)"
    "open_run False u" "sentB u = sentB (s_transport B) @ [g]"
    "x_public (e_prims E) (rd_ephPriv rb) = Some pb" "x25519Agree (e_prims E) (rd_ephPriv rb) pub = Inr z"
    "\<forall>u :: ('n, bytes run) session. s_keys u = Some k \<and> s_sessionId u = Some (JStr sid) \<longrightarrow>
       openFrame E (otherDirection (directionFromRole (otherRole (s_role B)))) (Some g) u =
         (u, Inr (wire (rekeyAccepted E (Some (JStr sid)) (rd_sessionId rb) pb kb
            (Some (JStr (e_enc64 E (rd_nonce ra)))) (rd_nonce rb))))"
    by (rule end_b.server_replies [OF env assms(5) rb a1(4) fB])
  have z: "x25519Agree (e_prims E) (rd_ephPriv ra) pb = Inr z"
    using shared_ok [OF env(4) ra(1) a1(4) b1(4)] b1(5) by (metis sum.inject(2))
  let ?A1 = "A\<lparr>s_transport := t\<rparr>"
  have g: "openFrame E (otherDirection (directionFromRole (s_role ?A1))) (Some g) ?A1 =
         (?A1, Inr (wire (rekeyAccepted E (Some (JStr sid)) (rd_sessionId rb) pb kb
            (Some (JStr (e_enc64 E (rd_nonce ra)))) (rd_nonce rb))))"
    using b1(6) A role by simp
  have A1: "s_keys ?A1 = Some k" "\<not> s_closed ?A1" using A by simp_all
  note a2 = client_finishes [OF env(3) A1 z g]
  have "keys_sized (deriveRekeyKeys (e_prims E) (e_utf8 E) z (rd_nonce ra) (rd_nonce rb))"
    by (rule derived_sized [OF env(4)])
  moreover have "resumption (deriveRekeyKeys (e_prims E) (e_utf8 E) z (rd_nonce ra) (rd_nonce rb)) = None"
    by (simp add: deriveRekeyKeys_def deriveSessionKeys_def Let_def)
  ultimately show ?thesis
    using a1(1-3) b1(1-3) a2 A B by (simp add: end_a.ready_def end_b.ready_def)
qed

text \<open>C21. Two sessions with the same keys and id, at opposite ends of an open in-process transport, rekey: the
  init the one sends is answered by the other, and after the answer both hold the same new keys, of the
  right size for the next rekey and without a resumption secret, and the new id; each sent exactly one frame, and on both sides the old
  keys are zeroed.\<close>

theorem rekey_agreement:
  fixes A B :: "('n, bytes run) session"
  assumes "rekey_env E" "draws_sized ra" "draws_sized rb"
    and "end_a.ready k sid A" "end_b.ready k sid B" "s_role B = otherRole (s_role A)"
  shows "\<exists>A1 A2 B1 f g keys.
     rekeyClientSend E endpoint_a ra A = (A1, Inr f) \<and>
     rekeyServer E endpoint_b rb (Some f) B = (B1, Inr g) \<and>
     rekeyClientReceive E ra (Some g) A1 = (A2, Inr (Some (JStr (rd_sessionId rb)))) \<and>
     end_a.ready keys (rd_sessionId rb) A2 \<and> end_b.ready keys (rd_sessionId rb) B1 \<and>
     sentA (s_transport A2) = sentA (s_transport A) @ [f] \<and> sentB (s_transport B1) = sentB (s_transport B) @ [g] \<and>
     s_dropped A2 = s_dropped A @ [zeroKeys k] \<and> s_dropped B1 = s_dropped B @ [zeroKeys k] \<and>
     resumption keys = None"
  by (rule rekey_run [OF assms])

section \<open>Two sessions\<close>

definition demo_keys :: session_keys where
  "demo_keys = \<lparr>encC2S = zeros 32, encS2C = zeros 32, macC2S = [1], macS2C = [2], envMAC = [3], resumption = Some [4]\<rparr>"

definition demo_session_config :: "role \<Rightarrow> (int, bytes run) session_config" where
  "demo_session_config r = \<lparr>cf_role = r, cf_sessionId = Some (str ''S1''), cf_sessionTTL = Some 300,
     cf_establishedAt = 0, cf_permissions = [], cf_keys = demo_keys,
     cf_transport = \<lparr>state = newPair, sentA = [], sentB = []\<rparr>, cf_ticket = None, cf_proofKeyId = None,
     cf_proofSignature = None, cf_extensions = None\<rparr>"

definition demo_rekey_draws :: "byte \<Rightarrow> rekey_draws" where
  "demo_rekey_draws x = \<lparr>rd_ephPriv = replicate 32 x, rd_nonce = [x], rd_aeadNonce = zeros 12, rd_sessionId = js ''S2''\<rparr>"

lemma demo_rekey:
  "rekey_env demo_env" "draws_sized (demo_rekey_draws x)"
  "end_a.ready demo_keys (js ''S1'') (newSession (demo_session_config Client))"
  "end_b.ready demo_keys (js ''S1'') (newSession (demo_session_config Server))"
proof -
  have "e_dec64 demo_env (e_enc64 demo_env b) = b" for b
    using demo_env_scheme [of "zeros 32"] by (simp add: scheme_ok_def plat_def)
  then show "rekey_env demo_env"
    using demo_parse_ok demo_prims_all by (simp add: rekey_env_def)
  show "draws_sized (demo_rekey_draws x)" by (simp add: draws_sized_def demo_rekey_draws_def)
  have "pair_ok [] [] newPair"
    using transport_run_ok [of "[]"] by (simp add: transport_run_def)
  then show "end_a.ready demo_keys (js ''S1'') (newSession (demo_session_config Client))"
    "end_b.ready demo_keys (js ''S1'') (newSession (demo_session_config Server))"
    by (simp_all add: end_a.ready_def end_b.ready_def newSession_def demo_session_config_def keys_sized_def
        demo_keys_def open_run_def) (simp_all add: newPair_def)
qed

lemma demo_roles [simp]:
  "s_role (newSession (demo_session_config r)) = r" "s_keys (newSession (demo_session_config r)) = Some demo_keys"
  by (simp_all add: newSession_def demo_session_config_def)

theorem rekey_agreement_witness:
  "\<exists>A1 A2 B1 f g keys.
     rekeyClientSend demo_env endpoint_a (demo_rekey_draws 1) (newSession (demo_session_config Client)) = (A1, Inr f) \<and>
     rekeyServer demo_env endpoint_b (demo_rekey_draws 2) (Some f) (newSession (demo_session_config Server)) = (B1, Inr g) \<and>
     rekeyClientReceive demo_env (demo_rekey_draws 1) (Some g) A1 = (A2, Inr (Some (JStr (js ''S2'')))) \<and>
     s_keys A2 = Some keys \<and> s_keys B1 = Some keys"
proof -
  have "s_role (newSession (demo_session_config Server)) = otherRole (s_role (newSession (demo_session_config Client)))"
    by (simp add: otherRole_def)
  from rekey_agreement [OF demo_rekey(1) demo_rekey(2) [of 1] demo_rekey(2) [of 2] demo_rekey(3,4) this]
  show ?thesis by (simp add: demo_rekey_draws_def [of 2] end_a.ready_def end_b.ready_def) blast
qed


theorem session_lifecycle_witness:
  "\<exists>s. (session_step demo_env endpoint_a)\<^sup>*\<^sup>* (newSession (demo_session_config Client)) s \<and>
     s_dropped s = [zeroKeys demo_keys] \<and> (\<forall>k \<in> set (s_dropped s). wiped k) \<and> s_closed s"
proof -
  let ?s = "newSession (demo_session_config Client)"
  let ?c = "fst (sessionClose endpoint_a ?s)"
  have c: "s_closed ?c" "s_keys ?c = Some demo_keys" "s_dropped ?c = []"
    by (auto simp: sessionClose_def onTransport_def newSession_def demo_session_config_def bindX_def
        split: prod.splits sum.splits)
  have "session_step demo_env endpoint_a ?s ?c" "session_step demo_env endpoint_a ?c (fst (eraseKeys ?c))"
    using c(1) by (intro session_step.close session_step.erase)+
  then have reach: "(session_step demo_env endpoint_a)\<^sup>*\<^sup>* ?s (fst (eraseKeys ?c))"
    by (rule rtranclp.rtrancl_into_rtrancl [OF r_into_rtranclp])
  have e: "s_dropped (fst (eraseKeys ?c)) = [zeroKeys demo_keys]" "s_closed (fst (eraseKeys ?c))"
    using c by (simp_all add: eraseKeys_def)
  from session_lifecycle [OF reach] have "\<forall>k \<in> set (s_dropped (fst (eraseKeys ?c))). wiped k" by blast
  with reach e show ?thesis by blast
qed

end
