(* ===== verification/Resume.thy ===== *)
theory Resume
  imports SessionRekey
begin

text \<open>
  Session resumption, \<^verbatim>\<open>src/src/session/resume.ts\<close>: one round trip that mixes a fresh key agreement with
  the resumption secret of an earlier session. A driver works on the transport and returns a session.
\<close>

declare sorted_form.simps(2) [simp del]

section \<open>Client\<close>

text \<open>An exception closes the transport.\<close>

definition closing :: "'t transport_ops \<Rightarrow> ('t, 'e, 'a) op \<Rightarrow> ('t, 'e, 'a) op" where
  "closing T m = (\<lambda>t. case m t of (t', Inl e) \<Rightarrow> (fst (t_close T t'), Inl e) | (t', Inr x) \<Rightarrow> (t', Inr x))"

definition transportSend :: "'t transport_ops \<Rightarrow> bytes \<Rightarrow> ('t, 'n session_error, unit) op" where
  "transportSend T message = (\<lambda>t. case t_send T message t of
      (t', Inl e) \<Rightarrow> (t', Inl (TransportErr e)) | (t', Inr _) \<Rightarrow> (t', Inr ()))"

record 'n resume_client_config =
  rc_serverDomainPub :: bytes
  rc_transport :: jstr
  rc_kResumption :: bytes
  rc_ticket :: jstr
  rc_extensions :: "'n obj option"

record resume_draws =
  rs_ephPriv :: bytes
  rs_nonce :: bytes
  rs_sessionId :: jstr
  rs_newTicket :: resumption_ticket

definition optObj :: "'n obj option \<Rightarrow> 'n obj" where
  "optObj x = (case x of None \<Rightarrow> [] | Some m \<Rightarrow> m)"

definition resumeRequest :: "'n env \<Rightarrow> 'n resume_client_config \<Rightarrow> bytes \<Rightarrow> bytes \<Rightarrow> jstr \<Rightarrow> 'n obj" where
  "resumeRequest E cfg clientNonce ephPub keyId =
     [(js ''type'', str ''SEMP_HANDSHAKE''), (js ''step'', str ''resume''), (js ''party'', str ''client''),
      (js ''version'', str ''1.0.0''), (js ''nonce'', JStr (e_enc64 E clientNonce)),
      (js ''resumption_ticket'', JStr (rc_ticket cfg)),
      (js ''client_ephemeral_key'', ephemeral_json E ephPub keyId),
      (js ''transport'', JStr (rc_transport cfg)), (js ''extensions'', JObj (optObj (rc_extensions cfg)))]"

text \<open>\<open>resumeClient\<close> up to the await of the response, and after it.\<close>

definition resumeClientSend ::
  "'n env \<Rightarrow> 't transport_ops \<Rightarrow> 'n resume_client_config \<Rightarrow> resume_draws \<Rightarrow> ('t, 'n session_error, bytes) op"
where
  "resumeClientSend E T cfg r = closing T (
     bindX (hsLift (cr (x25519PublicKey (e_prims E) (rs_ephPriv r)))) (\<lambda>ephPub.
     bindX (hsLift (cr (fingerprint (e_prims E) ephPub))) (\<lambda>keyId.
     let req = marshalE E (JObj (resumeRequest E cfg (rs_nonce r) ephPub keyId)) in
     bindX (transportSend T req) (\<lambda>_. ret req))))"

definition verifyAcceptedSignature :: "'n env \<Rightarrow> 'n jsv \<Rightarrow> bytes \<Rightarrow> 'n hs_error + unit" where
  "verifyAcceptedSignature E accepted serverDomainPub =
     bindR (fld accepted ''server_signature'') (\<lambda>sig64.
     bindR (b64 E sig64) (\<lambda>sig.
     let blanked = obj_set (js ''server_signature'') (JStr []) (objOf accepted);
         signingInput = e_utf8 E HandshakePrefix @ marshalE E (JObj blanked) in
     if \<not> verify (e_prims E) serverDomainPub sig signingInput then
       Inl (HsFail ''resume: server_signature did not verify'')
     else Inr ()))"

text \<open>\<open>num\<close> reads a value as the number of seconds of a session's lifetime.\<close>

definition resumeClientFinish ::
  "'n env \<Rightarrow> ('n jsv \<Rightarrow> int option) \<Rightarrow> 't transport_ops \<Rightarrow> 'n resume_client_config \<Rightarrow> resume_draws \<Rightarrow> time
     \<Rightarrow> bytes option \<Rightarrow> ('t, 'n session_error, ('n, 't) session) op"
where
  "resumeClientFinish E num T cfg r now incoming = closing T (
     case incoming of
       None \<Rightarrow> throw (RekeyFail ''connection closed waiting for response'')
     | Some data \<Rightarrow>
         bindX (hsLift (parseFrame E data)) (\<lambda>m.
         bindX (hsLift (fld m ''step'')) (\<lambda>step.
         if step = Some (str ''rejected'') then
           bindX (hsLift (fld m ''session_id'')) (\<lambda>sid.
           bindX (hsLift (fld m ''reason_code'')) (\<lambda>code.
           bindX (hsLift (fld m ''reason'')) (\<lambda>reason.
           throw (HandshakeErr (Rejected (Some (coalesce sid (JStr []))) (Some (coalesce code (str ''auth_failed''))) reason)))))
         else
           bindX (throwIf (step \<noteq> Some (str ''accepted'')) (HandshakeErr (HsFail ''expected step=accepted''))) (\<lambda>_.
           bindX (hsLift (verifyAcceptedSignature E m (rc_serverDomainPub cfg))) (\<lambda>_.
           bindX (hsLift (fld m ''server_ephemeral_key'')) (\<lambda>ek. bindX (hsLift (fld ek ''key'')) (\<lambda>key.
           bindX (hsLift (b64 E key)) (\<lambda>serverEphPub.
           bindX (hsLift (fld m ''server_nonce'')) (\<lambda>sn. bindX (hsLift (b64 E sn)) (\<lambda>serverNonce.
           bindX (hsLift (cr (x25519Agree (e_prims E) (rs_ephPriv r) serverEphPub))) (\<lambda>shared.
           let keys = deriveResumedSessionKeys (e_prims E) (e_utf8 E) shared (rc_kResumption cfg) (rs_nonce r) serverNonce;
               get' = (\<lambda>k. map_of (objOf m) (js k)) in
           bindX get (\<lambda>t.
           ret (newSession \<lparr>cf_role = Client, cf_sessionId = get' ''session_id'',
             cf_sessionTTL = num (get' ''session_ttl''), cf_establishedAt = now, cf_permissions = [], cf_keys = keys,
             cf_transport = t, cf_ticket = get' ''resumption_ticket'', cf_proofKeyId = None,
             cf_proofSignature = None, cf_extensions = get' ''extensions''\<rparr>)))))))))))))"

section \<open>Server\<close>

record ticket_grant =
  tk_kResumption :: bytes
  tk_permissions :: "jstr list"

text \<open>\<open>lookupTicket\<close> may throw, refuse with a reason code and a reason, or grant.\<close>

record 'n resume_server_config =
  rv_seed :: bytes
  rv_lookupTicket :: "'n jsv \<Rightarrow> jstr + (jstr \<times> jstr option) + ticket_grant"
  rv_sessionTTL :: int
  rv_extensions :: "'n obj option"

definition resumeAccepted ::
  "'n env \<Rightarrow> 'n resume_server_config \<Rightarrow> resume_draws \<Rightarrow> bytes \<Rightarrow> jstr \<Rightarrow> 'n obj"
where
  "resumeAccepted E cfg r ephPub keyId =
     [(js ''type'', str ''SEMP_HANDSHAKE''), (js ''step'', str ''accepted''), (js ''party'', str ''server''),
      (js ''version'', str ''1.0.0''), (js ''session_id'', JStr (rs_sessionId r)),
      (js ''session_ttl'', JNum (e_num E (rv_sessionTTL cfg))),
      (js ''server_nonce'', JStr (e_enc64 E (rs_nonce r))),
      (js ''server_ephemeral_key'', ephemeral_json E ephPub keyId),
      (js ''resumption_ticket'', ticket_json (rs_newTicket r)), (js ''server_signature'', JStr []),
      (js ''extensions'', JObj (optObj (rv_extensions cfg)))]"

definition resumeRejected :: "jstr \<Rightarrow> jstr option \<Rightarrow> 'n obj" where
  "resumeRejected reasonCode reason =
     [(js ''type'', str ''SEMP_HANDSHAKE''), (js ''step'', str ''rejected''), (js ''party'', str ''server''),
      (js ''version'', str ''1.0.0''), (js ''session_id'', JStr []), (js ''reason_code'', JStr reasonCode),
      (js ''server_signature'', JStr []), (js ''extensions'', JObj [])] @
     opt_field ''reason'' (map_option JStr reason)"

definition sendResumeRejected ::
  "'n env \<Rightarrow> 't transport_ops \<Rightarrow> jstr \<Rightarrow> jstr option \<Rightarrow> bytes \<Rightarrow> ('t, 'n session_error, unit) op"
where
  "sendResumeRejected E T reasonCode reason seed =
     bindX (hsLift (signMessage E (resumeRejected reasonCode reason) seed)) (\<lambda>signed.
     \<lambda>t. (fst ((transportSend T (marshalE E (JObj signed)) :: ('t, 'n session_error, unit) op) t), Inr ()))"

definition resumeServer ::
  "'n env \<Rightarrow> 't transport_ops \<Rightarrow> 'n resume_server_config \<Rightarrow> resume_draws \<Rightarrow> time \<Rightarrow> bytes option
     \<Rightarrow> ('t, 'n session_error, ('n, 't) session) op"
where
  "resumeServer E T cfg r now incoming = closing T (
     case incoming of
       None \<Rightarrow> throw (RekeyFail ''connection closed waiting for request'')
     | Some data \<Rightarrow>
         bindX (hsLift (parseFrame E data)) (\<lambda>req.
         bindX (hsLift (fld req ''type'')) (\<lambda>type. bindX (hsLift (fld req ''step'')) (\<lambda>step.
         bindX (throwIf (type \<noteq> Some (str ''SEMP_HANDSHAKE'') \<or> step \<noteq> Some (str ''resume''))
           (HandshakeErr (HsFail ''expected step=resume''))) (\<lambda>_.
         bindX (hsLift (fld req ''resumption_ticket'')) (\<lambda>ticket.
         case rv_lookupTicket cfg ticket of
           Inl err \<Rightarrow> throw (HandshakeErr (CallbackThrew err))
         | Inr (Inl (reasonCode, reason)) \<Rightarrow>
             bindX (sendResumeRejected E T reasonCode reason (rv_seed cfg)) (\<lambda>_.
             throw (HandshakeErr (HsFail ''ticket invalid'')))
         | Inr (Inr grant) \<Rightarrow>
             bindX (hsLift (cr (x25519PublicKey (e_prims E) (rs_ephPriv r)))) (\<lambda>ephPub.
             bindX (hsLift (fld req ''client_ephemeral_key'')) (\<lambda>ek. bindX (hsLift (fld ek ''key'')) (\<lambda>key.
             bindX (hsLift (b64 E key)) (\<lambda>clientEphPub.
             bindX (hsLift (fld req ''nonce'')) (\<lambda>cn. bindX (hsLift (b64 E cn)) (\<lambda>clientNonce.
             bindX (hsLift (cr (x25519Agree (e_prims E) (rs_ephPriv r) clientEphPub))) (\<lambda>shared.
             let keys = deriveResumedSessionKeys (e_prims E) (e_utf8 E) shared (tk_kResumption grant) clientNonce (rs_nonce r) in
             bindX (hsLift (cr (fingerprint (e_prims E) ephPub))) (\<lambda>keyId.
             bindX (hsLift (signMessage E (resumeAccepted E cfg r ephPub keyId) (rv_seed cfg))) (\<lambda>signed.
             bindX (transportSend T (marshalE E (JObj signed))) (\<lambda>_.
             bindX get (\<lambda>t.
             bindX (hsLift (cr (publicKeyFromSeed (e_prims E) (rv_seed cfg)))) (\<lambda>pub.
             bindX (hsLift (cr (fingerprint (e_prims E) pub))) (\<lambda>proofKeyId.
             ret (newSession \<lparr>cf_role = Server, cf_sessionId = Some (JStr (rs_sessionId r)),
               cf_sessionTTL = Some (rv_sessionTTL cfg), cf_establishedAt = now,
               cf_permissions = map JStr (tk_permissions grant), cf_keys = keys, cf_transport = t,
               cf_ticket = Some (ticket_json (rs_newTicket r)), cf_proofKeyId = Some (JStr proofKeyId),
               cf_proofSignature = None, cf_extensions = Some (JObj (optObj (rv_extensions cfg)))\<rparr>))))))))))))))))))))"

section \<open>Agreement\<close>

lemma verify_accepted:
  assumes "verifyServerSignature E m ''server_signature'' pub = Inr ()"
  shows "verifyAcceptedSignature E m pub = Inr ()"
proof -
  from assms obtain v where v: "fld m ''server_signature'' = Inr v"
    by (cases "fld m ''server_signature''") (simp_all add: verifyServerSignature_def)
  with assms obtain sig where "v = Some (JStr sig)" "sig \<noteq> []"
    by (cases "(v, ''x'')" rule: field.cases) (simp_all add: verifyServerSignature_def split: if_splits)
  with assms v show ?thesis
    by (simp add: verifyServerSignature_def verifyAcceptedSignature_def b64_def Let_def split: if_splits)
qed

definition resume_env :: "'n env \<Rightarrow> bytes \<Rightarrow> bytes \<Rightarrow> bool" where
  "resume_env E seed pub \<longleftrightarrow> parse_ok E \<and> prims_ok (e_prims E) \<and> scheme_ok (plat E) seed pub \<and> length seed = 32 \<and>
     (\<forall>b. b \<noteq> [] \<longrightarrow> e_enc64 E b \<noteq> [])"

lemma resume_env_parts:
  assumes "resume_env E seed pub"
  shows "parse_ok E" "prims_ok (e_prims E)" "scheme_ok (plat E) seed pub" "length seed = 32"
    "\<And>b. b \<noteq> [] \<Longrightarrow> e_enc64 E b \<noteq> []" "\<And>b. e_dec64 E (e_enc64 E b) = b"
  using assms by (simp_all add: resume_env_def scheme_ok_def plat_def)

lemma resumeRequest_fields:
  fixes E :: "'n env"
  assumes "plain (JObj (optObj (rc_extensions cfg)))" "parse_ok E"
  shows "parseFrame E (marshalE E (JObj (resumeRequest E cfg n pub kid))) = Inr (wire (resumeRequest E cfg n pub kid))"
    "fld (wire (resumeRequest E cfg n pub kid)) ''type'' = Inr (Some (str ''SEMP_HANDSHAKE''))"
    "fld (wire (resumeRequest E cfg n pub kid)) ''step'' = Inr (Some (str ''resume''))"
    "fld (wire (resumeRequest E cfg n pub kid)) ''resumption_ticket'' = Inr (Some (JStr (rc_ticket cfg)))"
    "fld (wire (resumeRequest E cfg n pub kid)) ''nonce'' = Inr (Some (JStr (e_enc64 E n)))"
    "fld (wire (resumeRequest E cfg n pub kid)) ''client_ephemeral_key'' = Inr (Some (sorted_form (ephemeral_json E pub kid)))"
proof -
  let ?m = "resumeRequest E cfg n pub kid"
  have p: "plain (JObj ?m)" using assms(1) by (simp add: resumeRequest_def ephemeral_json_def plain_parts)
  then have d: "distinct (map fst ?m)" by simp
  show "parseFrame E (marshalE E (JObj ?m)) = Inr (wire ?m)" by (rule parse_wire [OF assms(2) p])
  show "fld (wire ?m) ''type'' = Inr (Some (str ''SEMP_HANDSHAKE''))"
    "fld (wire ?m) ''step'' = Inr (Some (str ''resume''))"
    "fld (wire ?m) ''resumption_ticket'' = Inr (Some (JStr (rc_ticket cfg)))"
    "fld (wire ?m) ''nonce'' = Inr (Some (JStr (e_enc64 E n)))"
    "fld (wire ?m) ''client_ephemeral_key'' = Inr (Some (sorted_form (ephemeral_json E pub kid)))"
    by (simp_all add: fld_wire [OF d]) (simp_all add: resumeRequest_def)
qed

text \<open>What the client finds in the signed message.\<close>

lemma resumeAccepted_signed:
  fixes E :: "'n env"
  assumes env: "resume_env E (rv_seed cfg) pub" and x: "plain (JObj (optObj (rv_extensions cfg)))"
  obtains m where "signMessage E (resumeAccepted E cfg r eph kid) (rv_seed cfg) = Inr m"
    "parseFrame E (marshalE E (JObj m)) = Inr (wire m)" "verifyAcceptedSignature E (wire m) pub = Inr ()"
    "\<forall>k. k \<noteq> ''server_signature'' \<longrightarrow>
       fld (wire m) k = Inr (map_option sorted_form (map_of (resumeAccepted E cfg r eph kid) (js k))) \<and>
       map_of (objOf (wire m)) (js k) = map_option sorted_form (map_of (resumeAccepted E cfg r eph kid) (js k))"
proof -
  note e = resume_env_parts [OF env]
  have p: "plain (JObj (resumeAccepted E cfg r eph kid))"
    using x by (simp add: resumeAccepted_def ephemeral_json_def plain_parts)
  obtain m where m: "signMessage E (resumeAccepted E cfg r eph kid) (rv_seed cfg) = Inr m" "plain (JObj m)"
    "verifyServerSignature E (wire m) ''server_signature'' pub = Inr ()"
    "\<forall>k. k \<noteq> ''server_signature'' \<longrightarrow> map_of m (js k) = map_of (resumeAccepted E cfg r eph kid) (js k)"
    by (rule signMessage_wire [OF e(1,3,4) p e(5)])
  have d: "distinct (map fst m)" using m(2) by simp
  show ?thesis
    by (rule that [OF m(1) parse_wire [OF e(1) m(2)] verify_accepted [OF m(3)]])
       (use m(4) fld_wire [OF d] objOf_wire [OF d] in auto)
qed

definition granted :: "'n resume_client_config \<Rightarrow> 'n resume_server_config \<Rightarrow> ticket_grant \<Rightarrow> bool" where
  "granted cc cfg grant \<longleftrightarrow> rv_lookupTicket cfg (Some (JStr (rc_ticket cc))) = Inr (Inr grant) \<and>
     tk_kResumption grant = rc_kResumption cc \<and>
     plain (JObj (optObj (rc_extensions cc))) \<and> plain (JObj (optObj (rv_extensions cfg)))"

text \<open>C22. Over the in-process transport, with a ticket the server's lookup grants for the secret the client
  kept: the request, its answer and the client's processing of it succeed, each side having sent one
  frame, and both sides hold a session with the new id, the same keys, derived from the fresh shared
  secret followed by the kept one, and the ticket for the next resumption; these sessions can be rekeyed.
  The client's session has no permissions.\<close>

theorem resume_agreement:
  fixes E :: "'n env" and t u :: "bytes run"
  assumes env: "resume_env E (rv_seed cfg) (rc_serverDomainPub cc)"
    and draws: "length (rs_ephPriv ra) = 32" "length (rs_ephPriv rb) = 32"
    and "granted cc cfg grant" "open_run True t" "open_run False u"
  shows "\<exists>t' u' f g A B keys shared.
     resumeClientSend E endpoint_a cc ra t = (t', Inr f) \<and> sentA t' = sentA t @ [f] \<and>
     resumeServer E endpoint_b cfg rb now (Some f) u = (u', Inr B) \<and> sentB u' = sentB u @ [g] \<and>
     resumeClientFinish E num endpoint_a cc ra now' (Some g) t' = (t', Inr A) \<and>
     keys = deriveResumedSessionKeys (e_prims E) (e_utf8 E) shared (rc_kResumption cc) (rs_nonce ra) (rs_nonce rb) \<and>
     end_a.ready keys (rs_sessionId rb) A \<and> end_b.ready keys (rs_sessionId rb) B \<and>
     s_ticket A = Some (sorted_form (ticket_json (rs_newTicket rb))) \<and> s_ticket B = Some (ticket_json (rs_newTicket rb)) \<and>
     s_role B = otherRole (s_role A) \<and> s_permissions A = {} \<and> s_permissions B = JStr ` set (tk_permissions grant)"
proof -
  note e = resume_env_parts [OF env]
  have gr: "rv_lookupTicket cfg (Some (JStr (rc_ticket cc))) = Inr (Inr grant)"
    "tk_kResumption grant = rc_kResumption cc"
    "plain (JObj (optObj (rc_extensions cc)))" "plain (JObj (optObj (rv_extensions cfg)))"
    using assms(4) by (simp_all add: granted_def)
  obtain pa where pa: "x25519PublicKey (e_prims E) (rs_ephPriv ra) = Inr pa"
    "x_public (e_prims E) (rs_ephPriv ra) = Some pa"
    "fingerprint (e_prims E) pa = Inr (bytesToHex (sha256 (e_prims E) pa))"
    by (rule ephemeral_ok [OF e(2) draws(1)])
  obtain pb where pb: "x25519PublicKey (e_prims E) (rs_ephPriv rb) = Inr pb"
    "x_public (e_prims E) (rs_ephPriv rb) = Some pb"
    "fingerprint (e_prims E) pb = Inr (bytesToHex (sha256 (e_prims E) pb))"
    by (rule ephemeral_ok [OF e(2) draws(2)])
  obtain z where z: "x25519Agree (e_prims E) (rs_ephPriv ra) pb = Inr z"
    "x25519Agree (e_prims E) (rs_ephPriv rb) pa = Inr z"
    by (rule shared_ok [OF e(2) draws(1) pa(2) pb(2)])
  define ka where "ka = bytesToHex (sha256 (e_prims E) pa)"
  define kb where "kb = bytesToHex (sha256 (e_prims E) pb)"
  define f where "f = marshalE E (JObj (resumeRequest E cc (rs_nonce ra) pa ka))"
  obtain t' where t': "t_send endpoint_a f t = (t', Inr ())" "open_run True t'" "sentA t' = sentA t @ [f]"
    using end_a.send_usable [OF assms(5)] by blast
  have send: "resumeClientSend E endpoint_a cc ra t = (t', Inr f)"
    using pa t'(1) by (simp add: resumeClientSend_def closing_def cr_def transportSend_def bindX_def
        ka_def [symmetric] f_def [symmetric] Let_def)
  note q = resumeRequest_fields [OF gr(3) e(1), of "rs_nonce ra" pa ka, folded f_def]
  note w = rekeyInit_fields(5,6) [OF e(6)]
  obtain m where m: "signMessage E (resumeAccepted E cfg rb pb kb) (rv_seed cfg) = Inr m"
    "parseFrame E (marshalE E (JObj m)) = Inr (wire m)" "verifyAcceptedSignature E (wire m) (rc_serverDomainPub cc) = Inr ()"
    "\<forall>k. k \<noteq> ''server_signature'' \<longrightarrow>
       fld (wire m) k = Inr (map_option sorted_form (map_of (resumeAccepted E cfg rb pb kb) (js k))) \<and>
       map_of (objOf (wire m)) (js k) = map_option sorted_form (map_of (resumeAccepted E cfg rb pb kb) (js k))"
    by (rule resumeAccepted_signed [OF env gr(4)])
  define g where "g = marshalE E (JObj m)"
  obtain u' where u': "t_send endpoint_b g u = (u', Inr ())" "open_run False u'" "sentB u' = sentB u @ [g]"
    using end_b.send_usable [OF assms(6)] by blast
  obtain dp where dp: "publicKeyFromSeed (e_prims E) (rv_seed cfg) = Inr dp" "dp \<noteq> []"
  proof -
    have "length (ed_public (e_prims E) (rv_seed cfg)) = 32" using e(2) by (simp add: prims_ok_def)
    then have "ed_public (e_prims E) (rv_seed cfg) \<noteq> []" by auto
    then show ?thesis using that e(4) by (simp add: publicKeyFromSeed_def)
  qed
  let ?keys = "deriveResumedSessionKeys (e_prims E) (e_utf8 E) z (rc_kResumption cc) (rs_nonce ra) (rs_nonce rb)"
  let ?B = "newSession \<lparr>cf_role = Server, cf_sessionId = Some (JStr (rs_sessionId rb)),
     cf_sessionTTL = Some (rv_sessionTTL cfg), cf_establishedAt = now,
     cf_permissions = map JStr (tk_permissions grant), cf_keys = ?keys, cf_transport = u',
     cf_ticket = Some (ticket_json (rs_newTicket rb)), cf_proofKeyId = Some (JStr (bytesToHex (sha256 (e_prims E) dp))),
     cf_proofSignature = None, cf_extensions = Some (JObj (optObj (rv_extensions cfg)))\<rparr>"
  have serve: "resumeServer E endpoint_b cfg rb now (Some f) u = (u', Inr ?B)"
    using q w gr(1,2) pb z(2) m(1) u'(1) dp
    by (simp add: resumeServer_def closing_def cr_def fingerprint_def kb_def [symmetric] g_def [symmetric] Let_def)
       (simp add: transportSend_def bindX_def)
  have a: "map_of (resumeAccepted E cfg rb pb kb) (js ''step'') = Some (str ''accepted'')"
    "map_of (resumeAccepted E cfg rb pb kb) (js ''server_ephemeral_key'') = Some (ephemeral_json E pb kb)"
    "map_of (resumeAccepted E cfg rb pb kb) (js ''server_nonce'') = Some (JStr (e_enc64 E (rs_nonce rb)))"
    "map_of (resumeAccepted E cfg rb pb kb) (js ''session_id'') = Some (JStr (rs_sessionId rb))"
    "map_of (resumeAccepted E cfg rb pb kb) (js ''resumption_ticket'') = Some (ticket_json (rs_newTicket rb))"
    by (simp_all add: resumeAccepted_def)
  let ?A = "newSession \<lparr>cf_role = Client, cf_sessionId = Some (JStr (rs_sessionId rb)),
     cf_sessionTTL = num (map_of (objOf (wire m)) (js ''session_ttl'')), cf_establishedAt = now',
     cf_permissions = [], cf_keys = ?keys, cf_transport = t',
     cf_ticket = Some (sorted_form (ticket_json (rs_newTicket rb))), cf_proofKeyId = None,
     cf_proofSignature = None, cf_extensions = map_of (objOf (wire m)) (js ''extensions'')\<rparr>"
  have finish: "resumeClientFinish E num endpoint_a cc ra now' (Some g) t' = (t', Inr ?A)"
    using m(2-4) a w z(1)
    by (simp add: resumeClientFinish_def closing_def cr_def g_def [symmetric] Let_def del: objOf.simps)
  have sized: "keys_sized ?keys" using e(2)
    by (simp add: keys_sized_def deriveResumedSessionKeys_def kdf_expand_def SessionKeyLength_def prims_ok_def Let_def)
  show ?thesis
    by (rule exI [of _ t'], rule exI [of _ u'], rule exI [of _ f], rule exI [of _ g], rule exI [of _ ?A],
        rule exI [of _ ?B], rule exI [of _ ?keys], rule exI [of _ z])
       (simp add: send serve finish t'(2,3) u'(2,3) sized end_a.ready_def end_b.ready_def newSession_def otherRole_def)
qed

section \<open>The two resume messages\<close>

definition client_resume_json :: "'n env \<Rightarrow> jstr \<Rightarrow> bytes \<Rightarrow> capabilities \<Rightarrow> 'n obj" where
  "client_resume_json E ticket nonce caps =
     [(js ''type'', str ''SEMP_HANDSHAKE''), (js ''step'', str ''resume''), (js ''party'', str ''client''),
      (js ''version'', str ''1.0.0''), (js ''ticket'', JStr ticket), (js ''client_nonce'', JStr (e_enc64 E nonce)),
      (js ''capabilities'', capabilities_json (e_num E) caps), (js ''extensions'', JObj [])]"

lemma resume_frame:
  "resume E r ticket c = (c', Inr f) \<Longrightarrow> \<exists>nonce caps. f = marshalE E (JObj (client_resume_json E ticket nonce caps))"
  by (auto simp: resume_def bindX_Inr throwIf_Inr Let_def client_resume_json_def split: option.splits)

text \<open>The two modules that speak \<open>step="resume"\<close> do not understand each other: the message
  \<open>HandshakeClient.resume\<close> builds names its ticket and nonce \<open>ticket\<close> and \<open>client_nonce\<close> and has no
  ephemeral key, while \<open>resumeServer\<close> reads \<open>resumption_ticket\<close>, \<open>nonce\<close> and \<open>client_ephemeral_key\<close>. So
  the server looks up the ticket \<open>undefined\<close> and never establishes a session, whatever the lookup says.\<close>

theorem resume_formats_incompatible:
  assumes "parse_ok E" and "resume E r ticket c = (c', Inr f)"
  shows "snd (resumeServer E T cfg d now (Some f) t) \<noteq> Inr x"
proof -
  obtain nonce caps where f: "f = marshalE E (JObj (client_resume_json E ticket nonce caps))"
    using resume_frame [OF assms(2)] by blast
  let ?m = "client_resume_json E ticket nonce caps"
  have p: "plain (JObj ?m)" by (simp add: client_resume_json_def plain_parts)
  then have d: "distinct (map fst ?m)" by simp
  have miss: "fld (wire ?m) ''client_ephemeral_key'' = Inr None" "fld (wire ?m) ''resumption_ticket'' = Inr None"
    by (simp_all add: fld_wire [OF d]) (simp_all add: client_resume_json_def)
  have undef: "fld None ''key'' = Inl (Js TypeError)" by (simp add: fld_def)
  have "parseFrame E f = Inr (wire ?m)" unfolding f by (rule parse_wire [OF assms(1) p])
  then have "resumeServer E T cfg d now (Some f) t \<noteq> (t', Inr x)" for t'
    by (auto simp: resumeServer_def closing_def bindX_Inr hsLift_run throwIf_Inr Let_def miss undef
        split: prod.splits sum.split_asm)
  then show ?thesis by (metis prod.collapse)
qed

section \<open>Runs\<close>

definition demo_resume_client :: "int resume_client_config" where
  "demo_resume_client = \<lparr>rc_serverDomainPub = zeros 32, rc_transport = js ''ws'', rc_kResumption = [9],
     rc_ticket = js ''T1'', rc_extensions = None\<rparr>"

definition demo_resume_server :: "int resume_server_config" where
  "demo_resume_server = \<lparr>rv_seed = zeros 32,
     rv_lookupTicket = (\<lambda>v. Inr (Inr \<lparr>tk_kResumption = [9], tk_permissions = [js ''send'']\<rparr>)),
     rv_sessionTTL = 300, rv_extensions = None\<rparr>"

definition demo_resume_draws :: "byte \<Rightarrow> resume_draws" where
  "demo_resume_draws x = \<lparr>rs_ephPriv = replicate 32 x, rs_nonce = [x], rs_sessionId = js ''S2'',
     rs_newTicket = \<lparr>rt_value = js ''T2'', rt_expires_at = js ''2026''\<rparr>\<rparr>"

abbreviation demo_run :: "bytes run" where
  "demo_run \<equiv> \<lparr>state = newPair, sentA = [], sentB = []\<rparr>"

lemma demo_open: "open_run a demo_run"
proof -
  have "pair_ok [] [] newPair" using transport_run_ok [of "[]"] by (simp add: transport_run_def)
  then show ?thesis by (simp add: open_run_def) (simp add: newPair_def)
qed

theorem resume_agreement_witness:
  "\<exists>t' u' f g A B keys.
     resumeClientSend demo_env endpoint_a demo_resume_client (demo_resume_draws 1) demo_run = (t', Inr f) \<and>
     resumeServer demo_env endpoint_b demo_resume_server (demo_resume_draws 2) 0 (Some f) demo_run = (u', Inr B) \<and>
     resumeClientFinish demo_env (\<lambda>_. None) endpoint_a demo_resume_client (demo_resume_draws 1) 0 (Some g) t' = (t', Inr A) \<and>
     s_keys A = Some keys \<and> s_keys B = Some keys"
proof -
  have enc: "\<forall>b. b \<noteq> [] \<longrightarrow> e_enc64 demo_env b \<noteq> []" by simp
  have "resume_env demo_env (rv_seed demo_resume_server) (rc_serverDomainPub demo_resume_client)"
    using demo_parse_ok demo_prims_all(1) demo_env_scheme [of "zeros 32"] enc
    by (simp add: resume_env_def demo_resume_server_def demo_resume_client_def)
  moreover have "granted demo_resume_client demo_resume_server \<lparr>tk_kResumption = [9], tk_permissions = [js ''send'']\<rparr>"
    by (simp add: granted_def demo_resume_client_def demo_resume_server_def optObj_def)
  moreover have "length (rs_ephPriv (demo_resume_draws x)) = 32" for x by (simp add: demo_resume_draws_def)
  ultimately have "resume_env demo_env (rv_seed demo_resume_server) (rc_serverDomainPub demo_resume_client)"
    "granted demo_resume_client demo_resume_server \<lparr>tk_kResumption = [9], tk_permissions = [js ''send'']\<rparr>"
    "length (rs_ephPriv (demo_resume_draws 1)) = 32" "length (rs_ephPriv (demo_resume_draws 2)) = 32" by blast+
  from resume_agreement [OF this(1,3,4,2) demo_open demo_open, where now = 0 and num = "\<lambda>_. None" and now' = 0]
  show ?thesis unfolding end_a.ready_def end_b.ready_def
    by (elim exE conjE) (intro exI conjI; assumption)
qed

theorem resume_formats_incompatible_witness:
  "\<exists>f. (\<exists>c c'. resume demo_env demo_draws (js ''T1'') c = (c', Inr f)) \<and>
     (\<forall>x. snd (resumeServer demo_env endpoint_b demo_resume_server (demo_resume_draws 2) 0 (Some f) demo_run) \<noteq> Inr x)"
proof -
  obtain c0 :: "int client" where "newClient (demo_cc baseSuite) = Inr c0"
    by (simp add: newClient_def demo_cc_def js_def)
  define c where "c = fst (loadResumptionSecret [9] c0)"
  have "hc_resumptionSecret c = Some [9]" by (simp add: c_def loadResumptionSecret_def)
  then obtain c' f where r: "resume demo_env demo_draws (js ''T1'') c = (c', Inr f)"
    by (simp add: resume_def js_def throwIf_step Let_def)
  show ?thesis using r resume_formats_incompatible [OF demo_parse_ok r] by fast
qed

end
