(* ===== verification/HandshakeDriver.thy ===== *)
theory HandshakeDriver
  imports Resume
begin

text \<open>
  The handshake drivers over a transport: \<open>runClient\<close> of \<^verbatim>\<open>src/src/handshake/driver.ts\<close> and \<open>runServer\<close> of
  \<^verbatim>\<open>src/src/handshake/server.ts\<close>, cut at their awaits of \<open>receive\<close>. They implement the same protocol
  as the state machines of \<open>HandshakeClient\<close> and \<open>HandshakeServer\<close>, in code of their own.
\<close>

section \<open>Frames\<close>

text \<open>\<open>receiveOrThrow\<close> on what \<open>receive\<close> gave, and \<open>parseHandshakeMessage\<close>: the message and its step.\<close>

definition receiveOrThrow :: "bytes option \<Rightarrow> 'n hs_error + bytes" where
  "receiveOrThrow incoming = (case incoming of
      None \<Rightarrow> Inl (HsFail ''connection closed'') | Some data \<Rightarrow> Inr data)"

definition parseHandshakeMessage :: "'n env \<Rightarrow> bytes \<Rightarrow> 'n hs_error + ('n jsv \<times> jstr)" where
  "parseHandshakeMessage E data =
     bindR (parseFrame E data) (\<lambda>m.
     bindR (fld m ''type'') (\<lambda>type.
     if type \<noteq> Some (str ''SEMP_HANDSHAKE'') then Inl (HsFail ''expected type=SEMP_HANDSHAKE'') else
     bindR (fld m ''step'') (\<lambda>step.
     case step of Some (JStr s) \<Rightarrow> Inr (m, s) | _ \<Rightarrow> Inl (HsFail ''missing step field''))))"

section \<open>The client\<close>

record client_begun =
  cb_ephPriv :: bytes
  cb_ephPub :: bytes
  cb_nonce :: bytes
  cb_init :: bytes

record 'n client_confirmed =
  cd_keys :: session_keys
  cd_resp :: "'n jsv"

text \<open>The key pair and nonce, and INIT.\<close>

definition driverKeyPair :: "'n env \<Rightarrow> client_config \<Rightarrow> draws \<Rightarrow> 'n hs_error + (bytes \<times> bytes)" where
  "driverKeyPair E cfg r =
     (if cc_suite cfg = pqSuite then
        bindR (cr (hybridGenerateKeyPair (e_prims E) (dr_x25519 r) (dr_kemSeed r))) (\<lambda>(pub, priv). Inr (priv, pub))
      else
        let priv = (case cc_ephemeralPriv cfg of None \<Rightarrow> dr_x25519 r | Some p \<Rightarrow> p) in
        bindR (cr (x25519PublicKey (e_prims E) priv)) (\<lambda>pub. Inr (priv, pub)))"

definition runClientBegin ::
  "'n env \<Rightarrow> 't transport_ops \<Rightarrow> client_config \<Rightarrow> draws \<Rightarrow> ('t, 'n session_error, client_begun) op"
where
  "runClientBegin E T cfg r =
     bindX (throwIf (cc_suite cfg \<noteq> baseSuite \<and> cc_suite cfg \<noteq> pqSuite)
       (HandshakeErr (HsFail ''unsupported suite''))) (\<lambda>_.
     closing T (
       bindX (hsLift (driverKeyPair E cfg r)) (\<lambda>(ephPriv, ephPub).
       let clientNonce = (case cc_nonce cfg of None \<Rightarrow> dr_nonce r | Some n \<Rightarrow> n) in
       bindX (hsLift (if cc_suite cfg = pqSuite then Inr (hexSha256 (e_prims E) ephPub)
                      else cr (fingerprint (e_prims E) ephPub))) (\<lambda>ephKeyId.
       let initCanonical = marshalE E (JObj (buildInit (e_num E) (e_enc64 E clientNonce) (cc_transport cfg)
             \<lparr>kr_algorithm = cc_suite cfg, kr_key = e_enc64 E ephPub, kr_key_id = ephKeyId\<rparr>
             (cc_capabilities cfg))) in
       bindX (transportSend T initCanonical) (\<lambda>_.
       ret \<lparr>cb_ephPriv = ephPriv, cb_ephPub = ephPub, cb_nonce = clientNonce, cb_init = initCanonical\<rparr>)))))"

text \<open>RESPONSE and CONFIRM.\<close>

definition driverShared :: "'n env \<Rightarrow> client_config \<Rightarrow> client_begun \<Rightarrow> bytes \<Rightarrow> 'n hs_error + bytes" where
  "driverShared E cfg b serverEphPub =
     (if cc_suite cfg = pqSuite then
        (if length (cb_ephPub b) \<noteq> HybridPublicKeySize then Inl (HsFail ''PQ ephemeral pub size'')
         else cr (hybridDecapsulate (e_prims E) serverEphPub (cb_ephPriv b)))
      else cr (x25519Agree (e_prims E) (cb_ephPriv b) serverEphPub))"

definition runClientConfirm ::
  "'n env \<Rightarrow> 't transport_ops \<Rightarrow> client_config \<Rightarrow> draws \<Rightarrow> client_begun \<Rightarrow> bytes option
     \<Rightarrow> ('t, 'n session_error, 'n client_confirmed) op"
where
  "runClientConfirm E T cfg r b incoming = closing T (
     bindX (hsLift (receiveOrThrow incoming)) (\<lambda>data.
     bindX (hsLift (parseHandshakeMessage E data)) (\<lambda>(m, step).
     if step = js ''rejected'' then hsLift (rejection m) else
     bindX (throwIf (step \<noteq> js ''response'') (HandshakeErr (HsFail ''expected step=response''))) (\<lambda>_.
     bindX (hsLift (verifyServerSignature E m ''server_signature'' (cc_serverDomainPub cfg))) (\<lambda>_.
     bindX (hsLift (fld m ''server_nonce'')) (\<lambda>sn. bindX (hsLift (b64 E sn)) (\<lambda>serverNonce.
     bindX (hsLift (fld m ''server_ephemeral_key'')) (\<lambda>ek. bindX (hsLift (fld ek ''key'')) (\<lambda>key.
     bindX (hsLift (b64 E key)) (\<lambda>serverEphPub.
     bindX (hsLift (driverShared E cfg b serverEphPub)) (\<lambda>shared.
     let keys = deriveSessionKeysWithResumption (e_prims E) (e_utf8 E) shared (cb_nonce b) serverNonce;
         ch = confirmationHash (e_prims E) (cb_init b) (marshalE E (JObj (objOf m))) in
     bindX (hsLift (fld m ''session_id'')) (\<lambda>sid.
     bindX (hsLift (case cc_identity cfg of
         None \<Rightarrow> Inr []
       | Some i \<Rightarrow> cr (composeIdentityProof E i sid ch (encC2S keys) (dr_proofNonce r)))) (\<lambda>proofB64.
     bindX (transportSend T (marshalE E (JObj (buildConfirm sid (e_enc64 E ch) proofB64)))) (\<lambda>_.
     ret \<lparr>cd_keys = keys, cd_resp = m\<rparr>))))))))))))))"

text \<open>
  ACCEPTED. \<open>toSet\<close> is \<open>new Set(permissions)\<close>, which takes the elements of an array or the code points
  of a string, and throws on other values.
\<close>

fun codePoints :: "jstr \<Rightarrow> jstr list" where
  "codePoints [] = []"
| "codePoints [a] = [[a]]"
| "codePoints (a # b # s) =
     (if 0xD800 \<le> a \<and> a < 0xDC00 \<and> 0xDC00 \<le> b \<and> b < 0xE000 then [a, b] # codePoints s
      else [a] # codePoints (b # s))"

fun toSet :: "'n jsv \<Rightarrow> 'n hs_error + 'n json list" where
  "toSet None = Inr []"
| "toSet (Some JNull) = Inr []"
| "toSet (Some (JStr s)) = Inr (map JStr (codePoints s))"
| "toSet (Some (JArr vs)) = Inr vs"
| "toSet (Some v) = Inl (Js TypeError)"

definition runClientEnd ::
  "'n env \<Rightarrow> ('n jsv \<Rightarrow> int option) \<Rightarrow> 't transport_ops \<Rightarrow> client_config \<Rightarrow> 'n client_confirmed \<Rightarrow> time
     \<Rightarrow> bytes option \<Rightarrow> ('t, 'n session_error, ('n, 't) session) op"
where
  "runClientEnd E num T cfg d now incoming = closing T (
     bindX (hsLift (receiveOrThrow incoming)) (\<lambda>data.
     bindX (hsLift (parseHandshakeMessage E data)) (\<lambda>(m, step).
     if step = js ''rejected'' then hsLift (rejection m) else
     bindX (throwIf (step \<noteq> js ''accepted'') (HandshakeErr (HsFail ''expected step=accepted''))) (\<lambda>_.
     bindX (hsLift (verifyServerSignature E m ''server_signature'' (cc_serverDomainPub cfg))) (\<lambda>_.
     bindX (hsLift (fld (cd_resp d) ''server_identity_proof'')) (\<lambda>idp.
     bindX (hsLift (fld idp ''key_id'')) (\<lambda>kid. bindX (hsLift (fld idp ''signature'')) (\<lambda>psig.
     let get' = (\<lambda>k. map_of (objOf m) (js k)) in
     bindX (hsLift (toSet (get' ''permissions''))) (\<lambda>permissions.
     bindX get (\<lambda>t.
     ret (newSession \<lparr>cf_role = Client, cf_sessionId = get' ''session_id'',
       cf_sessionTTL = num (get' ''session_ttl''), cf_establishedAt = now, cf_permissions = permissions,
       cf_keys = cd_keys d, cf_transport = t, cf_ticket = get' ''resumption_ticket'', cf_proofKeyId = kid,
       cf_proofSignature = psig, cf_extensions = get' ''extensions''\<rparr>)))))))))))"

section \<open>The server\<close>

record 'n server_begun =
  sb_sessionId :: jstr
  sb_init :: bytes
  sb_resp :: bytes
  sb_keys :: session_keys
  sb_idProof :: server_identity_proof

text \<open>\<open>sendRejected\<close>, which ignores a failing transport, and the exception that follows it.\<close>

definition rejectAndThrow ::
  "'n env \<Rightarrow> 't transport_ops \<Rightarrow> jstr \<Rightarrow> jstr \<Rightarrow> bytes \<Rightarrow> jstr option \<Rightarrow> ('t, 'n session_error, 'a) op"
where
  "rejectAndThrow E T sessionId reasonCode seed reason =
     bindX (hsLift (buildRejectedSigned E sessionId reasonCode reason seed)) (\<lambda>rej.
     \<lambda>t. (fst (t_send T rej t), Inl (HandshakeErr (HsFail ''rejected''))))"

text \<open>The server's key share and the shared secret; the private key is not used after that.\<close>

definition serverShare :: "'n env \<Rightarrow> 'n server_config \<Rightarrow> server_draws \<Rightarrow> bool \<Rightarrow> bytes \<Rightarrow> 'n hs_error + (bytes \<times> bytes)" where
  "serverShare E cfg d isPQ clientEphPub =
     (if isPQ then
        cr (case sc_hybridRandomness cfg of
            Some rnd \<Rightarrow> hybridEncapsulateWithRandomness (e_prims E) clientEphPub rnd
          | None \<Rightarrow> hybridEncapsulate (e_prims E) (sd_x25519 d) (sd_kemCoins d) clientEphPub)
      else
        let priv = (case sc_ephemeralPriv cfg of Some p \<Rightarrow> p | None \<Rightarrow> sd_x25519 d) in
        bindR (cr (x25519PublicKey (e_prims E) priv)) (\<lambda>pub.
        bindR (cr (x25519Agree (e_prims E) priv clientEphPub)) (\<lambda>shared.
        Inr (pub, shared))))"

definition runServerBegin ::
  "'n env \<Rightarrow> 't transport_ops \<Rightarrow> 'n server_config \<Rightarrow> server_draws \<Rightarrow> bytes option
     \<Rightarrow> ('t, 'n session_error, 'n server_begun) op"
where
  "runServerBegin E T cfg d incoming = closing T (
     bindX (hsLift (receiveOrThrow incoming)) (\<lambda>initBytes.
     bindX (hsLift (parseHandshakeMessage E initBytes)) (\<lambda>(m, step).
     bindX (throwIf (step \<noteq> js ''init'') (HandshakeErr (HsFail ''expected step=init''))) (\<lambda>_.
     bindX (hsLift (fld m ''capabilities'')) (\<lambda>caps.
     bindX (hsLift (fld caps ''encryption_algorithms'')) (\<lambda>offered.
     bindX (hsLift (pickSuite offered (sc_supportedSuites cfg))) (\<lambda>picked.
     case picked of
       None \<Rightarrow> rejectAndThrow E T (sd_sessionId d) (js ''version_unsupported'') (sc_seed cfg) None
     | Some negotiated \<Rightarrow>
       let isPQ = (negotiated = pqSuite) in
       bindX (hsLift (fld m ''client_ephemeral_key'')) (\<lambda>ek. bindX (hsLift (fld ek ''key'')) (\<lambda>key.
       bindX (hsLift (b64 E key)) (\<lambda>clientEphPub.
       bindX (hsLift (fld m ''nonce'')) (\<lambda>nonce. bindX (hsLift (b64 E nonce)) (\<lambda>clientNonce.
       let serverNonce = (case sc_nonce cfg of Some n \<Rightarrow> n | None \<Rightarrow> sd_nonce d) in
       bindX (hsLift (serverShare E cfg d isPQ clientEphPub)) (\<lambda>(serverEphPub, shared).
       bindX (hsLift (if isPQ then Inr (hexSha256 (e_prims E) serverEphPub)
                      else cr (fingerprint (e_prims E) serverEphPub))) (\<lambda>serverEphKeyId.
       let keys = deriveSessionKeysWithResumption (e_prims E) (e_utf8 E) shared clientNonce serverNonce;
           ephemeral = \<lparr>kr_algorithm = negotiated, kr_key = e_enc64 E serverEphPub, kr_key_id = serverEphKeyId\<rparr>
       in
       bindX (hsLift (cr (publicKeyFromSeed (e_prims E) (sc_seed cfg)))) (\<lambda>domainPub.
       bindX (hsLift (cr (fingerprint (e_prims E) domainPub))) (\<lambda>keyId.
       bindX (hsLift (callback (sc_identityProofSignature cfg ephemeral nonce (e_enc64 E serverNonce)))) (\<lambda>psig.
       let idProof = \<lparr>sip_domain = sc_domain cfg, sip_key_id = keyId, sip_signature = psig\<rparr> in
       bindX (hsLift (buildResponse E
         \<lparr>ri_session_id = sd_sessionId d, ri_server_nonce = e_enc64 E serverNonce, ri_ephemeral = ephemeral,
          ri_identity_proof = idProof,
          ri_negotiated = \<lparr>ng_algorithm = negotiated, ng_extensions = [], ng_max_envelope_size = None\<rparr>\<rparr>
         (coalesce nonce JNull) (sc_seed cfg))) (\<lambda>resp.
       let respCanonical = marshalE E (JObj resp) in
       bindX (transportSend T respCanonical) (\<lambda>_.
       ret \<lparr>sb_sessionId = sd_sessionId d, sb_init = initBytes, sb_resp = respCanonical, sb_keys = keys,
         sb_idProof = idProof\<rparr>)))))))))))))))))))"

text \<open>Opening the identity proof and checking its signature.\<close>

definition driverIdentity ::
  "'n env \<Rightarrow> 't transport_ops \<Rightarrow> ('n hs_error \<Rightarrow> jstr) \<Rightarrow> 'n server_config \<Rightarrow> 'n server_begun \<Rightarrow> bytes \<Rightarrow> 'n jsv
     \<Rightarrow> ('t, 'n session_error, 'n jsv option) op"
where
  "driverIdentity E T message cfg b wantHash identityProof =
     (let reject = (\<lambda>reason. rejectAndThrow E T (sb_sessionId b) (js ''auth_failed'') (sc_seed cfg) (Some reason)) in
      if identityProof = Some (JStr []) then ret None
      else
        (case openIdentityProof E identityProof (encC2S (sb_keys b)) (sb_sessionId b) of
           Inl e \<Rightarrow> reject (message e)
         | Inr block \<Rightarrow>
             (case sc_lookupClientIdentityKey cfg of
                None \<Rightarrow> ret (Some block)
              | Some lookup \<Rightarrow>
                  (case bindR (fld block ''client_identity'') (\<lambda>who.
                        bindR (fld block ''client_long_term_key_id'') (\<lambda>kid. callback (lookup who kid))) of
                     Inl e \<Rightarrow> reject (message e)
                   | Inr clientPub \<Rightarrow>
                       bindX (hsLift (fld block ''identity_signature'')) (\<lambda>isig.
                       bindX (hsLift (b64 E isig)) (\<lambda>sig.
                       if \<not> verify (e_prims E) clientPub sig
                              (identityInput E (Some (JStr (sb_sessionId b))) wantHash) then
                         reject (js ''identity_signature did not verify'')
                       else ret (Some block)))))))"

definition runServerEnd ::
  "'n env \<Rightarrow> 't transport_ops \<Rightarrow> ('n hs_error \<Rightarrow> jstr) \<Rightarrow> 'n server_config \<Rightarrow> 'n server_begun \<Rightarrow> time
     \<Rightarrow> bytes option \<Rightarrow> ('t, 'n session_error, ('n, 't) session) op"
where
  "runServerEnd E T message cfg b now incoming = closing T (
     bindX (hsLift (receiveOrThrow incoming)) (\<lambda>confirmBytes.
     bindX (hsLift (parseHandshakeMessage E confirmBytes)) (\<lambda>(m, step).
     bindX (throwIf (step \<noteq> js ''confirm'') (HandshakeErr (HsFail ''expected step=confirm''))) (\<lambda>_.
     let wantHash = confirmationHash (e_prims E) (sb_init b) (sb_resp b) in
     bindX (hsLift (fld m ''confirmation_hash'')) (\<lambda>h. bindX (hsLift (b64 E h)) (\<lambda>gotHash.
     if \<not> constantTimeEqual gotHash wantHash then
       rejectAndThrow E T (sb_sessionId b) (js ''handshake_invalid'') (sc_seed cfg) None
     else
       bindX (hsLift (fld m ''identity_proof'')) (\<lambda>identityProof.
       bindX (driverIdentity E T message cfg b wantHash identityProof) (\<lambda>block.
       bindX (case sc_verifyIdentityProof cfg of
           None \<Rightarrow> ret ()
         | Some verifier \<Rightarrow>
             bindX (hsLift (callback (verifier identityProof (sb_keys b) block))) (\<lambda>verdict.
             if \<not> vd_ok verdict then
               rejectAndThrow E T (sb_sessionId b)
                 (case vd_reasonCode verdict of None \<Rightarrow> js ''auth_failed'' | Some c \<Rightarrow> c) (sc_seed cfg) (vd_reason verdict)
             else ret ())) (\<lambda>_.
       bindX (hsLift (case sc_resumptionTicket cfg of
           None \<Rightarrow> Inr None
         | Some f \<Rightarrow> bindR (callback (f (sb_keys b))) (\<lambda>t. Inr (Some t)))) (\<lambda>ticket.
       let extensions = (case sc_acceptedExtensions cfg of None \<Rightarrow> [] | Some x \<Rightarrow> x) in
       bindX (hsLift (buildAccepted E (sb_sessionId b) (sc_sessionTTL cfg) (sc_permissions cfg)
         ticket extensions (sc_seed cfg))) (\<lambda>accepted.
       bindX (transportSend T (marshalE E (JObj accepted))) (\<lambda>_.
       bindX get (\<lambda>t.
       ret (newSession \<lparr>cf_role = Server, cf_sessionId = Some (JStr (sb_sessionId b)),
         cf_sessionTTL = Some (sc_sessionTTL cfg), cf_establishedAt = now,
         cf_permissions = map JStr (sc_permissions cfg), cf_keys = sb_keys b, cf_transport = t,
         cf_ticket = map_option ticket_json ticket, cf_proofKeyId = Some (JStr (sip_key_id (sb_idProof b))),
         cf_proofSignature = Some (JStr (sip_signature (sb_idProof b))),
         cf_extensions = Some (JObj extensions)\<rparr>))))))))))))))"

end
