(* ===== verification/Envelope.thy ===== *)
theory Envelope
  imports HandshakeAgreement
begin

text \<open>
  The envelope: the key wrap of \<^verbatim>\<open>src/src/seal/wrap.ts\<close>, and composing, opening and verifying of
  \<^verbatim>\<open>src/src/envelope\<close> (\<^verbatim>\<open>compose.ts\<close>, \<^verbatim>\<open>canonical.ts\<close>, \<^verbatim>\<open>encode.ts\<close>, \<^verbatim>\<open>verify.ts\<close>, \<^verbatim>\<open>open_any.ts\<close>,
  \<^verbatim>\<open>open_verified.ts\<close>). A received envelope is an unchecked JSON value.
\<close>

section \<open>Key wrap\<close>

datatype suite = Baseline | Hybrid

fun suiteName :: "suite \<Rightarrow> jstr" where
  "suiteName Baseline = baseSuite"
| "suiteName Hybrid = pqSuite"

definition WrapInfo :: jstr where "WrapInfo = js ''SEMP-v1-wrap''"

record wrap_randomness =
  wr_ephemeralX25519Priv :: bytes
  wr_kyberEncapsRandomnessM :: "bytes option"

definition encapsulate ::
  "primitives \<Rightarrow> suite \<Rightarrow> bytes \<Rightarrow> wrap_randomness \<Rightarrow> 'n hs_error + (bytes \<times> bytes)"
where
  "encapsulate C suite recipientPub rand =
     (case suite of
        Baseline \<Rightarrow>
          if length recipientPub \<noteq> X25519Size then Inl (HsFail ''x25519 recipient pub size'')
          else
            bindR (cr (x25519PublicKey C (wr_ephemeralX25519Priv rand))) (\<lambda>ephPub.
            bindR (cr (x25519Agree C (wr_ephemeralX25519Priv rand) recipientPub)) (\<lambda>shared.
            Inr (ephPub, shared)))
      | Hybrid \<Rightarrow>
          (case wr_kyberEncapsRandomnessM rand of
             None \<Rightarrow> Inl (HsFail ''PQ wrap requires kyberEncapsRandomnessM'')
           | Some m \<Rightarrow>
               let kyberPub = take Kyber768PublicKeySize recipientPub;
                   xPub = drop Kyber768PublicKeySize recipientPub in
               bindR (cr (kyber768EncapsulateDeterministic C kyberPub m)) (\<lambda>(kyberCt, kyberSS).
               bindR (cr (x25519PublicKey C (wr_ephemeralX25519Priv rand))) (\<lambda>xEphPub.
               bindR (cr (x25519Agree C (wr_ephemeralX25519Priv rand) xPub)) (\<lambda>xSS.
               cr (hybridOutput kyberCt xEphPub kyberSS xSS))))))"

definition decapsulate :: "primitives \<Rightarrow> suite \<Rightarrow> bytes \<Rightarrow> bytes \<Rightarrow> 'n hs_error + bytes" where
  "decapsulate C suite kemCT recipientPriv =
     (case suite of
        Baseline \<Rightarrow>
          if length kemCT \<noteq> 32 then Inl (HsFail ''x25519 kemCT size'')
          else cr (x25519Agree C recipientPriv kemCT)
      | Hybrid \<Rightarrow> cr (hybridDecapsulate C kemCT recipientPriv))"

text \<open>The key of the AEAD: extract and expand over the shared secret, salted with \<open>kemCT || recipientPub\<close>.\<close>

definition wrapKey :: "'n env \<Rightarrow> bytes \<Rightarrow> bytes \<Rightarrow> bytes \<Rightarrow> bytes" where
  "wrapKey E kemCT recipientPub sharedSecret =
     kdf_expand (e_prims E) (kdf_extract (e_prims E) (kemCT @ recipientPub) sharedSecret) (e_utf8 E WrapInfo) 32"

definition wrapWithRandomness ::
  "'n env \<Rightarrow> suite \<Rightarrow> bytes \<Rightarrow> bytes \<Rightarrow> wrap_randomness \<Rightarrow> 'n hs_error + jstr"
where
  "wrapWithRandomness E suite recipientPub symmetricKey rand =
     bindR (encapsulate (e_prims E) suite recipientPub rand) (\<lambda>(kemCT, sharedSecret).
     bindR (cr (aeadSeal (e_prims E) Chacha20Poly1305 (wrapKey E kemCT recipientPub sharedSecret) (zeros 12)
       symmetricKey recipientPub)) (\<lambda>aeadCT.
     Inr (e_enc64 E (kemCT @ aeadCT))))"

text \<open>\<open>wrap\<close>; the ephemeral key and the coins it draws are arguments.\<close>

definition wrap_key :: "'n env \<Rightarrow> suite \<Rightarrow> bytes \<Rightarrow> bytes \<Rightarrow> bytes \<Rightarrow> bytes \<Rightarrow> 'n hs_error + jstr" where
  "wrap_key E suite recipientPub symmetricKey ephPriv kyberM =
     (case suite of
        Baseline \<Rightarrow> wrapWithRandomness E suite recipientPub symmetricKey
          \<lparr>wr_ephemeralX25519Priv = ephPriv, wr_kyberEncapsRandomnessM = None\<rparr>
      | Hybrid \<Rightarrow> wrapWithRandomness E suite recipientPub symmetricKey
          \<lparr>wr_ephemeralX25519Priv = ephPriv, wr_kyberEncapsRandomnessM = Some kyberM\<rparr>)"

definition unwrap :: "'n env \<Rightarrow> suite \<Rightarrow> bytes \<Rightarrow> bytes \<Rightarrow> jstr \<Rightarrow> 'n hs_error + bytes" where
  "unwrap E suite recipientPriv recipientPub wrappedB64 =
     (if recipientPriv = [] then Inl (HsFail ''empty recipient private key'')
      else if recipientPub = [] then Inl (HsFail ''empty recipient public key'')
      else
        let raw = e_dec64 E wrappedB64; aeadCTLen = 32 + 16 in
        if length raw < aeadCTLen then Inl (HsFail ''wrapped key truncated'')
        else
          let kemCTLen = length raw - aeadCTLen; kemCT = take kemCTLen raw; aeadCT = drop kemCTLen raw in
          bindR (decapsulate (e_prims E) suite kemCT recipientPriv) (\<lambda>sharedSecret.
          cr (aeadOpen (e_prims E) Chacha20Poly1305 (wrapKey E kemCT recipientPub sharedSecret) (zeros 12)
            aeadCT recipientPub)))"

section \<open>Composing\<close>

record 'n postmark =
  pm_id :: jstr
  pm_session_id :: jstr
  pm_from_domain :: jstr
  pm_to_domain :: jstr
  pm_expires :: jstr
  pm_extensions :: "'n obj option"

record recipient_key =
  rk_keyId :: jstr
  rk_publicKey :: bytes

record 'n compose_input =
  ci_suite :: suite
  ci_sealKeyId :: jstr
  ci_senderDomainSigningSeed :: bytes
  ci_postmark :: "'n postmark"
  ci_briefPlaintext :: "'n json"
  ci_enclosurePlaintext :: "'n json"
  ci_briefRecipients :: "recipient_key list"
  ci_enclosureRecipients :: "recipient_key list"
  ci_kBrief :: bytes
  ci_kEnclosure :: bytes
  ci_kEnvMAC :: bytes
  ci_briefAEADNonce :: bytes
  ci_enclosureAEADNonce :: bytes
  ci_wrapRandomness :: "jstr \<Rightarrow> wrap_randomness option"
  ci_extensions :: "'n obj option"
  ci_sealExtensions :: "'n obj option"
  ci_padding :: "jstr option"

definition EnvelopePrefix :: jstr where "EnvelopePrefix = js ''SEMP-ENVELOPE:''"

text \<open>One slot: \<open>base64(nonce || aead_ct)\<close> of the canonical payload, bound to the postmark id.\<close>

definition sealSlot :: "'n env \<Rightarrow> bytes \<Rightarrow> bytes \<Rightarrow> 'n json \<Rightarrow> bytes \<Rightarrow> 'n hs_error + jstr" where
  "sealSlot E key nonce payload postmarkID =
     bindR (cr (aeadSeal (e_prims E) Chacha20Poly1305 key nonce (marshalE E payload) postmarkID)) (\<lambda>ct.
     Inr (e_enc64 E (nonce @ ct)))"

text \<open>The loop that wraps a key for every recipient; \<open>random\<close> is the lookup of the randomness for a key id.\<close>

fun wrapLoop ::
  "'n env \<Rightarrow> suite \<Rightarrow> bytes \<Rightarrow> (jstr \<Rightarrow> wrap_randomness option) \<Rightarrow> recipient_key list \<Rightarrow> 'n obj \<Rightarrow> 'n hs_error + 'n obj"
where
  "wrapLoop E suite key random [] m = Inr m"
| "wrapLoop E suite key random (r # rs) m =
     (case random (rk_keyId r) of
        None \<Rightarrow> Inl (HsFail ''missing wrap randomness'')
      | Some rand \<Rightarrow>
          bindR (wrapWithRandomness E suite (rk_publicKey r) key rand) (\<lambda>w.
          wrapLoop E suite key random rs (obj_set (rk_keyId r) (JStr w) m)))"

text \<open>\<open>get("enclosure:" + keyId) ?? get(keyId)\<close>.\<close>

definition enclosureRandomness :: "(jstr \<Rightarrow> wrap_randomness option) \<Rightarrow> jstr \<Rightarrow> wrap_randomness option" where
  "enclosureRandomness random keyId =
     (case random (js ''enclosure:'' @ keyId) of Some r \<Rightarrow> Some r | None \<Rightarrow> random keyId)"

definition postmark_json :: "'n postmark \<Rightarrow> 'n obj" where
  "postmark_json p =
     [(js ''id'', JStr (pm_id p)), (js ''session_id'', JStr (pm_session_id p)),
      (js ''from_domain'', JStr (pm_from_domain p)), (js ''to_domain'', JStr (pm_to_domain p)),
      (js ''expires'', JStr (pm_expires p)),
      (js ''extensions'', JObj (case pm_extensions p of None \<Rightarrow> [] | Some x \<Rightarrow> x))]"

definition seal_json :: "'n compose_input \<Rightarrow> 'n obj \<Rightarrow> 'n obj \<Rightarrow> 'n obj" where
  "seal_json inp briefRecipients enclosureRecipients =
     [(js ''algorithm'', JStr (suiteName (ci_suite inp))), (js ''key_id'', JStr (ci_sealKeyId inp)),
      (js ''signature'', JStr []), (js ''session_mac'', JStr []),
      (js ''brief_recipients'', JObj briefRecipients), (js ''enclosure_recipients'', JObj enclosureRecipients),
      (js ''extensions'', JObj (case ci_sealExtensions inp of None \<Rightarrow> [] | Some x \<Rightarrow> x))]"

definition assemble :: "'n compose_input \<Rightarrow> 'n obj \<Rightarrow> jstr \<Rightarrow> jstr \<Rightarrow> 'n obj" where
  "assemble inp seal briefField enclosureField =
     [(js ''type'', str ''SEMP_ENVELOPE''), (js ''version'', str ''1.0.0''),
      (js ''postmark'', JObj (postmark_json (ci_postmark inp))), (js ''seal'', JObj seal),
      (js ''brief'', JStr briefField), (js ''enclosure'', JStr enclosureField)] @
     (case ci_extensions inp of None \<Rightarrow> [] | Some x \<Rightarrow> [(js ''extensions'', JObj x)]) @
     [(js ''padding'', JStr (case ci_padding inp of None \<Rightarrow> [] | Some p \<Rightarrow> p))]"

text \<open>The elider: blank \<open>seal.signature\<close> and \<open>seal.session_mac\<close> where they are present.\<close>

definition blankIn :: "jstr \<Rightarrow> 'n obj \<Rightarrow> 'n obj" where
  "blankIn k m = (if map_of m k \<noteq> None then obj_set k (JStr []) m else m)"

definition envelopeElider :: "'n json \<Rightarrow> 'n json" where
  "envelopeElider v =
     (case v of
        JObj m \<Rightarrow>
          (case map_of m (js ''seal'') of
             Some (JObj seal) \<Rightarrow>
               JObj (obj_set (js ''seal'')
                 (JObj (blankIn (js ''session_mac'') (blankIn (js ''signature'') seal))) m)
           | _ \<Rightarrow> v)
      | _ \<Rightarrow> v)"

definition canonicalEnvelopeFor :: "'n env \<Rightarrow> 'n json \<Rightarrow> bytes" where
  "canonicalEnvelopeFor E envelope = marshalWithElision (e_utf8 E) (e_numstr E) envelope envelopeElider"

text \<open>\<open>env.seal.k = v\<close> on an envelope that has a seal.\<close>

definition setSeal :: "jstr \<Rightarrow> jstr \<Rightarrow> 'n obj \<Rightarrow> 'n obj" where
  "setSeal k v m =
     (case map_of m (js ''seal'') of
        Some (JObj seal) \<Rightarrow> obj_set (js ''seal'') (JObj (obj_set k (JStr v) seal)) m | _ \<Rightarrow> m)"

definition compose :: "'n env \<Rightarrow> 'n compose_input \<Rightarrow> 'n hs_error + 'n obj" where
  "compose E inp =
     (let postmarkID = e_utf8 E (pm_id (ci_postmark inp)) in
      bindR (sealSlot E (ci_kBrief inp) (ci_briefAEADNonce inp) (ci_briefPlaintext inp) postmarkID) (\<lambda>briefField.
      bindR (sealSlot E (ci_kEnclosure inp) (ci_enclosureAEADNonce inp) (ci_enclosurePlaintext inp) postmarkID)
        (\<lambda>enclosureField.
      bindR (wrapLoop E (ci_suite inp) (ci_kBrief inp) (ci_wrapRandomness inp) (ci_briefRecipients inp) [])
        (\<lambda>briefRecipients.
      bindR (wrapLoop E (ci_suite inp) (ci_kEnclosure inp) (enclosureRandomness (ci_wrapRandomness inp))
        (ci_enclosureRecipients inp) []) (\<lambda>enclosureRecipients.
      let env = assemble inp (seal_json inp briefRecipients enclosureRecipients) briefField enclosureField;
          canonical = canonicalEnvelopeFor E (JObj env) in
      bindR (cr (sign (e_prims E) (ci_senderDomainSigningSeed inp) (e_utf8 E EnvelopePrefix @ canonical))) (\<lambda>sig.
      let env = setSeal (js ''signature'') (e_enc64 E sig) env;
          mac = computeMAC (e_prims E) (ci_kEnvMAC inp) canonical in
      Inr (setSeal (js ''session_mac'') (e_enc64 E mac) env)))))))"

section \<open>Wire form\<close>

definition encodeEnvelope :: "'n env \<Rightarrow> 'n obj \<Rightarrow> bytes" where
  "encodeEnvelope E env = e_utf8 E (print (e_numstr E) (JObj env))"

definition decodeEnvelope :: "'n env \<Rightarrow> bytes \<Rightarrow> 'n hs_error + 'n obj" where
  "decodeEnvelope E data =
     (if data = [] then Inl (HsFail ''empty input'')
      else case e_parse E data of
          None \<Rightarrow> Inl (HsFail ''parse'')
        | Some (JObj m) \<Rightarrow>
            if map_of m (js ''type'') \<noteq> Some (str ''SEMP_ENVELOPE'') then Inl (HsFail ''not SEMP_ENVELOPE'')
            else Inr m
        | Some _ \<Rightarrow> Inl (HsFail ''top-level value is not an object''))"

section \<open>Verifying\<close>

definition verifySealSignature :: "'n env \<Rightarrow> 'n jsv \<Rightarrow> bytes \<Rightarrow> 'n hs_error + bool" where
  "verifySealSignature E env senderDomainPub =
     bindR (fld env ''seal'') (\<lambda>seal.
     case seal of None \<Rightarrow> Inr False | Some JNull \<Rightarrow> Inr False | _ \<Rightarrow>
       bindR (fld seal ''signature'') (\<lambda>sigB64.
       if sigB64 = None \<or> sigB64 = Some (JStr []) then Inr False
       else case base64Decode E sigB64 of
           Inl e \<Rightarrow> Inr False
         | Inr sig \<Rightarrow>
             Inr (verify (e_prims E) senderDomainPub sig
               (e_utf8 E EnvelopePrefix @ canonicalEnvelopeFor E (the env)))))"

definition verifySessionMAC :: "'n env \<Rightarrow> 'n jsv \<Rightarrow> bytes \<Rightarrow> 'n hs_error + bool" where
  "verifySessionMAC E env kEnvMAC =
     bindR (fld env ''seal'') (\<lambda>seal.
     case seal of None \<Rightarrow> Inr False | Some JNull \<Rightarrow> Inr False | _ \<Rightarrow>
       bindR (fld seal ''session_mac'') (\<lambda>macB64.
       if macB64 = None \<or> macB64 = Some (JStr []) then Inr False
       else case base64Decode E macB64 of
           Inl e \<Rightarrow> Inr False
         | Inr want \<Rightarrow>
             Inr (constantTimeEqual want (computeMAC (e_prims E) kEnvMAC (canonicalEnvelopeFor E (the env))))))"

section \<open>Opening\<close>

text \<open>
  \<open>openBriefForRecipient\<close> and \<open>openEnclosureForRecipient\<close>, which differ in the names of the slot and of
  the field.
\<close>

definition openSlot ::
  "'n env \<Rightarrow> string \<Rightarrow> string \<Rightarrow> suite \<Rightarrow> 'n jsv \<Rightarrow> jstr \<Rightarrow> bytes \<Rightarrow> bytes \<Rightarrow> 'n hs_error + 'n jsv"
where
  "openSlot E slots fieldName suite env keyId priv pub =
     bindR (fld env ''postmark'') (\<lambda>pm. bindR (fld pm ''id'') (\<lambda>pid.
     let postmarkID = encodeText E pid in
     bindR (fld env ''seal'') (\<lambda>seal. bindR (fld seal slots) (\<lambda>recipients.
     if recipients = None \<or> recipients = Some JNull then Inl (Js TypeError) else
     case map_of (objOf recipients) keyId of
       Some (JStr wrapped) \<Rightarrow>
         bindR (unwrap E suite priv pub wrapped) (\<lambda>key.
         bindR (fld env fieldName) (\<lambda>b. bindR (b64 E b) (\<lambda>blob.
         if length blob < 12 then Inl (HsFail ''blob too short'')
         else
           bindR (cr (aeadOpen (e_prims E) Chacha20Poly1305 key (take 12 blob) (drop 12 blob) postmarkID)) (\<lambda>pt.
           parseFrame E pt))))
     | _ \<Rightarrow> Inl (HsFail ''recipient not in slot'')))))"

definition openBriefForRecipient ::
  "'n env \<Rightarrow> suite \<Rightarrow> 'n jsv \<Rightarrow> jstr \<Rightarrow> bytes \<Rightarrow> bytes \<Rightarrow> 'n hs_error + 'n jsv"
where
  "openBriefForRecipient E suite env keyId priv pub =
     openSlot E ''brief_recipients'' ''brief'' suite env keyId priv pub"

definition openEnclosureForRecipient ::
  "'n env \<Rightarrow> suite \<Rightarrow> 'n jsv \<Rightarrow> jstr \<Rightarrow> bytes \<Rightarrow> bytes \<Rightarrow> 'n hs_error + 'n jsv"
where
  "openEnclosureForRecipient E suite env keyId priv pub =
     openSlot E ''enclosure_recipients'' ''enclosure'' suite env keyId priv pub"

definition openForRecipient ::
  "'n env \<Rightarrow> suite \<Rightarrow> 'n jsv \<Rightarrow> jstr \<Rightarrow> bytes \<Rightarrow> bytes \<Rightarrow> 'n hs_error + ('n jsv \<times> 'n jsv)"
where
  "openForRecipient E suite env keyId priv pub =
     bindR (openBriefForRecipient E suite env keyId priv pub) (\<lambda>brief.
     bindR (openEnclosureForRecipient E suite env keyId priv pub) (\<lambda>enclosure.
     Inr (brief, enclosure)))"

record recipient_candidate =
  ca_keyId :: jstr
  ca_privateKey :: bytes
  ca_publicKey :: bytes

text \<open>
  The loop of \<open>openBriefAny\<close> and \<open>openEnclosureAny\<close>: candidates without a slot are skipped, a candidate
  that fails is remembered and the next one tried.
\<close>

fun openAnyLoop ::
  "'n env \<Rightarrow> string \<Rightarrow> string \<Rightarrow> suite \<Rightarrow> 'n jsv \<Rightarrow> recipient_candidate list \<Rightarrow> bool
     \<Rightarrow> 'n hs_error + (recipient_candidate \<times> 'n jsv)"
where
  "openAnyLoop E slots fieldName suite env [] failed =
     Inl (HsFail (if failed then ''every candidate failed'' else ''no candidate matches a recipient slot''))"
| "openAnyLoop E slots fieldName suite env (c # cs) failed =
     bindR (fld env ''seal'') (\<lambda>seal. bindR (fld seal slots) (\<lambda>recipients.
     if recipients = None \<or> recipients = Some JNull then Inl (Js TypeError) else
     if map_of (objOf recipients) (ca_keyId c) = None then
       openAnyLoop E slots fieldName suite env cs failed
     else
       (case openSlot E slots fieldName suite env (ca_keyId c) (ca_privateKey c) (ca_publicKey c) of
          Inr v \<Rightarrow> Inr (c, v)
        | Inl e \<Rightarrow> openAnyLoop E slots fieldName suite env cs True)))"

definition openBriefAny ::
  "'n env \<Rightarrow> suite \<Rightarrow> 'n jsv \<Rightarrow> recipient_candidate list \<Rightarrow> 'n hs_error + (recipient_candidate \<times> 'n jsv)"
where
  "openBriefAny E suite env candidates =
     (if candidates = [] then Inl (HsFail ''empty candidate list'')
      else openAnyLoop E ''brief_recipients'' ''brief'' suite env candidates False)"

definition openEnclosureAny ::
  "'n env \<Rightarrow> suite \<Rightarrow> 'n jsv \<Rightarrow> recipient_candidate list \<Rightarrow> 'n hs_error + (recipient_candidate \<times> 'n jsv)"
where
  "openEnclosureAny E suite env candidates =
     (if candidates = [] then Inl (HsFail ''empty candidate list'')
      else openAnyLoop E ''enclosure_recipients'' ''enclosure'' suite env candidates False)"

record 'n verified_envelope =
  ve_senderDomainPub :: bytes
  ve_candidate :: recipient_candidate
  ve_brief :: "'n jsv"
  ve_enclosure :: "'n jsv"

text \<open>\<open>openAndVerify\<close>; \<open>resolver\<close> is the lookup of the sender domain's key, which may throw or give null.\<close>

definition openAndVerify ::
  "'n env \<Rightarrow> ('n jsv \<Rightarrow> 'n jsv \<Rightarrow> jstr + bytes option) \<Rightarrow> suite \<Rightarrow> 'n jsv \<Rightarrow> recipient_candidate list
     \<Rightarrow> 'n hs_error + 'n verified_envelope"
where
  "openAndVerify E resolver suite env candidates =
     bindR (fld env ''postmark'') (\<lambda>pm. bindR (fld pm ''from_domain'') (\<lambda>fromDomain.
     bindR (fld env ''seal'') (\<lambda>seal. bindR (fld seal ''key_id'') (\<lambda>keyId.
     bindR (callback (resolver fromDomain keyId)) (\<lambda>pub.
     case pub of
       None \<Rightarrow> Inl (HsFail ''resolver returned null'')
     | Some pub \<Rightarrow>
         bindR (verifySealSignature E env pub) (\<lambda>ok.
         if \<not> ok then Inl (HsFail ''seal.signature did not verify'')
         else
           (case openBriefAny E suite env candidates of
              Inl e \<Rightarrow> Inl (HsFail ''open brief failed'')
            | Inr (c, brief) \<Rightarrow>
                (case openEnclosureAny E suite env candidates of
                   Inl e \<Rightarrow> Inl (HsFail ''open enclosure failed'')
                 | Inr (c', enclosure) \<Rightarrow>
                     Inr \<lparr>ve_senderDomainPub = pub, ve_candidate = c, ve_brief = brief,
                       ve_enclosure = enclosure\<rparr>))))))))"

end
