(* ===== verification/EnvelopeProofs.thy ===== *)
theory EnvelopeProofs
  imports Envelope
begin

unbundle bit_operations_syntax

text \<open>
  What composing an envelope and opening it promise: the round trip for every recipient, the two proofs
  of the seal, and what the two slots of a recipient give away when they share their randomness.
\<close>

section \<open>Key wrap\<close>

text \<open>ChaCha20-Poly1305 appends a tag of 16 bytes to a ciphertext of the length of the plaintext.\<close>

definition tag_ok :: "primitives \<Rightarrow> bool" where
  "tag_ok C \<longleftrightarrow> (\<forall>k n a p c. chacha_enc C k n a p = Some c \<longrightarrow> length c = length p + 16)"

definition envelope_env :: "'n env \<Rightarrow> bool" where
  "envelope_env E \<longleftrightarrow> parse_ok E \<and> prims_ok (e_prims E) \<and> aead_ok (e_prims E) \<and> tag_ok (e_prims E) \<and>
     (\<forall>b. e_dec64 E (e_enc64 E b) = b) \<and> (\<forall>b. b \<noteq> [] \<longrightarrow> e_enc64 E b \<noteq> []) \<and> (\<forall>s. s \<noteq> [] \<longrightarrow> e_utf8 E s \<noteq> []) \<and>
     (\<forall>k m. length (hmac_sha256 (e_prims E) k m) = 32)"

lemma envelope_env_parts:
  assumes "envelope_env E"
  shows "parse_ok E" "prims_ok (e_prims E)" "aead_ok (e_prims E)" "tag_ok (e_prims E)" "e_dec64 E (e_enc64 E b) = b"
    "dh_ok (e_prims E)" "kem_ok (e_prims E)"
  using assms by (simp_all add: envelope_env_def prims_ok_def)

lemma wrapKey_length:
  assumes "prims_ok (e_prims E)"
  shows "length (wrapKey E ct pub ss) = 32"
  using assms by (simp add: wrapKey_def kdf_expand_def prims_ok_def)

lemma encapsulate_decapsulate:
  assumes ok: "dh_ok C" "kem_ok C" and pair: "key_pair C (suiteName suite) priv pub"
    and enc: "encapsulate C suite pub rand = Inr (ct, ss)"
  shows "decapsulate C suite ct priv = (Inr ss :: 'n hs_error + bytes)" and "priv \<noteq> []" and "pub \<noteq> []"
proof -
  have "decapsulate C suite ct priv = (Inr ss :: 'n hs_error + bytes) \<and> priv \<noteq> [] \<and> pub \<noteq> []"
  proof (cases suite)
    case Baseline
    with pair have p: "x_public C priv = Some pub" by (simp add: key_pair_def js_eq)
    from enc Baseline have e: "x_public C (wr_ephemeralX25519Priv rand) = Some ct"
      "x_shared C (wr_ephemeralX25519Priv rand) pub = Some ss"
      by (auto simp: encapsulate_def bindR_eq_Inr x25519PublicKey_def x25519Agree_def split: if_splits)
    have "length ct = 32" "length priv = 32" "length pub = 32" using ok(1) e(1) p unfolding dh_ok_def by blast+
    moreover have "x_shared C priv ct = Some ss" using ok(1) e p unfolding dh_ok_def by metis
    ultimately show ?thesis using Baseline by (auto simp: decapsulate_def x25519Agree_def)
  next
    case Hybrid
    with pair obtain x seed where g: "hybridGenerateKeyPair C x seed = Inr (pub, priv)" by (auto simp: key_pair_def)
    from hybridGenerateKeyPair_Inr [OF ok(2,1) g] obtain xPub sk pk where k:
      "pub = pk @ xPub" "priv = sk @ x" "length pk = 1184" "length sk = 2400" "length xPub = 32" by metis
    from enc Hybrid obtain m where m: "wr_kyberEncapsRandomnessM rand = Some m"
      by (auto simp: encapsulate_def split: option.splits)
    from enc Hybrid m obtain kct kss ep xss where e: "kem_encaps C (take 1184 pub) m = Some (kct, kss)"
      "x_public C (wr_ephemeralX25519Priv rand) = Some ep"
      "x_shared C (wr_ephemeralX25519Priv rand) (drop 1184 pub) = Some xss"
      "hybridOutput kct ep kss xss = Inr (ct, ss)"
      by (auto simp: encapsulate_def bindR_eq_Inr x25519PublicKey_def x25519Agree_def kyber768EncapsulateDeterministic_def
          Let_def Kyber768PublicKeySize_def)
    have "length pub = HybridPublicKeySize" using k by (simp add: kem_sizes)
    then have "hybridEncapsulate C (wr_ephemeralX25519Priv rand) m pub = Inr (ct, ss)"
      using e by (simp add: hybridEncapsulate_def x25519PublicKey_def x25519Agree_def Let_def Kyber768PublicKeySize_def)
    from hybrid_agree [OF ok(2,1) g this] have "hybridDecapsulate C ct priv = Inr ss" by blast
    then show ?thesis using Hybrid k by (auto simp: decapsulate_def)
  qed
  then show "decapsulate C suite ct priv = (Inr ss :: 'n hs_error + bytes)" "priv \<noteq> []" "pub \<noteq> []" by blast+
qed

lemma wrapWithRandomness_Inr:
  "wrapWithRandomness E suite pub key rand = Inr w \<longleftrightarrow>
   (\<exists>ct ss c. encapsulate (e_prims E) suite pub rand = (Inr (ct, ss) :: 'n hs_error + _) \<and>
      chacha_enc (e_prims E) (wrapKey E ct pub ss) (zeros 12) pub key = Some c \<and> w = e_enc64 E (ct @ c))"
  for E :: "'n env"
  by (auto simp: wrapWithRandomness_def bindR_eq_Inr aeadSeal_def)

lemma unwrap_wrap:
  fixes E :: "'n env"
  assumes env: "envelope_env E" and pair: "key_pair (e_prims E) (suiteName suite) priv pub"
    and w: "wrapWithRandomness E suite pub key rand = Inr w" and len: "length key = 32"
  shows "unwrap E suite priv pub w = Inr key"
proof -
  note ok = envelope_env_parts [OF env]
  from w obtain ct ss c where enc: "encapsulate (e_prims E) suite pub rand = (Inr (ct, ss) :: 'n hs_error + _)"
    and c: "chacha_enc (e_prims E) (wrapKey E ct pub ss) (zeros 12) pub key = Some c" "w = e_enc64 E (ct @ c)"
    unfolding wrapWithRandomness_Inr by blast
  note dec = encapsulate_decapsulate [OF ok(6,7) pair enc]
  have "length c = 48" using ok(4) c(1) len by (auto simp: tag_ok_def)
  moreover have "chacha_dec (e_prims E) (wrapKey E ct pub ss) (zeros 12) pub c = Some key"
    using ok(3) c(1) wrapKey_length [OF ok(2)] unfolding aead_ok_def
    by (metis length_replicate option.inject)
  ultimately show ?thesis using c(2) ok(5) by (simp add: unwrap_def aeadOpen_def dec)
qed

section \<open>The recipients of a slot\<close>

lemma wrapLoop_keeps:
  assumes "wrapLoop E suite key random rs m = Inr m'" "k \<notin> set (map rk_keyId rs)"
  shows "map_of m' k = map_of m k"
  using assms
  by (induction rs arbitrary: m) (auto simp: bindR_eq_Inr split: option.splits)

lemma wrapLoop_slot:
  assumes "wrapLoop E suite key random rs m = Inr m'" "distinct (map rk_keyId rs)" "r \<in> set rs"
  shows "\<exists>rand w. random (rk_keyId r) = Some rand \<and> wrapWithRandomness E suite (rk_publicKey r) key rand = Inr w \<and>
    map_of m' (rk_keyId r) = Some (JStr w)"
  using assms
proof (induction rs arbitrary: m)
  case (Cons a rs)
  from Cons.prems(1) obtain rand w where w: "random (rk_keyId a) = Some rand"
    "wrapWithRandomness E suite (rk_publicKey a) key rand = Inr w"
    "wrapLoop E suite key random rs (obj_set (rk_keyId a) (JStr w) m) = Inr m'"
    by (auto simp: bindR_eq_Inr split: option.splits)
  show ?case
  proof (cases "r = a")
    case True
    then show ?thesis using w wrapLoop_keeps [OF w(3), of "rk_keyId a"] Cons.prems(2) by simp
  next
    case False
    with Cons.IH [OF w(3)] Cons.prems show ?thesis by simp
  qed
qed simp

lemma wrapLoop_plain:
  assumes "wrapLoop E suite key random rs m = Inr m'" "plain (JObj m)" "\<forall>r \<in> set rs. \<not> index_like (rk_keyId r)"
  shows "plain (JObj m')"
  using assms
proof (induction rs arbitrary: m)
  case (Cons a rs)
  then obtain w where "wrapLoop E suite key random rs (obj_set (rk_keyId a) (JStr w) m) = Inr m'"
    by (auto simp: bindR_eq_Inr split: option.splits)
  moreover have "plain (JObj (obj_set (rk_keyId a) (JStr w) m))" using Cons.prems by (intro plain_obj_set) auto
  ultimately show ?case using Cons by (auto simp del: plain.simps)
qed auto

section \<open>What composing makes\<close>

text \<open>The envelope before it is signed, and the envelope that \<open>compose\<close> returns.\<close>

definition sealed :: "'n compose_input \<Rightarrow> 'n obj \<Rightarrow> 'n obj \<Rightarrow> jstr \<Rightarrow> jstr \<Rightarrow> jstr \<Rightarrow> jstr \<Rightarrow> 'n obj" where
  "sealed inp br er bf ef sig mac =
     assemble inp (obj_set (js ''session_mac'') (JStr mac) (obj_set (js ''signature'') (JStr sig) (seal_json inp br er))) bf ef"

lemma obj_set_present [simp]: "map_of m k = Some v \<Longrightarrow> obj_set k v m = m"
  by (induction k v m rule: jsm_set.induct) (auto split: if_splits)

lemma sealed_setSeal:
  "setSeal (js ''session_mac'') mac (setSeal (js ''signature'') sig (assemble inp (seal_json inp br er) bf ef)) =
   sealed inp br er bf ef sig mac"
  by (simp add: sealed_def setSeal_def assemble_def js_eq)

lemma compose_Inr:
  assumes "compose E inp = Inr env"
  obtains bf ef br er sig where
    "sealSlot E (ci_kBrief inp) (ci_briefAEADNonce inp) (ci_briefPlaintext inp) (e_utf8 E (pm_id (ci_postmark inp))) = Inr bf"
    "sealSlot E (ci_kEnclosure inp) (ci_enclosureAEADNonce inp) (ci_enclosurePlaintext inp)
       (e_utf8 E (pm_id (ci_postmark inp))) = Inr ef"
    "wrapLoop E (ci_suite inp) (ci_kBrief inp) (ci_wrapRandomness inp) (ci_briefRecipients inp) [] = Inr br"
    "wrapLoop E (ci_suite inp) (ci_kEnclosure inp) (enclosureRandomness (ci_wrapRandomness inp))
       (ci_enclosureRecipients inp) [] = Inr er"
    "length (ci_senderDomainSigningSeed inp) = 32"
    "sig = ed_sign (e_prims E) (e_utf8 E EnvelopePrefix @
       canonicalEnvelopeFor E (JObj (assemble inp (seal_json inp br er) bf ef))) (ci_senderDomainSigningSeed inp)"
    "env = sealed inp br er bf ef (e_enc64 E sig) (e_enc64 E (computeMAC (e_prims E) (ci_kEnvMAC inp)
       (canonicalEnvelopeFor E (JObj (assemble inp (seal_json inp br er) bf ef)))))"
  using assms unfolding sealed_setSeal [symmetric]
  by (auto simp: compose_def bindR_eq_Inr Let_def sign_def split: if_splits)

lemma sealed_fields:
  "map_of (sealed inp br er bf ef sig mac) (js ''postmark'') = Some (JObj (postmark_json (ci_postmark inp)))"
  "map_of (sealed inp br er bf ef sig mac) (js ''brief'') = Some (JStr bf)"
  "map_of (sealed inp br er bf ef sig mac) (js ''enclosure'') = Some (JStr ef)"
  "\<exists>s. map_of (sealed inp br er bf ef sig mac) (js ''seal'') = Some (JObj s) \<and>
     map_of s (js ''signature'') = Some (JStr sig) \<and> map_of s (js ''session_mac'') = Some (JStr mac) \<and>
     map_of s (js ''brief_recipients'') = Some (JObj br) \<and> map_of s (js ''enclosure_recipients'') = Some (JObj er) \<and>
     map_of s (js ''key_id'') = Some (JStr (ci_sealKeyId inp))"
  by (simp_all add: sealed_def assemble_def seal_json_def js_eq split: option.splits)

text \<open>The canonical bytes do not see the two proofs.\<close>

lemma canonical_sealed:
  "canonicalEnvelopeFor E (JObj (sealed inp br er bf ef sig mac)) =
   canonicalEnvelopeFor E (JObj (assemble inp (seal_json inp br er) bf ef))"
  by (simp add: canonicalEnvelopeFor_def marshalWithElision_def envelopeElider_def sealed_def assemble_def
      seal_json_def blankIn_def js_eq)


section \<open>Opening what was composed\<close>

definition compose_ok :: "'n compose_input \<Rightarrow> bool" where
  "compose_ok inp \<longleftrightarrow>
     distinct (map rk_keyId (ci_briefRecipients inp)) \<and> distinct (map rk_keyId (ci_enclosureRecipients inp)) \<and>
     (\<forall>r \<in> set (ci_briefRecipients inp @ ci_enclosureRecipients inp). \<not> index_like (rk_keyId r)) \<and>
     length (ci_kBrief inp) = 32 \<and> length (ci_kEnclosure inp) = 32 \<and>
     plain (ci_briefPlaintext inp) \<and> plain (ci_enclosurePlaintext inp) \<and>
     plain (JObj (case pm_extensions (ci_postmark inp) of None \<Rightarrow> [] | Some x \<Rightarrow> x)) \<and>
     plain (JObj (case ci_sealExtensions inp of None \<Rightarrow> [] | Some x \<Rightarrow> x)) \<and>
     plain (JObj (case ci_extensions inp of None \<Rightarrow> [] | Some x \<Rightarrow> x))"

lemma openSlot_sealed:
  assumes env: "envelope_env E" and pair: "key_pair (e_prims E) (suiteName suite) priv (rk_publicKey r)"
    and m: "map_of m (js ''postmark'') = Some (JObj (postmark_json pm))" "map_of m (js ''seal'') = Some (JObj s)"
      "map_of s (js slots) = Some (JObj rcpts)" "map_of m (js fieldName) = Some (JStr fv)"
    and w: "wrapLoop E suite key random rs [] = Inr rcpts" "distinct (map rk_keyId rs)" "r \<in> set rs"
    and f: "sealSlot E key nonce payload (e_utf8 E (pm_id pm)) = Inr fv"
    and pl: "length key = 32" "plain payload"
  shows "openSlot E slots fieldName suite (Some (JObj m)) (rk_keyId r) priv (rk_publicKey r) = Inr (Some (sorted_form payload))"
proof -
  note ok = envelope_env_parts [OF env]
  from wrapLoop_slot [OF w] obtain rand wrapped where wr: "wrapWithRandomness E suite (rk_publicKey r) key rand = Inr wrapped"
    "map_of rcpts (rk_keyId r) = Some (JStr wrapped)" by blast
  from f obtain ct where ct: "chacha_enc (e_prims E) key nonce (e_utf8 E (pm_id pm)) (marshalE E payload) = Some ct"
    "length nonce = 12" "fv = e_enc64 E (nonce @ ct)"
    by (auto simp: sealSlot_def bindR_eq_Inr aeadSeal_def split: if_splits)
  have dec: "chacha_dec (e_prims E) key nonce (e_utf8 E (pm_id pm)) ct = Some (marshalE E payload)"
    using ok(3) ct pl(1) unfolding aead_ok_def by (metis option.inject)
  have "map_of (postmark_json pm) (js ''id'') = Some (JStr (pm_id pm))" by (simp add: postmark_json_def)
  then show ?thesis
    using m wr(2) unwrap_wrap [OF env pair wr(1) pl(1)] dec ct(2,3) ok(5) parse_marshal [OF ok(1) pl(2)]
    by (simp add: openSlot_def fld_def Let_def b64_def aeadOpen_def parseFrame_def cr_def)
qed

lemma openSlot_absent:
  assumes "map_of m (js ''postmark'') = Some (JObj (postmark_json pm))" "map_of m (js ''seal'') = Some (JObj s)"
    "map_of s (js slots) = Some (JObj rcpts)" "map_of rcpts keyId = None"
  shows "openSlot E slots fieldName suite (Some (JObj m)) keyId priv pub = Inl (HsFail ''recipient not in slot'')"
  using assms by (simp add: openSlot_def fld_def Let_def postmark_json_def)

lemma sealed_plain:
  assumes "compose_ok inp" "plain (JObj br)" "plain (JObj er)"
  shows "plain (JObj (sealed inp br er bf ef sig mac))"
proof -
  have "plain (JObj (seal_json inp br er))" "plain (JObj (postmark_json (ci_postmark inp)))"
    using assms by (simp_all add: compose_ok_def seal_json_def postmark_json_def js_eq del: plain.simps(2))
      (simp_all add: js_eq)
  then have "plain (JObj (obj_set (js ''session_mac'') (JStr mac) (obj_set (js ''signature'') (JStr sig) (seal_json inp br er))))"
    by (intro plain_obj_set) simp_all
  with \<open>plain (JObj (postmark_json (ci_postmark inp)))\<close> assms(1) show ?thesis
    by (cases "ci_extensions inp") (simp_all add: sealed_def assemble_def compose_ok_def js_eq)
qed

lemma wire_roundtrip:
  assumes "envelope_env E" "plain (JObj m)" "map_of m (js ''type'') = Some (str ''SEMP_ENVELOPE'')"
  shows "decodeEnvelope E (encodeEnvelope E m) = Inr m"
proof -
  have "print (e_numstr E) (JObj m) \<noteq> []" by simp
  then have "encodeEnvelope E m \<noteq> []" using assms(1) unfolding encodeEnvelope_def envelope_env_def by blast
  moreover have "e_parse E (encodeEnvelope E m) = Some (JObj m)"
    using assms(1,2) unfolding encodeEnvelope_def envelope_env_def parse_ok_def by blast
  ultimately show ?thesis using assms(3) by (simp add: decodeEnvelope_def)
qed



lemma compose_ok_parts:
  assumes "compose_ok inp"
  shows "distinct (map rk_keyId (ci_briefRecipients inp))" "distinct (map rk_keyId (ci_enclosureRecipients inp))"
    "\<forall>r \<in> set (ci_briefRecipients inp). \<not> index_like (rk_keyId r)"
    "\<forall>r \<in> set (ci_enclosureRecipients inp). \<not> index_like (rk_keyId r)"
    "length (ci_kBrief inp) = 32" "length (ci_kEnclosure inp) = 32"
    "plain (ci_briefPlaintext inp)" "plain (ci_enclosurePlaintext inp)"
  using assms by (simp_all add: compose_ok_def)

text \<open>The parts of a composed envelope.\<close>

lemma composed:
  assumes "compose_ok inp" "compose E inp = Inr env"
  obtains bf ef br er sig s where
    "sealSlot E (ci_kBrief inp) (ci_briefAEADNonce inp) (ci_briefPlaintext inp) (e_utf8 E (pm_id (ci_postmark inp))) = Inr bf"
    "sealSlot E (ci_kEnclosure inp) (ci_enclosureAEADNonce inp) (ci_enclosurePlaintext inp)
       (e_utf8 E (pm_id (ci_postmark inp))) = Inr ef"
    "wrapLoop E (ci_suite inp) (ci_kBrief inp) (ci_wrapRandomness inp) (ci_briefRecipients inp) [] = Inr br"
    "wrapLoop E (ci_suite inp) (ci_kEnclosure inp) (enclosureRandomness (ci_wrapRandomness inp))
       (ci_enclosureRecipients inp) [] = Inr er"
    "map_of env (js ''postmark'') = Some (JObj (postmark_json (ci_postmark inp)))"
    "map_of env (js ''brief'') = Some (JStr bf)" "map_of env (js ''enclosure'') = Some (JStr ef)"
    "map_of env (js ''seal'') = Some (JObj s)"
    "map_of s (js ''brief_recipients'') = Some (JObj br)" "map_of s (js ''enclosure_recipients'') = Some (JObj er)"
    "map_of s (js ''key_id'') = Some (JStr (ci_sealKeyId inp))"
    "sig = ed_sign (e_prims E) (e_utf8 E EnvelopePrefix @ canonicalEnvelopeFor E (JObj env)) (ci_senderDomainSigningSeed inp)"
    "map_of s (js ''signature'') = Some (JStr (e_enc64 E sig))"
    "map_of s (js ''session_mac'') =
       Some (JStr (e_enc64 E (computeMAC (e_prims E) (ci_kEnvMAC inp) (canonicalEnvelopeFor E (JObj env)))))"
    "plain (JObj env)" "map_of env (js ''type'') = Some (str ''SEMP_ENVELOPE'')"
proof -
  from compose_Inr [OF assms(2)] obtain bf ef br er sig where c:
    "sealSlot E (ci_kBrief inp) (ci_briefAEADNonce inp) (ci_briefPlaintext inp) (e_utf8 E (pm_id (ci_postmark inp))) = Inr bf"
    "sealSlot E (ci_kEnclosure inp) (ci_enclosureAEADNonce inp) (ci_enclosurePlaintext inp)
       (e_utf8 E (pm_id (ci_postmark inp))) = Inr ef"
    "wrapLoop E (ci_suite inp) (ci_kBrief inp) (ci_wrapRandomness inp) (ci_briefRecipients inp) [] = Inr br"
    "wrapLoop E (ci_suite inp) (ci_kEnclosure inp) (enclosureRandomness (ci_wrapRandomness inp))
       (ci_enclosureRecipients inp) [] = Inr er"
    and l: "length (ci_senderDomainSigningSeed inp) = 32"
    and g: "sig = ed_sign (e_prims E) (e_utf8 E EnvelopePrefix @
       canonicalEnvelopeFor E (JObj (assemble inp (seal_json inp br er) bf ef))) (ci_senderDomainSigningSeed inp)"
    "env = sealed inp br er bf ef (e_enc64 E sig) (e_enc64 E (computeMAC (e_prims E) (ci_kEnvMAC inp)
       (canonicalEnvelopeFor E (JObj (assemble inp (seal_json inp br er) bf ef)))))"
    .
  have can: "canonicalEnvelopeFor E (JObj (assemble inp (seal_json inp br er) bf ef)) = canonicalEnvelopeFor E (JObj env)"
    unfolding g(2) canonical_sealed ..
  have "plain (JObj br)" "plain (JObj er)"
    using compose_ok_parts(3,4) [OF assms(1)] by (auto intro!: wrapLoop_plain [OF c(3)] wrapLoop_plain [OF c(4)] simp del: plain.simps) simp_all
  from sealed_plain [OF assms(1) this] have p: "plain (JObj env)" unfolding g(2) .
  have ty: "map_of env (js ''type'') = Some (str ''SEMP_ENVELOPE'')" by (simp add: g(2) sealed_def assemble_def)
  note fields = sealed_fields [of inp br er bf ef "e_enc64 E sig" "e_enc64 E (computeMAC (e_prims E) (ci_kEnvMAC inp)
       (canonicalEnvelopeFor E (JObj (assemble inp (seal_json inp br er) bf ef))))", folded g(2)]
  from fields(4) obtain s where s: "map_of env (js ''seal'') = Some (JObj s)"
    "map_of s (js ''signature'') = Some (JStr (e_enc64 E sig))"
    "map_of s (js ''session_mac'') = Some (JStr (e_enc64 E (computeMAC (e_prims E) (ci_kEnvMAC inp)
       (canonicalEnvelopeFor E (JObj (assemble inp (seal_json inp br er) bf ef))))))"
    "map_of s (js ''brief_recipients'') = Some (JObj br)" "map_of s (js ''enclosure_recipients'') = Some (JObj er)"
    "map_of s (js ''key_id'') = Some (JStr (ci_sealKeyId inp))" by (elim exE conjE)
  show ?thesis
    by (rule that [OF c fields(1-3) s(1,4,5,6) g(1) [unfolded can] s(2) s(3) [unfolded can] p ty])
qed


section \<open>Composing succeeds\<close>

definition rand_ok :: "suite \<Rightarrow> wrap_randomness \<Rightarrow> bool" where
  "rand_ok suite rand \<longleftrightarrow> length (wr_ephemeralX25519Priv rand) = 32 \<and>
     (suite = Hybrid \<longrightarrow> (\<exists>m. wr_kyberEncapsRandomnessM rand = Some m \<and> length m = 32))"

definition recipients_ok :: "primitives \<Rightarrow> suite \<Rightarrow> (jstr \<Rightarrow> wrap_randomness option) \<Rightarrow> recipient_key list \<Rightarrow> bool" where
  "recipients_ok C suite random rs \<longleftrightarrow>
     (\<forall>r \<in> set rs. (\<exists>priv. key_pair C (suiteName suite) priv (rk_publicKey r)) \<and>
        (\<exists>rand. random (rk_keyId r) = Some rand \<and> rand_ok suite rand))"

lemma encapsulate_total:
  assumes "prims_ok C" "key_pair C (suiteName suite) priv pub" "rand_ok suite rand"
  shows "\<exists>ct ss. encapsulate C suite pub rand = (Inr (ct, ss) :: 'n hs_error + _)"
proof (cases suite)
  case Baseline
  with assms(2) have p: "x_public C priv = Some pub" by (simp add: key_pair_def js_eq)
  then have "length pub = 32" using prims_parts(1) [OF assms(1)] unfolding dh_ok_def by blast
  moreover obtain ep ss where "x_public C (wr_ephemeralX25519Priv rand) = Some ep"
    "x_shared C (wr_ephemeralX25519Priv rand) pub = Some ss"
    using prims_parts(3) [OF assms(1)] assms(3) p unfolding prims_total_def rand_ok_def by (metis option.exhaust)
  ultimately show ?thesis using Baseline
    by (simp add: encapsulate_def X25519Size_def x25519PublicKey_def x25519Agree_def cr_def)
next
  case Hybrid
  with assms(2,3) obtain x seed m where g: "hybridGenerateKeyPair C x seed = Inr (pub, priv)"
    and m: "wr_kyberEncapsRandomnessM rand = Some m" "length m = 32" "length (wr_ephemeralX25519Priv rand) = 32"
    by (auto simp: key_pair_def rand_ok_def)
  from hybridEncapsulate_total [OF assms(1) g m(3,2)] obtain ct ss where
    "hybridEncapsulate C (wr_ephemeralX25519Priv rand) m pub = Inr (ct, ss)" "length pub = HybridPublicKeySize" by blast
  then show ?thesis using Hybrid m(1)
    by (auto simp: hybridEncapsulate_def encapsulate_def Let_def bindR_eq_Inr kyber768EncapsulateDeterministic_def cr_def)
qed

lemma wrap_total:
  assumes "envelope_env E" "key_pair (e_prims E) (suiteName suite) priv pub" "rand_ok suite rand"
  shows "\<exists>w. wrapWithRandomness E suite pub key rand = Inr w"
  using encapsulate_total [OF envelope_env_parts(2) [OF assms(1)] assms(2,3)]
    envelope_env_parts(3) [OF assms(1)] wrapKey_length [OF envelope_env_parts(2) [OF assms(1)]]
  unfolding wrapWithRandomness_Inr aead_ok_def by (metis length_replicate)

lemma wrapLoop_total:
  assumes "envelope_env E" "recipients_ok (e_prims E) suite random rs"
  shows "\<exists>m'. wrapLoop E suite key random rs m = Inr m'"
  using assms(2)
proof (induction rs arbitrary: m)
  case (Cons r rs)
  then obtain priv rand where r: "key_pair (e_prims E) (suiteName suite) priv (rk_publicKey r)"
    "random (rk_keyId r) = Some rand" "rand_ok suite rand" by (auto simp: recipients_ok_def)
  from wrap_total [OF assms(1) r(1,3)] obtain w where "wrapWithRandomness E suite (rk_publicKey r) key rand = Inr w" ..
  moreover have "recipients_ok (e_prims E) suite random rs" using Cons.prems by (simp add: recipients_ok_def)
  ultimately show ?case using Cons.IH r(2) by simp
qed simp

lemma sealSlot_total:
  assumes "aead_ok (e_prims E)" "length key = 32" "length nonce = 12"
  shows "\<exists>f. sealSlot E key nonce payload aad = Inr f"
proof -
  obtain c where "chacha_enc (e_prims E) key nonce aad (marshalE E payload) = Some c"
    using assms unfolding aead_ok_def by blast
  with assms(3) show ?thesis by (simp add: sealSlot_def aeadSeal_def cr_def)
qed

definition compose_ready :: "'n env \<Rightarrow> 'n compose_input \<Rightarrow> bool" where
  "compose_ready E inp \<longleftrightarrow> compose_ok inp \<and>
     length (ci_briefAEADNonce inp) = 12 \<and> length (ci_enclosureAEADNonce inp) = 12 \<and>
     length (ci_senderDomainSigningSeed inp) = 32 \<and>
     recipients_ok (e_prims E) (ci_suite inp) (ci_wrapRandomness inp) (ci_briefRecipients inp) \<and>
     recipients_ok (e_prims E) (ci_suite inp) (enclosureRandomness (ci_wrapRandomness inp)) (ci_enclosureRecipients inp)"

lemma compose_total:
  assumes "envelope_env E" "compose_ready E inp"
  obtains env where "compose E inp = Inr env"
proof -
  have ok: "compose_ok inp" "length (ci_briefAEADNonce inp) = 12" "length (ci_enclosureAEADNonce inp) = 12"
    "length (ci_senderDomainSigningSeed inp) = 32"
    "recipients_ok (e_prims E) (ci_suite inp) (ci_wrapRandomness inp) (ci_briefRecipients inp)"
    "recipients_ok (e_prims E) (ci_suite inp) (enclosureRandomness (ci_wrapRandomness inp)) (ci_enclosureRecipients inp)"
    using assms(2) by (simp_all add: compose_ready_def)
  note aead = envelope_env_parts(3) [OF assms(1)]
  obtain bf where "sealSlot E (ci_kBrief inp) (ci_briefAEADNonce inp) (ci_briefPlaintext inp)
      (e_utf8 E (pm_id (ci_postmark inp))) = Inr bf"
    using sealSlot_total [OF aead compose_ok_parts(5) [OF ok(1)] ok(2)] ..
  moreover obtain ef where "sealSlot E (ci_kEnclosure inp) (ci_enclosureAEADNonce inp) (ci_enclosurePlaintext inp)
      (e_utf8 E (pm_id (ci_postmark inp))) = Inr ef"
    using sealSlot_total [OF aead compose_ok_parts(6) [OF ok(1)] ok(3)] ..
  moreover obtain br where "wrapLoop E (ci_suite inp) (ci_kBrief inp) (ci_wrapRandomness inp) (ci_briefRecipients inp) [] = Inr br"
    using wrapLoop_total [OF assms(1) ok(5)] ..
  moreover obtain er where "wrapLoop E (ci_suite inp) (ci_kEnclosure inp) (enclosureRandomness (ci_wrapRandomness inp))
      (ci_enclosureRecipients inp) [] = Inr er"
    using wrapLoop_total [OF assms(1) ok(6)] ..
  ultimately show ?thesis using that ok(4) by (simp add: compose_def sign_def cr_def Let_def)
qed


section \<open>Opening a composed envelope\<close>

lemma composed_opens:
  assumes env: "envelope_env E" and ok: "compose_ok inp" and c: "compose E inp = Inr env"
    and r: "r \<in> set (ci_briefRecipients inp)" "key_pair (e_prims E) (suiteName (ci_suite inp)) priv (rk_publicKey r)"
  shows "decodeEnvelope E (encodeEnvelope E env) = Inr env"
    and "openBriefForRecipient E (ci_suite inp) (Some (JObj env)) (rk_keyId r) priv (rk_publicKey r) =
      Inr (Some (sorted_form (ci_briefPlaintext inp)))"
    and "r \<in> set (ci_enclosureRecipients inp) \<Longrightarrow>
      openEnclosureForRecipient E (ci_suite inp) (Some (JObj env)) (rk_keyId r) priv (rk_publicKey r) =
      Inr (Some (sorted_form (ci_enclosurePlaintext inp)))"
    and "rk_keyId r \<notin> set (map rk_keyId (ci_enclosureRecipients inp)) \<Longrightarrow>
      openEnclosureForRecipient E (ci_suite inp) (Some (JObj env)) (rk_keyId r) priv (rk_publicKey r) =
      Inl (HsFail ''recipient not in slot'')"
proof -
  obtain bf ef br er sig s where p:
    "sealSlot E (ci_kBrief inp) (ci_briefAEADNonce inp) (ci_briefPlaintext inp) (e_utf8 E (pm_id (ci_postmark inp))) = Inr bf"
    "sealSlot E (ci_kEnclosure inp) (ci_enclosureAEADNonce inp) (ci_enclosurePlaintext inp)
       (e_utf8 E (pm_id (ci_postmark inp))) = Inr ef"
    "wrapLoop E (ci_suite inp) (ci_kBrief inp) (ci_wrapRandomness inp) (ci_briefRecipients inp) [] = Inr br"
    "wrapLoop E (ci_suite inp) (ci_kEnclosure inp) (enclosureRandomness (ci_wrapRandomness inp))
       (ci_enclosureRecipients inp) [] = Inr er"
    and m: "map_of env (js ''postmark'') = Some (JObj (postmark_json (ci_postmark inp)))"
    "map_of env (js ''brief'') = Some (JStr bf)" "map_of env (js ''enclosure'') = Some (JStr ef)"
    "map_of env (js ''seal'') = Some (JObj s)"
    "map_of s (js ''brief_recipients'') = Some (JObj br)" "map_of s (js ''enclosure_recipients'') = Some (JObj er)"
    and w: "plain (JObj env)" "map_of env (js ''type'') = Some (str ''SEMP_ENVELOPE'')"
    using composed [OF ok c] .
  note parts = compose_ok_parts [OF ok]
  show "decodeEnvelope E (encodeEnvelope E env) = Inr env" by (rule wire_roundtrip [OF env w])
  show "openBriefForRecipient E (ci_suite inp) (Some (JObj env)) (rk_keyId r) priv (rk_publicKey r) =
      Inr (Some (sorted_form (ci_briefPlaintext inp)))"
    unfolding openBriefForRecipient_def
    by (rule openSlot_sealed [OF env r(2) m(1,4,5,2) p(3) parts(1) r(1) p(1) parts(5,7)])
  show "openEnclosureForRecipient E (ci_suite inp) (Some (JObj env)) (rk_keyId r) priv (rk_publicKey r) =
      Inr (Some (sorted_form (ci_enclosurePlaintext inp)))" if "r \<in> set (ci_enclosureRecipients inp)"
    unfolding openEnclosureForRecipient_def
    by (rule openSlot_sealed [OF env r(2) m(1,4,6,3) p(4) parts(2) that p(2) parts(6,8)])
  show "openEnclosureForRecipient E (ci_suite inp) (Some (JObj env)) (rk_keyId r) priv (rk_publicKey r) =
      Inl (HsFail ''recipient not in slot'')"
    if "rk_keyId r \<notin> set (map rk_keyId (ci_enclosureRecipients inp))"
    unfolding openEnclosureForRecipient_def
    by (rule openSlot_absent [OF m(1,4,6)]) (use wrapLoop_keeps [OF p(4) that] in simp)
qed

text \<open>C23. Composing an envelope succeeds on inputs of the right sizes, under either suite, and every recipient
  reads it: the envelope survives its wire format; a recipient of the brief opens the brief with its private
  key; one that is a recipient of both slots opens both and gets the payloads that were sealed (with the
  keys of their objects in canonical order); a recipient of the brief that is no recipient of the enclosure,
  such as a routing server, cannot open the enclosure.\<close>

theorem envelope_roundtrip:
  assumes "envelope_env E" "compose_ready E inp"
  shows "\<exists>env. compose E inp = Inr env \<and> decodeEnvelope E (encodeEnvelope E env) = Inr env \<and>
    (\<forall>r \<in> set (ci_briefRecipients inp). \<forall>priv.
       key_pair (e_prims E) (suiteName (ci_suite inp)) priv (rk_publicKey r) \<longrightarrow>
       openBriefForRecipient E (ci_suite inp) (Some (JObj env)) (rk_keyId r) priv (rk_publicKey r) =
         Inr (Some (sorted_form (ci_briefPlaintext inp))) \<and>
       (r \<in> set (ci_enclosureRecipients inp) \<longrightarrow>
         openForRecipient E (ci_suite inp) (Some (JObj env)) (rk_keyId r) priv (rk_publicKey r) =
           Inr (Some (sorted_form (ci_briefPlaintext inp)), Some (sorted_form (ci_enclosurePlaintext inp)))) \<and>
       (rk_keyId r \<notin> set (map rk_keyId (ci_enclosureRecipients inp)) \<longrightarrow>
         openForRecipient E (ci_suite inp) (Some (JObj env)) (rk_keyId r) priv (rk_publicKey r) =
           Inl (HsFail ''recipient not in slot'')))"
proof -
  obtain env where c: "compose E inp = Inr env" using compose_total [OF assms] .
  have ok: "compose_ok inp" using assms(2) by (simp add: compose_ready_def)
  have "plain (JObj env) \<and> map_of env (js ''type'') = Some (str ''SEMP_ENVELOPE'')"
    using composed [OF ok c] by metis
  then have "decodeEnvelope E (encodeEnvelope E env) = Inr env" using wire_roundtrip [OF assms(1)] by blast
  with c composed_opens(2-4) [OF assms(1) ok c] show ?thesis
    by (intro exI [of _ env] conjI ballI allI impI) (simp_all add: openForRecipient_def)
qed

section \<open>The two proofs of the seal\<close>

lemma fld_object: "map_of m (js k) = Some v \<Longrightarrow> fld (Some (JObj m)) k = Inr (Some v)"
  by (simp add: fld_def)

lemma proofs_verify:
  assumes env: "envelope_env E" and ok: "compose_ok inp" and c: "compose E inp = Inr env"
    and scheme: "scheme_ok (plat E) (ci_senderDomainSigningSeed inp) pub"
  shows "verifySealSignature E (Some (JObj env)) pub = Inr True"
    and "verifySessionMAC E (Some (JObj env)) (ci_kEnvMAC inp) = Inr True"
proof -
  let ?can = "canonicalEnvelopeFor E (JObj env)"
  obtain sig s where m: "map_of env (js ''seal'') = Some (JObj s)"
    "sig = ed_sign (e_prims E) (e_utf8 E EnvelopePrefix @ ?can) (ci_senderDomainSigningSeed inp)"
    "map_of s (js ''signature'') = Some (JStr (e_enc64 E sig))"
    "map_of s (js ''session_mac'') = Some (JStr (e_enc64 E (computeMAC (e_prims E) (ci_kEnvMAC inp) ?can)))"
    using composed [OF ok c] .
  have nonempty: "b \<noteq> [] \<Longrightarrow> e_enc64 E b \<noteq> []" for b using env by (simp add: envelope_env_def)
  have v: "verify (e_prims E) pub sig (e_utf8 E EnvelopePrefix @ ?can)"
    using scheme m(2) by (simp add: scheme_ok_def plat_def)
  then have "sig \<noteq> []" by (auto simp: verify_def)
  then show "verifySealSignature E (Some (JObj env)) pub = Inr True"
    using m(1,3) v nonempty envelope_env_parts(5) [OF env] by (simp add: verifySealSignature_def fld_object)
  have "length (computeMAC (e_prims E) (ci_kEnvMAC inp) ?can) = 32"
    using env by (simp add: envelope_env_def computeMAC_def)
  then have "computeMAC (e_prims E) (ci_kEnvMAC inp) ?can \<noteq> []" by (metis list.size(3) zero_neq_numeral)
  then show "verifySessionMAC E (Some (JObj env)) (ci_kEnvMAC inp) = Inr True"
    using m(1,4) nonempty envelope_env_parts(5) [OF env] by (simp add: verifySessionMAC_def fld_object)
qed


lemma plain_field:
  assumes "plain (JObj m)" "map_of m k = Some v"
  shows "plain v"
  using map_of_SomeD [OF assms(2)] assms(1) by fastforce

lemma blankIn_get: "x \<noteq> k \<Longrightarrow> map_of (blankIn k m) x = map_of m x"
  by (simp add: blankIn_def)

lemma same_fields:
  assumes "sorted_form (JObj a) = sorted_form (JObj b)" "plain (JObj a)" "plain (JObj b)"
  shows "map_option sorted_form (map_of a x) = map_option sorted_form (map_of b x)"
proof -
  have "distinct (map fst a)" "distinct (map fst b)" using assms(2,3) by simp_all
  from map_of_sorted_form [OF this(1), of x] map_of_sorted_form [OF this(2), of x] assms(1)
  show ?thesis by (simp only: sorted_form.simps json.inject)
qed

text \<open>The loop over the candidates skips those without a slot.\<close>

lemma openAnyLoop_skip:
  assumes "map_of m (js ''seal'') = Some (JObj s)" "map_of s (js slots) = Some (JObj rcpts)"
    and "\<forall>x \<in> set before. map_of rcpts (ca_keyId x) = None"
  shows "openAnyLoop E slots fieldName suite (Some (JObj m)) (before @ cs) failed =
    openAnyLoop E slots fieldName suite (Some (JObj m)) cs failed"
  using assms(3) by (induction before) (simp_all add: fld_object [OF assms(1)] fld_object [OF assms(2)])

lemma openAnyLoop_first:
  assumes "map_of m (js ''seal'') = Some (JObj s)" "map_of s (js slots) = Some (JObj rcpts)"
    and "\<forall>x \<in> set before. map_of rcpts (ca_keyId x) = None" "map_of rcpts (ca_keyId c) = Some w"
    and "openSlot E slots fieldName suite (Some (JObj m)) (ca_keyId c) (ca_privateKey c) (ca_publicKey c) = Inr v"
  shows "openAnyLoop E slots fieldName suite (Some (JObj m)) (before @ c # after) failed = Inr (c, v)"
  unfolding openAnyLoop_skip [OF assms(1-3)]
  using assms(4,5) by (simp add: fld_object [OF assms(1)] fld_object [OF assms(2)])

lemma postmark_fields:
  "map_of (postmark_json p) (js ''from_domain'') = Some (JStr (pm_from_domain p))"
  "map_of (postmark_json p) (js ''id'') = Some (JStr (pm_id p))"
  by (simp_all add: postmark_json_def js_eq)

text \<open>C24. The receiving client accepts an honestly composed envelope: both proofs of the seal verify, the
  signature under the domain key of the sender and the MAC under the session's key, and \<open>openAndVerify\<close>,
  given a resolver that knows that key and a list of device keys, skips the devices that have no slot and
  returns the payloads opened with the first device that has one.\<close>

theorem envelope_accepted:
  assumes "envelope_env E" "compose_ready E inp" "compose E inp = Inr env"
    and "scheme_ok (plat E) (ci_senderDomainSigningSeed inp) pub"
    and "resolver (Some (JStr (pm_from_domain (ci_postmark inp)))) (Some (JStr (ci_sealKeyId inp))) = Inr (Some pub)"
    and "r \<in> set (ci_briefRecipients inp)" "r \<in> set (ci_enclosureRecipients inp)"
    and "ca_keyId c = rk_keyId r" "ca_publicKey c = rk_publicKey r"
    and "key_pair (e_prims E) (suiteName (ci_suite inp)) (ca_privateKey c) (rk_publicKey r)"
    and "\<forall>x \<in> set before. ca_keyId x \<notin> rk_keyId ` set (ci_briefRecipients inp @ ci_enclosureRecipients inp)"
  shows "verifySealSignature E (Some (JObj env)) pub = Inr True \<and>
    verifySessionMAC E (Some (JObj env)) (ci_kEnvMAC inp) = Inr True \<and>
    openAndVerify E resolver (ci_suite inp) (Some (JObj env)) (before @ c # after) =
      Inr \<lparr>ve_senderDomainPub = pub, ve_candidate = c, ve_brief = Some (sorted_form (ci_briefPlaintext inp)),
        ve_enclosure = Some (sorted_form (ci_enclosurePlaintext inp))\<rparr>"
proof -
  have ok: "compose_ok inp" using assms(2) by (simp add: compose_ready_def)
  obtain br er s where p:
    "wrapLoop E (ci_suite inp) (ci_kBrief inp) (ci_wrapRandomness inp) (ci_briefRecipients inp) [] = Inr br"
    "wrapLoop E (ci_suite inp) (ci_kEnclosure inp) (enclosureRandomness (ci_wrapRandomness inp))
       (ci_enclosureRecipients inp) [] = Inr er"
    and m: "map_of env (js ''postmark'') = Some (JObj (postmark_json (ci_postmark inp)))"
    "map_of env (js ''seal'') = Some (JObj s)" "map_of s (js ''brief_recipients'') = Some (JObj br)"
    "map_of s (js ''enclosure_recipients'') = Some (JObj er)" "map_of s (js ''key_id'') = Some (JStr (ci_sealKeyId inp))"
    using composed [OF ok assms(3)] .
  note slots = wrapLoop_slot [OF p(1) compose_ok_parts(1) [OF ok] assms(6)]
    wrapLoop_slot [OF p(2) compose_ok_parts(2) [OF ok] assms(7)]
  note skip = wrapLoop_keeps [OF p(1)] wrapLoop_keeps [OF p(2)]
  note opens = composed_opens [OF assms(1) ok assms(3,6,10)]
  have "openBriefAny E (ci_suite inp) (Some (JObj env)) (before @ c # after) =
      Inr (c, Some (sorted_form (ci_briefPlaintext inp)))"
  proof -
    from slots(1) obtain w where "map_of br (ca_keyId c) = Some w" using assms(8) by auto
    moreover have "\<forall>x \<in> set before. map_of br (ca_keyId x) = None"
      using assms(11) by (intro ballI) (subst skip(1), auto)
    ultimately show ?thesis using openAnyLoop_first [OF m(2,3)] opens(2) assms(8,9)
      by (simp add: openBriefAny_def openBriefForRecipient_def del: openAnyLoop.simps)
  qed
  moreover have "openEnclosureAny E (ci_suite inp) (Some (JObj env)) (before @ c # after) =
      Inr (c, Some (sorted_form (ci_enclosurePlaintext inp)))"
  proof -
    from slots(2) obtain w where "map_of er (ca_keyId c) = Some w" using assms(8) by auto
    moreover have "\<forall>x \<in> set before. map_of er (ca_keyId x) = None"
      using assms(11) by (intro ballI) (subst skip(2), auto)
    ultimately show ?thesis using openAnyLoop_first [OF m(2,4)] opens(3) [OF assms(7)] assms(8,9)
      by (simp add: openEnclosureAny_def openEnclosureForRecipient_def del: openAnyLoop.simps)
  qed
  ultimately show ?thesis
    using proofs_verify [OF assms(1) ok assms(3,4)] m(1,2,5) assms(5)
    by (simp add: openAndVerify_def fld_object postmark_fields callback_def)
qed

lemma same_canonical:
  assumes "number_format (e_numstr E)" "inj_on (e_utf8 E) {s. well_formed s}"
    and "plain (JObj a)" "plain (JObj b)" "map_of a (js ''seal'') = Some (JObj s)" "map_of b (js ''seal'') = Some (JObj t)"
    and "canonicalEnvelopeFor E (JObj a) = canonicalEnvelopeFor E (JObj b)"
  shows "x \<noteq> js ''seal'' \<Longrightarrow> map_option sorted_form (map_of a x) = map_option sorted_form (map_of b x)"
    and "y \<noteq> js ''signature'' \<Longrightarrow> y \<noteq> js ''session_mac'' \<Longrightarrow>
      map_option sorted_form (map_of s y) = map_option sorted_form (map_of t y)"
proof -
  let ?a = "obj_set (js ''seal'') (JObj (blankIn (js ''session_mac'') (blankIn (js ''signature'') s))) a"
  let ?b = "obj_set (js ''seal'') (JObj (blankIn (js ''session_mac'') (blankIn (js ''signature'') t))) b"
  have e: "envelopeElider (JObj a) = JObj ?a" "envelopeElider (JObj b) = JObj ?b"
    using assms(5,6) by (simp_all add: envelopeElider_def)
  from assms(7) have "e_utf8 E (serialize (e_numstr E) (JObj ?a)) = e_utf8 E (serialize (e_numstr E) (JObj ?b))"
    unfolding canonicalEnvelopeFor_def marshalWithElision_def e .
  then have "serialize (e_numstr E) (JObj ?a) = serialize (e_numstr E) (JObj ?b)"
    by (rule inj_onD [OF assms(2)]) (simp_all only: mem_Collect_eq serialize_well_formed [OF assms(1)])
  from canonical_text_injective [OF assms(1) this]
  have same: "sorted_form (JObj ?a) = sorted_form (JObj ?b)" .
  have ps: "plain (JObj s)" "plain (JObj t)" using plain_field assms(3-6) by blast+
  have bl: "plain (JObj (blankIn y m))" if "plain (JObj m)" "\<not> index_like y" for y and m :: "'a obj"
    using plain_obj_set [OF that, of "JStr []"] that(1) by (simp add: blankIn_def del: plain.simps) simp
  have pb: "plain (JObj (blankIn (js ''session_mac'') (blankIn (js ''signature'') s)))"
    "plain (JObj (blankIn (js ''session_mac'') (blankIn (js ''signature'') t)))" by (intro bl ps; simp)+
  then have "plain (JObj ?a)" "plain (JObj ?b)" by (intro plain_obj_set assms(3,4); simp)+
  then have eq: "map_option sorted_form (map_of ?a x) = map_option sorted_form (map_of ?b x)" for x
    by (rule same_fields [OF same])
  have "sorted_form (JObj (blankIn (js ''session_mac'') (blankIn (js ''signature'') s))) =
    sorted_form (JObj (blankIn (js ''session_mac'') (blankIn (js ''signature'') t)))"
    using eq [of "js ''seal''"] by simp
  note inner = same_fields [OF this pb]
  show "map_option sorted_form (map_of s y) = map_option sorted_form (map_of t y)"
    if "y \<noteq> js ''signature''" "y \<noteq> js ''session_mac''"
    using inner [of y] that by (simp add: blankIn_get)
  show "map_option sorted_form (map_of a x) = map_option sorted_form (map_of b x)" if "x \<noteq> js ''seal''"
    using eq [of x] that by simp
qed

text \<open>C25. The session MAC covers every field of an envelope: if two envelopes carry the same MAC and both are
  accepted under the same key, then they agree on every field, the padding included, except for the
  signature and the MAC themselves, or their canonical texts are a collision of HMAC under that key.\<close>

theorem session_mac_covers_envelope:
  assumes "number_format (e_numstr E)" "inj_on (e_utf8 E) {s. well_formed s}"
    and "plain (JObj a)" "plain (JObj b)" "map_of a (js ''seal'') = Some (JObj s)" "map_of b (js ''seal'') = Some (JObj t)"
    and "map_of s (js ''session_mac'') = map_of t (js ''session_mac'')"
    and "verifySessionMAC E (Some (JObj a)) k = Inr True" "verifySessionMAC E (Some (JObj b)) k = Inr True"
  shows "((\<forall>x. x \<noteq> js ''seal'' \<longrightarrow> map_option sorted_form (map_of a x) = map_option sorted_form (map_of b x)) \<and>
      (\<forall>x. x \<noteq> js ''signature'' \<and> x \<noteq> js ''session_mac'' \<longrightarrow>
        map_option sorted_form (map_of s x) = map_option sorted_form (map_of t x))) \<or>
    (canonicalEnvelopeFor E (JObj a) \<noteq> canonicalEnvelopeFor E (JObj b) \<and>
      computeMAC (e_prims E) k (canonicalEnvelopeFor E (JObj a)) = computeMAC (e_prims E) k (canonicalEnvelopeFor E (JObj b)))"
proof -
  have mac: "computeMAC (e_prims E) k (canonicalEnvelopeFor E (JObj a)) = computeMAC (e_prims E) k (canonicalEnvelopeFor E (JObj b))"
    using assms(5-9) by (auto simp: verifySessionMAC_def fld_object bindR_eq_Inr fld_def split: if_splits sum.splits)
  show ?thesis
  proof (cases "canonicalEnvelopeFor E (JObj a) = canonicalEnvelopeFor E (JObj b)")
    case True
    from same_canonical [OF assms(1-6) this] show ?thesis by blast
  qed (use mac in simp)
qed


section \<open>Shared randomness\<close>

text \<open>
  ChaCha20 is a stream cipher: the ciphertext is the plaintext combined with a stream that key and nonce
  determine, and the tag follows.
\<close>

definition stream_cipher :: "primitives \<Rightarrow> (bytes \<Rightarrow> bytes \<Rightarrow> nat \<Rightarrow> bytes) \<Rightarrow> bool" where
  "stream_cipher C ks \<longleftrightarrow> (\<forall>k n l. length (ks k n l) = l) \<and>
     (\<forall>k n a p c. chacha_enc C k n a p = Some c \<longrightarrow> take (length p) c = map2 (XOR) p (ks k n (length p)))"

text \<open>The ciphertext of the wrapped key in a recipient's slot, without the tag.\<close>

definition slotCipher :: "'n env \<Rightarrow> 'n jsv \<Rightarrow> string \<Rightarrow> jstr \<Rightarrow> bytes" where
  "slotCipher E env slots keyId =
     (case fld env ''seal'' of Inl e \<Rightarrow> [] | Inr seal \<Rightarrow>
      (case fld seal slots of Inl e \<Rightarrow> [] | Inr recipients \<Rightarrow>
      (case map_of (objOf recipients) keyId of
         Some (JStr w) \<Rightarrow> let raw = e_dec64 E w in take 32 (drop (length raw - 48) raw) | _ \<Rightarrow> [])))"

definition xorBytes :: "bytes \<Rightarrow> bytes \<Rightarrow> bytes" where
  "xorBytes a b = map2 (XOR) a b"

lemma xor_pads:
  assumes "length a = n" "length b = n" "length s = n"
  shows "xorBytes a (xorBytes (map2 (XOR) a s) (map2 (XOR) b s)) = b"
  using assms by (intro nth_equalityI) (simp_all add: xorBytes_def ac_simps)

lemma slotCipher_wrapped:
  fixes E :: "'n env"
  assumes env: "envelope_env E" and stream: "stream_cipher (e_prims E) ks"
    and w: "wrapWithRandomness E suite pub key rand = Inr w" "length key = 32"
    and enc: "encapsulate (e_prims E) suite pub rand = (Inr (ct, ss) :: 'n hs_error + _)"
    and m: "map_of m (js ''seal'') = Some (JObj s)" "map_of s (js slots) = Some (JObj rcpts)" "map_of rcpts keyId = Some (JStr w)"
  shows "slotCipher E (Some (JObj m)) slots keyId = map2 (XOR) key (ks (wrapKey E ct pub ss) (zeros 12) 32)"
proof -
  from w(1) enc obtain c where c: "chacha_enc (e_prims E) (wrapKey E ct pub ss) (zeros 12) pub key = Some c"
    "w = e_enc64 E (ct @ c)" unfolding wrapWithRandomness_Inr by auto
  have "length c = 48" using envelope_env_parts(4) [OF env] c(1) w(2) by (auto simp: tag_ok_def)
  moreover have "take 32 c = map2 (XOR) key (ks (wrapKey E ct pub ss) (zeros 12) 32)"
    using stream c(1) w(2) unfolding stream_cipher_def by metis
  ultimately show ?thesis using m c(2) envelope_env_parts(5) [OF env]
    by (simp add: slotCipher_def fld_object)
qed

lemma shared_pad:
  fixes E :: "'n env"
  assumes env: "envelope_env E" and stream: "stream_cipher (e_prims E) ks"
    and w: "wrapWithRandomness E suite pub key rand = Inr w" "length key = 32"
      "wrapWithRandomness E suite pub key' rand = Inr w'" "length key' = 32"
    and m: "map_of m (js ''seal'') = Some (JObj s)" "map_of s (js slots) = Some (JObj rcpts)"
      "map_of s (js slots') = Some (JObj rcpts')" "map_of rcpts keyId = Some (JStr w)" "map_of rcpts' keyId = Some (JStr w')"
  obtains pad where "length pad = 32" "slotCipher E (Some (JObj m)) slots keyId = map2 (XOR) key pad"
    "slotCipher E (Some (JObj m)) slots' keyId = map2 (XOR) key' pad"
proof -
  from w(1) obtain ct ss where enc: "encapsulate (e_prims E) suite pub rand = (Inr (ct, ss) :: 'n hs_error + _)"
    unfolding wrapWithRandomness_Inr by blast
  have "length (ks (wrapKey E ct pub ss) (zeros 12) 32) = 32" using stream by (simp add: stream_cipher_def)
  then show ?thesis
    using that slotCipher_wrapped [OF env stream w(1,2) enc m(1,2,4)] slotCipher_wrapped [OF env stream w(3,4) enc m(1,3,5)]
    by blast
qed

text \<open>C26. When the caller gives no randomness under \<open>enclosure:<keyId>\<close>, \<open>compose\<close> wraps both keys for that
  recipient with the same ephemeral key, so under the same wrap key and the zero nonce. Whoever holds the
  brief key, such as every routing server among the brief recipients, then computes the enclosure key from
  the two slots of the envelope.\<close>

theorem shared_randomness_leaks_enclosure_key:
  assumes "envelope_env E" "stream_cipher (e_prims E) ks" "compose_ready E inp" "compose E inp = Inr env"
    and "r \<in> set (ci_briefRecipients inp)" "r \<in> set (ci_enclosureRecipients inp)"
    and "ci_wrapRandomness inp (js ''enclosure:'' @ rk_keyId r) = None"
  shows "ci_kEnclosure inp = xorBytes (ci_kBrief inp)
    (xorBytes (slotCipher E (Some (JObj env)) ''brief_recipients'' (rk_keyId r))
      (slotCipher E (Some (JObj env)) ''enclosure_recipients'' (rk_keyId r)))"
proof -
  have ok: "compose_ok inp" using assms(3) by (simp add: compose_ready_def)
  obtain br er s where p:
    "wrapLoop E (ci_suite inp) (ci_kBrief inp) (ci_wrapRandomness inp) (ci_briefRecipients inp) [] = Inr br"
    "wrapLoop E (ci_suite inp) (ci_kEnclosure inp) (enclosureRandomness (ci_wrapRandomness inp))
       (ci_enclosureRecipients inp) [] = Inr er"
    and m: "map_of env (js ''seal'') = Some (JObj s)" "map_of s (js ''brief_recipients'') = Some (JObj br)"
    "map_of s (js ''enclosure_recipients'') = Some (JObj er)"
    using composed [OF ok assms(4)] .
  from wrapLoop_slot [OF p(1) compose_ok_parts(1) [OF ok] assms(5)] obtain rand w where b:
    "ci_wrapRandomness inp (rk_keyId r) = Some rand"
    "wrapWithRandomness E (ci_suite inp) (rk_publicKey r) (ci_kBrief inp) rand = Inr w"
    "map_of br (rk_keyId r) = Some (JStr w)" by blast
  from wrapLoop_slot [OF p(2) compose_ok_parts(2) [OF ok] assms(6)] b(1) obtain w' where e:
    "wrapWithRandomness E (ci_suite inp) (rk_publicKey r) (ci_kEnclosure inp) rand = Inr w'"
    "map_of er (rk_keyId r) = Some (JStr w')" by (auto simp: enclosureRandomness_def assms(7))
  note parts = compose_ok_parts [OF ok]
  obtain pad where "length pad = 32"
    "slotCipher E (Some (JObj env)) ''brief_recipients'' (rk_keyId r) = map2 (XOR) (ci_kBrief inp) pad"
    "slotCipher E (Some (JObj env)) ''enclosure_recipients'' (rk_keyId r) = map2 (XOR) (ci_kEnclosure inp) pad"
    using shared_pad [OF assms(1,2) b(2) parts(5) e(1) parts(6) m b(3) e(2)] .
  then show ?thesis by (simp add: xor_pads [where n = 32] parts)
qed


section \<open>A platform on which the hypotheses hold\<close>

text \<open>A stream cipher with a tag: the stream repeats the key.\<close>

definition demo_stream :: "bytes \<Rightarrow> bytes \<Rightarrow> nat \<Rightarrow> bytes" where
  "demo_stream k n l = map (\<lambda>i. if k = [] then 0 else k ! (i mod length k)) [0..<l]"

definition demo_tag :: "bytes \<Rightarrow> bytes \<Rightarrow> bytes" where
  "demo_tag k a = replicate 16 (sum_list (k @ a))"

definition stream_prims :: primitives where
  "stream_prims = demo_prims\<lparr>
     chacha_enc := (\<lambda>k n a p. Some (map2 (XOR) p (demo_stream k n (length p)) @ demo_tag k a)),
     chacha_dec := (\<lambda>k n a c.
       let p = take (length c - 16) c in
       if drop (length c - 16) c = demo_tag k a then Some (map2 (XOR) p (demo_stream k n (length p))) else None),
     hmac_sha256 := (\<lambda>k m. replicate 32 (sum_list (k @ m)))\<rparr>"

definition stream_env :: "int env" where
  "stream_env = demo_env\<lparr>e_prims := stream_prims\<rparr>"

lemma stream_prims_parts:
  "prims_ok stream_prims" "aead_ok stream_prims" "tag_ok stream_prims" "stream_cipher stream_prims demo_stream"
proof -
  have same: "x_public stream_prims = x_public demo_prims" "x_shared stream_prims = x_shared demo_prims"
    "kem_keygen stream_prims = kem_keygen demo_prims" "kem_encaps stream_prims = kem_encaps demo_prims"
    "kem_decaps stream_prims = kem_decaps demo_prims" "sha256 stream_prims = sha256 demo_prims"
    "ed_public stream_prims = ed_public demo_prims" "hk_expand stream_prims = hk_expand demo_prims"
    by (simp_all add: stream_prims_def)
  show "prims_ok stream_prims"
    using demo_prims_all(1) unfolding prims_ok_def dh_ok_def kem_ok_def prims_total_def same .
  have tag: "length (demo_tag k a) = 16" and len: "length (demo_stream k n l) = l" for k a n l
    by (simp_all add: demo_tag_def demo_stream_def)
  have twice: "map2 (XOR) (map2 (XOR) p s) s = p" if "length s = length p" for p s :: bytes
    using that by (intro nth_equalityI) (simp_all add: ac_simps)
  show "aead_ok stream_prims" by (simp add: aead_ok_def stream_prims_def tag len twice Let_def)
  show "tag_ok stream_prims" by (auto simp: tag_ok_def stream_prims_def tag len)
  show "stream_cipher stream_prims demo_stream"
    by (auto simp: stream_cipher_def stream_prims_def tag len)
qed

lemma stream_env_ok: "envelope_env stream_env"
proof -
  have b: "(ucast (ucast b :: unit16) :: byte) = b" for b :: byte
    by (rule bit_word_eqI) (simp add: bit_ucast_iff)
  have "parse_ok stream_env" using demo_parse_ok by (simp add: parse_ok_def stream_env_def)
  moreover have "map ucast (map ucast b :: jstr) = b" for b :: bytes by (simp add: b o_def)
  moreover have "demo_utf8 s \<noteq> []" if "s \<noteq> []" for s using that by (cases s) (simp_all add: demo_utf8_def)
  ultimately show ?thesis using stream_prims_parts
    by (simp add: envelope_env_def stream_env_def) (simp add: demo_env_def stream_prims_def)
qed

definition demo_recipient :: "string \<Rightarrow> byte \<Rightarrow> recipient_key" where
  "demo_recipient name b = \<lparr>rk_keyId = js name, rk_publicKey = replicate 32 b\<rparr>"

definition demo_input :: "int compose_input" where
  "demo_input = \<lparr>ci_suite = Baseline, ci_sealKeyId = js ''k'', ci_senderDomainSigningSeed = zeros 32,
     ci_postmark = \<lparr>pm_id = js ''m1'', pm_session_id = [], pm_from_domain = js ''a.example'',
       pm_to_domain = js ''b.example'', pm_expires = [], pm_extensions = None\<rparr>,
     ci_briefPlaintext = str ''hello'', ci_enclosurePlaintext = str ''secret'',
     ci_briefRecipients = [demo_recipient ''server'' 5, demo_recipient ''client'' 6],
     ci_enclosureRecipients = [demo_recipient ''client'' 6],
     ci_kBrief = replicate 32 1, ci_kEnclosure = replicate 32 2, ci_kEnvMAC = replicate 32 3,
     ci_briefAEADNonce = zeros 12, ci_enclosureAEADNonce = replicate 12 1,
     ci_wrapRandomness = (\<lambda>k. if k = js ''server'' \<or> k = js ''client''
       then Some \<lparr>wr_ephemeralX25519Priv = replicate 32 9, wr_kyberEncapsRandomnessM = None\<rparr> else None),
     ci_extensions = None, ci_sealExtensions = None, ci_padding = None\<rparr>"

lemma stream_key_pair: "key_pair (e_prims stream_env) baseSuite (replicate 32 b) (replicate 32 b)"
  by (simp add: key_pair_def stream_env_def stream_prims_def demo_prims_def js_eq)

lemma demo_input_ready: "compose_ready stream_env demo_input"
proof -
  have "\<exists>priv. key_pair (e_prims stream_env) baseSuite priv (replicate 32 b)" for b using stream_key_pair by blast
  then have "recipients_ok (e_prims stream_env) Baseline (ci_wrapRandomness demo_input) (ci_briefRecipients demo_input)"
    "recipients_ok (e_prims stream_env) Baseline (enclosureRandomness (ci_wrapRandomness demo_input))
       (ci_enclosureRecipients demo_input)"
    by (simp_all add: recipients_ok_def demo_input_def demo_recipient_def rand_ok_def enclosureRandomness_def)
  then show ?thesis
    by (simp add: compose_ready_def compose_ok_def) (simp add: demo_input_def demo_recipient_def js_eq)
qed

theorem envelope_roundtrip_witness:
  "\<exists>env. compose stream_env demo_input = Inr env \<and>
     openForRecipient stream_env Baseline (Some (JObj env)) (js ''client'') (replicate 32 6) (replicate 32 6) =
       Inr (Some (str ''hello''), Some (str ''secret'')) \<and>
     openForRecipient stream_env Baseline (Some (JObj env)) (js ''server'') (replicate 32 5) (replicate 32 5) =
       Inl (HsFail ''recipient not in slot'')"
proof -
  have i: "set (ci_briefRecipients demo_input) = {demo_recipient ''server'' 5, demo_recipient ''client'' 6}"
    "set (ci_enclosureRecipients demo_input) = {demo_recipient ''client'' 6}" "ci_suite demo_input = Baseline"
    "ci_briefPlaintext demo_input = str ''hello''" "ci_enclosurePlaintext demo_input = str ''secret''"
    by (simp_all add: demo_input_def)
  from envelope_roundtrip [OF stream_env_ok demo_input_ready] show ?thesis
    unfolding i set_map by (auto simp: demo_recipient_def stream_key_pair js_eq)
qed

lemma demo_composed:
  obtains env where "compose stream_env demo_input = Inr env"
  using compose_total [OF stream_env_ok demo_input_ready] .

lemma demo_input_parts:
  "ci_senderDomainSigningSeed demo_input = zeros 32" "ci_suite demo_input = Baseline"
  "demo_recipient ''client'' 6 \<in> set (ci_briefRecipients demo_input)"
  "demo_recipient ''client'' 6 \<in> set (ci_enclosureRecipients demo_input)"
  "ci_briefPlaintext demo_input = str ''hello''" "ci_enclosurePlaintext demo_input = str ''secret''"
  "js ''old'' \<notin> rk_keyId ` set (ci_briefRecipients demo_input @ ci_enclosureRecipients demo_input)"
  "ci_kBrief demo_input = replicate 32 1" "ci_kEnclosure demo_input = replicate 32 2"
  "ci_wrapRandomness demo_input (js ''enclosure:'' @ js ''client'') = None"
  "rk_keyId (demo_recipient ''client'' 6) = js ''client''" "rk_publicKey (demo_recipient ''client'' 6) = replicate 32 6"
  by (simp_all add: demo_input_def demo_recipient_def js_def)

lemma stream_scheme: "scheme_ok (plat stream_env) (zeros 32) (zeros 32)"
proof -
  have "verify stream_prims = verify demo_prims" "ed_sign stream_prims = ed_sign demo_prims"
    by (simp_all add: fun_eq_iff verify_def stream_prims_def)
  then show ?thesis using demo_env_scheme [of "zeros 32"]
    by (simp add: scheme_ok_def plat_def stream_env_def)
qed

theorem shared_randomness_leaks_enclosure_key_witness:
  "\<exists>env. compose stream_env demo_input = Inr env \<and>
     replicate 32 2 = xorBytes (replicate 32 1)
       (xorBytes (slotCipher stream_env (Some (JObj env)) ''brief_recipients'' (js ''client''))
         (slotCipher stream_env (Some (JObj env)) ''enclosure_recipients'' (js ''client'')))"
proof -
  obtain env where c: "compose stream_env demo_input = Inr env" by (rule demo_composed)
  have "stream_cipher (e_prims stream_env) demo_stream" using stream_prims_parts(4) by (simp add: stream_env_def)
  from shared_randomness_leaks_enclosure_key [OF stream_env_ok this demo_input_ready c demo_input_parts(3,4),
      unfolded demo_input_parts, OF refl] c
  show ?thesis by (intro exI conjI)
qed

theorem envelope_accepted_witness:
  "\<exists>env. compose stream_env demo_input = Inr env \<and>
     openAndVerify stream_env (\<lambda>d k. Inr (Some (zeros 32))) Baseline (Some (JObj env))
       [\<lparr>ca_keyId = js ''old'', ca_privateKey = [], ca_publicKey = []\<rparr>,
        \<lparr>ca_keyId = js ''client'', ca_privateKey = replicate 32 6, ca_publicKey = replicate 32 6\<rparr>] =
     Inr \<lparr>ve_senderDomainPub = zeros 32,
       ve_candidate = \<lparr>ca_keyId = js ''client'', ca_privateKey = replicate 32 6, ca_publicKey = replicate 32 6\<rparr>,
       ve_brief = Some (str ''hello''), ve_enclosure = Some (str ''secret'')\<rparr>"
proof -
  obtain env where c: "compose stream_env demo_input = Inr env" by (rule demo_composed)
  let ?c = "\<lparr>ca_keyId = js ''client'', ca_privateKey = replicate 32 6, ca_publicKey = replicate 32 6\<rparr>"
  let ?old = "\<lparr>ca_keyId = js ''old'', ca_privateKey = [], ca_publicKey = []\<rparr>"
  have "scheme_ok (plat stream_env) (ci_senderDomainSigningSeed demo_input) (zeros 32)"
    unfolding demo_input_parts by (rule stream_scheme)
  moreover have "ca_keyId ?c = rk_keyId (demo_recipient ''client'' 6)"
    "ca_publicKey ?c = rk_publicKey (demo_recipient ''client'' 6)"
    "key_pair (e_prims stream_env) (suiteName (ci_suite demo_input)) (ca_privateKey ?c) (rk_publicKey (demo_recipient ''client'' 6))"
    using stream_key_pair by (simp_all add: demo_input_parts)
  moreover have "\<forall>x \<in> set [?old]. ca_keyId x \<notin> rk_keyId ` set (ci_briefRecipients demo_input @ ci_enclosureRecipients demo_input)"
    using demo_input_parts(7) by simp
  ultimately have "openAndVerify stream_env (\<lambda>d k. Inr (Some (zeros 32))) (ci_suite demo_input) (Some (JObj env)) ([?old] @ ?c # []) =
      Inr \<lparr>ve_senderDomainPub = zeros 32, ve_candidate = ?c, ve_brief = Some (sorted_form (ci_briefPlaintext demo_input)),
        ve_enclosure = Some (sorted_form (ci_enclosurePlaintext demo_input))\<rparr>"
    using envelope_accepted [where resolver = "\<lambda>d k. Inr (Some (zeros 32))" and pub = "zeros 32" and c = ?c and
        before = "[?old]" and after = "[]", OF stream_env_ok demo_input_ready c _ refl demo_input_parts(3,4)] by blast
  with c show ?thesis unfolding demo_input_parts by auto
qed

text \<open>Changing the signature does not change what the MAC is computed over.\<close>

theorem session_mac_covers_envelope_witness:
  "\<exists>a b. a \<noteq> b \<and> verifySessionMAC stream_env (Some (JObj a)) (replicate 32 3) = Inr True \<and>
     verifySessionMAC stream_env (Some (JObj b)) (replicate 32 3) = Inr True \<and>
     map_option sorted_form (map_of a (js ''padding'')) = map_option sorted_form (map_of b (js ''padding''))"
proof -
  obtain env where c: "compose stream_env demo_input = Inr env" by (rule demo_composed)
  have ok: "compose_ok demo_input" using demo_input_ready by (simp add: compose_ready_def)
  have "scheme_ok (plat stream_env) (ci_senderDomainSigningSeed demo_input) (zeros 32)"
    unfolding demo_input_parts by (rule stream_scheme)
  from proofs_verify(2) [OF stream_env_ok ok c this] have v: "verifySessionMAC stream_env (Some (JObj env)) (replicate 32 3) = Inr True"
    by (simp add: demo_input_def)
  obtain s mac code where m: "plain (JObj env)" "map_of env (js ''seal'') = Some (JObj s)"
    "map_of s (js ''signature'') = Some (JStr mac)" "map_of s (js ''session_mac'') = Some (JStr code)"
    using composed [OF ok c] .
  let ?s = "obj_set (js ''signature'') (JStr (1 # mac)) s"
  let ?b = "obj_set (js ''seal'') (JObj ?s) env"
  have e: "envelopeElider (JObj ?b) = envelopeElider (JObj env)"
    using m(2,3) by (simp add: envelopeElider_def blankIn_def js_eq)
  have ps: "plain (JObj s)" using plain_field [OF m(1,2)] .
  have pb: "plain (JObj ?b)" by (intro plain_obj_set m(1) ps) simp_all
  have mb: "map_of ?b (js ''seal'') = Some (JObj ?s)" by simp
  have ms: "map_of ?s (js ''session_mac'') = Some (JStr code)" using m(4) by (simp add: js_eq)
  have vb: "verifySessionMAC stream_env (Some (JObj ?b)) (replicate 32 3) = Inr True"
    using v by (simp add: verifySessionMAC_def fld_object [OF m(2)] fld_object [OF mb] fld_object [OF m(4)] fld_object [OF ms]
        canonicalEnvelopeFor_def marshalWithElision_def e split: if_splits)
  have n: "number_format (e_numstr stream_env)" "inj_on (e_utf8 stream_env) {s. well_formed s}"
    using demo_number_format inj_on_subset [OF demo_utf8_inj subset_UNIV] by (simp_all add: stream_env_def demo_env_def)
  have "map_of s (js ''session_mac'') = map_of ?s (js ''session_mac'')" by (simp add: js_eq)
  note covers = session_mac_covers_envelope [OF n m(1) pb m(2) mb this v vb]
  have same: "canonicalEnvelopeFor stream_env (JObj env) = canonicalEnvelopeFor stream_env (JObj ?b)"
    unfolding canonicalEnvelopeFor_def marshalWithElision_def e ..
  have "map_option sorted_form (map_of env (js ''padding'')) = map_option sorted_form (map_of ?b (js ''padding''))"
  proof (rule disjE [OF covers], elim conjE)
    assume "\<forall>x. x \<noteq> js ''seal'' \<longrightarrow> map_option sorted_form (map_of env x) = map_option sorted_form (map_of ?b x)"
    then show ?thesis by (rule allE [of _ "js ''padding''"]) (erule mp, simp add: js_eq)
  qed (use same in \<open>elim conjE notE\<close>)
  moreover have "env \<noteq> ?b"
  proof
    assume "env = ?b"
    then have "map_of env (js ''seal'') = map_of ?b (js ''seal'')" by simp
    then have "s = ?s" using m(2) by simp
    then have "map_of s (js ''signature'') = map_of ?s (js ''signature'')" by simp
    from trans [OF sym [OF m(3)] this] have "(Some (JStr mac) :: int jsv) = Some (JStr (1 # mac))"
      by (simp only: jsm_get_set fun_upd_same)
    then have "length mac = length (1 # mac)" by (simp only: option.inject json.inject)
    then show False by simp
  qed
  ultimately show ?thesis using v vb by blast
qed

end
