(* ===== verification/EnvelopePadding.thy ===== *)
theory EnvelopePadding
  imports EnvelopeProofs Complex_Main
begin

text \<open>
  Size buckets, padding and the send-time delay: \<^verbatim>\<open>src/src/envelope/buckets.ts\<close>, \<^verbatim>\<open>padding.ts\<close> and
  \<^verbatim>\<open>sendtime.ts\<close>. Sizes are integers; a loop that doubles is a partial function, proved to return.
\<close>

section \<open>Buckets\<close>

definition MinEnvelopeSizeBucket :: int where "MinEnvelopeSizeBucket = 4096"
definition DefaultMaxEnvelopeSize :: int where "DefaultMaxEnvelopeSize = 25 * 1024 * 1024"

partial_function (option) sizeLoop :: "int \<Rightarrow> int \<Rightarrow> int \<Rightarrow> int option" where
  "sizeLoop limit unpaddedSize bucket =
     (if bucket < unpaddedSize then
        let nextBucket = bucket * 2 in
        if nextBucket > limit then Some limit else sizeLoop limit unpaddedSize nextBucket
      else Some bucket)"

text \<open>\<open>None\<close> is a loop that does not end.\<close>

definition selectSizeBucket :: "int \<Rightarrow> int option \<Rightarrow> ('n hs_error + int) option" where
  "selectSizeBucket unpaddedSize maxEnvelopeSize =
     (if unpaddedSize < 0 then Some (Inl (HsFail ''invalid unpadded size''))
      else
        let limit = (case maxEnvelopeSize of None \<Rightarrow> DefaultMaxEnvelopeSize | Some c \<Rightarrow> c) in
        if limit \<le> 0 then Some (Inl (HsFail ''non-positive ceiling''))
        else if unpaddedSize > limit then Some (Inl (HsFail ''exceeds max_envelope_size''))
        else map_option Inr (sizeLoop limit unpaddedSize MinEnvelopeSizeBucket))"

partial_function (option) countLoop :: "int \<Rightarrow> int \<Rightarrow> int option" where
  "countLoop realRecipients bucket =
     (if bucket < realRecipients then countLoop realRecipients (bucket * 2) else Some bucket)"

definition selectRecipientCountBucket :: "int \<Rightarrow> bool \<Rightarrow> ('n hs_error + int) option" where
  "selectRecipientCountBucket realRecipients singleDomainNotGroup =
     (if realRecipients < 0 then Some (Inl (HsFail ''invalid recipient count''))
      else if realRecipients = 1 \<and> singleDomainNotGroup then Some (Inr 1)
      else if realRecipients > 1024 then Some (Inr (- 1))
      else map_option Inr (countLoop realRecipients 2))"

text \<open>Both loops return; what they return.\<close>

lemma sizeLoop_returns:
  assumes "0 < bucket" "unpaddedSize \<le> limit"
  shows "\<exists>b. sizeLoop limit unpaddedSize bucket = Some b \<and> unpaddedSize \<le> b \<and>
    ((\<exists>i. b = bucket * 2 ^ i \<and> (bucket < unpaddedSize \<longrightarrow> b \<le> limit) \<and> (i > 0 \<longrightarrow> bucket * 2 ^ (i - 1) < unpaddedSize)) \<or> b = limit)"
  using assms
proof (induction "nat (unpaddedSize - bucket)" arbitrary: bucket rule: less_induct)
  case less
  show ?case
  proof (cases "bucket < unpaddedSize")
    case False
    then show ?thesis by (subst sizeLoop.simps) (auto intro!: exI [of _ 0])
  next
    case lt: True
    show ?thesis
    proof (cases "bucket * 2 > limit")
      case True
      with lt less.prems show ?thesis by (subst sizeLoop.simps) simp
    next
      case False
      have "nat (unpaddedSize - bucket * 2) < nat (unpaddedSize - bucket)" using lt less.prems by simp
      from less.hyps [OF this] less.prems obtain b where b: "sizeLoop limit unpaddedSize (bucket * 2) = Some b"
        "unpaddedSize \<le> b" "(\<exists>i. b = bucket * 2 * 2 ^ i \<and> (bucket * 2 < unpaddedSize \<longrightarrow> b \<le> limit) \<and>
          (i > 0 \<longrightarrow> bucket * 2 * 2 ^ (i - 1) < unpaddedSize)) \<or> b = limit" by auto
      have "sizeLoop limit unpaddedSize bucket = Some b" using lt False b(1) by (subst sizeLoop.simps) simp
      moreover have "\<exists>i. b = bucket * 2 ^ i \<and> b \<le> limit \<and> (i > 0 \<longrightarrow> bucket * 2 ^ (i - 1) < unpaddedSize)"
        if i: "b = bucket * 2 * 2 ^ i" "bucket * 2 < unpaddedSize \<longrightarrow> b \<le> limit" "i > 0 \<longrightarrow> bucket * 2 * 2 ^ (i - 1) < unpaddedSize"
        for i
      proof (intro exI [of _ "Suc i"] conjI impI)
        show "b = bucket * 2 ^ Suc i" using i(1) by simp
        show "bucket * 2 ^ (Suc i - 1) < unpaddedSize" using i(3) lt by (cases i) (simp_all add: ac_simps)
        show "b \<le> limit"
        proof (cases "bucket * 2 < unpaddedSize")
          case True
          then show ?thesis using i(2) by simp
        next
          case ge: False
          have "i = 0"
          proof (rule ccontr)
            assume "i \<noteq> 0"
            then have "bucket * 2 * 2 ^ (i - 1) < unpaddedSize" using i(3) by simp
            moreover have "(1 :: int) \<le> 2 ^ (i - 1)" by simp
            then have "bucket * 2 * 1 \<le> bucket * 2 * 2 ^ (i - 1)" using less.prems(1) by (intro mult_left_mono) simp_all
            ultimately show False using ge by simp
          qed
          then show ?thesis using i(1) False by simp
        qed
      qed
      ultimately show ?thesis using b(2,3) by blast
    qed
  qed
qed

lemma countLoop_returns:
  assumes "0 < bucket"
  shows "\<exists>i. countLoop n bucket = Some (bucket * 2 ^ i) \<and> n \<le> bucket * 2 ^ i \<and> (i > 0 \<longrightarrow> bucket * 2 ^ (i - 1) < n)"
  using assms
proof (induction "nat (n - bucket)" arbitrary: bucket rule: less_induct)
  case less
  show ?case
  proof (cases "bucket < n")
    case True
    then have "nat (n - bucket * 2) < nat (n - bucket)" using less.prems by simp
    from less.hyps [OF this] less.prems obtain i where i: "countLoop n (bucket * 2) = Some (bucket * 2 * 2 ^ i)"
      "n \<le> bucket * 2 * 2 ^ i" "i > 0 \<longrightarrow> bucket * 2 * 2 ^ (i - 1) < n" by auto
    show ?thesis
    proof (intro exI [of _ "Suc i"] conjI impI)
      show "countLoop n bucket = Some (bucket * 2 ^ Suc i)" using True i(1) by (subst countLoop.simps) simp
      show "n \<le> bucket * 2 ^ Suc i" using i(2) by simp
      show "bucket * 2 ^ (Suc i - 1) < n" using i(3) True by (cases i) (simp_all add: ac_simps)
    qed
  next
    case False
    then show ?thesis by (subst countLoop.simps) (auto intro!: exI [of _ 0])
  qed
qed

section \<open>Padding\<close>

definition Ed25519SignatureB64Len :: nat where "Ed25519SignatureB64Len = 88"
definition HMACSHA256B64Len :: nat where "HMACSHA256B64Len = 44"

definition Base64AlphabetFillers :: jstr where
  "Base64AlphabetFillers = js ''ABCDEFGHIJKLMNOPQRSTUVWXYZabcdefghijklmnopqrstuvwxyz0123456789+/''"

record pad_config =
  pc_maxEnvelopeSize :: "int option"
  pc_bucketSequence :: "int list option"

text \<open>The two calls of the random source are two functions of the number of bytes.\<close>

definition buildPaddingValue :: "'n env \<Rightarrow> (nat \<Rightarrow> bytes) \<Rightarrow> (nat \<Rightarrow> bytes) \<Rightarrow> int \<Rightarrow> 'n hs_error + jstr" where
  "buildPaddingValue E rand rand' targetLen =
     (if targetLen < 0 then Inl (HsFail ''negative padding length'')
      else if targetLen = 0 then Inr []
      else
        let baseChars = targetLen - targetLen mod 4;
            inputBytes = nat (baseChars div 4 * 3);
            fillerCount = nat (targetLen - baseChars);
            seed = rand' fillerCount in
        Inr ((if inputBytes > 0 then e_enc64 E (rand inputBytes) else []) @
          map (\<lambda>i. Base64AlphabetFillers !
                 (unat (if i < length seed then seed ! i else 0) mod length Base64AlphabetFillers)) [0..<fillerCount]))"

definition pickBucket :: "int \<Rightarrow> int \<Rightarrow> int list option \<Rightarrow> ('n hs_error + int) option" where
  "pickBucket unpaddedSize limit bucketSeq =
     (case bucketSeq of
        None \<Rightarrow> selectSizeBucket unpaddedSize (Some limit)
      | Some [] \<Rightarrow> selectSizeBucket unpaddedSize (Some limit)
      | Some bs \<Rightarrow> Some (Inr (case List.find (\<lambda>b. b \<ge> unpaddedSize) bs of Some b \<Rightarrow> b | None \<Rightarrow> limit)))"

fun strictlyIncreasing :: "int list \<Rightarrow> bool" where
  "strictlyIncreasing (a # b # bs) = (\<not> b \<le> a \<and> strictlyIncreasing (b # bs))"
| "strictlyIncreasing _ = True"

definition validateBucketSequence :: "int list \<Rightarrow> int \<Rightarrow> 'n hs_error + unit" where
  "validateBucketSequence bs limit =
     (if hd bs < MinEnvelopeSizeBucket then Inl (HsFail ''below protocol floor'')
      else if \<not> strictlyIncreasing bs then Inl (HsFail ''not strictly increasing'')
      else if last bs > limit then Inl (HsFail ''exceeds max_envelope_size'')
      else Inr ())"

text \<open>\<open>utf8ByteLength(JSON.stringify(env))\<close>.\<close>

definition wireSize :: "'n env \<Rightarrow> 'n obj \<Rightarrow> int" where
  "wireSize E env = int (length (encodeEnvelope E env))"

definition sealField :: "'n obj \<Rightarrow> string \<Rightarrow> 'n hs_error + 'n jsv" where
  "sealField env k = bindR (fld (Some (JObj env)) ''seal'') (\<lambda>seal. fld seal k)"

text \<open>The body of the \<open>try\<close> block; \<open>None\<close> when choosing the bucket does not end.\<close>

definition padBody ::
  "'n env \<Rightarrow> pad_config \<Rightarrow> int \<Rightarrow> (nat \<Rightarrow> bytes) \<Rightarrow> (nat \<Rightarrow> bytes) \<Rightarrow> 'n obj \<Rightarrow> ('n obj \<times> ('n hs_error + int)) option"
where
  "padBody E cfg limit rand rand' env =
     (let env = obj_set (js ''padding'') (JStr []) env; baselineBytes = wireSize E env in
      case pickBucket baselineBytes limit (pc_bucketSequence cfg) of
        None \<Rightarrow> None
      | Some (Inl e) \<Rightarrow> Some (env, Inl e)
      | Some (Inr bucket) \<Rightarrow>
          if baselineBytes = bucket then Some (env, Inr bucket)
          else
            let targetPadLen = bucket - baselineBytes in
            if targetPadLen < 0 then Some (env, Inl (HsFail ''baseline exceeds bucket''))
            else
              (case buildPaddingValue E rand rand' targetPadLen of
                 Inl e \<Rightarrow> Some (env, Inl e)
               | Inr padding \<Rightarrow>
                   let env = obj_set (js ''padding'') (JStr padding) env in
                   if wireSize E env \<noteq> bucket then Some (env, Inl (HsFail ''padding did not land on bucket''))
                   else Some (env, Inr bucket)))"

text \<open>\<open>fillPadding\<close>: the envelope after the call, and the bucket or the exception.\<close>

definition fillPadding ::
  "'n env \<Rightarrow> pad_config \<Rightarrow> (nat \<Rightarrow> bytes) \<Rightarrow> (nat \<Rightarrow> bytes) \<Rightarrow> 'n obj \<Rightarrow> ('n obj \<times> ('n hs_error + int)) option"
where
  "fillPadding E cfg rand rand' env =
     (let limit = (case pc_maxEnvelopeSize cfg of None \<Rightarrow> DefaultMaxEnvelopeSize | Some c \<Rightarrow> c) in
      case (case pc_bucketSequence cfg of
              None \<Rightarrow> Inr () | Some [] \<Rightarrow> Inr () | Some bs \<Rightarrow> validateBucketSequence bs limit) of
        Inl e \<Rightarrow> Some (env, Inl e)
      | Inr u \<Rightarrow>
          (case bindR (sealField env ''signature'') (\<lambda>sig. bindR (sealField env ''session_mac'') (\<lambda>mac. Inr (sig, mac))) of
             Inl e \<Rightarrow> Some (env, Inl e)
           | Inr (origSig, origMac) \<Rightarrow>
               let subst = (\<lambda>orig k v m. if orig = Some (JStr []) then setSeal (js k) v m else m);
                   env = subst origSig ''signature'' (replicate Ed25519SignatureB64Len 65) env;
                   env = subst origMac ''session_mac'' (replicate HMACSHA256B64Len 65) env in
               map_option (\<lambda>(env, r). (subst origMac ''session_mac'' [] (subst origSig ''signature'' [] env), r))
                 (padBody E cfg limit rand rand' env)))"

section \<open>Send-time delay\<close>

definition DefaultSendTimeDelayCeilingMs :: int where "DefaultSendTimeDelayCeilingMs = 60000"

text \<open>The ceiling, bound at the expiry of the message; \<open>expires\<close> is the field of the postmark.\<close>

definition delayCeiling :: "(jstr \<Rightarrow> time option) \<Rightarrow> 'n jsv \<Rightarrow> time \<Rightarrow> int \<Rightarrow> 'n hs_error + int" where
  "delayCeiling parseDate expires now limit =
     (case expires of
        Some (JStr s) \<Rightarrow>
          if s = [] then Inr limit
          else
            (case parseDate s of
               None \<Rightarrow> Inl (HsFail ''postmark.expires is not ISO 8601'')
             | Some expiresMs \<Rightarrow>
                 let window = expiresMs - now in
                 if window \<le> 0 then Inl (HsFail ''already-expired envelope'')
                 else Inr (if window < limit then window else limit))
      | _ \<Rightarrow> Inr limit)"

text \<open>
  How long \<open>sendTimeDelay\<close> sleeps, 0 when it returns at once. The draw \<open>r\<close> of the random source is an
  exact rational.
\<close>

definition sendTimeDelay ::
  "(jstr \<Rightarrow> time option) \<Rightarrow> 'n jsv \<Rightarrow> bool \<Rightarrow> int option \<Rightarrow> time \<Rightarrow> rat \<Rightarrow> 'n hs_error + int"
where
  "sendTimeDelay parseDate expires timeSensitive ceilingMs now r =
     (let limit = (case ceilingMs of None \<Rightarrow> 0 | Some c \<Rightarrow> c) in
      if timeSensitive then Inr 0
      else if limit \<le> 0 then Inr 0
      else
        bindR (delayCeiling parseDate expires now limit) (\<lambda>limit.
        if r < 0 \<or> r \<ge> 1 then Inl (HsFail ''random source out of range'')
        else
          let delay = \<lfloor>r * rat_of_int limit\<rfloor> in
          if delay \<le> 0 then Inr 0 else Inr delay))"

section \<open>Which bucket\<close>

lemma size_bucket:
  assumes "0 \<le> n" "n \<le> limit" "0 < limit"
  shows "\<exists>b. selectSizeBucket n (Some limit) = (Some (Inr b) :: ('n hs_error + int) option) \<and> n \<le> b \<and>
      (b = limit \<or> (\<exists>i. b = 4096 * 2 ^ i \<and> (i > 0 \<longrightarrow> 4096 * 2 ^ (i - 1) < n))) \<and>
      (if 4096 \<le> limit then b \<le> limit else b = 4096)"
proof (cases "4096 < n")
  case True
  then show ?thesis using sizeLoop_returns [of 4096 n limit] assms
    by (auto simp: selectSizeBucket_def MinEnvelopeSizeBucket_def)
next
  case False
  then have "sizeLoop limit n 4096 = Some 4096" by (subst sizeLoop.simps) simp
  then show ?thesis using False assms
    by (auto simp: selectSizeBucket_def MinEnvelopeSizeBucket_def intro: exI [of _ 0])
qed

text \<open>C27. The size bucket: for a size within the limit the loop ends, with a bucket that holds the envelope. It is
  the limit or a power-of-two multiple of 4096 whose half does not hold the envelope; it is within the limit
  when the limit is at least 4096, and it is 4096, above the limit, when the limit is smaller. The recipient
  bucket is the least power of two from 2 on that holds the count.\<close>

theorem bucket_selection:
  assumes "0 \<le> n" "n \<le> limit" "0 < limit" "0 \<le> k" "k \<le> 1024" "\<not> (k = 1 \<and> single)"
  shows "(\<exists>b. selectSizeBucket n (Some limit) = (Some (Inr b) :: ('n hs_error + int) option) \<and> n \<le> b \<and>
      (b = limit \<or> (\<exists>i. b = 4096 * 2 ^ i \<and> (i > 0 \<longrightarrow> 4096 * 2 ^ (i - 1) < n))) \<and>
      (if 4096 \<le> limit then b \<le> limit else b = 4096)) \<and>
    (\<exists>i. selectRecipientCountBucket k single = (Some (Inr (2 * 2 ^ i)) :: ('n hs_error + int) option) \<and>
       k \<le> 2 * 2 ^ i \<and> (i > 0 \<longrightarrow> 2 * 2 ^ (i - 1) < k))"
proof
  obtain i where "countLoop k 2 = Some (2 * 2 ^ i)" "k \<le> 2 * 2 ^ i" "i > 0 \<longrightarrow> 2 * 2 ^ (i - 1) < k"
    using countLoop_returns [of 2 k] by auto
  then show "\<exists>i. selectRecipientCountBucket k single = (Some (Inr (2 * 2 ^ i)) :: ('n hs_error + int) option) \<and>
       k \<le> 2 * 2 ^ i \<and> (i > 0 \<longrightarrow> 2 * 2 ^ (i - 1) < k)"
    using assms(4-6) by (auto simp: selectRecipientCountBucket_def)
qed (rule size_bucket [OF assms(1-3)])

theorem bucket_selection_witness:
  "(\<exists>b. selectSizeBucket 5000 (Some 100000) = (Some (Inr b) :: (int hs_error + int) option) \<and> 5000 \<le> b \<and> b \<le> 100000) \<and>
   (\<exists>i. selectRecipientCountBucket 5 False = (Some (Inr (2 * 2 ^ i)) :: (int hs_error + int) option) \<and> (5 :: int) \<le> 2 * 2 ^ i)"
  using bucket_selection [of 5000 100000 5 False] by auto

section \<open>Padding is exact\<close>

text \<open>
  UTF-8 encodes an ASCII unit as itself wherever it stands, and base64 has four characters of its alphabet
  for every three bytes.
\<close>

definition ascii_ok :: "'n env \<Rightarrow> bool" where
  "ascii_ok E \<longleftrightarrow> e_utf8 E [] = [] \<and> (\<forall>x c y. c < 128 \<longrightarrow> e_utf8 E (x @ c # y) = e_utf8 E x @ ucast c # e_utf8 E y)"

definition base64_text :: "jstr \<Rightarrow> bool" where
  "base64_text s \<longleftrightarrow> set s \<subseteq> insert 61 (set Base64AlphabetFillers)"

definition base64_ok :: "'n env \<Rightarrow> bool" where
  "base64_ok E \<longleftrightarrow> (\<forall>b. base64_text (e_enc64 E b) \<and> length (e_enc64 E b) = 4 * ((length b + 2) div 3))"

lemma base64_unit:
  "c \<in> insert 61 (set Base64AlphabetFillers) \<Longrightarrow> c < 128 \<and> escape_unit c = [c] \<and> \<not> high_surrogate c"
  unfolding Base64AlphabetFillers_def js_def
  by (elim insertE; simp add: escape_unit_def high_surrogate_def low_surrogate_def)
    (elim disjE; simp add: escape_unit_def high_surrogate_def low_surrogate_def)

lemma base64_quote: "base64_text s \<Longrightarrow> quote s = 34 # s @ [34]"
proof -
  assume a: "base64_text s"
  have "quote_units s = s" using a
  proof (induction s rule: quote_units.induct)
    case (2 c)
    then show ?case using base64_unit [of c] by (simp add: base64_text_def)
  next
    case (3 c d cs)
    then show ?case using base64_unit [of c] by (simp add: base64_text_def)
  qed simp
  then show ?thesis by (simp add: quote_def)
qed

lemma base64_utf8:
  assumes "ascii_ok E" "base64_text s"
  shows "length (e_utf8 E (s @ y)) = length s + length (e_utf8 E y)"
  using assms(2)
proof (induction s)
  case (Cons c s)
  then have "c < 128" using base64_unit [of c] by (simp add: base64_text_def)
  then have "e_utf8 E ([] @ c # s @ y) = e_utf8 E [] @ ucast c # e_utf8 E (s @ y)"
    using assms(1) unfolding ascii_ok_def by blast
  with Cons assms(1) show ?case by (simp add: ascii_ok_def base64_text_def)
qed simp

lemma commas_middle:
  "commas (xs @ y # zs) = (if xs = [] then [] else commas xs @ [44]) @ y @ (if zs = [] then [] else 44 # commas zs)"
proof (induction xs rule: commas.induct)
  case 1
  then show ?case by (cases zs) simp_all
next
  case (2 x)
  then show ?case by (cases zs) simp_all
next
  case (3 x x' xs)
  then show ?case by (cases zs) simp_all
qed

lemma obj_set_split: "\<exists>pre post. \<forall>v. obj_set k v m = pre @ (k, v) # post"
proof (induction m)
  case Nil
  have "\<forall>v. obj_set k v [] = [] @ (k, v) # []" by simp
  then show ?case by blast
next
  case (Cons a m)
  obtain k' w where a: "a = (k', w)" by force
  show ?case
  proof (cases "k' = k")
    case True
    then have "\<forall>v. obj_set k v (a # m) = [] @ (k, v) # m" using a by simp
    then show ?thesis by blast
  next
    case False
    from Cons obtain pre post where "\<forall>v. obj_set k v m = pre @ (k, v) # post" by blast
    then have "\<forall>v. obj_set k v (a # m) = (a # pre) @ (k, v) # post" using a False by simp
    then show ?thesis by blast
  qed
qed

lemma printed_field: "\<exists>x y. \<forall>v. print num (JObj (obj_set k v m)) = x @ print num v @ y"
proof -
  obtain pre post where s: "\<And>v. obj_set k v m = pre @ (k, v) # post" using obj_set_split [of k m] by blast
  have "print num (JObj (obj_set k v m)) =
      (123 # (if pre = [] then [] else commas (map member_text (map (\<lambda>(k, v). (k, print num v)) pre)) @ [44]) @ quote k @ [58])
      @ print num v @
      (if post = [] then [] else 44 # commas (map member_text (map (\<lambda>(k, v). (k, print num v)) post))) @ [125]" for v
    by (simp add: s commas_middle member_text_def)
  then show ?thesis by blast
qed

text \<open>The wire size grows by the length of a base64 string, in a field and in a field of the seal.\<close>

lemma string_size:
  assumes "ascii_ok E" "base64_text s" "base64_text t" "length s = length t + n"
  shows "length (e_utf8 E (x @ quote s @ y)) = length (e_utf8 E (x @ quote t @ y)) + n"
proof -
  have "length (e_utf8 E (x @ quote u @ y)) = length (e_utf8 E x) + 2 + length u + length (e_utf8 E y)"
    if u: "base64_text u" for u
  proof -
    have a: "e_utf8 E (x @ 34 # y) = e_utf8 E x @ 34 # e_utf8 E y" for x y
      using assms(1) by (simp add: ascii_ok_def)
    from a [of x "u @ 34 # y"] a [of "[]" y]
    show ?thesis using base64_utf8 [OF assms(1) u, of "34 # y"] assms(1)
      by (simp add: base64_quote [OF u] ascii_ok_def)
  qed
  from this [OF assms(2)] this [OF assms(3)] assms(4) show ?thesis by simp
qed

lemma wireSize_field:
  assumes "ascii_ok E" "base64_text s" "base64_text t" "length s = length t + n"
  shows "wireSize E (obj_set k (JStr s) m) = wireSize E (obj_set k (JStr t) m) + int n"
proof -
  obtain x y where c: "\<And>v. print (e_numstr E) (JObj (obj_set k v m)) = x @ print (e_numstr E) v @ y"
    using printed_field by metis
  show ?thesis unfolding wireSize_def encodeEnvelope_def c
    using string_size [OF assms, of x y] by (simp only: print.simps of_nat_add)
qed

lemma wireSize_seal_field:
  assumes "ascii_ok E" "base64_text s" "base64_text t" "length s = length t"
  shows "wireSize E (obj_set k (JObj (obj_set k' (JStr s) m')) m) = wireSize E (obj_set k (JObj (obj_set k' (JStr t) m')) m)"
proof -
  obtain x y where c: "\<And>v. print (e_numstr E) (JObj (obj_set k v m)) = x @ print (e_numstr E) v @ y"
    using printed_field by metis
  obtain x' y' where c': "\<And>v. print (e_numstr E) (JObj (obj_set k' v m')) = x' @ print (e_numstr E) v @ y'"
    using printed_field by metis
  show ?thesis unfolding wireSize_def encodeEnvelope_def c c'
    using string_size [OF assms(1-3), of 0 "x @ x'" "y' @ y"] assms(4) by (simp only: print.simps append_assoc add_0_right)
qed


lemma buildPaddingValue_exact:
  assumes "base64_ok E" "\<forall>n. length (rand n) = n" "\<forall>n. length (rand' n) = n" "0 \<le> n"
  shows "\<exists>p. buildPaddingValue E rand rand' n = Inr p \<and> base64_text p \<and> int (length p) = n"
proof (cases "n = 0")
  case True
  then show ?thesis by (simp add: buildPaddingValue_def base64_text_def)
next
  case False
  let ?base = "n - n mod 4"
  let ?bytes = "nat (?base div 4 * 3)" and ?fill = "nat (n - ?base)"
  let ?b = "if ?bytes > 0 then e_enc64 E (rand ?bytes) else []"
  let ?f = "map (\<lambda>i. Base64AlphabetFillers ! (unat (if i < length (rand' ?fill) then rand' ?fill ! i else 0) mod
    length Base64AlphabetFillers)) [0..<?fill]"
  have q: "?base div 4 * 4 = ?base" "0 \<le> ?base" using assms(4) by (simp_all add: zmod_le_nonneg_dividend)
  have "length (e_enc64 E (rand ?bytes)) = 4 * ((?bytes + 2) div 3)" using assms(1,2) by (simp add: base64_ok_def)
  moreover have "?bytes = 3 * nat (?base div 4)" using q by (simp add: nat_mult_distrib)
  moreover have "(3 * i + 2) div 3 = i" for i :: nat by simp
  ultimately have "length ?b = 4 * nat (?base div 4)" by auto
  moreover have "int (nat (?base div 4)) = ?base div 4"
    using q(2) by (intro nat_0_le) (simp only: pos_imp_zdiv_nonneg_iff zero_less_numeral)
  ultimately have "int (length ?b) = ?base" using q(1) by linarith
  moreover have "length ?f = ?fill" by simp
  then have "int (length ?f) = n - ?base" using assms(4) by simp
  ultimately have "int (length (?b @ ?f)) = n" by (simp only: length_append of_nat_add)
  moreover have "base64_text (?b @ ?f)"
  proof -
    have "length Base64AlphabetFillers = 64" by (simp add: Base64AlphabetFillers_def js_def)
    then have "Base64AlphabetFillers ! (i mod length Base64AlphabetFillers) \<in> set Base64AlphabetFillers" for i
      by (intro nth_mem) simp
    then show ?thesis using assms(1) by (auto simp: base64_text_def base64_ok_def simp del: nth_mem)
  qed
  moreover have "buildPaddingValue E rand rand' n = Inr (?b @ ?f)"
    using False assms(4) by (simp add: buildPaddingValue_def Let_def)
  ultimately show ?thesis by blast
qed


lemma obj_set_swap: "k \<noteq> k' \<Longrightarrow> map_of m k \<noteq> None \<Longrightarrow> obj_set k v (obj_set k' w m) = obj_set k' w (obj_set k v m)"
  by (induction m) (auto split: if_splits)

text \<open>The size of an envelope does not depend on which base64 texts of the same lengths are its two proofs.\<close>

lemma wireSize_proofs:
  assumes ascii: "ascii_ok E" and t: "base64_text sig" "base64_text sig'" "base64_text mac" "base64_text mac'"
      "length sig = length sig'" "length mac = length mac'"
    and m: "map_of m (js ''seal'') = Some (JObj s)" "map_of s (js ''signature'') \<noteq> None" "map_of s (js ''session_mac'') \<noteq> None"
  shows "wireSize E (setSeal (js ''session_mac'') mac (setSeal (js ''signature'') sig m)) =
    wireSize E (setSeal (js ''session_mac'') mac' (setSeal (js ''signature'') sig' m))"
proof -
  have ne: "js ''session_mac'' \<noteq> js ''signature''" by (simp add: js_eq)
  have e: "setSeal (js ''session_mac'') b (setSeal (js ''signature'') a m) =
      obj_set (js ''seal'') (JObj (obj_set (js ''session_mac'') (JStr b) (obj_set (js ''signature'') (JStr a) s))) m" for a b
    by (simp add: setSeal_def m(1))
  have swap: "obj_set (js ''session_mac'') (JStr b) (obj_set (js ''signature'') (JStr a) s) =
      obj_set (js ''signature'') (JStr a) (obj_set (js ''session_mac'') (JStr b) s)" for a b
    by (rule obj_set_swap [OF ne m(3)])
  have "wireSize E (setSeal (js ''session_mac'') mac (setSeal (js ''signature'') sig m)) =
      wireSize E (setSeal (js ''session_mac'') mac' (setSeal (js ''signature'') sig m))"
    unfolding e by (rule wireSize_seal_field [OF ascii t(3,4,6)])
  also have "\<dots> = wireSize E (setSeal (js ''session_mac'') mac' (setSeal (js ''signature'') sig' m))"
    unfolding e swap by (rule wireSize_seal_field [OF ascii t(1,2,5)])
  finally show ?thesis .
qed

text \<open>An unsigned envelope that is padded and then signed.\<close>

lemma padBody_exact:
  fixes E :: "'n env"
  assumes ascii: "ascii_ok E" and b64: "base64_ok E"
    and rand: "\<forall>n. length (rand n) = n" "\<forall>n. length (rand' n) = n"
    and bucket: "pickBucket (wireSize E (obj_set (js ''padding'') (JStr []) m)) limit (pc_bucketSequence cfg) = (Some (Inr b) :: ('n hs_error + int) option)"
      "wireSize E (obj_set (js ''padding'') (JStr []) m) \<le> b"
  shows "\<exists>p. padBody E cfg limit rand rand' m = Some (obj_set (js ''padding'') (JStr p) m, Inr b) \<and>
    wireSize E (obj_set (js ''padding'') (JStr p) m) = b"
proof (cases "wireSize E (obj_set (js ''padding'') (JStr []) m) = b")
  case True
  then show ?thesis using bucket by (auto simp: padBody_def Let_def)
next
  case False
  let ?n = "b - wireSize E (obj_set (js ''padding'') (JStr []) m)"
  obtain p where p: "buildPaddingValue E rand rand' ?n = Inr p" "base64_text p" "int (length p) = ?n"
    using buildPaddingValue_exact [OF b64 rand, of ?n] bucket(2) by auto
  have "wireSize E (obj_set (js ''padding'') (JStr p) m) = wireSize E (obj_set (js ''padding'') (JStr []) m) + int (length p)"
    by (rule wireSize_field [OF ascii p(2)]) (simp_all add: base64_text_def)
  then show ?thesis using False bucket p by (auto simp: padBody_def Let_def)
qed



section \<open>Padding a sealed envelope\<close>

lemma composed_padding:
  assumes "compose E inp = Inr env"
  shows "map_of env (js ''padding'') = Some (JStr (case ci_padding inp of None \<Rightarrow> [] | Some p \<Rightarrow> p))"
proof -
  from compose_Inr [OF assms] obtain bf ef br er sig mac where "env = sealed inp br er bf ef sig mac" by metis
  then show ?thesis by (auto simp: sealed_def assemble_def js_eq split: option.splits)
qed

lemma js_padding_seal: "js ''padding'' \<noteq> js ''seal''" by (simp add: js_eq)

lemma padBody_result:
  assumes "padBody E cfg limit rand rand' m = Some (m', r)"
  shows "\<exists>p. m' = obj_set (js ''padding'') (JStr p) m"
  using assms by (auto simp: padBody_def Let_def split: option.splits sum.splits if_splits)

lemma fillPadding_signed:
  assumes "fillPadding E cfg rand rand' m = Some (m', r)"
    and "map_of m (js ''seal'') = Some (JObj s)" "map_of s (js ''signature'') = Some (JStr sig)"
      "map_of s (js ''session_mac'') = Some (JStr mac)" "sig \<noteq> []" "mac \<noteq> []"
  shows "m' = m \<or> (\<exists>p. m' = obj_set (js ''padding'') (JStr p) m)"
  using assms
  by (auto simp: fillPadding_def sealField_def fld_object Let_def dest!: padBody_result
      split: option.splits sum.splits list.splits)

lemma composed_proofs:
  assumes "envelope_env E" "compose_ok inp" "compose E inp = Inr env"
    and "scheme_ok (plat E) (ci_senderDomainSigningSeed inp) pub" "map_of env (js ''seal'') = Some (JObj s)"
  obtains sig mac where "map_of s (js ''signature'') = Some (JStr sig)" "map_of s (js ''session_mac'') = Some (JStr mac)"
    "sig \<noteq> []" "mac \<noteq> []"
proof -
  let ?can = "canonicalEnvelopeFor E (JObj env)"
  obtain sig s' where m: "map_of env (js ''seal'') = Some (JObj s')"
    "sig = ed_sign (e_prims E) (e_utf8 E EnvelopePrefix @ ?can) (ci_senderDomainSigningSeed inp)"
    "map_of s' (js ''signature'') = Some (JStr (e_enc64 E sig))"
    "map_of s' (js ''session_mac'') = Some (JStr (e_enc64 E (computeMAC (e_prims E) (ci_kEnvMAC inp) ?can)))"
    using composed [OF assms(2,3)] .
  have ne: "b \<noteq> [] \<Longrightarrow> e_enc64 E b \<noteq> []" for b using assms(1) by (simp add: envelope_env_def)
  have "verify (e_prims E) pub sig (e_utf8 E EnvelopePrefix @ ?can)"
    using assms(4) m(2) by (simp add: scheme_ok_def plat_def)
  then have "sig \<noteq> []" by (auto simp: verify_def)
  moreover have "length (computeMAC (e_prims E) (ci_kEnvMAC inp) ?can) = 32"
    using assms(1) by (simp add: envelope_env_def computeMAC_def)
  then have "computeMAC (e_prims E) (ci_kEnvMAC inp) ?can \<noteq> []" by (metis list.size(3) zero_neq_numeral)
  moreover have "s' = s" using m(1) assms(5) by simp
  ultimately show ?thesis using that m(3,4) ne by blast
qed

text \<open>The documentation of \<open>fillPadding\<close> allows calling it after \<open>compose\<close>. But the padding is covered by both
  proofs: a call that changes the padding of a composed envelope, whether it returns a bucket or throws,
  changes the canonical text, and the session MAC then verifies exactly if the two texts are a collision of
  HMAC under the session's key.\<close>

theorem padding_breaks_seal:
  assumes "number_format (e_numstr E)" "inj_on (e_utf8 E) {s. well_formed s}" "envelope_env E"
    and "compose_ok inp" "compose E inp = Inr env" "scheme_ok (plat E) (ci_senderDomainSigningSeed inp) pub"
    and "fillPadding E cfg rand rand' env = Some (env', r)"
    and "map_of env' (js ''padding'') \<noteq> map_of env (js ''padding'')"
  shows "canonicalEnvelopeFor E (JObj env) \<noteq> canonicalEnvelopeFor E (JObj env') \<and>
    verifySessionMAC E (Some (JObj env')) (ci_kEnvMAC inp) =
      Inr (computeMAC (e_prims E) (ci_kEnvMAC inp) (canonicalEnvelopeFor E (JObj env)) =
           computeMAC (e_prims E) (ci_kEnvMAC inp) (canonicalEnvelopeFor E (JObj env')))"
proof -
  let ?mac = "computeMAC (e_prims E) (ci_kEnvMAC inp) (canonicalEnvelopeFor E (JObj env))"
  obtain s where m: "map_of env (js ''seal'') = Some (JObj s)" "map_of s (js ''session_mac'') = Some (JStr (e_enc64 E ?mac))"
    "plain (JObj env)" using composed [OF assms(4,5)] .
  obtain sig mac where sm: "map_of s (js ''signature'') = Some (JStr sig)" "map_of s (js ''session_mac'') = Some (JStr mac)"
    "sig \<noteq> []" "mac \<noteq> []" using composed_proofs [OF assms(3-6) m(1)] .
  obtain p where p: "env' = obj_set (js ''padding'') (JStr p) env"
    using fillPadding_signed [OF assms(7) m(1) sm] assms(8) by blast
  have seal': "map_of env' (js ''seal'') = Some (JObj s)" using m(1) by (simp add: p js_eq)
  have "plain (JObj env')" unfolding p by (rule plain_obj_set [OF m(3)]) simp_all
  note same = same_canonical [OF assms(1,2) m(3) this m(1) seal']
  have "map_option sorted_form (map_of env (js ''padding'')) \<noteq> map_option sorted_form (map_of env' (js ''padding''))"
    using assms(8) composed_padding [OF assms(5)] by (auto simp: p)
  then have "canonicalEnvelopeFor E (JObj env) \<noteq> canonicalEnvelopeFor E (JObj env')"
    using same(1) [OF _ js_padding_seal] by metis
  moreover have "verifySessionMAC E (Some (JObj env')) (ci_kEnvMAC inp) =
      Inr (computeMAC (e_prims E) (ci_kEnvMAC inp) (canonicalEnvelopeFor E (JObj env)) =
           computeMAC (e_prims E) (ci_kEnvMAC inp) (canonicalEnvelopeFor E (JObj env')))"
    using sm(4) m(2) sm(2) [unfolded m(2)]
    by (auto simp: verifySessionMAC_def fld_object [OF seal'] fld_object [OF m(2)] envelope_env_parts(5) [OF assms(3)])
  ultimately show ?thesis by blast
qed

section \<open>The delay\<close>

lemma delayCeiling_Inr:
  assumes "delayCeiling parseDate expires now c = Inr bound" "0 < c"
  shows "0 < bound" "bound \<le> c" "expires = Some (JStr s) \<Longrightarrow> s \<noteq> [] \<Longrightarrow> parseDate s = Some t \<Longrightarrow> now + bound \<le> t"
  using assms by (auto simp: delayCeiling_def Let_def split: option.splits json.splits if_splits)

text \<open>The delay before sending is below its ceiling, and a message with an expiry is still sent before it.\<close>

theorem send_delay_bounded:
  assumes "sendTimeDelay parseDate expires timeSensitive ceilingMs now r = Inr delay"
  shows "0 \<le> delay \<and> (delay > 0 \<longrightarrow> (\<exists>c. ceilingMs = Some c \<and> delay < c)) \<and>
    (\<forall>s t. delay > 0 \<longrightarrow> expires = Some (JStr s) \<longrightarrow> s \<noteq> [] \<longrightarrow> parseDate s = Some t \<longrightarrow> now + delay < t)"
proof -
  have floor: "\<lfloor>r * rat_of_int c\<rfloor> < c" if "r < 1" "0 < c" for c
  proof -
    have "r * rat_of_int c < 1 * rat_of_int c" using that by (intro mult_strict_right_mono) simp_all
    then show ?thesis by (simp add: floor_less_iff)
  qed
  show ?thesis
  proof (cases "delay = 0")
    case False
    with assms obtain c bound where c: "ceilingMs = Some c" "0 < c" "delayCeiling parseDate expires now c = Inr bound" "r < 1"
      "delay = \<lfloor>r * rat_of_int bound\<rfloor>" "0 < delay"
      by (auto simp: sendTimeDelay_def Let_def bindR_eq_Inr split: if_splits option.splits)
    note bound = delayCeiling_Inr [OF c(3,2)]
    have "delay < bound" unfolding c(5) by (rule floor [OF c(4) bound(1)])
    then show ?thesis using c(1,6) bound(2) bound(3) by fastforce
  qed simp
qed


section \<open>Inputs on which the hypotheses hold\<close>

theorem send_delay_bounded_witness:
  "\<exists>d. sendTimeDelay (\<lambda>s. Some 1000) (Some (JStr (js ''t''))) False (Some 60000) 400 (1 / 2) = (Inr d :: int hs_error + int) \<and>
     0 \<le> d \<and> (0 < d \<longrightarrow> 400 + d < 1000)"
proof -
  have "sendTimeDelay (\<lambda>s. Some 1000) (Some (JStr (js ''t''))) False (Some 60000) 400 (1 / 2) = (Inr 300 :: int hs_error + int)"
    by (simp add: sendTimeDelay_def delayCeiling_def js_def)
  from send_delay_bounded [OF this] this show ?thesis by (auto simp: js_def)
qed

definition ascii_env :: "int env" where
  "ascii_env = demo_env\<lparr>e_utf8 := map ucast, e_enc64 := (\<lambda>b. replicate (4 * ((length b + 2) div 3)) 65)\<rparr>"

definition demo_unsigned :: "int obj" where
  "demo_unsigned = [(js ''seal'', JObj [(js ''signature'', JStr []), (js ''session_mac'', JStr [])])]"


theorem padding_breaks_seal_witness:
  "\<exists>env env' r. compose stream_env (demo_input\<lparr>ci_padding := Some (js ''AAAA'')\<rparr>) = Inr env \<and>
     fillPadding stream_env \<lparr>pc_maxEnvelopeSize = Some 0, pc_bucketSequence = None\<rparr> zeros zeros env = Some (env', r) \<and>
     canonicalEnvelopeFor stream_env (JObj env) \<noteq> canonicalEnvelopeFor stream_env (JObj env')"
proof -
  let ?inp = "demo_input\<lparr>ci_padding := Some (js ''AAAA'')\<rparr>" and ?cfg = "\<lparr>pc_maxEnvelopeSize = Some 0, pc_bucketSequence = None\<rparr>"
  have ready: "compose_ready stream_env ?inp"
    using demo_input_ready by (simp add: compose_ready_def compose_ok_def)
  then have ok: "compose_ok ?inp" by (simp add: compose_ready_def)
  obtain env where c: "compose stream_env ?inp = Inr env" using compose_total [OF stream_env_ok ready] .
  have scheme: "scheme_ok (plat stream_env) (ci_senderDomainSigningSeed ?inp) (zeros 32)"
    using stream_scheme by (simp add: demo_input_parts)
  have n: "number_format (e_numstr stream_env)" "inj_on (e_utf8 stream_env) {s. well_formed s}"
    using demo_number_format inj_on_subset [OF demo_utf8_inj subset_UNIV] by (simp_all add: stream_env_def demo_env_def)
  have pad: "map_of env (js ''padding'') = Some (JStr (js ''AAAA''))"
    using composed_padding [OF c] by (simp add: demo_input_def)
  obtain env' r where f: "fillPadding stream_env ?cfg zeros zeros env = Some (env', r)" "map_of env' (js ''padding'') = Some (JStr [])"
  proof -
    obtain s where m: "map_of env (js ''seal'') = Some (JObj s)" using composed [OF ok c] .
    obtain sig mac where sm: "map_of s (js ''signature'') = Some (JStr sig)" "map_of s (js ''session_mac'') = Some (JStr mac)" "sig \<noteq> []" "mac \<noteq> []"
      using composed_proofs [OF stream_env_ok ok c scheme m] .
    have "pickBucket n 0 None = (Some (Inl (HsFail ''non-positive ceiling'')) :: (int hs_error + int) option)" if "0 \<le> n" for n
      using that by (simp add: pickBucket_def selectSizeBucket_def)
    then have "padBody stream_env ?cfg 0 zeros zeros env = Some (obj_set (js ''padding'') (JStr []) env, Inl (HsFail ''non-positive ceiling''))"
      by (simp add: padBody_def wireSize_def)
    then have "fillPadding stream_env ?cfg zeros zeros env = Some (obj_set (js ''padding'') (JStr []) env, Inl (HsFail ''non-positive ceiling''))"
      using sm by (simp add: fillPadding_def sealField_def fld_object [OF m] fld_object)
    then show ?thesis using that by simp
  qed
  have "map_of env' (js ''padding'') \<noteq> map_of env (js ''padding'')" using f(2) pad by (simp add: js_def)
  from padding_breaks_seal [OF n stream_env_ok ok c scheme f(1) this] c f(1) show ?thesis by blast
qed

end
