(* ===== verification/SignedRecords.thy ===== *)
theory SignedRecords
  imports SignedDoc JsValue
begin

text \<open>
  What the signed records of the program share (\<^verbatim>\<open>src/src/keys\<close>, \<^verbatim>\<open>delivery/user_policy.ts\<close>): the signature
  block, and the two routines every record type repeats with its own validator, JSON form and
  domain-separation prefix. A locale states what a record type has to provide; signing and
  verifying are related once, inside it.
\<close>

section \<open>Signature blocks\<close>

record keys_signature =
  ks_algorithm :: jstr
  ks_key_id :: jstr
  ks_value :: jstr

definition ks_json :: "keys_signature \<Rightarrow> 'n json" where
  "ks_json s = JObj [(js ''algorithm'', JStr (ks_algorithm s)), (js ''key_id'', JStr (ks_key_id s)),
     (js ''value'', JStr (ks_value s))]"

definition ed25519Block :: "jstr \<Rightarrow> keys_signature" where
  "ed25519Block keyId = \<lparr>ks_algorithm = js ''ed25519'', ks_key_id = keyId, ks_value = []\<rparr>"

definition signaturePath :: "jstr list" where "signaturePath = [js ''signature'', js ''value'']"

text \<open>Errors: a message of the validator (about the whole, or about the n-th part), or what the signed-document layer reports.\<close>

datatype record_error = Invalid string | InvalidAt nat string | BadPath path_error

definition liftPath :: "path_error + 'a \<Rightarrow> record_error + 'a" where
  "liftPath r = (case r of Inl e \<Rightarrow> Inl (BadPath e) | Inr x \<Rightarrow> Inr x)"

lemma liftPath_simps [simp]: "liftPath (Inl e) = Inl (BadPath e)" "liftPath (Inr x) = Inr x"
  by (simp_all add: liftPath_def)

text \<open>The first of several checks that fails decides the error.\<close>

fun checks :: "(bool \<times> string) list \<Rightarrow> record_error + unit" where
  "checks [] = Inr ()"
| "checks ((ok, msg) # cs) = (if ok then checks cs else Inl (Invalid msg))"

lemma checks_Inr [simp]: "checks cs = Inr u \<longleftrightarrow> list_all fst cs"
  by (induction cs) (auto split: if_splits)

declare checks.simps(2) [simp del]

lemma checks_const [simp]:
  "checks ((True, msg) # cs) = checks cs" "checks ((False, msg) # cs) = Inl (Invalid msg)"
  by (simp_all add: checks.simps)

lemma checks_append: "checks (cs @ ds) = bindR (checks cs) (\<lambda>_. checks ds)"
  by (induction cs) (auto simp: checks.simps)

section \<open>Signing and verifying a record\<close>

text \<open>
  \<open>signRecord\<close>: validate without looking at the signature value, install the block with a blank
  value, sign the document, write the value back. \<open>verifyRecord\<close>: validate, refuse a blank value,
  verify the document.
\<close>

definition signRecord ::
  "'n platform \<Rightarrow> ('r \<Rightarrow> 'n obj) \<Rightarrow> (keys_signature \<Rightarrow> 'r \<Rightarrow> 'r) \<Rightarrow> (bool \<Rightarrow> 'r \<Rightarrow> record_error + unit) \<Rightarrow> jstr
     \<Rightarrow> 'r \<Rightarrow> bytes \<Rightarrow> jstr \<Rightarrow> record_error + ('r \<times> jstr)"
where
  "signRecord P toJson setBlock validate prefix r seed keyId =
     (if keyId = [] then Inl (Invalid ''empty key_id'')
      else bindR (validate True r) (\<lambda>_.
        bindR (liftPath (signSignedDoc P (toJson (setBlock (ed25519Block keyId) r)) seed signaturePath prefix))
          (\<lambda>(sdoc, sigB64). Inr (setBlock (ed25519Block keyId\<lparr>ks_value := sigB64\<rparr>) r, sigB64))))"

definition verifyRecord ::
  "'n platform \<Rightarrow> ('r \<Rightarrow> 'n obj) \<Rightarrow> ('r \<Rightarrow> keys_signature) \<Rightarrow> (bool \<Rightarrow> 'r \<Rightarrow> record_error + unit) \<Rightarrow> jstr
     \<Rightarrow> 'r \<Rightarrow> bytes \<Rightarrow> record_error + bool"
where
  "verifyRecord P toJson block validate prefix r pub =
     bindR (validate False r) (\<lambda>_.
       if ks_value (block r) = [] then Inr False
       else liftPath (verifySignedDoc P (toJson r) pub signaturePath prefix))"

text \<open>What a record type provides.\<close>

locale signed_kind =
  fixes toJson :: "'r \<Rightarrow> 'n obj"
    and block :: "'r \<Rightarrow> keys_signature"
    and setBlock :: "keys_signature \<Rightarrow> 'r \<Rightarrow> 'r"
    and validate :: "bool \<Rightarrow> 'r \<Rightarrow> record_error + unit"
  assumes json_path: "setPath (toJson r) signaturePath v = Inr (toJson (setBlock (block r\<lparr>ks_value := v\<rparr>) r))"
    and block_set [simp]: "block (setBlock b r) = b"
    and set_block [simp]: "setBlock (block r) r = r"
    and set_set [simp]: "setBlock b (setBlock c r) = setBlock b r"
    and validate_signed: "validate True r = Inr () \<Longrightarrow> ks_algorithm b \<noteq> [] \<Longrightarrow> ks_key_id b \<noteq> [] \<Longrightarrow> ks_value b \<noteq> [] \<Longrightarrow>
      validate False (setBlock b r) = Inr ()"
begin

lemma as_signed_record:
  "signed_record toJson signaturePath (\<lambda>r. ks_value (block r)) (\<lambda>v r. setBlock (block r\<lparr>ks_value := v\<rparr>) r)"
proof unfold_locales
  fix r v show "setPath (toJson r) signaturePath v = Inr (toJson (setBlock (block r\<lparr>ks_value := v\<rparr>) r))"
    by (rule json_path)
next
  fix r have "block r\<lparr>ks_value := ks_value (block r)\<rparr> = block r" by simp
  then show "setBlock (block r\<lparr>ks_value := ks_value (block r)\<rparr>) r = r" by (simp del: keys_signature.surjective)
qed (simp_all add: signaturePath_def)

lemma sign_eq:
  "signRecord P toJson setBlock validate prefix r seed keyId =
     (if keyId = [] then Inl (Invalid ''empty key_id'')
      else bindR (validate True r) (\<lambda>_.
        let sigB64 = pl_enc64 P (pl_sign P seed (signingInput P prefix (toJson (setBlock (ed25519Block keyId) r)))) in
        Inr (setBlock (ed25519Block keyId\<lparr>ks_value := sigB64\<rparr>) r, sigB64)))"
  by (simp add: signRecord_def signed_record.sign_json [OF as_signed_record] Let_def ed25519Block_def)

lemma verify_eq:
  "verifyRecord P toJson block validate prefix r pub =
     bindR (validate False r) (\<lambda>_.
       if ks_value (block r) = [] then Inr False
       else Inr (pl_verify P pub (pl_dec64 P (ks_value (block r)))
         (signingInput P prefix (toJson (setBlock (block r\<lparr>ks_value := []\<rparr>) r)))))"
  by (simp add: verifyRecord_def signed_record.verify_json [OF as_signed_record])

lemma kind_sign_then_verify:
  assumes "scheme_ok P seed pub" "\<forall>msg. pl_enc64 P (pl_sign P seed msg) \<noteq> []"
    and "signRecord P toJson setBlock validate prefix r seed keyId = Inr (r', sig)"
  shows "verifyRecord P toJson block validate prefix r' pub = Inr True"
    and "r' = setBlock \<lparr>ks_algorithm = js ''ed25519'', ks_key_id = keyId, ks_value = sig\<rparr> r"
proof -
  from assms(3) have v: "keyId \<noteq> []" "validate True r = Inr ()"
      "sig = pl_enc64 P (pl_sign P seed (signingInput P prefix (toJson (setBlock (ed25519Block keyId) r))))"
      "r' = setBlock (ed25519Block keyId\<lparr>ks_value := sig\<rparr>) r"
    by (auto simp: sign_eq bindR_eq_Inr Let_def split: if_splits)
  from v(4) show "r' = setBlock \<lparr>ks_algorithm = js ''ed25519'', ks_key_id = keyId, ks_value = sig\<rparr> r"
    by (simp add: ed25519Block_def)
  have "validate False r' = Inr ()"
    unfolding v(4) using v(1,2) assms(2) v(3) by (intro validate_signed) (simp_all add: ed25519Block_def)
  moreover have "ed25519Block keyId\<lparr>ks_value := sig\<rparr>\<lparr>ks_value := []\<rparr> = ed25519Block keyId"
    by (simp add: ed25519Block_def)
  ultimately show "verifyRecord P toJson block validate prefix r' pub = Inr True"
    using assms(1,2) v(3,4) by (simp add: verify_eq scheme_ok_def)
qed

text \<open>
  What an accepted signature covers: when the scheme accepts only signatures made by signing
  (\<open>made\<close>), the record is the one that was signed, up to the order of the fields of its JSON form.
\<close>

lemma verify_covers:
  assumes "verifyRecord P toJson block validate prefix r pub = Inr True"
    and "\<And>sig msg. pl_verify P pub sig msg \<Longrightarrow> made msg"
  shows "validate False r = Inr ()" "ks_value (block r) \<noteq> []"
    and "made (signingInput P prefix (toJson (setBlock (block r\<lparr>ks_value := []\<rparr>) r)))"
  using assms by (auto simp: verify_eq bindR_eq_Inr split: if_splits)

end

section \<open>Checks on optional and nullable fields\<close>

abbreviation numOr0 :: "int option \<Rightarrow> int" where
  "numOr0 x \<equiv> (case x of None \<Rightarrow> 0 | Some n \<Rightarrow> n)"

definition nullable :: "jstr option \<Rightarrow> 'n json" where
  "nullable x = (case x of None \<Rightarrow> JNull | Some s \<Rightarrow> JStr s)"

definition optional :: "string \<Rightarrow> ('a \<Rightarrow> 'n json) \<Rightarrow> 'a option \<Rightarrow> 'n obj" where
  "optional k f x = (case x of None \<Rightarrow> [] | Some v \<Rightarrow> [(js k, f v)])"

text \<open>The part of a string behind its last at-sign, and the part between the first two.\<close>

definition afterLastAt :: "jstr \<Rightarrow> jstr" where
  "afterLastAt s = (if 64 \<in> set s then rev (takeWhile (\<lambda>c. c \<noteq> 64) (rev s)) else [])"

definition secondPart :: "jstr \<Rightarrow> jstr" where
  "secondPart s = takeWhile (\<lambda>c. c \<noteq> 64) (tl (dropWhile (\<lambda>c. c \<noteq> 64) s))"

end
