(* ===== verification/DeviceCertificate.thy ===== *)
theory DeviceCertificate
  imports SignedRecords
begin

text \<open>
  Scoped device certificates, \<^verbatim>\<open>src/src/keys/device_certificate.ts\<close>: the record, its structural
  validation, the issuer's signature and the matchers the home server evaluates on every operation.
  \<open>parseDate\<close> stands for \<open>Date.parse\<close>, \<open>lower\<close> for \<open>String.prototype.toLowerCase\<close>.
\<close>

section \<open>Data\<close>

definition DeviceCertificateType :: jstr where "DeviceCertificateType = js ''SEMP_DEVICE_CERTIFICATE''"
definition DeviceAuthorizePrefix :: jstr where "DeviceAuthorizePrefix = js ''SEMP-DEVICE-AUTHORIZE:''"
definition MaxScopeMatcherEntries :: nat where "MaxScopeMatcherEntries = 10000"
definition MaxScopeRateLimitTiers :: nat where "MaxScopeRateLimitTiers = 16"
definition MaxDeviceCertificateLifetimeMs :: int where
  "MaxDeviceCertificateLifetimeMs = 365 * 24 * 3600 * 1000"

record scope_entry =
  se_type :: jstr
  se_address :: "jstr option"
  se_domain :: "jstr option"
  se_server :: "jstr option"

record rate_limit_tier =
  rl_period_seconds :: int
  rl_amount_allowed :: int

record scope_matcher =
  sm_mode :: jstr
  sm_allow :: "scope_entry list option"
  sm_deny :: "scope_entry list option"
  sm_rate_limits :: "rate_limit_tier list"
  sm_delivery_stage :: "int option"

record scope_resource =
  sr_read :: bool
  sr_write :: bool
  sr_rate_limits :: "rate_limit_tier list"

record scope =
  sc_send :: scope_matcher
  sc_receive :: scope_matcher
  sc_blocklist :: scope_resource
  sc_keys :: scope_resource
  sc_devices :: scope_resource

record device_certificate =
  dc_type :: jstr
  dc_version :: jstr
  dc_device_id :: jstr
  dc_device_public_key :: jstr
  dc_account :: jstr
  dc_issued_by :: jstr
  dc_issued_at :: jstr
  dc_expires_at :: jstr
  dc_scope :: scope
  dc_signature :: keys_signature

section \<open>Validation\<close>

abbreviation listOf :: "'a list option \<Rightarrow> 'a list" where
  "listOf x \<equiv> (case x of None \<Rightarrow> [] | Some xs \<Rightarrow> xs)"

definition validateRateLimits :: "rate_limit_tier list \<Rightarrow> record_error + unit" where
  "validateRateLimits tiers =
     checks ((length tiers \<le> MaxScopeRateLimitTiers, ''tiers exceeds cap'') #
       concat (map (\<lambda>t. [(rl_period_seconds t \<ge> 1, ''period_seconds MUST be >= 1''),
                         (rl_amount_allowed t \<ge> 0, ''amount_allowed MUST be >= 0'')]) tiers))"

definition present :: "jstr option \<Rightarrow> bool" where
  "present x = (x \<noteq> None \<and> x \<noteq> Some [])"

definition validateScopeEntry :: "scope_entry \<Rightarrow> record_error + unit" where
  "validateScopeEntry e =
     (if se_type e = js ''user'' then checks [(present (se_address e), ''type=user requires address'')]
      else if se_type e = js ''domain'' then checks [(present (se_domain e), ''type=domain requires domain'')]
      else if se_type e = js ''server'' then
        checks [(present (se_server e) \<or> present (se_domain e), ''type=server requires server or domain'')]
      else Inl (Invalid ''invalid entity type''))"

definition validateMatcher :: "scope_matcher \<Rightarrow> bool \<Rightarrow> record_error + unit" where
  "validateMatcher m allowDeliveryStage =
     bindR (validateRateLimits (sm_rate_limits m)) (\<lambda>_.
     let allow = listOf (sm_allow m); deny = listOf (sm_deny m) in
     bindR
       (if sm_mode m = js ''unrestricted'' \<or> sm_mode m = js ''none'' then
          checks [(allow = [] \<and> deny = [], ''mode requires allow + deny absent or empty'')]
        else if sm_mode m = js ''restricted'' then
          checks [(allow \<noteq> [], ''mode=restricted requires non-empty allow''),
                  (deny = [], ''mode=restricted forbids deny'')]
        else if sm_mode m = js ''denylist'' then
          checks [(deny \<noteq> [], ''mode=denylist requires non-empty deny''),
                  (allow = [], ''mode=denylist forbids allow'')]
        else Inl (Invalid ''invalid mode'')) (\<lambda>_.
     bindR (checks [(length allow + length deny \<le> MaxScopeMatcherEntries, ''allow + deny size exceeds cap'')]) (\<lambda>_.
     bindR (mapR validateScopeEntry allow) (\<lambda>_.
     bindR (mapR validateScopeEntry deny) (\<lambda>_.
     case sm_delivery_stage m of
       None \<Rightarrow> Inr ()
     | Some stage \<Rightarrow>
         checks [(allowDeliveryStage, ''delivery_stage MUST be omitted on send matcher''),
                 (stage \<ge> 1, ''delivery_stage MUST be a positive integer'')])))))"

definition validateResource :: "scope_resource \<Rightarrow> record_error + unit" where
  "validateResource r = validateRateLimits (sr_rate_limits r)"

definition validateScope :: "scope \<Rightarrow> record_error + unit" where
  "validateScope s =
     bindR (validateMatcher (sc_send s) False) (\<lambda>_.
     bindR (validateMatcher (sc_receive s) True) (\<lambda>_.
     bindR (validateResource (sc_blocklist s)) (\<lambda>_.
     bindR (validateResource (sc_keys s)) (\<lambda>_.
     validateResource (sc_devices s)))))"

definition validateDeviceCertificate ::
  "(jstr \<Rightarrow> time option) \<Rightarrow> bool \<Rightarrow> device_certificate \<Rightarrow> record_error + unit"
where
  "validateDeviceCertificate parseDate skipSignatureCheck c =
     bindR (checks
       [(dc_type c = DeviceCertificateType, ''wrong type''), (dc_version c \<noteq> [], ''missing version''),
        (dc_device_id c \<noteq> [], ''missing device_id''), (dc_device_public_key c \<noteq> [], ''missing device_public_key''),
        (dc_account c \<noteq> [], ''missing account''), (dc_issued_by c \<noteq> [], ''missing issued_by''),
        (dc_issued_at c \<noteq> [], ''missing issued_at''), (dc_expires_at c \<noteq> [], ''missing expires_at'')]) (\<lambda>_.
     case parseDate (dc_issued_at c) of
       None \<Rightarrow> Inl (Invalid ''issued_at is not ISO 8601'')
     | Some issued \<Rightarrow>
     (case parseDate (dc_expires_at c) of
       None \<Rightarrow> Inl (Invalid ''expires_at is not ISO 8601'')
     | Some expires \<Rightarrow>
     bindR (checks [(expires > issued, ''expires_at MUST be after issued_at''),
       (expires - issued \<le> MaxDeviceCertificateLifetimeMs, ''lifetime exceeds 365-day cap'')]) (\<lambda>_.
     bindR (validateScope (dc_scope c)) (\<lambda>_.
     checks [(ks_algorithm (dc_signature c) \<noteq> [], ''missing signature.algorithm''),
       (ks_key_id (dc_signature c) \<noteq> [], ''missing signature.key_id''),
       (skipSignatureCheck \<or> ks_value (dc_signature c) \<noteq> [], ''signature.value is empty'')]))))"

section \<open>Signing\<close>

definition entry_json :: "scope_entry \<Rightarrow> 'n json" where
  "entry_json e = JObj ((js ''type'', JStr (se_type e)) #
     optional ''address'' JStr (se_address e) @ optional ''domain'' JStr (se_domain e) @
     optional ''server'' JStr (se_server e))"

definition tiers_json :: "(int \<Rightarrow> 'n) \<Rightarrow> rate_limit_tier list \<Rightarrow> 'n json" where
  "tiers_json num ts = JArr (map (\<lambda>t. JObj [(js ''period_seconds'', JNum (num (rl_period_seconds t))),
     (js ''amount_allowed'', JNum (num (rl_amount_allowed t)))]) ts)"

definition matcher_json :: "(int \<Rightarrow> 'n) \<Rightarrow> scope_matcher \<Rightarrow> 'n json" where
  "matcher_json num m = JObj ((js ''mode'', JStr (sm_mode m)) #
     optional ''allow'' (\<lambda>es. JArr (map entry_json es)) (sm_allow m) @
     optional ''deny'' (\<lambda>es. JArr (map entry_json es)) (sm_deny m) @
     [(js ''rate_limits'', tiers_json num (sm_rate_limits m))] @
     optional ''delivery_stage'' (\<lambda>n. JNum (num n)) (sm_delivery_stage m))"

definition resource_json :: "(int \<Rightarrow> 'n) \<Rightarrow> scope_resource \<Rightarrow> 'n json" where
  "resource_json num r = JObj [(js ''read'', JBool (sr_read r)), (js ''write'', JBool (sr_write r)),
     (js ''rate_limits'', tiers_json num (sr_rate_limits r))]"

definition scope_json :: "(int \<Rightarrow> 'n) \<Rightarrow> scope \<Rightarrow> 'n json" where
  "scope_json num s = JObj [(js ''send'', matcher_json num (sc_send s)),
     (js ''receive'', matcher_json num (sc_receive s)), (js ''blocklist'', resource_json num (sc_blocklist s)),
     (js ''keys'', resource_json num (sc_keys s)), (js ''devices'', resource_json num (sc_devices s))]"

definition certificate_json :: "(int \<Rightarrow> 'n) \<Rightarrow> device_certificate \<Rightarrow> 'n obj" where
  "certificate_json num c =
     [(js ''type'', JStr (dc_type c)), (js ''version'', JStr (dc_version c)),
      (js ''device_id'', JStr (dc_device_id c)), (js ''device_public_key'', JStr (dc_device_public_key c)),
      (js ''account'', JStr (dc_account c)), (js ''issued_by'', JStr (dc_issued_by c)),
      (js ''issued_at'', JStr (dc_issued_at c)), (js ''expires_at'', JStr (dc_expires_at c)),
      (js ''scope'', scope_json num (dc_scope c)), (js ''signature'', ks_json (dc_signature c))]"

abbreviation setCertificateBlock :: "keys_signature \<Rightarrow> device_certificate \<Rightarrow> device_certificate" where
  "setCertificateBlock b c \<equiv> c\<lparr>dc_signature := b\<rparr>"

definition signDeviceCertificate ::
  "'n platform \<Rightarrow> (int \<Rightarrow> 'n) \<Rightarrow> (jstr \<Rightarrow> time option) \<Rightarrow> device_certificate \<Rightarrow> bytes \<Rightarrow> jstr
     \<Rightarrow> record_error + (device_certificate \<times> jstr)"
where
  "signDeviceCertificate P num parseDate certificate issuerSigningSeed issuerKeyId =
     signRecord P (certificate_json num) setCertificateBlock (validateDeviceCertificate parseDate) DeviceAuthorizePrefix
       certificate issuerSigningSeed issuerKeyId"

definition verifyDeviceCertificate ::
  "'n platform \<Rightarrow> (int \<Rightarrow> 'n) \<Rightarrow> (jstr \<Rightarrow> time option) \<Rightarrow> device_certificate \<Rightarrow> bytes \<Rightarrow> record_error + bool"
where
  "verifyDeviceCertificate P num parseDate certificate issuerPub =
     verifyRecord P (certificate_json num) dc_signature (validateDeviceCertificate parseDate) DeviceAuthorizePrefix
       certificate issuerPub"

lemma mapR_unit_cong: "(\<And>x. x \<in> set xs \<Longrightarrow> f x = g x) \<Longrightarrow> mapR f xs = mapR g xs"
  by (induction xs) auto

interpretation certificate: signed_kind "certificate_json num" dc_signature setCertificateBlock
  "validateDeviceCertificate parseDate"
proof unfold_locales
  fix r :: device_certificate and v
  show "setPath (certificate_json num r) signaturePath v
      = Inr (certificate_json num (setCertificateBlock (dc_signature r\<lparr>ks_value := v\<rparr>) r))"
    by (simp add: certificate_json_def signaturePath_def ks_json_def)
next
  fix r :: device_certificate and b :: keys_signature
  assume "validateDeviceCertificate parseDate True r = Inr ()" "ks_algorithm b \<noteq> []" "ks_key_id b \<noteq> []" "ks_value b \<noteq> []"
  then show "validateDeviceCertificate parseDate False (setCertificateBlock b r) = Inr ()"
    by (auto simp: validateDeviceCertificate_def bindR_eq_Inr split: option.splits)
qed simp_all

section \<open>Enforcement\<close>

record address_identity =
  ai_address :: jstr
  ai_server :: "jstr option"

fun matchAny :: "(jstr \<Rightarrow> jstr) \<Rightarrow> scope_entry list \<Rightarrow> address_identity \<Rightarrow> bool" where
  "matchAny lower [] addr = False"
| "matchAny lower (entry # entries) addr =
     (let peer = lower (ai_address addr);
          peerDomain = afterLastAt peer;
          peerServer = lower (case ai_server addr of None \<Rightarrow> [] | Some s \<Rightarrow> s) in
      if (if se_type entry = js ''user'' then
            (case se_address entry of Some a \<Rightarrow> a \<noteq> [] \<and> lower a = peer | None \<Rightarrow> False)
          else if se_type entry = js ''domain'' then
            (case se_domain entry of Some d \<Rightarrow> d \<noteq> [] \<and> lower d = peerDomain | None \<Rightarrow> False)
          else if se_type entry = js ''server'' then
            (let ent = lower (case se_server entry of Some s \<Rightarrow> s | None \<Rightarrow>
                   (case se_domain entry of Some d \<Rightarrow> d | None \<Rightarrow> [])) in
             ent \<noteq> [] \<and> (peerServer \<noteq> [] \<and> ent = peerServer \<or> peerServer = [] \<and> ent = peerDomain))
          else False)
      then True else matchAny lower entries addr)"

definition scopeAllowsRecipient :: "(jstr \<Rightarrow> jstr) \<Rightarrow> scope_matcher \<Rightarrow> address_identity \<Rightarrow> bool" where
  "scopeAllowsRecipient lower matcher recipient =
     (if sm_mode matcher = js ''unrestricted'' then True
      else if sm_mode matcher = js ''none'' then False
      else if sm_mode matcher = js ''restricted'' then matchAny lower (listOf (sm_allow matcher)) recipient
      else if sm_mode matcher = js ''denylist'' then \<not> matchAny lower (listOf (sm_deny matcher)) recipient
      else False)"

definition scopeAllowsSender :: "(jstr \<Rightarrow> jstr) \<Rightarrow> scope_matcher \<Rightarrow> address_identity \<Rightarrow> bool" where
  "scopeAllowsSender lower matcher sender = scopeAllowsRecipient lower matcher sender"

section \<open>Properties\<close>

text \<open>What it means that an entry names a peer; the loop asks whether some entry does.\<close>

definition names :: "(jstr \<Rightarrow> jstr) \<Rightarrow> address_identity \<Rightarrow> scope_entry \<Rightarrow> bool" where
  "names lower addr e = matchAny lower [e] addr"

lemma matchAny_names: "matchAny lower es addr \<longleftrightarrow> (\<exists>e \<in> set es. names lower addr e)"
  by (induction es) (simp_all add: names_def Let_def)

text \<open>Device certificates: what \<open>signDeviceCertificate\<close> returns is the certificate given with the
  issuer's block in place of its signature, and \<open>verifyDeviceCertificate\<close> accepts it under the issuer's
  public key; in particular it lives at most 365 days and every matcher of its scope is well formed.\<close>

theorem certificate_sign_then_verify:
  assumes "scheme_ok P seed pub" "\<forall>msg. pl_enc64 P (pl_sign P seed msg) \<noteq> []"
    and "signDeviceCertificate P num parseDate c seed issuerKeyId = Inr (c', sig)"
  shows "verifyDeviceCertificate P num parseDate c' pub = Inr True"
    and "c' = c\<lparr>dc_signature := \<lparr>ks_algorithm = js ''ed25519'', ks_key_id = issuerKeyId, ks_value = sig\<rparr>\<rparr>"
    and "validateScope (dc_scope c') = Inr () \<and>
      (\<exists>i e. parseDate (dc_issued_at c') = Some i \<and> parseDate (dc_expires_at c') = Some e \<and> i < e
         \<and> e \<le> i + MaxDeviceCertificateLifetimeMs)"
proof -
  note s = certificate.kind_sign_then_verify [OF assms(1,2) assms(3) [unfolded signDeviceCertificate_def]]
  show v: "verifyDeviceCertificate P num parseDate c' pub = Inr True"
    using s(1) by (simp add: verifyDeviceCertificate_def)
  show "c' = c\<lparr>dc_signature := \<lparr>ks_algorithm = js ''ed25519'', ks_key_id = issuerKeyId, ks_value = sig\<rparr>\<rparr>"
    by (rule s(2))
  from v have "validateDeviceCertificate parseDate False c' = Inr ()"
    by (simp add: verifyDeviceCertificate_def verifyRecord_def bindR_eq_Inr)
  then show "validateScope (dc_scope c') = Inr () \<and>
      (\<exists>i e. parseDate (dc_issued_at c') = Some i \<and> parseDate (dc_expires_at c') = Some e \<and> i < e
         \<and> e \<le> i + MaxDeviceCertificateLifetimeMs)"
    by (auto simp: validateDeviceCertificate_def bindR_eq_Inr split: option.splits)
qed

text \<open>A server entry may name its host in \<open>server\<close> or in \<open>domain\<close>, and validation accepts an entry with
  an empty \<open>server\<close> and a \<open>domain\<close>. Enforcement reads \<open>server ?? domain\<close>, which is the empty string
  then, and skips the entry: a deny list made of such entries passes validation and denies nobody, and an
  allow list made of them allows nobody.\<close>

theorem blank_server_entry_ignored:
  assumes "lower [] = []" and "es \<noteq> []" and "length es \<le> MaxScopeMatcherEntries"
    and "\<forall>e \<in> set es. se_type e = js ''server'' \<and> se_server e = Some [] \<and> present (se_domain e)"
  shows "validateMatcher \<lparr>sm_mode = js ''denylist'', sm_allow = None, sm_deny = Some es, sm_rate_limits = [],
             sm_delivery_stage = None\<rparr> stage = Inr ()
      \<and> scopeAllowsSender lower \<lparr>sm_mode = js ''denylist'', sm_allow = None, sm_deny = Some es,
             sm_rate_limits = [], sm_delivery_stage = None\<rparr> sender
      \<and> \<not> scopeAllowsSender lower \<lparr>sm_mode = js ''restricted'', sm_allow = Some es, sm_deny = None,
             sm_rate_limits = [], sm_delivery_stage = None\<rparr> sender"
proof -
  have "mapR validateScopeEntry es = Inr (map (\<lambda>_. ()) es)"
    using assms(4) by (intro mapR_Inr) (simp add: validateScopeEntry_def)
  moreover have "\<not> matchAny lower es sender"
    unfolding matchAny_names
  proof
    assume "\<exists>e \<in> set es. names lower sender e"
    then obtain e where "e \<in> set es" "names lower sender e" by blast
    moreover from this assms(4) have "se_type e = js ''server''" "se_server e = Some []" by blast+
    ultimately show False using assms(1) by (simp add: names_def)
  qed
  moreover have "validateMatcher \<lparr>sm_mode = js ''denylist'', sm_allow = None, sm_deny = Some es,
      sm_rate_limits = [], sm_delivery_stage = None\<rparr> stage = Inr ()" if "mapR validateScopeEntry es = Inr us" for us
    using that assms(2,3) by (simp add: validateMatcher_def validateRateLimits_def)
  ultimately show ?thesis
    by (simp add: scopeAllowsSender_def scopeAllowsRecipient_def)
qed

definition plain_matcher :: scope_matcher where
  "plain_matcher = \<lparr>sm_mode = js ''unrestricted'', sm_allow = None, sm_deny = None, sm_rate_limits = [],
     sm_delivery_stage = None\<rparr>"

definition plain_resource :: scope_resource where
  "plain_resource = \<lparr>sr_read = True, sr_write = False, sr_rate_limits = []\<rparr>"

definition demo_certificate :: device_certificate where
  "demo_certificate = \<lparr>dc_type = DeviceCertificateType, dc_version = js ''1'', dc_device_id = js ''d'',
     dc_device_public_key = js ''p'', dc_account = js ''a'', dc_issued_by = js ''i'', dc_issued_at = js ''0'',
     dc_expires_at = js ''10'',
     dc_scope = \<lparr>sc_send = plain_matcher, sc_receive = plain_matcher\<lparr>sm_delivery_stage := Some 1\<rparr>,
       sc_blocklist = plain_resource, sc_keys = plain_resource, sc_devices = plain_resource\<rparr>,
     dc_signature = \<lparr>ks_algorithm = js ''ed25519'', ks_key_id = js ''k'', ks_value = []\<rparr>\<rparr>"

definition demo_parse :: "jstr \<Rightarrow> time option" where
  "demo_parse s = (if s = js ''0'' then Some 0 else if s = js ''10'' then Some 10000 else None)"

lemma demo_certificate_valid: "validateDeviceCertificate demo_parse True demo_certificate = Inr ()"
  by (simp add: validateDeviceCertificate_def demo_certificate_def demo_parse_def validateScope_def
      validateMatcher_def validateResource_def validateRateLimits_def plain_matcher_def plain_resource_def
      MaxDeviceCertificateLifetimeMs_def Let_def)

theorem certificate_sign_then_verify_witness:
  "\<exists>c' sig. signDeviceCertificate demo_platform id demo_parse demo_certificate [7] (js ''k'') = Inr (c', sig)
     \<and> verifyDeviceCertificate demo_platform id demo_parse c' [7] = Inr True \<and> dc_device_id c' = js ''d''"
proof -
  obtain c' sig where c: "signDeviceCertificate demo_platform id demo_parse demo_certificate [7] (js ''k'') = Inr (c', sig)"
    by (simp add: signDeviceCertificate_def certificate.sign_eq demo_certificate_valid Let_def)
  have "\<forall>msg. pl_enc64 demo_platform (pl_sign demo_platform [7] msg) \<noteq> []" by (simp add: demo_platform_def)
  note s = certificate_sign_then_verify [OF demo_scheme this c]
  have "dc_device_id c' = js ''d''" by (subst s(2)) (simp add: demo_certificate_def)
  with s(1) c show ?thesis by blast
qed

theorem blank_server_entry_ignored_witness:
  "scopeAllowsSender id \<lparr>sm_mode = js ''denylist'', sm_allow = None,
     sm_deny = Some [\<lparr>se_type = js ''server'', se_address = None, se_domain = Some (js ''e.com''), se_server = Some []\<rparr>],
     sm_rate_limits = [], sm_delivery_stage = None\<rparr> \<lparr>ai_address = js ''m@e.com'', ai_server = None\<rparr>"
  using blank_server_entry_ignored [of id "[\<lparr>se_type = js ''server'', se_address = None, se_domain = Some (js ''e.com''),
      se_server = Some []\<rparr>]"] by (simp add: present_def MaxScopeMatcherEntries_def)

end
