(* ===== verification/DeviceRecords.thy ===== *)
theory DeviceRecords
  imports DeviceCertificate
begin

text \<open>
  Multi-device records, \<^verbatim>\<open>src/src/keys/device_records.ts\<close>: registrations with the inner authorization by an
  existing device, revocations and directories, each with validation, signing and verification.
\<close>

section \<open>Data\<close>

definition DeviceRegistrationType :: jstr where "DeviceRegistrationType = js ''SEMP_DEVICE''"
definition DeviceRegistrationStep :: jstr where "DeviceRegistrationStep = js ''register''"
definition DeviceRevocationType :: jstr where "DeviceRevocationType = js ''SEMP_DEVICE_REVOCATION''"
definition DeviceDirectoryType :: jstr where "DeviceDirectoryType = js ''SEMP_DEVICE_DIRECTORY''"
definition DeviceRecordVersion :: jstr where "DeviceRecordVersion = js ''1.0.0''"
definition DeviceRegisterPrefix :: jstr where "DeviceRegisterPrefix = js ''SEMP-DEVICE-REGISTER:''"
definition DeviceAuthorizeRecordPrefix :: jstr where "DeviceAuthorizeRecordPrefix = js ''SEMP-DEVICE-AUTHORIZE:''"
definition DeviceRevocationPrefix :: jstr where "DeviceRevocationPrefix = js ''SEMP-DEVICE-REVOCATION:''"
definition DeviceDirectoryPrefix :: jstr where "DeviceDirectoryPrefix = js ''SEMP-DEVICE-DIRECTORY:''"

definition requiresIdentityRotation :: "jstr \<Rightarrow> bool" where
  "requiresIdentityRotation r \<longleftrightarrow> r = js ''key_compromise''"

record device_authorization =
  da_method :: jstr
  da_authorizing_device_id :: jstr
  da_authorizing_signature :: keys_signature

record device_registration =
  dr_type :: jstr
  dr_step :: jstr
  dr_version :: jstr
  dr_user_id :: jstr
  dr_device_id :: jstr
  dr_device_name :: jstr
  dr_device_type :: jstr
  dr_device_public_key :: jstr
  dr_device_identity_pubkey_algorithm :: jstr
  dr_enrolled_at :: jstr
  dr_role :: jstr
  dr_certificate_id :: "jstr option"
  dr_authorization :: "device_authorization option"
  dr_signature :: keys_signature

record device_revocation =
  dv_type :: jstr
  dv_version :: jstr
  dv_user_id :: jstr
  dv_device_id :: jstr
  dv_reason :: jstr
  dv_revoked_at :: jstr
  dv_revoked_by_device_id :: jstr
  dv_replacement_device_id :: "jstr option"
  dv_signature :: keys_signature

record directory_entry =
  de_device_id :: jstr
  de_device_public_key :: jstr
  de_device_identity_pubkey_algorithm :: jstr
  de_role :: jstr
  de_certificate_id :: "jstr option"
  de_enrolled_at :: jstr
  de_device_name :: jstr
  de_device_type :: jstr

record device_directory =
  dd_type :: jstr
  dd_version :: jstr
  dd_user_id :: jstr
  dd_revision :: int
  dd_issued_at :: jstr
  dd_devices :: "directory_entry list"
  dd_signature :: keys_signature

section \<open>The inner authorization\<close>

definition authorizationCanonicalBytes :: "'n platform \<Rightarrow> jstr \<Rightarrow> jstr \<Rightarrow> jstr \<Rightarrow> bytes \<Rightarrow> bytes" where
  "authorizationCanonicalBytes P deviceId devicePublicKey enrolledAt enrollNonce =
     pl_utf8 P deviceId @ [0] @ pl_utf8 P devicePublicKey @ [0] @ pl_utf8 P enrolledAt @ [0] @ enrollNonce"

definition signDeviceAuthorization ::
  "'n platform \<Rightarrow> device_registration \<Rightarrow> bytes \<Rightarrow> jstr \<Rightarrow> jstr \<Rightarrow> bytes \<Rightarrow> jstr \<Rightarrow> record_error + device_registration"
where
  "signDeviceAuthorization P reg authorizingDeviceSeed authorizingDeviceId authorizingDeviceKeyId enrollNonce mth =
     bindR (checks
       [(enrollNonce \<noteq> [], ''empty enroll nonce''), (authorizingDeviceId \<noteq> [], ''empty authorizing_device_id''),
        (authorizingDeviceKeyId \<noteq> [], ''empty authorizing key_id''),
        (dr_device_id reg \<noteq> [] \<and> dr_device_public_key reg \<noteq> [] \<and> dr_enrolled_at reg \<noteq> [],
          ''device registration missing device_id / device_public_key / enrolled_at'')]) (\<lambda>_.
     let authBytes = authorizationCanonicalBytes P (dr_device_id reg) (dr_device_public_key reg)
           (dr_enrolled_at reg) enrollNonce;
         sig = pl_sign P authorizingDeviceSeed (pl_utf8 P DeviceAuthorizeRecordPrefix @ authBytes) in
     Inr (reg\<lparr>dr_authorization := Some \<lparr>da_method = mth, da_authorizing_device_id = authorizingDeviceId,
       da_authorizing_signature = \<lparr>ks_algorithm = js ''ed25519'', ks_key_id = authorizingDeviceKeyId,
         ks_value = pl_enc64 P sig\<rparr>\<rparr>\<rparr>))"

definition verifyDeviceAuthorization :: "'n platform \<Rightarrow> device_registration \<Rightarrow> bytes \<Rightarrow> bytes \<Rightarrow> bool" where
  "verifyDeviceAuthorization P reg authorizingDevicePub enrollNonce =
     (case dr_authorization reg of
        None \<Rightarrow> False
      | Some auth \<Rightarrow>
          if ks_value (da_authorizing_signature auth) = [] then False
          else pl_verify P authorizingDevicePub (pl_dec64 P (ks_value (da_authorizing_signature auth)))
            (pl_utf8 P DeviceAuthorizeRecordPrefix @
             authorizationCanonicalBytes P (dr_device_id reg) (dr_device_public_key reg) (dr_enrolled_at reg)
               enrollNonce))"

section \<open>Registrations\<close>

text \<open>The rule on roles and certificate ids that registrations and directory entries share.\<close>

definition roleChecks :: "jstr \<Rightarrow> jstr option \<Rightarrow> (bool \<times> string) list" where
  "roleChecks role certificateId =
     [(role = js ''full_access'' \<or> role = js ''delegated'', ''role is invalid''),
      (role = js ''full_access'' \<longrightarrow> certificateId = None, ''role=full_access requires certificate_id=null''),
      (role = js ''delegated'' \<longrightarrow> certificateId \<noteq> None \<and> certificateId \<noteq> Some [],
        ''role=delegated requires non-empty certificate_id'')]"

definition validateDeviceRegistration ::
  "(jstr \<Rightarrow> time option) \<Rightarrow> bool \<Rightarrow> device_registration \<Rightarrow> record_error + unit"
where
  "validateDeviceRegistration parseDate skipSignatureCheck reg =
     bindR (checks (
       [(dr_type reg = DeviceRegistrationType, ''wrong type''), (dr_step reg = DeviceRegistrationStep, ''wrong step''),
        (dr_version reg \<noteq> [], ''missing version''), (dr_user_id reg \<noteq> [], ''missing user_id''),
        (dr_device_id reg \<noteq> [], ''missing device_id''), (dr_device_name reg \<noteq> [], ''missing device_name''),
        (dr_device_type reg \<noteq> [], ''missing device_type''),
        (dr_device_public_key reg \<noteq> [], ''missing device_public_key''),
        (dr_device_identity_pubkey_algorithm reg \<noteq> [], ''missing device_identity_pubkey_algorithm''),
        (dr_enrolled_at reg \<noteq> [], ''missing enrolled_at''),
        (parseDate (dr_enrolled_at reg) \<noteq> None, ''enrolled_at is not ISO 8601'')] @
       roleChecks (dr_role reg) (dr_certificate_id reg))) (\<lambda>_.
     case dr_authorization reg of
       None \<Rightarrow> Inl (Invalid ''missing authorization'')
     | Some auth \<Rightarrow>
         checks
           [(da_method auth = js ''qr_scan'' \<or> da_method auth = js ''numeric_code'', ''authorization.method is invalid''),
            (da_authorizing_device_id auth \<noteq> [], ''missing authorization.authorizing_device_id''),
            (skipSignatureCheck \<or> ks_value (dr_signature reg) \<noteq> [], ''device registration is unsigned'')])"

definition authorization_json :: "device_authorization \<Rightarrow> 'n json" where
  "authorization_json a = JObj [(js ''method'', JStr (da_method a)),
     (js ''authorizing_device_id'', JStr (da_authorizing_device_id a)),
     (js ''authorizing_signature'', ks_json (da_authorizing_signature a))]"

definition registration_json :: "device_registration \<Rightarrow> 'n obj" where
  "registration_json r =
     [(js ''type'', JStr (dr_type r)), (js ''step'', JStr (dr_step r)), (js ''version'', JStr (dr_version r)),
      (js ''user_id'', JStr (dr_user_id r)), (js ''device_id'', JStr (dr_device_id r)),
      (js ''device_name'', JStr (dr_device_name r)), (js ''device_type'', JStr (dr_device_type r)),
      (js ''device_public_key'', JStr (dr_device_public_key r)),
      (js ''device_identity_pubkey_algorithm'', JStr (dr_device_identity_pubkey_algorithm r)),
      (js ''enrolled_at'', JStr (dr_enrolled_at r)), (js ''role'', JStr (dr_role r)),
      (js ''certificate_id'', nullable (dr_certificate_id r))] @
     optional ''authorization'' authorization_json (dr_authorization r) @
     [(js ''signature'', ks_json (dr_signature r))]"

abbreviation setRegistrationBlock :: "keys_signature \<Rightarrow> device_registration \<Rightarrow> device_registration" where
  "setRegistrationBlock b r \<equiv> r\<lparr>dr_signature := b\<rparr>"

definition signDeviceRegistration ::
  "'n platform \<Rightarrow> (jstr \<Rightarrow> time option) \<Rightarrow> device_registration \<Rightarrow> bytes \<Rightarrow> jstr
     \<Rightarrow> record_error + (device_registration \<times> jstr)"
where
  "signDeviceRegistration P parseDate reg identityPriv identityKeyId =
     signRecord P registration_json setRegistrationBlock (validateDeviceRegistration parseDate) DeviceRegisterPrefix
       reg identityPriv identityKeyId"

definition verifyDeviceRegistration ::
  "'n platform \<Rightarrow> (jstr \<Rightarrow> time option) \<Rightarrow> device_registration \<Rightarrow> bytes \<Rightarrow> record_error + bool"
where
  "verifyDeviceRegistration P parseDate reg identityPub =
     verifyRecord P registration_json dr_signature (validateDeviceRegistration parseDate) DeviceRegisterPrefix
       reg identityPub"

interpretation registration: signed_kind registration_json dr_signature setRegistrationBlock
  "validateDeviceRegistration parseDate"
proof unfold_locales
  fix r :: device_registration and v
  show "setPath (registration_json r) signaturePath v
      = Inr (registration_json (setRegistrationBlock (dr_signature r\<lparr>ks_value := v\<rparr>) r))"
    by (cases "dr_authorization r") (simp_all add: registration_json_def optional_def signaturePath_def ks_json_def)
next
  fix r :: device_registration and b :: keys_signature
  assume "validateDeviceRegistration parseDate True r = Inr ()" "ks_value b \<noteq> []"
  then show "validateDeviceRegistration parseDate False (setRegistrationBlock b r) = Inr ()"
    by (auto simp: validateDeviceRegistration_def bindR_eq_Inr split: option.splits)
qed simp_all

section \<open>Revocations\<close>

definition validateDeviceRevocation ::
  "(jstr \<Rightarrow> time option) \<Rightarrow> bool \<Rightarrow> device_revocation \<Rightarrow> record_error + unit"
where
  "validateDeviceRevocation parseDate skipSignatureCheck rv =
     checks
       [(dv_type rv = DeviceRevocationType, ''wrong type''), (dv_version rv \<noteq> [], ''missing version''),
        (dv_user_id rv \<noteq> [], ''missing user_id''), (dv_device_id rv \<noteq> [], ''missing device_id''),
        (dv_revoked_at rv \<noteq> [], ''missing revoked_at''),
        (dv_revoked_by_device_id rv \<noteq> [], ''missing revoked_by_device_id''),
        (parseDate (dv_revoked_at rv) \<noteq> None, ''revoked_at is not ISO 8601''),
        (dv_reason rv \<in> {js ''key_compromise'', js ''lost'', js ''retired'', js ''superseded''}, ''reason is invalid''),
        (dv_reason rv = js ''superseded'' \<longrightarrow>
           dv_replacement_device_id rv \<noteq> None \<and> dv_replacement_device_id rv \<noteq> Some [],
           ''reason=superseded requires replacement_device_id''),
        (dv_reason rv \<noteq> js ''superseded'' \<longrightarrow> dv_replacement_device_id rv = None,
           ''reason forbids replacement_device_id''),
        (skipSignatureCheck \<or> ks_value (dv_signature rv) \<noteq> [], ''device revocation is unsigned'')]"

definition revocation_json :: "device_revocation \<Rightarrow> 'n obj" where
  "revocation_json r =
     [(js ''type'', JStr (dv_type r)), (js ''version'', JStr (dv_version r)), (js ''user_id'', JStr (dv_user_id r)),
      (js ''device_id'', JStr (dv_device_id r)), (js ''reason'', JStr (dv_reason r)),
      (js ''revoked_at'', JStr (dv_revoked_at r)), (js ''revoked_by_device_id'', JStr (dv_revoked_by_device_id r)),
      (js ''replacement_device_id'', nullable (dv_replacement_device_id r)),
      (js ''signature'', ks_json (dv_signature r))]"

abbreviation setRevocationBlock :: "keys_signature \<Rightarrow> device_revocation \<Rightarrow> device_revocation" where
  "setRevocationBlock b r \<equiv> r\<lparr>dv_signature := b\<rparr>"

definition signDeviceRevocation ::
  "'n platform \<Rightarrow> (jstr \<Rightarrow> time option) \<Rightarrow> device_revocation \<Rightarrow> bytes \<Rightarrow> jstr
     \<Rightarrow> record_error + (device_revocation \<times> jstr)"
where
  "signDeviceRevocation P parseDate rv identityPriv identityKeyId =
     signRecord P revocation_json setRevocationBlock (validateDeviceRevocation parseDate) DeviceRevocationPrefix
       rv identityPriv identityKeyId"

definition verifyDeviceRevocation ::
  "'n platform \<Rightarrow> (jstr \<Rightarrow> time option) \<Rightarrow> device_revocation \<Rightarrow> bytes \<Rightarrow> record_error + bool"
where
  "verifyDeviceRevocation P parseDate rv identityPub =
     verifyRecord P revocation_json dv_signature (validateDeviceRevocation parseDate) DeviceRevocationPrefix
       rv identityPub"

interpretation revocation: signed_kind revocation_json dv_signature setRevocationBlock
  "validateDeviceRevocation parseDate"
proof unfold_locales
  fix r :: device_revocation and v
  show "setPath (revocation_json r) signaturePath v
      = Inr (revocation_json (setRevocationBlock (dv_signature r\<lparr>ks_value := v\<rparr>) r))"
    by (simp add: revocation_json_def signaturePath_def ks_json_def)
qed (simp_all add: validateDeviceRevocation_def)

section \<open>Directories\<close>

definition entryChecks :: "directory_entry \<Rightarrow> (bool \<times> string) list" where
  "entryChecks d =
     [(de_device_id d \<noteq> [], ''missing device_id''), (de_device_public_key d \<noteq> [], ''missing device_public_key''),
      (de_device_identity_pubkey_algorithm d \<noteq> [], ''missing device_identity_pubkey_algorithm''),
      (de_enrolled_at d \<noteq> [], ''missing enrolled_at''), (de_device_name d \<noteq> [], ''missing device_name''),
      (de_device_type d \<noteq> [], ''missing device_type'')]"

text \<open>The loop over the devices with the set of ids seen so far.\<close>

fun checkDevices :: "jstr list \<Rightarrow> directory_entry list \<Rightarrow> record_error + unit" where
  "checkDevices seenIds [] = Inr ()"
| "checkDevices seenIds (d # ds) =
     bindR (checks (entryChecks d @ [(de_device_id d \<notin> set seenIds, ''device_id appears more than once'')] @
       roleChecks (de_role d) (de_certificate_id d))) (\<lambda>_.
     checkDevices (de_device_id d # seenIds) ds)"

definition validateDeviceDirectory ::
  "(jstr \<Rightarrow> time option) \<Rightarrow> bool \<Rightarrow> device_directory \<Rightarrow> record_error + unit"
where
  "validateDeviceDirectory parseDate skipSignatureCheck dir =
     bindR (checks
       [(dd_type dir = DeviceDirectoryType, ''wrong type''), (dd_version dir \<noteq> [], ''missing version''),
        (dd_user_id dir \<noteq> [], ''missing user_id''), (dd_issued_at dir \<noteq> [], ''missing issued_at''),
        (dd_revision dir \<ge> 0, ''revision MUST be >= 0''),
        (parseDate (dd_issued_at dir) \<noteq> None, ''issued_at is not ISO 8601'')]) (\<lambda>_.
     bindR (checkDevices [] (dd_devices dir)) (\<lambda>_.
     checks [(skipSignatureCheck \<or> ks_value (dd_signature dir) \<noteq> [], ''device directory is unsigned'')]))"

definition device_entry_json :: "directory_entry \<Rightarrow> 'n json" where
  "device_entry_json d = JObj
     [(js ''device_id'', JStr (de_device_id d)), (js ''device_public_key'', JStr (de_device_public_key d)),
      (js ''device_identity_pubkey_algorithm'', JStr (de_device_identity_pubkey_algorithm d)),
      (js ''role'', JStr (de_role d)), (js ''certificate_id'', nullable (de_certificate_id d)),
      (js ''enrolled_at'', JStr (de_enrolled_at d)), (js ''device_name'', JStr (de_device_name d)),
      (js ''device_type'', JStr (de_device_type d))]"

definition directory_json :: "(int \<Rightarrow> 'n) \<Rightarrow> device_directory \<Rightarrow> 'n obj" where
  "directory_json num d =
     [(js ''type'', JStr (dd_type d)), (js ''version'', JStr (dd_version d)), (js ''user_id'', JStr (dd_user_id d)),
      (js ''revision'', JNum (num (dd_revision d))), (js ''issued_at'', JStr (dd_issued_at d)),
      (js ''devices'', JArr (map device_entry_json (dd_devices d))), (js ''signature'', ks_json (dd_signature d))]"

abbreviation setDirectoryBlock :: "keys_signature \<Rightarrow> device_directory \<Rightarrow> device_directory" where
  "setDirectoryBlock b d \<equiv> d\<lparr>dd_signature := b\<rparr>"

definition signDeviceDirectory ::
  "'n platform \<Rightarrow> (int \<Rightarrow> 'n) \<Rightarrow> (jstr \<Rightarrow> time option) \<Rightarrow> device_directory \<Rightarrow> bytes \<Rightarrow> jstr
     \<Rightarrow> record_error + (device_directory \<times> jstr)"
where
  "signDeviceDirectory P num parseDate dir identityPriv identityKeyId =
     signRecord P (directory_json num) setDirectoryBlock (validateDeviceDirectory parseDate) DeviceDirectoryPrefix
       dir identityPriv identityKeyId"

definition verifyDeviceDirectory ::
  "'n platform \<Rightarrow> (int \<Rightarrow> 'n) \<Rightarrow> (jstr \<Rightarrow> time option) \<Rightarrow> device_directory \<Rightarrow> bytes \<Rightarrow> record_error + bool"
where
  "verifyDeviceDirectory P num parseDate dir identityPub =
     verifyRecord P (directory_json num) dd_signature (validateDeviceDirectory parseDate) DeviceDirectoryPrefix
       dir identityPub"

interpretation directory: signed_kind "directory_json num" dd_signature setDirectoryBlock
  "validateDeviceDirectory parseDate"
proof unfold_locales
  fix r :: device_directory and v
  show "setPath (directory_json num r) signaturePath v
      = Inr (directory_json num (setDirectoryBlock (dd_signature r\<lparr>ks_value := v\<rparr>) r))"
    by (simp add: directory_json_def signaturePath_def ks_json_def)
next
  fix r :: device_directory and b :: keys_signature
  assume "validateDeviceDirectory parseDate True r = Inr ()" "ks_value b \<noteq> []"
  then show "validateDeviceDirectory parseDate False (setDirectoryBlock b r) = Inr ()"
    by (auto simp: validateDeviceDirectory_def bindR_eq_Inr)
qed simp_all

definition findDevice :: "device_directory \<Rightarrow> jstr \<Rightarrow> directory_entry option" where
  "findDevice dir deviceId = find (\<lambda>d. de_device_id d = deviceId) (dd_devices dir)"

end
