(* ===== verification/DeviceAuthorization.thy ===== *)
theory DeviceAuthorization
  imports DeviceRecords
begin

text \<open>
  What the signature of an authorizing device over an enrollment commits to. The bytes it covers are the
  fields of the registration separated by a zero byte, under the prefix that device certificates use too.
\<close>

section \<open>Canonical text has no control characters\<close>

lemma hexdigit_nonzero: "d < 16 \<Longrightarrow> hexdigit d \<noteq> 0"
proof
  assume d: "d < 16" "hexdigit d = 0"
  have u: "unat (of_nat n :: unit16) = n" if "n < 200" for n
    using that by (simp add: unat_of_nat)
  from d u [of "48 + d"] u [of "87 + d"] show False by (auto simp: hexdigit_def split: if_splits)
qed

lemma escape_no_nul: "0 \<notin> set (escape_unit c)"
proof -
  have "0 \<notin> set (hex4 c)" using hexdigit_nonzero by (simp add: hex4_def Let_def)
  then show ?thesis by (auto simp: escape_unit_def)
qed

lemma quote_units_no_nul: "0 \<notin> set (quote_units s)"
proof (induction s rule: quote_units.induct)
  case (3 c d cs)
  have "(0 :: unit16) \<noteq> c \<and> (0 :: unit16) \<noteq> d" if "high_surrogate c" "low_surrogate d"
    using that by (auto simp: high_surrogate_def low_surrogate_def)
  with 3 show ?case using escape_no_nul [of c] by (auto split: if_splits)
qed (simp_all add: escape_no_nul)

lemma quote_no_nul: "0 \<notin> set (quote s)"
  by (simp add: quote_def quote_units_no_nul)

lemma commas_no_nul: "(\<And>x. x \<in> set xs \<Longrightarrow> 0 \<notin> set x) \<Longrightarrow> (0 :: unit16) \<notin> set (commas xs)"
  by (induction xs rule: commas.induct) auto

lemma serialize_no_nul:
  assumes "number_format f"
  shows "0 \<notin> set (serialize f v)"
proof (induction v)
  case (JNum n)
  obtain c cs where n: "f n = c # cs" "c = 45 \<or> 48 \<le> c \<and> c \<le> 57" "\<forall>d \<in> set cs. number_unit d"
    using assms unfolding number_format_def by blast
  have "(0 :: unit16) \<noteq> c" using n(2) by auto
  moreover have "\<not> number_unit 0" by (simp add: number_unit_def)
  ultimately show ?case using n by auto
next
  case (JArr vs)
  then have "0 \<notin> set (commas (map (serialize f) vs))" by (intro commas_no_nul) auto
  then show ?case by simp
next
  case (JObj es)
  have "0 \<notin> set (commas (map member_text (sort_key fst (map (\<lambda>(k, v). (k, serialize f v)) es))))"
  proof (rule commas_no_nul)
    fix x assume "x \<in> set (map member_text (sort_key fst (map (\<lambda>(k, v). (k, serialize f v)) es)))"
    then obtain k v where "(k, v) \<in> set es" "x = quote k @ 58 # serialize f v" by (auto simp: member_text_def)
    with JObj.IH [of "(k, v)" v] show "0 \<notin> set x" by (simp add: quote_no_nul)
  qed
  then show ?case by simp
qed (simp_all add: quote_no_nul)

section \<open>Properties\<close>

text \<open>
  What is used of \<open>TextEncoder\<close>: only the NUL character gives a zero byte, and strings without it
  are told apart.
\<close>

definition nul_ok :: "(jstr \<Rightarrow> bytes) \<Rightarrow> bool" where
  "nul_ok utf8 \<longleftrightarrow> (\<forall>s. 0 \<notin> set s \<longrightarrow> 0 \<notin> set (utf8 s)) \<and> inj_on utf8 {s. 0 \<notin> set s \<and> well_formed s}"

lemma split_nul:
  assumes "a @ 0 # x = b @ 0 # y" "(0 :: byte) \<notin> set a" "0 \<notin> set b"
  shows "a = b \<and> x = y"
proof -
  have t: "takeWhile (\<lambda>c. c \<noteq> 0) (r @ 0 # z) = r" if "0 \<notin> set r" for r z :: bytes
    using that by (subst takeWhile_append2) auto
  have "a = b" using t [OF assms(2)] t [OF assms(3)] assms(1) by metis
  with assms(1) show ?thesis by simp
qed

definition clean_text :: "jstr \<Rightarrow> bool" where
  "clean_text s \<longleftrightarrow> 0 \<notin> set s \<and> well_formed s"

text \<open>C40. The bytes an authorizing device signs determine the enrollment: for field values without a
  NUL character they give back the device id, its public key, the enrollment time and the nonce. They are
  moreover never the bytes of a device certificate, although both are signed under the prefix
  \<open>SEMP-DEVICE-AUTHORIZE:\<close>, so that neither signature can be passed off as the other.\<close>

theorem authorization_binds_enrollment:
  assumes "nul_ok (pl_utf8 P)"
    and "clean_text d" "clean_text k" "clean_text t" "clean_text d'" "clean_text k'" "clean_text t'"
    and "number_format (pl_numstr P)"
  shows "(authorizationCanonicalBytes P d k t nonce = authorizationCanonicalBytes P d' k' t' nonce' \<longleftrightarrow>
           (d, k, t, nonce) = (d', k', t', nonce')) \<and>
         pl_utf8 P DeviceAuthorizeRecordPrefix @ authorizationCanonicalBytes P d k t nonce
           \<noteq> signingInput P DeviceAuthorizePrefix (certificate_json num c)"
proof -
  have z: "0 \<notin> set (pl_utf8 P s)" if "clean_text s" for s
    using assms(1) that by (simp add: nul_ok_def clean_text_def)
  have i: "s = s'" if "pl_utf8 P s = pl_utf8 P s'" "clean_text s" "clean_text s'" for s s'
    by (rule inj_onD [of "pl_utf8 P" "{s. 0 \<notin> set s \<and> well_formed s}"])
      (use assms(1) that in \<open>simp_all add: nul_ok_def clean_text_def\<close>)
  have "authorizationCanonicalBytes P d k t nonce = authorizationCanonicalBytes P d' k' t' nonce' \<longleftrightarrow>
      (d, k, t, nonce) = (d', k', t', nonce')" (is "?l = ?r \<longleftrightarrow> _")
  proof
    assume "?l = ?r"
    then have e: "pl_utf8 P d @ 0 # pl_utf8 P k @ 0 # pl_utf8 P t @ 0 # nonce
        = pl_utf8 P d' @ 0 # pl_utf8 P k' @ 0 # pl_utf8 P t' @ 0 # nonce'"
      by (simp add: authorizationCanonicalBytes_def)
    note e1 = split_nul [OF e z [OF assms(2)] z [OF assms(5)]]
    note e2 = split_nul [OF conjunct2 [OF e1] z [OF assms(3)] z [OF assms(6)]]
    note e3 = split_nul [OF conjunct2 [OF e2] z [OF assms(4)] z [OF assms(7)]]
    from e1 e2 e3 have "pl_utf8 P d = pl_utf8 P d'" "pl_utf8 P k = pl_utf8 P k'" "pl_utf8 P t = pl_utf8 P t'"
      "nonce = nonce'" by simp_all
    then show "(d, k, t, nonce) = (d', k', t', nonce')" using i assms(2-7) by blast
  qed simp
  moreover have "pl_utf8 P DeviceAuthorizeRecordPrefix @ authorizationCanonicalBytes P d k t nonce
      \<noteq> signingInput P DeviceAuthorizePrefix (certificate_json num c)"
  proof -
    have "0 \<notin> set (serialize (pl_numstr P) (JObj (certificate_json num c)))"
      by (rule serialize_no_nul [OF assms(8)])
    then have "0 \<notin> set (marshal (pl_utf8 P) (pl_numstr P) (JObj (certificate_json num c)))"
      unfolding marshal_def using assms(1) unfolding nul_ok_def by blast
    moreover have "0 \<in> set (authorizationCanonicalBytes P d k t nonce)" by (simp add: authorizationCanonicalBytes_def)
    ultimately have "authorizationCanonicalBytes P d k t nonce
        \<noteq> marshal (pl_utf8 P) (pl_numstr P) (JObj (certificate_json num c))" by metis
    then show ?thesis by (simp add: signingInput_def DeviceAuthorizeRecordPrefix_def DeviceAuthorizePrefix_def)
  qed
  ultimately show ?thesis by blast
qed

text \<open>An authorization written by \<open>signDeviceAuthorization\<close> is accepted under the authorizing
  device's key with the same nonce, and nothing else of the registration changes.\<close>

theorem authorization_sign_then_verify:
  assumes "scheme_ok P seed pub" "\<forall>msg. pl_enc64 P (pl_sign P seed msg) \<noteq> []"
    and "signDeviceAuthorization P reg seed deviceId keyId nonce mth = Inr reg'"
  shows "verifyDeviceAuthorization P reg' pub nonce \<and> reg' = reg\<lparr>dr_authorization := dr_authorization reg'\<rparr>"
  using assms by (auto simp: signDeviceAuthorization_def bindR_eq_Inr Let_def verifyDeviceAuthorization_def scheme_ok_def)

text \<open>A platform whose encoder writes a unit in unary, without zero bytes.\<close>

definition unary_utf8 :: "jstr \<Rightarrow> bytes" where
  "unary_utf8 s = concat (map (\<lambda>c. replicate (unat c) 1 @ [2]) s)"

definition unary_platform :: "int platform" where
  "unary_platform = demo_platform\<lparr>pl_utf8 := unary_utf8\<rparr>"

lemma unary_inj: "unary_utf8 s = unary_utf8 t \<Longrightarrow> s = t"
proof (induction s arbitrary: t)
  case Nil
  then show ?case by (cases t) (auto simp: unary_utf8_def)
next
  case (Cons c s)
  then obtain d t' where t: "t = d # t'" by (cases t) (auto simp: unary_utf8_def)
  have e: "replicate (unat c) (1 :: byte) @ 2 # unary_utf8 s = replicate (unat d) 1 @ 2 # unary_utf8 t'"
    using Cons.prems t by (simp add: unary_utf8_def)
  have len: "length (takeWhile (\<lambda>b. b = (1 :: byte)) (replicate n 1 @ 2 # x)) = n" for n x
    by (induction n) auto
  have "unat c = unat d" using arg_cong [OF e, of "\<lambda>x. length (takeWhile (\<lambda>b. b = 1) x)"] len by simp
  then have "c = d" by (simp only: word_unat_eq_iff)
  with e have "unary_utf8 s = unary_utf8 t'" by simp
  with Cons.IH t \<open>c = d\<close> show ?case by simp
qed

lemma unary_ok: "nul_ok (pl_utf8 unary_platform)"
  by (auto simp: nul_ok_def unary_platform_def inj_on_def dest: unary_inj) (auto simp: unary_utf8_def split: if_splits)

lemma unary_scheme: "scheme_ok unary_platform seed seed"
  using demo_scheme by (simp add: scheme_ok_def unary_platform_def demo_platform_def)

lemma demo_number: "number_format (pl_numstr unary_platform)"
  using demo_number_format by (simp add: unary_platform_def demo_platform_def)

theorem authorization_binds_enrollment_witness:
  "authorizationCanonicalBytes unary_platform (js ''d'') (js ''k'') (js ''t'') [1]
     \<noteq> authorizationCanonicalBytes unary_platform (js ''d'') (js ''k'') (js ''t'') [2]"
proof -
  have c: "clean_text (js ''d'')" "clean_text (js ''k'')" "clean_text (js ''t'')"
    by (simp_all add: clean_text_def js_def high_surrogate_def low_surrogate_def)
  show ?thesis
    using authorization_binds_enrollment [OF unary_ok c(1) c(2) c(3) c(1) c(2) c(3) demo_number] by auto
qed

definition demo_registration :: device_registration where
  "demo_registration = \<lparr>dr_type = DeviceRegistrationType, dr_step = DeviceRegistrationStep, dr_version = js ''1'',
     dr_user_id = js ''u'', dr_device_id = js ''d'', dr_device_name = js ''n'', dr_device_type = js ''t'',
     dr_device_public_key = js ''k'', dr_device_identity_pubkey_algorithm = js ''a'', dr_enrolled_at = js ''0'',
     dr_role = js ''full_access'', dr_certificate_id = None, dr_authorization = None,
     dr_signature = \<lparr>ks_algorithm = [], ks_key_id = [], ks_value = []\<rparr>\<rparr>"

theorem authorization_sign_then_verify_witness:
  "\<exists>reg'. signDeviceAuthorization unary_platform demo_registration [7] (js ''x'') (js ''y'') [1] (js ''qr_scan'') = Inr reg'
     \<and> verifyDeviceAuthorization unary_platform reg' [7] [1]"
proof -
  obtain reg' where r: "signDeviceAuthorization unary_platform demo_registration [7] (js ''x'') (js ''y'') [1]
      (js ''qr_scan'') = Inr reg'"
    by (simp add: signDeviceAuthorization_def demo_registration_def Let_def)
  have "\<forall>msg. pl_enc64 unary_platform (pl_sign unary_platform [7] msg) \<noteq> []"
    by (simp add: unary_platform_def demo_platform_def)
  from authorization_sign_then_verify [OF unary_scheme this r] r show ?thesis by blast
qed

end
