(* ===== verification/DirectoryState.thy ===== *)
theory DirectoryState
  imports DeviceRecords
begin

text \<open>
  The home server's directory of an account's devices, \<^verbatim>\<open>src/src/keys/directory_state.ts\<close>: the state per
  account (\<open>DirectoryState\<close>) with the signed directory it published last, and the store of all accounts
  (\<open>DirectoryStore\<close>). \<open>isoSecond\<close> is the ISO form of a time cut to seconds; the clock is an argument.
\<close>

section \<open>Model\<close>

record directory_config =
  dsc_userId :: jstr
  dsc_identitySeed :: bytes
  dsc_identityKeyId :: jstr
  dsc_initial :: "directory_entry list option"

record directory_state =
  ds_userId :: jstr
  ds_identitySeed :: bytes
  ds_identityKeyId :: jstr
  ds_devices :: "(jstr, directory_entry) jsmap"
  ds_revision :: int
  ds_current :: "device_directory option"

text \<open>
  \<open>emit\<close>: the directory of the next revision, with the devices sorted by id, is signed and installed;
  when signing throws, the revision is taken back.
\<close>

definition nextDirectory :: "(time \<Rightarrow> jstr) \<Rightarrow> time \<Rightarrow> directory_state \<Rightarrow> device_directory" where
  "nextDirectory isoSecond now s =
     \<lparr>dd_type = DeviceDirectoryType, dd_version = DeviceRecordVersion, dd_user_id = ds_userId s,
      dd_revision = ds_revision s + 1, dd_issued_at = isoSecond now,
      dd_devices = sort_key de_device_id (map snd (ds_devices s)),
      dd_signature = \<lparr>ks_algorithm = [], ks_key_id = [], ks_value = []\<rparr>\<rparr>"

definition emitDirectory ::
  "'n platform \<Rightarrow> (int \<Rightarrow> 'n) \<Rightarrow> (jstr \<Rightarrow> time option) \<Rightarrow> (time \<Rightarrow> jstr) \<Rightarrow> time
     \<Rightarrow> (directory_state, record_error, unit) op"
where
  "emitDirectory P num parseDate isoSecond now s =
     (case signDeviceDirectory P num parseDate (nextDirectory isoSecond now s) (ds_identitySeed s) (ds_identityKeyId s) of
        Inl e \<Rightarrow> (s, Inl e)
      | Inr (dir, sig) \<Rightarrow> (s\<lparr>ds_revision := ds_revision s + 1, ds_current := Some dir\<rparr>, Inr ()))"

fun seedDevices :: "directory_entry list \<Rightarrow> (jstr, directory_entry) jsmap \<Rightarrow> record_error + (jstr, directory_entry) jsmap"
where
  "seedDevices [] m = Inr m"
| "seedDevices (d # ds) m =
     bindR (checks [(de_device_id d \<noteq> [], ''initial seed entry missing device_id''),
                    (jsm_get m (de_device_id d) = None, ''initial seed has duplicate device_id'')]) (\<lambda>_.
     seedDevices ds (jsm_set (de_device_id d) d m))"

text \<open>The constructor, which publishes revision 1 when the seed is not empty.\<close>

definition newDirectoryState ::
  "'n platform \<Rightarrow> (int \<Rightarrow> 'n) \<Rightarrow> (jstr \<Rightarrow> time option) \<Rightarrow> (time \<Rightarrow> jstr) \<Rightarrow> time \<Rightarrow> directory_config
     \<Rightarrow> record_error + directory_state"
where
  "newDirectoryState P num parseDate isoSecond now cfg =
     bindR (checks [(dsc_userId cfg \<noteq> [], ''directory state missing user_id''),
       (dsc_identitySeed cfg \<noteq> [] \<and> dsc_identityKeyId cfg \<noteq> [], ''directory state missing identity key'')]) (\<lambda>_.
     bindR (seedDevices (listOf (dsc_initial cfg)) []) (\<lambda>devices.
     let s = \<lparr>ds_userId = dsc_userId cfg, ds_identitySeed = dsc_identitySeed cfg,
           ds_identityKeyId = dsc_identityKeyId cfg, ds_devices = devices, ds_revision = 0, ds_current = None\<rparr> in
     if devices = [] then Inr s
     else case emitDirectory P num parseDate isoSecond now s of (s', Inl e) \<Rightarrow> Inl e | (s', Inr _) \<Rightarrow> Inr s'))"

definition addDevice ::
  "'n platform \<Rightarrow> (int \<Rightarrow> 'n) \<Rightarrow> (jstr \<Rightarrow> time option) \<Rightarrow> (time \<Rightarrow> jstr) \<Rightarrow> time \<Rightarrow> directory_entry
     \<Rightarrow> (directory_state, record_error, device_directory option) op"
where
  "addDevice P num parseDate isoSecond now entry =
     bindX (lift (checks
       [(de_device_id entry \<noteq> [], ''directory entry missing device_id''),
        (de_device_public_key entry \<noteq> [], ''directory entry missing device_public_key''),
        (de_role entry = js ''full_access'' \<longrightarrow> de_certificate_id entry = None,
          ''full_access MUST have certificate_id = null''),
        (de_role entry = js ''delegated'' \<longrightarrow> de_certificate_id entry \<noteq> None \<and> de_certificate_id entry \<noteq> Some [],
          ''delegated MUST set certificate_id'')])) (\<lambda>_.
     bindX get (\<lambda>s.
     bindX (throwIf (jsm_get (ds_devices s) (de_device_id entry) \<noteq> None)
       (Invalid ''directory already contains device_id'')) (\<lambda>_.
     bindX (modify (\<lambda>s. s\<lparr>ds_devices := jsm_set (de_device_id entry) entry (ds_devices s)\<rparr>)) (\<lambda>_.
     bindX (emitDirectory P num parseDate isoSecond now) (\<lambda>_.
     bindX get (\<lambda>s. ret (ds_current s)))))))"

definition revokeDevice ::
  "'n platform \<Rightarrow> (int \<Rightarrow> 'n) \<Rightarrow> (jstr \<Rightarrow> time option) \<Rightarrow> (time \<Rightarrow> jstr) \<Rightarrow> time \<Rightarrow> jstr
     \<Rightarrow> (directory_state, record_error, device_directory option \<times> bool) op"
where
  "revokeDevice P num parseDate isoSecond now deviceId =
     bindX (throwIf (deviceId = []) (Invalid ''directory revoke missing device_id'')) (\<lambda>_.
     bindX get (\<lambda>s.
     if jsm_get (ds_devices s) deviceId = None then ret (ds_current s, False)
     else
       bindX (modify (\<lambda>s. s\<lparr>ds_devices := jsm_delete deviceId (ds_devices s)\<rparr>)) (\<lambda>_.
       bindX (emitDirectory P num parseDate isoSecond now) (\<lambda>_.
       bindX get (\<lambda>s. ret (ds_current s, True))))))"

text \<open>The store of all accounts.\<close>

type_synonym directory_store = "(jstr, directory_state) jsmap"

definition registerDirectory :: "jstr \<Rightarrow> directory_state \<Rightarrow> directory_store \<Rightarrow> record_error + directory_store" where
  "registerDirectory userId state st =
     bindR (checks [(userId \<noteq> [], ''directory store register missing user_id''),
       (jsm_get st userId = None, ''directory store already has user'')]) (\<lambda>_. Inr (jsm_set userId state st))"

definition lookupDirectory :: "directory_store \<Rightarrow> jstr \<Rightarrow> directory_state option" where
  "lookupDirectory st userId = jsm_get st userId"

section \<open>Runs\<close>

datatype dir_op = AddDevice directory_entry time | RevokeDevice jstr time

definition runDirOp ::
  "'n platform \<Rightarrow> (int \<Rightarrow> 'n) \<Rightarrow> (jstr \<Rightarrow> time option) \<Rightarrow> (time \<Rightarrow> jstr) \<Rightarrow> directory_state \<Rightarrow> dir_op \<Rightarrow> directory_state"
where
  "runDirOp P num parseDate isoSecond s op =
     (case op of AddDevice entry now \<Rightarrow> fst (addDevice P num parseDate isoSecond now entry s)
      | RevokeDevice k now \<Rightarrow> fst (revokeDevice P num parseDate isoSecond now k s))"

abbreviation runDirOps where
  "runDirOps P num parseDate isoSecond s ops \<equiv> foldl (runDirOp P num parseDate isoSecond) s ops"

text \<open>Every way an operation ends, over the one publishing step.\<close>

lemma emitDirectory_cases:
  obtains (failed) e where "emitDirectory P num parseDate isoSecond now s = (s, Inl e)"
      "signDeviceDirectory P num parseDate (nextDirectory isoSecond now s) (ds_identitySeed s) (ds_identityKeyId s) = Inl e"
  | (published) dir sig where
      "emitDirectory P num parseDate isoSecond now s = (s\<lparr>ds_revision := ds_revision s + 1, ds_current := Some dir\<rparr>, Inr ())"
      "signDeviceDirectory P num parseDate (nextDirectory isoSecond now s) (ds_identitySeed s) (ds_identityKeyId s)
         = Inr (dir, sig)"
  by (cases "signDeviceDirectory P num parseDate (nextDirectory isoSecond now s) (ds_identitySeed s) (ds_identityKeyId s)")
     (auto simp: emitDirectory_def)

lemma runDirOp_cases:
  obtains (unchanged) "runDirOp P num parseDate isoSecond s op = s"
  | (add) entry now where "op = AddDevice entry now" "jsm_get (ds_devices s) (de_device_id entry) = None"
      "de_device_id entry \<noteq> []"
      "runDirOp P num parseDate isoSecond s op = fst (emitDirectory P num parseDate isoSecond now
         (s\<lparr>ds_devices := jsm_set (de_device_id entry) entry (ds_devices s)\<rparr>))"
  | (revoke) k now where "op = RevokeDevice k now" "jsm_get (ds_devices s) k \<noteq> None"
      "runDirOp P num parseDate isoSecond s op = fst (emitDirectory P num parseDate isoSecond now
         (s\<lparr>ds_devices := jsm_delete k (ds_devices s)\<rparr>))"
proof (cases op)
  case (AddDevice entry now)
  have fst_then: "fst (bindX m (\<lambda>_. bindX get (\<lambda>s. ret (f s))) t) = fst (m t)" for m f t
    by (simp add: bindX_def split: prod.split sum.split)
  show ?thesis
    using that(1) that(2) [OF AddDevice] AddDevice
    by (cases "checks [(de_device_id entry \<noteq> [], ''directory entry missing device_id''),
        (de_device_public_key entry \<noteq> [], ''directory entry missing device_public_key''),
        (de_role entry = js ''full_access'' \<longrightarrow> de_certificate_id entry = None,
          ''full_access MUST have certificate_id = null''),
        (de_role entry = js ''delegated'' \<longrightarrow> de_certificate_id entry \<noteq> None \<and> de_certificate_id entry \<noteq> Some [],
          ''delegated MUST set certificate_id'')]";
        cases "jsm_get (ds_devices s) (de_device_id entry)")
      (auto simp: runDirOp_def addDevice_def fst_then)
next
  case (RevokeDevice k now)
  have fst_then: "fst (bindX m (\<lambda>_. bindX get (\<lambda>s. ret (f s))) t) = fst (m t)" for m f t
    by (simp add: bindX_def split: prod.split sum.split)
  show ?thesis
    using that(1) that(3) [OF RevokeDevice] RevokeDevice
    by (cases "k = []"; cases "jsm_get (ds_devices s) k") (auto simp: runDirOp_def revokeDevice_def fst_then)
qed

end
