(* ===== verification/DirectoryProofs.thy ===== *)
theory DirectoryProofs
  imports DirectoryState
begin

text \<open>
  What the published directory promises, and what an enrollment that fails half-way leaves behind.
\<close>

section \<open>The published directory\<close>

definition keyed :: "(jstr, directory_entry) jsmap \<Rightarrow> bool" where
  "keyed m \<longleftrightarrow> jsm_ok m \<and> (\<forall>(k, e) \<in> set m. de_device_id e = k)"

lemma keyed_ids: "keyed m \<Longrightarrow> map de_device_id (map snd m) = map fst m"
  by (auto simp: keyed_def)

lemma jsm_set_entries: "p \<in> set (jsm_set k v m) \<Longrightarrow> p = (k, v) \<or> p \<in> set m"
  by (induction k v m rule: jsm_set.induct) (auto split: if_splits)

lemma keyed_set: "keyed m \<Longrightarrow> keyed (jsm_set (de_device_id e) e m)"
  by (auto simp: keyed_def dest: jsm_set_entries)

lemma keyed_delete: "keyed m \<Longrightarrow> keyed (jsm_delete k m)"
  unfolding keyed_def by (auto simp del: jsm_get_delete) (auto simp: jsm_delete_def)

lemma seedDevices_keyed: "seedDevices ds m = Inr m' \<Longrightarrow> keyed m \<Longrightarrow> keyed m'"
  by (induction ds m rule: seedDevices.induct) (auto simp: bindR_eq_Inr keyed_set)

lemma sorted_ids:
  assumes "keyed m"
  shows "sorted_wrt (<) (map de_device_id (sort_key de_device_id (map snd m)))"
proof -
  let ?ids = "map de_device_id (sort_key de_device_id (map snd m))"
  have "mset ?ids = mset (map de_device_id (map snd m))" by (simp only: mset_map mset_sort)
  then have "mset ?ids = mset (map fst m)" unfolding keyed_ids [OF assms] .
  moreover have "distinct (map fst m)" using assms by (simp add: keyed_def jsm_ok_def)
  ultimately have "distinct ?ids" by (metis mset_eq_imp_distinct_iff)
  then show ?thesis by (simp add: strict_sorted_iff)
qed

text \<open>The directory that is current, if there is one, is signed, ordered and carries the revision.\<close>

definition published ::
  "'n platform \<Rightarrow> (int \<Rightarrow> 'n) \<Rightarrow> (jstr \<Rightarrow> time option) \<Rightarrow> bytes \<Rightarrow> directory_state \<Rightarrow> device_directory \<Rightarrow> bool"
where
  "published P num parseDate pub s d \<longleftrightarrow>
     verifyDeviceDirectory P num parseDate d pub = Inr True \<and> dd_user_id d = ds_userId s \<and>
     dd_revision d = ds_revision s \<and> sorted_wrt (<) (map de_device_id (dd_devices d))"

definition dir_inv ::
  "'n platform \<Rightarrow> (int \<Rightarrow> 'n) \<Rightarrow> (jstr \<Rightarrow> time option) \<Rightarrow> bytes \<Rightarrow> jstr \<Rightarrow> bytes \<Rightarrow> directory_state \<Rightarrow> bool"
where
  "dir_inv P num parseDate seed user pub s \<longleftrightarrow>
     keyed (ds_devices s) \<and> ds_identitySeed s = seed \<and> ds_userId s = user \<and> 0 \<le> ds_revision s \<and>
     (ds_current s = None \<longrightarrow> ds_revision s = 0) \<and>
     (\<forall>d. ds_current s = Some d \<longrightarrow> published P num parseDate pub s d)"

lemma dir_inv_devices:
  "dir_inv P num parseDate seed user pub s \<Longrightarrow> keyed m \<Longrightarrow> dir_inv P num parseDate seed user pub (s\<lparr>ds_devices := m\<rparr>)"
  by (simp add: dir_inv_def published_def)

lemma signed_next:
  assumes "signDeviceDirectory P num parseDate (nextDirectory isoSecond now s) seed keyId = Inr (dir, sig)"
    and "scheme_ok P seed pub" "\<forall>msg. pl_enc64 P (pl_sign P seed msg) \<noteq> []"
  shows "verifyDeviceDirectory P num parseDate dir pub = Inr True"
    and "\<exists>b. dir = nextDirectory isoSecond now s\<lparr>dd_signature := b\<rparr>"
  using directory.kind_sign_then_verify [OF assms(2,3) assms(1) [unfolded signDeviceDirectory_def]]
  by (simp add: verifyDeviceDirectory_def, blast)

lemma emit_inv:
  assumes "dir_inv P num parseDate seed user pub s"
    and "scheme_ok P seed pub" "\<forall>msg. pl_enc64 P (pl_sign P seed msg) \<noteq> []"
  shows "dir_inv P num parseDate seed user pub (fst (emitDirectory P num parseDate isoSecond now s))"
proof (rule emitDirectory_cases [of P num parseDate isoSecond now s])
  fix e assume "emitDirectory P num parseDate isoSecond now s = (s, Inl e)"
  with assms(1) show ?thesis by simp
next
  fix dir sig
  assume e: "emitDirectory P num parseDate isoSecond now s
      = (s\<lparr>ds_revision := ds_revision s + 1, ds_current := Some dir\<rparr>, Inr ())"
    and g: "signDeviceDirectory P num parseDate (nextDirectory isoSecond now s) (ds_identitySeed s) (ds_identityKeyId s)
      = Inr (dir, sig)"
  have seed: "ds_identitySeed s = seed" using assms(1) by (simp add: dir_inv_def)
  note v = signed_next [OF g [unfolded seed] assms(2,3)]
  then obtain b where "dir = nextDirectory isoSecond now s\<lparr>dd_signature := b\<rparr>" by blast
  then have "dd_user_id dir = ds_userId s" "dd_revision dir = ds_revision s + 1"
      "sorted_wrt (<) (map de_device_id (dd_devices dir))"
    using sorted_ids assms(1) by (simp_all add: nextDirectory_def dir_inv_def)
  with v(1) assms(1) show ?thesis unfolding e by (simp add: dir_inv_def published_def)
qed

lemma run_inv:
  assumes "dir_inv P num parseDate seed user pub s"
    and "scheme_ok P seed pub" "\<forall>msg. pl_enc64 P (pl_sign P seed msg) \<noteq> []"
  shows "dir_inv P num parseDate seed user pub (runDirOp P num parseDate isoSecond s op)"
proof -
  have k: "keyed (ds_devices s)" using assms(1) by (simp add: dir_inv_def)
  show ?thesis
    by (rule runDirOp_cases [of P num parseDate isoSecond s op])
      (use assms emit_inv [OF dir_inv_devices [OF assms(1)] assms(2,3)] keyed_set [OF k] keyed_delete [OF k]
       in simp_all)
qed

lemma runs_inv:
  assumes "dir_inv P num parseDate seed user pub s"
    and "scheme_ok P seed pub" "\<forall>msg. pl_enc64 P (pl_sign P seed msg) \<noteq> []"
  shows "dir_inv P num parseDate seed user pub (runDirOps P num parseDate isoSecond s ops)"
  using assms(1) by (induction ops arbitrary: s) (simp_all add: run_inv assms(2,3))

lemma new_inv:
  assumes "newDirectoryState P num parseDate isoSecond now cfg = Inr s"
    and "scheme_ok P (dsc_identitySeed cfg) pub" "\<forall>msg. pl_enc64 P (pl_sign P (dsc_identitySeed cfg) msg) \<noteq> []"
  shows "dir_inv P num parseDate (dsc_identitySeed cfg) (dsc_userId cfg) pub s"
proof -
  define s0 where "s0 m = \<lparr>ds_userId = dsc_userId cfg, ds_identitySeed = dsc_identitySeed cfg,
      ds_identityKeyId = dsc_identityKeyId cfg, ds_devices = m, ds_revision = 0, ds_current = None\<rparr>" for m
  have i: "dir_inv P num parseDate (dsc_identitySeed cfg) (dsc_userId cfg) pub (s0 m)" if "keyed m" for m
    using that by (simp add: dir_inv_def s0_def)
  from assms(1) obtain m where m: "seedDevices (listOf (dsc_initial cfg)) [] = Inr m"
      "s = s0 m \<or> s = fst (emitDirectory P num parseDate isoSecond now (s0 m))"
    unfolding newDirectoryState_def s0_def
    by (auto simp: bindR_eq_Inr Let_def split: if_splits prod.splits sum.splits)
  have "keyed m" by (rule seedDevices_keyed [OF m(1)]) (simp add: keyed_def)
  then show ?thesis using m(2) i [of m] emit_inv [OF i assms(2,3)] by blast
qed

text \<open>How one operation moves the published directory.\<close>

lemma emit_step:
  "let s' = fst (emitDirectory P num parseDate isoSecond now s) in ds_devices s' = ds_devices s \<and>
     (ds_current s' = ds_current s \<and> ds_revision s' = ds_revision s \<or>
      ds_revision s' = ds_revision s + 1 \<and>
      (\<exists>d. ds_current s' = Some d \<and> dd_devices d = sort_key de_device_id (map snd (ds_devices s))))"
proof (rule emitDirectory_cases [of P num parseDate isoSecond now s])
  fix dir sig
  assume e: "emitDirectory P num parseDate isoSecond now s
      = (s\<lparr>ds_revision := ds_revision s + 1, ds_current := Some dir\<rparr>, Inr ())"
    and g: "signDeviceDirectory P num parseDate (nextDirectory isoSecond now s) (ds_identitySeed s) (ds_identityKeyId s)
      = Inr (dir, sig)"
  from g have "dd_devices dir = dd_devices (nextDirectory isoSecond now s)"
    by (auto simp: signDeviceDirectory_def directory.sign_eq bindR_eq_Inr Let_def split: if_splits)
  then show ?thesis using e by (simp add: nextDirectory_def)
qed simp

text \<open>C38. Whatever sequence of enrollments and revocations an account's directory goes through, the
  directory it publishes verifies under the account's identity key, names the account, lists every device
  at most once in the order of the ids and carries the state's revision; each operation either leaves
  directory and revision alone or publishes the next revision, which lists exactly the active devices.\<close>

theorem directory_always_verifies:
  assumes "scheme_ok P (dsc_identitySeed cfg) pub" "\<forall>msg. pl_enc64 P (pl_sign P (dsc_identitySeed cfg) msg) \<noteq> []"
    and "newDirectoryState P num parseDate isoSecond now cfg = Inr s0"
    and "s = runDirOps P num parseDate isoSecond s0 ops" and "s' = runDirOp P num parseDate isoSecond s op"
  shows "(\<forall>d. ds_current s = Some d \<longrightarrow>
       verifyDeviceDirectory P num parseDate d pub = Inr True \<and> dd_user_id d = dsc_userId cfg \<and>
       dd_revision d = ds_revision s \<and> sorted_wrt (<) (map de_device_id (dd_devices d)))
    \<and> (ds_current s' = ds_current s \<and> ds_revision s' = ds_revision s \<or>
       ds_revision s' = ds_revision s + 1 \<and>
       (\<exists>d. ds_current s' = Some d \<and> dd_devices d = sort_key de_device_id (map snd (ds_devices s'))))"
proof
  have "dir_inv P num parseDate (dsc_identitySeed cfg) (dsc_userId cfg) pub s"
    unfolding assms(4) by (rule runs_inv [OF new_inv [OF assms(3,1,2)] assms(1,2)])
  then show "\<forall>d. ds_current s = Some d \<longrightarrow>
       verifyDeviceDirectory P num parseDate d pub = Inr True \<and> dd_user_id d = dsc_userId cfg \<and>
       dd_revision d = ds_revision s \<and> sorted_wrt (<) (map de_device_id (dd_devices d))"
    by (simp add: dir_inv_def published_def)
  show "ds_current s' = ds_current s \<and> ds_revision s' = ds_revision s \<or>
       ds_revision s' = ds_revision s + 1 \<and>
       (\<exists>d. ds_current s' = Some d \<and> dd_devices d = sort_key de_device_id (map snd (ds_devices s')))"
  proof (rule runDirOp_cases [of P num parseDate isoSecond s op])
    assume "runDirOp P num parseDate isoSecond s op = s"
    with assms(5) show ?thesis by simp
  next
    fix entry now
    assume "runDirOp P num parseDate isoSecond s op = fst (emitDirectory P num parseDate isoSecond now
         (s\<lparr>ds_devices := jsm_set (de_device_id entry) entry (ds_devices s)\<rparr>))"
    with emit_step [of P num parseDate isoSecond now "s\<lparr>ds_devices := jsm_set (de_device_id entry) entry (ds_devices s)\<rparr>"]
    show ?thesis using assms(5) by (simp add: Let_def)
  next
    fix k now
    assume "runDirOp P num parseDate isoSecond s op = fst (emitDirectory P num parseDate isoSecond now
         (s\<lparr>ds_devices := jsm_delete k (ds_devices s)\<rparr>))"
    with emit_step [of P num parseDate isoSecond now "s\<lparr>ds_devices := jsm_delete k (ds_devices s)\<rparr>"]
    show ?thesis using assms(5) by (simp add: Let_def)
  qed
qed

section \<open>Enrollments that fail half-way\<close>

lemma checkDevices_entries:
  "checkDevices seen ds = Inr () \<Longrightarrow> d \<in> set ds \<Longrightarrow> list_all fst (entryChecks d)"
  by (induction seen ds rule: checkDevices.induct) (auto simp: bindR_eq_Inr)

text \<open>An entry that the validation of a directory refuses keeps every directory from being signed.\<close>

lemma emit_refused:
  assumes "e \<in> snd ` set (ds_devices s)" "\<not> list_all fst (entryChecks e)"
  obtains err where "emitDirectory P num parseDate isoSecond now s = (s, Inl err)"
proof (rule emitDirectory_cases [of P num parseDate isoSecond now s])
  fix dir sig
  assume "signDeviceDirectory P num parseDate (nextDirectory isoSecond now s) (ds_identitySeed s) (ds_identityKeyId s)
      = Inr (dir, sig)"
  then have "validateDeviceDirectory parseDate True (nextDirectory isoSecond now s) = Inr ()"
    by (auto simp: signDeviceDirectory_def signRecord_def bindR_eq_Inr split: if_splits)
  then have "checkDevices [] (sort_key de_device_id (map snd (ds_devices s))) = Inr ()"
    by (auto simp: validateDeviceDirectory_def nextDirectory_def bindR_eq_Inr)
  from checkDevices_entries [OF this, of e] assms show ?thesis by auto
qed (rule that)

definition stuck :: "directory_entry \<Rightarrow> directory_state \<Rightarrow> directory_state \<Rightarrow> bool" where
  "stuck e s0 s \<longleftrightarrow> jsm_get (ds_devices s) (de_device_id e) = Some e \<and> ds_current s = ds_current s0
     \<and> ds_revision s = ds_revision s0"

lemma stuck_emit:
  assumes "jsm_get m (de_device_id e) = Some e" "\<not> list_all fst (entryChecks e)"
  shows "\<exists>err. emitDirectory P num parseDate isoSecond now (s\<lparr>ds_devices := m\<rparr>) = (s\<lparr>ds_devices := m\<rparr>, Inl err)"
proof -
  have "e \<in> snd ` set (ds_devices (s\<lparr>ds_devices := m\<rparr>))"
    using map_of_SomeD [OF assms(1)] by (force simp: image_iff)
  from emit_refused [OF this assms(2)] show ?thesis by metis
qed

lemma stuck_step:
  assumes "stuck e s0 s" "\<not> list_all fst (entryChecks e)" "\<forall>now. op \<noteq> RevokeDevice (de_device_id e) now"
  shows "stuck e s0 (runDirOp P num parseDate isoSecond s op)"
proof (rule runDirOp_cases [of P num parseDate isoSecond s op])
  fix entry now
  assume n: "jsm_get (ds_devices s) (de_device_id entry) = None"
    and r: "runDirOp P num parseDate isoSecond s op = fst (emitDirectory P num parseDate isoSecond now
         (s\<lparr>ds_devices := jsm_set (de_device_id entry) entry (ds_devices s)\<rparr>))"
  from n assms(1) have g: "jsm_get (jsm_set (de_device_id entry) entry (ds_devices s)) (de_device_id e) = Some e"
    by (auto simp: stuck_def)
  show ?thesis using stuck_emit [OF g assms(2), of P num parseDate isoSecond now s] assms(1) g unfolding r
    by (auto simp: stuck_def)
next
  fix k now
  assume n: "op = RevokeDevice k now"
    and r: "runDirOp P num parseDate isoSecond s op = fst (emitDirectory P num parseDate isoSecond now
         (s\<lparr>ds_devices := jsm_delete k (ds_devices s)\<rparr>))"
  from n assms(1,3) have g: "jsm_get (jsm_delete k (ds_devices s)) (de_device_id e) = Some e"
    by (auto simp: stuck_def)
  show ?thesis using stuck_emit [OF g assms(2), of P num parseDate isoSecond now s] assms(1) g unfolding r
    by (auto simp: stuck_def)
qed (use assms(1) in simp)

lemma stuck_steps:
  assumes "stuck e s0 s" "\<not> list_all fst (entryChecks e)"
    and "\<forall>now. RevokeDevice (de_device_id e) now \<notin> set ops"
  shows "stuck e s0 (runDirOps P num parseDate isoSecond s ops)"
  using assms(1,3)
proof (induction ops arbitrary: s)
  case (Cons a ops)
  have "\<forall>now. a \<noteq> RevokeDevice (de_device_id e) now" using Cons.prems(2) by auto
  from Cons.IH [OF stuck_step [OF Cons.prems(1) assms(2) this]] Cons.prems(2) show ?case by simp
qed simp

text \<open>C39. \<open>addDevice\<close> checks fewer fields than the validation of the directory does, and it does not take
  the entry out again when signing fails. After an enrollment that passes its own checks but leaves, say,
  the device name empty, the call throws and the entry stays; from then on nothing is published any more
  until that very device is revoked. A revocation of another device then throws, and the directory that
  is being served keeps listing the revoked device.\<close>

theorem failed_enrollment_blocks_directory:
  assumes "jsm_get (ds_devices s) (de_device_id e) = None"
    and "de_device_id e \<noteq> []" "de_device_public_key e \<noteq> []" "list_all fst (roleChecks (de_role e) (de_certificate_id e))"
    and "de_device_name e = []"
    and "\<forall>now. RevokeDevice (de_device_id e) now \<notin> set ops"
    and "s' = runDirOps P num parseDate isoSecond s (AddDevice e now # ops)"
  shows "(\<exists>err. snd (addDevice P num parseDate isoSecond now e s) = Inl err)
    \<and> ds_current s' = ds_current s \<and> ds_revision s' = ds_revision s
    \<and> (\<forall>k. k \<noteq> de_device_id e \<longrightarrow> jsm_get (ds_devices s') k \<noteq> None \<longrightarrow>
         (\<exists>err. snd (revokeDevice P num parseDate isoSecond now' k s') = Inl err \<or> k = []))"
proof -
  have bad: "\<not> list_all fst (entryChecks e)" using assms(5) by (simp add: entryChecks_def)
  have g: "jsm_get (jsm_set (de_device_id e) e (ds_devices s)) (de_device_id e) = Some e" by simp
  from stuck_emit [OF g bad, of P num parseDate isoSecond now s] obtain err where
    em: "emitDirectory P num parseDate isoSecond now (s\<lparr>ds_devices := jsm_set (de_device_id e) e (ds_devices s)\<rparr>)
      = (s\<lparr>ds_devices := jsm_set (de_device_id e) e (ds_devices s)\<rparr>, Inl err)" by blast
  have a: "addDevice P num parseDate isoSecond now e s
      = (s\<lparr>ds_devices := jsm_set (de_device_id e) e (ds_devices s)\<rparr>, Inl err)"
    using assms(1-4) em by (simp add: addDevice_def roleChecks_def bindX_def)
  then have "stuck e s (runDirOp P num parseDate isoSecond s (AddDevice e now))"
    using g by (simp add: runDirOp_def stuck_def)
  then have st: "stuck e s s'" unfolding assms(7) by (simp add: stuck_steps bad assms(6))
  have "\<exists>err. snd (revokeDevice P num parseDate isoSecond now' k s') = Inl err"
    if "k \<noteq> de_device_id e" "jsm_get (ds_devices s') k \<noteq> None" "k \<noteq> []" for k
  proof -
    have "jsm_get (jsm_delete k (ds_devices s')) (de_device_id e) = Some e" using st that by (simp add: stuck_def)
    from stuck_emit [OF this bad, of P num parseDate isoSecond now' s'] that(2,3) show ?thesis
      by (auto simp: revokeDevice_def bindX_def)
  qed
  with a st show ?thesis by (auto simp: stuck_def)
qed

definition demo_device :: "string \<Rightarrow> directory_entry" where
  "demo_device n = \<lparr>de_device_id = js n, de_device_public_key = js ''k'', de_device_identity_pubkey_algorithm = js ''a'',
     de_role = js ''full_access'', de_certificate_id = None, de_enrolled_at = js ''0'', de_device_name = js ''n'',
     de_device_type = js ''t''\<rparr>"

definition demo_config :: directory_config where
  "demo_config = \<lparr>dsc_userId = js ''u'', dsc_identitySeed = [7], dsc_identityKeyId = js ''k'',
     dsc_initial = Some [demo_device ''b'', demo_device ''a'']\<rparr>"

definition demo_state :: directory_state where
  "demo_state = projr (newDirectoryState demo_platform id demo_parse (\<lambda>_. js ''0'') 0 demo_config)"

lemma demo_state: "newDirectoryState demo_platform id demo_parse (\<lambda>_. js ''0'') 0 demo_config = Inr demo_state"
  and demo_state_current: "\<exists>d. ds_current demo_state = Some d"
  and demo_state_devices: "ds_devices demo_state = [(js ''b'', demo_device ''b''), (js ''a'', demo_device ''a'')]"
proof -
  let ?s = "\<lparr>ds_userId = js ''u'', ds_identitySeed = [7], ds_identityKeyId = js ''k'',
     ds_devices = [(js ''b'', demo_device ''b''), (js ''a'', demo_device ''a'')], ds_revision = 0, ds_current = None\<rparr>"
  have sorted: "sort_key de_device_id [demo_device ''b'', demo_device ''a''] = [demo_device ''a'', demo_device ''b'']"
    by (simp add: demo_device_def js_def)
  have "validateDeviceDirectory demo_parse True (nextDirectory (\<lambda>_. js ''0'') 0 ?s) = Inr ()"
    by (simp add: validateDeviceDirectory_def nextDirectory_def sorted)
      (simp add: demo_parse_def demo_device_def entryChecks_def roleChecks_def DeviceRecordVersion_def)
  then obtain dir sig where "signDeviceDirectory demo_platform id demo_parse (nextDirectory (\<lambda>_. js ''0'') 0 ?s) [7]
      (js ''k'') = Inr (dir, sig)"
    by (simp add: signDeviceDirectory_def directory.sign_eq Let_def)
  then have "newDirectoryState demo_platform id demo_parse (\<lambda>_. js ''0'') 0 demo_config
      = Inr (?s\<lparr>ds_revision := 1, ds_current := Some dir\<rparr>)"
    by (simp add: newDirectoryState_def demo_config_def Let_def emitDirectory_def demo_device_def)
  then show "newDirectoryState demo_platform id demo_parse (\<lambda>_. js ''0'') 0 demo_config = Inr demo_state"
    "\<exists>d. ds_current demo_state = Some d"
    "ds_devices demo_state = [(js ''b'', demo_device ''b''), (js ''a'', demo_device ''a'')]"
    by (simp_all add: demo_state_def)
qed

theorem directory_always_verifies_witness:
  "\<exists>d. ds_current demo_state = Some d \<and> verifyDeviceDirectory demo_platform id demo_parse d [7] = Inr True"
proof -
  have "\<forall>msg. pl_enc64 demo_platform (pl_sign demo_platform (dsc_identitySeed demo_config) msg) \<noteq> []"
    by (simp add: demo_platform_def demo_config_def)
  from directory_always_verifies [OF demo_scheme this demo_state, where ops = "[]", OF _ refl]
  show ?thesis using demo_state_current by (auto simp: demo_config_def)
qed

theorem failed_enrollment_blocks_directory_witness:
  "let s' = runDirOps demo_platform id demo_parse (\<lambda>_. js ''0'') demo_state
       [AddDevice (demo_device ''c''\<lparr>de_device_name := []\<rparr>) 0, RevokeDevice (js ''a'') 0]
   in ds_current s' = ds_current demo_state"
proof -
  let ?e = "demo_device ''c''\<lparr>de_device_name := []\<rparr>"
  have a: "jsm_get (ds_devices demo_state) (de_device_id ?e) = None" "de_device_id ?e \<noteq> []"
      "de_device_public_key ?e \<noteq> []" "list_all fst (roleChecks (de_role ?e) (de_certificate_id ?e))"
      "de_device_name ?e = []" "\<forall>now. RevokeDevice (de_device_id ?e) now \<notin> set [RevokeDevice (js ''a'') 0]"
    by (simp_all add: demo_state_devices demo_device_def roleChecks_def)
  from failed_enrollment_blocks_directory [OF a refl] show ?thesis unfolding Let_def by blast
qed

end
