(* ===== verification/Staging.thy ===== *)
theory Staging
  imports DeviceRecords
begin

text \<open>
  Staged delivery, \<^verbatim>\<open>src/src/delivery\<close>: the votes of staged devices (\<^verbatim>\<open>disposition.ts\<close>), the partition of an
  account's devices into stages (\<^verbatim>\<open>stage_partition.ts\<close>) and the runner that holds envelopes and moves them
  from stage to stage (\<^verbatim>\<open>staged_runner.ts\<close>). The three callbacks of the runner are one function \<open>fails\<close> that
  says whether a call throws, given the calls made before; the calls made are recorded in the state.
\<close>

section \<open>Dispositions\<close>

definition DispositionKind :: jstr where "DispositionKind = js ''delivery-disposition''"
definition DefaultStageTimeoutMs :: int where "DefaultStageTimeoutMs = 30000"

record disposition =
  dp_kind :: jstr
  dp_source_envelope_id :: jstr
  dp_disposition :: jstr
  dp_reason :: "jstr option"
  dp_device_id :: jstr

definition validateDisposition :: "disposition \<Rightarrow> record_error + unit" where
  "validateDisposition d =
     checks
       [(dp_kind d = DispositionKind, ''wrong disposition kind''),
        (dp_source_envelope_id d \<noteq> [], ''disposition missing source_envelope_id''),
        (dp_device_id d \<noteq> [], ''disposition missing device_id''),
        (dp_disposition d \<noteq> [], ''disposition missing decision''),
        (dp_disposition d = js ''advance'' \<or> dp_disposition d = js ''suppress'', ''disposition decision is not a valid value'')]"

datatype stage_outcome = Advance | Suppress

fun aggregateDispositions :: "disposition list \<Rightarrow> stage_outcome" where
  "aggregateDispositions [] = Advance"
| "aggregateDispositions (d # ds) = (if dp_disposition d = js ''suppress'' then Suppress else aggregateDispositions ds)"

record held_stage =
  st_stage :: int
  st_pending :: "jstr list"
  st_dispositions :: "disposition list"

record staged_held =
  sh_envelope_id :: jstr
  sh_stages :: "held_stage list"
  sh_deadline :: jstr

definition isStageComplete :: "(jstr \<Rightarrow> time option) \<Rightarrow> held_stage \<Rightarrow> time \<Rightarrow> jstr \<Rightarrow> bool" where
  "isStageComplete parseDate stage now deadline =
     (if st_pending stage = [] then True
      else if deadline \<noteq> [] \<and> (case parseDate deadline of None \<Rightarrow> False | Some ms \<Rightarrow> now \<ge> ms) then True
      else list_all (\<lambda>k. k \<in> set (map dp_device_id (st_dispositions stage))) (st_pending stage))"

section \<open>The partition into stages\<close>

record partition_state =
  pt_eligible :: "(jstr \<times> int) list"
  pt_fullAccessIds :: "jstr list"
  pt_maxDelegateMode :: int

text \<open>One device of the directory; \<open>wanted\<close> says for which public keys the envelope is wrapped.\<close>

definition partitionDevice ::
  "(jstr \<Rightarrow> jstr) \<Rightarrow> (jstr \<Rightarrow> device_certificate option) \<Rightarrow> (jstr \<Rightarrow> bool) \<Rightarrow> address_identity \<Rightarrow> directory_entry
     \<Rightarrow> partition_state \<Rightarrow> partition_state"
where
  "partitionDevice lower certificateProvider wanted sender dev s =
     (let recipientWanted = wanted (de_device_public_key dev) in
      if de_role dev = js ''full_access'' then
        (if recipientWanted then s\<lparr>pt_fullAccessIds := pt_fullAccessIds s @ [de_device_id dev]\<rparr> else s)
      else case certificateProvider (de_device_id dev) of
          None \<Rightarrow> s
        | Some cert \<Rightarrow>
            let m = sc_receive (dc_scope cert); stage = numOr0 (sm_delivery_stage m);
                s = (if sm_mode m \<noteq> js ''none'' \<and> stage > pt_maxDelegateMode s
                     then s\<lparr>pt_maxDelegateMode := stage\<rparr> else s) in
            if \<not> recipientWanted then s
            else if sm_mode m = js ''none'' then s
            else if \<not> scopeAllowsSender lower m sender then s
            else s\<lparr>pt_eligible := pt_eligible s @ [(de_device_id dev, if stage < 1 then 1 else stage)]\<rparr>)"

text \<open>Grouping by stage in a \<open>Map\<close>.\<close>

fun groupStages :: "(jstr \<times> int) list \<Rightarrow> (int, jstr list) jsmap \<Rightarrow> (int, jstr list) jsmap" where
  "groupStages [] m = m"
| "groupStages ((deviceId, stage) # es) m =
     groupStages es (case jsm_get m stage of
         None \<Rightarrow> jsm_set stage [deviceId] m
       | Some ids \<Rightarrow> jsm_set stage (ids @ [deviceId]) m)"

definition partitionStages ::
  "(jstr \<Rightarrow> jstr) \<Rightarrow> device_directory \<Rightarrow> (jstr \<Rightarrow> device_certificate option) \<Rightarrow> (jstr \<Rightarrow> bool) \<Rightarrow> address_identity
     \<Rightarrow> held_stage list"
where
  "partitionStages lower dir certificateProvider wanted sender =
     (let s = fold (partitionDevice lower certificateProvider wanted sender) (dd_devices dir)
            \<lparr>pt_eligible = [], pt_fullAccessIds = [], pt_maxDelegateMode = 0\<rparr>;
          fullAccessStage = (if pt_maxDelegateMode s > 0 then pt_maxDelegateMode s + 1 else 1);
          eligible = pt_eligible s @ map (\<lambda>k. (k, fullAccessStage)) (pt_fullAccessIds s) in
      if eligible = [] then []
      else
        let byStage = groupStages eligible [] in
        map (\<lambda>st. \<lparr>st_stage = st, st_pending = sort (the (jsm_get byStage st)), st_dispositions = []\<rparr>)
          (sort (map fst byStage)))"

section \<open>The runner\<close>

datatype stage_call = Deliver jstr int "jstr list" | SuppressCall jstr int | Complete jstr

record staged_runner =
  ru_stageTimeoutMs :: int
  ru_held :: "(jstr, staged_held) jsmap"
  ru_calls :: "stage_call list"

datatype staged_error = Staged string | AlreadyHeld jstr | NotHeld jstr | BadDisposition record_error

definition newStagedRunner :: "int option \<Rightarrow> staged_runner" where
  "newStagedRunner stageTimeoutMs =
     \<lparr>ru_stageTimeoutMs = (case stageTimeoutMs of Some t \<Rightarrow> if t > 0 then t else DefaultStageTimeoutMs
        | None \<Rightarrow> DefaultStageTimeoutMs), ru_held = [], ru_calls = []\<rparr>"

text \<open>A call of a callback: recorded, and thrown or not.\<close>

definition invoke :: "(stage_call list \<Rightarrow> stage_call \<Rightarrow> bool) \<Rightarrow> stage_call \<Rightarrow> (staged_runner, string, unit) op" where
  "invoke fails c s = (s\<lparr>ru_calls := ru_calls s @ [c]\<rparr>, if fails (ru_calls s) c then Inl ''callback threw'' else Inr ())"

definition cleanStages :: "held_stage list \<Rightarrow> held_stage list" where
  "cleanStages stages = map (\<lambda>s. s\<lparr>st_dispositions := []\<rparr>) (filter (\<lambda>s. st_pending s \<noteq> []) stages)"

definition hold ::
  "(time \<Rightarrow> jstr) \<Rightarrow> (stage_call list \<Rightarrow> stage_call \<Rightarrow> bool) \<Rightarrow> time \<Rightarrow> jstr \<Rightarrow> held_stage list
     \<Rightarrow> (staged_runner, staged_error, unit) op"
where
  "hold isoSecond fails now envelopeId stages =
     bindX (throwIf (envelopeId = []) (Staged ''hold empty envelope_id'')) (\<lambda>_.
     let cleaned = cleanStages stages in
     bindX (throwIf (cleaned = []) (Staged ''hold partition has no pending devices at any stage'')) (\<lambda>_.
     bindX (throwIf (\<not> sorted_wrt (<) (map st_stage cleaned)) (Staged ''hold stages not monotonically increasing'')) (\<lambda>_.
     bindX get (\<lambda>s.
     bindX (throwIf (jsm_get (ru_held s) envelopeId \<noteq> None) (AlreadyHeld envelopeId)) (\<lambda>_.
     bindX (modify (\<lambda>s. s\<lparr>ru_held := jsm_set envelopeId
       \<lparr>sh_envelope_id = envelopeId, sh_stages = cleaned, sh_deadline = isoSecond (now + ru_stageTimeoutMs s)\<rparr>
       (ru_held s)\<rparr>)) (\<lambda>_ s.
     case invoke fails (Deliver envelopeId (st_stage (hd cleaned)) (st_pending (hd cleaned))) s of
       (s, Inr _) \<Rightarrow> (s, Inr ())
     | (s, Inl _) \<Rightarrow> (s\<lparr>ru_held := jsm_delete envelopeId (ru_held s)\<rparr>, Inl (Staged ''stage deliver failed''))))))))"

definition ingestDisposition :: "jstr \<Rightarrow> jstr \<Rightarrow> disposition \<Rightarrow> (staged_runner, staged_error, unit) op" where
  "ingestDisposition envelopeId submitterDeviceId d =
     bindX (lift (case validateDisposition d of Inl e \<Rightarrow> Inl (BadDisposition e) | Inr u \<Rightarrow> Inr u)) (\<lambda>_.
     bindX (throwIf (submitterDeviceId = []) (Staged ''submitter device_id is required'')) (\<lambda>_.
     bindX (throwIf (submitterDeviceId \<noteq> dp_device_id d) (Staged ''submitter does not match device_id'')) (\<lambda>_.
     bindX get (\<lambda>s.
     case jsm_get (ru_held s) envelopeId of
       None \<Rightarrow> throw (Staged ''no held envelope'')
     | Some r \<Rightarrow>
         (case sh_stages r of
            [] \<Rightarrow> throw (Staged ''no remaining stages'')
          | current # later \<Rightarrow>
              bindX (throwIf (dp_device_id d \<notin> set (st_pending current)) (Staged ''device is not in current stage'')) (\<lambda>_.
              if dp_device_id d \<in> set (map dp_device_id (st_dispositions current)) then ret ()
              else modify (\<lambda>s. s\<lparr>ru_held := jsm_set envelopeId
                (r\<lparr>sh_stages := current\<lparr>st_dispositions := st_dispositions current @ [d]\<rparr> # later\<rparr>) (ru_held s)\<rparr>)))))))"

text \<open>
  The first loop of \<open>tick\<close> for one held envelope: what becomes of its record (\<open>None\<close>: deleted) and the
  callback it schedules.
\<close>

definition advanceHeld ::
  "(jstr \<Rightarrow> time option) \<Rightarrow> (time \<Rightarrow> jstr) \<Rightarrow> int \<Rightarrow> time \<Rightarrow> jstr \<Rightarrow> staged_held \<Rightarrow> staged_held option \<times> stage_call list"
where
  "advanceHeld parseDate isoSecond timeout now k r =
     (case sh_stages r of
        [] \<Rightarrow> (Some r, [])
      | current # later \<Rightarrow>
          if \<not> isStageComplete parseDate current now (sh_deadline r) then (Some r, [])
          else if aggregateDispositions (st_dispositions current) = Suppress then (None, [SuppressCall k (st_stage current)])
          else case later of
              [] \<Rightarrow> (None, [Complete k])
            | nxt # _ \<Rightarrow>
                (Some (r\<lparr>sh_stages := later, sh_deadline := isoSecond (now + timeout)\<rparr>),
                 [Deliver k (st_stage nxt) (st_pending nxt)]))"

fun advanceAll ::
  "(jstr \<Rightarrow> time option) \<Rightarrow> (time \<Rightarrow> jstr) \<Rightarrow> int \<Rightarrow> time \<Rightarrow> (jstr, staged_held) jsmap
     \<Rightarrow> (jstr, staged_held) jsmap \<times> stage_call list"
where
  "advanceAll parseDate isoSecond timeout now [] = ([], [])"
| "advanceAll parseDate isoSecond timeout now ((k, r) # m) =
     (let (r', toRun) = advanceHeld parseDate isoSecond timeout now k r;
          (m', toRun') = advanceAll parseDate isoSecond timeout now m in
      ((case r' of None \<Rightarrow> m' | Some r' \<Rightarrow> (k, r') # m'), toRun @ toRun'))"

fun callEnvelope :: "stage_call \<Rightarrow> jstr" where
  "callEnvelope (Deliver k _ _) = k"
| "callEnvelope (SuppressCall k _) = k"
| "callEnvelope (Complete k) = k"

text \<open>The second loop: the callbacks in the order of the envelope ids, with the first error.\<close>

fun runCalls ::
  "(stage_call list \<Rightarrow> stage_call \<Rightarrow> bool) \<Rightarrow> stage_call list \<Rightarrow> string option \<Rightarrow> staged_runner \<Rightarrow> staged_runner \<times> string option"
where
  "runCalls fails [] firstErr s = (s, firstErr)"
| "runCalls fails (c # cs) firstErr s =
     (case invoke fails c s of
        (s, Inr _) \<Rightarrow> runCalls fails cs firstErr s
      | (s, Inl e) \<Rightarrow> runCalls fails cs (if firstErr = None then Some e else firstErr) s)"

definition stagedTick ::
  "(jstr \<Rightarrow> time option) \<Rightarrow> (time \<Rightarrow> jstr) \<Rightarrow> (stage_call list \<Rightarrow> stage_call \<Rightarrow> bool) \<Rightarrow> time \<Rightarrow> staged_runner
     \<Rightarrow> staged_runner \<times> nat \<times> string option"
where
  "stagedTick parseDate isoSecond fails now s =
     (let (held, toRun) = advanceAll parseDate isoSecond (ru_stageTimeoutMs s) now (ru_held s);
          (s, firstErr) = runCalls fails (sort_key callEnvelope toRun) None (s\<lparr>ru_held := held\<rparr>) in
      (s, length toRun, firstErr))"

definition reevaluate :: "jstr \<Rightarrow> held_stage list \<Rightarrow> (staged_runner, staged_error, unit) op" where
  "reevaluate envelopeId newStages =
     bindX (throwIf (envelopeId = []) (Staged ''reevaluate empty envelope_id'')) (\<lambda>_.
     bindX get (\<lambda>s.
     case jsm_get (ru_held s) envelopeId of
       None \<Rightarrow> throw (NotHeld envelopeId)
     | Some r \<Rightarrow>
         (case sh_stages r of
            [] \<Rightarrow> ret ()
          | current # _ \<Rightarrow>
              let currentStage = st_stage current;
                  sortedNew = sort_key st_stage (filter (\<lambda>s. st_stage s \<ge> currentStage) newStages);
                  rebuilt = map (\<lambda>s. s\<lparr>st_dispositions :=
                      (if st_stage s = currentStage then st_dispositions current else [])\<rparr>)
                    (filter (\<lambda>s. st_pending s \<noteq> []) sortedNew) in
              modify (\<lambda>s. s\<lparr>ru_held := jsm_set envelopeId (r\<lparr>sh_stages := rebuilt\<rparr>) (ru_held s)\<rparr>))))"

definition isHeld :: "jstr \<Rightarrow> staged_runner \<Rightarrow> bool" where
  "isHeld envelopeId s \<longleftrightarrow> jsm_get (ru_held s) envelopeId \<noteq> None"

definition heldCount :: "staged_runner \<Rightarrow> nat" where
  "heldCount s = length (ru_held s)"

end
