(* ===== verification/PartitionProofs.thy ===== *)
theory PartitionProofs
  imports Staging
begin

text \<open>
  The stage partition agrees with its description device by device.
\<close>

section \<open>The description\<close>

definition fullAccess :: "directory_entry \<Rightarrow> bool" where
  "fullAccess dev \<longleftrightarrow> de_role dev = js ''full_access''"

text \<open>Whether a device is to receive the envelope at all.\<close>

definition receives ::
  "(jstr \<Rightarrow> jstr) \<Rightarrow> (jstr \<Rightarrow> device_certificate option) \<Rightarrow> (jstr \<Rightarrow> bool) \<Rightarrow> address_identity \<Rightarrow> directory_entry \<Rightarrow> bool"
where
  "receives lower provider wanted sender dev \<longleftrightarrow> wanted (de_device_public_key dev) \<and>
     (fullAccess dev \<or> (\<exists>cert. provider (de_device_id dev) = Some cert \<and>
        scopeAllowsSender lower (sc_receive (dc_scope cert)) sender))"

text \<open>The stage a device's certificate asks for (0: none).\<close>

definition declared :: "(jstr \<Rightarrow> device_certificate option) \<Rightarrow> directory_entry \<Rightarrow> int" where
  "declared provider dev =
     (if fullAccess dev then 0
      else case provider (de_device_id dev) of
          None \<Rightarrow> 0
        | Some cert \<Rightarrow> if sm_mode (sc_receive (dc_scope cert)) = js ''none'' then 0
            else numOr0 (sm_delivery_stage (sc_receive (dc_scope cert))))"

definition lastDeclared :: "(jstr \<Rightarrow> device_certificate option) \<Rightarrow> directory_entry list \<Rightarrow> int" where
  "lastDeclared provider devs = fold max (map (declared provider) devs) 0"

definition stageOf :: "(jstr \<Rightarrow> device_certificate option) \<Rightarrow> directory_entry list \<Rightarrow> directory_entry \<Rightarrow> int" where
  "stageOf provider devs dev =
     (if fullAccess dev then (if lastDeclared provider devs > 0 then lastDeclared provider devs + 1 else 1)
      else max 1 (declared provider dev))"

section \<open>The loop\<close>

lemma allows_mode: "scopeAllowsSender lower m sender \<Longrightarrow> sm_mode m \<noteq> js ''none''"
  by (auto simp: scopeAllowsSender_def scopeAllowsRecipient_def)

lemma partitionDevice_eq:
  "0 \<le> pt_maxDelegateMode s \<Longrightarrow> partitionDevice lower provider wanted sender dev s =
     \<lparr>pt_eligible = pt_eligible s @ (if receives lower provider wanted sender dev \<and> \<not> fullAccess dev
        then [(de_device_id dev, max 1 (declared provider dev))] else []),
      pt_fullAccessIds = pt_fullAccessIds s @ (if receives lower provider wanted sender dev \<and> fullAccess dev
        then [de_device_id dev] else []),
      pt_maxDelegateMode = max (declared provider dev) (pt_maxDelegateMode s)\<rparr>"
  by (cases "fullAccess dev"; cases "provider (de_device_id dev)")
    (auto simp: partitionDevice_def receives_def declared_def fullAccess_def Let_def max_def dest: allows_mode)

lemma fold_partition:
  "0 \<le> pt_maxDelegateMode s \<Longrightarrow> fold (partitionDevice lower provider wanted sender) devs s =
     \<lparr>pt_eligible = pt_eligible s @ map (\<lambda>d. (de_device_id d, max 1 (declared provider d)))
        (filter (\<lambda>d. receives lower provider wanted sender d \<and> \<not> fullAccess d) devs),
      pt_fullAccessIds = pt_fullAccessIds s @ map de_device_id
        (filter (\<lambda>d. receives lower provider wanted sender d \<and> fullAccess d) devs),
      pt_maxDelegateMode = fold max (map (declared provider) devs) (pt_maxDelegateMode s)\<rparr>"
proof (induction devs arbitrary: s)
  case (Cons d devs)
  show ?case using Cons by (simp add: partitionDevice_eq del: max_def)
qed simp

section \<open>Grouping\<close>

definition members :: "(int, jstr list) jsmap \<Rightarrow> int \<Rightarrow> jstr list" where
  "members m st = (case jsm_get m st of None \<Rightarrow> [] | Some ids \<Rightarrow> ids)"

lemma groupStages_members:
  "members (groupStages es m) st = members m st @ map fst (filter (\<lambda>e. snd e = st) es)"
  by (induction es m rule: groupStages.induct) (auto simp: members_def split: option.splits)

lemma groupStages_keys: "fst ` set (groupStages es m) = fst ` set m \<union> snd ` set es"
  by (induction es m rule: groupStages.induct) (auto split: option.splits)

lemma groupStages_ok: "jsm_ok m \<Longrightarrow> jsm_ok (groupStages es m)"
  by (induction es m rule: groupStages.induct) (auto split: option.splits)

lemma group_stage:
  assumes "st \<in> set (map fst (groupStages es []))"
  shows "the (jsm_get (groupStages es []) st) = map fst (filter (\<lambda>e. snd e = st) es)"
proof -
  from assms obtain ids where "jsm_get (groupStages es []) st = Some ids"
    by (metis list.set_map map_of_eq_None_iff not_None_eq)
  with groupStages_members [of es "[]" st] show ?thesis by (simp add: members_def)
qed

text \<open>The whole result, with the eligible devices as one list.\<close>

definition eligible ::
  "(jstr \<Rightarrow> jstr) \<Rightarrow> (jstr \<Rightarrow> device_certificate option) \<Rightarrow> (jstr \<Rightarrow> bool) \<Rightarrow> address_identity \<Rightarrow> directory_entry list
     \<Rightarrow> (jstr \<times> int) list"
where
  "eligible lower provider wanted sender devs =
     (let es = (\<lambda>full. map (\<lambda>d. (de_device_id d, stageOf provider devs d))
        (filter (\<lambda>d. receives lower provider wanted sender d \<and> fullAccess d = full) devs)) in es False @ es True)"

definition groups :: "(jstr \<times> int) list \<Rightarrow> held_stage list" where
  "groups es = map (\<lambda>st. \<lparr>st_stage = st, st_pending = sort (map fst (filter (\<lambda>e. snd e = st) es)), st_dispositions = []\<rparr>)
     (sorted_list_of_set (snd ` set es))"

lemma partitionStages_eq:
  "partitionStages lower dir provider wanted sender = groups (eligible lower provider wanted sender (dd_devices dir))"
proof -
  let ?devs = "dd_devices dir"
  let ?es = "eligible lower provider wanted sender ?devs"
  have e: "map (\<lambda>d. (de_device_id d, max 1 (declared provider d)))
        (filter (\<lambda>d. receives lower provider wanted sender d \<and> \<not> fullAccess d) ?devs) @
      map (\<lambda>k. (k, if lastDeclared provider ?devs > 0 then lastDeclared provider ?devs + 1 else 1))
        (map de_device_id (filter (\<lambda>d. receives lower provider wanted sender d \<and> fullAccess d) ?devs)) = ?es"
    by (simp add: eligible_def Let_def stageOf_def o_def cong: map_cong)
  have sorted: "sort (map fst (groupStages ?es [])) = sorted_list_of_set (snd ` set ?es)"
  proof (rule sorted_distinct_set_unique)
    show "distinct (sort (map fst (groupStages ?es [])))"
      using groupStages_ok [of "[]" ?es] by (simp add: jsm_ok_def)
    show "set (sort (map fst (groupStages ?es []))) = set (sorted_list_of_set (snd ` set ?es))"
      using groupStages_keys [of ?es "[]"] by simp
  qed simp_all
  have el: "?es = [] \<Longrightarrow> groups ?es = []" by (simp add: groups_def)
  have g: "map (\<lambda>st. \<lparr>st_stage = st, st_pending = sort (the (jsm_get (groupStages ?es []) st)), st_dispositions = []\<rparr>)
      (sort (map fst (groupStages ?es []))) = groups ?es"
    unfolding groups_def sorted
    by (rule map_cong [OF refl]) (use group_stage groupStages_keys [of ?es "[]"] in simp)
  define F :: "(jstr \<times> int) list \<Rightarrow> held_stage list" where
    "F es = (if es = [] then [] else
       map (\<lambda>st. \<lparr>st_stage = st, st_pending = sort (the (jsm_get (groupStages es []) st)), st_dispositions = []\<rparr>)
         (sort (map fst (groupStages es []))))" for es
  have "partitionStages lower dir provider wanted sender = F ?es"
    unfolding e [symmetric] F_def partitionStages_def Let_def lastDeclared_def
    by (simp only: fold_partition partition_state.simps order_refl append_Nil)
  also have "\<dots> = groups ?es" using el g by (simp add: F_def)
  finally show ?thesis .
qed

section \<open>Properties\<close>

lemma eligible_iff:
  "(k, st) \<in> set (eligible lower provider wanted sender devs) \<longleftrightarrow>
     (\<exists>d \<in> set devs. receives lower provider wanted sender d \<and> de_device_id d = k \<and> stageOf provider devs d = st)"
  by (auto simp: eligible_def Let_def)

lemma groups_iff:
  "(\<exists>g \<in> set (groups es). st_stage g = st \<and> k \<in> set (st_pending g)) \<longleftrightarrow> (k, st) \<in> set es"
  by (force simp: groups_def)

lemma sort_eq_Nil: "sort xs = [] \<longleftrightarrow> xs = []"
  by (metis set_empty set_sort)

lemma groups_shape:
  "sorted_wrt (<) (map st_stage (groups es))"
  "g \<in> set (groups es) \<Longrightarrow> st_pending g \<noteq> [] \<and> sorted (st_pending g) \<and> st_dispositions g = []"
  by (auto simp: groups_def o_def filter_empty_conv image_iff sort_eq_Nil) force

text \<open>C35. The partition, described device by device: a device is pending at a stage exactly when the
  envelope is wrapped for its key and it has full access or a current certificate whose receive matcher
  lets the sender through, and the stage is the one its certificate declares (1 if it declares none), for
  full-access devices one more than the last stage any delegate declares. The stages come in strictly
  increasing order, none of them empty, with the ids of each stage sorted: what the runner requires.\<close>

theorem partition_stages_exact:
  "((\<exists>g \<in> set (partitionStages lower dir provider wanted sender). st_stage g = st \<and> k \<in> set (st_pending g)) \<longleftrightarrow>
     (\<exists>d \<in> set (dd_devices dir). receives lower provider wanted sender d \<and> de_device_id d = k
        \<and> stageOf provider (dd_devices dir) d = st))
   \<and> sorted_wrt (<) (map st_stage (partitionStages lower dir provider wanted sender))
   \<and> cleanStages (partitionStages lower dir provider wanted sender) = partitionStages lower dir provider wanted sender
   \<and> (\<forall>g \<in> set (partitionStages lower dir provider wanted sender). sorted (st_pending g))"
proof -
  let ?g = "groups (eligible lower provider wanted sender (dd_devices dir))"
  have "cleanStages ?g = ?g"
    unfolding cleanStages_def
    by (subst filter_True) (use groups_shape(2) in \<open>auto intro!: map_idI simp: held_stage.equality\<close>)
  then show ?thesis
    unfolding partitionStages_eq groups_iff eligible_iff using groups_shape by blast
qed

lemma declared_le_last: "d \<in> set devs \<Longrightarrow> declared provider d \<le> lastDeclared provider devs"
  unfolding lastDeclared_def Max.set_eq_fold [symmetric] by simp

lemma last_nonpositive: "(\<And>d. d \<in> set devs \<Longrightarrow> declared provider d \<le> 0) \<Longrightarrow> lastDeclared provider devs = 0"
proof -
  have "(\<forall>x \<in> set xs. x \<le> 0) \<Longrightarrow> fold max xs (0 :: int) = 0" for xs by (induction xs) auto
  then show "(\<And>d. d \<in> set devs \<Longrightarrow> declared provider d \<le> 0) \<Longrightarrow> ?thesis" by (simp add: lastDeclared_def)
qed

text \<open>Full-access devices wait for the delegates only where certificates declare their stages. When
  every delegate of the account that may receive declares a stage, each full-access device is at a later
  stage than each delegate; when none declares one, which validation permits, the fallback stage 1 is
  the stage of the full-access devices too, and the envelope goes to all of them at once.\<close>

theorem full_access_waits_for_declared_stages:
  assumes "d \<in> set devs" "\<not> fullAccess d" "receives lower provider wanted sender d"
    and "f \<in> set devs" "fullAccess f"
  shows "(\<forall>x \<in> set devs. \<not> fullAccess x \<longrightarrow> receives lower provider wanted sender x \<longrightarrow> 1 \<le> declared provider x) \<longrightarrow>
       stageOf provider devs d < stageOf provider devs f"
    and "(\<forall>x \<in> set devs. declared provider x \<le> 0) \<longrightarrow>
       stageOf provider devs d = 1 \<and> stageOf provider devs f = 1 \<and>
       (dd_devices dir = devs \<longrightarrow> (\<forall>g \<in> set (partitionStages lower dir provider wanted sender). st_stage g = 1))"
proof -
  show "(\<forall>x \<in> set devs. \<not> fullAccess x \<longrightarrow> receives lower provider wanted sender x \<longrightarrow> 1 \<le> declared provider x) \<longrightarrow>
       stageOf provider devs d < stageOf provider devs f"
    using assms declared_le_last [OF assms(1), of provider] by (auto simp: stageOf_def)
  show "(\<forall>x \<in> set devs. declared provider x \<le> 0) \<longrightarrow>
       stageOf provider devs d = 1 \<and> stageOf provider devs f = 1 \<and>
       (dd_devices dir = devs \<longrightarrow> (\<forall>g \<in> set (partitionStages lower dir provider wanted sender). st_stage g = 1))"
  proof
    assume z: "\<forall>x \<in> set devs. declared provider x \<le> 0"
    then have one: "stageOf provider devs x = 1" if "x \<in> set devs" for x
      using that last_nonpositive [of devs provider] by (auto simp: stageOf_def)
    have "st_stage g = 1" if "dd_devices dir = devs" "g \<in> set (partitionStages lower dir provider wanted sender)" for g
    proof -
      from that(2) groups_shape(2) obtain k where "k \<in> set (st_pending g)"
        unfolding partitionStages_eq by (meson all_not_in_conv set_empty)
      with that have "(k, st_stage g) \<in> set (eligible lower provider wanted sender devs)"
        unfolding partitionStages_eq groups_iff [symmetric] by blast
      with one show ?thesis by (auto simp: eligible_iff)
    qed
    with one assms show "stageOf provider devs d = 1 \<and> stageOf provider devs f = 1 \<and>
       (dd_devices dir = devs \<longrightarrow> (\<forall>g \<in> set (partitionStages lower dir provider wanted sender). st_stage g = 1))" by blast
  qed
qed

definition demo_entry :: "string \<Rightarrow> string \<Rightarrow> directory_entry" where
  "demo_entry k role = \<lparr>de_device_id = js k, de_device_public_key = js k, de_device_identity_pubkey_algorithm = js ''a'',
     de_role = js role, de_certificate_id = None, de_enrolled_at = js ''0'', de_device_name = js ''n'',
     de_device_type = js ''t''\<rparr>"

definition demo_provider :: "jstr \<Rightarrow> device_certificate option" where
  "demo_provider k = Some demo_certificate"

theorem full_access_waits_for_declared_stages_witness:
  "stageOf demo_provider [demo_entry ''d'' ''delegated'', demo_entry ''f'' ''full_access''] (demo_entry ''d'' ''delegated'')
     < stageOf demo_provider [demo_entry ''d'' ''delegated'', demo_entry ''f'' ''full_access''] (demo_entry ''f'' ''full_access'')"
proof -
  let ?d = "demo_entry ''d'' ''delegated''" and ?f = "demo_entry ''f'' ''full_access''"
  have a: "?d \<in> set [?d, ?f]" "\<not> fullAccess ?d"
      "receives id demo_provider (\<lambda>_. True) \<lparr>ai_address = js ''m'', ai_server = None\<rparr> ?d" "?f \<in> set [?d, ?f]" "fullAccess ?f"
    by (simp_all add: fullAccess_def demo_entry_def receives_def demo_provider_def demo_certificate_def plain_matcher_def
        scopeAllowsSender_def scopeAllowsRecipient_def)
  have "\<forall>x \<in> set [?d, ?f]. \<not> fullAccess x \<longrightarrow> receives id demo_provider (\<lambda>_. True) \<lparr>ai_address = js ''m'', ai_server = None\<rparr> x
      \<longrightarrow> 1 \<le> declared demo_provider x"
    by (simp add: fullAccess_def demo_entry_def declared_def demo_provider_def demo_certificate_def plain_matcher_def)
  with full_access_waits_for_declared_stages(1) [OF a] show ?thesis by blast
qed

definition demo_directory :: "directory_entry list \<Rightarrow> device_directory" where
  "demo_directory devs = \<lparr>dd_type = [], dd_version = [], dd_user_id = [], dd_revision = 1, dd_issued_at = [],
     dd_devices = devs, dd_signature = \<lparr>ks_algorithm = [], ks_key_id = [], ks_value = []\<rparr>\<rparr>"

theorem partition_stages_exact_witness:
  "\<exists>g \<in> set (partitionStages id (demo_directory [demo_entry ''d'' ''delegated'', demo_entry ''f'' ''full_access''])
      demo_provider (\<lambda>_. True) \<lparr>ai_address = js ''m'', ai_server = None\<rparr>). st_stage g = 2 \<and> js ''f'' \<in> set (st_pending g)"
proof -
  let ?f = "demo_entry ''f'' ''full_access''" and ?s = "\<lparr>ai_address = js ''m'', ai_server = None\<rparr>"
  let ?dir = "demo_directory [demo_entry ''d'' ''delegated'', ?f]"
  have "?f \<in> set (dd_devices ?dir)" "receives id demo_provider (\<lambda>_. True) ?s ?f" "de_device_id ?f = js ''f''"
    "stageOf demo_provider (dd_devices ?dir) ?f = 2"
    by (simp_all add: demo_directory_def receives_def fullAccess_def stageOf_def lastDeclared_def declared_def demo_entry_def
        demo_provider_def demo_certificate_def plain_matcher_def js_def)
  with partition_stages_exact [where st = 2 and k = "js ''f''" and lower = id and dir = ?dir and provider = demo_provider
      and wanted = "\<lambda>_. True" and sender = ?s] show ?thesis by blast
qed

end
