(* ===== verification/StagingProofs.thy ===== *)
theory StagingProofs
  imports Staging
begin

text \<open>
  The runner: what one tick does with every held envelope, how long an envelope can be held, and what
  re-evaluating a partition in flight can break.
\<close>

section \<open>One tick\<close>

lemma advanceAll_Cons:
  "fst (advanceAll parseDate isoSecond timeout now ((k, r) # m)) =
     (case fst (advanceHeld parseDate isoSecond timeout now k r) of
        None \<Rightarrow> fst (advanceAll parseDate isoSecond timeout now m)
      | Some r' \<Rightarrow> (k, r') # fst (advanceAll parseDate isoSecond timeout now m))"
  "snd (advanceAll parseDate isoSecond timeout now ((k, r) # m)) =
     snd (advanceHeld parseDate isoSecond timeout now k r) @ snd (advanceAll parseDate isoSecond timeout now m)"
  by (simp_all add: Let_def prod.case_eq_if)

declare advanceAll.simps(2) [simp del]

lemma advanceAll_keys: "fst ` set (fst (advanceAll parseDate isoSecond timeout now m)) \<subseteq> fst ` set m"
proof (induction m)
  case (Cons p m)
  obtain k r where p: "p = (k, r)" by (cases p)
  have "fst ` set (case x of None \<Rightarrow> a | Some r' \<Rightarrow> (k, r') # a) \<subseteq> insert k (fst ` set a)"
    for x and a :: "(jstr, staged_held) jsmap" by (cases x) auto
  from subset_trans [OF this insert_mono [OF Cons.IH]] show ?case by (simp add: p advanceAll_Cons)
qed simp

lemma advanceAll_absent: "k \<notin> fst ` set m \<Longrightarrow> jsm_get (fst (advanceAll parseDate isoSecond timeout now m)) k = None"
  using advanceAll_keys [of parseDate isoSecond timeout now m] by (simp add: map_of_eq_None_iff subset_iff) blast

lemma advanceAll_get:
  "jsm_ok m \<Longrightarrow> jsm_get (fst (advanceAll parseDate isoSecond timeout now m)) k =
     (case jsm_get m k of None \<Rightarrow> None | Some r \<Rightarrow> fst (advanceHeld parseDate isoSecond timeout now k r))"
proof (induction m)
  case (Cons p m)
  obtain k' r where p: "p = (k', r)" by (cases p)
  from Cons.prems p have n: "k' \<notin> fst ` set m" "jsm_ok m" by (simp_all add: jsm_ok_Cons)
  show ?case
    using Cons.IH [OF n(2)] advanceAll_absent [OF n(1), of parseDate isoSecond timeout now]
    by (auto simp: p advanceAll_Cons split: option.splits)
qed simp

lemma advanceAll_ok: "jsm_ok m \<Longrightarrow> jsm_ok (fst (advanceAll parseDate isoSecond timeout now m))"
proof (induction m)
  case (Cons p m)
  obtain k' r where p: "p = (k', r)" by (cases p)
  show ?case using Cons advanceAll_keys [of parseDate isoSecond timeout now m]
    by (auto simp: p advanceAll_Cons jsm_ok_Cons simp del: map_of_eq_None_iff split: option.splits)
qed simp

lemma advanceHeld_calls:
  "c \<in> set (snd (advanceHeld parseDate isoSecond timeout now k r)) \<Longrightarrow> callEnvelope c = k"
  by (auto simp: advanceHeld_def split: list.splits if_splits)

lemma advanceHeld_one: "length (snd (advanceHeld parseDate isoSecond timeout now k r)) \<le> 1"
  by (auto simp: advanceHeld_def split: list.splits)

lemma advanceAll_calls:
  "jsm_ok m \<Longrightarrow> filter (\<lambda>c. callEnvelope c = k) (snd (advanceAll parseDate isoSecond timeout now m)) =
     (case jsm_get m k of None \<Rightarrow> [] | Some r \<Rightarrow> snd (advanceHeld parseDate isoSecond timeout now k r))"
proof (induction m)
  case (Cons p m)
  obtain k' r where p: "p = (k', r)" by (cases p)
  with Cons.prems have n: "jsm_get m k' = None" "jsm_ok m" by (auto simp: jsm_ok_Cons map_of_eq_None_iff)
  have f: "filter (\<lambda>c. callEnvelope c = k) (snd (advanceHeld parseDate isoSecond timeout now k' r)) =
      (if k = k' then snd (advanceHeld parseDate isoSecond timeout now k' r) else [])"
    using advanceHeld_calls [of _ parseDate isoSecond timeout now k' r]
    by (auto simp: filter_empty_conv filter_id_conv)
  show ?case using Cons.IH [OF n(2)] f n(1)
    by (auto simp: p advanceAll_Cons split: option.splits)
qed simp

lemma runCalls_state:
  "fst (runCalls fails cs e s) = s\<lparr>ru_calls := ru_calls s @ cs\<rparr>"
proof (induction cs arbitrary: e s)
  case (Cons c cs)
  show ?case by (auto simp: invoke_def Cons.IH split: prod.splits sum.splits)
qed simp

text \<open>The calls a tick makes, and those about one envelope.\<close>

definition newCalls :: "staged_runner \<Rightarrow> staged_runner \<Rightarrow> stage_call list" where
  "newCalls s s' = drop (length (ru_calls s)) (ru_calls s')"

definition callsFor :: "jstr \<Rightarrow> stage_call list \<Rightarrow> stage_call list" where
  "callsFor k cs = filter (\<lambda>c. callEnvelope c = k) cs"

lemma stagedTick_state:
  "fst (stagedTick parseDate isoSecond fails now s) =
     s\<lparr>ru_held := fst (advanceAll parseDate isoSecond (ru_stageTimeoutMs s) now (ru_held s)),
       ru_calls := ru_calls s @ sort_key callEnvelope (snd (advanceAll parseDate isoSecond (ru_stageTimeoutMs s) now (ru_held s)))\<rparr>"
  using runCalls_state by (simp add: stagedTick_def Let_def prod.case_eq_if)

lemma tick_envelope:
  assumes "jsm_ok (ru_held s)"
  shows "jsm_get (ru_held (fst (stagedTick parseDate isoSecond fails now s))) k =
      (case jsm_get (ru_held s) k of None \<Rightarrow> None
       | Some r \<Rightarrow> fst (advanceHeld parseDate isoSecond (ru_stageTimeoutMs s) now k r))"
    and "callsFor k (newCalls s (fst (stagedTick parseDate isoSecond fails now s))) =
      (case jsm_get (ru_held s) k of None \<Rightarrow> []
       | Some r \<Rightarrow> snd (advanceHeld parseDate isoSecond (ru_stageTimeoutMs s) now k r))"
    and "jsm_ok (ru_held (fst (stagedTick parseDate isoSecond fails now s)))"
    and "ru_stageTimeoutMs (fst (stagedTick parseDate isoSecond fails now s)) = ru_stageTimeoutMs s"
proof -
  let ?a = "advanceAll parseDate isoSecond (ru_stageTimeoutMs s) now (ru_held s)"
  have t: "fst (stagedTick parseDate isoSecond fails now s)
      = s\<lparr>ru_held := fst ?a, ru_calls := ru_calls s @ sort_key callEnvelope (snd ?a)\<rparr>"
    by (simp add: stagedTick_state)
  have one: "sort_key callEnvelope cs = cs" if "length cs \<le> 1" for cs
    using that by (cases cs) auto
  have "length (filter (\<lambda>c. callEnvelope c = k) (snd ?a)) \<le> 1"
    unfolding advanceAll_calls [OF assms] using advanceHeld_one by (auto split: option.splits)
  then show "callsFor k (newCalls s (fst (stagedTick parseDate isoSecond fails now s))) =
      (case jsm_get (ru_held s) k of None \<Rightarrow> []
       | Some r \<Rightarrow> snd (advanceHeld parseDate isoSecond (ru_stageTimeoutMs s) now k r))"
    unfolding t by (simp add: callsFor_def newCalls_def filter_sort one advanceAll_calls [OF assms])
qed (simp_all add: stagedTick_state advanceAll_get assms advanceAll_ok)

lemma aggregate_iff: "aggregateDispositions ds = Suppress \<longleftrightarrow> (\<exists>d \<in> set ds. dp_disposition d = js ''suppress'')"
  by (induction ds) auto

text \<open>C36. One tick decides every held envelope on its own. While its current stage still waits it is left
  alone. Once the stage is complete (every pending device has voted, or the deadline has passed), one vote
  to suppress drops the envelope and calls \<open>suppress\<close>, and nothing else; without one, the envelope
  moves on: to the next stage, delivered to exactly the pending devices of that stage with a fresh
  deadline, or, after the last stage, out of the queue with \<open>complete\<close>.\<close>

theorem tick_decides_each_envelope:
  assumes "jsm_ok (ru_held s)" and "jsm_get (ru_held s) k = Some r" and "sh_stages r = current # later"
    and "s' = fst (stagedTick parseDate isoSecond fails now s)"
  shows "if \<not> isStageComplete parseDate current now (sh_deadline r)
     then jsm_get (ru_held s') k = Some r \<and> callsFor k (newCalls s s') = []
     else if \<exists>d \<in> set (st_dispositions current). dp_disposition d = js ''suppress''
     then \<not> isHeld k s' \<and> callsFor k (newCalls s s') = [SuppressCall k (st_stage current)]
     else case later of
         [] \<Rightarrow> \<not> isHeld k s' \<and> callsFor k (newCalls s s') = [Complete k]
       | nxt # rest \<Rightarrow>
           jsm_get (ru_held s') k = Some (r\<lparr>sh_stages := later, sh_deadline := isoSecond (now + ru_stageTimeoutMs s)\<rparr>)
           \<and> callsFor k (newCalls s s') = [Deliver k (st_stage nxt) (st_pending nxt)]"
  unfolding assms(4) isHeld_def tick_envelope [OF assms(1)]
  by (cases later) (simp_all add: assms(2,3) advanceHeld_def aggregate_iff)

section \<open>How long an envelope is held\<close>

definition stagedTicks ::
  "(jstr \<Rightarrow> time option) \<Rightarrow> (time \<Rightarrow> jstr) \<Rightarrow> (stage_call list \<Rightarrow> stage_call \<Rightarrow> bool) \<Rightarrow> time list \<Rightarrow> staged_runner \<Rightarrow> staged_runner"
where
  "stagedTicks parseDate isoSecond fails ts s = foldl (\<lambda>s t. fst (stagedTick parseDate isoSecond fails t s)) s ts"

text \<open>Ticks of which the first comes at the deadline or later and each at least a timeout after the last.\<close>

fun spaced :: "int \<Rightarrow> time \<Rightarrow> time list \<Rightarrow> bool" where
  "spaced timeout d [] = True"
| "spaced timeout d (t # ts) = (d \<le> t \<and> spaced timeout (t + timeout) ts)"

text \<open>What is used of dates: the ISO form is not empty and reads back as a time not after it.\<close>

definition iso_ok :: "(jstr \<Rightarrow> time option) \<Rightarrow> (time \<Rightarrow> jstr) \<Rightarrow> bool" where
  "iso_ok parseDate isoSecond \<longleftrightarrow> (\<forall>t. isoSecond t \<noteq> [] \<and> (\<exists>d. parseDate (isoSecond t) = Some d \<and> d \<le> t))"

lemma ticks_gone:
  "jsm_ok (ru_held s) \<Longrightarrow> jsm_get (ru_held s) k = None \<Longrightarrow>
   jsm_get (ru_held (stagedTicks parseDate isoSecond fails ts s)) k = None"
proof (induction ts arbitrary: s)
  case (Cons t ts)
  have "jsm_get (ru_held (fst (stagedTick parseDate isoSecond fails t s))) k = None"
    using tick_envelope(1) [OF Cons.prems(1)] Cons.prems(2) by simp
  from Cons.IH [OF tick_envelope(3) [OF Cons.prems(1)] this] show ?case by (simp add: stagedTicks_def)
qed (simp add: stagedTicks_def)

lemma ticks_drain:
  assumes "iso_ok parseDate isoSecond"
  shows "jsm_ok (ru_held s) \<Longrightarrow> jsm_get (ru_held s) k = Some r \<Longrightarrow> sh_stages r \<noteq> [] \<Longrightarrow> sh_deadline r \<noteq> [] \<Longrightarrow>
     parseDate (sh_deadline r) = Some d \<Longrightarrow> length (sh_stages r) \<le> length ts \<Longrightarrow> spaced (ru_stageTimeoutMs s) d ts \<Longrightarrow>
     jsm_get (ru_held (stagedTicks parseDate isoSecond fails ts s)) k = None"
proof (induction ts arbitrary: s r d)
  case (Cons t ts)
  let ?s = "fst (stagedTick parseDate isoSecond fails t s)"
  obtain current later where st: "sh_stages r = current # later" using Cons.prems(3) by (cases "sh_stages r") auto
  have c: "isStageComplete parseDate current t (sh_deadline r)"
    using Cons.prems(4,5,7) by (simp add: isStageComplete_def)
  have go: "stagedTicks parseDate isoSecond fails (t # ts) s = stagedTicks parseDate isoSecond fails ts ?s"
    by (simp add: stagedTicks_def)
  have ok: "jsm_ok (ru_held ?s)" "ru_stageTimeoutMs ?s = ru_stageTimeoutMs s"
    using tick_envelope(3,4) [OF Cons.prems(1)] by simp_all
  consider (out) "jsm_get (ru_held ?s) k = None"
    | (moves) nxt rest where "later = nxt # rest"
        "jsm_get (ru_held ?s) k = Some (r\<lparr>sh_stages := later, sh_deadline := isoSecond (t + ru_stageTimeoutMs s)\<rparr>)"
    unfolding tick_envelope(1) [OF Cons.prems(1)]
    by (cases later; cases "aggregateDispositions (st_dispositions current)")
      (simp_all add: Cons.prems(2) st advanceHeld_def c)
  then show ?case
  proof cases
    case out
    then show ?thesis unfolding go by (rule ticks_gone [OF ok(1)])
  next
    case (moves nxt rest)
    obtain d' where d': "isoSecond (t + ru_stageTimeoutMs s) \<noteq> []"
        "parseDate (isoSecond (t + ru_stageTimeoutMs s)) = Some d'" "d' \<le> t + ru_stageTimeoutMs s"
      using assms by (auto simp: iso_ok_def)
    have "spaced (ru_stageTimeoutMs s) d' ts" using Cons.prems(7) d'(3) by (cases ts) auto
    with moves d' ok Cons.prems(6) st show ?thesis
      unfolding go by (intro Cons.IH [OF ok(1) moves(2), where d = d']) simp_all
  qed
qed simp


section \<open>Re-evaluation in flight\<close>

lemma reevaluate_state:
  assumes "k \<noteq> []" "jsm_get (ru_held s) k = Some r" "sh_stages r = current # later"
    and "rebuilt = map (\<lambda>s. s\<lparr>st_dispositions := (if st_stage s = st_stage current then st_dispositions current else [])\<rparr>)
       (filter (\<lambda>s. st_pending s \<noteq> []) (sort_key st_stage (filter (\<lambda>s. st_stage s \<ge> st_stage current) newStages)))"
  shows "reevaluate k newStages s = (s\<lparr>ru_held := jsm_set k (r\<lparr>sh_stages := rebuilt\<rparr>) (ru_held s)\<rparr>, Inr ())"
  using assms(1-3) by (simp add: reevaluate_def Let_def assms(4))

lemma ticks_empty_stages:
  "jsm_ok (ru_held s) \<Longrightarrow> jsm_get (ru_held s) k = Some r \<Longrightarrow> sh_stages r = [] \<Longrightarrow>
   jsm_get (ru_held (stagedTicks parseDate isoSecond fails ts s)) k = Some r \<and>
   callsFor k (newCalls s (stagedTicks parseDate isoSecond fails ts s)) = []"
proof (induction ts arbitrary: s)
  case (Cons t ts)
  let ?s = "fst (stagedTick parseDate isoSecond fails t s)"
  let ?s' = "stagedTicks parseDate isoSecond fails ts ?s"
  have g: "jsm_get (ru_held ?s) k = Some r" "callsFor k (newCalls s ?s) = []" "jsm_ok (ru_held ?s)"
    using tick_envelope [OF Cons.prems(1)] Cons.prems(2,3) by (simp_all add: advanceHeld_def)
  have ext: "\<exists>cs. ru_calls (stagedTicks parseDate isoSecond fails ts s) = ru_calls s @ cs" for s
  proof (induction ts arbitrary: s)
    case (Cons t ts)
    from Cons [of "fst (stagedTick parseDate isoSecond fails t s)"] show ?case
      by (auto simp: stagedTicks_def stagedTick_state)
  qed (simp add: stagedTicks_def)
  obtain cs where cs: "ru_calls ?s' = ru_calls ?s @ cs" using ext by blast
  obtain cs0 where "ru_calls ?s = ru_calls s @ cs0" by (simp add: stagedTick_state)
  with cs have "newCalls s ?s' = newCalls s ?s @ newCalls ?s ?s'" by (simp add: newCalls_def)
  with Cons.IH [OF g(3) g(1) Cons.prems(3)] g(2) show ?case by (simp add: stagedTicks_def callsFor_def)
qed (simp add: stagedTicks_def newCalls_def callsFor_def)

text \<open>When a re-evaluation leaves no device at the current or a later stage, the comment in the code
  trusts the next tick to notice that the envelope is done; \<open>tick\<close> skips records without stages
  instead. The envelope then stays in the queue for good: no tick removes it or makes a call about it,
  it is never completed, no vote is taken for it and it cannot be held again.\<close>

theorem reevaluate_to_nothing_never_completes:
  assumes "jsm_ok (ru_held s)" "jsm_get (ru_held s) k = Some r" "sh_stages r = current # later" "k \<noteq> []"
    and "\<forall>g \<in> set newStages. st_stage g < st_stage current \<or> st_pending g = []"
    and "s' = fst (reevaluate k newStages s)" and "s'' = stagedTicks parseDate isoSecond fails ts s'"
  shows "isHeld k s'' \<and> callsFor k (newCalls s' s'') = []
    \<and> (\<forall>stages. snd (hold isoSecond fails now k stages s'') \<noteq> Inr ())
    \<and> (\<forall>d who. snd (ingestDisposition k who d s'') \<noteq> Inr ())"
proof -
  have "reevaluate k newStages s = (s\<lparr>ru_held := jsm_set k (r\<lparr>sh_stages := []\<rparr>) (ru_held s)\<rparr>, Inr ())"
    by (rule reevaluate_state [OF assms(4,2,3)]) (use assms(5) in \<open>auto simp: filter_empty_conv\<close>)
  with assms(1,6) have "jsm_ok (ru_held s')" "jsm_get (ru_held s') k = Some (r\<lparr>sh_stages := []\<rparr>)" by simp_all
  from ticks_empty_stages [OF this, of parseDate isoSecond fails ts]
  have g: "jsm_get (ru_held s'') k = Some (r\<lparr>sh_stages := []\<rparr>)" "callsFor k (newCalls s' s'') = []"
    by (simp_all add: assms(7))
  have "snd (hold isoSecond fails now k stages s'') \<noteq> Inr ()" for stages
    using g(1) assms(4) by (simp add: hold_def Let_def throwIf_step)
  moreover have "snd (ingestDisposition k who d s'') \<noteq> Inr ()" for who d
    using g(1) by (cases "validateDisposition d") (simp_all add: ingestDisposition_def throwIf_step)
  ultimately show ?thesis using g by (simp add: isHeld_def)
qed

text \<open>A re-evaluation that drops the current stage makes a later one current without delivering to
  it: the runner delivers a stage only when \<open>tick\<close> moves to it. When the deadline of the dropped stage
  passes, the envelope is moved past the stage that was never delivered, here to completion.\<close>

theorem reevaluate_skips_delivery:
  assumes "jsm_ok (ru_held s)" "jsm_get (ru_held s) k = Some r" "sh_stages r = current # later" "k \<noteq> []"
    and "st_stage current < st_stage g" "st_pending g \<noteq> []"
    and "sh_deadline r \<noteq> []" "parseDate (sh_deadline r) = Some d" "d \<le> now"
    and "s' = fst (reevaluate k [g] s)" and "s'' = fst (stagedTick parseDate isoSecond fails now s')"
  shows "ru_calls s' = ru_calls s \<and> callsFor k (newCalls s' s'') = [Complete k] \<and> \<not> isHeld k s''"
proof -
  have "reevaluate k [g] s = (s\<lparr>ru_held := jsm_set k (r\<lparr>sh_stages := [g\<lparr>st_dispositions := []\<rparr>]\<rparr>) (ru_held s)\<rparr>, Inr ())"
    by (rule reevaluate_state [OF assms(4,2,3)]) (use assms(5,6) in simp)
  with assms(1,10) have o: "jsm_ok (ru_held s')" "jsm_get (ru_held s') k = Some (r\<lparr>sh_stages := [g\<lparr>st_dispositions := []\<rparr>]\<rparr>)"
      "ru_calls s' = ru_calls s" by simp_all
  have "isStageComplete parseDate (g\<lparr>st_dispositions := []\<rparr>) now (sh_deadline r)"
    using assms(7-9) by (simp add: isStageComplete_def)
  then show ?thesis
    using o(2,3) by (simp add: assms(11) isHeld_def advanceHeld_def tick_envelope(1,2) [OF o(1)])
qed

section \<open>Witnesses\<close>

definition demo_clock :: "jstr \<Rightarrow> time option" where
  "demo_clock s = (case s of [] \<Rightarrow> None | c # cs \<Rightarrow> Some (if c = 45 then - int (length cs) else int (length cs)))"

lemma demo_iso: "iso_ok demo_clock demo_numstr"
  by (simp add: iso_ok_def demo_clock_def demo_numstr_def)

definition demo_record :: staged_held where
  "demo_record = \<lparr>sh_envelope_id = js ''e'', sh_stages =
      [\<lparr>st_stage = 1, st_pending = [js ''a''], st_dispositions = []\<rparr>, \<lparr>st_stage = 2, st_pending = [js ''b''], st_dispositions = []\<rparr>],
      sh_deadline = [48]\<rparr>"

definition demo_held :: staged_runner where
  "demo_held = \<lparr>ru_stageTimeoutMs = 30000, ru_held = [(js ''e'', demo_record)], ru_calls = []\<rparr>"

lemma demo_held: "jsm_ok (ru_held demo_held)" "jsm_get (ru_held demo_held) (js ''e'') = Some demo_record"
    "sh_deadline demo_record \<noteq> []" "demo_clock (sh_deadline demo_record) = Some 0"
    "sh_stages demo_record = \<lparr>st_stage = 1, st_pending = [js ''a''], st_dispositions = []\<rparr> #
       [\<lparr>st_stage = 2, st_pending = [js ''b''], st_dispositions = []\<rparr>]"
  by (simp_all add: demo_held_def demo_record_def demo_clock_def jsm_ok_def)

theorem tick_decides_each_envelope_witness:
  "callsFor (js ''e'') (newCalls demo_held (fst (stagedTick demo_clock demo_numstr (\<lambda>_ _. False) 5 demo_held)))
     = [Deliver (js ''e'') 2 [js ''b'']]"
proof -
  have "isStageComplete demo_clock \<lparr>st_stage = 1, st_pending = [js ''a''], st_dispositions = []\<rparr> 5 (sh_deadline demo_record)"
    by (simp add: isStageComplete_def demo_held)
  with tick_decides_each_envelope [OF demo_held(1,2,5) refl,
      where parseDate = demo_clock and isoSecond = demo_numstr and fails = "\<lambda>_ _. False" and now = 5] show ?thesis by simp
qed


theorem reevaluate_to_nothing_never_completes_witness:
  "isHeld (js ''e'') (stagedTicks demo_clock demo_numstr (\<lambda>_ _. False) [10 ^ 9] (fst (reevaluate (js ''e'') [] demo_held)))"
  using reevaluate_to_nothing_never_completes [OF demo_held(1,2,5), of "[]"] by auto

theorem reevaluate_skips_delivery_witness:
  "\<not> isHeld (js ''e'') (fst (stagedTick demo_clock demo_numstr (\<lambda>_ _. False) 0
     (fst (reevaluate (js ''e'') [\<lparr>st_stage = 2, st_pending = [js ''b''], st_dispositions = []\<rparr>] demo_held))))"
proof -
  let ?g = "\<lparr>st_stage = 2, st_pending = [js ''b''], st_dispositions = []\<rparr>"
  have "js ''e'' \<noteq> []" "st_stage \<lparr>st_stage = 1, st_pending = [js ''a''], st_dispositions = []\<rparr> < st_stage ?g"
      "st_pending ?g \<noteq> []" by simp_all
  note w = reevaluate_skips_delivery [where g = ?g and s = demo_held and k = "js ''e''" and r = demo_record and parseDate = demo_clock and d = 0 and now = 0, OF demo_held(1,2,5) this demo_held(3,4)]
  from w [OF order_refl refl refl] show ?thesis by blast
qed

end
