(* ===== verification/UserPolicy.thy ===== *)
theory UserPolicy
  imports SignedRecords
begin

text \<open>
  User policies, \<^verbatim>\<open>src/src/delivery/user_policy.ts\<close> and \<^verbatim>\<open>policy_state.ts\<close>: the signed update message
  and the per-user state it is applied to. Entries are JSON values, \<open>None\<close> for \<open>undefined\<close>, on which
  the deep copies of the code are the identity. An error of the validator about one operation carries its
  index, which the code recovers from the text of the message (\<open>classifyOpInvalid\<close>).
\<close>

section \<open>The update message\<close>

definition UserPolicyType :: jstr where "UserPolicyType = js ''SEMP_USER_POLICY''"
definition UserPolicyStep :: jstr where "UserPolicyStep = js ''update''"
definition UserPolicyVersion :: jstr where "UserPolicyVersion = js ''1.0.0''"
definition UserPolicyPrefix :: jstr where "UserPolicyPrefix = js ''SEMP-USER-POLICY:''"
definition PolicyKindBlock :: jstr where "PolicyKindBlock = js ''semp.dev/block''"
definition PolicyKindAcceptedSender :: jstr where "PolicyKindAcceptedSender = js ''semp.dev/accepted_sender''"
definition PolicyKindFirstContact :: jstr where "PolicyKindFirstContact = js ''semp.dev/first_contact''"

record 'n policy_operation =
  po_op :: jstr
  po_kind :: jstr
  po_entry_id :: "jstr option"
  po_entry :: "'n jsv"

record 'n user_policy_message =
  up_type :: jstr
  up_step :: jstr
  up_version :: jstr
  up_user_id :: jstr
  up_device_id :: jstr
  up_policy_version :: int
  up_timestamp :: jstr
  up_operations :: "'n policy_operation list"
  up_signature :: keys_signature

definition missing :: "'n jsv \<Rightarrow> bool" where
  "missing v \<longleftrightarrow> v = None \<or> v = Some JNull"

definition given :: "jstr option \<Rightarrow> bool" where
  "given x \<longleftrightarrow> x \<noteq> None \<and> x \<noteq> Some []"

definition validateOp :: "'n policy_operation \<Rightarrow> nat \<Rightarrow> record_error + unit" where
  "validateOp op i =
     (if po_op op \<noteq> js ''add'' \<and> po_op op \<noteq> js ''remove'' \<and> po_op op \<noteq> js ''modify'' then
        Inl (InvalidAt i ''op is not in the closed set {add, remove, modify}'')
      else if po_kind op = [] then Inl (InvalidAt i ''missing kind'')
      else if po_kind op = PolicyKindFirstContact \<and> po_op op \<noteq> js ''modify'' then
        Inl (InvalidAt i ''singleton kind accepts only modify'')
      else if po_kind op = PolicyKindFirstContact \<and> given (po_entry_id op) then
        Inl (InvalidAt i ''singleton kind MUST NOT carry entry_id'')
      else if po_kind op = PolicyKindFirstContact \<and> missing (po_entry op) then
        Inl (InvalidAt i ''singleton kind modify MUST carry entry'')
      else if po_op op = js ''remove'' \<and> \<not> given (po_entry_id op) then
        Inl (InvalidAt i ''remove op MUST set entry_id'')
      else if po_op op = js ''add'' \<and> missing (po_entry op) then
        Inl (InvalidAt i ''add op MUST carry entry'')
      else Inr ())"

fun validateOps :: "nat \<Rightarrow> 'n policy_operation list \<Rightarrow> record_error + unit" where
  "validateOps i [] = Inr ()"
| "validateOps i (op # ops) = bindR (validateOp op i) (\<lambda>_. validateOps (i + 1) ops)"

definition validateUserPolicyMessage ::
  "(jstr \<Rightarrow> time option) \<Rightarrow> bool \<Rightarrow> 'n user_policy_message \<Rightarrow> record_error + unit"
where
  "validateUserPolicyMessage parseDate skipSignatureCheck m =
     bindR (checks
       [(up_type m = UserPolicyType, ''wrong type''), (up_step m = UserPolicyStep, ''wrong step''),
        (up_user_id m \<noteq> [], ''missing user_id''), (up_device_id m \<noteq> [], ''missing device_id''),
        (up_policy_version m \<ge> 1, ''policy_version MUST be >= 1''), (up_timestamp m \<noteq> [], ''missing timestamp''),
        (parseDate (up_timestamp m) \<noteq> None, ''timestamp is not ISO 8601''),
        (up_operations m \<noteq> [], ''operations MUST be non-empty'')]) (\<lambda>_.
     bindR (validateOps 0 (up_operations m)) (\<lambda>_.
     checks [(skipSignatureCheck \<or> ks_value (up_signature m) \<noteq> [], ''user policy is unsigned'')]))"

definition operation_json :: "'n policy_operation \<Rightarrow> 'n json" where
  "operation_json op = JObj ([(js ''op'', JStr (po_op op)), (js ''kind'', JStr (po_kind op))] @
     optional ''entry_id'' JStr (po_entry_id op) @ optional ''entry'' id (po_entry op))"

definition policy_json :: "(int \<Rightarrow> 'n) \<Rightarrow> 'n user_policy_message \<Rightarrow> 'n obj" where
  "policy_json num m =
     [(js ''type'', JStr (up_type m)), (js ''step'', JStr (up_step m)), (js ''version'', JStr (up_version m)),
      (js ''user_id'', JStr (up_user_id m)), (js ''device_id'', JStr (up_device_id m)),
      (js ''policy_version'', JNum (num (up_policy_version m))), (js ''timestamp'', JStr (up_timestamp m)),
      (js ''operations'', JArr (map operation_json (up_operations m))), (js ''signature'', ks_json (up_signature m))]"

abbreviation setPolicyBlock :: "keys_signature \<Rightarrow> 'n user_policy_message \<Rightarrow> 'n user_policy_message" where
  "setPolicyBlock b m \<equiv> m\<lparr>up_signature := b\<rparr>"

text \<open>Signing fills in empty discriminators first, and keeps them when validation then fails.\<close>

definition fillDiscriminators :: "'n user_policy_message \<Rightarrow> 'n user_policy_message" where
  "fillDiscriminators m = m\<lparr>up_type := (if up_type m = [] then UserPolicyType else up_type m),
     up_step := (if up_step m = [] then UserPolicyStep else up_step m),
     up_version := (if up_version m = [] then UserPolicyVersion else up_version m)\<rparr>"

definition signUserPolicyMessage ::
  "'n platform \<Rightarrow> (int \<Rightarrow> 'n) \<Rightarrow> (jstr \<Rightarrow> time option) \<Rightarrow> bytes \<Rightarrow> jstr \<Rightarrow> ('n user_policy_message, record_error, jstr) op"
where
  "signUserPolicyMessage P num parseDate devicePriv deviceKeyId m =
     (if deviceKeyId = [] then (m, Inl (Invalid ''empty device key_id''))
      else case signRecord P (policy_json num) setPolicyBlock (validateUserPolicyMessage parseDate) UserPolicyPrefix
             (fillDiscriminators m) devicePriv deviceKeyId of
          Inl e \<Rightarrow> (fillDiscriminators m, Inl e)
        | Inr (m', sigB64) \<Rightarrow> (m', Inr sigB64))"

definition verifyUserPolicyMessage ::
  "'n platform \<Rightarrow> (int \<Rightarrow> 'n) \<Rightarrow> (jstr \<Rightarrow> time option) \<Rightarrow> 'n user_policy_message \<Rightarrow> bytes \<Rightarrow> record_error + bool"
where
  "verifyUserPolicyMessage P num parseDate m devicePub =
     verifyRecord P (policy_json num) up_signature (validateUserPolicyMessage parseDate) UserPolicyPrefix m devicePub"

interpretation policy: signed_kind "policy_json num" up_signature setPolicyBlock "validateUserPolicyMessage parseDate"
proof unfold_locales
  fix r :: "'a user_policy_message" and v
  show "setPath (policy_json num r) signaturePath v
      = Inr (policy_json num (setPolicyBlock (up_signature r\<lparr>ks_value := v\<rparr>) r))"
    by (simp add: policy_json_def signaturePath_def ks_json_def)
next
  fix r :: "'a user_policy_message" and b :: keys_signature
  assume "validateUserPolicyMessage parseDate True r = Inr ()" "ks_value b \<noteq> []"
  then show "validateUserPolicyMessage parseDate False (setPolicyBlock b r) = Inr ()"
    by (auto simp: validateUserPolicyMessage_def bindR_eq_Inr)
qed simp_all

section \<open>The state of a user's policy\<close>

record 'n policy_state =
  ps_userId :: jstr
  ps_supportedKinds :: "jstr list"
  ps_policyVersion :: int
  ps_lastTimestamp :: jstr
  ps_listEntries :: "(jstr, (jstr, 'n jsv) jsmap) jsmap"
  ps_singletons :: "(jstr, 'n jsv) jsmap"

datatype policy_error =
    PolicyKindUnsupported jstr nat
  | PolicyOpInvalid jstr nat string
  | PolicyVersionStale int int
  | PolicyOther record_error
  | PolicyWrongUser

definition defaultPolicyKinds :: "jstr list" where
  "defaultPolicyKinds = [PolicyKindBlock, PolicyKindAcceptedSender, PolicyKindFirstContact]"

definition newPolicyState :: "jstr \<Rightarrow> jstr list option \<Rightarrow> record_error + 'n policy_state" where
  "newPolicyState userId kinds =
     (let ks = (case kinds of None \<Rightarrow> defaultPolicyKinds | Some [] \<Rightarrow> defaultPolicyKinds | Some ks \<Rightarrow> ks) in
      bindR (checks [(userId \<noteq> [], ''policy state requires user_id''),
        ([] \<notin> set ks, ''policy state cannot register empty kind'')]) (\<lambda>_.
      Inr \<lparr>ps_userId = userId, ps_supportedKinds = remdups ks, ps_policyVersion = 0, ps_lastTimestamp = [],
           ps_listEntries = [], ps_singletons = []\<rparr>))"

definition supportsKind :: "'n policy_state \<Rightarrow> jstr \<Rightarrow> bool" where
  "supportsKind s kind \<longleftrightarrow> kind \<in> set (ps_supportedKinds s)"

definition registeredKinds :: "'n policy_state \<Rightarrow> jstr list" where
  "registeredKinds s = sort (ps_supportedKinds s)"

definition entryIdFor :: "'n policy_operation \<Rightarrow> jstr" where
  "entryIdFor op =
     (case po_entry_id op of
        Some (c # cs) \<Rightarrow> c # cs
      | _ \<Rightarrow> (case po_entry op of
            Some (JObj m) \<Rightarrow> (case map_of m (js ''id'') of Some (JStr i) \<Rightarrow> i | _ \<Rightarrow> [])
          | _ \<Rightarrow> []))"

definition applyOp :: "'n policy_operation \<Rightarrow> 'n policy_state \<Rightarrow> 'n policy_state" where
  "applyOp op s =
     (if po_kind op = PolicyKindFirstContact then
        s\<lparr>ps_singletons := jsm_set (po_kind op) (po_entry op) (ps_singletons s)\<rparr>
      else
        let bucket = (case jsm_get (ps_listEntries s) (po_kind op) of None \<Rightarrow> [] | Some b \<Rightarrow> b);
            bucket' =
              (if po_op op = js ''add'' \<or> po_op op = js ''modify'' then
                 (if entryIdFor op = [] then bucket else jsm_set (entryIdFor op) (po_entry op) bucket)
               else if po_op op = js ''remove'' then
                 (case po_entry_id op of Some (c # cs) \<Rightarrow> jsm_delete (c # cs) bucket | _ \<Rightarrow> bucket)
               else bucket) in
        s\<lparr>ps_listEntries := jsm_set (po_kind op) bucket' (ps_listEntries s)\<rparr>)"

text \<open>The first operation whose kind is not registered, with its index.\<close>

fun findUnsupported :: "jstr list \<Rightarrow> nat \<Rightarrow> 'n policy_operation list \<Rightarrow> (jstr \<times> nat) option" where
  "findUnsupported kinds i [] = None"
| "findUnsupported kinds i (op # ops) =
     (if po_kind op \<notin> set kinds then Some (po_kind op, i) else findUnsupported kinds (i + 1) ops)"

text \<open>The pair of version and timestamp that is not strictly after the current one.\<close>

definition stale :: "(jstr \<Rightarrow> time option) \<Rightarrow> 'n user_policy_message \<Rightarrow> 'n policy_state \<Rightarrow> bool" where
  "stale parseDate m s \<longleftrightarrow>
     up_policy_version m < ps_policyVersion s \<or>
     up_policy_version m = ps_policyVersion s \<and> ps_lastTimestamp s \<noteq> [] \<and>
       (case (parseDate (up_timestamp m), parseDate (ps_lastTimestamp s)) of
          (Some t, Some l) \<Rightarrow> t \<le> l | _ \<Rightarrow> False)"

definition classifyOpInvalid :: "record_error \<Rightarrow> 'n user_policy_message \<Rightarrow> policy_error" where
  "classifyOpInvalid e m =
     (case e of
        InvalidAt i detail \<Rightarrow>
          if i < length (up_operations m) then PolicyOpInvalid (po_kind (up_operations m ! i)) i detail else PolicyOther e
      | _ \<Rightarrow> PolicyOther e)"

definition applyPolicy :: "(jstr \<Rightarrow> time option) \<Rightarrow> 'n user_policy_message \<Rightarrow> ('n policy_state, policy_error, unit) op" where
  "applyPolicy parseDate m =
     bindX (lift (case validateUserPolicyMessage parseDate False m of
         Inl e \<Rightarrow> Inl (classifyOpInvalid e m) | Inr u \<Rightarrow> Inr u)) (\<lambda>_.
     bindX get (\<lambda>s.
     bindX (throwIf (up_user_id m \<noteq> ps_userId s) PolicyWrongUser) (\<lambda>_.
     bindX (throwIf (stale parseDate m s) (PolicyVersionStale (up_policy_version m) (ps_policyVersion s))) (\<lambda>_.
     case findUnsupported (ps_supportedKinds s) 0 (up_operations m) of
       Some (kind, i) \<Rightarrow> throw (PolicyKindUnsupported kind i)
     | None \<Rightarrow>
         bindX (modify (fold applyOp (up_operations m))) (\<lambda>_.
         modify (\<lambda>s. s\<lparr>ps_policyVersion := up_policy_version m, ps_lastTimestamp := up_timestamp m\<rparr>))))))"

definition listEntries :: "'n policy_state \<Rightarrow> jstr \<Rightarrow> (jstr, 'n jsv) jsmap" where
  "listEntries s kind = (case jsm_get (ps_listEntries s) kind of None \<Rightarrow> [] | Some b \<Rightarrow> b)"

definition singleton :: "'n policy_state \<Rightarrow> jstr \<Rightarrow> 'n jsv" where
  "singleton s kind = (case jsm_get (ps_singletons s) kind of None \<Rightarrow> None | Some v \<Rightarrow> v)"

record 'n policy_snapshot =
  pn_user_id :: jstr
  pn_policy_version :: int
  pn_last_timestamp :: jstr
  pn_list_entries :: "(jstr, (jstr, 'n jsv) jsmap) jsmap"
  pn_singletons :: "(jstr, 'n jsv) jsmap"

definition snapshot :: "'n policy_state \<Rightarrow> 'n policy_snapshot" where
  "snapshot s = \<lparr>pn_user_id = ps_userId s, pn_policy_version = ps_policyVersion s,
     pn_last_timestamp = ps_lastTimestamp s, pn_list_entries = ps_listEntries s, pn_singletons = ps_singletons s\<rparr>"

section \<open>The specification\<close>

text \<open>
  What a policy is to its user: for every kind the rules by their id, and the single entries; an update
  changes these maps one operation after the other.
\<close>

record 'n policy_view =
  pv_rules :: "jstr \<Rightarrow> jstr \<Rightarrow> 'n jsv option"
  pv_single :: "'n jsv option"

definition view :: "'n policy_state \<Rightarrow> 'n policy_view" where
  "view s = \<lparr>pv_rules = (\<lambda>kind. jsm_get (listEntries s kind)), pv_single = jsm_get (ps_singletons s) PolicyKindFirstContact\<rparr>"

definition specOp :: "'n policy_operation \<Rightarrow> 'n policy_view \<Rightarrow> 'n policy_view" where
  "specOp op v =
     (if po_kind op = PolicyKindFirstContact then v\<lparr>pv_single := Some (po_entry op)\<rparr>
      else if po_op op = js ''remove'' then
        v\<lparr>pv_rules := (pv_rules v)(po_kind op := (pv_rules v (po_kind op))(the (po_entry_id op) := None))\<rparr>
      else if entryIdFor op = [] then v
      else v\<lparr>pv_rules := (pv_rules v)(po_kind op := (pv_rules v (po_kind op))(entryIdFor op \<mapsto> po_entry op))\<rparr>)"

lemma validateOp_Inr:
  "validateOp op i = Inr u \<Longrightarrow>
     (po_op op = js ''add'' \<or> po_op op = js ''remove'' \<or> po_op op = js ''modify'') \<and>
     (po_op op = js ''remove'' \<longrightarrow> (\<exists>c cs. po_entry_id op = Some (c # cs)))"
  by (cases "po_entry_id op"; cases "the (po_entry_id op)") (auto simp: validateOp_def given_def split: if_splits)

lemma view_applyOp:
  assumes "validateOp op i = Inr u"
  shows "view (applyOp op s) = specOp op (view s)"
proof -
  note v = validateOp_Inr [OF assms]
  then consider (remove) c cs where "po_op op = js ''remove''" "po_entry_id op = Some (c # cs)" | (put) "po_op op \<noteq> js ''remove''"
    by blast
  then show ?thesis
    using v by cases (auto simp: view_def applyOp_def specOp_def Let_def listEntries_def fun_eq_iff split: option.splits)
qed

lemma view_applyOps:
  "validateOps i ops = Inr u \<Longrightarrow> view (fold applyOp ops s) = fold specOp ops (view s)"
  by (induction ops arbitrary: i s) (auto simp: bindR_eq_Inr view_applyOp)

lemma applyPolicy_Inr:
  "applyPolicy parseDate m s = (s', Inr ()) \<longleftrightarrow>
     validateUserPolicyMessage parseDate False m = Inr () \<and> up_user_id m = ps_userId s \<and> \<not> stale parseDate m s \<and>
     findUnsupported (ps_supportedKinds s) 0 (up_operations m) = None \<and>
     s' = fold applyOp (up_operations m) s\<lparr>ps_policyVersion := up_policy_version m, ps_lastTimestamp := up_timestamp m\<rparr>"
  by (auto simp: applyPolicy_def throwIf_step split: sum.splits option.splits)

lemma applyPolicy_Inl: "applyPolicy parseDate m s = (s', Inl e) \<Longrightarrow> s' = s"
  by (auto simp: applyPolicy_def throwIf_step split: sum.splits option.splits if_splits)

end
