(* ===== verification/UserPolicyProofs.thy ===== *)
theory UserPolicyProofs
  imports UserPolicy
begin

text \<open>Updates refine the specification, are never applied twice, and what a \<open>modify\<close> without an entry does.\<close>

text \<open>C34. Applying an update is atomic and refines the specification: when it is rejected the state is the
  one before; when it is accepted, every operation named a registered kind, the rules and the single entry
  are the old ones changed by all the operations in order, and version and timestamp are the message's.\<close>

theorem policy_apply_refines:
  assumes "applyPolicy parseDate m s = (s', r)"
  shows "(r \<noteq> Inr () \<longrightarrow> s' = s)
    \<and> (r = Inr () \<longrightarrow> view s' = fold specOp (up_operations m) (view s)
         \<and> (\<forall>op \<in> set (up_operations m). supportsKind s (po_kind op))
         \<and> ps_policyVersion s' = up_policy_version m \<and> ps_lastTimestamp s' = up_timestamp m
         \<and> ps_userId s' = ps_userId s \<and> ps_supportedKinds s' = ps_supportedKinds s)"
proof (cases r)
  case (Inl e)
  with assms show ?thesis using applyPolicy_Inl by auto
next
  case (Inr u)
  with assms have a: "validateUserPolicyMessage parseDate False m = Inr ()"
      "findUnsupported (ps_supportedKinds s) 0 (up_operations m) = None"
      "s' = fold applyOp (up_operations m) s\<lparr>ps_policyVersion := up_policy_version m, ps_lastTimestamp := up_timestamp m\<rparr>"
    by (simp_all add: applyPolicy_Inr)
  from a(1) obtain u where "validateOps 0 (up_operations m) = Inr u"
    by (auto simp: validateUserPolicyMessage_def bindR_eq_Inr)
  then have v: "view s' = fold specOp (up_operations m) (view s)"
    using view_applyOps [of 0 "up_operations m" u s] by (simp add: a(3) view_def listEntries_def)
  have supported: "findUnsupported kinds i ops = None \<Longrightarrow> op \<in> set ops \<Longrightarrow> po_kind op \<in> set kinds"
    for kinds i and ops :: "'a policy_operation list" and op
    by (induction ops arbitrary: i) (auto split: if_splits)
  have keep: "ps_userId (fold applyOp ops s) = ps_userId s \<and> ps_supportedKinds (fold applyOp ops s) = ps_supportedKinds s"
    for ops by (induction ops arbitrary: s) (simp_all add: applyOp_def Let_def)
  show ?thesis using Inr v supported [OF a(2)] keep by (simp add: a(3) supportsKind_def)
qed

section \<open>Replays\<close>

definition runPolicy :: "(jstr \<Rightarrow> time option) \<Rightarrow> 'n user_policy_message list \<Rightarrow> 'n policy_state \<Rightarrow> 'n policy_state" where
  "runPolicy parseDate ms s = foldl (\<lambda>s m. fst (applyPolicy parseDate m s)) s ms"

text \<open>The state has reached the version and time of the message.\<close>

definition reached :: "(jstr \<Rightarrow> time option) \<Rightarrow> 'n user_policy_message \<Rightarrow> 'n policy_state \<Rightarrow> bool" where
  "reached parseDate m s \<longleftrightarrow> ps_lastTimestamp s \<noteq> [] \<and>
     (\<exists>t l. parseDate (up_timestamp m) = Some t \<and> parseDate (ps_lastTimestamp s) = Some l \<and>
        (up_policy_version m < ps_policyVersion s \<or> up_policy_version m = ps_policyVersion s \<and> t \<le> l))"

lemma valid_time:
  "validateUserPolicyMessage parseDate b m = Inr () \<Longrightarrow> up_timestamp m \<noteq> [] \<and> (\<exists>t. parseDate (up_timestamp m) = Some t)"
  by (auto simp: validateUserPolicyMessage_def bindR_eq_Inr)

lemma applied_reached: "applyPolicy parseDate m s = (s', Inr ()) \<Longrightarrow> reached parseDate m s'"
  using valid_time [of parseDate False m] by (auto simp: applyPolicy_Inr reached_def)

lemma reached_step:
  assumes "reached parseDate m s"
  shows "reached parseDate m (fst (applyPolicy parseDate m' s))"
proof (cases "applyPolicy parseDate m' s")
  case (Pair s' r)
  show ?thesis
  proof (cases r)
    case (Inl e)
    with Pair assms applyPolicy_Inl show ?thesis by fastforce
  next
    case (Inr u)
    with Pair have a: "validateUserPolicyMessage parseDate False m' = Inr ()" "\<not> stale parseDate m' s"
        "ps_policyVersion s' = up_policy_version m'" "ps_lastTimestamp s' = up_timestamp m'"
      by (simp_all add: applyPolicy_Inr)
    from valid_time [OF a(1)] obtain t' where t': "up_timestamp m' \<noteq> []" "parseDate (up_timestamp m') = Some t'" by blast
    from assms a(2) t' show ?thesis
      by (auto simp: Pair reached_def stale_def a(3,4))
  qed
qed

lemma reached_stale: "reached parseDate m s \<Longrightarrow> stale parseDate m s"
  by (auto simp: reached_def stale_def)

text \<open>An update is never applied twice: once it has been accepted, it is refused in every later state,
  whatever further updates were applied or refused in between, and leaves that state as it is.\<close>

theorem policy_message_not_replayed:
  assumes "applyPolicy parseDate m s = (s', Inr ())" and "s'' = runPolicy parseDate ms s'"
  shows "\<exists>e. applyPolicy parseDate m s'' = (s'', Inl e)"
proof -
  have r: "reached parseDate m (runPolicy parseDate ms s0)" if "reached parseDate m s0" for s0
    using that by (induction ms arbitrary: s0) (simp_all add: runPolicy_def reached_step)
  have "stale parseDate m s''" unfolding assms(2) by (rule reached_stale [OF r [OF applied_reached [OF assms(1)]]])
  then have "applyPolicy parseDate m s'' \<noteq> (s1, Inr ())" for s1 by (simp add: applyPolicy_Inr)
  moreover obtain s1 r where "applyPolicy parseDate m s'' = (s1, r)" by (cases "applyPolicy parseDate m s''")
  ultimately show ?thesis using applyPolicy_Inl by (cases r) fastforce+
qed

section \<open>A modification without an entry\<close>

text \<open>The validation requires an entry of \<open>add\<close> operations and of the singleton kind only. A \<open>modify\<close> of a
  listed rule that carries no entry is therefore accepted and replaces the rule with \<open>undefined\<close>: the
  block entry it names is lost, while the version moves on.\<close>

theorem modify_without_entry_erases:
  assumes "validateUserPolicyMessage parseDate False m = Inr ()" "up_user_id m = ps_userId s" "\<not> stale parseDate m s"
    and "up_operations m = [\<lparr>po_op = js ''modify'', po_kind = PolicyKindBlock, po_entry_id = Some i, po_entry = None\<rparr>]"
    and "supportsKind s PolicyKindBlock" "i \<noteq> []"
  shows "\<exists>s'. applyPolicy parseDate m s = (s', Inr ()) \<and> jsm_get (listEntries s' PolicyKindBlock) i = Some None"
proof -
  let ?op = "\<lparr>po_op = js ''modify'', po_kind = PolicyKindBlock, po_entry_id = Some i, po_entry = None\<rparr> :: 'a policy_operation"
  have "entryIdFor ?op = i" using assms(6) by (cases i) (simp_all add: entryIdFor_def)
  then have "jsm_get (listEntries (applyOp ?op s) PolicyKindBlock) i = Some None"
    using assms(6) by (simp add: applyOp_def listEntries_def PolicyKindBlock_def PolicyKindFirstContact_def Let_def)
  moreover have "findUnsupported (ps_supportedKinds s) 0 (up_operations m) = None"
    using assms(4,5) by (simp add: supportsKind_def)
  ultimately show ?thesis
    using assms(1-4) by (simp add: applyPolicy_Inr listEntries_def)
qed

section \<open>Witnesses\<close>

definition demo_policy :: "int policy_state" where
  "demo_policy = projr (newPolicyState (js ''u'') None)"

lemma demo_policy: "newPolicyState (js ''u'') None = Inr demo_policy"
  "ps_userId demo_policy = js ''u''" "ps_policyVersion demo_policy = 0" "ps_lastTimestamp demo_policy = []"
  "supportsKind demo_policy PolicyKindBlock"
  by (simp_all add: demo_policy_def newPolicyState_def defaultPolicyKinds_def PolicyKindBlock_def
      PolicyKindAcceptedSender_def PolicyKindFirstContact_def supportsKind_def Let_def)

definition demo_update :: "int user_policy_message" where
  "demo_update = \<lparr>up_type = UserPolicyType, up_step = UserPolicyStep, up_version = UserPolicyVersion, up_user_id = js ''u'',
     up_device_id = js ''d'', up_policy_version = 1, up_timestamp = js ''t'',
     up_operations = [\<lparr>po_op = js ''modify'', po_kind = PolicyKindBlock, po_entry_id = Some (js ''e''), po_entry = None\<rparr>],
     up_signature = \<lparr>ks_algorithm = js ''ed25519'', ks_key_id = js ''k'', ks_value = js ''v''\<rparr>\<rparr>"

lemma demo_update: "validateUserPolicyMessage (\<lambda>_. Some 0) False demo_update = Inr ()" "up_user_id demo_update = ps_userId demo_policy"
    "\<not> stale (\<lambda>_. Some 0) demo_update demo_policy"
    "up_operations demo_update
       = [\<lparr>po_op = js ''modify'', po_kind = PolicyKindBlock, po_entry_id = Some (js ''e''), po_entry = None\<rparr>]"
  by (simp_all add: validateUserPolicyMessage_def demo_update_def validateOp_def PolicyKindBlock_def
      PolicyKindFirstContact_def demo_policy(2) stale_def demo_policy)

lemma demo_applied: "applyPolicy (\<lambda>_. Some 0) demo_update demo_policy = (fst (applyPolicy (\<lambda>_. Some 0) demo_update demo_policy), Inr ())"
  using demo_update demo_policy(5) by (simp add: applyPolicy_Inr supportsKind_def) (simp add: applyPolicy_def throwIf_step supportsKind_def)

theorem policy_apply_refines_witness:
  "view (fst (applyPolicy (\<lambda>_. Some 0) demo_update demo_policy)) = fold specOp (up_operations demo_update) (view demo_policy)"
  using policy_apply_refines [OF demo_applied] by blast

theorem policy_message_not_replayed_witness:
  "\<exists>e. snd (applyPolicy (\<lambda>_. Some 0) demo_update (fst (applyPolicy (\<lambda>_. Some 0) demo_update demo_policy))) = Inl e"
  using policy_message_not_replayed [OF demo_applied, of _ "[]"] by (auto simp: runPolicy_def)

theorem modify_without_entry_erases_witness:
  "\<exists>s'. applyPolicy (\<lambda>_. Some 0) demo_update demo_policy = (s', Inr ())
     \<and> jsm_get (listEntries s' PolicyKindBlock) (js ''e'') = Some None"
  by (rule modify_without_entry_erases [OF demo_update demo_policy(5)]) simp

end
