(* ===== verification/Mailbox.thy ===== *)
theory Mailbox
  imports SignedRecords
begin

text \<open>
  Per-user block lists, \<^verbatim>\<open>src/src/delivery/blocklist.ts\<close>, the in-memory inbox, \<^verbatim>\<open>inbox.ts\<close>, and the ledger
  of silent recipients, \<^verbatim>\<open>persistent_silent.ts\<close>. \<open>lower\<close> stands for \<open>toLowerCase\<close>, \<open>parseDate\<close> for
  \<open>Date.parse\<close>.
\<close>

section \<open>Block lists\<close>

record blocklist_entity =
  be_type :: jstr
  be_address :: "jstr option"
  be_domain :: "jstr option"
  be_hostname :: "jstr option"

record block_entry =
  bl_id :: jstr
  bl_entity :: blocklist_entity
  bl_acknowledgment :: jstr
  bl_reason :: "jstr option"
  bl_scope :: "jstr option"
  bl_expires_at :: "jstr option"

record block_list =
  bk_user_id :: jstr
  bk_list_version :: int
  bk_entries :: "block_entry list"

record blocklist_sender =
  bs_address :: "jstr option"
  bs_domain :: "jstr option"
  bs_server :: "jstr option"
  bs_isGroup :: bool

definition scopeApplies :: "jstr option \<Rightarrow> bool \<Rightarrow> bool" where
  "scopeApplies s isGroup =
     (if s = Some (js ''all'') then True
      else if s = Some (js ''direct'') then \<not> isGroup
      else if s = Some (js ''group'') then isGroup
      else s = None \<or> s = Some [])"

abbreviation orEmpty :: "jstr option \<Rightarrow> jstr" where
  "orEmpty x \<equiv> (case x of None \<Rightarrow> [] | Some s \<Rightarrow> s)"

text \<open>The body of the loop for one entry: \<open>None\<close> where it continues, else the rank of its kind.\<close>

definition entryRank ::
  "(jstr \<Rightarrow> jstr) \<Rightarrow> (jstr \<Rightarrow> time option) \<Rightarrow> time \<Rightarrow> blocklist_sender \<Rightarrow> block_entry \<Rightarrow> nat option"
where
  "entryRank lower parseDate now sender entry =
     (let address = lower (orEmpty (bs_address sender)); domain = lower (orEmpty (bs_domain sender));
          server = lower (orEmpty (bs_server sender)); e = bl_entity entry in
      if bl_expires_at entry \<noteq> None \<and> bl_expires_at entry \<noteq> Some [] \<and>
         (case parseDate (orEmpty (bl_expires_at entry)) of None \<Rightarrow> False | Some t \<Rightarrow> t \<le> now) then None
      else if \<not> scopeApplies (bl_scope entry) (bs_isGroup sender) then None
      else if be_type e = js ''user'' then
        (if address = [] \<or> lower (orEmpty (be_address e)) \<noteq> address then None else Some 3)
      else if be_type e = js ''server'' then
        (if server = [] \<or> lower (orEmpty (be_hostname e)) \<noteq> server then None else Some 2)
      else if be_type e = js ''domain'' then
        (if domain = [] \<or> lower (orEmpty (be_domain e)) \<noteq> domain then None else Some 1)
      else None)"

fun matchLoop :: "(block_entry \<Rightarrow> nat option) \<Rightarrow> block_entry list \<Rightarrow> nat \<Rightarrow> block_entry option \<Rightarrow> block_entry option" where
  "matchLoop ranks [] bestRank bestEntry = bestEntry"
| "matchLoop ranks (entry # entries) bestRank bestEntry =
     (case ranks entry of
        None \<Rightarrow> matchLoop ranks entries bestRank bestEntry
      | Some rank \<Rightarrow>
          if rank > bestRank then
            (if rank = 3 then Some entry else matchLoop ranks entries rank (Some entry))
          else matchLoop ranks entries bestRank bestEntry)"

definition matchBlockList ::
  "(jstr \<Rightarrow> jstr) \<Rightarrow> (jstr \<Rightarrow> time option) \<Rightarrow> block_list option \<Rightarrow> blocklist_sender \<Rightarrow> time \<Rightarrow> block_entry option"
where
  "matchBlockList lower parseDate lst sender now =
     (case lst of None \<Rightarrow> None
      | Some l \<Rightarrow> matchLoop (entryRank lower parseDate now sender) (bk_entries l) 0 None)"

text \<open>\<open>StaticBlockListLookup\<close>.\<close>

definition staticLists :: "(jstr \<Rightarrow> jstr) \<Rightarrow> (jstr \<times> block_list) list \<Rightarrow> (jstr, block_list) jsmap" where
  "staticLists lower kvs = fold (\<lambda>(k, v). jsm_set (lower k) v) kvs []"

definition staticLookup :: "(jstr \<Rightarrow> jstr) \<Rightarrow> (jstr, block_list) jsmap \<Rightarrow> jstr \<Rightarrow> block_list option" where
  "staticLookup lower m recipient = jsm_get m (lower recipient)"

text \<open>The description: the highest rank among the entries that have one (0: none has).\<close>

definition bestRankOf :: "(block_entry \<Rightarrow> nat option) \<Rightarrow> block_entry list \<Rightarrow> nat" where
  "bestRankOf ranks es = fold max (map (\<lambda>e. case ranks e of None \<Rightarrow> 0 | Some n \<Rightarrow> n) es) 0"

lemma bestRankOf_max: "bestRankOf ranks es = Max (insert 0 ((\<lambda>e. case ranks e of None \<Rightarrow> 0 | Some n \<Rightarrow> n) ` set es))"
  unfolding bestRankOf_def Max.set_eq_fold [symmetric] by simp

lemma bestRankOf_simps:
  "bestRankOf ranks [] = 0"
  "bestRankOf ranks (e # es) = max (case ranks e of None \<Rightarrow> 0 | Some n \<Rightarrow> n) (bestRankOf ranks es)"
proof -
  show "bestRankOf ranks [] = 0" by (simp add: bestRankOf_def)
  have ins: "Max (insert 0 (insert x A)) = max x (Max (insert 0 A))" if "finite A" for x :: nat and A
    unfolding insert_commute [of 0 x] using that by (subst Max_insert) simp_all
  show "bestRankOf ranks (e # es) = max (case ranks e of None \<Rightarrow> 0 | Some n \<Rightarrow> n) (bestRankOf ranks es)"
    unfolding bestRankOf_max list.set image_insert by (rule ins) simp
qed

lemma matchLoop_best:
  assumes "\<And>e n. r e = Some n \<Longrightarrow> 0 < n \<and> n \<le> 3" and "b < 3"
  shows "matchLoop r es b best = (if bestRankOf r es \<le> b then best else find (\<lambda>e. r e = Some (bestRankOf r es)) es)"
  using assms(2)
proof (induction es arbitrary: b best)
  case (Cons e es)
  have bound: "bestRankOf r es \<le> 3"
    unfolding bestRankOf_max by (intro Max.boundedI) (auto dest: assms(1) split: option.splits)
  show ?case
  proof (cases "r e")
    case None
    then show ?thesis using Cons by (simp add: bestRankOf_simps)
  next
    case (Some n)
    have n: "0 < n" "n \<le> 3" using assms(1) [OF Some] by simp_all
    consider "n \<le> b" | "b < n" "n = 3" | "b < n" "n < 3" using n by linarith
    then show ?thesis
    proof cases
      case 1
      then show ?thesis using Cons Some by (auto simp: bestRankOf_simps max_def)
    next
      case 2
      with Some bound show ?thesis by (simp add: bestRankOf_simps max_def)
    next
      case 3
      with Cons.IH [OF 3(2), of "Some e"] Some show ?thesis by (auto simp: bestRankOf_simps max_def)
    qed
  qed
qed (simp add: bestRankOf_simps)


definition demo_block :: "string \<Rightarrow> string \<Rightarrow> string \<Rightarrow> block_entry" where
  "demo_block i t name = \<lparr>bl_id = js i,
     bl_entity = \<lparr>be_type = js t, be_address = Some (js name), be_domain = Some (js name), be_hostname = None\<rparr>,
     bl_acknowledgment = js ''silent'', bl_reason = None, bl_scope = None, bl_expires_at = None\<rparr>"


section \<open>The inbox\<close>

definition DefaultMaxQueueDepth :: nat where "DefaultMaxQueueDepth = 10000"

text \<open>\<open>'a\<close> is the type of the addresses; the empty one is refused.\<close>

record 'a inbox =
  ib_queues :: "('a, bytes list) jsmap"
  ib_maxDepth :: nat

definition newInbox :: "int \<Rightarrow> 'a inbox" where
  "newInbox maxDepth = \<lparr>ib_queues = [], ib_maxDepth = (if maxDepth \<le> 0 then DefaultMaxQueueDepth else nat maxDepth)\<rparr>"

definition inboxStore :: "('a \<Rightarrow> bool) \<Rightarrow> 'a \<Rightarrow> bytes \<Rightarrow> ('a inbox, record_error, unit) op" where
  "inboxStore isEmpty address payload s =
     (if isEmpty address then (s, Inl (Invalid ''inbox.store empty address''))
      else case jsm_get (ib_queues s) address of
          None \<Rightarrow> (s\<lparr>ib_queues := jsm_set address [payload] (ib_queues s)\<rparr>, Inr ())
        | Some lst \<Rightarrow>
            let lst = (if length lst \<ge> ib_maxDepth s then tl lst else lst) in
            (s\<lparr>ib_queues := jsm_set address (lst @ [payload]) (ib_queues s)\<rparr>, Inr ()))"

definition inboxDrain :: "'a \<Rightarrow> 'a inbox \<Rightarrow> 'a inbox \<times> bytes list" where
  "inboxDrain address s =
     (s\<lparr>ib_queues := jsm_delete address (ib_queues s)\<rparr>,
      case jsm_get (ib_queues s) address of None \<Rightarrow> [] | Some lst \<Rightarrow> lst)"

definition inboxPending :: "'a inbox \<Rightarrow> 'a \<Rightarrow> nat" where
  "inboxPending s address = (case jsm_get (ib_queues s) address of None \<Rightarrow> 0 | Some lst \<Rightarrow> length lst)"

definition waiting :: "'a inbox \<Rightarrow> 'a \<Rightarrow> bytes list" where
  "waiting s address = snd (inboxDrain address s)"

lemma drop_window:
  "0 < d \<Longrightarrow> drop (Suc (length (drop (length xs - d) xs)) - d) (drop (length xs - d) xs) = drop (Suc (length xs) - d) xs"
  by (cases "length xs < d") (simp_all add: Suc_diff_le)

lemma store_waiting:
  "0 < ib_maxDepth s \<Longrightarrow> length (waiting s b) \<le> ib_maxDepth s \<Longrightarrow> \<not> isEmpty a \<Longrightarrow>
   waiting (fst (inboxStore isEmpty a p s)) b =
     (if a = b then drop (Suc (length (waiting s b)) - ib_maxDepth s) (waiting s b) @ [p] else waiting s b)"
  by (auto simp: waiting_def inboxDrain_def inboxStore_def Let_def drop_Suc Suc_diff_le split: option.splits)

lemma store_depth [simp]: "ib_maxDepth (fst (inboxStore isEmpty a p s)) = ib_maxDepth s"
  by (auto simp: inboxStore_def Let_def split: option.splits)

definition storeAll :: "('a \<Rightarrow> bool) \<Rightarrow> ('a \<times> bytes) list \<Rightarrow> 'a inbox \<Rightarrow> 'a inbox" where
  "storeAll isEmpty ps s = foldl (\<lambda>s (a, p). fst (inboxStore isEmpty a p s)) s ps"

text \<open>The inbox keeps, for every address, the latest envelopes stored for it, at most as many as its
  depth, oldest first; what is stored for other addresses does not matter, and draining an address
  returns them and leaves the others.\<close>

theorem inbox_keeps_latest:
  fixes isEmpty :: "'a \<Rightarrow> bool"
  assumes "\<forall>(a, p) \<in> set ps. \<not> isEmpty a" and "s = storeAll isEmpty ps (newInbox depth)"
    and "mine = map snd (filter (\<lambda>(a, p). a = b) ps)"
  shows "waiting s b = drop (length mine - ib_maxDepth s) mine"
    and "inboxPending s b = min (length mine) (ib_maxDepth s)"
    and "waiting (fst (inboxDrain b s)) c = (if c = b then [] else waiting s c)"
proof -
  define s0 :: "'a inbox" where "s0 = newInbox depth"
  have d: "0 < ib_maxDepth s0" by (simp add: s0_def newInbox_def DefaultMaxQueueDepth_def)
  have "waiting (storeAll isEmpty ps s0) b
      = (let mine = map snd (filter (\<lambda>(a, p). a = b) ps) in drop (length mine - ib_maxDepth s0) mine)
    \<and> ib_maxDepth (storeAll isEmpty ps s0) = ib_maxDepth s0"
    using assms(1)
  proof (induction ps rule: rev_induct)
    case Nil
    then show ?case by (simp add: storeAll_def waiting_def inboxDrain_def s0_def newInbox_def)
  next
    case (snoc q ps)
    obtain a p where q: "q = (a, p)" by (cases q)
    let ?s = "storeAll isEmpty ps s0"
    have i: "waiting ?s b = (let mine = map snd (filter (\<lambda>(a, p). a = b) ps) in
        drop (length mine - ib_maxDepth s0) mine)" "ib_maxDepth ?s = ib_maxDepth s0"
      using snoc by simp_all
    have "waiting (fst (inboxStore isEmpty a p ?s)) b =
        (if a = b then drop (Suc (length (waiting ?s b)) - ib_maxDepth ?s) (waiting ?s b) @ [p] else waiting ?s b)"
      by (rule store_waiting) (use d i snoc.prems q in \<open>simp_all add: Let_def\<close>)
    then show ?case using drop_window [OF d, of "map snd (filter (\<lambda>(a, p). a = b) ps)"] i(2) d
      by (simp add: storeAll_def q Let_def i [unfolded storeAll_def])
  qed
  then show w: "waiting s b = drop (length mine - ib_maxDepth s) mine" by (simp add: assms(2,3) Let_def s0_def)
  show "inboxPending s b = min (length mine) (ib_maxDepth s)"
    using arg_cong [OF w, of length] by (simp add: waiting_def inboxDrain_def inboxPending_def split: option.splits)
  show "waiting (fst (inboxDrain b s)) c = (if c = b then [] else waiting s c)"
    by (simp add: waiting_def inboxDrain_def)
qed

theorem inbox_keeps_latest_witness:
  "waiting (storeAll (\<lambda>a. a = js '''') [(js ''a'', [1]), (js ''b'', [2]), (js ''a'', [3]), (js ''a'', [4])] (newInbox 2)) (js ''a'')
     = [[3], [4]]"
  using inbox_keeps_latest(1) [where ps = "[(js ''a'', [1]), (js ''b'', [2]), (js ''a'', [3]), (js ''a'', [4])]"
      and isEmpty = "\<lambda>a. a = js ''''" and depth = 2 and b = "js ''a''", OF _ refl refl]
  by (simp add: storeAll_def newInbox_def inboxStore_def)

section \<open>Silent recipients\<close>

record silent_config =
  si_threshold :: int
  si_observationWindowMs :: int
  si_shortDeadlineMs :: int
  si_idleExpiryMs :: int

definition PersistentSilentDefaults :: silent_config where
  "PersistentSilentDefaults = \<lparr>si_threshold = 5, si_observationWindowMs = 24 * 60 * 60 * 1000,
     si_shortDeadlineMs = 4 * 60 * 60 * 1000, si_idleExpiryMs = 30 * 24 * 60 * 60 * 1000\<rparr>"

record silent_entry =
  sl_count :: int
  sl_firstSeenMs :: time
  sl_lastSeenMs :: time

record silent_counter =
  sn_cfg :: silent_config
  sn_entries :: "(jstr, silent_entry) jsmap"

abbreviation positiveOr :: "int option \<Rightarrow> int \<Rightarrow> int" where
  "positiveOr x d \<equiv> (case x of None \<Rightarrow> d | Some n \<Rightarrow> if n > 0 then n else d)"

definition newSilentCounter :: "int option \<Rightarrow> int option \<Rightarrow> int option \<Rightarrow> int option \<Rightarrow> silent_counter" where
  "newSilentCounter threshold observationWindowMs shortDeadlineMs idleExpiryMs =
     \<lparr>sn_cfg = \<lparr>si_threshold = positiveOr threshold (si_threshold PersistentSilentDefaults),
        si_observationWindowMs = positiveOr observationWindowMs (si_observationWindowMs PersistentSilentDefaults),
        si_shortDeadlineMs = positiveOr shortDeadlineMs (si_shortDeadlineMs PersistentSilentDefaults),
        si_idleExpiryMs = positiveOr idleExpiryMs (si_idleExpiryMs PersistentSilentDefaults)\<rparr>, sn_entries = []\<rparr>"

definition silentInc :: "jstr \<Rightarrow> time \<Rightarrow> silent_counter \<Rightarrow> silent_counter \<times> int" where
  "silentInc recipient now s =
     (if recipient = [] then (s, 0)
      else case jsm_get (sn_entries s) recipient of
          None \<Rightarrow> (s\<lparr>sn_entries := jsm_set recipient
            \<lparr>sl_count = 1, sl_firstSeenMs = now, sl_lastSeenMs = now\<rparr> (sn_entries s)\<rparr>, 1)
        | Some e \<Rightarrow> (s\<lparr>sn_entries := jsm_set recipient
            (e\<lparr>sl_count := sl_count e + 1, sl_lastSeenMs := now\<rparr>) (sn_entries s)\<rparr>, sl_count e + 1))"

definition silentReset :: "jstr \<Rightarrow> silent_counter \<Rightarrow> silent_counter" where
  "silentReset recipient s = s\<lparr>sn_entries := jsm_delete recipient (sn_entries s)\<rparr>"

definition silentEffective :: "silent_counter \<Rightarrow> jstr \<Rightarrow> time \<Rightarrow> int option" where
  "silentEffective s recipient now =
     (case jsm_get (sn_entries s) recipient of
        None \<Rightarrow> None
      | Some e \<Rightarrow>
          if sl_count e < si_threshold (sn_cfg s) then None
          else if now - sl_firstSeenMs e < si_observationWindowMs (sn_cfg s) then None
          else Some (si_shortDeadlineMs (sn_cfg s)))"

definition silentCount :: "silent_counter \<Rightarrow> jstr \<Rightarrow> int" where
  "silentCount s recipient = (case jsm_get (sn_entries s) recipient of None \<Rightarrow> 0 | Some e \<Rightarrow> sl_count e)"

definition silentPrune :: "time \<Rightarrow> silent_counter \<Rightarrow> silent_counter \<times> nat" where
  "silentPrune now s =
     (let keep = filter (\<lambda>(k, e). \<not> now - sl_lastSeenMs e \<ge> si_idleExpiryMs (sn_cfg s)) (sn_entries s) in
      (s\<lparr>sn_entries := keep\<rparr>, length (sn_entries s) - length keep))"

text \<open>A run of silent outcomes for one recipient.\<close>

lemma silent_run:
  assumes "recipient \<noteq> []" "ts \<noteq> []"
  shows "jsm_get (sn_entries (foldl (\<lambda>s t. fst (silentInc recipient t s)) (silentReset recipient s) ts)) recipient =
      Some \<lparr>sl_count = int (length ts), sl_firstSeenMs = hd ts, sl_lastSeenMs = last ts\<rparr>
    \<and> sn_cfg (foldl (\<lambda>s t. fst (silentInc recipient t s)) (silentReset recipient s) ts) = sn_cfg s"
  using assms(2)
proof (induction ts rule: rev_induct)
  case (snoc t ts)
  show ?case
  proof (cases "ts = []")
    case True
    with assms(1) show ?thesis by (simp add: silentInc_def silentReset_def)
  next
    case False
    with snoc.IH assms(1) show ?thesis by (simp add: silentInc_def)
  qed
qed simp

text \<open>The deadline of a recipient is shortened exactly when its silent outcomes since the last reset
  number at least the threshold and the first of them is at least the observation window ago.\<close>

theorem silent_deadline_shortened:
  assumes "recipient \<noteq> []" "ts \<noteq> []"
    and "s' = foldl (\<lambda>s t. fst (silentInc recipient t s)) (silentReset recipient s) ts"
  shows "silentEffective s' recipient now =
      (if int (length ts) \<ge> si_threshold (sn_cfg s) \<and> now - hd ts \<ge> si_observationWindowMs (sn_cfg s)
       then Some (si_shortDeadlineMs (sn_cfg s)) else None)
    \<and> silentEffective (silentReset recipient s') recipient now = None"
  using silent_run [OF assms(1,2), of s] by (simp add: assms(3) silentEffective_def) (simp add: silentReset_def)

theorem silent_deadline_shortened_witness:
  "silentEffective (foldl (\<lambda>s t. fst (silentInc (js ''a'') t s)) (silentReset (js ''a'') (newSilentCounter (Some 2) None None None))
     [0, 5]) (js ''a'') 86400000 = Some 14400000"
  using silent_deadline_shortened [of "js ''a''" "[0, 5]" _ "newSilentCounter (Some 2) None None None", OF _ _ refl]
  by (simp add: newSilentCounter_def PersistentSilentDefaults_def)

end
