(* ===== verification/Pipeline.thy ===== *)
theory Pipeline
  imports Mailbox EnvelopeProofs
begin

text \<open>
  The receive-side delivery pipeline, \<^verbatim>\<open>src/src/delivery/pipeline.ts\<close>. The envelope is an unchecked JSON
  value; the hooks of the configuration are functions that return or throw. The state is the inbox. Left
  out: the optional logger and the texts of the human-readable reasons. The block list is consulted at the
  time \<open>wall\<close> of the machine, not at the configured clock's.
\<close>

section \<open>Configuration and results\<close>

datatype policy_verdict = Pass | Refuse jstr jstr

record 'n pipeline_config =
  pc_envMAC :: "bytes callback option"
  pc_domainKeys :: "('n jsv \<Rightarrow> bytes option callback) option"
  pc_sessionRetired :: "(jstr \<Rightarrow> bool callback) option"
  pc_skipSignatureCheck :: bool
  pc_skipSessionMACCheck :: bool
  pc_skipExpiryCheck :: bool
  pc_skipSessionIDCheck :: bool
  pc_briefRecipients :: "recipient_candidate list"
  pc_domainPolicy :: "('n jsv \<Rightarrow> policy_verdict callback) option"
  pc_recipientPolicy :: "('n json \<Rightarrow> policy_verdict callback) option"
  pc_blockList :: "('n json \<Rightarrow> block_list option callback) option"
  pc_isLocal :: "'n json \<Rightarrow> bool callback"
  pc_inbox :: bool
  pc_clockSkewMs :: "int option"
  pc_lower :: "jstr \<Rightarrow> jstr"

definition newPipeline :: "'n pipeline_config \<Rightarrow> 'n hs_error + 'n pipeline_config" where
  "newPipeline cfg =
     (if pc_briefRecipients cfg = [] then Inl (HsFail ''pipeline missing briefRecipients'') else Inr cfg)"

record pipeline_rejection =
  pr_reasonCode :: jstr
  pr_silent :: bool

abbreviation reject :: "string \<Rightarrow> 'e + pipeline_rejection option" where
  "reject code \<equiv> Inr (Some \<lparr>pr_reasonCode = js code, pr_silent = False\<rparr>)"

record 'n submission_result =
  sb_recipient :: "'n json"
  sb_status :: jstr
  sb_reason_code :: "jstr option"

record 'n pipeline_result =
  pp_envelopeId :: "'n jsv"
  pp_brief :: "'n jsv"
  pp_results :: "'n submission_result list"
  pp_rejection :: "pipeline_rejection option"

section \<open>Steps 1 to 5\<close>

definition verifySignature :: "'n env \<Rightarrow> 'n pipeline_config \<Rightarrow> 'n jsv \<Rightarrow> 'n hs_error + pipeline_rejection option" where
  "verifySignature E cfg env =
     (case pc_domainKeys cfg of
        None \<Rightarrow> reject ''seal_invalid''
      | Some domainKeys \<Rightarrow>
          bindR (fld env ''postmark'') (\<lambda>pm. bindR (fld pm ''from_domain'') (\<lambda>fromDomain.
          bindR (callback (domainKeys fromDomain)) (\<lambda>pub.
          if pub = None \<or> pub = Some [] then reject ''seal_invalid''
          else case verifySealSignature E env (the pub) of
              Inl e \<Rightarrow> reject ''seal_invalid''
            | Inr ok \<Rightarrow> if \<not> ok then reject ''seal_invalid'' else Inr None))))"

definition pipelineExpiry :: "'n env \<Rightarrow> 'n pipeline_config \<Rightarrow> time \<Rightarrow> 'n jsv \<Rightarrow> 'n hs_error + pipeline_rejection option" where
  "pipelineExpiry E cfg now env =
     bindR (fld env ''postmark'') (\<lambda>pm. bindR (fld pm ''expires'') (\<lambda>expires.
     case expires of
       None \<Rightarrow> Inr None
     | Some w \<Rightarrow>
         if w = JStr [] then Inr None
         else case e_date E (stringOf E w) of
             None \<Rightarrow> reject ''envelope_expired''
           | Some expiryMs \<Rightarrow>
               if now - expiryMs > (case pc_clockSkewMs cfg of None \<Rightarrow> 15 * 60 * 1000 | Some t \<Rightarrow> t)
               then reject ''envelope_expired'' else Inr None))"

text \<open>The white space that \<open>String.prototype.trim\<close> removes.\<close>

definition whiteSpace :: "unit16 \<Rightarrow> bool" where
  "whiteSpace c \<longleftrightarrow> c \<in> {9, 10, 11, 12, 13, 32, 160, 0x1680, 0x2028, 0x2029, 0x202F, 0x205F, 0x3000, 0xFEFF}
     \<or> 0x2000 \<le> c \<and> c \<le> 0x200A"

definition checkSessionId :: "'n env \<Rightarrow> 'n pipeline_config \<Rightarrow> 'n jsv \<Rightarrow> 'n hs_error + pipeline_rejection option" where
  "checkSessionId E cfg env =
     bindR (fld env ''postmark'') (\<lambda>pm. bindR (fld pm ''session_id'') (\<lambda>sid.
     case sid of
       Some (JStr s) \<Rightarrow>
         if list_all whiteSpace s then reject ''no_session''
         else (case pc_sessionRetired cfg of
             None \<Rightarrow> Inr None
           | Some sessionRetired \<Rightarrow>
               (case sessionRetired s of
                  Inl err \<Rightarrow> Inr None
                | Inr retired \<Rightarrow> if retired then reject ''handshake_invalid'' else Inr None))
     | _ \<Rightarrow> Inl (Js TypeError)))"

definition checkSessionMac :: "'n env \<Rightarrow> 'n pipeline_config \<Rightarrow> 'n jsv \<Rightarrow> 'n hs_error + pipeline_rejection option" where
  "checkSessionMac E cfg env =
     (case pc_envMAC cfg of
        None \<Rightarrow> reject ''session_mac_invalid''
      | Some macOf \<Rightarrow>
          bindR (callback macOf) (\<lambda>mac.
          if mac = [] then reject ''session_mac_invalid''
          else case verifySessionMAC E env mac of
              Inl e \<Rightarrow> reject ''session_mac_invalid''
            | Inr ok \<Rightarrow> if \<not> ok then reject ''session_mac_invalid'' else Inr None))"

definition checkDomainPolicy :: "'n pipeline_config \<Rightarrow> 'n jsv \<Rightarrow> 'n hs_error + pipeline_rejection option" where
  "checkDomainPolicy cfg env =
     (case pc_domainPolicy cfg of
        None \<Rightarrow> Inr None
      | Some domainPolicy \<Rightarrow>
          bindR (fld env ''postmark'') (\<lambda>pm. bindR (fld pm ''from_domain'') (\<lambda>fromDomain.
          bindR (callback (domainPolicy fromDomain)) (\<lambda>v.
          case v of
            Pass \<Rightarrow> Inr None
          | Refuse ack code \<Rightarrow> Inr (Some \<lparr>pr_reasonCode = code, pr_silent = (ack = js ''silent'')\<rparr>)))))"

section \<open>Steps 6 and 7: opening the brief\<close>

definition openBriefWith :: "'n env \<Rightarrow> suite \<Rightarrow> 'n jsv \<Rightarrow> recipient_candidate \<Rightarrow> jstr \<Rightarrow> 'n hs_error + 'n jsv" where
  "openBriefWith E suite env c wrapped =
     bindR (unwrap E suite (ca_privateKey c) (ca_publicKey c) wrapped) (\<lambda>kBrief.
     bindR (fld env ''brief'') (\<lambda>b. bindR (b64 E b) (\<lambda>briefBlob.
     if length briefBlob < 12 then Inl (HsFail ''brief blob too short'')
     else
       bindR (fld env ''postmark'') (\<lambda>pm. bindR (fld pm ''id'') (\<lambda>pid.
       bindR (cr (aeadOpen (e_prims E) Chacha20Poly1305 kBrief (take 12 briefBlob) (drop 12 briefBlob) (encodeText E pid)))
         (\<lambda>briefPT. parseFrame E briefPT))))))"

fun openBriefLoop :: "'n env \<Rightarrow> suite \<Rightarrow> 'n jsv \<Rightarrow> recipient_candidate list \<Rightarrow> bool \<Rightarrow> 'n hs_error + 'n jsv" where
  "openBriefLoop E suite env [] failed =
     Inl (HsFail (if failed then ''every candidate failed'' else ''no candidate matches a brief recipient slot''))"
| "openBriefLoop E suite env (c # cs) failed =
     bindR (fld env ''seal'') (\<lambda>seal. bindR (fld seal ''brief_recipients'') (\<lambda>recipients.
     if recipients = None \<or> recipients = Some JNull then Inl (Js TypeError) else
     case map_of (objOf recipients) (ca_keyId c) of
       Some (JStr wrapped) \<Rightarrow>
         (case openBriefWith E suite env c wrapped of
            Inr v \<Rightarrow> Inr v
          | Inl e \<Rightarrow> openBriefLoop E suite env cs True)
     | _ \<Rightarrow> openBriefLoop E suite env cs failed))"

definition openBriefOnly :: "'n env \<Rightarrow> 'n jsv \<Rightarrow> recipient_candidate list \<Rightarrow> 'n hs_error + 'n jsv" where
  "openBriefOnly E env candidates =
     (if candidates = [] then Inl (HsFail ''empty candidate list'')
      else bindR (fld env ''seal'') (\<lambda>seal. bindR (fld seal ''algorithm'') (\<lambda>alg.
        if alg = Some (JStr (suiteName Baseline)) then openBriefLoop E Baseline env candidates False
        else if alg = Some (JStr (suiteName Hybrid)) then openBriefLoop E Hybrid env candidates False
        else Inl (HsFail ''unknown seal.algorithm''))))"

section \<open>Steps 8 and 9: one recipient\<close>

text \<open>The identifiers of the sender the block list is matched against.\<close>

definition blockSender :: "'n jsv \<Rightarrow> 'n jsv \<Rightarrow> 'n hs_error + (jstr \<times> 'n jsv)" where
  "blockSender env brief =
     bindR (fld brief ''from'') (\<lambda>from.
     case from of
       None \<Rightarrow> bindR (fld env ''postmark'') (\<lambda>pm. bindR (fld pm ''from_domain'') (\<lambda>d. Inr ([], d)))
     | Some (JStr a) \<Rightarrow> Inr (a, Some (JStr (secondPart a)))
     | Some _ \<Rightarrow> Inl (Js TypeError))"

definition matchSender ::
  "'n env \<Rightarrow> 'n pipeline_config \<Rightarrow> time \<Rightarrow> block_list option \<Rightarrow> jstr \<times> 'n jsv \<Rightarrow> 'n hs_error + block_entry option"
where
  "matchSender E cfg wall lst sender =
     (let domain = (\<lambda>d. matchBlockList (pc_lower cfg) (e_date E) lst
        \<lparr>bs_address = Some (fst sender), bs_domain = Some d, bs_server = None, bs_isGroup = False\<rparr> wall) in
      if (case lst of None \<Rightarrow> True | Some l \<Rightarrow> bk_entries l = []) then Inr None
      else case snd sender of
          Some (JStr d) \<Rightarrow> Inr (domain d)
        | None \<Rightarrow> Inr (domain [])
        | Some JNull \<Rightarrow> Inr (domain [])
        | _ \<Rightarrow> Inl (Js TypeError))"

definition gate :: "'n pipeline_config \<Rightarrow> 'n json \<Rightarrow> 'n hs_error + policy_verdict" where
  "gate cfg recipient =
     (case pc_recipientPolicy cfg of None \<Rightarrow> Inr Pass | Some recipientPolicy \<Rightarrow> callback (recipientPolicy recipient))"

definition blocked ::
  "'n env \<Rightarrow> 'n pipeline_config \<Rightarrow> time \<Rightarrow> 'n jsv \<Rightarrow> 'n jsv \<Rightarrow> 'n json \<Rightarrow> 'n hs_error + block_entry option"
where
  "blocked E cfg wall env brief recipient =
     (case pc_blockList cfg of
        None \<Rightarrow> Inr None
      | Some lookup \<Rightarrow>
          bindR (blockSender env brief) (\<lambda>sender.
          bindR (callback (lookup recipient)) (\<lambda>lst.
          matchSender E cfg wall lst sender)))"

definition deliverOne ::
  "'n env \<Rightarrow> 'n pipeline_config \<Rightarrow> time \<Rightarrow> 'n jsv \<Rightarrow> 'n jsv \<Rightarrow> bytes \<Rightarrow> 'n json
     \<Rightarrow> ('n json inbox, 'n hs_error, 'n submission_result) op"
where
  "deliverOne E cfg wall env brief bs recipient =
     bindX (lift (callback (pc_isLocal cfg recipient))) (\<lambda>local.
     if \<not> local then
       ret \<lparr>sb_recipient = recipient, sb_status = js ''rejected'', sb_reason_code = Some (js ''recipient_not_found'')\<rparr>
     else
       bindX (lift (gate cfg recipient)) (\<lambda>v.
       case v of
         Refuse ack code \<Rightarrow> ret \<lparr>sb_recipient = recipient, sb_status = ack, sb_reason_code = Some code\<rparr>
       | Pass \<Rightarrow>
           bindX (lift (blocked E cfg wall env brief recipient)) (\<lambda>matched.
           case matched of
             Some entry \<Rightarrow> ret \<lparr>sb_recipient = recipient, sb_status = bl_acknowledgment entry,
               sb_reason_code = Some (js ''blocked_recipient'')\<rparr>
           | None \<Rightarrow>
               let stored = (\<lambda>s. if pc_inbox cfg then
                     (case inboxStore (\<lambda>a. a = JStr []) recipient bs s of
                        (s, Inl e) \<Rightarrow> (s, Inl (HsFail ''inbox.store empty address'')) | (s, Inr u) \<Rightarrow> (s, Inr u))
                   else (s, Inr ())) in
               bindX stored (\<lambda>_.
               ret \<lparr>sb_recipient = recipient, sb_status = js ''delivered'', sb_reason_code = None\<rparr>))))"

fun deliverAll ::
  "'n env \<Rightarrow> 'n pipeline_config \<Rightarrow> time \<Rightarrow> 'n jsv \<Rightarrow> 'n jsv \<Rightarrow> bytes \<Rightarrow> 'n json list
     \<Rightarrow> ('n json inbox, 'n hs_error, 'n submission_result list) op"
where
  "deliverAll E cfg wall env brief bs [] = ret []"
| "deliverAll E cfg wall env brief bs (r # rs) =
     bindX (deliverOne E cfg wall env brief bs r) (\<lambda>x.
     bindX (deliverAll E cfg wall env brief bs rs) (\<lambda>xs. ret (x # xs)))"

section \<open>The whole pipeline\<close>

text \<open>The elements a spread \<open>...v\<close> gives; strings give their code points.\<close>

fun stringElements :: "jstr \<Rightarrow> jstr list" where
  "stringElements [] = []"
| "stringElements [c] = [[c]]"
| "stringElements (c # d # cs) =
     (if high_surrogate c \<and> low_surrogate d then [c, d] # stringElements cs else [c] # stringElements (d # cs))"

fun spreadArray :: "'n json \<Rightarrow> 'n hs_error + 'n json list" where
  "spreadArray (JArr vs) = Inr vs"
| "spreadArray (JStr s) = Inr (map JStr (stringElements s))"
| "spreadArray _ = Inl (Js TypeError)"

text \<open>The first of steps 1 to 5 that rejects.\<close>

definition firstRejection ::
  "'n env \<Rightarrow> 'n pipeline_config \<Rightarrow> time \<Rightarrow> 'n jsv \<Rightarrow> 'n hs_error + pipeline_rejection option"
where
  "firstRejection E cfg now env =
     bindR (if pc_skipSignatureCheck cfg then Inr None else verifySignature E cfg env) (\<lambda>rej1.
     if rej1 \<noteq> None then Inr rej1 else
     bindR (if pc_skipExpiryCheck cfg then Inr None else pipelineExpiry E cfg now env) (\<lambda>rej2.
     if rej2 \<noteq> None then Inr rej2 else
     bindR (if pc_skipSessionIDCheck cfg then Inr None else checkSessionId E cfg env) (\<lambda>rej3.
     if rej3 \<noteq> None then Inr rej3 else
     bindR (if pc_skipSessionMACCheck cfg then Inr None else checkSessionMac E cfg env) (\<lambda>rej4.
     if rej4 \<noteq> None then Inr rej4 else
     checkDomainPolicy cfg env))))"

definition process ::
  "'n env \<Rightarrow> 'n pipeline_config \<Rightarrow> time \<Rightarrow> time \<Rightarrow> 'n jsv \<Rightarrow> ('n json inbox, 'n hs_error, 'n pipeline_result) op"
where
  "process E cfg now wall env =
     bindX (lift (bindR (fld env ''postmark'') (\<lambda>pm. fld pm ''id''))) (\<lambda>envelopeId.
     let rejected = (\<lambda>rej. ret \<lparr>pp_envelopeId = envelopeId, pp_brief = None, pp_results = [], pp_rejection = Some rej\<rparr>) in
     bindX (lift (firstRejection E cfg now env)) (\<lambda>rej.
     case rej of
       Some rej \<Rightarrow> rejected rej
     | None \<Rightarrow>
         (case openBriefOnly E env (pc_briefRecipients cfg) of
            Inl err \<Rightarrow> rejected \<lparr>pr_reasonCode = js ''seal_invalid'', pr_silent = False\<rparr>
          | Inr brief \<Rightarrow>
              bindX (lift (fld brief ''to'')) (\<lambda>to.
              case to of
                Some (JArr tos) \<Rightarrow>
                  bindX (lift (bindR (fld brief ''cc'') (\<lambda>cc. spreadArray (coalesce cc (JArr []))))) (\<lambda>ccs.
                  bindX (deliverAll E cfg wall env brief (encodeEnvelope E (objOf env)) (tos @ ccs)) (\<lambda>results.
                  ret \<lparr>pp_envelopeId = envelopeId, pp_brief = brief, pp_results = results, pp_rejection = None\<rparr>))
              | _ \<Rightarrow> rejected \<lparr>pr_reasonCode = js ''brief_invalid'', pr_silent = False\<rparr>))))"

end
