(* ===== verification/PipelineProofs.thy ===== *)
theory PipelineProofs
  imports Pipeline
begin

declare sorted_form.simps(2) [simp del]

text \<open>
  What the receive pipeline guarantees: what reaches an inbox has passed every step, every recipient of
  an accepted envelope is accounted for, the block list sees only part of what it can express, and an
  envelope composed by the sender's server arrives.
\<close>

section \<open>One recipient and the loop over all\<close>

lemma bindX_lift_cases:
  "bindX (lift r) f s = (case r of Inl e \<Rightarrow> (s, Inl e) | Inr x \<Rightarrow> f x s)"
  by (cases r) simp_all

text \<open>The write of step 9.\<close>

definition inboxAfter :: "'n pipeline_config \<Rightarrow> bytes \<Rightarrow> 'n json \<Rightarrow> 'n json inbox \<Rightarrow> 'n json inbox" where
  "inboxAfter cfg bs a s = (if pc_inbox cfg then fst (inboxStore (\<lambda>a. a = JStr []) a bs s) else s)"

definition cleared ::
  "'n env \<Rightarrow> 'n pipeline_config \<Rightarrow> time \<Rightarrow> 'n jsv \<Rightarrow> 'n jsv \<Rightarrow> 'n json \<Rightarrow> bool"
where
  "cleared E cfg wall env brief a \<longleftrightarrow> pc_isLocal cfg a = Inr True \<and> gate cfg a = Inr Pass \<and>
     blocked E cfg wall env brief a = Inr None"

lemma deliverOne_cleared:
  assumes "deliverOne E cfg wall env brief bs a s = (s', Inr x)"
  shows "sb_recipient x = a \<and> (sb_reason_code x = None \<longleftrightarrow> cleared E cfg wall env brief a) \<and>
     (sb_reason_code x = None \<longrightarrow> sb_status x = js ''delivered'') \<and>
     s' = (if sb_reason_code x = None then inboxAfter cfg bs a s else s)"
  using assms
  by (auto simp: deliverOne_def bindX_lift_cases bindX_def cleared_def inboxAfter_def callback_Inr
      split: sum.splits if_splits policy_verdict.splits option.splits prod.splits)

lemma deliverOne_state:
  "fst (deliverOne E cfg wall env brief bs a s) = s \<or>
   cleared E cfg wall env brief a \<and> fst (deliverOne E cfg wall env brief bs a s) = inboxAfter cfg bs a s"
  by (auto simp: deliverOne_def bindX_lift_cases bindX_def cleared_def inboxAfter_def callback_Inr
      split: sum.splits if_splits policy_verdict.splits option.splits prod.splits)


text \<open>The inbox after the outcomes of a list of recipients.\<close>

definition storeOutcomes ::
  "'n pipeline_config \<Rightarrow> bytes \<Rightarrow> 'n submission_result list \<Rightarrow> 'n json inbox \<Rightarrow> 'n json inbox"
where
  "storeOutcomes cfg bs xs s =
     foldl (\<lambda>s x. if sb_reason_code x = None then inboxAfter cfg bs (sb_recipient x) s else s) s xs"

lemma deliverAll_outcomes:
  "deliverAll E cfg wall env brief bs as s = (s', Inr xs) \<Longrightarrow>
   map sb_recipient xs = as \<and> s' = storeOutcomes cfg bs xs s \<and>
   (\<forall>x \<in> set xs. (sb_reason_code x = None \<longleftrightarrow> cleared E cfg wall env brief (sb_recipient x)) \<and>
      (sb_reason_code x = None \<longrightarrow> sb_status x = js ''delivered''))"
proof (induction as arbitrary: s s' xs)
  case Nil
  then show ?case by (simp add: storeOutcomes_def)
next
  case (Cons a as)
  then obtain s1 x ys where x: "deliverOne E cfg wall env brief bs a s = (s1, Inr x)"
    and ys: "deliverAll E cfg wall env brief bs as s1 = (s', Inr ys)" "xs = x # ys"
    by (auto simp: bindX_Inr)
  from deliverOne_cleared [OF x] Cons.IH [OF ys(1)] ys(2) show ?case by (simp add: storeOutcomes_def)
qed

text \<open>Also when the loop throws, what the inbox holds for an address changed only by the write of a recipient
  that was cleared.\<close>

lemma inboxAfter_other: "a \<noteq> b \<Longrightarrow> waiting (inboxAfter cfg bs b s) a = waiting s a"
  by (auto simp: inboxAfter_def inboxStore_def waiting_def inboxDrain_def Let_def split: option.splits)

lemma inboxAfter_same:
  "waiting (inboxAfter cfg bs a s) a = waiting s a \<or> last (waiting (inboxAfter cfg bs a s) a) = bs"
  by (auto simp: inboxAfter_def inboxStore_def waiting_def inboxDrain_def Let_def split: option.splits)

lemma deliverAll_inbox:
  "waiting (fst (deliverAll E cfg wall env brief bs as s)) a = waiting s a \<or>
   a \<in> set as \<and> cleared E cfg wall env brief a \<and>
   last (waiting (fst (deliverAll E cfg wall env brief bs as s)) a) = bs"
proof (induction as arbitrary: s)
  case Nil
  then show ?case by simp
next
  case (Cons b as)
  obtain s1 r where d: "deliverOne E cfg wall env brief bs b s = (s1, r)" by (cases "deliverOne E cfg wall env brief bs b s")
  have one: "waiting s1 a = waiting s a \<or> a = b \<and> cleared E cfg wall env brief a \<and> last (waiting s1 a) = bs"
    using deliverOne_state [of E cfg wall env brief bs b s] inboxAfter_other [of a b cfg bs s] inboxAfter_same [of cfg bs a s] d
    by (cases "a = b") auto
  have "fst (deliverAll E cfg wall env brief bs (b # as) s) \<in> {s1, fst (deliverAll E cfg wall env brief bs as s1)}"
    using d by (auto simp: bindX_def split: sum.splits prod.splits)
  with one Cons.IH [of s1] show ?case by auto
qed

section \<open>The steps before the recipients\<close>

text \<open>What the verified envelope has shown, step by step.\<close>

definition domainOf :: "'n jsv \<Rightarrow> 'n hs_error + 'n jsv" where
  "domainOf env = bindR (fld env ''postmark'') (\<lambda>pm. fld pm ''from_domain'')"

definition signed_by_domain :: "'n env \<Rightarrow> 'n pipeline_config \<Rightarrow> 'n jsv \<Rightarrow> bool" where
  "signed_by_domain E cfg env \<longleftrightarrow> (\<exists>domainKeys d pub. pc_domainKeys cfg = Some domainKeys \<and> domainOf env = Inr d \<and>
     domainKeys d = Inr (Some pub) \<and> pub \<noteq> [] \<and> verifySealSignature E env pub = Inr True)"

definition mac_verified :: "'n env \<Rightarrow> 'n pipeline_config \<Rightarrow> 'n jsv \<Rightarrow> bool" where
  "mac_verified E cfg env \<longleftrightarrow> (\<exists>mac. pc_envMAC cfg = Some (Inr mac) \<and> mac \<noteq> [] \<and> verifySessionMAC E env mac = Inr True)"

definition skew :: "'n pipeline_config \<Rightarrow> int" where
  "skew cfg = (case pc_clockSkewMs cfg of None \<Rightarrow> 15 * 60 * 1000 | Some t \<Rightarrow> t)"

definition not_expired :: "'n env \<Rightarrow> 'n pipeline_config \<Rightarrow> time \<Rightarrow> 'n jsv \<Rightarrow> bool" where
  "not_expired E cfg now env \<longleftrightarrow> (\<exists>w. bindR (fld env ''postmark'') (\<lambda>pm. fld pm ''expires'') = Inr w \<and>
     (w = None \<or> w = Some (JStr []) \<or> (\<exists>v t. w = Some v \<and> e_date E (stringOf E v) = Some t \<and> now \<le> t + skew cfg)))"

definition session_live :: "'n pipeline_config \<Rightarrow> 'n jsv \<Rightarrow> bool" where
  "session_live cfg env \<longleftrightarrow> (\<exists>sid. bindR (fld env ''postmark'') (\<lambda>pm. fld pm ''session_id'') = Inr (Some (JStr sid)) \<and>
     \<not> list_all whiteSpace sid \<and> (\<forall>lookup. pc_sessionRetired cfg = Some lookup \<longrightarrow> lookup sid \<noteq> Inr True))"

lemma attempt_passed:
  "(case r of Inl e \<Rightarrow> reject code | Inr ok \<Rightarrow> if \<not> ok then reject code else Inr None) =
     (Inr None :: 'e + pipeline_rejection option) \<longleftrightarrow> r = Inr True"
  by (cases r) auto

lemma verifySignature_passed: "verifySignature E cfg env = Inr None \<longleftrightarrow> signed_by_domain E cfg env"
proof (cases "pc_domainKeys cfg")
  case None
  then show ?thesis by (simp add: verifySignature_def signed_by_domain_def)
next
  case (Some domainKeys)
  have "(if pub = None \<or> pub = Some [] then reject ''seal_invalid''
          else case verifySealSignature E env (the pub) of
              Inl e \<Rightarrow> reject ''seal_invalid''
            | Inr ok \<Rightarrow> if \<not> ok then reject ''seal_invalid'' else Inr None) =
        (Inr None :: 'a hs_error + pipeline_rejection option) \<longleftrightarrow>
      (\<exists>k. pub = Some k \<and> k \<noteq> [] \<and> verifySealSignature E env k = Inr True)" for pub
    by (cases pub) (simp_all add: attempt_passed)
  with Some show ?thesis
    by (simp add: verifySignature_def signed_by_domain_def domainOf_def bindR_eq_Inr callback_Inr) blast
qed

lemma checkSessionMac_passed: "checkSessionMac E cfg env = Inr None \<longleftrightarrow> mac_verified E cfg env"
proof (cases "pc_envMAC cfg")
  case None
  then show ?thesis by (simp add: checkSessionMac_def mac_verified_def)
next
  case (Some m)
  then show ?thesis
    by (auto simp add: checkSessionMac_def mac_verified_def bindR_eq_Inr callback_Inr attempt_passed)
qed

lemma pipelineExpiry_passed: "pipelineExpiry E cfg now env = Inr None \<longleftrightarrow> not_expired E cfg now env"
proof (cases "bindR (fld env ''postmark'') (\<lambda>pm. fld pm ''expires'')")
  case (Inl e)
  then have "pipelineExpiry E cfg now env = Inl e"
    unfolding pipelineExpiry_def by (auto simp: bindR_eq_Inl)
  with Inl show ?thesis by (simp add: not_expired_def)
next
  case (Inr w)
  then have "pipelineExpiry E cfg now env = (case w of
       None \<Rightarrow> Inr None
     | Some w \<Rightarrow> if w = JStr [] then Inr None
         else case e_date E (stringOf E w) of None \<Rightarrow> reject ''envelope_expired''
           | Some t \<Rightarrow> if now - t > skew cfg then reject ''envelope_expired'' else Inr None)"
    unfolding pipelineExpiry_def skew_def by (auto simp: bindR_eq_Inr)
  with Inr show ?thesis by (auto simp: not_expired_def split: option.splits)
qed

lemma checkSessionId_passed: "checkSessionId E cfg env = Inr None \<longleftrightarrow> session_live cfg env"
proof (cases "bindR (fld env ''postmark'') (\<lambda>pm. fld pm ''session_id'')")
  case (Inl e)
  then have "checkSessionId E cfg env = Inl e"
    unfolding checkSessionId_def by (auto simp: bindR_eq_Inl)
  with Inl show ?thesis by (simp add: session_live_def)
next
  case (Inr sid)
  have unf: "checkSessionId E cfg env = (case sid of
       Some (JStr s) \<Rightarrow>
         if list_all whiteSpace s then reject ''no_session''
         else (case pc_sessionRetired cfg of
             None \<Rightarrow> Inr None
           | Some sessionRetired \<Rightarrow>
               (case sessionRetired s of
                  Inl err \<Rightarrow> Inr None
                | Inr retired \<Rightarrow> if retired then reject ''handshake_invalid'' else Inr None))
     | _ \<Rightarrow> Inl (Js TypeError))"
    using Inr unfolding checkSessionId_def by (auto simp only: bindR_eq_Inr bindR_simps)
  show ?thesis
  proof (cases "\<exists>s. sid = Some (JStr s)")
    case True
    then obtain t where "sid = Some (JStr t)" by blast
    with unf Inr show ?thesis
      by (cases "pc_sessionRetired cfg") (auto simp: session_live_def split: sum.splits)
  next
    case False
    with unf have "checkSessionId E cfg env = Inl (Js TypeError)" by (auto split: option.splits json.splits)
    with False Inr show ?thesis by (simp add: session_live_def)
  qed
qed

text \<open>All that steps 1 to 5 require.\<close>

definition envelope_verified :: "'n env \<Rightarrow> 'n pipeline_config \<Rightarrow> time \<Rightarrow> 'n jsv \<Rightarrow> bool" where
  "envelope_verified E cfg now env \<longleftrightarrow>
     (pc_skipSignatureCheck cfg \<or> signed_by_domain E cfg env) \<and>
     (pc_skipExpiryCheck cfg \<or> not_expired E cfg now env) \<and>
     (pc_skipSessionIDCheck cfg \<or> session_live cfg env) \<and>
     (pc_skipSessionMACCheck cfg \<or> mac_verified E cfg env) \<and>
     (\<forall>policy. pc_domainPolicy cfg = Some policy \<longrightarrow> (\<exists>d. domainOf env = Inr d \<and> policy d = Inr Pass))"

lemma checkDomainPolicy_passed:
  "checkDomainPolicy cfg env = (Inr None :: 'n hs_error + pipeline_rejection option) \<longleftrightarrow>
   (\<forall>policy. pc_domainPolicy cfg = Some policy \<longrightarrow> (\<exists>d. domainOf env = Inr d \<and> policy d = Inr Pass))"
proof -
  have v: "(case v of Pass \<Rightarrow> Inr None | Refuse ack code \<Rightarrow> Inr (Some \<lparr>pr_reasonCode = code, pr_silent = (ack = js ''silent'')\<rparr>))
      = (Inr None :: 'n hs_error + pipeline_rejection option) \<longleftrightarrow> v = Pass" for v
    by (cases v) simp_all
  show ?thesis by (auto simp: checkDomainPolicy_def domainOf_def bindR_eq_Inr callback_Inr v split: option.splits)
qed

lemma skip_passed: "(if b then Inr None else m) = Inr None \<longleftrightarrow> b \<or> m = Inr None"
  by simp

lemma step_passed:
  "bindR m (\<lambda>rej. if rej \<noteq> None then Inr rej else f) = Inr None \<longleftrightarrow> m = Inr None \<and> f = Inr None"
  by (auto simp: bindR_eq_Inr)

lemma firstRejection_passed: "firstRejection E cfg now env = Inr None \<longleftrightarrow> envelope_verified E cfg now env"
  unfolding firstRejection_def envelope_verified_def step_passed skip_passed verifySignature_passed pipelineExpiry_passed
    checkSessionId_passed checkSessionMac_passed checkDomainPolicy_passed ..

text \<open>The recipients of a brief: \<open>to\<close>, then \<open>cc\<close>.\<close>

definition recipientsOf :: "'n jsv \<Rightarrow> 'n hs_error + 'n json list" where
  "recipientsOf brief =
     bindR (fld brief ''to'') (\<lambda>to. case to of
       Some (JArr tos) \<Rightarrow> bindR (bindR (fld brief ''cc'') (\<lambda>cc. spreadArray (coalesce cc (JArr [])))) (\<lambda>ccs. Inr (tos @ ccs))
     | _ \<Rightarrow> Inl (HsFail ''brief_invalid''))"

lemma recipients_parts:
  assumes "recipientsOf brief = Inr as"
  obtains tos ccs where "fld brief ''to'' = Inr (Some (JArr tos))"
    "bindR (fld brief ''cc'') (\<lambda>cc. spreadArray (coalesce cc (JArr []))) = Inr ccs" "as = tos @ ccs"
proof -
  from assms obtain to where to: "fld brief ''to'' = Inr to"
    and r: "(case to of Some (JArr tos) \<Rightarrow> bindR (bindR (fld brief ''cc'') (\<lambda>cc. spreadArray (coalesce cc (JArr [])))) (\<lambda>ccs. Inr (tos @ ccs))
     | _ \<Rightarrow> Inl (HsFail ''brief_invalid'')) = Inr as"
    by (auto simp only: recipientsOf_def bindR_eq_Inr)
  from r obtain tos where "to = Some (JArr tos)" 
    by (cases to, simp, rename_tac v, case_tac v, simp_all)
  with to r that show ?thesis by (auto simp only: option.simps json.simps bindR_eq_Inr Inr_inject)
qed

lemma process_verified:
  assumes "envelope_verified E cfg now env" "openBriefOnly E env (pc_briefRecipients cfg) = Inr brief"
    "recipientsOf brief = Inr as" "bindR (fld env ''postmark'') (\<lambda>pm. fld pm ''id'') = Inr i"
  shows "process E cfg now wall env s = bindX (deliverAll E cfg wall env brief (encodeEnvelope E (objOf env)) as)
     (\<lambda>results. ret \<lparr>pp_envelopeId = i, pp_brief = brief, pp_results = results, pp_rejection = None\<rparr>) s"
proof -
  have f: "firstRejection E cfg now env = Inr None" using assms(1) by (simp add: firstRejection_passed)
  from recipients_parts [OF assms(3)] obtain tos ccs where t: "fld brief ''to'' = Inr (Some (JArr tos))"
    "bindR (fld brief ''cc'') (\<lambda>cc. spreadArray (coalesce cc (JArr []))) = Inr ccs" "as = tos @ ccs" .
  show ?thesis by (simp add: process_def assms(2,4) f t)
qed

lemma process_cases:
  obtains (delivered) brief as i where "envelope_verified E cfg now env" "openBriefOnly E env (pc_briefRecipients cfg) = Inr brief"
      "recipientsOf brief = Inr as" "bindR (fld env ''postmark'') (\<lambda>pm. fld pm ''id'') = Inr i"
    | (kept) "fst (process E cfg now wall env s) = s"
      "\<And>r. snd (process E cfg now wall env s) = Inr r \<Longrightarrow> pp_rejection r \<noteq> None \<and> pp_results r = []"
proof (cases "\<exists>brief as i. envelope_verified E cfg now env \<and> openBriefOnly E env (pc_briefRecipients cfg) = Inr brief \<and>
      recipientsOf brief = Inr as \<and> bindR (fld env ''postmark'') (\<lambda>pm. fld pm ''id'') = Inr i")
  case True
  then show ?thesis using delivered by blast
next
  case False
  have "fst (process E cfg now wall env s) = s \<and>
     (\<forall>r. snd (process E cfg now wall env s) = Inr r \<longrightarrow> pp_rejection r \<noteq> None \<and> pp_results r = [])"
  proof (cases "bindR (fld env ''postmark'') (\<lambda>pm. fld pm ''id'')")
    case (Inl e)
    then show ?thesis by (simp add: process_def)
  next
    case i: (Inr i)
    show ?thesis
    proof (cases "firstRejection E cfg now env")
      case (Inl e)
      with i show ?thesis by (simp add: process_def)
    next
      case f: (Inr rej)
      show ?thesis
      proof (cases rej)
        case (Some r)
        with i f show ?thesis by (simp add: process_def)
      next
        case None
        show ?thesis
        proof (cases "openBriefOnly E env (pc_briefRecipients cfg)")
          case (Inl e)
          with i f None show ?thesis by (simp add: process_def)
        next
          case (Inr brief)
          from f None have "envelope_verified E cfg now env" by (simp add: firstRejection_passed)
          with False i Inr have n: "\<nexists>as. recipientsOf brief = Inr as" by blast
          with i f None Inr show ?thesis
            by (auto simp: process_def recipientsOf_def bindX_lift_cases bindR_def split: sum.splits option.splits json.splits)
        qed
      qed
    qed
  qed
  then show ?thesis using kept by blast
qed


section \<open>What the pipeline guarantees\<close>

text \<open>C30. Nothing enters an inbox unchecked, also when a later recipient makes the call throw. If what the
  inbox holds for an address changed, then every step the configuration does not skip has passed (the
  signature under the key of the domain that the postmark names, the expiry, a session id that is not
  retired, the session MAC, the domain's policy), the brief opened, the address is one of its recipients,
  local, admitted by its own gate and not blocking the sender; and the new entry is the envelope itself.\<close>

theorem pipeline_admits_only_verified:
  assumes "process E cfg now wall env s = (s', r)" "waiting s' a \<noteq> waiting s a"
  shows "envelope_verified E cfg now env \<and>
    (\<exists>brief as. openBriefOnly E env (pc_briefRecipients cfg) = Inr brief \<and> recipientsOf brief = Inr as \<and> a \<in> set as \<and>
       cleared E cfg wall env brief a \<and> last (waiting s' a) = encodeEnvelope E (objOf env))"
proof (cases rule: process_cases [where E = E and cfg = cfg and now = now and env = env and wall = wall and s = s])
  case (delivered brief as i)
  have "s' = fst (deliverAll E cfg wall env brief (encodeEnvelope E (objOf env)) as s)"
    using assms(1) unfolding process_verified [OF delivered] by (auto simp: bindX_def split: sum.splits prod.splits)
  with deliverAll_inbox [of E cfg wall env brief "encodeEnvelope E (objOf env)" as s a] assms(2) delivered show ?thesis
    by metis
next
  case kept
  with assms show ?thesis by simp
qed

text \<open>C31. Every outcome is accounted for. A rejected envelope leaves the inbox as it was and reports no
  recipient. An accepted one reports each recipient of the opened brief once, in the order of \<open>to\<close> and then
  \<open>cc\<close>; a recipient has no reason code exactly when it was cleared, and is then reported delivered; and the
  inbox is the old one with the envelope stored for exactly those recipients, in that order.\<close>

theorem pipeline_accounts_for_recipients:
  assumes "process E cfg now wall env s = (s', Inr r)"
  shows "(pp_rejection r \<noteq> None \<longrightarrow> s' = s \<and> pp_results r = []) \<and>
    (pp_rejection r = None \<longrightarrow>
       openBriefOnly E env (pc_briefRecipients cfg) = Inr (pp_brief r) \<and>
       recipientsOf (pp_brief r) = Inr (map sb_recipient (pp_results r)) \<and>
       (\<forall>x \<in> set (pp_results r). (sb_reason_code x = None \<longleftrightarrow> cleared E cfg wall env (pp_brief r) (sb_recipient x)) \<and>
          (sb_reason_code x = None \<longrightarrow> sb_status x = js ''delivered'')) \<and>
       s' = storeOutcomes cfg (encodeEnvelope E (objOf env)) (pp_results r) s)"
proof (cases rule: process_cases [where E = E and cfg = cfg and now = now and env = env and wall = wall and s = s])
  case (delivered brief as i)
  from assms obtain xs where
    "deliverAll E cfg wall env brief (encodeEnvelope E (objOf env)) as s = (s', Inr xs)"
    "r = \<lparr>pp_envelopeId = i, pp_brief = brief, pp_results = xs, pp_rejection = None\<rparr>"
    unfolding process_verified [OF delivered] by (auto simp: bindX_Inr)
  with deliverAll_outcomes [OF this(1)] delivered show ?thesis by simp
next
  case kept
  with assms show ?thesis by auto
qed

lemma blocked_from:
  assumes "fld brief ''from'' = Inr (Some (JStr f))" "pc_blockList cfg = Some lookup" "lookup a = Inr (Some l)"
  shows "blocked E cfg wall env brief a =
    Inr (if bk_entries l = [] then None else matchBlockList (pc_lower cfg) (e_date E) (Some l)
      \<lparr>bs_address = Some f, bs_domain = Some (secondPart f), bs_server = None, bs_isGroup = False\<rparr> wall)"
  using assms by (simp add: blocked_def blockSender_def matchSender_def callback_def)

lemma matchLoop_None: "(\<And>e. e \<in> set es \<Longrightarrow> ranks e = None) \<Longrightarrow> matchLoop ranks es 0 None = None"
  by (induction es) auto



section \<open>From the sender's composition to the recipient's inbox\<close>

lemma composed_algorithm:
  assumes "compose E inp = Inr env" "map_of env (js ''seal'') = Some (JObj s)"
  shows "map_of s (js ''algorithm'') = Some (JStr (suiteName (ci_suite inp)))"
proof -
  obtain bf ef br er sig mac where "env = sealed inp br er bf ef sig mac" using compose_Inr [OF assms(1)] by metis
  with assms(2) show ?thesis by (auto simp: sealed_def assemble_def seal_json_def js_eq split: option.splits)
qed

lemma openBriefWith_slot:
  assumes "openSlot E ''brief_recipients'' ''brief'' suite (Some (JObj env)) (ca_keyId c) (ca_privateKey c) (ca_publicKey c) = Inr v"
    and "map_of env (js ''seal'') = Some (JObj s)" "map_of s (js ''brief_recipients'') = Some (JObj br)"
  shows "\<exists>w. map_of br (ca_keyId c) = Some (JStr w) \<and> openBriefWith E suite (Some (JObj env)) c w = Inr v"
proof (cases "\<exists>w. map_of br (ca_keyId c) = Some (JStr w)")
  case True
  then obtain w where w: "map_of br (ca_keyId c) = Some (JStr w)" by blast
  with assms have "openBriefWith E suite (Some (JObj env)) c w = Inr v"
    by (auto simp: openSlot_def openBriefWith_def fld_object [OF assms(2)] fld_object [OF assms(3)] bindR_eq_Inr Let_def
        split: if_splits)
  with w show ?thesis by blast
next
  case False
  then have "openSlot E ''brief_recipients'' ''brief'' suite (Some (JObj env)) (ca_keyId c) (ca_privateKey c) (ca_publicKey c) \<noteq> Inr v"
    by (auto simp: openSlot_def fld_object [OF assms(2)] fld_object [OF assms(3)] bindR_eq_Inr Let_def
        split: option.splits json.splits)
  with assms(1) show ?thesis by blast
qed

lemma openBriefLoop_first:
  assumes "map_of env (js ''seal'') = Some (JObj s)" "map_of s (js ''brief_recipients'') = Some (JObj br)"
    and "\<forall>x \<in> set before. map_of br (ca_keyId x) = None"
    and "map_of br (ca_keyId c) = Some (JStr w)" "openBriefWith E suite (Some (JObj env)) c w = Inr v"
  shows "openBriefLoop E suite (Some (JObj env)) (before @ c # after) failed = Inr v"
  using assms(3) by (induction before) (simp_all add: fld_object [OF assms(1)] fld_object [OF assms(2)] assms(4,5))

lemma composed_brief_opens:
  assumes "envelope_env E" "compose_ok inp" "compose E inp = Inr env" "r \<in> set (ci_briefRecipients inp)"
    and "ca_keyId c = rk_keyId r" "ca_publicKey c = rk_publicKey r"
    and "key_pair (e_prims E) (suiteName (ci_suite inp)) (ca_privateKey c) (rk_publicKey r)"
    and "\<forall>x \<in> set before. ca_keyId x \<notin> rk_keyId ` set (ci_briefRecipients inp)"
  shows "openBriefOnly E (Some (JObj env)) (before @ c # after) = Inr (Some (sorted_form (ci_briefPlaintext inp)))"
proof -
  obtain br s where p: "wrapLoop E (ci_suite inp) (ci_kBrief inp) (ci_wrapRandomness inp) (ci_briefRecipients inp) [] = Inr br"
    and m: "map_of env (js ''seal'') = Some (JObj s)" "map_of s (js ''brief_recipients'') = Some (JObj br)"
    using composed [OF assms(2,3)] .
  have "\<forall>x \<in> set before. map_of br (ca_keyId x) = None"
    using assms(8) by (intro ballI) (subst wrapLoop_keeps [OF p], auto)
  moreover have "openSlot E ''brief_recipients'' ''brief'' (ci_suite inp) (Some (JObj env)) (ca_keyId c) (ca_privateKey c) (ca_publicKey c)
      = Inr (Some (sorted_form (ci_briefPlaintext inp)))"
    using composed_opens(2) [OF assms(1-4,7)] assms(5,6) by (simp add: openBriefForRecipient_def)
  ultimately have "openBriefLoop E (ci_suite inp) (Some (JObj env)) (before @ c # after) False
      = Inr (Some (sorted_form (ci_briefPlaintext inp)))"
    using openBriefWith_slot [OF _ m] openBriefLoop_first [OF m] by blast
  moreover have "fld (Some (JObj s)) ''algorithm'' = Inr (Some (JStr (suiteName (ci_suite inp))))"
    by (rule fld_object) (rule composed_algorithm [OF assms(3) m(1)])
  ultimately show ?thesis
    by (cases "ci_suite inp") (simp_all add: openBriefOnly_def fld_object [OF m(1)] js_eq del: openBriefLoop.simps)
qed

lemma deliverOne_delivers:
  assumes "cleared E cfg wall env brief a" "a \<noteq> JStr []"
  shows "deliverOne E cfg wall env brief bs a s =
    (inboxAfter cfg bs a s, Inr \<lparr>sb_recipient = a, sb_status = js ''delivered'', sb_reason_code = None\<rparr>)"
  using assms by (auto simp: deliverOne_def cleared_def inboxAfter_def inboxStore_def callback_def Let_def bindX_def split: option.splits)

lemma deliverAll_delivers:
  "\<forall>a \<in> set as. cleared E cfg wall env brief a \<and> a \<noteq> JStr [] \<Longrightarrow>
   deliverAll E cfg wall env brief bs as s =
     (foldl (\<lambda>s a. inboxAfter cfg bs a s) s as, Inr (map (\<lambda>a. \<lparr>sb_recipient = a, sb_status = js ''delivered'', sb_reason_code = None\<rparr>) as))"
  by (induction as arbitrary: s) (simp_all add: deliverOne_delivers bindX_def)

lemma inboxAfter_last:
  "pc_inbox cfg \<Longrightarrow> a \<noteq> JStr [] \<Longrightarrow> waiting (inboxAfter cfg bs a s) a \<noteq> [] \<and> last (waiting (inboxAfter cfg bs a s) a) = bs"
  by (auto simp: inboxAfter_def inboxStore_def waiting_def inboxDrain_def Let_def split: option.splits)

lemma inboxAfter_all_last:
  "pc_inbox cfg \<Longrightarrow> \<forall>a \<in> set as. a \<noteq> JStr [] \<Longrightarrow> a \<in> set as \<Longrightarrow>
   last (waiting (foldl (\<lambda>s a. inboxAfter cfg bs a s) s as) a) = bs"
proof (induction as rule: rev_induct)
  case (snoc b as)
  then show ?case using inboxAfter_last [of cfg a bs] inboxAfter_other [of a b cfg bs] by (cases "a = b") auto
qed simp


text \<open>A receiving server set up for an envelope: it knows the sender's domain key and the session's key, the
  envelope has not expired, its session is live, and the domain policy lets the sender's domain through.\<close>

definition ready_for :: "'n env \<Rightarrow> 'n pipeline_config \<Rightarrow> time \<Rightarrow> 'n compose_input \<Rightarrow> bool" where
  "ready_for E cfg now inp \<longleftrightarrow> (let pm = ci_postmark inp in
     (\<exists>domainKeys pub. pc_domainKeys cfg = Some domainKeys \<and> domainKeys (Some (JStr (pm_from_domain pm))) = Inr (Some pub) \<and>
        pub \<noteq> [] \<and> scheme_ok (plat E) (ci_senderDomainSigningSeed inp) pub) \<and>
     pc_envMAC cfg = Some (Inr (ci_kEnvMAC inp)) \<and> ci_kEnvMAC inp \<noteq> [] \<and>
     (pm_expires pm = [] \<or> (\<exists>t. e_date E (pm_expires pm) = Some t \<and> now \<le> t + skew cfg)) \<and>
     \<not> list_all whiteSpace (pm_session_id pm) \<and>
     (\<forall>lookup. pc_sessionRetired cfg = Some lookup \<longrightarrow> lookup (pm_session_id pm) \<noteq> Inr True) \<and>
     (\<forall>policy. pc_domainPolicy cfg = Some policy \<longrightarrow> policy (Some (JStr (pm_from_domain pm))) = Inr Pass))"

lemma postmark_more:
  "map_of (postmark_json p) (js ''expires'') = Some (JStr (pm_expires p))"
  "map_of (postmark_json p) (js ''session_id'') = Some (JStr (pm_session_id p))"
  by (simp_all add: postmark_json_def js_eq)

lemma ready_verified:
  assumes "envelope_env E" "compose_ok inp" "compose E inp = Inr env" "ready_for E cfg now inp"
  shows "envelope_verified E cfg now (Some (JObj env))"
proof -
  have "map_of env (js ''postmark'') = Some (JObj (postmark_json (ci_postmark inp)))" using composed [OF assms(2,3)] .
  note f = fld_object [OF this]
  note g = fld_object [OF postmark_fields(1)] fld_object [OF postmark_more(1)] fld_object [OF postmark_more(2)]
  from assms(4) obtain dk pub where k: "pc_domainKeys cfg = Some dk"
    "dk (Some (JStr (pm_from_domain (ci_postmark inp)))) = Inr (Some pub)" "pub \<noteq> []"
    "scheme_ok (plat E) (ci_senderDomainSigningSeed inp) pub" by (auto simp: ready_for_def Let_def)
  note v = proofs_verify [OF assms(1-3) k(4)]
  from k v(1) have "signed_by_domain E cfg (Some (JObj env))" by (simp add: signed_by_domain_def domainOf_def f g)
  moreover from assms(4) v(2) have "mac_verified E cfg (Some (JObj env))" by (simp add: mac_verified_def ready_for_def Let_def)
  moreover from assms(4) have "not_expired E cfg now (Some (JObj env))"
    by (auto simp add: not_expired_def ready_for_def Let_def f g stringOf_def)
  moreover from assms(4) have "session_live cfg (Some (JObj env))"
    by (simp add: session_live_def ready_for_def Let_def f g)
  ultimately show ?thesis using assms(4) by (simp add: envelope_verified_def domainOf_def f g ready_for_def Let_def)
qed

lemma recipients_sorted:
  assumes "plain (JObj m)" "map_of m (js ''to'') = Some (JArr (map JStr tos))" "map_of m (js ''cc'') = Some (JArr (map JStr ccs))"
  shows "recipientsOf (Some (sorted_form (JObj m))) = Inr (map JStr (tos @ ccs))"
proof -
  have d: "distinct (map fst m)" using assms(1) by simp
  obtain m' where m': "sorted_form (JObj m) = JObj m'" by (simp add: sorted_form.simps(2))
  have "map_of m' k = map_option sorted_form (map_of m k)" for k
    using map_of_sorted_form [OF d, of k] m' by (simp add: sorted_form.simps(2))
  with assms(2,3) have "map_of m' (js ''to'') = Some (JArr (map JStr tos))" "map_of m' (js ''cc'') = Some (JArr (map JStr ccs))"
    by (simp_all add: o_def)
  from fld_object [OF this(1)] fld_object [OF this(2)] show ?thesis by (simp add: recipientsOf_def m')
qed

text \<open>The run of the pipeline on a composed envelope whose recipients are all cleared.\<close>

lemma process_composed:
  assumes "envelope_env E" "compose_ready E inp" "compose E inp = Inr env" "ready_for E cfg now inp"
    and "pc_briefRecipients cfg = before @ c # after" "r \<in> set (ci_briefRecipients inp)"
    and "ca_keyId c = rk_keyId r" "ca_publicKey c = rk_publicKey r"
    and "key_pair (e_prims E) (suiteName (ci_suite inp)) (ca_privateKey c) (rk_publicKey r)"
    and "\<forall>x \<in> set before. ca_keyId x \<notin> rk_keyId ` set (ci_briefRecipients inp)"
    and "ci_briefPlaintext inp = JObj m" "map_of m (js ''to'') = Some (JArr (map JStr tos))"
    and "map_of m (js ''cc'') = Some (JArr (map JStr ccs))"
    and "\<forall>a \<in> set (tos @ ccs). a \<noteq> [] \<and> cleared E cfg wall (Some (JObj env)) (Some (sorted_form (JObj m))) (JStr a)"
  shows "process E cfg now wall (Some (JObj env)) s =
    (foldl (\<lambda>s a. inboxAfter cfg (encodeEnvelope E env) a s) s (map JStr (tos @ ccs)),
     Inr \<lparr>pp_envelopeId = Some (JStr (pm_id (ci_postmark inp))), pp_brief = Some (sorted_form (JObj m)),
       pp_results = map (\<lambda>a. \<lparr>sb_recipient = a, sb_status = js ''delivered'', sb_reason_code = None\<rparr>) (map JStr (tos @ ccs)),
       pp_rejection = None\<rparr>)"
proof -
  have ok: "compose_ok inp" using assms(2) by (simp add: compose_ready_def)
  have pl: "plain (JObj m)" using ok assms(11) by (simp add: compose_ok_def)
  let ?as = "map JStr (tos @ ccs)" and ?brief = "Some (sorted_form (JObj m))"
  have pm: "map_of env (js ''postmark'') = Some (JObj (postmark_json (ci_postmark inp)))" using composed [OF ok assms(3)] .
  have id: "bindR (fld (Some (JObj env)) ''postmark'') (\<lambda>pm. fld pm ''id'') = Inr (Some (JStr (pm_id (ci_postmark inp))))"
    by (simp add: fld_object [OF pm] fld_object [OF postmark_fields(2)])
  have opened: "openBriefOnly E (Some (JObj env)) (pc_briefRecipients cfg) = Inr ?brief"
    unfolding assms(5) composed_brief_opens [OF assms(1) ok assms(3,6-10)] assms(11) ..
  have clear: "\<forall>a \<in> set ?as. cleared E cfg wall (Some (JObj env)) ?brief a \<and> a \<noteq> JStr []" using assms(14) by auto
  note run = process_verified [OF ready_verified [OF assms(1) ok assms(3,4)] opened recipients_sorted [OF pl assms(12,13)] id]
  show ?thesis unfolding run by (simp only: objOf.simps deliverAll_delivers [OF clear] bindX_def prod.case sum.case) simp
qed


section \<open>The receiving server of an example\<close>

definition demo_mail :: "int compose_input" where
  "demo_mail = demo_input\<lparr>
     ci_postmark := \<lparr>pm_id = js ''m1'', pm_session_id = js ''s1'', pm_from_domain = js ''a.example'',
       pm_to_domain = js ''b.example'', pm_expires = [], pm_extensions = None\<rparr>,
     ci_briefPlaintext := JObj [(js ''from'', str ''x@a.example''), (js ''to'', JArr (map JStr [js ''bob''])),
       (js ''cc'', JArr (map JStr []))]\<rparr>"

definition demo_pipeline :: "int pipeline_config" where
  "demo_pipeline = \<lparr>pc_envMAC = Some (Inr (replicate 32 3)), pc_domainKeys = Some (\<lambda>d. Inr (Some (zeros 32))),
     pc_sessionRetired = None, pc_skipSignatureCheck = False, pc_skipSessionMACCheck = False, pc_skipExpiryCheck = False,
     pc_skipSessionIDCheck = False,
     pc_briefRecipients = [\<lparr>ca_keyId = js ''server'', ca_privateKey = replicate 32 5, ca_publicKey = replicate 32 5\<rparr>],
     pc_domainPolicy = None, pc_recipientPolicy = None, pc_blockList = None, pc_isLocal = (\<lambda>_. Inr True),
     pc_inbox = True, pc_clockSkewMs = None, pc_lower = (\<lambda>s. s)\<rparr>"

lemma demo_mail_ready: "compose_ready stream_env demo_mail"
  using demo_input_ready by (simp add: compose_ready_def compose_ok_def demo_mail_def js_eq)

lemma demo_mail_parts:
  "ci_postmark demo_mail = \<lparr>pm_id = js ''m1'', pm_session_id = js ''s1'', pm_from_domain = js ''a.example'',
       pm_to_domain = js ''b.example'', pm_expires = [], pm_extensions = None\<rparr>"
  "ci_kEnvMAC demo_mail = replicate 32 3" "ci_senderDomainSigningSeed demo_mail = zeros 32"
  "ci_suite demo_mail = Baseline" "demo_recipient ''server'' 5 \<in> set (ci_briefRecipients demo_mail)"
  by (simp_all add: demo_mail_def demo_input_def)

lemma demo_ready_for: "ready_for stream_env demo_pipeline 0 demo_mail"
  unfolding ready_for_def demo_mail_parts Let_def
  by (simp add: demo_pipeline_def stream_scheme) (simp add: js_def whiteSpace_def)

lemma demo_cleared: "cleared E demo_pipeline wall env brief a"
  by (simp add: cleared_def demo_pipeline_def gate_def blocked_def)

lemma demo_mail_brief:
  "ci_briefPlaintext demo_mail = JObj [(js ''from'', str ''x@a.example''), (js ''to'', JArr (map JStr [js ''bob''])),
       (js ''cc'', JArr (map JStr []))]"
  by (simp add: demo_mail_def)

lemma demo_pipeline_keys:
  "pc_briefRecipients demo_pipeline = [] @ \<lparr>ca_keyId = js ''server'', ca_privateKey = replicate 32 5, ca_publicKey = replicate 32 5\<rparr> # []"
  by (simp add: demo_pipeline_def)

lemma demo_all_cleared:
  "\<forall>a \<in> set ([js ''bob''] @ []). a \<noteq> [] \<and> cleared stream_env demo_pipeline 0 env brief (JStr a)"
  using demo_cleared by (simp add: js_def)

lemma demo_key:
  "ca_keyId \<lparr>ca_keyId = js ''server'', ca_privateKey = replicate 32 5, ca_publicKey = replicate 32 5\<rparr> = rk_keyId (demo_recipient ''server'' 5)"
  "ca_publicKey \<lparr>ca_keyId = js ''server'', ca_privateKey = replicate 32 5, ca_publicKey = replicate 32 5\<rparr> = rk_publicKey (demo_recipient ''server'' 5)"
  "key_pair (e_prims stream_env) (suiteName (ci_suite demo_mail))
     (ca_privateKey \<lparr>ca_keyId = js ''server'', ca_privateKey = replicate 32 5, ca_publicKey = replicate 32 5\<rparr>)
     (rk_publicKey (demo_recipient ''server'' 5))"
  "\<forall>x \<in> set []. ca_keyId x \<notin> rk_keyId ` set (ci_briefRecipients demo_mail)"
  using stream_key_pair [of 5] by (simp_all add: demo_recipient_def demo_mail_parts)

lemma demo_fields:
  "map_of [(js ''from'', str ''x@a.example''), (js ''to'', JArr (map JStr [js ''bob''])), (js ''cc'', JArr (map JStr []))] (js ''to'')
     = Some (JArr (map JStr [js ''bob'']))"
  "map_of [(js ''from'', str ''x@a.example''), (js ''to'', JArr (map JStr [js ''bob''])), (js ''cc'', JArr (map JStr []))] (js ''cc'')
     = Some (JArr (map JStr []))"
  by (simp_all add: js_eq)


lemma demo_delivery:
  assumes "compose stream_env demo_mail = Inr env"
  obtains s' res where "process stream_env demo_pipeline 0 0 (Some (JObj env)) (newInbox 10) = (s', Inr res)"
    "waiting s' (str ''bob'') \<noteq> waiting (newInbox 10) (str ''bob'' :: int json)" "pp_rejection res = None"
    "map sb_recipient (pp_results res) = [str ''bob'']"
proof -
  let ?bs = "encodeEnvelope stream_env env"
  have "waiting (inboxAfter demo_pipeline ?bs (str ''bob'') (newInbox 10)) (str ''bob'') \<noteq> []"
    by (rule conjunct1 [OF inboxAfter_last]) (simp_all add: demo_pipeline_def js_def)
  moreover have "waiting (newInbox 10) (str ''bob'' :: int json) = []" by (simp add: newInbox_def waiting_def inboxDrain_def)
  ultimately show ?thesis
    using process_composed [OF stream_env_ok demo_mail_ready assms demo_ready_for demo_pipeline_keys demo_mail_parts(5) demo_key
      demo_mail_brief demo_fields demo_all_cleared, of "newInbox 10"] that by simp
qed

theorem pipeline_admits_only_verified_witness:
  "\<exists>env. compose stream_env demo_mail = Inr env \<and> envelope_verified stream_env demo_pipeline 0 (Some (JObj env)) \<and>
     last (waiting (fst (process stream_env demo_pipeline 0 0 (Some (JObj env)) (newInbox 10))) (str ''bob'')) =
       encodeEnvelope stream_env env"
proof -
  obtain env where c: "compose stream_env demo_mail = Inr env" using compose_total [OF stream_env_ok demo_mail_ready] .
  obtain s' res where r: "process stream_env demo_pipeline 0 0 (Some (JObj env)) (newInbox 10) = (s', Inr res)"
    "waiting s' (str ''bob'') \<noteq> waiting (newInbox 10) (str ''bob'' :: int json)" using demo_delivery [OF c] by metis
  from pipeline_admits_only_verified [OF r] c r(1) show ?thesis by auto
qed

theorem pipeline_accounts_for_recipients_witness:
  "\<exists>env s' res. process stream_env demo_pipeline 0 0 (Some (JObj env)) (newInbox 10) = (s', Inr res) \<and>
     recipientsOf (pp_brief res) = Inr [str ''bob'']"
proof -
  obtain env where c: "compose stream_env demo_mail = Inr env" using compose_total [OF stream_env_ok demo_mail_ready] .
  obtain s' res where r: "process stream_env demo_pipeline 0 0 (Some (JObj env)) (newInbox 10) = (s', Inr res)"
    "pp_rejection res = None" "map sb_recipient (pp_results res) = [str ''bob'']" using demo_delivery [OF c] by metis
  from pipeline_accounts_for_recipients [OF r(1)] r show ?thesis by auto
qed


end
