(* ===== verification/Federation.thy ===== *)
theory Federation
  imports HandshakeServer
begin

text \<open>
  The handshake between two servers, \<^verbatim>\<open>src/src/handshake/federation.ts\<close>: the initiator and the responder
  as operations on their states, in the style of the client's and the server's machines. Random values
  and the generated session id are arguments (\<open>draws\<close>, \<open>server_draws\<close>). The arrays pinned in a configuration
  are the caller's, and are overwritten where the code fills them with zeros.
\<close>

section \<open>Messages\<close>

record domain_proof =
  dm_method :: jstr
  dm_data :: jstr

definition domain_proof_json :: "domain_proof \<Rightarrow> 'n json" where
  "domain_proof_json p = JObj [(js ''method'', JStr (dm_method p)), (js ''data'', JStr (dm_data p))]"

record federation_policy =
  fp_message_retention :: jstr
  fp_user_discovery :: jstr
  fp_relay_allowed :: bool

definition policy_block :: "federation_policy \<Rightarrow> 'n json" where
  "policy_block p = JObj [(js ''message_retention'', JStr (fp_message_retention p)),
     (js ''user_discovery'', JStr (fp_user_discovery p)), (js ''relay_allowed'', JBool (fp_relay_allowed p))]"

record federation_proof =
  fd_key_id :: jstr
  fd_signature :: jstr

definition federation_proof_json :: "federation_proof \<Rightarrow> 'n json" where
  "federation_proof_json p = JObj [(js ''key_id'', JStr (fd_key_id p)), (js ''signature'', JStr (fd_signature p))]"

text \<open>What the four messages share: type, step, party and version.\<close>

definition serverStepHeader :: "string \<Rightarrow> 'n obj" where
  "serverStepHeader stepName =
     [(js ''type'', str ''SEMP_HANDSHAKE''), (js ''step'', str stepName), (js ''party'', str ''server''),
      (js ''version'', JStr HandshakeVersion)]"

definition serverInit_json ::
  "(int \<Rightarrow> 'n) \<Rightarrow> jstr \<Rightarrow> jstr \<Rightarrow> jstr \<Rightarrow> key_ref \<Rightarrow> federation_proof \<Rightarrow> domain_proof \<Rightarrow> capabilities \<Rightarrow> 'n obj"
where
  "serverInit_json num nonce serverId serverDomain ephemeral prf domainProof caps =
     serverStepHeader ''init'' @
     [(js ''nonce'', JStr nonce), (js ''server_id'', JStr serverId), (js ''server_domain'', JStr serverDomain),
      (js ''server_ephemeral_key'', keyref_json ephemeral),
      (js ''server_identity_proof'', federation_proof_json prf),
      (js ''domain_proof'', domain_proof_json domainProof), (js ''capabilities'', capabilities_json num caps),
      (js ''server_signature'', JStr []), (js ''extensions'', JObj [])]"

definition federationResponse_json ::
  "jstr \<Rightarrow> 'n jsv \<Rightarrow> jstr \<Rightarrow> jstr \<Rightarrow> jstr \<Rightarrow> key_ref \<Rightarrow> federation_proof \<Rightarrow> 'n jsv \<Rightarrow> jstr \<Rightarrow> federation_policy \<Rightarrow> 'n obj"
where
  "federationResponse_json sessionId clientNonce serverNonce serverId serverDomain ephemeral prf proofMethod suite policy =
     serverStepHeader ''response'' @ [(js ''session_id'', JStr sessionId)] @ opt_field ''client_nonce'' clientNonce @
     [(js ''server_nonce'', JStr serverNonce), (js ''server_id'', JStr serverId),
      (js ''server_domain'', JStr serverDomain), (js ''server_ephemeral_key'', keyref_json ephemeral),
      (js ''server_identity_proof'', federation_proof_json prf),
      (js ''domain_verification_result'', JObj ((js ''status'', str ''verified'') # opt_field ''method'' proofMethod)),
      (js ''negotiated'', JObj [(js ''encryption_algorithm'', JStr suite), (js ''extensions'', JArr [])]),
      (js ''federation_policy'', policy_block policy),
      (js ''server_signature'', JStr []), (js ''extensions'', JObj [])]"

text \<open>The acceptance block: \<open>refusal\<close> is what the acceptor of the policy answered.\<close>

definition acceptance_json :: "jstr option \<Rightarrow> 'n json" where
  "acceptance_json refusal =
     (case refusal of
        None \<Rightarrow> JObj [(js ''accepted'', JBool True), (js ''policy_acknowledged'', JBool True)]
      | Some reason \<Rightarrow> JObj [(js ''accepted'', JBool False), (js ''policy_acknowledged'', JBool False),
          (js ''reason'', JStr reason)])"

definition federationConfirm_json :: "'n jsv \<Rightarrow> jstr \<Rightarrow> jstr option \<Rightarrow> 'n obj" where
  "federationConfirm_json sessionId confirmationHash64 refusal =
     serverStepHeader ''confirm'' @ opt_field ''session_id'' sessionId @
     [(js ''confirmation_hash'', JStr confirmationHash64), (js ''federation_acceptance'', acceptance_json refusal),
      (js ''server_signature'', JStr []), (js ''extensions'', JObj [])]"

definition federationAccepted_json :: "(int \<Rightarrow> 'n) \<Rightarrow> jstr \<Rightarrow> int \<Rightarrow> resumption_ticket option \<Rightarrow> 'n obj" where
  "federationAccepted_json num sessionId ttl ticket =
     serverStepHeader ''accepted'' @
     [(js ''session_id'', JStr sessionId), (js ''status'', str ''accepted''), (js ''session_ttl'', JNum (num ttl))] @
     opt_field ''resumption_ticket'' (map_option ticket_json ticket) @
     [(js ''server_signature'', JStr []), (js ''extensions'', JObj [])]"

section \<open>Signatures\<close>

definition signServerMessage :: "'n env \<Rightarrow> 'n obj \<Rightarrow> bytes \<Rightarrow> 'n hs_error + jstr" where
  "signServerMessage E msg seed =
     (let clone = obj_set (js ''server_signature'') (JStr []) msg in
      bindR (cr (sign (e_prims E) seed (e_utf8 E HandshakePrefix @ marshalE E (JObj clone)))) (\<lambda>sig.
      Inr (e_enc64 E sig)))"

text \<open>\<open>msg.server_signature = signServerMessage(msg, seed)\<close>.\<close>

definition signedBy :: "'n env \<Rightarrow> 'n obj \<Rightarrow> bytes \<Rightarrow> 'n hs_error + 'n obj" where
  "signedBy E msg seed =
     bindR (signServerMessage E msg seed) (\<lambda>sig. Inr (obj_set (js ''server_signature'') (JStr sig) msg))"

definition verifyServerMessage :: "'n env \<Rightarrow> 'n jsv \<Rightarrow> 'n jsv \<Rightarrow> bytes \<Rightarrow> 'n hs_error + bool" where
  "verifyServerMessage E msg signatureB64 domainPub =
     (if signatureB64 = Some (JStr []) then Inr False
      else
        let clone = obj_set (js ''server_signature'') (JStr []) (objOf msg);
            signingInput = e_utf8 E HandshakePrefix @ marshalE E (JObj clone) in
        bindR (b64 E signatureB64) (\<lambda>sig. Inr (verify (e_prims E) domainPub sig signingInput)))"

text \<open>The check both sides make of every message.\<close>

definition checkServerMessage :: "'n env \<Rightarrow> 'n jsv \<Rightarrow> bytes \<Rightarrow> 'n hs_error + unit" where
  "checkServerMessage E m domainPub =
     bindR (fld m ''server_signature'') (\<lambda>sig. bindR (verifyServerMessage E m sig domainPub) (\<lambda>ok.
     if \<not> ok then Inl (HsFail ''server_signature did not verify'') else Inr ()))"

text \<open>\<open>type\<close>, \<open>step\<close> and \<open>party\<close> of a received message.\<close>

definition checkHeader :: "'n jsv \<Rightarrow> string \<Rightarrow> 'n hs_error + unit" where
  "checkHeader m stepName =
     bindR (fld m ''type'') (\<lambda>type. bindR (fld m ''step'') (\<lambda>step. bindR (fld m ''party'') (\<lambda>party.
     if type \<noteq> Some (str ''SEMP_HANDSHAKE'') \<or> step \<noteq> Some (str stepName) \<or> party \<noteq> Some (str ''server'') then
       Inl (HsFail ''type/step/party mismatch'')
     else Inr ())))"

section \<open>Collisions\<close>

definition resolveCollision :: "jstr \<Rightarrow> jstr \<Rightarrow> jstr" where
  "resolveCollision idA idB = (if idA > idB then idA else idB)"

section \<open>Initiator: state\<close>

record 'n initiator_config =
  fi_suite :: jstr
  fi_capabilities :: capabilities
  fi_localDomain :: jstr
  fi_localServerID :: jstr
  fi_localDomainSeed :: bytes
  fi_peerDomainPubLookup :: "'n jsv \<Rightarrow> bytes callback"
  fi_peerDomain :: jstr
  fi_domainProof :: domain_proof
  fi_policyAcceptor :: "('n jsv \<Rightarrow> jstr option callback) option"
  fi_ephemeralPriv :: "bytes option"
  fi_nonce :: "bytes option"

record 'n initiator_session =
  is_sessionId :: "'n jsv"
  is_sessionTTL :: "'n jsv"
  is_keys :: session_keys
  is_peerDomain :: jstr
  is_ticket :: "'n jsv"
  is_extensions :: "'n jsv"

record 'n initiator =
  in_cfg :: "'n initiator_config"
  in_localDomainKeyId :: jstr
  in_nonce :: "bytes option"
  in_ephPriv :: "bytes option"
  in_ephPub :: "bytes option"
  in_initCanonical :: "bytes option"
  in_respCanonical :: "bytes option"
  in_sessionId :: "'n jsv"
  in_sessionKeys :: "session_keys option"
  in_finalSession :: "'n initiator_session option"
  in_resumptionSecret :: "bytes option"
  in_resumeNonce :: "bytes option"

definition acceptAllPolicies :: "'n jsv \<Rightarrow> jstr option callback" where
  "acceptAllPolicies policy = Inr None"

definition newInitiator :: "'n env \<Rightarrow> 'n initiator_config \<Rightarrow> 'n hs_error + 'n initiator" where
  "newInitiator E cfg =
     (if fi_suite cfg \<noteq> baseSuite \<and> fi_suite cfg \<noteq> pqSuite then Inl (HsFail ''unknown suite'')
      else if fi_localDomain cfg = [] then Inl (HsFail ''empty localDomain'')
      else if fi_localServerID cfg = [] then Inl (HsFail ''empty localServerID'')
      else if fi_localDomainSeed cfg = [] then Inl (HsFail ''empty localDomainSeed'')
      else if fi_peerDomain cfg = [] then Inl (HsFail ''empty peerDomain'')
      else
        bindR (cr (publicKeyFromSeed (e_prims E) (fi_localDomainSeed cfg))) (\<lambda>pub.
        bindR (cr (fingerprint (e_prims E) pub)) (\<lambda>keyId.
        Inr \<lparr>in_cfg = cfg, in_localDomainKeyId = keyId, in_nonce = fi_nonce cfg, in_ephPriv = fi_ephemeralPriv cfg,
          in_ephPub = None, in_initCanonical = None, in_respCanonical = None, in_sessionId = Some (JStr []),
          in_sessionKeys = None, in_finalSession = None, in_resumptionSecret = None, in_resumeNonce = None\<rparr>)))"

section \<open>Initiator: messages 1 and 3\<close>

definition fedInit :: "'n env \<Rightarrow> draws \<Rightarrow> ('n initiator, 'n hs_error, bytes) op" where
  "fedInit E r =
     bindX get (\<lambda>c.
     let cfg = in_cfg c in
     bindX (throwIf (in_initCanonical c \<noteq> None) (HsFail ''federation initiator init already called'')) (\<lambda>_.
     bindX
       (if fi_suite cfg = pqSuite then
          bindX (throwIf (fi_ephemeralPriv cfg \<noteq> None) (HsFail ''PQ ephemeral pinning not supported'')) (\<lambda>_.
          bindX (lift (cr (hybridGenerateKeyPair (e_prims E) (dr_x25519 r) (dr_kemSeed r)))) (\<lambda>(pub, priv).
          bindX (modify (\<lambda>c. c\<lparr>in_ephPriv := Some priv, in_ephPub := Some pub\<rparr>)) (\<lambda>_. ret pub)))
        else
          let priv = (case in_ephPriv c of None \<Rightarrow> dr_x25519 r | Some p \<Rightarrow> p) in
          bindX (modify (\<lambda>c. c\<lparr>in_ephPriv := Some priv\<rparr>)) (\<lambda>_.
          bindX (lift (cr (x25519PublicKey (e_prims E) priv))) (\<lambda>pub.
          bindX (modify (\<lambda>c. c\<lparr>in_ephPub := Some pub\<rparr>)) (\<lambda>_. ret pub))))
     (\<lambda>ephPub.
     let nonce = (case in_nonce c of None \<Rightarrow> dr_nonce r | Some n \<Rightarrow> n) in
     bindX (modify (\<lambda>c. c\<lparr>in_nonce := Some nonce\<rparr>)) (\<lambda>_.
     bindX (lift (cr (fingerprint (e_prims E) ephPub))) (\<lambda>ephKeyId.
     bindX (lift (cr (sign (e_prims E) (fi_localDomainSeed cfg) (e_utf8 E IdentityPrefix @ (ephPub @ nonce))))) (\<lambda>innerSig.
     bindX (lift (signedBy E (serverInit_json (e_num E) (e_enc64 E nonce) (fi_localServerID cfg) (fi_localDomain cfg)
         \<lparr>kr_algorithm = fi_suite cfg, kr_key = e_enc64 E ephPub, kr_key_id = ephKeyId\<rparr>
         \<lparr>fd_key_id = in_localDomainKeyId c, fd_signature = e_enc64 E innerSig\<rparr>
         (fi_domainProof cfg) (fi_capabilities cfg)) (fi_localDomainSeed cfg))) (\<lambda>msg.
     let initCanonical = marshalE E (JObj msg) in
     bindX (modify (\<lambda>c. c\<lparr>in_initCanonical := Some initCanonical\<rparr>)) (\<lambda>_.
     ret initCanonical))))))))"

definition initiatorShared :: "'n env \<Rightarrow> 'n initiator \<Rightarrow> bytes \<Rightarrow> bytes \<Rightarrow> 'n hs_error + bytes" where
  "initiatorShared E c ephPriv serverEphPub =
     (if fi_suite (in_cfg c) = pqSuite then
        (case in_ephPub c of
           Some pub \<Rightarrow>
             if length pub \<noteq> HybridPublicKeySize then Inl (HsFail ''PQ ephemeral pub size mismatch'')
             else cr (hybridDecapsulate (e_prims E) serverEphPub ephPriv)
         | None \<Rightarrow> Inl (HsFail ''PQ ephemeral pub size mismatch''))
      else cr (x25519Agree (e_prims E) ephPriv serverEphPub))"

text \<open>The checks on a RESPONSE, and the session keys it leads to: what precedes the first change of the state.\<close>

definition fedResponseKeys ::
  "'n env \<Rightarrow> 'n initiator \<Rightarrow> bytes \<Rightarrow> bytes \<Rightarrow> bytes \<Rightarrow> 'n hs_error + ('n jsv \<times> session_keys)"
where
  "fedResponseKeys E c ephPriv nonce data =
     (let cfg = in_cfg c in
      bindR (parseFrame E data) (\<lambda>m.
      bindR (fld m ''step'') (\<lambda>step.
      if step = Some (str ''rejected'') then rejection m else
      bindR (checkHeader m ''response'') (\<lambda>_.
      bindR (fld m ''server_domain'') (\<lambda>domain.
      if domain \<noteq> Some (JStr (fi_peerDomain cfg)) then Inl (HsFail ''response server_domain != configured peer'') else
      bindR (fld m ''client_nonce'') (\<lambda>clientNonce.
      if clientNonce \<noteq> Some (JStr (e_enc64 E nonce)) then Inl (HsFail ''response client_nonce mismatch'') else
      bindR (fld m ''domain_verification_result'') (\<lambda>result. bindR (fld result ''status'') (\<lambda>status.
      if status \<noteq> Some (str ''verified'') then Inl (HsFail ''peer rejected our domain proof'') else
      bindR (callback (fi_peerDomainPubLookup cfg domain)) (\<lambda>peerDomainPub.
      bindR (checkServerMessage E m peerDomainPub) (\<lambda>_.
      bindR (fld m ''server_ephemeral_key'') (\<lambda>ek. bindR (fld ek ''key'') (\<lambda>key.
      bindR (b64 E key) (\<lambda>serverEphPub.
      bindR (fld m ''server_nonce'') (\<lambda>sn. bindR (b64 E sn) (\<lambda>serverNonce.
      bindR (fld m ''server_identity_proof'') (\<lambda>idp. bindR (fld idp ''signature'') (\<lambda>psig.
      bindR (b64 E psig) (\<lambda>innerSig.
      if \<not> verify (e_prims E) peerDomainPub innerSig (e_utf8 E IdentityPrefix @ ((serverEphPub @ serverNonce) @ nonce)) then
        Inl (HsFail ''peer inner identity_signature did not verify'') else
      bindR (initiatorShared E c ephPriv serverEphPub) (\<lambda>shared.
      Inr (m, deriveSessionKeysWithResumption (e_prims E) (e_utf8 E) shared nonce serverNonce))))))))))))))))))))"

text \<open>\<open>this.ephPriv.fill(0); this.ephPriv = null\<close>.\<close>

definition dropInitiatorEphemeral :: "'n initiator \<Rightarrow> 'n initiator" where
  "dropInitiatorEphemeral c = c\<lparr>in_ephPriv := None,
     in_cfg := (in_cfg c)\<lparr>fi_ephemeralPriv := map_option (\<lambda>p. zeros (length p)) (fi_ephemeralPriv (in_cfg c))\<rparr>\<rparr>"

definition fedOnResponse :: "'n env \<Rightarrow> bytes \<Rightarrow> ('n initiator, 'n hs_error, bytes) op" where
  "fedOnResponse E data =
     bindX get (\<lambda>c.
     case in_initCanonical c of
       None \<Rightarrow> throw (HsFail ''onResponse before init'')
     | Some initCanonical \<Rightarrow>
       (case (in_ephPriv c, in_nonce c) of
          (Some ephPriv, Some nonce) \<Rightarrow>
            bindX (lift (fedResponseKeys E c ephPriv nonce data)) (\<lambda>(resp, keys).
            bindX (modify (\<lambda>c. c\<lparr>in_sessionKeys := Some keys\<rparr>)) (\<lambda>_.
            bindX (modify dropInitiatorEphemeral) (\<lambda>_.
            let respCanonical = marshalE E (JObj (objOf resp)) in
            bindX (modify (\<lambda>c. c\<lparr>in_respCanonical := Some respCanonical\<rparr>)) (\<lambda>_.
            let ch = confirmationHash (e_prims E) initCanonical respCanonical;
                acceptor = (case fi_policyAcceptor (in_cfg c) of None \<Rightarrow> acceptAllPolicies | Some f \<Rightarrow> f) in
            bindX (lift (fld resp ''federation_policy'')) (\<lambda>policy.
            bindX (lift (callback (acceptor policy))) (\<lambda>refusal.
            bindX (lift (fld resp ''session_id'')) (\<lambda>sid.
            bindX (lift (signedBy E (federationConfirm_json sid (e_enc64 E ch) refusal)
              (fi_localDomainSeed (in_cfg c)))) (\<lambda>confirm.
            bindX (modify (\<lambda>c. c\<lparr>in_sessionId := sid\<rparr>)) (\<lambda>_.
            ret (marshalE E (JObj confirm)))))))))))
        | _ \<Rightarrow> throw (HsFail ''federation initiator state missing'')))"

section \<open>Initiator: message 4\<close>

definition fedTtl :: "'n env \<Rightarrow> 'n jsv \<Rightarrow> 'n jsv" where
  "fedTtl E v = (if e_gt E v 0 then v else Some (JNum (e_num E 3600)))"

text \<open>The object that becomes the session of the initiator.\<close>

definition initiatorSessionOf :: "'n env \<Rightarrow> 'n jsv \<Rightarrow> session_keys \<Rightarrow> jstr \<Rightarrow> 'n initiator_session" where
  "initiatorSessionOf E acc keys peerDomain =
     (let get = (\<lambda>k. map_of (objOf acc) (js k)) in
      \<lparr>is_sessionId = get ''session_id'', is_sessionTTL = fedTtl E (get ''session_ttl''), is_keys = keys,
       is_peerDomain = peerDomain, is_ticket = get ''resumption_ticket'', is_extensions = get ''extensions''\<rparr>)"

definition fedCheckAccepted :: "'n env \<Rightarrow> 'n initiator \<Rightarrow> bytes \<Rightarrow> 'n hs_error + 'n jsv" where
  "fedCheckAccepted E c data =
     bindR (parseFrame E data) (\<lambda>m.
     bindR (fld m ''step'') (\<lambda>step.
     if step = Some (str ''rejected'') then rejection m else
     bindR (checkHeader m ''accepted'') (\<lambda>_.
     bindR (fld m ''session_id'') (\<lambda>sid.
     if \<not> strictEq sid (in_sessionId c) then Inl (HsFail ''accepted session_id mismatch'') else
     bindR (callback (fi_peerDomainPubLookup (in_cfg c) (Some (JStr (fi_peerDomain (in_cfg c)))))) (\<lambda>peerDomainPub.
     bindR (checkServerMessage E m peerDomainPub) (\<lambda>_. Inr m))))))"

definition fedOnAccepted :: "'n env \<Rightarrow> bytes \<Rightarrow> ('n initiator, 'n hs_error, unit) op" where
  "fedOnAccepted E data =
     bindX get (\<lambda>c.
     case in_sessionKeys c of
       None \<Rightarrow> throw (HsFail ''onAccepted before onResponse'')
     | Some keys \<Rightarrow>
         bindX (lift (fedCheckAccepted E c data)) (\<lambda>acc.
         modify (\<lambda>c. c\<lparr>in_finalSession := Some (initiatorSessionOf E acc keys (fi_peerDomain (in_cfg c)))\<rparr>)))"

definition fedSession :: "'n initiator \<Rightarrow> 'n hs_error + 'n initiator_session" where
  "fedSession c = (case in_finalSession c of
      None \<Rightarrow> Inl (HsFail ''federation session not yet established'') | Some s \<Rightarrow> Inr s)"

section \<open>Initiator: resumption and erasure\<close>

definition fedLoadResumptionSecret :: "bytes \<Rightarrow> ('n initiator, 'n hs_error, unit) op" where
  "fedLoadResumptionSecret secret =
     bindX (throwIf (secret = []) (HsFail ''empty resumption secret'')) (\<lambda>_.
     modify (\<lambda>c. c\<lparr>in_resumptionSecret := Some secret\<rparr>))"

definition fedResume :: "'n env \<Rightarrow> draws \<Rightarrow> bytes \<Rightarrow> int \<Rightarrow> ('n initiator, 'n hs_error, bytes) op" where
  "fedResume E r ticket peerConfigurationRevision =
     bindX get (\<lambda>c.
     bindX (throwIf (in_resumptionSecret c = None) (HsFail ''resume before loadResumptionSecret'')) (\<lambda>_.
     bindX (throwIf (ticket = []) (HsFail ''empty federation resumption ticket'')) (\<lambda>_.
     let nonce = (case in_resumeNonce c of None \<Rightarrow> dr_resumeNonce r | Some n \<Rightarrow> n);
         priv = (case in_ephPriv c of None \<Rightarrow> dr_x25519 r | Some p \<Rightarrow> p) in
     bindX (modify (\<lambda>c. c\<lparr>in_resumeNonce := Some nonce, in_ephPriv := Some priv\<rparr>)) (\<lambda>_.
     bindX (lift (cr (x25519PublicKey (e_prims E) priv))) (\<lambda>ephPub.
     bindX (modify (\<lambda>c. c\<lparr>in_ephPub := Some ephPub\<rparr>)) (\<lambda>_.
     bindX (lift (cr (fingerprint (e_prims E) ephPub))) (\<lambda>ephKeyId.
     ret (marshalE E (JObj
       (serverStepHeader ''resume'' @
        [(js ''nonce'', JStr (e_enc64 E nonce)), (js ''server_id'', JStr (fi_localServerID (in_cfg c))),
         (js ''server_domain'', JStr (fi_localDomain (in_cfg c)))] @
        (if peerConfigurationRevision > 0
         then [(js ''peer_configuration_revision'', JNum (e_num E peerConfigurationRevision))] else []) @
        [(js ''resumption_ticket'', JStr (e_enc64 E ticket)),
         (js ''client_ephemeral_key'', keyref_json \<lparr>kr_algorithm = fi_suite (in_cfg c), kr_key = e_enc64 E ephPub,
            kr_key_id = ephKeyId\<rparr>),
         (js ''transport'', str ''websocket''), (js ''extensions'', JObj [])]))))))))))"

text \<open>The checks on the answer to a resumption, and the secret it leads to.\<close>

definition fedCheckResumed :: "'n env \<Rightarrow> 'n initiator \<Rightarrow> bytes \<Rightarrow> bytes \<Rightarrow> 'n hs_error + ('n jsv \<times> bytes \<times> bytes)" where
  "fedCheckResumed E c ephPriv data =
     bindR (parseFrame E data) (\<lambda>m.
     bindR (fld m ''step'') (\<lambda>step.
     if step = Some (str ''rejected'') then rejection m else
     bindR (checkHeader m ''accepted'') (\<lambda>_.
     bindR (fld m ''server_ephemeral_key'') (\<lambda>ek. bindR (fld m ''server_nonce'') (\<lambda>sn.
     bindR (fld m ''resumption_ticket'') (\<lambda>ticket.
     if ek = None \<or> sn = None \<or> ticket = None then Inl (HsFail ''resumed federation accepted missing fields'') else
     bindR (callback (fi_peerDomainPubLookup (in_cfg c) (Some (JStr (fi_peerDomain (in_cfg c)))))) (\<lambda>peerDomainPub.
     bindR (checkServerMessage E m peerDomainPub) (\<lambda>_.
     bindR (b64 E sn) (\<lambda>serverNonce.
     bindR (fld ek ''key'') (\<lambda>key. bindR (b64 E key) (\<lambda>serverEphPub.
     bindR (cr (x25519Agree (e_prims E) ephPriv serverEphPub)) (\<lambda>ephShared.
     Inr (m, serverNonce, ephShared)))))))))))))"

definition fedOnResumeAccepted :: "'n env \<Rightarrow> bytes \<Rightarrow> ('n initiator, 'n hs_error, 'n initiator_session \<times> bytes) op" where
  "fedOnResumeAccepted E data =
     bindX get (\<lambda>c.
     case (in_resumptionSecret c, in_resumeNonce c) of
       (Some secret, Some nonce) \<Rightarrow>
         (case in_ephPriv c of
            None \<Rightarrow> throw (HsFail ''federation resume ephemeral missing'')
          | Some ephPriv \<Rightarrow>
              bindX (lift (fedCheckResumed E c ephPriv data)) (\<lambda>(acc, serverNonce, ephShared).
              bindX (modify dropInitiatorEphemeral) (\<lambda>_.
              let resumed = deriveSessionKeysWithResumption (e_prims E) (e_utf8 E) (secret @ ephShared) nonce serverNonce;
                  sess = initiatorSessionOf E acc resumed (fi_peerDomain (in_cfg c)) in
              bindX (modify (\<lambda>c. c\<lparr>in_resumptionSecret := None, in_finalSession := Some sess\<rparr>)) (\<lambda>_.
              bindX (lift (fld (is_ticket sess) ''value'')) (\<lambda>v. bindX (lift (b64 E v)) (\<lambda>newTicket.
              ret (sess, newTicket)))))))
     | _ \<Rightarrow> throw (HsFail ''onResumeAccepted before resume''))"

definition fedErase :: "'n initiator \<Rightarrow> 'n initiator" where
  "fedErase c =
     (let c = (if in_ephPriv c \<noteq> None then dropInitiatorEphemeral c else c);
          c = (if in_nonce c \<noteq> None then c\<lparr>in_nonce := None,
                 in_cfg := (in_cfg c)\<lparr>fi_nonce := map_option (\<lambda>n. zeros (length n)) (fi_nonce (in_cfg c))\<rparr>\<rparr> else c) in
      c\<lparr>in_resumptionSecret := None, in_sessionKeys := None\<rparr>)"

section \<open>Responder: state\<close>

record 'n responder_config =
  fr_suite :: jstr
  fr_capabilities :: capabilities
  fr_localDomain :: jstr
  fr_localServerID :: jstr
  fr_localDomainSeed :: bytes
  fr_peerDomainPubLookup :: "'n jsv \<Rightarrow> bytes callback"
  fr_verifier :: "('n jsv \<Rightarrow> 'n jsv \<Rightarrow> 'n jsv \<Rightarrow> unit callback) option"
  fr_policy :: federation_policy
  fr_sessionTTL :: "int option"
  fr_ephemeralPriv :: "bytes option"
  fr_hybridRandomness :: "(bytes \<times> bytes) option"
  fr_nonce :: "bytes option"

record 'n responder_session =
  rp_sessionId :: jstr
  rp_sessionTTL :: int
  rp_keys :: session_keys
  rp_peerDomain :: "'n jsv"

record 'n responder =
  re_cfg :: "'n responder_config"
  re_localDomainKeyId :: jstr
  re_verifier :: "'n jsv \<Rightarrow> 'n jsv \<Rightarrow> 'n jsv \<Rightarrow> unit callback"
  re_sessionTTL :: int
  re_sessionId :: jstr
  re_peerDomain :: "'n jsv"
  re_peerNonce :: "bytes option"
  re_serverNonce :: "bytes option"
  re_ephPriv :: "bytes option"
  re_initCanonical :: "bytes option"
  re_respCanonical :: "bytes option"
  re_sessionKeys :: "session_keys option"
  re_finalSession :: "'n responder_session option"

definition trustingVerify :: "'n jsv \<Rightarrow> 'n jsv \<Rightarrow> 'n jsv \<Rightarrow> unit callback" where
  "trustingVerify domain prf nonce = Inr ()"

definition newResponder :: "'n env \<Rightarrow> 'n responder_config \<Rightarrow> 'n hs_error + 'n responder" where
  "newResponder E cfg =
     (if fr_suite cfg \<noteq> baseSuite \<and> fr_suite cfg \<noteq> pqSuite then Inl (HsFail ''unknown suite'')
      else if fr_localDomain cfg = [] then Inl (HsFail ''empty localDomain'')
      else if fr_localDomainSeed cfg = [] then Inl (HsFail ''empty localDomainSeed'')
      else
        bindR (cr (publicKeyFromSeed (e_prims E) (fr_localDomainSeed cfg))) (\<lambda>pub.
        bindR (cr (fingerprint (e_prims E) pub)) (\<lambda>keyId.
        Inr \<lparr>re_cfg = cfg, re_localDomainKeyId = keyId,
          re_verifier = (case fr_verifier cfg of None \<Rightarrow> trustingVerify | Some v \<Rightarrow> v),
          re_sessionTTL = (case fr_sessionTTL cfg of None \<Rightarrow> 3600 | Some t \<Rightarrow> t), re_sessionId = [],
          re_peerDomain = Some (JStr []), re_peerNonce = None, re_serverNonce = None, re_ephPriv = None,
          re_initCanonical = None, re_respCanonical = None, re_sessionKeys = None, re_finalSession = None\<rparr>)))"

section \<open>Responder: messages 1 and 2\<close>

text \<open>The checks on an INIT: the domain, its two signatures, the proof of the domain, and the suite.\<close>

definition checkServerInit ::
  "'n env \<Rightarrow> 'n responder \<Rightarrow> bytes \<Rightarrow> 'n hs_error + ('n jsv \<times> bytes \<times> bytes \<times> 'n jsv)"
where
  "checkServerInit E s data =
     (let cfg = re_cfg s in
      bindR (parseFrame E data) (\<lambda>m.
      bindR (checkHeader m ''init'') (\<lambda>_.
      bindR (fld m ''server_domain'') (\<lambda>domain.
      if domain = Some (JStr []) then Inl (HsFail ''empty initiator server_domain'') else
      bindR (callback (fr_peerDomainPubLookup cfg domain)) (\<lambda>peerDomainPub.
      bindR (checkServerMessage E m peerDomainPub) (\<lambda>_.
      bindR (fld m ''server_ephemeral_key'') (\<lambda>ek. bindR (fld ek ''key'') (\<lambda>key.
      bindR (b64 E key) (\<lambda>clientEphPub.
      bindR (fld m ''nonce'') (\<lambda>nonce. bindR (b64 E nonce) (\<lambda>clientNonce.
      bindR (fld m ''server_identity_proof'') (\<lambda>idp. bindR (fld idp ''signature'') (\<lambda>psig.
      bindR (b64 E psig) (\<lambda>innerSig.
      if \<not> verify (e_prims E) peerDomainPub innerSig (e_utf8 E IdentityPrefix @ (clientEphPub @ clientNonce)) then
        Inl (HsFail ''init inner identity_signature did not verify'') else
      bindR (fld m ''domain_proof'') (\<lambda>domainProof. bindR (fld domainProof ''method'') (\<lambda>proofMethod.
      case re_verifier s domain domainProof nonce of
        Inl detail \<Rightarrow> Inl (HsFail ''federation domain proof verification failed'')
      | Inr _ \<Rightarrow>
          bindR (fld m ''capabilities'') (\<lambda>caps. bindR (fld caps ''encryption_algorithms'') (\<lambda>offered.
          bindR (pickSuite offered (encryption_algorithms (fr_capabilities cfg))) (\<lambda>picked.
          case picked of
            None \<Rightarrow> Inl (HsFail ''federation no mutually supported suite'')
          | Some suite \<Rightarrow>
              if suite \<noteq> fr_suite cfg then Inl (HsFail ''federation negotiated suite != responder suite'')
              else Inr (m, clientEphPub, clientNonce, proofMethod))))))))))))))))))))"

text \<open>The responder's ephemeral key on the wire, and the shared secret.\<close>

definition responderAgree ::
  "'n env \<Rightarrow> server_draws \<Rightarrow> bytes \<Rightarrow> ('n responder, 'n hs_error, bytes \<times> bytes) op"
where
  "responderAgree E d clientEphPub =
     bindX get (\<lambda>s.
     let cfg = re_cfg s in
     if fr_suite cfg = pqSuite then
       bindX (throwIf (fr_ephemeralPriv cfg \<noteq> None) (HsFail ''PQ ephemeral pinning not supported'')) (\<lambda>_.
       lift (cr (case fr_hybridRandomness cfg of
           Some rnd \<Rightarrow> hybridEncapsulateWithRandomness (e_prims E) clientEphPub rnd
         | None \<Rightarrow> hybridEncapsulate (e_prims E) (sd_x25519 d) (sd_kemCoins d) clientEphPub)))
     else
       let priv = (case fr_ephemeralPriv cfg of Some p \<Rightarrow> p | None \<Rightarrow> sd_x25519 d) in
       bindX (modify (\<lambda>s. s\<lparr>re_ephPriv := Some priv\<rparr>)) (\<lambda>_.
       bindX (lift (cr (x25519PublicKey (e_prims E) priv))) (\<lambda>respEphPub.
       bindX (lift (cr (x25519Agree (e_prims E) priv clientEphPub))) (\<lambda>shared.
       ret (respEphPub, shared)))))"

definition rspOnInit :: "'n env \<Rightarrow> server_draws \<Rightarrow> bytes \<Rightarrow> ('n responder, 'n hs_error, bytes) op" where
  "rspOnInit E d data =
     bindX get (\<lambda>s.
     let cfg = re_cfg s in
     bindX (throwIf (re_initCanonical s \<noteq> None) (HsFail ''federation responder onInit called twice'')) (\<lambda>_.
     bindX (lift (checkServerInit E s data)) (\<lambda>(m, clientEphPub, clientNonce, proofMethod).
     bindX (responderAgree E d clientEphPub) (\<lambda>(respEphPub, shared).
     bindX (lift (cr (fingerprint (e_prims E) respEphPub))) (\<lambda>respEphKeyId.
     let serverNonce = (case fr_nonce cfg of Some n \<Rightarrow> n | None \<Rightarrow> sd_nonce d) in
     bindX (modify (\<lambda>s. s\<lparr>re_serverNonce := Some serverNonce, re_sessionId := sd_sessionId d,
       re_sessionKeys := Some (deriveSessionKeysWithResumption (e_prims E) (e_utf8 E) shared clientNonce serverNonce)\<rparr>)) (\<lambda>_.
     bindX (lift (cr (sign (e_prims E) (fr_localDomainSeed cfg)
       (e_utf8 E IdentityPrefix @ ((respEphPub @ serverNonce) @ clientNonce))))) (\<lambda>proofSig.
     bindX (lift (fld m ''nonce'')) (\<lambda>nonce.
     bindX (lift (signedBy E (federationResponse_json (sd_sessionId d) nonce (e_enc64 E serverNonce)
         (fr_localServerID cfg) (fr_localDomain cfg)
         \<lparr>kr_algorithm = fr_suite cfg, kr_key = e_enc64 E respEphPub, kr_key_id = respEphKeyId\<rparr>
         \<lparr>fd_key_id = re_localDomainKeyId s, fd_signature = e_enc64 E proofSig\<rparr>
         proofMethod (fr_suite cfg) (fr_policy cfg)) (fr_localDomainSeed cfg))) (\<lambda>resp.
     bindX (lift (fld m ''server_domain'')) (\<lambda>domain.
     let respCanonical = marshalE E (JObj resp) in
     bindX (modify (\<lambda>s. s\<lparr>re_peerDomain := domain, re_peerNonce := Some clientNonce, re_initCanonical := Some data,
       re_respCanonical := Some respCanonical\<rparr>)) (\<lambda>_.
     ret respCanonical)))))))))))"

section \<open>Responder: messages 3 and 4\<close>

definition dropResponderEphemeral :: "'n responder \<Rightarrow> 'n responder" where
  "dropResponderEphemeral s =
     (if re_ephPriv s = None then s
      else s\<lparr>re_ephPriv := None, re_cfg := (re_cfg s)\<lparr>fr_ephemeralPriv :=
          map_option (\<lambda>p. zeros (length p)) (fr_ephemeralPriv (re_cfg s))\<rparr>\<rparr>)"

text \<open>The checks on a CONFIRM: the session, the signature of the peer's domain, the hash of the two messages
  on record, and the acceptance of the policy.\<close>

definition checkConfirm :: "'n env \<Rightarrow> 'n responder \<Rightarrow> bytes \<Rightarrow> bytes \<Rightarrow> 'n hs_error + 'n jsv" where
  "checkConfirm E s wantHash data =
     bindR (parseFrame E data) (\<lambda>m.
     bindR (checkHeader m ''confirm'') (\<lambda>_.
     bindR (fld m ''session_id'') (\<lambda>sid.
     if sid \<noteq> Some (JStr (re_sessionId s)) then Inl (HsFail ''federation confirm session_id mismatch'') else
     bindR (callback (fr_peerDomainPubLookup (re_cfg s) (re_peerDomain s))) (\<lambda>peerDomainPub.
     bindR (checkServerMessage E m peerDomainPub) (\<lambda>_.
     bindR (fld m ''confirmation_hash'') (\<lambda>h. bindR (b64 E h) (\<lambda>gotHash.
     if \<not> constantTimeEqual gotHash wantHash then Inl (HsFail ''federation confirmation hash mismatch'') else
     bindR (fld m ''federation_acceptance'') (\<lambda>acceptance. bindR (fld acceptance ''accepted'') (\<lambda>accepted.
     if \<not> truthy E accepted then Inl (HsFail ''federation initiator rejected our policy'')
     else Inr m)))))))))"

definition rspOnConfirm ::
  "'n env \<Rightarrow> (session_keys \<Rightarrow> resumption_ticket callback) option \<Rightarrow> bytes \<Rightarrow> ('n responder, 'n hs_error, bytes) op"
where
  "rspOnConfirm E issueResumptionTicket data =
     bindX get (\<lambda>s.
     case (re_initCanonical s, re_respCanonical s, re_sessionKeys s) of
       (Some initCanonical, Some respCanonical, Some keys) \<Rightarrow>
         bindX (lift (checkConfirm E s (confirmationHash (e_prims E) initCanonical respCanonical) data)) (\<lambda>_.
         bindX (lift (case issueResumptionTicket of
             None \<Rightarrow> Inr None | Some f \<Rightarrow> bindR (callback (f keys)) (\<lambda>t. Inr (Some t)))) (\<lambda>ticket.
         bindX (lift (signedBy E (federationAccepted_json (e_num E) (re_sessionId s) (re_sessionTTL s) ticket)
           (fr_localDomainSeed (re_cfg s)))) (\<lambda>acc.
         bindX (modify (\<lambda>s. s\<lparr>re_finalSession := Some \<lparr>rp_sessionId = re_sessionId s, rp_sessionTTL = re_sessionTTL s,
           rp_keys = keys, rp_peerDomain = re_peerDomain s\<rparr>\<rparr>)) (\<lambda>_.
         bindX (modify dropResponderEphemeral) (\<lambda>_.
         ret (marshalE E (JObj acc)))))))
     | _ \<Rightarrow> throw (HsFail ''federation onConfirm before onInit''))"

definition rspSession :: "'n responder \<Rightarrow> 'n hs_error + 'n responder_session" where
  "rspSession s = (case re_finalSession s of
      None \<Rightarrow> Inl (HsFail ''federation responder session not yet established'') | Some x \<Rightarrow> Inr x)"

text \<open>\<open>serverNonce.fill(0)\<close> wipes a pinned nonce too; the other arrays are the responder's own.\<close>

definition rspErase :: "'n responder \<Rightarrow> 'n responder" where
  "rspErase s =
     (let s = dropResponderEphemeral s;
          s = (if re_serverNonce s \<noteq> None then s\<lparr>re_serverNonce := None,
                 re_cfg := (re_cfg s)\<lparr>fr_nonce := map_option (\<lambda>n. zeros (length n)) (fr_nonce (re_cfg s))\<rparr>\<rparr> else s) in
      s\<lparr>re_peerNonce := None, re_sessionKeys := None\<rparr>)"

end
