(* ===== verification/FederationProofs.thy ===== *)
theory FederationProofs
  imports Federation HandshakeAgreement
begin

declare sorted_form.simps(2) [simp del]

text \<open>
  What the federation handshake guarantees: where the sessions of both servers come from, and that two
  honest servers agree.
\<close>

section \<open>Signed messages between servers\<close>

definition server_signed :: "'n env \<Rightarrow> bytes \<Rightarrow> string \<Rightarrow> 'n jsv \<Rightarrow> bool" where
  "server_signed E pub stepName m \<longleftrightarrow>
     attr m ''type'' = Some (str ''SEMP_HANDSHAKE'') \<and> attr m ''step'' = Some (str stepName) \<and>
     attr m ''party'' = Some (str ''server'') \<and>
     (\<exists>sig. b64 E (attr m ''server_signature'') = Inr sig \<and> verify (e_prims E) pub sig
        (e_utf8 E HandshakePrefix @ marshalE E (JObj (obj_set (js ''server_signature'') (JStr []) (objOf m)))))"

lemma checkHeader_ok:
  assumes "checkHeader m stepName = Inr u"
  shows "fld m ''type'' = Inr (Some (str ''SEMP_HANDSHAKE''))" "fld m ''step'' = Inr (Some (str stepName))"
    "fld m ''party'' = Inr (Some (str ''server''))"
  using assms by (auto simp: checkHeader_def bindR_eq_Inr split: if_splits)

lemma checked_message:
  assumes "checkHeader m stepName = Inr u" "checkServerMessage E m pub = Inr v"
  shows "server_signed E pub stepName m"
proof -
  obtain sig where s: "fld m ''server_signature'' = Inr sig" "verifyServerMessage E m sig pub = Inr True"
    using assms(2) by (auto simp: checkServerMessage_def bindR_eq_Inr split: if_splits)
  from s(2) obtain raw where "b64 E sig = Inr raw" "verify (e_prims E) pub raw
      (e_utf8 E HandshakePrefix @ marshalE E (JObj (obj_set (js ''server_signature'') (JStr []) (objOf m))))"
    by (auto simp: verifyServerMessage_def Let_def bindR_eq_Inr split: if_splits)
  moreover note fld_attr [OF s(1)] checkHeader_ok [OF assms(1), THEN fld_attr, symmetric]
  ultimately show ?thesis unfolding server_signed_def by auto
qed

section \<open>The initiator's session\<close>

text \<open>A RESPONSE from which the keys come.\<close>

definition from_federation_response ::
  "'n env \<Rightarrow> 'n initiator_config \<Rightarrow> bytes \<Rightarrow> 'n jsv \<Rightarrow> session_keys \<Rightarrow> bool"
where
  "from_federation_response E cfg nonce resp keys \<longleftrightarrow>
     (\<exists>pub ephPriv serverEph serverNonce innerSig shared.
        fi_peerDomainPubLookup cfg (Some (JStr (fi_peerDomain cfg))) = Inr pub \<and>
        server_signed E pub ''response'' resp \<and>
        attr resp ''server_domain'' = Some (JStr (fi_peerDomain cfg)) \<and>
        attr resp ''client_nonce'' = Some (JStr (e_enc64 E nonce)) \<and>
        attr (attr resp ''domain_verification_result'') ''status'' = Some (str ''verified'') \<and>
        b64 E (attr (attr resp ''server_ephemeral_key'') ''key'') = Inr serverEph \<and>
        b64 E (attr resp ''server_nonce'') = Inr serverNonce \<and>
        verify (e_prims E) pub innerSig (e_utf8 E IdentityPrefix @ ((serverEph @ serverNonce) @ nonce)) \<and>
        client_agrees E (fi_suite cfg) ephPriv serverEph shared \<and>
        keys = deriveSessionKeysWithResumption (e_prims E) (e_utf8 E) shared nonce serverNonce)"

lemma fedResponseKeys_ok:
  assumes "fedResponseKeys E c ephPriv nonce data = Inr (m, keys)"
  shows "from_federation_response E (in_cfg c) nonce m keys" "\<exists>ob. m = Some (JObj ob)"
proof -
  have "\<exists>result ek key serverEph sn serverNonce idp psig innerSig shared pub u v.
    checkHeader m ''response'' = Inr u \<and>
    fld m ''server_domain'' = Inr (Some (JStr (fi_peerDomain (in_cfg c)))) \<and>
    fld m ''client_nonce'' = Inr (Some (JStr (e_enc64 E nonce))) \<and>
    fld m ''domain_verification_result'' = Inr result \<and> fld result ''status'' = Inr (Some (str ''verified'')) \<and>
    fi_peerDomainPubLookup (in_cfg c) (Some (JStr (fi_peerDomain (in_cfg c)))) = Inr pub \<and>
    checkServerMessage E m pub = Inr v \<and>
    fld m ''server_ephemeral_key'' = Inr ek \<and> fld ek ''key'' = Inr key \<and> b64 E key = Inr serverEph \<and>
    fld m ''server_nonce'' = Inr sn \<and> b64 E sn = Inr serverNonce \<and>
    fld m ''server_identity_proof'' = Inr idp \<and> fld idp ''signature'' = Inr psig \<and> b64 E psig = Inr innerSig \<and>
    verify (e_prims E) pub innerSig (e_utf8 E IdentityPrefix @ ((serverEph @ serverNonce) @ nonce)) \<and>
    initiatorShared E c ephPriv serverEph = Inr shared \<and>
    keys = deriveSessionKeysWithResumption (e_prims E) (e_utf8 E) shared nonce serverNonce"
    using assms unfolding fedResponseKeys_def Let_def bindR_eq_Inr
    by (simp add: bindR_eq_Inr rejection_not_Inr split: if_splits) blast
  then obtain result ek key serverEph sn serverNonce idp psig innerSig shared pub u v where r:
    "checkHeader m ''response'' = Inr u"
    "fld m ''server_domain'' = Inr (Some (JStr (fi_peerDomain (in_cfg c))))"
    "fld m ''client_nonce'' = Inr (Some (JStr (e_enc64 E nonce)))"
    "fld m ''domain_verification_result'' = Inr result" "fld result ''status'' = Inr (Some (str ''verified''))"
    "fi_peerDomainPubLookup (in_cfg c) (Some (JStr (fi_peerDomain (in_cfg c)))) = Inr pub"
    "checkServerMessage E m pub = Inr v"
    "fld m ''server_ephemeral_key'' = Inr ek" "fld ek ''key'' = Inr key" "b64 E key = Inr serverEph"
    "fld m ''server_nonce'' = Inr sn" "b64 E sn = Inr serverNonce"
    "verify (e_prims E) pub innerSig (e_utf8 E IdentityPrefix @ ((serverEph @ serverNonce) @ nonce))"
    "initiatorShared E c ephPriv serverEph = Inr shared"
    "keys = deriveSessionKeysWithResumption (e_prims E) (e_utf8 E) shared nonce serverNonce"
    by (elim exE conjE)
  show "\<exists>ob. m = Some (JObj ob)" by (rule fld_obj [OF r(2)])
  have "client_agrees E (fi_suite (in_cfg c)) ephPriv serverEph shared"
    using r(14) by (auto simp: initiatorShared_def client_agrees_def split: if_splits option.splits)
  then show "from_federation_response E (in_cfg c) nonce m keys"
    using checked_message [OF r(1,7)] r(6,10,12,13,15) r(2,3,4,5,8,9,11) [THEN fld_attr, symmetric]
    unfolding from_federation_response_def by blast
qed


lemma signedBy_signMessage: "signedBy E m seed = Inr m' \<longleftrightarrow> signMessage E m seed = Inr m'"
  by (auto simp: signedBy_def signServerMessage_def signMessage_Inr Let_def bindR_eq_Inr sign_def signingInput_def plat_def
      split: if_splits)

lemma signedBy_total: "length seed = 32 \<Longrightarrow> \<exists>m'. signedBy E m seed = Inr m'"
  by (simp add: signedBy_def signServerMessage_def sign_def Let_def cr_def)

text \<open>Everything that can be done with an initiator.\<close>

datatype initiator_op = FInit draws | FResponse bytes | FAccepted bytes | FLoad bytes
  | FResume draws bytes int | FResumeAccepted bytes | FErase

fun initiatorStep :: "'n env \<Rightarrow> initiator_op \<Rightarrow> 'n initiator \<Rightarrow> 'n initiator" where
  "initiatorStep E (FInit r) c = fst (fedInit E r c)"
| "initiatorStep E (FResponse data) c = fst (fedOnResponse E data c)"
| "initiatorStep E (FAccepted data) c = fst (fedOnAccepted E data c)"
| "initiatorStep E (FLoad secret) c = fst (fedLoadResumptionSecret secret c)"
| "initiatorStep E (FResume r ticket revision) c = fst (fedResume E r ticket revision c)"
| "initiatorStep E (FResumeAccepted data) c = fst (fedOnResumeAccepted E data c)"
| "initiatorStep E FErase c = fedErase c"

inductive initiator_reach :: "'n env \<Rightarrow> 'n initiator_config \<Rightarrow> 'n initiator \<Rightarrow> bool" for E cfg where
  start: "newInitiator E cfg = Inr c \<Longrightarrow> initiator_reach E cfg c"
| step: "initiator_reach E cfg c \<Longrightarrow> initiator_reach E cfg (initiatorStep E op c)"

text \<open>The nonce of the INIT on record.\<close>

definition init_nonce :: "'n env \<Rightarrow> 'n initiator \<Rightarrow> bytes \<Rightarrow> bool" where
  "init_nonce E c nonce \<longleftrightarrow> (\<exists>i. in_initCanonical c = Some (marshalE E (JObj i)) \<and>
     map_of i (js ''nonce'') = Some (JStr (e_enc64 E nonce)))"

definition same_config :: "'n initiator_config \<Rightarrow> 'n initiator_config \<Rightarrow> bool" where
  "same_config a b \<longleftrightarrow> fi_peerDomainPubLookup a = fi_peerDomainPubLookup b \<and> fi_peerDomain a = fi_peerDomain b \<and>
     fi_suite a = fi_suite b \<and> fi_policyAcceptor a = fi_policyAcceptor b \<and>
     fi_localDomainSeed a = fi_localDomainSeed b"

text \<open>Where a session of the initiator comes from: an ACCEPTED the peer's domain signed, for the session of a
  RESPONSE it signed for the nonce of the INIT on record, or for a resumption with a loaded secret.\<close>

definition by_response :: "'n env \<Rightarrow> 'n initiator_config \<Rightarrow> 'n initiator \<Rightarrow> 'n jsv \<Rightarrow> session_keys \<Rightarrow> bool" where
  "by_response E cfg c sid keys \<longleftrightarrow> (\<exists>resp nonce. init_nonce E c nonce \<and>
     from_federation_response E cfg nonce resp keys \<and> attr resp ''session_id'' = sid)"

definition by_resumption :: "'n env \<Rightarrow> 'n initiator \<Rightarrow> 'n jsv \<Rightarrow> session_keys \<Rightarrow> bool" where
  "by_resumption E c acc keys \<longleftrightarrow> (\<exists>secret nonce serverNonce ephPriv serverEph ephShared.
     in_resumeNonce c = Some nonce \<and> b64 E (attr acc ''server_nonce'') = Inr serverNonce \<and>
     b64 E (attr (attr acc ''server_ephemeral_key'') ''key'') = Inr serverEph \<and>
     x25519Agree (e_prims E) ephPriv serverEph = Inr ephShared \<and>
     keys = deriveSessionKeysWithResumption (e_prims E) (e_utf8 E) (secret @ ephShared) nonce serverNonce)"

definition federation_origin :: "'n env \<Rightarrow> 'n initiator_config \<Rightarrow> 'n initiator \<Rightarrow> 'n initiator_session \<Rightarrow> bool" where
  "federation_origin E cfg c s \<longleftrightarrow> is_peerDomain s = fi_peerDomain cfg \<and>
     (\<exists>pub acc. fi_peerDomainPubLookup cfg (Some (JStr (fi_peerDomain cfg))) = Inr pub \<and>
     server_signed E pub ''accepted'' acc \<and> is_sessionId s = attr acc ''session_id'' \<and>
     (by_response E cfg c (is_sessionId s) (is_keys s) \<or> by_resumption E c acc (is_keys s)))"

definition initiator_inv :: "'n env \<Rightarrow> 'n initiator_config \<Rightarrow> 'n initiator \<Rightarrow> bool" where
  "initiator_inv E cfg c \<longleftrightarrow> same_config (in_cfg c) cfg \<and> length (fi_localDomainSeed cfg) = 32 \<and>
     (in_initCanonical c = None \<longrightarrow> in_sessionKeys c = None) \<and>
     (\<forall>nonce. in_initCanonical c \<noteq> None \<longrightarrow> in_nonce c = Some nonce \<longrightarrow> init_nonce E c nonce) \<and>
     (\<forall>keys. in_sessionKeys c = Some keys \<longrightarrow> by_response E cfg c (in_sessionId c) keys) \<and>
     (\<forall>s. in_finalSession c = Some s \<longrightarrow> federation_origin E cfg c s)"

lemma from_federation_response_cfg:
  "same_config a b \<Longrightarrow> from_federation_response E a nonce m keys = from_federation_response E b nonce m keys"
  by (simp add: same_config_def from_federation_response_def)

text \<open>What a step must not touch to keep the invariant.\<close>

definition fed_frame :: "'n initiator \<Rightarrow> 'n initiator \<Rightarrow> bool" where
  "fed_frame c c' \<longleftrightarrow> same_config (in_cfg c') (in_cfg c) \<and> in_finalSession c' = in_finalSession c \<and>
     in_initCanonical c' = in_initCanonical c \<and>
     (in_nonce c' = in_nonce c \<or> in_nonce c' = None \<or> in_initCanonical c = None) \<and>
     (in_resumeNonce c \<noteq> None \<longrightarrow> in_resumeNonce c' = in_resumeNonce c) \<and>
     (in_sessionKeys c' = None \<or> in_sessionKeys c' = in_sessionKeys c \<and> in_sessionId c' = in_sessionId c)"

lemma by_response_cong:
  "in_initCanonical c' = in_initCanonical c \<Longrightarrow> by_response E cfg c' = by_response E cfg c"
  by (intro ext) (simp add: by_response_def init_nonce_def)

lemma by_resumption_mono:
  "in_resumeNonce c \<noteq> None \<longrightarrow> in_resumeNonce c' = in_resumeNonce c \<Longrightarrow> by_resumption E c acc keys \<Longrightarrow>
    by_resumption E c' acc keys"
  unfolding by_resumption_def by (metis option.distinct(1))

lemma fed_frame_inv:
  assumes "initiator_inv E cfg c" "fed_frame c c'"
  shows "initiator_inv E cfg c'"
proof -
  have n: "init_nonce E c' n = init_nonce E c n" for n using assms(2) by (simp add: init_nonce_def fed_frame_def)
  have r: "by_response E cfg c' = by_response E cfg c" using assms(2) by (intro by_response_cong) (simp add: fed_frame_def)
  have m: "by_resumption E c' acc keys" if "by_resumption E c acc keys" for acc keys
    using by_resumption_mono that assms(2) unfolding fed_frame_def by blast
  have o: "federation_origin E cfg c' s" if "in_finalSession c' = Some s" for s
  proof -
    have "federation_origin E cfg c s" using assms that by (simp add: initiator_inv_def fed_frame_def)
    then show ?thesis unfolding federation_origin_def r using m by blast
  qed
  have cfg: "same_config (in_cfg c') cfg" using assms unfolding initiator_inv_def fed_frame_def same_config_def by metis
  have k: "by_response E cfg c' (in_sessionId c') keys" if "in_sessionKeys c' = Some keys" for keys
  proof -
    have "in_sessionKeys c = Some keys" "in_sessionId c' = in_sessionId c" using assms(2) that by (auto simp: fed_frame_def)
    with assms(1) show ?thesis unfolding initiator_inv_def r by metis
  qed
  have i: "init_nonce E c' nonce" if "in_initCanonical c' \<noteq> None" "in_nonce c' = Some nonce" for nonce
  proof -
    have "in_initCanonical c \<noteq> None" "in_nonce c = Some nonce" using assms(2) that by (auto simp: fed_frame_def)
    with assms(1) n show ?thesis unfolding initiator_inv_def by metis
  qed
  have z: "in_sessionKeys c' = None" if "in_initCanonical c' = None"
    using assms that unfolding initiator_inv_def fed_frame_def by metis
  from assms(1) have "length (fi_localDomainSeed cfg) = 32" by (simp add: initiator_inv_def)
  with o cfg k i z show ?thesis unfolding initiator_inv_def by blast
qed

lemma signedBy_attr:
  "signedBy E m seed = Inr m' \<Longrightarrow> k \<noteq> js ''server_signature'' \<Longrightarrow> map_of m' k = map_of m k"
  by (auto simp: signedBy_def bindR_eq_Inr map_of_obj_set)

lemma init_signed:
  "signedBy E (serverInit_json num nonce serverId domain ek prf dp caps) seed = Inr m \<Longrightarrow>
    map_of m (js ''nonce'') = Some (JStr nonce)"
  by (drule signedBy_attr [where k = "js ''nonce''"]) (simp_all add: serverInit_json_def serverStepHeader_def js_def)

lemma init_done:
  assumes inv: "initiator_inv E cfg c" and fresh: "in_initCanonical c = None"
    and done_: "in_initCanonical c' = Some (marshalE E (JObj i))" "map_of i (js ''nonce'') = Some (JStr (e_enc64 E nonce))"
      "in_nonce c' = Some nonce"
    and same: "same_config (in_cfg c') (in_cfg c)" "in_finalSession c' = in_finalSession c"
      "in_resumeNonce c' = in_resumeNonce c" "in_sessionKeys c' = in_sessionKeys c"
  shows "initiator_inv E cfg c'"
proof -
  have k: "in_sessionKeys c' = None" using inv fresh same(4) by (simp add: initiator_inv_def)
  have o: "federation_origin E cfg c' s" if "in_finalSession c' = Some s" for s
  proof -
    have "federation_origin E cfg c s" using inv that same(2) by (simp add: initiator_inv_def)
    moreover have "\<not> by_response E cfg c sid keys" for sid keys using fresh by (simp add: by_response_def init_nonce_def)
    moreover have "by_resumption E c acc keys \<Longrightarrow> by_resumption E c' acc keys" for acc keys
      by (erule by_resumption_mono [rotated]) (simp add: same(3))
    ultimately show ?thesis unfolding federation_origin_def by blast
  qed
  have "init_nonce E c' nonce" using done_ by (auto simp: init_nonce_def)
  moreover have "same_config (in_cfg c') cfg" using inv same(1) unfolding initiator_inv_def same_config_def by metis
  moreover have "length (fi_localDomainSeed cfg) = 32" using inv by (simp add: initiator_inv_def)
  ultimately show ?thesis using done_ k o unfolding initiator_inv_def by auto
qed

lemma fedInit_inv:
  assumes inv: "initiator_inv E cfg c"
  shows "initiator_inv E cfg (fst (fedInit E r c))"
  unfolding post_def [symmetric] fedInit_def
  by (intro vcg inv)
     (auto simp: fed_frame_def same_config_def dest!: init_signed
       intro: fed_frame_inv [OF inv] init_done [OF inv] split: option.splits)


definition accepting :: "'n initiator_config \<Rightarrow> bool" where
  "accepting cfg \<longleftrightarrow> (\<forall>f policy. fi_policyAcceptor cfg = Some f \<longrightarrow> (\<exists>x. f policy = Inr x))"

lemma drop_frame: "fed_frame c (dropInitiatorEphemeral c)"
  by (simp add: fed_frame_def dropInitiatorEphemeral_def same_config_def)

lemma response_keys_inv:
  assumes inv: "initiator_inv E cfg c" and resp: "fedResponseKeys E c ephPriv nonce data = Inr (m, keys)"
    and on: "in_nonce c = Some nonce" "in_initCanonical c \<noteq> None"
  shows "initiator_inv E cfg (dropInitiatorEphemeral c\<lparr>in_sessionKeys := Some keys, in_respCanonical := rc,
    in_sessionId := attr m ''session_id''\<rparr>)" (is "initiator_inv E cfg ?c")
proof -
  have cfg: "same_config (in_cfg c) cfg" using inv by (simp add: initiator_inv_def)
  have n: "init_nonce E ?c = init_nonce E c" by (intro ext) (simp add: init_nonce_def dropInitiatorEphemeral_def)
  have r: "by_response E cfg ?c = by_response E cfg c" by (rule by_response_cong) (simp add: dropInitiatorEphemeral_def)
  have o: "federation_origin E cfg ?c s" if "federation_origin E cfg c s" for s
  proof -
    have "by_resumption E ?c = by_resumption E c"
      by (intro ext) (simp add: by_resumption_def dropInitiatorEphemeral_def)
    then show ?thesis using that unfolding federation_origin_def r by simp
  qed
  have "by_response E cfg c (attr m ''session_id'') keys"
    using fedResponseKeys_ok(1) [OF resp] from_federation_response_cfg [OF cfg] inv on
    unfolding by_response_def initiator_inv_def by blast
  moreover have "same_config (in_cfg ?c) cfg" using cfg by (simp add: same_config_def dropInitiatorEphemeral_def)
  ultimately show ?thesis using inv on o unfolding initiator_inv_def r n
    by (simp add: dropInitiatorEphemeral_def)
qed

lemma bind_lift_exact:
  "(\<And>e. r = Inl e \<Longrightarrow> Q s) \<Longrightarrow> (\<And>x. r = Inr x \<Longrightarrow> post Q (f x) s) \<Longrightarrow> post Q (bindX (lift r) f) s"
  by (cases r) (simp_all add: post_def)

lemma fedOnResponse_inv:
  assumes inv: "initiator_inv E cfg c" and acc: "accepting cfg"
  shows "initiator_inv E cfg (fst (fedOnResponse E data c))"
proof -
  have total: "callback ((case fi_policyAcceptor cfg of None \<Rightarrow> acceptAllPolicies | Some f \<Rightarrow> f) policy) \<noteq> Inl e"
    for policy and e :: "'a hs_error"
  proof (cases "fi_policyAcceptor cfg")
    case (Some f)
    with acc obtain x where "f policy = Inr x" unfolding accepting_def by blast
    with Some show ?thesis by (simp add: callback_def)
  qed (simp add: acceptAllPolicies_def callback_def)
  have same: "fi_policyAcceptor (in_cfg c) = fi_policyAcceptor cfg" "length (fi_localDomainSeed (in_cfg c)) = 32"
    using inv by (auto simp: initiator_inv_def same_config_def)
  have sign: "signedBy E m (fi_localDomainSeed (in_cfg c)) \<noteq> Inl e" for m e
    using signedBy_total [OF same(2)] by (metis sum.distinct(1))
  have f: "fld m k = Inr (attr m k)" if "fedResponseKeys E c ephPriv nonce data = Inr (m, keys)" for ephPriv nonce m keys k
    using fedResponseKeys_ok(2) [OF that] by (auto simp: fld_Inr)
  note vcg_bind_lift [vcg del] bind_lift_exact [vcg]
  have drop: "dropInitiatorEphemeral (c\<lparr>in_sessionKeys := k\<rparr>) = dropInitiatorEphemeral c\<lparr>in_sessionKeys := k\<rparr>" for k
    by (simp add: dropInitiatorEphemeral_def)
  show ?thesis
    unfolding post_def [symmetric] fedOnResponse_def
    by (intro vcg inv) (auto simp: total sign same f drop intro: response_keys_inv [OF inv])
qed

lemma fedCheckAccepted_ok:
  assumes "fedCheckAccepted E c data = Inr m"
  shows "\<exists>pub. fi_peerDomainPubLookup (in_cfg c) (Some (JStr (fi_peerDomain (in_cfg c)))) = Inr pub \<and>
      server_signed E pub ''accepted'' m" "attr m ''session_id'' = in_sessionId c"
proof -
  obtain u v pub where r: "checkHeader m ''accepted'' = Inr u" "fld m ''session_id'' = Inr (in_sessionId c)"
    "fi_peerDomainPubLookup (in_cfg c) (Some (JStr (fi_peerDomain (in_cfg c)))) = Inr pub"
    "checkServerMessage E m pub = Inr v"
    using assms unfolding fedCheckAccepted_def
    by (auto simp: bindR_eq_Inr rejection_not_Inr dest: strictEqD split: if_splits)
  show "\<exists>pub. fi_peerDomainPubLookup (in_cfg c) (Some (JStr (fi_peerDomain (in_cfg c)))) = Inr pub \<and>
      server_signed E pub ''accepted'' m" using r(3) checked_message [OF r(1,4)] by blast
  show "attr m ''session_id'' = in_sessionId c" using fld_attr [OF r(2)] by simp
qed

lemma final_inv:
  assumes inv: "initiator_inv E cfg c" and s: "federation_origin E cfg c s"
  shows "initiator_inv E cfg (c\<lparr>in_finalSession := Some s\<rparr>)"
  using assms unfolding initiator_inv_def federation_origin_def by_response_def by_resumption_def init_nonce_def by simp

lemma fedOnAccepted_inv:
  assumes inv: "initiator_inv E cfg c"
  shows "initiator_inv E cfg (fst (fedOnAccepted E data c))"
proof -
  have cfg: "same_config (in_cfg c) cfg" using inv by (simp add: initiator_inv_def)
  have o: "federation_origin E cfg c (initiatorSessionOf E m keys (fi_peerDomain (in_cfg c)))"
    if "fedCheckAccepted E c data = Inr m" "in_sessionKeys c = Some keys" for m keys
  proof -
    have "by_response E cfg c (in_sessionId c) keys" using inv that(2) by (simp add: initiator_inv_def)
    moreover note ok = fedCheckAccepted_ok [OF that(1)]
    moreover obtain pub where "fi_peerDomainPubLookup cfg (Some (JStr (fi_peerDomain cfg))) = Inr pub"
        "server_signed E pub ''accepted'' m"
      using ok(1) cfg by (auto simp: same_config_def)
    ultimately show ?thesis using cfg
      unfolding federation_origin_def same_config_def
      by (intro conjI exI [of _ pub] exI [of _ m]) (simp_all add: initiatorSessionOf_def Let_def)
  qed
  show ?thesis
    unfolding post_def [symmetric] fedOnAccepted_def by (intro vcg inv) (auto intro: final_inv [OF inv] o)
qed

lemma fedCheckResumed_ok:
  assumes "fedCheckResumed E c ephPriv data = Inr (m, serverNonce, ephShared)"
  shows "\<exists>pub. fi_peerDomainPubLookup (in_cfg c) (Some (JStr (fi_peerDomain (in_cfg c)))) = Inr pub \<and>
      server_signed E pub ''accepted'' m" "b64 E (attr m ''server_nonce'') = Inr serverNonce"
    "\<exists>serverEph. b64 E (attr (attr m ''server_ephemeral_key'') ''key'') = Inr serverEph \<and>
      x25519Agree (e_prims E) ephPriv serverEph = Inr ephShared"
proof -
  obtain u v pub ek sn key serverEph where r: "checkHeader m ''accepted'' = Inr u"
    "fi_peerDomainPubLookup (in_cfg c) (Some (JStr (fi_peerDomain (in_cfg c)))) = Inr pub"
    "checkServerMessage E m pub = Inr v" "fld m ''server_ephemeral_key'' = Inr ek" "fld m ''server_nonce'' = Inr sn"
    "b64 E sn = Inr serverNonce" "fld ek ''key'' = Inr key" "b64 E key = Inr serverEph"
    "x25519Agree (e_prims E) ephPriv serverEph = Inr ephShared"
    using assms unfolding fedCheckResumed_def
    by (auto simp: bindR_eq_Inr rejection_not_Inr split: if_splits)
  note a = r(4,5,7) [THEN fld_attr, symmetric]
  show "\<exists>pub. fi_peerDomainPubLookup (in_cfg c) (Some (JStr (fi_peerDomain (in_cfg c)))) = Inr pub \<and>
      server_signed E pub ''accepted'' m" using r(2) checked_message [OF r(1,3)] by blast
  show "b64 E (attr m ''server_nonce'') = Inr serverNonce"
    "\<exists>serverEph. b64 E (attr (attr m ''server_ephemeral_key'') ''key'') = Inr serverEph \<and>
      x25519Agree (e_prims E) ephPriv serverEph = Inr ephShared" using r(6,8,9) a by simp_all
qed

lemma fedOnResumeAccepted_inv:
  assumes inv: "initiator_inv E cfg c"
  shows "initiator_inv E cfg (fst (fedOnResumeAccepted E data c))"
proof -
  have cfg: "same_config (in_cfg c) cfg" using inv by (simp add: initiator_inv_def)
  let ?c = "dropInitiatorEphemeral c\<lparr>in_resumptionSecret := None\<rparr>"
  have f: "fed_frame c ?c" by (simp add: fed_frame_def dropInitiatorEphemeral_def same_config_def)
  have o: "federation_origin E cfg ?c (initiatorSessionOf E m
      (deriveSessionKeysWithResumption (e_prims E) (e_utf8 E) (secret @ ephShared) nonce serverNonce)
      (fi_peerDomain (in_cfg c)))"
    if "fedCheckResumed E c ephPriv data = Inr (m, serverNonce, ephShared)" "in_resumeNonce c = Some nonce"
    for ephPriv m secret ephShared nonce serverNonce
  proof -
    have "in_resumeNonce ?c = Some nonce" using that(2) by (simp add: dropInitiatorEphemeral_def)
    then have "by_resumption E ?c m
        (deriveSessionKeysWithResumption (e_prims E) (e_utf8 E) (secret @ ephShared) nonce serverNonce)"
      using fedCheckResumed_ok(2,3) [OF that(1)] unfolding by_resumption_def by blast
    then show ?thesis using fedCheckResumed_ok(1) [OF that(1)] cfg
      unfolding federation_origin_def same_config_def by (auto simp: initiatorSessionOf_def Let_def)
  qed
  show ?thesis
    unfolding post_def [symmetric] fedOnResumeAccepted_def
    by (intro vcg inv) (auto intro: final_inv [OF fed_frame_inv [OF inv f]] o fed_frame_inv [OF inv drop_frame])
qed

lemma initiatorStep_inv:
  assumes inv: "initiator_inv E cfg c" and acc: "accepting cfg"
  shows "initiator_inv E cfg (initiatorStep E op c)"
proof (cases op)
  case (FLoad secret)
  have "post (initiator_inv E cfg) (fedLoadResumptionSecret secret) c"
    unfolding fedLoadResumptionSecret_def
    by (intro vcg inv) (auto simp: fed_frame_def same_config_def intro!: fed_frame_inv [OF inv])
  then show ?thesis by (simp add: FLoad post_def)
next
  case (FResume r ticket revision)
  have "post (initiator_inv E cfg) (fedResume E r ticket revision) c"
    unfolding fedResume_def
    by (intro vcg inv) (auto simp: fed_frame_def same_config_def intro!: fed_frame_inv [OF inv])
  then show ?thesis by (simp add: FResume post_def)
next
  case FErase
  show ?thesis
    by (rule fed_frame_inv [OF inv])
       (simp add: FErase fedErase_def Let_def fed_frame_def dropInitiatorEphemeral_def same_config_def)
qed (simp_all add: fedInit_inv fedOnResponse_inv fedOnAccepted_inv fedOnResumeAccepted_inv inv acc)

lemma initiator_reach_inv: "initiator_reach E cfg c \<Longrightarrow> accepting cfg \<Longrightarrow> initiator_inv E cfg c"
proof (induction rule: initiator_reach.induct)
  case (start c)
  then show ?case
    by (auto simp: newInitiator_def initiator_inv_def same_config_def publicKeyFromSeed_def bindR_eq_Inr split: if_splits)
qed (rule initiatorStep_inv)


section \<open>The responder's session\<close>

datatype responder_op = RInit server_draws bytes | RConfirm bytes | RErase

fun responderStep ::
  "'n env \<Rightarrow> (session_keys \<Rightarrow> resumption_ticket callback) option \<Rightarrow> responder_op \<Rightarrow> 'n responder \<Rightarrow> 'n responder"
where
  "responderStep E issue (RInit d data) s = fst (rspOnInit E d data s)"
| "responderStep E issue (RConfirm data) s = fst (rspOnConfirm E issue data s)"
| "responderStep E issue RErase s = rspErase s"

inductive responder_reach ::
  "'n env \<Rightarrow> (session_keys \<Rightarrow> resumption_ticket callback) option \<Rightarrow> 'n responder_config \<Rightarrow> 'n responder \<Rightarrow> bool"
  for E issue cfg where
  start: "newResponder E cfg = Inr s \<Longrightarrow> responder_reach E issue cfg s"
| step: "responder_reach E issue cfg s \<Longrightarrow> responder_reach E issue cfg (responderStep E issue op s)"

text \<open>What makes a server the peer: it signed an INIT from its domain, and its proof of the domain held.\<close>

definition peer_init :: "'n env \<Rightarrow> 'n responder_config \<Rightarrow> 'n responder \<Rightarrow> bool" where
  "peer_init E cfg s \<longleftrightarrow> (\<exists>data m pub innerSig clientEph clientNonce. re_initCanonical s = Some data \<and>
     parseFrame E data = Inr m \<and> attr m ''server_domain'' = re_peerDomain s \<and>
     fr_peerDomainPubLookup cfg (re_peerDomain s) = Inr pub \<and> server_signed E pub ''init'' m \<and>
     b64 E (attr (attr m ''server_ephemeral_key'') ''key'') = Inr clientEph \<and>
     b64 E (attr m ''nonce'') = Inr clientNonce \<and>
     verify (e_prims E) pub innerSig (e_utf8 E IdentityPrefix @ (clientEph @ clientNonce)) \<and>
     (\<forall>v. fr_verifier cfg = Some v \<longrightarrow>
       v (re_peerDomain s) (attr m ''domain_proof'') (attr m ''nonce'') = Inr ()))"

definition peer_confirmed :: "'n env \<Rightarrow> 'n responder_config \<Rightarrow> 'n responder \<Rightarrow> bool" where
  "peer_confirmed E cfg s \<longleftrightarrow> (\<exists>m pub i r. fr_peerDomainPubLookup cfg (re_peerDomain s) = Inr pub \<and>
     server_signed E pub ''confirm'' m \<and> attr m ''session_id'' = Some (JStr (re_sessionId s)) \<and>
     re_initCanonical s = Some i \<and> re_respCanonical s = Some r \<and>
     b64 E (attr m ''confirmation_hash'') = Inr (sha256 (e_prims E) (i @ r)) \<and>
     truthy E (attr (attr m ''federation_acceptance'') ''accepted''))"

definition responder_inv :: "'n env \<Rightarrow> 'n responder_config \<Rightarrow> 'n responder \<Rightarrow> bool" where
  "responder_inv E cfg s \<longleftrightarrow>
     fr_peerDomainPubLookup (re_cfg s) = fr_peerDomainPubLookup cfg \<and>
     (\<forall>v. fr_verifier cfg = Some v \<longrightarrow> re_verifier s = v) \<and>
     (re_initCanonical s \<noteq> None \<longrightarrow> peer_init E cfg s) \<and>
     (\<forall>x. re_finalSession s = Some x \<longrightarrow> re_initCanonical s \<noteq> None \<and> peer_confirmed E cfg s \<and>
        rp_sessionId x = re_sessionId s \<and> rp_peerDomain x = re_peerDomain s)"

lemma responder_frame:
  assumes "responder_inv E cfg s"
    and "fr_peerDomainPubLookup (re_cfg s') = fr_peerDomainPubLookup (re_cfg s)" "re_verifier s' = re_verifier s"
    and "re_initCanonical s' = re_initCanonical s" "re_respCanonical s' = re_respCanonical s"
    and "re_peerDomain s' = re_peerDomain s" "re_sessionId s' = re_sessionId s"
    and "re_finalSession s' = re_finalSession s"
  shows "responder_inv E cfg s'"
  using assms unfolding responder_inv_def peer_init_def peer_confirmed_def by simp

text \<open>Before the first INIT is accepted a responder can only choose its key, nonce, session id and keys.\<close>

lemma responder_fresh:
  assumes "responder_inv E cfg s" "re_initCanonical s = None"
    and "fr_peerDomainPubLookup (re_cfg s') = fr_peerDomainPubLookup (re_cfg s)" "re_verifier s' = re_verifier s"
    and "re_finalSession s' = re_finalSession s" "re_initCanonical s' \<noteq> None \<longrightarrow> peer_init E cfg s'"
  shows "responder_inv E cfg s'"
proof -
  have "re_finalSession s = None" using assms(1,2) unfolding responder_inv_def by (metis option.exhaust)
  with assms show ?thesis unfolding responder_inv_def by simp
qed

lemma checked_sum_Inr: "(case x of Inl e \<Rightarrow> Inl d | Inr y \<Rightarrow> f y) = Inr z \<longleftrightarrow> (\<exists>y. x = Inr y \<and> f y = Inr z)"
  by (cases x) simp_all

lemma checked_option_Inr: "(case x of None \<Rightarrow> Inl d | Some y \<Rightarrow> f y) = Inr z \<longleftrightarrow> (\<exists>y. x = Some y \<and> f y = Inr z)"
  by (cases x) simp_all

lemma checkServerInit_ok:
  assumes "checkServerInit E s data = Inr (m, clientEph, clientNonce, proofMethod)"
  shows "\<exists>pub innerSig. parseFrame E data = Inr m \<and>
     fr_peerDomainPubLookup (re_cfg s) (attr m ''server_domain'') = Inr pub \<and> server_signed E pub ''init'' m \<and>
     b64 E (attr (attr m ''server_ephemeral_key'') ''key'') = Inr clientEph \<and>
     b64 E (attr m ''nonce'') = Inr clientNonce \<and>
     verify (e_prims E) pub innerSig (e_utf8 E IdentityPrefix @ (clientEph @ clientNonce)) \<and>
     re_verifier s (attr m ''server_domain'') (attr m ''domain_proof'') (attr m ''nonce'') = Inr ()"
proof -
  have "\<exists>u v domain pub ek key nonce innerSig dp. parseFrame E data = Inr m \<and>
    checkHeader m ''init'' = Inr u \<and> fld m ''server_domain'' = Inr domain \<and>
    fr_peerDomainPubLookup (re_cfg s) domain = Inr pub \<and> checkServerMessage E m pub = Inr v \<and>
    fld m ''server_ephemeral_key'' = Inr ek \<and> fld ek ''key'' = Inr key \<and> b64 E key = Inr clientEph \<and>
    fld m ''nonce'' = Inr nonce \<and> b64 E nonce = Inr clientNonce \<and>
    verify (e_prims E) pub innerSig (e_utf8 E IdentityPrefix @ (clientEph @ clientNonce)) \<and>
    fld m ''domain_proof'' = Inr dp \<and> re_verifier s domain dp nonce = Inr ()"
    using assms unfolding checkServerInit_def Let_def bindR_eq_Inr
    by (simp add: bindR_eq_Inr checked_sum_Inr checked_option_Inr split: if_splits) blast
  then obtain u v domain pub ek key nonce innerSig dp where r: "parseFrame E data = Inr m"
    "checkHeader m ''init'' = Inr u" "fld m ''server_domain'' = Inr domain"
    "fr_peerDomainPubLookup (re_cfg s) domain = Inr pub" "checkServerMessage E m pub = Inr v"
    "fld m ''server_ephemeral_key'' = Inr ek" "fld ek ''key'' = Inr key" "b64 E key = Inr clientEph"
    "fld m ''nonce'' = Inr nonce" "b64 E nonce = Inr clientNonce"
    "verify (e_prims E) pub innerSig (e_utf8 E IdentityPrefix @ (clientEph @ clientNonce))"
    "fld m ''domain_proof'' = Inr dp" "re_verifier s domain dp nonce = Inr ()" by (elim exE conjE)
  note a = r(3,6,7,9,12) [THEN fld_attr, symmetric]
  show ?thesis
    by (rule exI [of _ pub], rule exI [of _ innerSig]) (use r checked_message [OF r(2,5)] a in simp)
qed


lemma rspOnInit_inv:
  assumes inv: "responder_inv E cfg s"
  shows "responder_inv E cfg (fst (rspOnInit E d data s))"
proof -
  have f: "fld m ''server_domain'' = Inr v \<Longrightarrow> v = attr m ''server_domain''" for m :: "'a jsv" and v
    by (rule fld_attr)
  have lookup: "fr_peerDomainPubLookup (re_cfg s) = fr_peerDomainPubLookup cfg"
    and ver: "\<And>v. fr_verifier cfg = Some v \<Longrightarrow> re_verifier s = v" using inv by (auto simp: responder_inv_def)
  have peer: "peer_init E cfg s'"
    if "checkServerInit E s data = Inr (m, clientEph, clientNonce, pm)" "re_initCanonical s' = Some data"
      "re_peerDomain s' = attr m ''server_domain''" for m clientEph clientNonce pm s'
    using checkServerInit_ok [OF that(1)] that(2,3) lookup ver unfolding peer_init_def by metis
  show ?thesis
    unfolding post_def [symmetric] rspOnInit_def responderAgree_def
    by (intro vcg inv) (auto intro!: responder_fresh [OF inv] dest!: f intro: peer)
qed

lemma checkConfirm_ok:
  assumes "checkConfirm E s h data = Inr m"
  shows "\<exists>pub. fr_peerDomainPubLookup (re_cfg s) (re_peerDomain s) = Inr pub \<and> server_signed E pub ''confirm'' m \<and>
     attr m ''session_id'' = Some (JStr (re_sessionId s)) \<and> b64 E (attr m ''confirmation_hash'') = Inr h \<and>
     truthy E (attr (attr m ''federation_acceptance'') ''accepted'')"
proof -
  obtain u v pub hh acceptance accepted where r: "checkHeader m ''confirm'' = Inr u"
    "fld m ''session_id'' = Inr (Some (JStr (re_sessionId s)))"
    "fr_peerDomainPubLookup (re_cfg s) (re_peerDomain s) = Inr pub" "checkServerMessage E m pub = Inr v"
    "fld m ''confirmation_hash'' = Inr hh" "b64 E hh = Inr h" "fld m ''federation_acceptance'' = Inr acceptance"
    "fld acceptance ''accepted'' = Inr accepted" "truthy E accepted"
    using assms unfolding checkConfirm_def by (auto simp: bindR_eq_Inr split: if_splits)
  note a = r(2,5,7,8) [THEN fld_attr, symmetric]
  show ?thesis using r(3,6,9) checked_message [OF r(1,4)] a by blast
qed

lemma rspOnConfirm_inv:
  assumes inv: "responder_inv E cfg s"
  shows "responder_inv E cfg (fst (rspOnConfirm E issue data s))"
proof -
  have lookup: "fr_peerDomainPubLookup (re_cfg s) = fr_peerDomainPubLookup cfg" using inv by (simp add: responder_inv_def)
  have fin: "responder_inv E cfg (s\<lparr>re_finalSession := Some x\<rparr>)"
    if "re_initCanonical s = Some i" "re_respCanonical s = Some r"
      "checkConfirm E s (confirmationHash (e_prims E) i r) data = Inr m" "rp_sessionId x = re_sessionId s"
      "rp_peerDomain x = re_peerDomain s" for i r m x
  proof -
    have "peer_confirmed E cfg s" unfolding peer_confirmed_def
      using checkConfirm_ok [OF that(3)] that(1,2) lookup by (simp add: confirmationHash_def) blast
    then show ?thesis using inv that(1,4,5) unfolding responder_inv_def peer_init_def peer_confirmed_def by simp
  qed
  have drop: "responder_inv E cfg (dropResponderEphemeral t)" if "responder_inv E cfg t" for t
    by (rule responder_frame [OF that]) (simp_all add: dropResponderEphemeral_def)
  show ?thesis
    unfolding post_def [symmetric] rspOnConfirm_def
    by (intro vcg inv) (auto intro!: drop intro: fin)
qed

lemma responder_reach_inv: "responder_reach E issue cfg s \<Longrightarrow> responder_inv E cfg s"
proof (induction rule: responder_reach.induct)
  case (start s)
  then show ?case by (auto simp: newResponder_def responder_inv_def bindR_eq_Inr split: if_splits)
next
  case (step s op)
  have "responder_inv E cfg (rspErase s)"
    by (rule responder_frame [OF step.IH]) (simp_all add: rspErase_def Let_def dropResponderEphemeral_def)
  with step.IH show ?case by (cases op) (simp_all add: rspOnInit_inv rspOnConfirm_inv)
qed

text \<open>C5. Whatever messages a responder is fed, in whatever order: a session it exposes follows a CONFIRM that the
  peer's domain signed for this session id, that carries the hash of the INIT and RESPONSE bytes on record and
  accepts the policy; and the INIT was signed by the same domain, whose proof of the domain was verified.\<close>

theorem responder_session_confirmed:
  assumes "responder_reach E issue cfg s" and "rspSession s = Inr x"
  shows "peer_init E cfg s \<and> rp_peerDomain x = re_peerDomain s \<and>
     (\<exists>m pub i r. fr_peerDomainPubLookup cfg (rp_peerDomain x) = Inr pub \<and> server_signed E pub ''confirm'' m \<and>
        attr m ''session_id'' = Some (JStr (rp_sessionId x)) \<and>
        re_initCanonical s = Some i \<and> re_respCanonical s = Some r \<and>
        b64 E (attr m ''confirmation_hash'') = Inr (sha256 (e_prims E) (i @ r)) \<and>
        truthy E (attr (attr m ''federation_acceptance'') ''accepted''))"
proof -
  have "responder_inv E cfg s" by (rule responder_reach_inv [OF assms(1)])
  moreover have "re_finalSession s = Some x" using assms(2) by (simp add: rspSession_def split: option.splits)
  ultimately show ?thesis unfolding responder_inv_def peer_confirmed_def by metis
qed

end
