(* ===== verification/FederationAgreement.thy ===== *)
theory FederationAgreement
  imports FederationProofs
begin

text \<open>
  Two honest servers that exchange the four messages of the federation handshake unchanged both end with a
  session, with the same keys and session id, under either suite.
\<close>

section \<open>Signed messages on the wire\<close>

lemma server_checks:
  assumes "scheme_ok (plat E) seed pub" "verifyServerSignature E m ''server_signature'' pub = Inr ()"
  shows "checkServerMessage E m pub = Inr ()"
proof -
  obtain v where v: "fld m ''server_signature'' = Inr v"
    using assms(2) by (auto simp: verifyServerSignature_def bindR_eq_Inr)
  then obtain s where s: "v = Some (JStr s)" "s \<noteq> []" "verify (e_prims E) pub (e_dec64 E s)
      (e_utf8 E HandshakePrefix @ marshalE E (JObj (obj_set (js ''server_signature'') (JStr []) (objOf m))))"
    using assms(2) by (cases v rule: option.exhaust [case_names N S], simp add: verifyServerSignature_def)
      (rename_tac w, case_tac w, auto simp: verifyServerSignature_def Let_def split: if_splits)
  then show ?thesis using v by (simp add: checkServerMessage_def verifyServerMessage_def b64_def Let_def)
qed

lemma signed_wire:
  assumes "parse_ok E" "scheme_ok (plat E) seed pub" "length seed = 32" "plain (JObj m)"
    and "\<forall>b. b \<noteq> [] \<longrightarrow> e_enc64 E b \<noteq> []"
  obtains m' where "signedBy E m seed = Inr m'" "plain (JObj m')" "checkServerMessage E (wire m') pub = Inr ()"
    "\<forall>k. k \<noteq> ''server_signature'' \<longrightarrow> map_of m' (js k) = map_of m (js k)"
proof -
  obtain m' where m': "signMessage E m seed = Inr m'" "plain (JObj m')"
    "verifyServerSignature E (wire m') ''server_signature'' pub = Inr ()"
    "\<forall>k. k \<noteq> ''server_signature'' \<longrightarrow> map_of m' (js k) = map_of m (js k)"
    by (rule signMessage_wire [OF assms(1-4) assms(5) [rule_format]])
  show ?thesis
    by (rule that [OF iffD2 [OF signedBy_signMessage m'(1)] m'(2) server_checks [OF assms(2) m'(3)] m'(4)])
qed

section \<open>Key agreement\<close>

definition responder_keys_ok :: "'n responder_config \<Rightarrow> bool" where
  "responder_keys_ok cfg \<longleftrightarrow>
     (\<forall>p. fr_ephemeralPriv cfg = Some p \<longrightarrow> length p = 32 \<and> fr_suite cfg = baseSuite) \<and>
     (\<forall>m e. fr_hybridRandomness cfg = Some (m, e) \<longrightarrow> length m = 32 \<and> length e = 32)"

text \<open>The two sides compute what a client and a server compute.\<close>

lemma federation_shared:
  assumes "prims_ok (e_prims E)" "key_pair (e_prims E) suite priv pub" "responder_keys_ok (re_cfg s)"
    and "length (sd_x25519 d) = 32" "length (sd_kemCoins d) = 32"
    and "fi_suite (in_cfg c) = suite" "in_ephPub c = Some pub" "fr_suite (re_cfg s) = suite"
  obtains p respEph shared where "responderAgree E d pub s = (s\<lparr>re_ephPriv := p\<rparr>, Inr (respEph, shared))"
    "initiatorShared E c priv respEph = Inr shared" "respEph \<noteq> []"
proof -
  define sv where "sv = (undefined :: 'a server)\<lparr>sv_cfg := (undefined :: 'a server_config)
    \<lparr>sc_ephemeralPriv := fr_ephemeralPriv (re_cfg s), sc_hybridRandomness := fr_hybridRandomness (re_cfg s)\<rparr>\<rparr>"
  define cl where "cl = (undefined :: 'a client)\<lparr>hc_cfg := undefined\<lparr>cc_suite := suite\<rparr>, hc_ephPub := Some pub\<rparr>"
  have k: "server_keys_ok (sv_cfg sv)" using assms(3) by (auto simp: sv_def server_keys_ok_def responder_keys_ok_def)
  have c: "cc_suite (hc_cfg cl) = suite" "hc_ephPub cl = Some pub" by (simp_all add: cl_def)
  obtain p respEph shared where a: "agree E d (suite = pqSuite) pub sv = (sv\<lparr>sv_ephPriv := p\<rparr>, Inr (respEph, shared))"
    "clientShared E cl priv respEph = Inr shared" "respEph \<noteq> []"
    by (rule agree_shared [OF assms(1,2) k assms(4,5) c])
  have i: "initiatorShared E c priv respEph = Inr shared"
    using a(2) unfolding initiatorShared_def clientShared_def c assms(6,7)
    by (cases "suite = pqSuite") (simp_all split: if_splits)
  have ne: "suite = pqSuite \<Longrightarrow> fr_ephemeralPriv (re_cfg s) = None"
    using assms(3,8) by (cases "fr_ephemeralPriv (re_cfg s)") (auto simp: responder_keys_ok_def)
  show ?thesis
  proof (cases "suite = pqSuite")
    case True
    then have "responderAgree E d pub s = (s\<lparr>re_ephPriv := re_ephPriv s\<rparr>, Inr (respEph, shared))"
      using a(1) assms(8) ne by (simp add: responderAgree_def agree_def sv_def Let_def bindX_def split: sum.splits)
    then show ?thesis using that i a(3) by blast
  next
    case False
    let ?p = "case fr_ephemeralPriv (re_cfg s) of Some p \<Rightarrow> p | None \<Rightarrow> sd_x25519 d"
    have "responderAgree E d pub s = (s\<lparr>re_ephPriv := Some ?p\<rparr>, Inr (respEph, shared))"
      using a(1) False assms(8)
      by (simp add: responderAgree_def agree_def sv_def Let_def bindX_def cr_def split: sum.splits)
    then show ?thesis using that i a(3) by blast
  qed
qed

section \<open>The INIT\<close>

lemma plain_fed_parts:
  "plain (federation_proof_json p)" "plain (domain_proof_json dp)" "plain (policy_block pol)" "plain (acceptance_json r)"
  by (simp_all add: federation_proof_json_def domain_proof_json_def policy_block_def acceptance_json_def split: option.splits)

lemma plain_serverInit: "plain (JObj (serverInit_json num nonce serverId domain ek prf dp caps))"
  by (simp add: serverInit_json_def serverStepHeader_def plain_parts plain_fed_parts)

lemma fedInit_ok:
  assumes env: "parse_ok E" "scheme_ok (plat E) (fi_localDomainSeed (in_cfg c)) pub" "prims_ok (e_prims E)"
      "\<forall>b. b \<noteq> [] \<longrightarrow> e_enc64 E b \<noteq> []"
    and c: "length (dr_x25519 r) = 32" "in_initCanonical c = None" "length (fi_localDomainSeed (in_cfg c)) = 32"
      "fi_suite (in_cfg c) = pqSuite \<longrightarrow> fi_ephemeralPriv (in_cfg c) = None"
      "\<forall>p. in_ephPriv c = Some p \<longrightarrow> length p = 32"
  obtains priv epub nonce kid i where
    "fedInit E r c = (c\<lparr>in_ephPriv := Some priv, in_ephPub := Some epub, in_nonce := Some nonce,
       in_initCanonical := Some (marshalE E (JObj i))\<rparr>, Inr (marshalE E (JObj i)))"
    "plain (JObj i)" "checkServerMessage E (wire i) pub = Inr ()"
    "\<forall>k. k \<noteq> ''server_signature'' \<longrightarrow> map_of i (js k) = map_of (serverInit_json (e_num E) (e_enc64 E nonce)
       (fi_localServerID (in_cfg c)) (fi_localDomain (in_cfg c))
       \<lparr>kr_algorithm = fi_suite (in_cfg c), kr_key = e_enc64 E epub, kr_key_id = kid\<rparr>
       \<lparr>fd_key_id = in_localDomainKeyId c,
        fd_signature = e_enc64 E (ed_sign (e_prims E) (e_utf8 E IdentityPrefix @ (epub @ nonce)) (fi_localDomainSeed (in_cfg c)))\<rparr>
       (fi_domainProof (in_cfg c)) (fi_capabilities (in_cfg c))) (js k)"
    "key_pair (e_prims E) (fi_suite (in_cfg c)) priv epub"
proof -
  let ?cfg = "in_cfg c"
  let ?p = "case in_ephPriv c of None \<Rightarrow> dr_x25519 r | Some p \<Rightarrow> p"
  let ?n = "case in_nonce c of None \<Rightarrow> dr_nonce r | Some n \<Rightarrow> n"
  obtain priv epub where kp: "key_pair (e_prims E) (fi_suite ?cfg) priv epub" "epub \<noteq> []"
    "fi_suite ?cfg = pqSuite \<Longrightarrow> hybridGenerateKeyPair (e_prims E) (dr_x25519 r) (dr_kemSeed r) = Inr (epub, priv)"
    "fi_suite ?cfg \<noteq> pqSuite \<Longrightarrow> priv = ?p \<and> x_public (e_prims E) ?p = Some epub"
  proof (cases "fi_suite ?cfg = pqSuite")
    case True
    obtain epub priv where k: "hybridGenerateKeyPair (e_prims E) (dr_x25519 r) (dr_kemSeed r) = Inr (epub, priv)"
      by (rule hybridGenerateKeyPair_total [OF env(3) c(1)])
    from hybridGenerateKeyPair_Inr [OF prims_parts(2,1) [OF env(3)] k]
    obtain xPub pk where "epub = pk @ xPub" "length xPub = 32" by metis
    then have "epub \<noteq> []" by auto
    moreover have "key_pair (e_prims E) (fi_suite ?cfg) priv epub" using True k unfolding key_pair_def by auto
    ultimately show ?thesis using True k by (intro that [of priv epub]) simp_all
  next
    case False
    have "length ?p = 32" using c(1,5) by (auto split: option.splits)
    then obtain epub where "x_public (e_prims E) ?p = Some epub"
      using prims_parts(3) [OF env(3)] unfolding prims_total_def by (metis not_None_eq)
    with False public_nonempty [OF prims_parts(1) [OF env(3)] this] show ?thesis
      by (intro that [of ?p epub]) (auto simp: key_pair_def)
  qed
  let ?kid = "bytesToHex (sha256 (e_prims E) epub)"
  have f: "fingerprint (e_prims E) epub = Inr ?kid" using kp(2) by (simp add: fingerprint_def)
  let ?sig = "ed_sign (e_prims E) (e_utf8 E IdentityPrefix @ (epub @ ?n)) (fi_localDomainSeed ?cfg)"
  let ?m = "serverInit_json (e_num E) (e_enc64 E ?n) (fi_localServerID ?cfg) (fi_localDomain ?cfg)
       \<lparr>kr_algorithm = fi_suite ?cfg, kr_key = e_enc64 E epub, kr_key_id = ?kid\<rparr>
       \<lparr>fd_key_id = in_localDomainKeyId c, fd_signature = e_enc64 E ?sig\<rparr> (fi_domainProof ?cfg) (fi_capabilities ?cfg)"
  obtain i where i: "signedBy E ?m (fi_localDomainSeed ?cfg) = Inr i" "plain (JObj i)"
    "checkServerMessage E (wire i) pub = Inr ()"
    "\<forall>k. k \<noteq> ''server_signature'' \<longrightarrow> map_of i (js k) = map_of ?m (js k)"
    by (rule signed_wire [OF env(1,2) c(3) plain_serverInit env(4)])
  have s: "sign (e_prims E) (fi_localDomainSeed ?cfg) x = Inr (ed_sign (e_prims E) x (fi_localDomainSeed ?cfg))" for x
    using c(3) by (simp add: sign_def)
  have "fedInit E r c = (c\<lparr>in_ephPriv := Some priv, in_ephPub := Some epub, in_nonce := Some ?n,
       in_initCanonical := Some (marshalE E (JObj i))\<rparr>, Inr (marshalE E (JObj i)))"
  proof (cases "fi_suite ?cfg = pqSuite")
    case True
    with kp(3) c(4) have k: "hybridGenerateKeyPair (e_prims E) (dr_x25519 r) (dr_kemSeed r) = Inr (epub, priv)"
      "fi_ephemeralPriv ?cfg = None" by simp_all
    show ?thesis using i(1) unfolding fedInit_def Let_def
      by (simp add: True k c(2) f s cr_def bindX_def)
  next
    case False
    with kp(4) have k: "priv = ?p" "x25519PublicKey (e_prims E) ?p = Inr epub" by (simp_all add: x25519PublicKey_def)
    show ?thesis using i(1) unfolding fedInit_def Let_def
      by (simp add: False k c(2) f s cr_def bindX_def)
  qed
  from that [OF this i(2-4) kp(1)] show ?thesis .
qed


section \<open>The RESPONSE\<close>

lemma serverInit_fields:
  fixes i :: "'n obj"
  assumes d: "distinct (map fst i)"
    and i: "\<forall>k. k \<noteq> ''server_signature'' \<longrightarrow> map_of i (js k) = map_of (serverInit_json num nonce serverId domain
       \<lparr>kr_algorithm = suite, kr_key = key, kr_key_id = kid\<rparr> \<lparr>fd_key_id = fk, fd_signature = fs\<rparr> dp caps) (js k)"
  shows "checkHeader (wire i) ''init'' = Inr ()"
    "fld (wire i) ''server_domain'' = Inr (Some (JStr domain))"
    "fld (wire i) ''nonce'' = Inr (Some (JStr nonce))"
    "\<exists>ek. fld (wire i) ''server_ephemeral_key'' = Inr ek \<and> fld ek ''key'' = Inr (Some (JStr key))"
    "\<exists>ip. fld (wire i) ''server_identity_proof'' = Inr ip \<and> fld ip ''signature'' = Inr (Some (JStr fs))"
    "\<exists>dpv. fld (wire i) ''domain_proof'' = Inr dpv \<and> fld dpv ''method'' = Inr (Some (JStr (dm_method dp)))"
    "\<exists>cp. fld (wire i) ''capabilities'' = Inr cp \<and>
       fld cp ''encryption_algorithms'' = Inr (Some (JArr (map JStr (encryption_algorithms caps))))"
  using i by (simp_all add: checkHeader_def fld_wire [OF d] serverInit_json_def serverStepHeader_def keyref_json_def
      federation_proof_json_def domain_proof_json_def capabilities_json_def fld_sorted split: option.splits)

text \<open>What the operator's callbacks of an honest responder do: the lookup finds the domain key, the verifier
  accepts the domain, a ticket is issued.\<close>

definition trusts :: "'n responder_config \<Rightarrow> jstr \<Rightarrow> bytes \<Rightarrow> bool" where
  "trusts cfg domain pub \<longleftrightarrow> fr_peerDomainPubLookup cfg (Some (JStr domain)) = Inr pub \<and>
     (\<forall>v p n. fr_verifier cfg = Some v \<longrightarrow> v (Some (JStr domain)) p n = Inr ())"

lemma checkServerInit_accepts:
  fixes E :: "'n env"
  assumes env: "parse_ok E" "scheme_ok (plat E) seed ipub"
    and s: "trusts (re_cfg s) domain ipub"
      "re_verifier s = (case fr_verifier (re_cfg s) of None \<Rightarrow> trustingVerify | Some v \<Rightarrow> v)"
    and i: "plain (JObj i)" "checkServerMessage E (wire i) ipub = Inr ()" "domain \<noteq> []"
      "\<forall>k. k \<noteq> ''server_signature'' \<longrightarrow> map_of i (js k) = map_of (serverInit_json (e_num E) (e_enc64 E nonce) serverId domain
       \<lparr>kr_algorithm = suite, kr_key = e_enc64 E epub, kr_key_id = kid\<rparr>
       \<lparr>fd_key_id = fk, fd_signature = e_enc64 E (ed_sign (e_prims E) (e_utf8 E IdentityPrefix @ (epub @ nonce)) seed)\<rparr>
       dp caps) (js k)"
    and pick: "List.find (\<lambda>s. s \<in> set (encryption_algorithms caps)) (encryption_algorithms (fr_capabilities (re_cfg s)))
      = Some (fr_suite (re_cfg s))"
  shows "checkServerInit E s (marshalE E (JObj i)) = Inr (wire i, epub, nonce, Some (JStr (dm_method dp)))"
proof -
  have d: "distinct (map fst i)" using i(1) by simp
  let ?sig = "ed_sign (e_prims E) (e_utf8 E IdentityPrefix @ (epub @ nonce)) seed"
  note f0 = serverInit_fields [OF d i(4)]
  from f0(4-7) obtain ek ip dpv cp where f: "fld (wire i) ''server_ephemeral_key'' = Inr ek"
    "fld ek ''key'' = Inr (Some (JStr (e_enc64 E epub)))"
    "fld (wire i) ''server_identity_proof'' = Inr ip" "fld ip ''signature'' = Inr (Some (JStr (e_enc64 E ?sig)))"
    "fld (wire i) ''domain_proof'' = Inr dpv" "fld dpv ''method'' = Inr (Some (JStr (dm_method dp)))"
    "fld (wire i) ''capabilities'' = Inr cp"
    "fld cp ''encryption_algorithms'' = Inr (Some (JArr (map JStr (encryption_algorithms caps))))" by metis
  have dec: "b64 E (Some (JStr (e_enc64 E b))) = Inr b" for b
    using env(2) by (simp add: scheme_ok_def plat_def b64_def)
  have lookup: "callback (fr_peerDomainPubLookup (re_cfg s) (Some (JStr domain))) = (Inr ipub :: 'n hs_error + bytes)"
    using s(1) by (simp add: trusts_def callback_def)
  have ver: "re_verifier s (Some (JStr domain)) p n = Inr ()" for p n
    using s by (auto simp: trusts_def trustingVerify_def split: option.splits)
  have sig: "verify (e_prims E) ipub ?sig (e_utf8 E IdentityPrefix @ epub @ nonce)"
    using env(2) by (simp add: scheme_ok_def plat_def)
  have p: "parseFrame E (marshalE E (JObj i)) = Inr (wire i)" by (rule parse_wire [OF env(1) i(1)])
  show ?thesis unfolding checkServerInit_def Let_def
    by (simp add: p f0(1-3) i(2,3) f lookup dec sig ver pickSuite_array pick)
qed


lemma plain_federationResponse:
  "plain (JObj (federationResponse_json sid (Some (JStr cn)) sn serverId domain ek prf (Some (JStr pm)) suite pol))"
  by (simp add: federationResponse_json_def serverStepHeader_def opt_field_def plain_parts plain_fed_parts)

lemma rspOnInit_ok:
  fixes E :: "'n env"
  assumes env: "parse_ok E" "scheme_ok (plat E) (fr_localDomainSeed (re_cfg s)) rpub" "prims_ok (e_prims E)"
      "\<forall>b. b \<noteq> [] \<longrightarrow> e_enc64 E b \<noteq> []"
    and s: "re_initCanonical s = None" "length (fr_localDomainSeed (re_cfg s)) = 32" "responder_keys_ok (re_cfg s)"
      "fr_suite (re_cfg s) = suite"
    and d: "length (sd_x25519 d) = 32" "length (sd_kemCoins d) = 32"
    and i: "checkServerInit E s (marshalE E (JObj i)) = Inr (wire i, epub, nonce, Some (JStr pm))"
      "fld (wire i) ''server_domain'' = Inr (Some (JStr domain))" "fld (wire i) ''nonce'' = Inr (Some (JStr (e_enc64 E nonce)))"
    and pair: "key_pair (e_prims E) suite priv epub" "fi_suite (in_cfg c) = suite" "in_ephPub c = Some epub"
  obtains s' resp respEph serverNonce shared skid where
    "rspOnInit E d (marshalE E (JObj i)) s = (s', Inr (marshalE E (JObj resp)))" "plain (JObj resp)"
    "checkServerMessage E (wire resp) rpub = Inr ()"
    "\<forall>k. k \<noteq> ''server_signature'' \<longrightarrow> map_of resp (js k) = map_of (federationResponse_json (sd_sessionId d)
       (Some (JStr (e_enc64 E nonce))) (e_enc64 E serverNonce) (fr_localServerID (re_cfg s)) (fr_localDomain (re_cfg s))
       \<lparr>kr_algorithm = suite, kr_key = e_enc64 E respEph, kr_key_id = skid\<rparr>
       \<lparr>fd_key_id = re_localDomainKeyId s, fd_signature = e_enc64 E (ed_sign (e_prims E)
          (e_utf8 E IdentityPrefix @ ((respEph @ serverNonce) @ nonce)) (fr_localDomainSeed (re_cfg s)))\<rparr>
       (Some (JStr pm)) suite (fr_policy (re_cfg s))) (js k)"
    "initiatorShared E c priv respEph = Inr shared"
    "re_cfg s' = re_cfg s" "re_sessionId s' = sd_sessionId d" "re_peerDomain s' = Some (JStr domain)"
    "re_initCanonical s' = Some (marshalE E (JObj i))" "re_respCanonical s' = Some (marshalE E (JObj resp))"
    "re_sessionKeys s' = Some (deriveSessionKeysWithResumption (e_prims E) (e_utf8 E) shared nonce serverNonce)"
    "re_sessionTTL s' = re_sessionTTL s"
proof -
  let ?cfg = "re_cfg s"
  obtain q respEph shared where ag: "responderAgree E d epub s = (s\<lparr>re_ephPriv := q\<rparr>, Inr (respEph, shared))"
    "initiatorShared E c priv respEph = Inr shared" "respEph \<noteq> []"
    by (rule federation_shared [OF env(3) pair(1) s(3) d pair(2,3) s(4)])
  let ?n = "case fr_nonce ?cfg of Some n \<Rightarrow> n | None \<Rightarrow> sd_nonce d"
  let ?kid = "bytesToHex (sha256 (e_prims E) respEph)"
  have f: "cr (fingerprint (e_prims E) respEph) = (Inr ?kid :: 'n hs_error + jstr)" using ag(3) by (simp add: fingerprint_def)
  have g: "cr (sign (e_prims E) (fr_localDomainSeed ?cfg) x) = (Inr (ed_sign (e_prims E) x (fr_localDomainSeed ?cfg)) :: 'n hs_error + bytes)" for x
    using s(2) by (simp add: sign_def)
  let ?m = "federationResponse_json (sd_sessionId d)
       (Some (JStr (e_enc64 E nonce))) (e_enc64 E ?n) (fr_localServerID ?cfg) (fr_localDomain ?cfg)
       \<lparr>kr_algorithm = suite, kr_key = e_enc64 E respEph, kr_key_id = ?kid\<rparr>
       \<lparr>fd_key_id = re_localDomainKeyId s, fd_signature = e_enc64 E (ed_sign (e_prims E)
          (e_utf8 E IdentityPrefix @ ((respEph @ ?n) @ nonce)) (fr_localDomainSeed ?cfg))\<rparr>
       (Some (JStr pm)) suite (fr_policy ?cfg)"
  obtain resp where resp: "signedBy E ?m (fr_localDomainSeed ?cfg) = Inr resp" "plain (JObj resp)"
    "checkServerMessage E (wire resp) rpub = Inr ()" "\<forall>k. k \<noteq> ''server_signature'' \<longrightarrow> map_of resp (js k) = map_of ?m (js k)"
    by (rule signed_wire [OF env(1,2) s(2) plain_federationResponse env(4)])
  let ?keys = "deriveSessionKeysWithResumption (e_prims E) (e_utf8 E) shared nonce ?n"
  let ?s' = "s\<lparr>re_ephPriv := q, re_serverNonce := Some ?n, re_sessionId := sd_sessionId d, re_sessionKeys := Some ?keys,
     re_peerDomain := Some (JStr domain), re_peerNonce := Some nonce, re_initCanonical := Some (marshalE E (JObj i)),
     re_respCanonical := Some (marshalE E (JObj resp))\<rparr>"
  note run = bindX_run [of "responderAgree E d epub" s, OF ag(1)]
  have "rspOnInit E d (marshalE E (JObj i)) s = (?s', Inr (marshalE E (JObj resp)))"
    unfolding rspOnInit_def Let_def
    by (simp add: s(1,4) i run f g resp(1) [unfolded append_assoc] del: cr_Inr)
  from that [OF this resp(2-4) ag(2)] show ?thesis by simp
qed

section \<open>The CONFIRM\<close>

lemma federationResponse_fields:
  fixes resp :: "'n obj"
  assumes d: "distinct (map fst resp)"
    and r: "\<forall>k. k \<noteq> ''server_signature'' \<longrightarrow> map_of resp (js k) = map_of (federationResponse_json sid (Some (JStr cn)) sn
       serverId domain \<lparr>kr_algorithm = suite, kr_key = key, kr_key_id = kid\<rparr> \<lparr>fd_key_id = fk, fd_signature = fs\<rparr>
       (Some (JStr pm)) ng pol) (js k)"
  shows "checkHeader (wire resp) ''response'' = Inr ()" "fld (wire resp) ''step'' = Inr (Some (str ''response''))"
    "fld (wire resp) ''server_domain'' = Inr (Some (JStr domain))"
    "fld (wire resp) ''client_nonce'' = Inr (Some (JStr cn))" "fld (wire resp) ''server_nonce'' = Inr (Some (JStr sn))"
    "fld (wire resp) ''session_id'' = Inr (Some (JStr sid))"
    "\<exists>dv. fld (wire resp) ''domain_verification_result'' = Inr dv \<and> fld dv ''status'' = Inr (Some (str ''verified''))"
    "\<exists>ek. fld (wire resp) ''server_ephemeral_key'' = Inr ek \<and> fld ek ''key'' = Inr (Some (JStr key))"
    "\<exists>ip. fld (wire resp) ''server_identity_proof'' = Inr ip \<and> fld ip ''signature'' = Inr (Some (JStr fs))"
    "\<exists>pl. fld (wire resp) ''federation_policy'' = Inr pl"
  using r by (simp_all add: checkHeader_def fld_wire [OF d] federationResponse_json_def serverStepHeader_def opt_field_def
      keyref_json_def federation_proof_json_def fld_sorted)

lemma plain_federationConfirm: "plain (JObj (federationConfirm_json (Some (JStr sid)) h refusal))"
  by (simp add: federationConfirm_json_def serverStepHeader_def opt_field_def plain_fed_parts)

lemma fedOnResponse_ok:
  fixes E :: "'n env"
  assumes env: "parse_ok E" "scheme_ok (plat E) (fi_localDomainSeed (in_cfg c)) ipub" "\<forall>b. b \<noteq> [] \<longrightarrow> e_enc64 E b \<noteq> []"
      "scheme_ok (plat E) rseed rpub"
    and c: "in_initCanonical c = Some initB" "in_ephPriv c = Some priv" "in_nonce c = Some nonce"
      "length (fi_localDomainSeed (in_cfg c)) = 32"
      "\<forall>f p. fi_policyAcceptor (in_cfg c) = Some f \<longrightarrow> f p = Inr None"
      "fi_peerDomainPubLookup (in_cfg c) (Some (JStr (fi_peerDomain (in_cfg c)))) = Inr rpub"
    and resp: "plain (JObj resp)" "checkServerMessage E (wire resp) rpub = Inr ()"
      "\<forall>k. k \<noteq> ''server_signature'' \<longrightarrow> map_of resp (js k) = map_of (federationResponse_json sid
       (Some (JStr (e_enc64 E nonce))) (e_enc64 E serverNonce) serverId (fi_peerDomain (in_cfg c))
       \<lparr>kr_algorithm = suite, kr_key = e_enc64 E respEph, kr_key_id = skid\<rparr>
       \<lparr>fd_key_id = fk, fd_signature = e_enc64 E (ed_sign (e_prims E)
          (e_utf8 E IdentityPrefix @ ((respEph @ serverNonce) @ nonce)) rseed)\<rparr>
       (Some (JStr pm)) ng pol) (js k)"
      "initiatorShared E c priv respEph = Inr shared"
  obtains c' conf where "fedOnResponse E (marshalE E (JObj resp)) c = (c', Inr (marshalE E (JObj conf)))"
    "plain (JObj conf)" "checkServerMessage E (wire conf) ipub = Inr ()"
    "\<forall>k. k \<noteq> ''server_signature'' \<longrightarrow> map_of conf (js k) = map_of (federationConfirm_json (Some (JStr sid))
      (e_enc64 E (confirmationHash (e_prims E) initB (marshalE E (JObj resp)))) None) (js k)"
    "in_sessionKeys c' = Some (deriveSessionKeysWithResumption (e_prims E) (e_utf8 E) shared nonce serverNonce)"
    "in_sessionId c' = Some (JStr sid)" "fi_peerDomainPubLookup (in_cfg c') = fi_peerDomainPubLookup (in_cfg c)"
    "fi_peerDomain (in_cfg c') = fi_peerDomain (in_cfg c)" "in_ephPriv c' = None"
proof -
  let ?cfg = "in_cfg c"
  let ?keys = "deriveSessionKeysWithResumption (e_prims E) (e_utf8 E) shared nonce serverNonce"
  have d: "distinct (map fst resp)" using resp(1) by simp
  note f0 = federationResponse_fields [OF d resp(3)]
  let ?sig = "ed_sign (e_prims E) (e_utf8 E IdentityPrefix @ ((respEph @ serverNonce) @ nonce)) rseed"
  from f0(7-10) obtain dv ek ip pl where f: "fld (wire resp) ''domain_verification_result'' = Inr dv"
    "fld dv ''status'' = Inr (Some (str ''verified''))" "fld (wire resp) ''server_ephemeral_key'' = Inr ek"
    "fld ek ''key'' = Inr (Some (JStr (e_enc64 E respEph)))" "fld (wire resp) ''server_identity_proof'' = Inr ip"
    "fld ip ''signature'' = Inr (Some (JStr (e_enc64 E ?sig)))" "fld (wire resp) ''federation_policy'' = Inr pl" by metis
  have dec: "b64 E (Some (JStr (e_enc64 E b))) = Inr b" for b
    using env(2) by (simp add: scheme_ok_def plat_def b64_def)
  have sig: "verify (e_prims E) rpub ?sig (e_utf8 E IdentityPrefix @ respEph @ serverNonce @ nonce)"
    using env(4) by (simp add: scheme_ok_def plat_def)
  have lookup: "callback (fi_peerDomainPubLookup ?cfg (Some (JStr (fi_peerDomain ?cfg)))) = (Inr rpub :: 'n hs_error + bytes)"
    using c(6) by (simp add: callback_def)
  have p: "parseFrame E (marshalE E (JObj resp)) = Inr (wire resp)" by (rule parse_wire [OF env(1) resp(1)])
  have rk: "fedResponseKeys E c priv nonce (marshalE E (JObj resp)) = Inr (wire resp, ?keys)"
    using sig resp(2,4) unfolding fedResponseKeys_def Let_def by (simp add: p f0(1-6) f lookup dec)
  let ?ch = "confirmationHash (e_prims E) initB (marshalE E (JObj resp))"
  have ch: "marshalE E (JObj (objOf (wire resp))) = marshalE E (JObj resp)" by (rule marshal_wire [OF resp(1)])
  have acc: "callback ((case fi_policyAcceptor ?cfg of None \<Rightarrow> acceptAllPolicies | Some g \<Rightarrow> g) pl)
      = (Inr None :: 'n hs_error + jstr option)"
  proof (cases "fi_policyAcceptor ?cfg")
    case (Some g)
    then show ?thesis using c(5) [rule_format, OF Some, of pl] by (simp add: callback_def)
  qed (simp add: acceptAllPolicies_def callback_def)
  obtain conf where conf: "signedBy E (federationConfirm_json (Some (JStr sid)) (e_enc64 E ?ch) None) (fi_localDomainSeed ?cfg)
      = Inr conf" "plain (JObj conf)" "checkServerMessage E (wire conf) ipub = Inr ()"
    "\<forall>k. k \<noteq> ''server_signature'' \<longrightarrow> map_of conf (js k)
       = map_of (federationConfirm_json (Some (JStr sid)) (e_enc64 E ?ch) None) (js k)"
    by (rule signed_wire [OF env(1,2) c(4) plain_federationConfirm env(3)])
  let ?c' = "dropInitiatorEphemeral (c\<lparr>in_sessionKeys := Some ?keys\<rparr>)
    \<lparr>in_respCanonical := Some (marshalE E (JObj resp)), in_sessionId := Some (JStr sid)\<rparr>"
  have "fedOnResponse E (marshalE E (JObj resp)) c = (?c', Inr (marshalE E (JObj conf)))"
    unfolding fedOnResponse_def Let_def by (simp add: c(1-3) rk ch f0(6) f(7) acc conf(1))
  from that [OF this conf(2-4)] show ?thesis by (simp add: dropInitiatorEphemeral_def)
qed


section \<open>The ACCEPTED\<close>

lemma federationConfirm_fields:
  fixes m :: "'n obj"
  assumes d: "distinct (map fst m)"
    and m: "\<forall>k. k \<noteq> ''server_signature'' \<longrightarrow>
       map_of m (js k) = map_of (federationConfirm_json (Some (JStr sid)) h None) (js k)"
  shows "checkHeader (wire m) ''confirm'' = Inr ()" "fld (wire m) ''session_id'' = Inr (Some (JStr sid))"
    "fld (wire m) ''confirmation_hash'' = Inr (Some (JStr h))"
    "\<exists>a. fld (wire m) ''federation_acceptance'' = Inr a \<and> fld a ''accepted'' = Inr (Some (JBool True))"
  using m by (simp_all add: checkHeader_def fld_wire [OF d] federationConfirm_json_def serverStepHeader_def
      opt_field_def acceptance_json_def fld_sorted)

lemma federationAccepted_fields:
  fixes m :: "'n obj"
  assumes d: "distinct (map fst m)"
    and m: "\<forall>k. k \<noteq> ''server_signature'' \<longrightarrow>
       map_of m (js k) = map_of (federationAccepted_json num sid ttl ticket) (js k)"
  shows "checkHeader (wire m) ''accepted'' = Inr ()" "fld (wire m) ''step'' = Inr (Some (str ''accepted''))"
    "fld (wire m) ''session_id'' = Inr (Some (JStr sid))" "attr (wire m) ''session_id'' = Some (JStr sid)"
  using m by (simp_all add: checkHeader_def fld_wire [OF d] objOf_wire [OF d] federationAccepted_json_def serverStepHeader_def)

lemma plain_federationAccepted: "plain (JObj (federationAccepted_json num sid ttl ticket))"
  by (simp add: federationAccepted_json_def serverStepHeader_def opt_field_def plain_parts split: option.splits)

lemma rspOnConfirm_ok:
  fixes E :: "'n env"
  assumes env: "parse_ok E" "scheme_ok (plat E) (fr_localDomainSeed (re_cfg s)) rpub" "\<forall>b. b \<noteq> [] \<longrightarrow> e_enc64 E b \<noteq> []"
    and s: "re_initCanonical s = Some initB" "re_respCanonical s = Some respB" "re_sessionKeys s = Some keys"
      "length (fr_localDomainSeed (re_cfg s)) = 32" "fr_peerDomainPubLookup (re_cfg s) (re_peerDomain s) = Inr ipub"
    and tickets: "\<forall>f. issue = Some f \<longrightarrow> (\<exists>t. f keys = Inr t)"
    and conf: "plain (JObj conf)" "checkServerMessage E (wire conf) ipub = Inr ()"
      "\<forall>k. k \<noteq> ''server_signature'' \<longrightarrow> map_of conf (js k) = map_of (federationConfirm_json (Some (JStr (re_sessionId s)))
      (e_enc64 E (confirmationHash (e_prims E) initB respB)) None) (js k)"
  obtains s' acc ticket ss where "rspOnConfirm E issue (marshalE E (JObj conf)) s = (s', Inr (marshalE E (JObj acc)))"
    "plain (JObj acc)" "checkServerMessage E (wire acc) rpub = Inr ()"
    "\<forall>k. k \<noteq> ''server_signature'' \<longrightarrow> map_of acc (js k) =
       map_of (federationAccepted_json (e_num E) (re_sessionId s) (re_sessionTTL s) ticket) (js k)"
    "rspSession s' = Inr ss" "rp_keys ss = keys" "rp_sessionId ss = re_sessionId s" "rp_peerDomain ss = re_peerDomain s"
    "re_ephPriv s' = None"
proof -
  have d: "distinct (map fst conf)" using conf(1) by simp
  note f0 = federationConfirm_fields [OF d conf(3)]
  from f0(4) obtain a where a: "fld (wire conf) ''federation_acceptance'' = Inr a" "fld a ''accepted'' = Inr (Some (JBool True))" by blast
  have dec: "b64 E (Some (JStr (e_enc64 E b))) = Inr b" for b
    using env(2) by (simp add: scheme_ok_def plat_def b64_def)
  have p: "parseFrame E (marshalE E (JObj conf)) = Inr (wire conf)" by (rule parse_wire [OF env(1) conf(1)])
  have chk: "checkConfirm E s (confirmationHash (e_prims E) initB respB) (marshalE E (JObj conf)) = Inr (wire conf)"
    unfolding checkConfirm_def using s(5) by (simp add: p f0(1-3) a conf(2) dec callback_def)
  obtain ticket where t: "(case issue of None \<Rightarrow> Inr None | Some f \<Rightarrow> bindR (callback (f keys)) (\<lambda>t. Inr (Some t)))
      = (Inr ticket :: 'n hs_error + resumption_ticket option)"
  proof (cases issue)
    case (Some g)
    then obtain t where "g keys = Inr t" using tickets by blast
    then show ?thesis using that [of "Some t"] Some by (simp add: callback_def)
  qed (use that in simp)
  obtain acc where acc: "signedBy E (federationAccepted_json (e_num E) (re_sessionId s) (re_sessionTTL s) ticket)
      (fr_localDomainSeed (re_cfg s)) = Inr acc" "plain (JObj acc)" "checkServerMessage E (wire acc) rpub = Inr ()"
    "\<forall>k. k \<noteq> ''server_signature'' \<longrightarrow> map_of acc (js k) =
       map_of (federationAccepted_json (e_num E) (re_sessionId s) (re_sessionTTL s) ticket) (js k)"
    by (rule signed_wire [OF env(1,2) s(4) plain_federationAccepted env(3)])
  let ?ss = "\<lparr>rp_sessionId = re_sessionId s, rp_sessionTTL = re_sessionTTL s, rp_keys = keys, rp_peerDomain = re_peerDomain s\<rparr>"
  let ?s' = "dropResponderEphemeral (s\<lparr>re_finalSession := Some ?ss\<rparr>)"
  have run: "rspOnConfirm E issue (marshalE E (JObj conf)) s = (?s', Inr (marshalE E (JObj acc)))"
    unfolding rspOnConfirm_def by (simp add: s(1-3) chk t acc(1))
  show ?thesis
    by (rule that [OF run acc(2-4), of ?ss]) (simp_all add: rspSession_def dropResponderEphemeral_def)
qed

section \<open>Agreement\<close>

definition honest_federation ::
  "'n env \<Rightarrow> (session_keys \<Rightarrow> resumption_ticket callback) option \<Rightarrow> 'n initiator_config \<Rightarrow> draws \<Rightarrow>
    'n responder_config \<Rightarrow> server_draws \<Rightarrow> bool"
where
  "honest_federation E issue fi r fr d \<longleftrightarrow>
     parse_ok E \<and> prims_ok (e_prims E) \<and> (\<forall>b. b \<noteq> [] \<longrightarrow> e_enc64 E b \<noteq> []) \<and>
     (\<exists>ipub rpub. scheme_ok (plat E) (fi_localDomainSeed fi) ipub \<and> scheme_ok (plat E) (fr_localDomainSeed fr) rpub \<and>
        trusts fr (fi_localDomain fi) ipub \<and> fi_peerDomainPubLookup fi (Some (JStr (fi_peerDomain fi))) = Inr rpub) \<and>
     length (fi_localDomainSeed fi) = 32 \<and> length (fr_localDomainSeed fr) = 32 \<and>
     fi_suite fi \<in> {baseSuite, pqSuite} \<and> fr_suite fr = fi_suite fi \<and>
     fi_localDomain fi \<noteq> [] \<and> fi_localServerID fi \<noteq> [] \<and> fi_peerDomain fi \<noteq> [] \<and> fr_localDomain fr = fi_peerDomain fi \<and>
     (\<forall>p. fi_ephemeralPriv fi = Some p \<longrightarrow> length p = 32 \<and> fi_suite fi = baseSuite) \<and> responder_keys_ok fr \<and>
     (\<forall>f p. fi_policyAcceptor fi = Some f \<longrightarrow> f p = Inr None) \<and>
     (\<forall>f k. issue = Some f \<longrightarrow> (\<exists>t. f k = Inr t)) \<and>
     List.find (\<lambda>s. s \<in> set (encryption_algorithms (fi_capabilities fi))) (encryption_algorithms (fr_capabilities fr))
       = Some (fi_suite fi) \<and>
     length (dr_x25519 r) = 32 \<and> length (sd_x25519 d) = 32 \<and> length (sd_kemCoins d) = 32"

lemma federation_start:
  assumes "prims_ok (e_prims E)" "length (fi_localDomainSeed fi) = 32" "length (fr_localDomainSeed fr) = 32"
    and "fi_suite fi \<in> {baseSuite, pqSuite}" "fr_suite fr = fi_suite fi" "fi_localDomain fi \<noteq> []"
    and "fi_localServerID fi \<noteq> []" "fi_peerDomain fi \<noteq> []" "fr_localDomain fr = fi_peerDomain fi"
  obtains c0 s0 where "newInitiator E fi = Inr c0" "in_cfg c0 = fi" "in_initCanonical c0 = None"
    "in_ephPriv c0 = fi_ephemeralPriv fi" "newResponder E fr = Inr s0" "re_cfg s0 = fr" "re_initCanonical s0 = None"
    "re_verifier s0 = (case fr_verifier fr of None \<Rightarrow> trustingVerify | Some v \<Rightarrow> v)"
proof -
  have f: "\<exists>k. fingerprint (e_prims E) (ed_public (e_prims E) seed) = Inr k" for seed
  proof -
    have "length (ed_public (e_prims E) seed) = 32" using assms(1) by (simp add: prims_ok_def)
    then show ?thesis by (auto simp: fingerprint_def)
  qed
  obtain k1 where k1: "fingerprint (e_prims E) (ed_public (e_prims E) (fi_localDomainSeed fi)) = Inr k1" using f by blast
  obtain k2 where k2: "fingerprint (e_prims E) (ed_public (e_prims E) (fr_localDomainSeed fr)) = Inr k2" using f by blast
  have ne: "fi_localDomainSeed fi \<noteq> []" "fr_localDomainSeed fr \<noteq> []" using assms(2,3) by auto
  have su: "(fi_suite fi \<noteq> baseSuite \<and> fi_suite fi \<noteq> pqSuite) = False" using assms(4) by simp
  have "\<exists>c0. newInitiator E fi = Inr c0 \<and> in_cfg c0 = fi \<and> in_initCanonical c0 = None \<and> in_ephPriv c0 = fi_ephemeralPriv fi"
    by (simp add: newInitiator_def publicKeyFromSeed_def cr_def su assms(2,6-8) ne k1)
  moreover have "\<exists>s0. newResponder E fr = Inr s0 \<and> re_cfg s0 = fr \<and> re_initCanonical s0 = None \<and>
      re_verifier s0 = (case fr_verifier fr of None \<Rightarrow> trustingVerify | Some v \<Rightarrow> v)"
    by (simp add: newResponder_def publicKeyFromSeed_def cr_def su assms(3,5,8,9) ne k2)
  ultimately show ?thesis using that by blast
qed

text \<open>The first half of the run: the INIT and the RESPONSE.\<close>

lemma honest_parts:
  assumes "honest_federation E issue fi r fr d"
  shows "parse_ok E" "prims_ok (e_prims E)" "\<forall>b. b \<noteq> [] \<longrightarrow> e_enc64 E b \<noteq> []"
    "length (fi_localDomainSeed fi) = 32" "length (fr_localDomainSeed fr) = 32"
    "fi_suite fi \<in> {baseSuite, pqSuite}" "fr_suite fr = fi_suite fi" "fi_localDomain fi \<noteq> []" "fi_localServerID fi \<noteq> []"
    "fi_peerDomain fi \<noteq> []" "fr_localDomain fr = fi_peerDomain fi"
    "\<forall>p. fi_ephemeralPriv fi = Some p \<longrightarrow> length p = 32 \<and> fi_suite fi = baseSuite" "responder_keys_ok fr"
    "\<forall>f p. fi_policyAcceptor fi = Some f \<longrightarrow> f p = Inr None" "\<And>k. \<forall>f. issue = Some f \<longrightarrow> (\<exists>t. f k = Inr t)"
    "List.find (\<lambda>s. s \<in> set (encryption_algorithms (fi_capabilities fi))) (encryption_algorithms (fr_capabilities fr))
       = Some (fi_suite fi)"
    "length (dr_x25519 r) = 32" "length (sd_x25519 d) = 32" "length (sd_kemCoins d) = 32"
  using assms unfolding honest_federation_def by simp_all

definition answered ::
  "'n env \<Rightarrow> 'n initiator_config \<Rightarrow> 'n responder_config \<Rightarrow> bytes \<Rightarrow> 'n initiator \<Rightarrow> 'n responder \<Rightarrow> bytes \<Rightarrow> 'n obj \<Rightarrow> bool"
where
  "answered E fi fr rpub c s initB resp \<longleftrightarrow>
     (\<exists>priv nonce sid serverNonce respEph skid shared fk pm.
        in_cfg c = fi \<and> in_initCanonical c = Some initB \<and> in_ephPriv c = Some priv \<and> in_nonce c = Some nonce \<and>
        plain (JObj resp) \<and> checkServerMessage E (wire resp) rpub = Inr () \<and>
        (\<forall>k. k \<noteq> ''server_signature'' \<longrightarrow> map_of resp (js k) = map_of (federationResponse_json sid
          (Some (JStr (e_enc64 E nonce))) (e_enc64 E serverNonce) (fr_localServerID fr) (fi_peerDomain fi)
          \<lparr>kr_algorithm = fi_suite fi, kr_key = e_enc64 E respEph, kr_key_id = skid\<rparr>
          \<lparr>fd_key_id = fk, fd_signature = e_enc64 E (ed_sign (e_prims E)
             (e_utf8 E IdentityPrefix @ ((respEph @ serverNonce) @ nonce)) (fr_localDomainSeed fr))\<rparr>
          (Some (JStr pm)) (fi_suite fi) (fr_policy fr)) (js k)) \<and>
        initiatorShared E c priv respEph = Inr shared \<and> re_cfg s = fr \<and> re_sessionId s = sid \<and>
        re_peerDomain s = Some (JStr (fi_localDomain fi)) \<and> re_initCanonical s = Some initB \<and>
        re_respCanonical s = Some (marshalE E (JObj resp)) \<and>
        re_sessionKeys s = Some (deriveSessionKeysWithResumption (e_prims E) (e_utf8 E) shared nonce serverNonce))"

lemma federation_opening:
  fixes E :: "'n env"
  assumes honest: "honest_federation E issue fi r fr d"
    and K: "scheme_ok (plat E) (fi_localDomainSeed fi) ipub" "scheme_ok (plat E) (fr_localDomainSeed fr) rpub"
    "trusts fr (fi_localDomain fi) ipub"
  obtains c0 s0 c1 s1 initB resp where "newInitiator E fi = Inr c0" "newResponder E fr = Inr s0"
    "fedInit E r c0 = (c1, Inr initB)" "rspOnInit E d initB s0 = (s1, Inr (marshalE E (JObj resp)))"
    "answered E fi fr rpub c1 s1 initB resp"
proof -
  note H = honest_parts [OF honest]
  obtain c0 s0 where start: "newInitiator E fi = Inr c0" "in_cfg c0 = fi" "in_initCanonical c0 = None"
    "in_ephPriv c0 = fi_ephemeralPriv fi" "newResponder E fr = Inr s0" "re_cfg s0 = fr" "re_initCanonical s0 = None"
    "re_verifier s0 = (case fr_verifier fr of None \<Rightarrow> trustingVerify | Some v \<Rightarrow> v)"
    by (rule federation_start [OF H(2,4-11)])
  have pin: "fi_suite (in_cfg c0) = pqSuite \<longrightarrow> fi_ephemeralPriv (in_cfg c0) = None"
    "\<forall>p. in_ephPriv c0 = Some p \<longrightarrow> length p = 32"
    using H(12) unfolding start(2,4) by (cases "fi_ephemeralPriv fi"; simp)+
  note start' = K(1) [folded start(2)] H(4) [folded start(2)]
  obtain priv epub nonce kid i where i: "fedInit E r c0 = (c0\<lparr>in_ephPriv := Some priv, in_ephPub := Some epub, in_nonce := Some nonce,
       in_initCanonical := Some (marshalE E (JObj i))\<rparr>, Inr (marshalE E (JObj i)))" (is "_ = (?c1, _)")
    "plain (JObj i)" "checkServerMessage E (wire i) ipub = Inr ()"
    "\<forall>k. k \<noteq> ''server_signature'' \<longrightarrow> map_of i (js k) = map_of (serverInit_json (e_num E) (e_enc64 E nonce)
       (fi_localServerID fi) (fi_localDomain fi)
       \<lparr>kr_algorithm = fi_suite fi, kr_key = e_enc64 E epub, kr_key_id = kid\<rparr>
       \<lparr>fd_key_id = in_localDomainKeyId c0,
        fd_signature = e_enc64 E (ed_sign (e_prims E) (e_utf8 E IdentityPrefix @ (epub @ nonce)) (fi_localDomainSeed fi))\<rparr>
       (fi_domainProof fi) (fi_capabilities fi)) (js k)"
    "key_pair (e_prims E) (fi_suite fi) priv epub"
    by (rule fedInit_ok [OF H(1) start'(1) H(2,3,17) start(3) start'(2) pin, unfolded start(2)])
  let ?pm = "dm_method (fi_domainProof fi)"
  have chk: "checkServerInit E s0 (marshalE E (JObj i)) = Inr (wire i, epub, nonce, Some (JStr ?pm))"
    by (rule checkServerInit_accepts [OF H(1) K(1) _ _ i(2,3) H(8) i(4)]) (simp_all add: start(6,8) K(3) H(7,16))
  have d: "distinct (map fst i)" using i(2) by simp
  note f = serverInit_fields(2,3) [OF d i(4)]
  have r0: "scheme_ok (plat E) (fr_localDomainSeed (re_cfg s0)) rpub" "length (fr_localDomainSeed (re_cfg s0)) = 32"
    "responder_keys_ok (re_cfg s0)" "fr_suite (re_cfg s0) = fi_suite fi" "fi_suite (in_cfg ?c1) = fi_suite fi"
    "in_ephPub ?c1 = Some epub"
    using K(2) H(5,7,13) by (simp_all add: start(2,6))
  show ?thesis
    apply (rule rspOnInit_ok [OF H(1) r0(1) H(2,3) start(7) r0(2-4) H(18,19) chk f i(5) r0(5,6)])
    subgoal premises p for s1 resp respEph serverNonce shared skid
    proof -
      have "answered E fi fr rpub ?c1 s1 (marshalE E (JObj i)) resp"
        unfolding answered_def
        by (rule exI [of _ priv], rule exI [of _ nonce], rule exI [of _ "sd_sessionId d"], rule exI [of _ serverNonce],
            rule exI [of _ respEph], rule exI [of _ skid], rule exI [of _ shared],
            rule exI [of _ "re_localDomainKeyId s0"], rule exI [of _ ?pm])
           (use p(2-11) in \<open>simp add: start(2,6) H(11)\<close>)
      then show thesis by (rule that [OF start(1,5) i(1) p(1)])
    qed
    done
qed

text \<open>The second half: the CONFIRM and the ACCEPTED.\<close>

lemma federation_closing:
  fixes E :: "'n env"
  assumes honest: "honest_federation E issue fi r fr d"
    and K: "scheme_ok (plat E) (fi_localDomainSeed fi) ipub" "scheme_ok (plat E) (fr_localDomainSeed fr) rpub"
      "trusts fr (fi_localDomain fi) ipub" "fi_peerDomainPubLookup fi (Some (JStr (fi_peerDomain fi))) = Inr rpub"
    and ans: "answered E fi fr rpub c1 s1 initB resp"
  shows "\<exists>c2 c3 s2 confB accB cs ss. fedOnResponse E (marshalE E (JObj resp)) c1 = (c2, Inr confB) \<and>
     rspOnConfirm E issue confB s1 = (s2, Inr accB) \<and>
     fedOnAccepted E accB c2 = (c3, Inr ()) \<and> fedSession c3 = Inr cs \<and> rspSession s2 = Inr ss \<and>
     is_keys cs = rp_keys ss \<and> is_sessionId cs = Some (JStr (rp_sessionId ss)) \<and>
     is_peerDomain cs = fr_localDomain fr \<and> rp_peerDomain ss = Some (JStr (fi_localDomain fi)) \<and>
     re_ephPriv s2 = None \<and> in_ephPriv c3 = None"
proof -
  note H = honest_parts [OF honest]
  from ans obtain priv nonce sid serverNonce respEph skid shared fk pm where A:
    "in_cfg c1 = fi" "in_initCanonical c1 = Some initB" "in_ephPriv c1 = Some priv" "in_nonce c1 = Some nonce"
    "plain (JObj resp)" "checkServerMessage E (wire resp) rpub = Inr ()"
    "\<forall>k. k \<noteq> ''server_signature'' \<longrightarrow> map_of resp (js k) = map_of (federationResponse_json sid
          (Some (JStr (e_enc64 E nonce))) (e_enc64 E serverNonce) (fr_localServerID fr) (fi_peerDomain fi)
          \<lparr>kr_algorithm = fi_suite fi, kr_key = e_enc64 E respEph, kr_key_id = skid\<rparr>
          \<lparr>fd_key_id = fk, fd_signature = e_enc64 E (ed_sign (e_prims E)
             (e_utf8 E IdentityPrefix @ ((respEph @ serverNonce) @ nonce)) (fr_localDomainSeed fr))\<rparr>
          (Some (JStr pm)) (fi_suite fi) (fr_policy fr)) (js k)"
    "initiatorShared E c1 priv respEph = Inr shared" "re_cfg s1 = fr" "re_sessionId s1 = sid"
    "re_peerDomain s1 = Some (JStr (fi_localDomain fi))" "re_initCanonical s1 = Some initB"
    "re_respCanonical s1 = Some (marshalE E (JObj resp))"
    "re_sessionKeys s1 = Some (deriveSessionKeysWithResumption (e_prims E) (e_utf8 E) shared nonce serverNonce)"
    unfolding answered_def by (elim exE conjE)
  have c: "scheme_ok (plat E) (fi_localDomainSeed (in_cfg c1)) ipub" "length (fi_localDomainSeed (in_cfg c1)) = 32"
    "fi_peerDomainPubLookup (in_cfg c1) (Some (JStr (fi_peerDomain (in_cfg c1)))) = Inr rpub"
    using K H(4) by (simp_all add: A(1))
  have pd: "fi_peerDomain fi = fi_peerDomain (in_cfg c1)" by (simp only: A(1))
  have acc: "\<forall>f p. fi_policyAcceptor (in_cfg c1) = Some f \<longrightarrow> f p = Inr None" using H(14) by (simp add: A(1))
  have s: "scheme_ok (plat E) (fr_localDomainSeed (re_cfg s1)) rpub" "length (fr_localDomainSeed (re_cfg s1)) = 32"
    "fr_peerDomainPubLookup (re_cfg s1) (re_peerDomain s1) = Inr ipub"
    using K H(5) by (simp_all add: A(9,11) trusts_def)
  obtain c2 conf where c2: "fedOnResponse E (marshalE E (JObj resp)) c1 = (c2, Inr (marshalE E (JObj conf)))"
    "plain (JObj conf)" "checkServerMessage E (wire conf) ipub = Inr ()"
    "\<forall>k. k \<noteq> ''server_signature'' \<longrightarrow> map_of conf (js k) = map_of (federationConfirm_json (Some (JStr (re_sessionId s1)))
      (e_enc64 E (confirmationHash (e_prims E) initB (marshalE E (JObj resp)))) None) (js k)"
    "in_sessionKeys c2 = Some (deriveSessionKeysWithResumption (e_prims E) (e_utf8 E) shared nonce serverNonce)"
    "in_sessionId c2 = Some (JStr sid)" "fi_peerDomainPubLookup (in_cfg c2) = fi_peerDomainPubLookup (in_cfg c1)"
    "fi_peerDomain (in_cfg c2) = fi_peerDomain (in_cfg c1)" "in_ephPriv c2 = None"
    by (rule fedOnResponse_ok [OF H(1) c(1) H(3) K(2) A(2-4) c(2) acc c(3) A(5,6) A(7)[unfolded pd] A(8), folded A(10)])
      (simp only: A(10))
  obtain s2 acc ticket ss where s2: "rspOnConfirm E issue (marshalE E (JObj conf)) s1 = (s2, Inr (marshalE E (JObj acc)))"
    "plain (JObj acc)" "checkServerMessage E (wire acc) rpub = Inr ()"
    "\<forall>k. k \<noteq> ''server_signature'' \<longrightarrow> map_of acc (js k) =
       map_of (federationAccepted_json (e_num E) (re_sessionId s1) (re_sessionTTL s1) ticket) (js k)"
    "rspSession s2 = Inr ss" "rp_keys ss = deriveSessionKeysWithResumption (e_prims E) (e_utf8 E) shared nonce serverNonce"
    "rp_sessionId ss = re_sessionId s1" "rp_peerDomain ss = re_peerDomain s1" "re_ephPriv s2 = None"
    by (rule rspOnConfirm_ok [OF H(1) s(1) H(3) A(12-14) s(2,3) H(15) c2(2-4)])
  have da: "distinct (map fst acc)" using s2(2) by simp
  note af = federationAccepted_fields [OF da s2(4)]
  have lk: "callback (fi_peerDomainPubLookup (in_cfg c2) (Some (JStr (fi_peerDomain (in_cfg c2))))) = (Inr rpub :: 'n hs_error + bytes)"
    using c(3) by (simp add: c2(7,8) callback_def)
  let ?cs = "initiatorSessionOf E (wire acc) (rp_keys ss) (fi_peerDomain (in_cfg c2))"
  have "fedCheckAccepted E c2 (marshalE E (JObj acc)) = Inr (wire acc)"
    unfolding fedCheckAccepted_def
    by (simp add: parse_wire [OF H(1) s2(2)] af(1-3) c2(6) A(10) lk s2(3))
  then have fin: "fedOnAccepted E (marshalE E (JObj acc)) c2 = (c2\<lparr>in_finalSession := Some ?cs\<rparr>, Inr ())"
    unfolding fedOnAccepted_def by (simp add: c2(5) s2(6))
  show ?thesis
    by (rule exI [of _ c2], rule exI [of _ "c2\<lparr>in_finalSession := Some ?cs\<rparr>"], rule exI [of _ s2],
        rule exI [of _ "marshalE E (JObj conf)"], rule exI [of _ "marshalE E (JObj acc)"], rule exI [of _ ?cs],
        rule exI [of _ ss])
       (use c2(1,8,9) s2(1,5-9) fin af(4) A(1,10,11) H(11) in \<open>simp add: fedSession_def initiatorSessionOf_def Let_def\<close>)
qed

lemma federation_run:
  fixes E :: "'n env"
  assumes honest: "honest_federation E issue fi r fr d"
  shows "\<exists>c0 c1 c2 c3 s0 s1 s2 initB respB confB accB cs ss.
     newInitiator E fi = Inr c0 \<and> newResponder E fr = Inr s0 \<and>
     fedInit E r c0 = (c1, Inr initB) \<and> rspOnInit E d initB s0 = (s1, Inr respB) \<and>
     fedOnResponse E respB c1 = (c2, Inr confB) \<and> rspOnConfirm E issue confB s1 = (s2, Inr accB) \<and>
     fedOnAccepted E accB c2 = (c3, Inr ()) \<and> fedSession c3 = Inr cs \<and> rspSession s2 = Inr ss \<and>
     is_keys cs = rp_keys ss \<and> is_sessionId cs = Some (JStr (rp_sessionId ss)) \<and>
     is_peerDomain cs = fr_localDomain fr \<and> rp_peerDomain ss = Some (JStr (fi_localDomain fi)) \<and>
     re_ephPriv s2 = None \<and> in_ephPriv c3 = None"
proof -
  note H = honest_parts [OF honest]
  obtain ipub rpub where K: "scheme_ok (plat E) (fi_localDomainSeed fi) ipub" "scheme_ok (plat E) (fr_localDomainSeed fr) rpub"
    "trusts fr (fi_localDomain fi) ipub" "fi_peerDomainPubLookup fi (Some (JStr (fi_peerDomain fi))) = Inr rpub"
    using honest unfolding honest_federation_def by blast
  obtain c0 s0 c1 s1 initB resp where run: "newInitiator E fi = Inr c0" "newResponder E fr = Inr s0"
    "fedInit E r c0 = (c1, Inr initB)" "rspOnInit E d initB s0 = (s1, Inr (marshalE E (JObj resp)))"
    "answered E fi fr rpub c1 s1 initB resp"
    by (rule federation_opening [OF honest K(1-3)])
  from federation_closing [OF honest K run(5)] run(1-4) show ?thesis by blast
qed

text \<open>C4. Two honest servers agree: the four messages are built and accepted, and both sides end with a session with
  the same keys and session id, each naming the other's domain; neither keeps its ephemeral private key.\<close>

theorem federation_agreement:
  fixes E :: "'n env"
  assumes "honest_federation E issue fi r fr d"
  shows "\<exists>c0 c1 c2 c3 s0 s1 s2 initB respB confB accB cs ss.
     newInitiator E fi = Inr c0 \<and> newResponder E fr = Inr s0 \<and>
     fedInit E r c0 = (c1, Inr initB) \<and> rspOnInit E d initB s0 = (s1, Inr respB) \<and>
     fedOnResponse E respB c1 = (c2, Inr confB) \<and> rspOnConfirm E issue confB s1 = (s2, Inr accB) \<and>
     fedOnAccepted E accB c2 = (c3, Inr ()) \<and> fedSession c3 = Inr cs \<and> rspSession s2 = Inr ss \<and>
     is_keys cs = rp_keys ss \<and> is_sessionId cs = Some (JStr (rp_sessionId ss)) \<and>
     is_peerDomain cs = fr_localDomain fr \<and> rp_peerDomain ss = Some (JStr (fi_localDomain fi)) \<and>
     re_ephPriv s2 = None \<and> in_ephPriv c3 = None"
  by (rule federation_run [OF assms])


section \<open>A run\<close>

definition demo_initiator :: "jstr \<Rightarrow> int initiator_config" where
  "demo_initiator suite = \<lparr>fi_suite = suite, fi_capabilities = defaultClientCapabilities, fi_localDomain = js ''a.org'',
     fi_localServerID = js ''s1'', fi_localDomainSeed = zeros 32, fi_peerDomainPubLookup = (\<lambda>_. Inr (zeros 32)),
     fi_peerDomain = js ''b.org'', fi_domainProof = \<lparr>dm_method = js ''dns'', dm_data = []\<rparr>, fi_policyAcceptor = None,
     fi_ephemeralPriv = None, fi_nonce = None\<rparr>"

definition demo_responder :: "jstr \<Rightarrow> int responder_config" where
  "demo_responder suite = \<lparr>fr_suite = suite,
     fr_capabilities = defaultClientCapabilities\<lparr>encryption_algorithms := [suite]\<rparr>, fr_localDomain = js ''b.org'',
     fr_localServerID = js ''s2'', fr_localDomainSeed = zeros 32, fr_peerDomainPubLookup = (\<lambda>_. Inr (zeros 32)),
     fr_verifier = Some (\<lambda>domain dp nonce. if domain = Some (JStr (js ''a.org'')) then Inr () else Inl []),
     fr_policy = \<lparr>fp_message_retention = js ''none'', fp_user_discovery = js ''denied'', fp_relay_allowed = False\<rparr>,
     fr_sessionTTL = None, fr_ephemeralPriv = None, fr_hybridRandomness = None, fr_nonce = None\<rparr>"

lemma demo_federation:
  assumes "suite \<in> {baseSuite, pqSuite}"
  shows "honest_federation demo_env None (demo_initiator suite) demo_draws (demo_responder suite) demo_sd"
proof -
  have "scheme_ok (plat demo_env) (zeros 32) (zeros 32)" by (rule demo_env_scheme) simp
  then have "\<exists>ipub rpub. scheme_ok (plat demo_env) (fi_localDomainSeed (demo_initiator suite)) ipub \<and>
      scheme_ok (plat demo_env) (fr_localDomainSeed (demo_responder suite)) rpub \<and>
      trusts (demo_responder suite) (fi_localDomain (demo_initiator suite)) ipub \<and>
      fi_peerDomainPubLookup (demo_initiator suite) (Some (JStr (fi_peerDomain (demo_initiator suite)))) = Inr rpub"
    by (intro exI [of _ "zeros 32"]) (simp add: demo_initiator_def demo_responder_def trusts_def)
  moreover have "List.find (\<lambda>s. s \<in> set (encryption_algorithms (fi_capabilities (demo_initiator suite))))
      (encryption_algorithms (fr_capabilities (demo_responder suite))) = Some (fi_suite (demo_initiator suite))"
    using assms by (auto simp: demo_initiator_def demo_responder_def defaultClientCapabilities_def)
  moreover have "responder_keys_ok (demo_responder suite)" by (simp add: responder_keys_ok_def demo_responder_def)
  ultimately show ?thesis
    using assms demo_parse_ok demo_prims_all(1) unfolding honest_federation_def
    by (simp add: demo_initiator_def demo_responder_def demo_draws_def demo_sd_def js_def)
qed

theorem federation_agreement_witness:
  "\<exists>c0 c1 c2 c3 s0 s1 s2 initB respB confB accB cs ss.
     newInitiator demo_env (demo_initiator pqSuite) = Inr c0 \<and> newResponder demo_env (demo_responder pqSuite) = Inr s0 \<and>
     fedInit demo_env demo_draws c0 = (c1, Inr initB) \<and> rspOnInit demo_env demo_sd initB s0 = (s1, Inr respB) \<and>
     fedOnResponse demo_env respB c1 = (c2, Inr confB) \<and> rspOnConfirm demo_env None confB s1 = (s2, Inr accB) \<and>
     fedOnAccepted demo_env accB c2 = (c3, Inr ()) \<and> fedSession c3 = Inr cs \<and> rspSession s2 = Inr ss \<and>
     is_keys cs = rp_keys ss \<and> is_peerDomain cs = js ''b.org'' \<and> rp_peerDomain ss = Some (str ''a.org'')"
proof -
  have "honest_federation demo_env None (demo_initiator pqSuite) demo_draws (demo_responder pqSuite) demo_sd"
    by (rule demo_federation) simp
  from federation_agreement [OF this] show ?thesis
    unfolding demo_initiator_def demo_responder_def by simp blast
qed

text \<open>The states of a run are reachable.\<close>

lemma federation_reachable:
  assumes "newInitiator E fi = Inr c0" "newResponder E fr = Inr s0" "fedInit E r c0 = (c1, x1)"
    and "rspOnInit E d initB s0 = (s1, y1)" "fedOnResponse E respB c1 = (c2, x2)"
    and "rspOnConfirm E issue confB s1 = (s2, y2)" "fedOnAccepted E accB c2 = (c3, x3)"
  shows "initiator_reach E fi c3" "responder_reach E issue fr s2"
proof -
  have "initiator_reach E fi (initiatorStep E (FAccepted accB) (initiatorStep E (FResponse respB) (initiatorStep E (FInit r) c0)))"
    by (intro initiator_reach.step initiator_reach.start assms(1))
  then show "initiator_reach E fi c3" using assms by simp
  have "responder_reach E issue fr (responderStep E issue (RConfirm confB) (responderStep E issue (RInit d initB) s0))"
    by (intro responder_reach.step responder_reach.start assms(2))
  then show "responder_reach E issue fr s2" using assms by simp
qed

lemma demo_federation_sessions:
  "\<exists>c s cs ss. initiator_reach demo_env (demo_initiator baseSuite) c \<and> fedSession c = Inr cs \<and>
     responder_reach demo_env None (demo_responder baseSuite) s \<and> rspSession s = Inr ss"
proof -
  have "honest_federation demo_env None (demo_initiator baseSuite) demo_draws (demo_responder baseSuite) demo_sd"
    by (rule demo_federation) simp
  from federation_run [OF this] federation_reachable [of demo_env "demo_initiator baseSuite" _ "demo_responder baseSuite"]
  show ?thesis by metis
qed


theorem responder_session_confirmed_witness:
  "\<exists>s x m. responder_reach demo_env None (demo_responder baseSuite) s \<and> rspSession s = Inr x \<and>
     peer_init demo_env (demo_responder baseSuite) s \<and> server_signed demo_env (zeros 32) ''confirm'' m"
proof -
  from demo_federation_sessions obtain s ss where s: "responder_reach demo_env None (demo_responder baseSuite) s"
    "rspSession s = Inr ss" by blast
  have "fr_peerDomainPubLookup (demo_responder baseSuite) x = Inr (zeros 32)" for x by (simp add: demo_responder_def)
  with responder_session_confirmed [OF s] s show ?thesis by (metis sum.inject(2))
qed

end
