(* ===== verification/Spec2Isabelle.thy ===== *)
theory Spec2Isabelle
  imports LogProofs ShamirProofs SchedulerRace Closure Dispatcher HandshakeDriver EnvelopePadding DeviceAuthorization
    DirectoryProofs PartitionProofs StagingProofs UserPolicyProofs PipelineProofs FederationAgreement
begin

text \<open>
  Verification of the SEMP protocol library.
\<close>

end
